(* ===== verification/Prelude.thy ===== *)
theory Prelude
  imports Complex_Main "HOL-Library.AList" "HOL-Library.Product_Lexorder"
    "HOL-Library.List_Lexorder" "HOL-Library.Char_ord"
begin

text \<open>
  What every component of the model shares.

  Python's \<open>float\<close> is modelled by the exact rationals (type \<open>flt\<close>): the arithmetic of
  the code is kept operation by operation, the rounding error of IEEE doubles and the values
  \<open>nan\<close> and \<open>inf\<close> are not modelled (an infinite limit is an option, see the risk
  manager).  Python's \<open>int\<close> is \<open>int\<close>, \<open>str\<close> is \<open>string\<close> (ASCII), a dict whose
  insertion order or sum of values matters is an association list with the update and the delete
  of \<open>HOL-Library.AList\<close>, which keep the insertion order as CPython does.  The clock is an
  argument: an operation that reads \<open>time.time()\<close> takes the time it reads.
\<close>

type_synonym flt = rat
type_synonym ('k, 'v) dict = "('k \<times> 'v) list"

named_theorems model_simps "equations that evaluate the model on concrete inputs"

section \<open>Numbers\<close>

text \<open>\<open>int(x)\<close> truncates towards zero.\<close>

definition py_int :: "flt \<Rightarrow> int" where
  "py_int x = (if x < 0 then \<lceil>x\<rceil> else \<lfloor>x\<rfloor>)"

text \<open>\<open>round(x)\<close>: to the nearest integer, ties to the even one.\<close>

definition py_round :: "flt \<Rightarrow> int" where
  "py_round x =
     (let f = \<lfloor>x\<rfloor>; d = x - of_int f
      in if d < 1/2 then f else if 1/2 < d then f + 1 else if even f then f else f + 1)"

text \<open>\<open>round(x, n)\<close>.\<close>

definition round_nd :: "nat \<Rightarrow> flt \<Rightarrow> flt" where
  "round_nd n x = of_int (py_round (x * 10 ^ n)) / 10 ^ n"

text \<open>\<open>x or y\<close> on floats: zero is false.\<close>

definition or_flt :: "flt \<Rightarrow> flt \<Rightarrow> flt" where
  "or_flt x y = (if x = 0 then y else x)"

lemma py_int_ge: "0 < n \<Longrightarrow> n \<le> py_int x \<Longrightarrow> of_int n \<le> x"
  unfolding py_int_def by (auto split: if_splits) linarith+

lemma py_int_le: "0 \<le> x \<Longrightarrow> of_int (py_int x) \<le> x"
  by (simp add: py_int_def)

lemma py_int_nonneg: "0 \<le> x \<Longrightarrow> 0 \<le> py_int x"
  by (simp add: py_int_def)

lemma py_int_mono: "x \<le> y \<Longrightarrow> py_int x \<le> py_int y"
  unfolding py_int_def
  by (smt (verit) ceiling_mono floor_mono ceiling_le_zero zero_le_floor less_le_not_le not_less
      order_trans)

lemma py_int_of_int [simp]: "py_int (of_int k) = k"
  by (simp add: py_int_def)

lemma py_round_error: "\<bar>of_int (py_round x) - x\<bar> \<le> 1/2"
proof -
  have "0 \<le> x - of_int \<lfloor>x\<rfloor>" "x - of_int \<lfloor>x\<rfloor> < 1"
    by linarith+
  then show ?thesis
    by (auto simp: py_round_def Let_def abs_le_iff)
qed

lemma py_round_of_int [simp]: "py_round (of_int k) = k"
  by (simp add: py_round_def)

lemma round_nd_error: "\<bar>round_nd n x - x\<bar> \<le> 1 / (2 * 10 ^ n)"
proof -
  have "round_nd n x - x = (of_int (py_round (x * 10 ^ n)) - x * 10 ^ n) / 10 ^ n"
    by (simp add: round_nd_def diff_divide_distrib)
  then have "\<bar>round_nd n x - x\<bar> = \<bar>of_int (py_round (x * 10 ^ n)) - x * 10 ^ n\<bar> / 10 ^ n"
    by simp
  also have "\<dots> \<le> (1/2) / 10 ^ n"
    by (rule divide_right_mono[OF py_round_error]) simp
  finally show ?thesis by simp
qed

section \<open>Strings\<close>

definition lower_char :: "char \<Rightarrow> char" where
  "lower_char c =
     (let n = (of_char c :: nat) in if 65 \<le> n \<and> n \<le> 90 then char_of (n + 32) else c)"

text \<open>\<open>s.lower()\<close>, \<open>s.upper()\<close> and \<open>s.strip()\<close> on ASCII text.\<close>

definition py_lower :: "string \<Rightarrow> string" where
  "py_lower s = map lower_char s"

definition upper_char :: "char \<Rightarrow> char" where
  "upper_char c =
     (let n = (of_char c :: nat) in if 97 \<le> n \<and> n \<le> 122 then char_of (n - 32) else c)"

definition py_upper :: "string \<Rightarrow> string" where
  "py_upper s = map upper_char s"

definition py_space :: "char \<Rightarrow> bool" where
  "py_space c = (let n = (of_char c :: nat) in n = 32 \<or> 9 \<le> n \<and> n \<le> 13 \<or> 28 \<le> n \<and> n \<le> 31)"

definition py_strip :: "string \<Rightarrow> string" where
  "py_strip s = rev (dropWhile py_space (rev (dropWhile py_space s)))"

definition or_str :: "string \<Rightarrow> string \<Rightarrow> string" where
  "or_str s t = (if s = [] then t else s)"

fun starts_with :: "string \<Rightarrow> string \<Rightarrow> bool" where
  "starts_with [] s = True"
| "starts_with (p # ps) [] = False"
| "starts_with (p # ps) (c # cs) = (p = c \<and> starts_with ps cs)"

text \<open>\<open>p in s\<close>.\<close>

fun contains :: "string \<Rightarrow> string \<Rightarrow> bool" where
  "contains p [] = (p = [])"
| "contains p (c # cs) = (starts_with p (c # cs) \<or> contains p cs)"

definition ends_with :: "string \<Rightarrow> string \<Rightarrow> bool" where
  "ends_with s suf = starts_with (rev suf) (rev s)"

lemma starts_with_iff: "starts_with p s \<longleftrightarrow> (\<exists>r. s = p @ r)"
  by (induction p s rule: starts_with.induct) auto

lemma ends_with_iff: "ends_with s suf \<longleftrightarrow> (\<exists>r. s = r @ suf)"
  unfolding ends_with_def starts_with_iff by (metis rev_append rev_rev_ident)

section \<open>Dictionaries\<close>

definition dget :: "('k, 'v) dict \<Rightarrow> 'k \<Rightarrow> 'v \<Rightarrow> 'v" where
  "dget d k v = (case map_of d k of None \<Rightarrow> v | Some w \<Rightarrow> w)"

definition dict_ok :: "('k, 'v) dict \<Rightarrow> bool" where
  "dict_ok d = distinct (map fst d)"

definition dsum :: "('k, flt) dict \<Rightarrow> flt" where
  "dsum d = sum_list (map snd d)"

lemma dget_Nil [simp]: "dget [] k v = v"
  by (simp add: dget_def)

lemma dget_update [simp]:
  "dget (AList.update k w d) k' v = (if k' = k then w else dget d k' v)"
  by (simp add: dget_def update_conv')

lemma dget_delete [simp]:
  "dget (AList.delete k d) k' v = (if k' = k then v else dget d k' v)"
  by (simp add: dget_def delete_conv')

lemma dict_ok_Nil [simp]: "dict_ok []"
  by (simp add: dict_ok_def)

lemma dict_ok_update [simp]: "dict_ok d \<Longrightarrow> dict_ok (AList.update k v d)"
  by (simp add: dict_ok_def distinct_update)

lemma dict_ok_delete [simp]: "dict_ok d \<Longrightarrow> dict_ok (AList.delete k d)"
  by (simp add: dict_ok_def distinct_delete)

lemma dict_ok_filter [simp]: "dict_ok d \<Longrightarrow> dict_ok (filter P d)"
  by (auto simp: dict_ok_def distinct_map_filter)

lemma dget_notin: "k \<notin> fst ` set d \<Longrightarrow> dget d k v = v"
  by (simp add: dget_def map_of_eq_None_iff[THEN iffD2])

lemma delete_notin: "k \<notin> fst ` set d \<Longrightarrow> AList.delete k d = d"
  by (induction d) auto

lemma dsum_update:
  "dict_ok d \<Longrightarrow> dsum (AList.update k v d) = dsum d - dget d k 0 + v"
proof (induction d)
  case Nil
  then show ?case by (simp add: dsum_def)
next
  case (Cons p d)
  then show ?case
    by (cases "fst p = k")
      (auto simp: dsum_def dict_ok_def dget_def split: prod.splits)
qed

lemma dsum_delete:
  "dict_ok d \<Longrightarrow> dsum (AList.delete k d) = dsum d - dget d k 0"
proof (induction d)
  case Nil
  then show ?case by (simp add: dsum_def)
next
  case (Cons p d)
  show ?case
  proof (cases "fst p = k")
    case True
    with Cons.prems have "AList.delete k d = d"
      by (intro delete_notin) (auto simp: dict_ok_def)
    with True show ?thesis
      by (cases p) (auto simp: dsum_def dget_def)
  next
    case False
    with Cons show ?thesis
      by (cases p) (auto simp: dsum_def dget_def dict_ok_def)
  qed
qed

text \<open>What holds of all values of a dict, under the operations on dicts.\<close>

definition dict_all :: "('v \<Rightarrow> bool) \<Rightarrow> ('k, 'v) dict \<Rightarrow> bool" where
  "dict_all P d = list_all (\<lambda>(k, v). P v) d"

lemma dict_all_Nil [simp]: "dict_all P []"
  by (simp add: dict_all_def)

lemma dict_all_update [simp]: "dict_all P d \<Longrightarrow> P v \<Longrightarrow> dict_all P (AList.update k v d)"
  unfolding dict_all_def by (induction d) auto

lemma dict_all_delete [simp]: "dict_all P d \<Longrightarrow> dict_all P (AList.delete k d)"
  unfolding dict_all_def AList.delete_eq by (auto simp: list_all_iff)

lemma dict_all_filter [simp]: "dict_all P d \<Longrightarrow> dict_all P (filter Q d)"
  unfolding dict_all_def by (auto simp: list_all_iff)

lemma dict_all_lookup: "map_of d k = Some v \<Longrightarrow> dict_all P d \<Longrightarrow> P v"
  unfolding dict_all_def by (induction d) (auto split: if_splits)

lemma dict_all_dget: "dict_all P d \<Longrightarrow> P v \<Longrightarrow> P (dget d k v)"
  by (auto simp: dget_def intro: dict_all_lookup split: option.split)

lemma dict_all_mono: "dict_all P d \<Longrightarrow> (\<And>v. P v \<Longrightarrow> Q v) \<Longrightarrow> dict_all Q d"
  unfolding dict_all_def by (auto simp: list_all_iff)

lemma dict_all_dsum: "dict_all (\<lambda>v. 0 \<le> v) d \<Longrightarrow> 0 \<le> dsum d"
  unfolding dict_all_def dsum_def by (induction d) auto

lemma dget_le_dsum: "dict_all (\<lambda>v. 0 \<le> v) d \<Longrightarrow> dget d k 0 \<le> dsum d"
proof (induction d)
  case (Cons kv d)
  then have "dget d k 0 \<le> dsum d" "0 \<le> snd kv" "0 \<le> dsum d"
    using dict_all_dsum[of d] by (auto simp: dict_all_def)
  then show ?case by (cases kv) (auto simp: dget_def dsum_def)
qed (simp add: dsum_def)

section \<open>Bounded queues, deques and publication\<close>

text \<open>
  \<open>deque(maxlen=n).append(x)\<close> drops the oldest entry when the deque is full, and
  \<open>appendleft\<close> the last one; \<open>asyncio.Queue(maxsize=n).put_nowait(x)\<close> raises
  \<open>QueueFull\<close> on a full queue, which every publisher of the program swallows: the event is
  skipped for that subscriber.
\<close>

definition deque_append :: "nat \<Rightarrow> 'a list \<Rightarrow> 'a \<Rightarrow> 'a list" where
  "deque_append n xs x = drop (Suc (length xs) - n) (xs @ [x])"

definition deque_appendleft :: "nat \<Rightarrow> 'a list \<Rightarrow> 'a \<Rightarrow> 'a list" where
  "deque_appendleft n xs x = take n (x # xs)"

record 'a queue =
  q_maxsize :: nat
  q_items :: "'a list"

definition put_nowait :: "'a \<Rightarrow> 'a queue \<Rightarrow> 'a queue" where
  "put_nowait x q =
     (if length (q_items q) < q_maxsize q then q\<lparr>q_items := q_items q @ [x]\<rparr> else q)"

definition publish :: "'a \<Rightarrow> 'a queue list \<Rightarrow> 'a queue list" where
  "publish x qs = map (put_nowait x) qs"

definition queues_ok :: "'a queue list \<Rightarrow> bool" where
  "queues_ok qs = list_all (\<lambda>q. length (q_items q) \<le> q_maxsize q) qs"

lemma length_deque_append: "length xs \<le> n \<Longrightarrow> length (deque_append n xs x) \<le> n"
  by (auto simp: deque_append_def)

lemma length_deque_appendleft: "length (deque_appendleft n xs x) \<le> n"
  by (simp add: deque_appendleft_def)

lemma set_deque_append: "set (deque_append n xs x) \<subseteq> insert x (set xs)"
  unfolding deque_append_def by (rule subset_trans[OF set_drop_subset]) simp

lemma last_deque_append: "0 < n \<Longrightarrow> last (deque_append n xs x) = x"
  by (simp add: deque_append_def last_drop)

lemma queues_ok_publish [simp]: "queues_ok qs \<Longrightarrow> queues_ok (publish x qs)"
  by (auto simp: queues_ok_def publish_def put_nowait_def list_all_iff)

lemma length_publish [simp]: "length (publish x qs) = length qs"
  by (simp add: publish_def)

section \<open>Machines with an invariant\<close>

text \<open>
  Most components are a state changed by a sequence of operations.  The contract every one of
  them has to meet is that each operation keeps the component's invariant; a run of any
  operations then keeps it, and what the invariant implies holds all along the run.
\<close>

locale invariant_machine =
  fixes step :: "'e \<Rightarrow> 's \<Rightarrow> 's"
    and inv :: "'s \<Rightarrow> bool"
  assumes step_inv: "inv s \<Longrightarrow> inv (step e s)"
begin

lemma run_inv: "inv s \<Longrightarrow> inv (fold step es s)"
  by (induction es arbitrary: s) (auto intro: step_inv)

lemma run_safe:
  assumes "inv s" and "\<And>s. inv s \<Longrightarrow> safe s"
  shows "safe (fold step es s)"
  using assms run_inv by blast

end

text \<open>
  A guarded machine: the invariant is kept only by the steps whose guard held in the state they
  were taken from, as the code checks before it acts.
\<close>

primrec guarded_run :: "('e \<Rightarrow> 's \<Rightarrow> 's) \<Rightarrow> ('e \<Rightarrow> 's \<Rightarrow> bool) \<Rightarrow> 'e list \<Rightarrow> 's \<Rightarrow> bool" where
  "guarded_run step guard [] s = True"
| "guarded_run step guard (e # es) s = (guard e s \<and> guarded_run step guard es (step e s))"

locale guarded_machine =
  fixes step :: "'e \<Rightarrow> 's \<Rightarrow> 's"
    and guard :: "'e \<Rightarrow> 's \<Rightarrow> bool"
    and inv :: "'s \<Rightarrow> bool"
  assumes guarded_inv: "inv s \<Longrightarrow> guard e s \<Longrightarrow> inv (step e s)"
begin

lemma guarded_run_inv: "inv s \<Longrightarrow> guarded_run step guard es s \<Longrightarrow> inv (fold step es s)"
  by (induction es arbitrary: s) (auto intro: guarded_inv)

end

end
