(* ===== verification/Fees.thy ===== *)
theory Fees
  imports Prelude
begin

text \<open>
  The venues' fee schedules.  The first group models the fee functions of
  \<open>arbiter/config/settings.py\<close> and \<open>compute_fee\<close> of \<open>arbiter/scanner/arbitrage.py\<close>; the
  second the shadow copies of \<open>arbiter/audit/math_auditor.py\<close>, which the auditor keeps
  independent of the scanner on purpose.  The locale \<open>fee_schedule\<close> is the contract a venue's
  order fee has to meet; every venue is an interpretation of it.
\<close>

section \<open>The fee functions of the configuration\<close>

definition kalshi_taker_fee_rate :: flt where
  "kalshi_taker_fee_rate = 7/100"

definition polymarket_default_taker_fee_rate :: flt where
  "polymarket_default_taker_fee_rate = 5/100"

definition forecastex_taker_fee_per_contract :: flt where
  "forecastex_taker_fee_per_contract = 5/1000"

definition clamp_probability :: "flt \<Rightarrow> flt" where
  "clamp_probability price = max 0 (min 1 price)"

definition kalshi_order_fee :: "flt \<Rightarrow> flt \<Rightarrow> flt \<Rightarrow> flt" where
  "kalshi_order_fee price0 quantity0 fee_rate =
     (let quantity = max quantity0 0;
          price = clamp_probability price0
      in if quantity \<le> 0 \<or> price \<le> 0 then 0
         else let raw_fee = fee_rate * quantity * price * (1 - price)
              in of_int \<lceil>raw_fee * 100 - 1 / 10 ^ 9\<rceil> / 100)"

definition kalshi_fee :: "flt \<Rightarrow> flt \<Rightarrow> flt" where
  "kalshi_fee price quantity0 =
     (let quantity = max quantity0 1
      in kalshi_order_fee price quantity kalshi_taker_fee_rate / quantity)"

definition fallback_rates :: "(string, flt) dict" where
  "fallback_rates =
     [(''crypto'', 72/1000), (''sports'', 3/100), (''finance'', 4/100), (''politics'', 4/100),
      (''economics'', 5/100), (''culture'', 5/100), (''weather'', 5/100), (''tech'', 4/100),
      (''mentions'', 4/100), (''geopolitics'', 0),
      (''default'', polymarket_default_taker_fee_rate)]"

definition fallback_rate :: "string \<Rightarrow> flt" where
  "fallback_rate category =
     dget fallback_rates category (dget fallback_rates ''default'' 0)"

definition polymarket_order_fee :: "flt \<Rightarrow> flt \<Rightarrow> flt option \<Rightarrow> string \<Rightarrow> flt" where
  "polymarket_order_fee price0 quantity0 fee_rate category =
     (let quantity = max quantity0 0;
          price = clamp_probability price0
      in if quantity \<le> 0 \<or> price \<le> 0 then 0
         else let resolved_rate =
                    max (case fee_rate of Some r \<Rightarrow> r | None \<Rightarrow> fallback_rate category) 0
              in if resolved_rate \<le> 0 then 0
                 else resolved_rate * quantity * price * (1 - price))"

definition polymarket_fee :: "flt \<Rightarrow> string \<Rightarrow> flt \<Rightarrow> flt option \<Rightarrow> flt" where
  "polymarket_fee price category quantity0 fee_rate =
     (let quantity = max quantity0 1
      in polymarket_order_fee price quantity fee_rate category / quantity)"

definition forecastex_order_fee :: "flt \<Rightarrow> flt \<Rightarrow> flt \<Rightarrow> flt" where
  "forecastex_order_fee price0 quantity0 fee_per_contract =
     (let quantity = max quantity0 0;
          price = clamp_probability price0
      in if quantity \<le> 0 \<or> price \<le> 0 then 0 else max fee_per_contract 0 * quantity)"

definition forecastex_fee :: "flt \<Rightarrow> flt \<Rightarrow> flt" where
  "forecastex_fee price quantity0 =
     (let quantity = max quantity0 1
      in forecastex_order_fee price quantity forecastex_taker_fee_per_contract / quantity)"

definition polymarket_us_order_fee :: "flt \<Rightarrow> flt \<Rightarrow> string \<Rightarrow> flt" where
  "polymarket_us_order_fee price qty intent =
     (let theta = (if intent = ''taker'' then 5/100 else - 125/10000);
          raw = theta * qty * price * (1 - price)
      in of_int (py_round (raw * 100)) / 100)"

text \<open>\<open>compute_fee\<close> of the scanner: the order fee of a venue, by its name.\<close>

definition compute_fee :: "string \<Rightarrow> flt \<Rightarrow> int \<Rightarrow> flt \<Rightarrow> flt" where
  "compute_fee platform price quantity fee_rate =
     (if quantity \<le> 0 then 0
      else if platform = ''kalshi'' then
        kalshi_order_fee price (of_int quantity) kalshi_taker_fee_rate
      else if platform = ''polymarket'' then
        polymarket_order_fee price (of_int quantity)
          (if fee_rate = 0 then None else Some fee_rate) ''politics''
      else if platform = ''forecastex'' then
        forecastex_order_fee price (of_int quantity) (or_flt fee_rate (5/1000))
      else 0)"

section \<open>The auditor's shadow fees\<close>

definition shadow_kalshi_fee :: "flt \<Rightarrow> int \<Rightarrow> flt" where
  "shadow_kalshi_fee price quantity0 =
     (let quantity = max quantity0 1;
          raw_fee = 7/100 * of_int quantity * price * (1 - price)
      in of_int \<lceil>raw_fee * 100 - 1 / 10 ^ 9\<rceil> / 100 / of_int quantity)"

definition shadow_rates :: "(string, flt) dict" where
  "shadow_rates =
     [(''crypto'', 72/1000), (''sports'', 3/100), (''finance'', 4/100), (''politics'', 4/100),
      (''economics'', 5/100), (''culture'', 5/100), (''weather'', 5/100), (''tech'', 4/100),
      (''mentions'', 4/100), (''geopolitics'', 0), (''default'', 5/100)]"

definition shadow_polymarket_fee :: "flt \<Rightarrow> string \<Rightarrow> int \<Rightarrow> flt option \<Rightarrow> flt" where
  "shadow_polymarket_fee price category quantity0 fee_rate =
     (let rate = (case fee_rate of
                    None \<Rightarrow> dget shadow_rates category (dget shadow_rates ''default'' 0)
                  | Some r \<Rightarrow> max r 0);
          quantity = max quantity0 1
      in rate * price * (1 - price) * of_int quantity / of_int quantity)"

definition shadow_forecastex_fee :: "flt \<Rightarrow> int \<Rightarrow> flt option \<Rightarrow> flt" where
  "shadow_forecastex_fee price quantity fee_rate =
     (let per_contract0 = (case fee_rate of None \<Rightarrow> 5/1000 | Some r \<Rightarrow> or_flt r (5/1000));
          per_contract = (if per_contract0 < 0 then 0 else per_contract0)
      in if price \<le> 0 then 0 else per_contract)"

definition shadow_compute_fee :: "string \<Rightarrow> flt \<Rightarrow> int \<Rightarrow> flt option \<Rightarrow> flt" where
  "shadow_compute_fee platform price quantity fee_rate =
     (if platform = ''kalshi'' then shadow_kalshi_fee price quantity
      else if platform = ''polymarket'' then
        shadow_polymarket_fee price ''politics'' quantity fee_rate
      else if platform = ''forecastex'' then shadow_forecastex_fee price quantity fee_rate
      else 0)"

lemmas fee_defs = kalshi_order_fee_def polymarket_order_fee_def forecastex_order_fee_def
  compute_fee_def kalshi_taker_fee_rate_def polymarket_default_taker_fee_rate_def
  forecastex_taker_fee_per_contract_def fallback_rates_def fallback_rate_def
  clamp_probability_def or_flt_def

lemmas shadow_fee_defs = shadow_compute_fee_def shadow_kalshi_fee_def shadow_polymarket_fee_def
  shadow_forecastex_fee_def shadow_rates_def or_flt_def

declare fee_defs [model_simps] shadow_fee_defs [model_simps]

section \<open>The contract of a fee schedule\<close>

lemma clamp_range: "0 \<le> clamp_probability p" "clamp_probability p \<le> 1"
  by (auto simp: clamp_probability_def)

lemma clamp_id [simp]: "0 \<le> p \<Longrightarrow> p \<le> 1 \<Longrightarrow> clamp_probability p = p"
  by (simp add: clamp_probability_def)

lemma clamp_le_zero_iff: "clamp_probability p \<le> 0 \<longleftrightarrow> p \<le> 0"
  by (auto simp: clamp_probability_def min_def max_def split: if_splits)

lemma variance_nonneg: "0 \<le> clamp_probability p * (1 - clamp_probability p)"
  using clamp_range[of p] by simp

text \<open>
  \<open>fee p q\<close> is the fee of an order of \<open>q\<close> contracts at price \<open>p\<close>: never negative, nothing
  for an empty or a worthless order, and never less for a larger order.  What the clients of a
  schedule use is proved once here.
\<close>

locale fee_schedule =
  fixes fee :: "flt \<Rightarrow> flt \<Rightarrow> flt"
  assumes fee_nonneg: "0 \<le> fee p q"
    and fee_empty: "q \<le> 0 \<Longrightarrow> fee p q = 0"
    and fee_worthless: "p \<le> 0 \<Longrightarrow> fee p q = 0"
    and fee_mono: "q \<le> q' \<Longrightarrow> fee p q \<le> fee p q'"
begin

lemma per_contract_nonneg: "0 < q \<Longrightarrow> 0 \<le> fee p q / q"
  by (simp add: fee_nonneg)

lemma edge_after_fee_le: "0 < q \<Longrightarrow> g - fee p q / q \<le> g"
  using per_contract_nonneg by simp

lemma fee_max: "fee p (max q q') = max (fee p q) (fee p q')"
  by (metis fee_mono max.absorb1 max.absorb2 linear)

end

lemma kalshi_raw_mono:
  assumes "0 \<le> v" and "q \<le> q'"
  shows "\<lceil>7/100 * q * v * 100 - 1 / 10 ^ 9 :: flt\<rceil> \<le> \<lceil>7/100 * q' * v * 100 - 1 / 10 ^ 9\<rceil>"
  by (rule ceiling_mono) (use assms mult_right_mono[of q q' v] in simp)

lemma kalshi_order_fee_eq:
  "kalshi_order_fee p q (7/100) =
     (if q \<le> 0 \<or> p \<le> 0 then 0
      else of_int \<lceil>7/100 * q * (clamp_probability p * (1 - clamp_probability p)) * 100
             - 1 / 10 ^ 9\<rceil> / 100)"
proof (cases "q \<le> 0 \<or> p \<le> 0")
  case True
  then show ?thesis by (auto simp: kalshi_order_fee_def clamp_probability_def Let_def)
next
  case False
  then have "max q 0 = q" "\<not> clamp_probability p \<le> 0"
    by (auto simp: clamp_probability_def)
  with False show ?thesis by (simp add: kalshi_order_fee_def Let_def mult.assoc)
qed

lemma ceiling_slack_nonneg: "0 \<le> x \<Longrightarrow> 0 \<le> \<lceil>x - 1 / 10 ^ 9 :: flt\<rceil>"
  by (simp add: le_ceiling_iff)

interpretation kalshi: fee_schedule "\<lambda>p q. kalshi_order_fee p q kalshi_taker_fee_rate"
proof unfold_locales
  fix p q q' :: flt
  let ?v = "clamp_probability p * (1 - clamp_probability p)"
  have v: "0 \<le> ?v" by (rule variance_nonneg)
  have nn: "0 \<le> \<lceil>7/100 * r * ?v * 100 - 1 / 10 ^ 9 :: flt\<rceil>" if "0 \<le> r" for r
    by (rule ceiling_slack_nonneg) (use that v in simp)
  show "0 \<le> kalshi_order_fee p q kalshi_taker_fee_rate"
    using nn[of q] by (simp add: kalshi_order_fee_eq kalshi_taker_fee_rate_def)
  show "q \<le> 0 \<Longrightarrow> kalshi_order_fee p q kalshi_taker_fee_rate = 0"
    by (simp add: kalshi_order_fee_eq kalshi_taker_fee_rate_def)
  show "p \<le> 0 \<Longrightarrow> kalshi_order_fee p q kalshi_taker_fee_rate = 0"
    by (simp add: kalshi_order_fee_eq kalshi_taker_fee_rate_def)
  show "kalshi_order_fee p q kalshi_taker_fee_rate \<le> kalshi_order_fee p q' kalshi_taker_fee_rate"
    if "q \<le> q'"
    using nn[of q'] kalshi_raw_mono[OF v that] that
    by (auto simp: kalshi_order_fee_eq kalshi_taker_fee_rate_def divide_right_mono)
qed

lemma polymarket_order_fee_eq:
  "polymarket_order_fee p q fr cat =
     max (case fr of Some r \<Rightarrow> r | None \<Rightarrow> fallback_rate cat) 0 * max q 0 *
     (clamp_probability p * (1 - clamp_probability p))"
proof (cases "q \<le> 0 \<or> p \<le> 0")
  case True
  then show ?thesis by (auto simp: polymarket_order_fee_def clamp_probability_def Let_def)
next
  case False
  then have "max q 0 = q" "\<not> clamp_probability p \<le> 0"
    by (auto simp: clamp_probability_def)
  with False show ?thesis by (simp add: polymarket_order_fee_def Let_def mult.assoc)
qed

interpretation polymarket: fee_schedule "\<lambda>p q. polymarket_order_fee p q fr cat"
proof unfold_locales
  fix p q q' :: flt
  have v: "0 \<le> clamp_probability p * (1 - clamp_probability p)" by (rule variance_nonneg)
  show "0 \<le> polymarket_order_fee p q fr cat"
    unfolding polymarket_order_fee_eq by (intro mult_nonneg_nonneg v) simp_all
  show "q \<le> 0 \<Longrightarrow> polymarket_order_fee p q fr cat = 0"
    by (simp add: polymarket_order_fee_eq)
  show "p \<le> 0 \<Longrightarrow> polymarket_order_fee p q fr cat = 0"
    by (simp add: polymarket_order_fee_eq clamp_probability_def)
  show "polymarket_order_fee p q fr cat \<le> polymarket_order_fee p q' fr cat" if "q \<le> q'"
    unfolding polymarket_order_fee_eq
    by (intro mult_right_mono mult_left_mono v) (use that in auto)
qed

lemma forecastex_order_fee_eq:
  "forecastex_order_fee p q c = (if p \<le> 0 then 0 else max c 0 * max q 0)"
  by (simp add: forecastex_order_fee_def Let_def clamp_le_zero_iff)

interpretation forecastex: fee_schedule "\<lambda>p q. forecastex_order_fee p q c"
proof unfold_locales
  fix p q q' :: flt
  show "0 \<le> forecastex_order_fee p q c"
    by (simp add: forecastex_order_fee_eq)
  show "q \<le> 0 \<Longrightarrow> forecastex_order_fee p q c = 0" "p \<le> 0 \<Longrightarrow> forecastex_order_fee p q c = 0"
    by (simp_all add: forecastex_order_fee_eq)
  show "q \<le> q' \<Longrightarrow> forecastex_order_fee p q c \<le> forecastex_order_fee p q' c"
    by (simp add: forecastex_order_fee_eq mult_left_mono max.coboundedI1)
qed

text \<open>The scanner's dispatch inherits the contract, whatever the venue and the fee rate.\<close>

lemma compute_fee_cases:
  assumes "0 < quantity"
  shows "compute_fee platform price quantity fee_rate =
    (if platform = ''kalshi'' then
       kalshi_order_fee price (of_int quantity) kalshi_taker_fee_rate
     else if platform = ''polymarket'' then
       polymarket_order_fee price (of_int quantity)
         (if fee_rate = 0 then None else Some fee_rate) ''politics''
     else if platform = ''forecastex'' then
       forecastex_order_fee price (of_int quantity) (or_flt fee_rate (5/1000))
     else 0)"
  using assms by (simp add: compute_fee_def)

lemma compute_fee_nonneg: "0 \<le> compute_fee platform price quantity fee_rate"
  by (simp add: compute_fee_def kalshi.fee_nonneg polymarket.fee_nonneg forecastex.fee_nonneg)

lemma compute_fee_mono:
  "quantity \<le> quantity' \<Longrightarrow>
   compute_fee platform price quantity fee_rate \<le> compute_fee platform price quantity' fee_rate"
  using compute_fee_nonneg[of platform price quantity' fee_rate]
  by (cases "quantity \<le> 0")
    (simp_all add: compute_fee_def kalshi.fee_mono polymarket.fee_mono forecastex.fee_mono)

section \<open>The scanner and the shadow auditor agree on fees\<close>

lemma max_pos [simp]:
  "0 < (n::int) \<Longrightarrow> max n 1 = n" "0 < n \<Longrightarrow> max (of_int n) 0 = (of_int n :: flt)"
  by auto

lemma shadow_kalshi_agrees:
  assumes "0 < p" "p < 1" "0 < n"
  shows "kalshi_order_fee p (of_int n) kalshi_taker_fee_rate / of_int n = shadow_kalshi_fee p n"
  using assms
  by (simp add: kalshi_taker_fee_rate_def kalshi_order_fee_eq shadow_kalshi_fee_def mult.assoc)

lemma shadow_polymarket_agrees:
  assumes "0 < p" "p < 1" "0 < n"
  shows "polymarket_order_fee p (of_int n) (Some r) c / of_int n = shadow_polymarket_fee p c' n (Some r)"
  using assms
  by (simp add: polymarket_order_fee_eq shadow_polymarket_fee_def max_def)

lemma shadow_forecastex_agrees:
  assumes "0 < p" "p < 1" "0 < n"
  shows "forecastex_order_fee p (of_int n) (or_flt r (5/1000)) / of_int n
       = shadow_forecastex_fee p n (Some r)"
  using assms
  by (cases "or_flt r (5/1000) < 0") (simp_all add: forecastex_order_fee_eq shadow_forecastex_fee_def)

text \<open>
  The agreement needs the price strictly between 0 and 1 (every quote the scanner keeps) and, on
  Polymarket, a fee rate that is not zero.
\<close>

lemma fee_agreement:
  assumes "0 < p" "p < 1" "0 < n" and "platform = ''polymarket'' \<Longrightarrow> r \<noteq> 0"
  shows "compute_fee platform p n r / of_int n = shadow_compute_fee platform p n (Some r)"
proof -
  consider "platform = ''kalshi''" | "platform = ''polymarket''" | "platform = ''forecastex''"
    | "platform \<notin> {''kalshi'', ''polymarket'', ''forecastex''}" by blast
  then show ?thesis
  proof cases
    case 1
    with assms show ?thesis
      by (simp add: compute_fee_cases shadow_compute_fee_def shadow_kalshi_agrees)
  next
    case 2
    with assms show ?thesis
      by (simp add: compute_fee_cases shadow_compute_fee_def
          shadow_polymarket_agrees[of p n r "''politics''" "''politics''"])
  next
    case 3
    have "forecastex_order_fee p (of_int n) (or_flt r (5/1000)) / of_int n
        = shadow_forecastex_fee p n (Some r)"
      using assms by (intro shadow_forecastex_agrees)
    with 3 assms show ?thesis
      by (simp add: compute_fee_cases shadow_compute_fee_def)
  next
    case 4
    with assms show ?thesis by (simp add: compute_fee_cases shadow_compute_fee_def)
  qed
qed

text \<open>
  The scanner's fee per contract is exactly the fee the shadow auditor recomputes, for every
  venue (a name that is none of the three costs nothing on both sides), every price strictly
  between 0 and 1, every positive quantity, and every fee rate the quote carries, as long as a
  Polymarket quote does not carry a zero rate.
\<close>

theorem scanner_fee_agrees_with_shadow:
  assumes "0 < p" "p < 1" "0 < n" and "platform = ''polymarket'' \<Longrightarrow> r \<noteq> 0"
  shows "compute_fee platform p n r / of_int n = shadow_compute_fee platform p n (Some r)"
  using assms by (rule fee_agreement)

theorem scanner_fee_agrees_with_shadow_witness:
  "compute_fee ''kalshi'' (1/2) 10 0 / of_int 10 = shadow_compute_fee ''kalshi'' (1/2) 10 (Some 0)"
  by (rule scanner_fee_agrees_with_shadow) simp_all

text \<open>
  The exception is a real disagreement: a zero rate on a Polymarket quote is falsy, so the
  scanner falls back to the 4 percent rate of the category while the auditor, which tests
  \<open>is not None\<close>, takes the zero as the market's rate.  The gap per contract is
  4 percent of p(1-p), 0.01 at p = 1/2, ten times the auditor's discrepancy threshold.
\<close>

theorem polymarket_zero_rate_gap:
  assumes "0 < p" "p < 1" "0 < n"
  shows "compute_fee ''polymarket'' p n 0 / of_int n
         - shadow_compute_fee ''polymarket'' p n (Some 0) = 4/100 * (p * (1 - p))"
  using assms
  by (simp add: compute_fee_cases polymarket_order_fee_eq fallback_rate_def fallback_rates_def
      dget_def shadow_compute_fee_def shadow_polymarket_fee_def)

theorem polymarket_zero_rate_gap_witness:
  "compute_fee ''polymarket'' (1/2) 10 0 / of_int 10
     - shadow_compute_fee ''polymarket'' (1/2) 10 (Some 0) = 1/100"
  using polymarket_zero_rate_gap[of "1/2" 10] by simp

section \<open>Bounds of the rounded fees\<close>

text \<open>
  Kalshi's fee of an order is a whole number of cents, is at least the quadratic fee (up to
  the code's slack of \<open>1e-9\<close> cents), and exceeds it by less than one cent however large the
  order.
\<close>

theorem kalshi_order_fee_bounds:
  assumes "0 < p" "p < 1" "0 < q"
  shows "\<exists>k. kalshi_order_fee p q kalshi_taker_fee_rate = of_int k / 100
        \<and> 7/100 * q * p * (1 - p) - 1 / 10 ^ 11 \<le> of_int k / 100
        \<and> of_int k / 100 < 7/100 * q * p * (1 - p) + 1/100"
proof -
  let ?x = "7/100 * q * p * (1 - p) * 100 - 1 / 10 ^ 9 :: flt"
  have "max q 0 = q" using assms by simp
  then have eq: "kalshi_order_fee p q kalshi_taker_fee_rate = of_int \<lceil>?x\<rceil> / 100"
    using assms by (simp add: kalshi_taker_fee_rate_def kalshi_order_fee_def)
  have "of_int \<lceil>?x\<rceil> - 1 < ?x" "?x \<le> of_int \<lceil>?x\<rceil>"
    using ceiling_correct[of ?x] by blast+
  then show ?thesis
    by (intro exI[of _ "\<lceil>?x\<rceil>"]) (simp add: eq)
qed

theorem kalshi_order_fee_bounds_witness:
  "\<exists>k. kalshi_order_fee (1/2) 10 kalshi_taker_fee_rate = of_int k / 100
        \<and> 7/100 * 10 * (1/2) * (1 - 1/2) - 1 / 10 ^ 11 \<le> (of_int k / 100 :: flt)
        \<and> of_int k / 100 < 7/100 * 10 * (1/2) * (1 - 1/2) + (1/100 :: flt)"
  by (rule kalshi_order_fee_bounds) simp_all

text \<open>
  Polymarket US rounds to the nearest cent: off by at most half a cent, never a negative fee for
  a taker, never a positive one (a rebate) for a maker.
\<close>

lemma py_round_sign: "0 \<le> x \<Longrightarrow> 0 \<le> py_round x" "x \<le> 0 \<Longrightarrow> py_round x \<le> 0"
  using py_round_error[of x] by linarith+

lemma polymarket_us_rounding:
  assumes "0 \<le> p" "p \<le> 1" "0 \<le> q"
  shows "\<bar>polymarket_us_order_fee p q ''taker'' - 5/100 * q * p * (1 - p)\<bar> \<le> 1/200"
    and "0 \<le> polymarket_us_order_fee p q ''taker''"
    and "polymarket_us_order_fee p q ''maker'' \<le> 0"
proof -
  have v: "0 \<le> q * p * (1 - p)" using assms by simp
  let ?f = "q * p * (1 - p)"
  have "\<bar>of_int (py_round (5/100 * ?f * 100)) - 5/100 * ?f * 100\<bar> \<le> 1/2"
    by (rule py_round_error)
  then have "\<bar>of_int (py_round (5/100 * ?f * 100)) / 100 - 5/100 * ?f\<bar> \<le> 1/200"
    by linarith
  then show "\<bar>polymarket_us_order_fee p q ''taker'' - 5/100 * q * p * (1 - p)\<bar> \<le> 1/200"
    by (simp add: polymarket_us_order_fee_def mult.assoc)
  have "5/100 * q * p * (1 - p) * 100 = 5 * ?f"
    "- 125/10000 * q * p * (1 - p) * 100 = - 5/4 * ?f"
    by (simp_all add: field_simps)
  then have "0 \<le> 5/100 * q * p * (1 - p) * 100" "- 125/10000 * q * p * (1 - p) * 100 \<le> 0"
    using v by linarith+
  from py_round_sign(1)[OF this(1)] py_round_sign(2)[OF this(2)]
  show "0 \<le> polymarket_us_order_fee p q ''taker''" "polymarket_us_order_fee p q ''maker'' \<le> 0"
    by (simp_all add: polymarket_us_order_fee_def)
qed

end
