(* ===== verification/Config.thy ===== *)
theory Config
  imports Prelude
begin

text \<open>
  \<open>ScannerConfig\<close> of \<open>arbiter/config/settings.py\<close>: the thresholds of the scanner and of the
  engine, with the defaults they have when no environment variable overrides them, and the two
  per-venue-pair floors.  A pair floor is a permission to relax the operator's global floor,
  never to raise it, whatever the order in which the venues are named.
\<close>

record scanner_config =
  min_edge_cents :: flt
  min_edge_cents_by_pair :: "(string, flt) dict"
  max_position_usd :: flt
  scan_interval :: flt
  confidence_threshold :: flt
  persistence_scans :: int
  max_quote_age_seconds :: flt
  max_quote_age_seconds_forecastex :: flt
  min_liquidity :: flt
  min_liquidity_by_pair :: "(string, flt) dict"
  slippage_tolerance :: flt
  max_bid_ask_spread_cents :: flt
  dry_run :: bool
  max_balance_fraction_per_trade :: flt
  min_platform_reserve_usd :: flt
  edge_scaling_enabled :: bool
  edge_scaling_min_fraction :: flt
  edge_scaling_ref_cents :: flt
  phantom_edge_threshold_cents :: flt
  phantom_edge_max_age_seconds :: flt

definition default_scanner_config :: scanner_config where
  "default_scanner_config =
     \<lparr> min_edge_cents = 7,
       min_edge_cents_by_pair =
         [(''forecastex_kalshi'', 45/10), (''forecastex_polymarket'', 4), (''kalshi_polymarket'', 7)],
       max_position_usd = 100,
       scan_interval = 1,
       confidence_threshold = 1/2,
       persistence_scans = 5,
       max_quote_age_seconds = 15,
       max_quote_age_seconds_forecastex = 5,
       min_liquidity = 25,
       min_liquidity_by_pair =
         [(''forecastex_kalshi'', 0), (''forecastex_polymarket'', 0), (''kalshi_polymarket'', 25)],
       slippage_tolerance = 5/1000,
       max_bid_ask_spread_cents = 15,
       dry_run = True,
       max_balance_fraction_per_trade = 1,
       min_platform_reserve_usd = 0,
       edge_scaling_enabled = False,
       edge_scaling_min_fraction = 1/2,
       edge_scaling_ref_cents = 10,
       phantom_edge_threshold_cents = 40,
       phantom_edge_max_age_seconds = 5 \<rparr>"

section \<open>The floors of a venue pair\<close>

definition venue_name :: "string \<Rightarrow> string" where
  "venue_name s = py_lower (py_strip s)"

text \<open>\<open>"_".join(sorted([a, b]))\<close>.\<close>

definition pair_key :: "string \<Rightarrow> string \<Rightarrow> string" where
  "pair_key a b = (if a \<le> b then a @ ''_'' @ b else b @ ''_'' @ a)"

definition min_liquidity_for_pair :: "scanner_config \<Rightarrow> string \<Rightarrow> string \<Rightarrow> flt" where
  "min_liquidity_for_pair c yes_platform no_platform =
     (let a = venue_name yes_platform; b = venue_name no_platform; global_floor = min_liquidity c
      in if a = [] \<or> b = [] \<or> a = b then global_floor
         else case map_of (min_liquidity_by_pair c) (pair_key a b) of
                None \<Rightarrow> global_floor
              | Some pair_floor \<Rightarrow> min global_floor pair_floor)"

definition min_edge_for_pair :: "scanner_config \<Rightarrow> string \<Rightarrow> string \<Rightarrow> flt" where
  "min_edge_for_pair c yes_platform no_platform =
     (let a = venue_name yes_platform; b = venue_name no_platform; global_floor = min_edge_cents c
      in if a = [] \<or> b = [] \<or> a = b then global_floor
         else case map_of (min_edge_cents_by_pair c) (pair_key a b) of
                None \<Rightarrow> global_floor
              | Some pair_floor \<Rightarrow> min global_floor pair_floor)"

declare default_scanner_config_def [model_simps] venue_name_def [model_simps]
  pair_key_def [model_simps] min_liquidity_for_pair_def [model_simps]
  min_edge_for_pair_def [model_simps]

lemma pair_key_commute: "pair_key a b = pair_key b a"
  by (cases "a = b") (auto simp: pair_key_def)

text \<open>
  The contract both floors meet: order does not matter, and the global floor is a ceiling.
\<close>

locale pair_floor =
  fixes floor_of :: "scanner_config \<Rightarrow> string \<Rightarrow> string \<Rightarrow> flt"
    and global :: "scanner_config \<Rightarrow> flt"
  assumes floor_commute: "floor_of c x y = floor_of c y x"
    and floor_relaxes: "floor_of c x y \<le> global c"
begin

text \<open>What clears the global floor clears every pair's floor.\<close>

lemma clears_global: "global c \<le> e \<Longrightarrow> floor_of c x y \<le> e"
  using floor_relaxes order_trans by blast

lemma below_pair_below_global: "e < floor_of c x y \<Longrightarrow> e < global c"
  using floor_relaxes less_le_trans by blast

end

interpretation edge_floor: pair_floor min_edge_for_pair min_edge_cents
proof unfold_locales
  fix c :: scanner_config and x y :: string
  show "min_edge_for_pair c x y = min_edge_for_pair c y x"
    by (auto simp: min_edge_for_pair_def Let_def pair_key_commute)
  show "min_edge_for_pair c x y \<le> min_edge_cents c"
    by (simp add: min_edge_for_pair_def Let_def split: option.split)
qed

interpretation liquidity_floor: pair_floor min_liquidity_for_pair min_liquidity
proof unfold_locales
  fix c :: scanner_config and x y :: string
  show "min_liquidity_for_pair c x y = min_liquidity_for_pair c y x"
    by (auto simp: min_liquidity_for_pair_def Let_def pair_key_commute)
  show "min_liquidity_for_pair c x y \<le> min_liquidity c"
    by (simp add: min_liquidity_for_pair_def Let_def split: option.split)
qed

text \<open>The floors of the defaults, and that a negative edge never clears a non-negative floor.\<close>

lemma default_edge_floors:
  "min_edge_for_pair default_scanner_config ''kalshi'' ''ForecastEx '' = 45/10"
  "min_edge_for_pair default_scanner_config ''polymarket'' ''forecastex'' = 4"
  "min_edge_for_pair default_scanner_config ''kalshi'' ''polymarket'' = 7"
  by code_simp+

lemma min_edge_nonneg:
  assumes "0 \<le> min_edge_cents c" and "\<And>k v. map_of (min_edge_cents_by_pair c) k = Some v \<Longrightarrow> 0 \<le> v"
  shows "0 \<le> min_edge_for_pair c x y"
  using assms by (auto simp: min_edge_for_pair_def Let_def split: option.split)

end
