(* ===== verification/Market_Map.thy ===== *)
theory Market_Map
  imports Prelude
begin

text \<open>
  The in-process mapping cache of \<open>arbiter/config/settings.py\<close>: \<open>MarketMappingRecord\<close> with
  its token-overlap score, and the operations on \<open>MARKET_MAP\<close>.  A mapping is a dict with
  optional keys; a field of the record is \<open>None\<close> when the key is absent.  Keys whose value may
  itself be Python's \<open>None\<close> have a second option inside.
\<close>

section \<open>The token-overlap score\<close>

definition alnum_lower :: "char \<Rightarrow> bool" where
  "alnum_lower c =
     (let n = (of_char c :: nat) in 97 \<le> n \<and> n \<le> 122 \<or> 48 \<le> n \<and> n \<le> 57)"

text \<open>
  \<open>split\<close> after the normaliser has turned every run of other characters into a blank: the
  maximal runs of \<open>[a-z0-9]\<close> of the lowered text.
\<close>

fun words_of :: "string \<Rightarrow> string \<Rightarrow> string list" where
  "words_of cur [] = (if cur = [] then [] else [rev cur])"
| "words_of cur (c # cs) =
     (if alnum_lower c then words_of (c # cur) cs
      else if cur = [] then words_of [] cs else rev cur # words_of [] cs)"

definition tokens :: "string \<Rightarrow> string list" where
  "tokens text0 = remdups (words_of [] (py_lower text0))"

definition inter_all :: "string list list \<Rightarrow> string list" where
  "inter_all ts = (case ts of [] \<Rightarrow> [] | t # us \<Rightarrow> filter (\<lambda>w. list_all (\<lambda>u. w \<in> set u) us) t)"

definition union_all :: "string list list \<Rightarrow> string list" where
  "union_all ts = remdups (concat ts)"

definition similarity_score :: "string list \<Rightarrow> flt" where
  "similarity_score texts =
     (let normalized_sets = map tokens (filter (\<lambda>t. t \<noteq> []) texts)
      in if length normalized_sets < 2 then 0
         else let u = union_all normalized_sets
              in if u = [] then 0
                 else round_nd 4 (of_nat (length (inter_all normalized_sets)) / of_nat (length u)))"

lemma set_inter_all: "ts \<noteq> [] \<Longrightarrow> set (inter_all ts) = \<Inter> (set ` set ts)"
  by (cases ts) (auto simp: inter_all_def list_all_iff)

lemma set_union_all: "set (union_all ts) = \<Union> (set ` set ts)"
  by (simp add: union_all_def)

lemma length_inter_all_le:
  assumes "list_all distinct ts"
  shows "length (inter_all ts) \<le> length (union_all ts)"
proof (cases ts)
  case Nil
  then show ?thesis by (simp add: inter_all_def)
next
  case (Cons t us)
  with assms have "distinct (inter_all ts)" by (simp add: inter_all_def)
  moreover have "distinct (union_all ts)" by (simp add: union_all_def)
  moreover have "set (inter_all ts) \<subseteq> set (union_all ts)"
    using Cons by (auto simp: set_inter_all set_union_all)
  ultimately show ?thesis
    by (metis card_mono distinct_card finite_set)
qed

lemma py_round_mono: "x \<le> y \<Longrightarrow> py_round x \<le> py_round y"
proof -
  assume le: "x \<le> y"
  show ?thesis
  proof (cases "\<lfloor>x\<rfloor> = \<lfloor>y\<rfloor>")
    case True
    with le show ?thesis by (auto simp: py_round_def Let_def)
  next
    case False
    with le have "\<lfloor>x\<rfloor> + 1 \<le> \<lfloor>y\<rfloor>" using floor_mono[OF le] by simp
    then show ?thesis by (auto simp: py_round_def Let_def)
  qed
qed

lemma round_nd_mono: "x \<le> y \<Longrightarrow> round_nd n x \<le> round_nd n y"
  by (simp add: round_nd_def divide_right_mono py_round_mono)

lemma round_nd_0 [simp]: "round_nd n 0 = 0"
  using py_round_of_int[of 0] by (simp add: round_nd_def)

lemma round_nd_1 [simp]: "round_nd n 1 = 1"
  using py_round_of_int[of "10 ^ n"] by (simp add: round_nd_def)

lemma similarity_range:
  "0 \<le> similarity_score texts" "similarity_score texts \<le> 1"
proof -
  let ?ts = "map tokens (filter (\<lambda>t. t \<noteq> []) texts)"
  let ?q = "of_nat (length (inter_all ?ts)) / of_nat (length (union_all ?ts)) :: flt"
  have "length (inter_all ?ts) \<le> length (union_all ?ts)"
    by (rule length_inter_all_le) (auto simp: list_all_iff tokens_def)
  then have "0 \<le> ?q" "?q \<le> 1" by (simp_all add: divide_le_eq_1)
  from round_nd_mono[OF this(1), of 4] round_nd_mono[OF this(2), of 4]
  show "0 \<le> similarity_score texts" "similarity_score texts \<le> 1"
    by (simp_all add: similarity_score_def Let_def)
qed

section \<open>Mappings\<close>

record platform_criteria =
  pc_source :: string
  pc_rule :: string
  pc_settlement_date :: string

record criteria =
  crit_kalshi :: "platform_criteria option"
  crit_polymarket :: "platform_criteria option"
  criteria_match :: "string option"
  operator_note :: "string option"

record market_mapping_record =
  mr_canonical_id :: string
  mr_description :: string
  mr_status :: string
  mr_allow_auto_trade :: bool
  mr_aliases :: "string list"
  mr_tags :: "string list"
  mr_kalshi :: string
  mr_polymarket :: string
  mr_polymarket_question :: string
  mr_forecastex :: string
  mr_forecastex_no :: string
  mr_notes :: string
  mr_resolution_criteria :: "criteria option"
  mr_resolution_match_status :: string

text \<open>The values the audit log compares and stores.\<close>

datatype audit_value = PyNone | PyStr string | PyBool bool | PyCrit criteria

record audit_entry =
  ae_ts :: flt
  ae_actor :: string
  ae_field :: string
  ae_old :: audit_value
  ae_new :: audit_value
  ae_note :: "string option"

record mapping_dict =
  m_canonical_id :: "string option"
  m_description :: "string option"
  m_status :: "string option"
  m_allow_auto_trade :: "bool option"
  m_aliases :: "string list option"
  m_tags :: "string list option"
  m_kalshi :: "string option"
  m_polymarket :: "string option"
  m_polymarket_question :: "string option"
  m_forecastex :: "string option"
  m_forecastex_no :: "string option"
  m_notes :: "string option"
  m_kalshi_market_id :: "string option"
  m_polymarket_slug :: "string option"
  m_resolution_criteria :: "criteria option option"
  m_resolution_match_status :: "string option"
  m_mapping_score :: "flt option"
  m_confidence :: "flt option"
  m_review_note :: "string option"
  m_audit_log :: "audit_entry list option"
  m_updated_at :: "flt option"

definition empty_mapping :: mapping_dict where
  "empty_mapping =
     \<lparr> m_canonical_id = None, m_description = None, m_status = None, m_allow_auto_trade = None,
       m_aliases = None, m_tags = None, m_kalshi = None, m_polymarket = None,
       m_polymarket_question = None, m_forecastex = None, m_forecastex_no = None, m_notes = None,
       m_kalshi_market_id = None, m_polymarket_slug = None,
       m_resolution_criteria = None, m_resolution_match_status = None, m_mapping_score = None,
       m_confidence = None, m_review_note = None, m_audit_log = None, m_updated_at = None \<rparr>"

text \<open>
  \<open>MarketMappingRecord.to_dict\<close>.  The score's second text is \<open>" ".join(aliases)\<close>.
\<close>

fun join_blank :: "string list \<Rightarrow> string" where
  "join_blank [] = []"
| "join_blank [a] = a"
| "join_blank (a # b # as) = a @ '' '' @ join_blank (b # as)"

definition to_dict :: "market_mapping_record \<Rightarrow> mapping_dict" where
  "to_dict r = empty_mapping
     \<lparr> m_canonical_id := Some (mr_canonical_id r), m_description := Some (mr_description r),
       m_status := Some (mr_status r), m_allow_auto_trade := Some (mr_allow_auto_trade r),
       m_aliases := Some (mr_aliases r), m_tags := Some (mr_tags r),
       m_kalshi := Some (mr_kalshi r), m_polymarket := Some (mr_polymarket r),
       m_polymarket_question := Some (mr_polymarket_question r),
       m_forecastex := Some (mr_forecastex r), m_forecastex_no := Some (mr_forecastex_no r),
       m_notes := Some (mr_notes r),
       m_mapping_score :=
         Some (if mr_status r = ''confirmed'' \<and> mr_allow_auto_trade r
                  \<and> mr_resolution_match_status r = ''identical'' then 1
               else similarity_score [mr_description r, join_blank (mr_aliases r)]),
       m_resolution_criteria := Some (mr_resolution_criteria r),
       m_resolution_match_status := Some (mr_resolution_match_status r) \<rparr>"

section \<open>The cache\<close>

type_synonym market_map = "(string, mapping_dict) dict"

definition load_seeds :: "market_mapping_record list \<Rightarrow> market_map" where
  "load_seeds rs = fold (\<lambda>r. AList.update (mr_canonical_id r) (to_dict r)) rs []"

text \<open>\<open>{**current, **payload}\<close>: the payload's keys win.\<close>

definition or_else :: "'a option \<Rightarrow> 'a option \<Rightarrow> 'a option" where
  "or_else x y = (case x of None \<Rightarrow> y | Some _ \<Rightarrow> x)"

definition merge_mapping :: "mapping_dict \<Rightarrow> mapping_dict \<Rightarrow> mapping_dict" where
  "merge_mapping current payload =
     \<lparr> m_canonical_id = or_else (m_canonical_id payload) (m_canonical_id current),
       m_description = or_else (m_description payload) (m_description current),
       m_status = or_else (m_status payload) (m_status current),
       m_allow_auto_trade = or_else (m_allow_auto_trade payload) (m_allow_auto_trade current),
       m_aliases = or_else (m_aliases payload) (m_aliases current),
       m_tags = or_else (m_tags payload) (m_tags current),
       m_kalshi = or_else (m_kalshi payload) (m_kalshi current),
       m_polymarket = or_else (m_polymarket payload) (m_polymarket current),
       m_polymarket_question =
         or_else (m_polymarket_question payload) (m_polymarket_question current),
       m_forecastex = or_else (m_forecastex payload) (m_forecastex current),
       m_forecastex_no = or_else (m_forecastex_no payload) (m_forecastex_no current),
       m_notes = or_else (m_notes payload) (m_notes current),
       m_kalshi_market_id = or_else (m_kalshi_market_id payload) (m_kalshi_market_id current),
       m_polymarket_slug = or_else (m_polymarket_slug payload) (m_polymarket_slug current),
       m_resolution_criteria =
         or_else (m_resolution_criteria payload) (m_resolution_criteria current),
       m_resolution_match_status =
         or_else (m_resolution_match_status payload) (m_resolution_match_status current),
       m_mapping_score = or_else (m_mapping_score payload) (m_mapping_score current),
       m_confidence = or_else (m_confidence payload) (m_confidence current),
       m_review_note = or_else (m_review_note payload) (m_review_note current),
       m_audit_log = or_else (m_audit_log payload) (m_audit_log current),
       m_updated_at = or_else (m_updated_at payload) (m_updated_at current) \<rparr>"

definition opt_get :: "'a option \<Rightarrow> 'a \<Rightarrow> 'a" where
  "opt_get x y = (case x of None \<Rightarrow> y | Some v \<Rightarrow> v)"

definition upsert_merged :: "string \<Rightarrow> mapping_dict \<Rightarrow> mapping_dict \<Rightarrow> mapping_dict" where
  "upsert_merged cid current payload =
     (let merged0 = merge_mapping current payload;
          merged1 = merged0
            \<lparr> m_description := or_else (m_description merged0)
                (Some (opt_get (m_description current) cid)),
              m_status := or_else (m_status merged0)
                (Some (opt_get (m_status current) ''candidate'')),
              m_allow_auto_trade := or_else (m_allow_auto_trade merged0)
                (Some (opt_get (m_allow_auto_trade current) False)),
              m_aliases := or_else (m_aliases merged0) (Some (opt_get (m_aliases current) [])),
              m_tags := or_else (m_tags merged0) (Some (opt_get (m_tags current) [])) \<rparr>;
          merged2 = (if m_mapping_score merged1 = None \<and> m_confidence merged1 \<noteq> None
                     then merged1\<lparr>m_mapping_score := Some (opt_get (m_confidence merged1) 0)\<rparr>
                     else merged1)
      in merged2
           \<lparr> m_resolution_criteria := or_else (m_resolution_criteria merged2)
               (Some (opt_get (m_resolution_criteria current) None)),
             m_resolution_match_status := or_else (m_resolution_match_status merged2)
               (Some (opt_get (m_resolution_match_status current) ''pending_operator_review'')) \<rparr>)"

definition upsert_runtime_market_mapping ::
  "string \<Rightarrow> mapping_dict \<Rightarrow> market_map \<Rightarrow> market_map \<times> mapping_dict" where
  "upsert_runtime_market_mapping cid payload mm =
     (let current = (case map_of mm cid of None \<Rightarrow> empty_mapping | Some c \<Rightarrow> c);
          merged = upsert_merged cid current payload
      in (AList.update cid merged mm, merged))"

definition replace_runtime_market_map :: "(string \<times> mapping_dict) list \<Rightarrow> market_map" where
  "replace_runtime_market_map mappings =
     fold (\<lambda>(cid, payload) mm. fst (upsert_runtime_market_mapping cid payload mm)) mappings []"

definition get_market_mapping :: "string \<Rightarrow> market_map \<Rightarrow> mapping_dict option" where
  "get_market_mapping cid mm = map_of mm cid"

definition iter_confirmed_market_mappings :: "bool \<Rightarrow> market_map \<Rightarrow> (string \<times> mapping_dict) list" where
  "iter_confirmed_market_mappings require_auto_trade mm =
     filter (\<lambda>(cid, m). m_status m = Some ''confirmed''
               \<and> (require_auto_trade \<longrightarrow> opt_get (m_allow_auto_trade m) False)) mm"

section \<open>Operator updates and their audit log\<close>

record update_args =
  u_status :: "string option"
  u_note :: "string option"
  u_allow_auto_trade :: "bool option"
  u_resolution_criteria :: "criteria option"
  u_resolution_match_status :: "string option"
  u_actor :: "string option"

definition audit_record ::
  "flt \<Rightarrow> string \<Rightarrow> string option \<Rightarrow> string \<Rightarrow> audit_value \<Rightarrow> audit_value
   \<Rightarrow> audit_entry list \<Rightarrow> audit_entry list" where
  "audit_record now actor note fld old new es =
     (if old = new then es
      else es @ [\<lparr>ae_ts = now, ae_actor = actor, ae_field = fld, ae_old = old, ae_new = new,
                  ae_note = note\<rparr>])"

definition py_opt :: "('a \<Rightarrow> audit_value) \<Rightarrow> 'a option \<Rightarrow> audit_value" where
  "py_opt f x = (case x of None \<Rightarrow> PyNone | Some v \<Rightarrow> f v)"

definition strip_or_none :: "string option \<Rightarrow> string option" where
  "strip_or_none x = (let s = py_strip (opt_get x []) in if s = [] then None else Some s)"

text \<open>
  The body of \<open>update_market_mapping\<close>, one stage per block of the source; every stage works on
  the mapping and the audit entries collected so far.
\<close>

definition set_status ::
  "(string \<Rightarrow> audit_value \<Rightarrow> audit_value \<Rightarrow> audit_entry list \<Rightarrow> audit_entry list) \<Rightarrow> update_args
   \<Rightarrow> mapping_dict \<times> audit_entry list \<Rightarrow> mapping_dict \<times> audit_entry list" where
  "set_status lg a = (\<lambda>(m, es). case u_status a of None \<Rightarrow> (m, es)
     | Some s \<Rightarrow> (m\<lparr>m_status := Some s\<rparr>, lg ''status'' (py_opt PyStr (m_status m)) (PyStr s) es))"

definition set_auto_trade ::
  "(string \<Rightarrow> audit_value \<Rightarrow> audit_value \<Rightarrow> audit_entry list \<Rightarrow> audit_entry list) \<Rightarrow> update_args
   \<Rightarrow> mapping_dict \<times> audit_entry list \<Rightarrow> mapping_dict \<times> audit_entry list" where
  "set_auto_trade lg a = (\<lambda>(m, es). case u_allow_auto_trade a of None \<Rightarrow> (m, es)
     | Some b \<Rightarrow> (m\<lparr>m_allow_auto_trade := Some b\<rparr>,
                 lg ''allow_auto_trade'' (py_opt PyBool (m_allow_auto_trade m)) (PyBool b) es))"

definition set_note ::
  "update_args \<Rightarrow> mapping_dict \<times> audit_entry list \<Rightarrow> mapping_dict \<times> audit_entry list" where
  "set_note a = (\<lambda>(m, es).
     if opt_get (u_note a) [] \<noteq> []
     then (m\<lparr>m_review_note := Some (py_strip (opt_get (u_note a) []))\<rparr>, es) else (m, es))"

definition set_match ::
  "(string \<Rightarrow> audit_value \<Rightarrow> audit_value \<Rightarrow> audit_entry list \<Rightarrow> audit_entry list) \<Rightarrow> string
   \<Rightarrow> mapping_dict \<times> audit_entry list \<Rightarrow> mapping_dict \<times> audit_entry list" where
  "set_match lg s = (\<lambda>(m, es).
     (m\<lparr>m_resolution_match_status := Some s\<rparr>,
      lg ''resolution_match_status'' (py_opt PyStr (m_resolution_match_status m)) (PyStr s) es))"

definition set_criteria ::
  "(string \<Rightarrow> audit_value \<Rightarrow> audit_value \<Rightarrow> audit_entry list \<Rightarrow> audit_entry list) \<Rightarrow> update_args
   \<Rightarrow> mapping_dict \<times> audit_entry list \<Rightarrow> mapping_dict \<times> audit_entry list" where
  "set_criteria lg a = (\<lambda>(m, es). case u_resolution_criteria a of None \<Rightarrow> (m, es)
     | Some rc \<Rightarrow>
         (let me = (m\<lparr>m_resolution_criteria := Some (Some rc)\<rparr>,
                    lg ''resolution_criteria''
                      (py_opt PyCrit (opt_get (m_resolution_criteria m) None)) (PyCrit rc) es);
              cm = opt_get (criteria_match rc) []
          in if cm \<noteq> [] \<and> u_resolution_match_status a = None then set_match lg cm me else me))"

definition set_match_arg ::
  "(string \<Rightarrow> audit_value \<Rightarrow> audit_value \<Rightarrow> audit_entry list \<Rightarrow> audit_entry list) \<Rightarrow> update_args
   \<Rightarrow> mapping_dict \<times> audit_entry list \<Rightarrow> mapping_dict \<times> audit_entry list" where
  "set_match_arg lg a me =
     (case u_resolution_match_status a of None \<Rightarrow> me | Some s \<Rightarrow> set_match lg s me)"

definition apply_update :: "update_args \<Rightarrow> flt \<Rightarrow> mapping_dict \<Rightarrow> mapping_dict" where
  "apply_update a now m =
     (let actor = or_str (py_strip (or_str (opt_get (u_actor a) []) ''system'')) ''system'';
          lg = audit_record now actor (strip_or_none (u_note a));
          (m', es) = set_match_arg lg a (set_criteria lg a (set_note a
                       (set_auto_trade lg a (set_status lg a (m, opt_get (m_audit_log m) [])))));
          kept = (if 50 < length es then drop (length es - 50) es else es)
      in m'\<lparr>m_audit_log := Some kept, m_updated_at := Some now\<rparr>)"

definition update_market_mapping ::
  "string \<Rightarrow> update_args \<Rightarrow> flt \<Rightarrow> market_map \<Rightarrow> market_map \<times> mapping_dict option" where
  "update_market_mapping cid a now mm =
     (case map_of mm cid of
        None \<Rightarrow> (mm, None)
      | Some m \<Rightarrow> if m = empty_mapping then (mm, None)
                  else let m' = apply_update a now m in (AList.update cid m' mm, Some m'))"

section \<open>What an update logs\<close>

text \<open>
  The entries of one update: at most \<open>n\<close> of them, each a real change stamped with the time of
  the update and a non-empty actor.
\<close>

definition changes_logged :: "flt \<Rightarrow> audit_entry list \<Rightarrow> bool" where
  "changes_logged now new =
     list_all (\<lambda>e. ae_old e \<noteq> ae_new e \<and> ae_ts e = now \<and> ae_actor e \<noteq> []) new"

definition log_grows :: "flt \<Rightarrow> nat \<Rightarrow> audit_entry list \<Rightarrow> audit_entry list \<Rightarrow> bool" where
  "log_grows now n es es' =
     (\<exists>new. es' = es @ new \<and> length new \<le> n \<and> changes_logged now new)"

lemma log_grows_refl [simp, intro]: "log_grows now n es es"
  by (simp add: log_grows_def changes_logged_def)

lemma log_grows_trans:
  assumes "log_grows now k es es'" "log_grows now n es' es''"
  shows "log_grows now (k + n) es es''"
proof -
  from assms obtain a b where "es' = es @ a" "es'' = es' @ b" "length a \<le> k" "length b \<le> n"
    "changes_logged now a" "changes_logged now b" by (auto simp: log_grows_def)
  then show ?thesis
    by (auto simp: log_grows_def changes_logged_def intro!: exI[of _ "a @ b"])
qed

lemma log_grows_mono: "log_grows now k es es' \<Longrightarrow> k \<le> n \<Longrightarrow> log_grows now n es es'"
  by (auto simp: log_grows_def)

lemma log_grows_audit_record:
  "actor \<noteq> [] \<Longrightarrow> log_grows now 1 es (audit_record now actor note fld old new es)"
  by (auto simp: log_grows_def audit_record_def changes_logged_def)

definition log_fun_ok :: "flt \<Rightarrow>
  (string \<Rightarrow> audit_value \<Rightarrow> audit_value \<Rightarrow> audit_entry list \<Rightarrow> audit_entry list) \<Rightarrow> bool" where
  "log_fun_ok now lg = (\<forall>fld old new es. log_grows now 1 es (lg fld old new es))"

lemma log_fun_ok_record:
  "actor \<noteq> [] \<Longrightarrow> log_fun_ok now (audit_record now actor note)"
  unfolding log_fun_ok_def by (intro allI log_grows_audit_record)

lemma stage_logs:
  assumes "log_fun_ok now lg"
  shows "log_grows now 1 (snd me) (snd (set_status lg a me))"
    and "log_grows now 1 (snd me) (snd (set_auto_trade lg a me))"
    and "log_grows now 1 (snd me) (snd (set_match lg s me))"
    and "log_grows now 0 (snd me) (snd (set_note a me))"
  using assms
  by (auto simp: set_status_def set_auto_trade_def set_match_def set_note_def log_fun_ok_def
      split: option.split prod.split)

lemma set_criteria_logs:
  assumes "log_fun_ok now lg"
  shows "log_grows now (if u_resolution_match_status a = None then 2 else 1) (snd me)
           (snd (set_criteria lg a me))"
proof (cases "u_resolution_criteria a")
  case None
  then show ?thesis by (simp add: set_criteria_def split: prod.split)
next
  case (Some rc)
  obtain m es where me: "me = (m, es)" by (cases me)
  let ?me' = "(m\<lparr>m_resolution_criteria := Some (Some rc)\<rparr>,
    lg ''resolution_criteria'' (py_opt PyCrit (opt_get (m_resolution_criteria m) None)) (PyCrit rc) es)"
  have 1: "log_grows now 1 es (snd ?me')"
    using assms by (simp add: log_fun_ok_def)
  have 2: "log_grows now (1 + 1) es (snd (set_match lg (opt_get (criteria_match rc) []) ?me'))"
    by (rule log_grows_trans[OF 1 stage_logs(3)[OF assms]])
  show ?thesis
    using Some me 1 2 log_grows_mono[OF 1, of 2]
    by (simp add: set_criteria_def Let_def numeral_2_eq_2)
qed

lemma set_match_arg_logs:
  assumes "log_fun_ok now lg"
  shows "log_grows now (if u_resolution_match_status a = None then 0 else 1) (snd me)
           (snd (set_match_arg lg a me))"
  using stage_logs(3)[OF assms] by (simp add: set_match_arg_def split: option.split)

lemma update_logs:
  assumes "log_fun_ok now lg"
  shows "log_grows now 4 (snd me) (snd (set_match_arg lg a (set_criteria lg a (set_note a
           (set_auto_trade lg a (set_status lg a me))))))"
proof -
  let ?k = "if u_resolution_match_status a = None then 2 else (1::nat)"
  let ?j = "if u_resolution_match_status a = None then 0 else (1::nat)"
  have "log_grows now (1 + (1 + (0 + (?k + ?j)))) (snd me) (snd (set_match_arg lg a
    (set_criteria lg a (set_note a (set_auto_trade lg a (set_status lg a me))))))"
    by (rule log_grows_trans[OF stage_logs(1)[OF assms]]
        log_grows_trans[OF stage_logs(2)[OF assms]] log_grows_trans[OF stage_logs(4)[OF assms]]
        log_grows_trans[OF set_criteria_logs[OF assms]] set_match_arg_logs[OF assms])+
  then show ?thesis by (rule log_grows_mono) auto
qed

lemma apply_update_log:
  "\<exists>new. m_audit_log (apply_update a now m)
           = Some (drop (length (opt_get (m_audit_log m) []) + length new - 50)
                     (opt_get (m_audit_log m) [] @ new))
       \<and> length new \<le> 4 \<and> changes_logged now new"
proof -
  let ?actor = "or_str (py_strip (or_str (opt_get (u_actor a) []) ''system'')) ''system''"
  let ?lg = "audit_record now ?actor (strip_or_none (u_note a))"
  have "?actor \<noteq> []" by (auto simp: or_str_def)
  then have "log_fun_ok now ?lg" by (rule log_fun_ok_record)
  from update_logs[OF this, of "(m, opt_get (m_audit_log m) [])" a]
  obtain x new where "set_match_arg ?lg a (set_criteria ?lg a (set_note a (set_auto_trade ?lg a
      (set_status ?lg a (m, opt_get (m_audit_log m) []))))) = (x, opt_get (m_audit_log m) [] @ new)"
    and "length new \<le> 4" "changes_logged now new"
    by (metis log_grows_def prod.collapse snd_conv)
  then show ?thesis
    by (intro exI[of _ new]) (simp add: apply_update_def)
qed

text \<open>The fields after an update.\<close>

definition new_match :: "update_args \<Rightarrow> string option \<Rightarrow> string option" where
  "new_match a old =
     (case u_resolution_match_status a of Some s \<Rightarrow> Some s
      | None \<Rightarrow> (case u_resolution_criteria a of None \<Rightarrow> old
                | Some rc \<Rightarrow> if opt_get (criteria_match rc) [] = [] then old
                            else criteria_match rc))"

text \<open>Every stage as one update of the mapping it is given.\<close>

lemma stage_mapping:
  "fst (set_status lg a me) = (fst me)\<lparr>m_status := or_else (u_status a) (m_status (fst me))\<rparr>"
  "fst (set_auto_trade lg a me)
     = (fst me)\<lparr>m_allow_auto_trade := or_else (u_allow_auto_trade a) (m_allow_auto_trade (fst me))\<rparr>"
  "fst (set_note a me)
     = (fst me)\<lparr>m_review_note := (if opt_get (u_note a) [] \<noteq> []
                                 then Some (py_strip (opt_get (u_note a) []))
                                 else m_review_note (fst me))\<rparr>"
  "fst (set_match lg s me) = (fst me)\<lparr>m_resolution_match_status := Some s\<rparr>"
  by (simp_all add: set_status_def set_auto_trade_def set_note_def set_match_def or_else_def
      split: prod.split option.split)

lemma set_match_arg_mapping:
  "fst (set_match_arg lg a me) = (fst me)\<lparr>m_resolution_match_status :=
     or_else (u_resolution_match_status a) (m_resolution_match_status (fst me))\<rparr>"
  by (simp add: set_match_arg_def stage_mapping or_else_def split: option.split)

lemma set_criteria_mapping:
  "fst (set_criteria lg a me) = (fst me)
     \<lparr>m_resolution_criteria :=
        or_else (map_option Some (u_resolution_criteria a)) (m_resolution_criteria (fst me)),
      m_resolution_match_status :=
        (if u_resolution_match_status a = None then new_match a (m_resolution_match_status (fst me))
         else m_resolution_match_status (fst me))\<rparr>"
  by (cases "u_resolution_criteria a"; cases me)
    (auto simp: set_criteria_def stage_mapping Let_def or_else_def new_match_def opt_get_def
      split: option.splits)

lemma apply_update_eq:
  "\<exists>lg. apply_update a now m = (fst (set_match_arg lg a (set_criteria lg a (set_note a
      (set_auto_trade lg a (set_status lg a (m, opt_get (m_audit_log m) [])))))))
        \<lparr>m_audit_log := m_audit_log (apply_update a now m), m_updated_at := Some now\<rparr>"
  unfolding apply_update_def Let_def
  by (rule exI[of _ "audit_record now (or_str (py_strip (or_str (opt_get (u_actor a) []) ''system''))
        ''system'') (strip_or_none (u_note a))"]) (simp split: prod.split)

lemma new_match_arg:
  "or_else (u_resolution_match_status a)
     (if u_resolution_match_status a = None then new_match a old else old') = new_match a old"
  by (simp add: or_else_def new_match_def split: option.split)

lemma apply_update_fields:
  "m_status (apply_update a now m) = or_else (u_status a) (m_status m)"
  "m_allow_auto_trade (apply_update a now m) = or_else (u_allow_auto_trade a) (m_allow_auto_trade m)"
  "m_resolution_match_status (apply_update a now m) = new_match a (m_resolution_match_status m)"
  "m_updated_at (apply_update a now m) = Some now"
  "m_description (apply_update a now m) = m_description m"
  "m_aliases (apply_update a now m) = m_aliases m"
  "m_tags (apply_update a now m) = m_tags m"
  "m_resolution_criteria (apply_update a now m)
     = or_else (map_option Some (u_resolution_criteria a)) (m_resolution_criteria m)"
proof -
  obtain lg where eq: "apply_update a now m = (fst (set_match_arg lg a (set_criteria lg a
      (set_note a (set_auto_trade lg a (set_status lg a (m, opt_get (m_audit_log m) [])))))))
        \<lparr>m_audit_log := m_audit_log (apply_update a now m), m_updated_at := Some now\<rparr>"
    using apply_update_eq by blast
  note maps = stage_mapping set_match_arg_mapping set_criteria_mapping
  show "m_status (apply_update a now m) = or_else (u_status a) (m_status m)"
    by (subst eq) (simp add: maps)
  show "m_allow_auto_trade (apply_update a now m)
      = or_else (u_allow_auto_trade a) (m_allow_auto_trade m)"
    by (subst eq) (simp add: maps)
  show "m_resolution_match_status (apply_update a now m)
      = new_match a (m_resolution_match_status m)"
    by (subst eq) (simp add: maps new_match_arg del: if_split)
  show "m_updated_at (apply_update a now m) = Some now"
    by (subst eq) simp
  show "m_description (apply_update a now m) = m_description m"
    by (subst eq) (simp add: maps)
  show "m_aliases (apply_update a now m) = m_aliases m"
    by (subst eq) (simp add: maps)
  show "m_tags (apply_update a now m) = m_tags m"
    by (subst eq) (simp add: maps)
  show "m_resolution_criteria (apply_update a now m)
      = or_else (map_option Some (u_resolution_criteria a)) (m_resolution_criteria m)"
    by (subst eq) (simp add: maps)
qed

section \<open>Operator updates are audited\<close>

text \<open>
  An operator's update of a known mapping appends to its audit log exactly the fields that
  changed (at most four entries, each with old and new value different, the time of the update
  and a named actor), keeps the newest fifty entries, stamps \<open>updated_at\<close>, sets the fields it
  was given (an explicit match status wins over the one inside the criteria) and touches no
  other mapping.
\<close>

theorem update_mapping_audited:
  assumes "map_of mm cid = Some m" "m \<noteq> empty_mapping"
    and "update_market_mapping cid a now mm = (mm', r)"
  shows "\<exists>m' new. r = Some m' \<and> map_of mm' = (map_of mm)(cid \<mapsto> m')
       \<and> m_audit_log m' = Some (drop (length (opt_get (m_audit_log m) []) + length new - 50)
                                  (opt_get (m_audit_log m) [] @ new))
       \<and> length new \<le> 4 \<and> changes_logged now new
       \<and> m_status m' = or_else (u_status a) (m_status m)
       \<and> m_allow_auto_trade m' = or_else (u_allow_auto_trade a) (m_allow_auto_trade m)
       \<and> m_resolution_match_status m' = new_match a (m_resolution_match_status m)
       \<and> m_updated_at m' = Some now"
proof -
  from assms have "r = Some (apply_update a now m)"
    "map_of mm' = (map_of mm)(cid \<mapsto> apply_update a now m)"
    by (auto simp: update_market_mapping_def Let_def update_conv)
  then show ?thesis
    using apply_update_log[of a now m] apply_update_fields[of a now m] by auto
qed

definition demo_update :: update_args where
  "demo_update = \<lparr>u_status = Some ''disabled'', u_note = None, u_allow_auto_trade = None,
     u_resolution_criteria = None, u_resolution_match_status = None, u_actor = None\<rparr>"

theorem update_mapping_audited_witness:
  "\<exists>m' new. snd (update_market_mapping ''X'' demo_update 5
        [(''X'', empty_mapping\<lparr>m_status := Some ''confirmed''\<rparr>)]) = Some m'
     \<and> length new \<le> 4 \<and> changes_logged 5 new \<and> m_status m' = Some ''disabled''
     \<and> m_audit_log m' = Some (drop (length new - 50) new)"
proof -
  let ?mm = "[(''X'', empty_mapping\<lparr>m_status := Some ''confirmed''\<rparr>)]"
  obtain mm' r where u: "update_market_mapping ''X'' demo_update 5 ?mm = (mm', r)"
    by fastforce
  have "map_of ?mm ''X'' = Some (empty_mapping\<lparr>m_status := Some ''confirmed''\<rparr>)"
    "empty_mapping\<lparr>m_status := Some ''confirmed''\<rparr> \<noteq> empty_mapping"
    by (simp_all add: empty_mapping_def)
  from update_mapping_audited[OF this u] show ?thesis
    using u by (auto simp: demo_update_def or_else_def opt_get_def empty_mapping_def)
qed

section \<open>The cache stays complete\<close>

text \<open>
  A complete mapping has the keys the consumers of the cache read without a default.  The two functions
  of \<open>settings.py\<close> that write the cache keep every mapping complete, whatever their payload.  They are
  not all its writers: the API puts a mapping it read from the store into the cache directly, and the
  mapping store drops the ids of duplicates.
\<close>

definition mapping_complete :: "mapping_dict \<Rightarrow> bool" where
  "mapping_complete m =
     (m_description m \<noteq> None \<and> m_status m \<noteq> None \<and> m_allow_auto_trade m \<noteq> None
      \<and> m_aliases m \<noteq> None \<and> m_tags m \<noteq> None \<and> m_resolution_criteria m \<noteq> None
      \<and> m_resolution_match_status m \<noteq> None)"

definition map_ok :: "market_map \<Rightarrow> bool" where
  "map_ok mm = (dict_ok mm \<and> dict_all mapping_complete mm)"

datatype map_event = Upsert string mapping_dict | Update string update_args flt

primrec map_step :: "map_event \<Rightarrow> market_map \<Rightarrow> market_map" where
  "map_step (Upsert cid payload) mm = fst (upsert_runtime_market_mapping cid payload mm)"
| "map_step (Update cid a now) mm = fst (update_market_mapping cid a now mm)"

lemma or_else_assoc:
  "or_else (or_else x y) (Some (opt_get y z)) = or_else x (or_else y (Some z))"
  by (simp add: or_else_def opt_get_def split: option.split)

lemma upsert_merged_fields:
  "m_status (upsert_merged cid cur pl) = or_else (m_status pl) (or_else (m_status cur) (Some ''candidate''))"
  "m_allow_auto_trade (upsert_merged cid cur pl)
     = or_else (m_allow_auto_trade pl) (or_else (m_allow_auto_trade cur) (Some False))"
  "m_resolution_match_status (upsert_merged cid cur pl)
     = or_else (m_resolution_match_status pl)
         (or_else (m_resolution_match_status cur) (Some ''pending_operator_review''))"
  by (simp_all add: upsert_merged_def merge_mapping_def Let_def or_else_assoc)

lemma upsert_merged_complete: "mapping_complete (upsert_merged cid cur pl)"
proof -
  have some: "\<exists>z. or_else x (Some y) = Some z" for x :: "'x option" and y
    by (simp add: or_else_def split: option.split)
  show ?thesis
    unfolding mapping_complete_def upsert_merged_def Let_def
    by (simp add: some)
qed

lemma apply_update_complete: "mapping_complete m \<Longrightarrow> mapping_complete (apply_update a now m)"
  by (auto simp: mapping_complete_def apply_update_fields or_else_def new_match_def opt_get_def
      split: option.splits)

interpretation mapping_cache: invariant_machine map_step map_ok
proof unfold_locales
  fix mm :: market_map and e :: map_event
  assume ok: "map_ok mm"
  show "map_ok (map_step e mm)"
  proof (cases e)
    case (Upsert cid payload)
    with ok show ?thesis
      by (simp add: map_ok_def upsert_runtime_market_mapping_def Let_def upsert_merged_complete)
  next
    case (Update cid a now)
    with ok show ?thesis
      by (auto simp: map_ok_def update_market_mapping_def Let_def
          intro!: dict_all_update apply_update_complete
          elim: dict_all_lookup[where P = mapping_complete] split: option.split)
  qed
qed

text \<open>
  C30.  Whatever snapshot is loaded and whatever upserts and operator updates follow, the cache
  has one entry per canonical id and every mapping has its status, its auto-trade flag, its
  aliases, tags and resolution fields.
\<close>

theorem mapping_cache_complete:
  "map_ok (fold map_step es (replace_runtime_market_map snapshot))"
proof (rule mapping_cache.run_inv)
  have "(\<lambda>(cid, payload) mm. fst (upsert_runtime_market_mapping cid payload mm))
      = map_step \<circ> (\<lambda>(c, p). Upsert c p)"
    by (auto simp: fun_eq_iff)
  then have "replace_runtime_market_map snapshot
      = fold map_step (map (\<lambda>(c, p). Upsert c p) snapshot) []"
    by (simp add: replace_runtime_market_map_def fold_map)
  then show "map_ok (replace_runtime_market_map snapshot)"
    using mapping_cache.run_inv[of "[]"] by (simp add: map_ok_def)
qed

text \<open>
  A mapping that nobody confirmed is not traded: an upsert of an unknown id whose payload does
  not say \<open>confirmed\<close> and does not allow auto-trade is not offered to the scanner.
\<close>

lemma confirmed_iff:
  assumes "map_ok mm"
  shows "(cid, m) \<in> set (iter_confirmed_market_mappings ra mm) \<longleftrightarrow>
    map_of mm cid = Some m \<and> m_status m = Some ''confirmed''
    \<and> (ra \<longrightarrow> m_allow_auto_trade m = Some True)"
  using assms
  by (auto simp: iter_confirmed_market_mappings_def map_ok_def dict_ok_def opt_get_def
      split: option.splits)

lemma upsert_fails_closed:
  assumes "map_ok mm" "map_of mm cid = None" "m_allow_auto_trade payload = None"
  shows "(cid, m) \<notin> set (iter_confirmed_market_mappings True
           (fst (upsert_runtime_market_mapping cid payload mm)))"
proof -
  have "map_ok (fst (upsert_runtime_market_mapping cid payload mm))"
    using mapping_cache.step_inv[OF assms(1), of "Upsert cid payload"] by simp
  then show ?thesis
    using assms
    by (auto simp: confirmed_iff upsert_runtime_market_mapping_def Let_def update_conv
        upsert_merged_fields or_else_def empty_mapping_def)
qed

end
