(* ===== verification/Retry.thy ===== *)
theory Retry
  imports Prelude
begin

text \<open>
  \<open>arbiter/utils/retry.py\<close>: the circuit breaker, the retry loop, the session manager and the
  token-bucket rate limiter that every collector and adapter goes through.  What the program
  awaits (the function retried, the authentication, the end of a sleep) is a parameter.
\<close>

section \<open>Circuit breaker\<close>

datatype circuit_state = CLOSED | OPEN | HALF_OPEN

record circuit_breaker =
  cb_name :: string
  cb_failure_threshold :: int
  cb_recovery_timeout :: flt
  cb_half_open_max :: int
  cb_state :: circuit_state
  cb_failure_count :: int
  cb_last_failure_time :: flt
  cb_half_open_attempts :: int
  cb_success_count :: int
  cb_total_calls :: int

definition new_breaker :: "string \<Rightarrow> int \<Rightarrow> flt \<Rightarrow> int \<Rightarrow> circuit_breaker" where
  "new_breaker name threshold timeout half_max =
     \<lparr> cb_name = name, cb_failure_threshold = threshold, cb_recovery_timeout = timeout,
       cb_half_open_max = half_max, cb_state = CLOSED, cb_failure_count = 0,
       cb_last_failure_time = 0, cb_half_open_attempts = 0, cb_success_count = 0,
       cb_total_calls = 0 \<rparr>"

text \<open>Reading the property \<open>state\<close> may move the breaker to \<open>HALF_OPEN\<close>.\<close>

definition cb_read_state :: "flt \<Rightarrow> circuit_breaker \<Rightarrow> circuit_breaker" where
  "cb_read_state now c =
     (if cb_state c = OPEN \<and> cb_recovery_timeout c \<le> now - cb_last_failure_time c
      then c\<lparr>cb_state := HALF_OPEN, cb_half_open_attempts := 0\<rparr> else c)"

definition record_success :: "circuit_breaker \<Rightarrow> circuit_breaker" where
  "record_success c0 =
     (let c = c0\<lparr>cb_total_calls := cb_total_calls c0 + 1,
                 cb_success_count := cb_success_count c0 + 1\<rparr>
      in case cb_state c of
           HALF_OPEN \<Rightarrow>
             (let c1 = c\<lparr>cb_half_open_attempts := cb_half_open_attempts c + 1\<rparr>
              in if cb_half_open_max c1 \<le> cb_half_open_attempts c1
                 then c1\<lparr>cb_state := CLOSED, cb_failure_count := 0\<rparr> else c1)
         | CLOSED \<Rightarrow> c\<lparr>cb_failure_count := max 0 (cb_failure_count c - 1)\<rparr>
         | OPEN \<Rightarrow> c)"

definition record_failure :: "flt \<Rightarrow> circuit_breaker \<Rightarrow> circuit_breaker" where
  "record_failure now c0 =
     (let c = c0\<lparr>cb_total_calls := cb_total_calls c0 + 1,
                 cb_failure_count := cb_failure_count c0 + 1, cb_last_failure_time := now\<rparr>
      in if cb_state c = HALF_OPEN then c\<lparr>cb_state := OPEN\<rparr>
         else if cb_failure_threshold c \<le> cb_failure_count c then c\<lparr>cb_state := OPEN\<rparr>
         else c)"

definition can_execute :: "flt \<Rightarrow> circuit_breaker \<Rightarrow> circuit_breaker \<times> bool" where
  "can_execute now c = (let c' = cb_read_state now c in (c', cb_state c' \<noteq> OPEN))"

record breaker_stats =
  bs_name :: string
  bs_state :: circuit_state
  bs_failures :: int
  bs_total_calls :: int
  bs_success_count :: int
  bs_success_rate :: flt

definition cb_stats :: "circuit_breaker \<Rightarrow> breaker_stats" where
  "cb_stats c =
     \<lparr> bs_name = cb_name c, bs_state = cb_state c, bs_failures = cb_failure_count c,
       bs_total_calls = cb_total_calls c, bs_success_count = cb_success_count c,
       bs_success_rate =
         round_nd 3 (of_int (cb_success_count c) / of_int (max (cb_total_calls c) 1)) \<rparr>"

lemmas breaker_defs = new_breaker_def cb_read_state_def record_success_def record_failure_def
  can_execute_def

declare breaker_defs [model_simps]

datatype breaker_event = CbSuccess | CbFailure flt | CbCheck flt

primrec breaker_step :: "breaker_event \<Rightarrow> circuit_breaker \<Rightarrow> circuit_breaker" where
  "breaker_step CbSuccess c = record_success c"
| "breaker_step (CbFailure now) c = record_failure now c"
| "breaker_step (CbCheck now) c = fst (can_execute now c)"

text \<open>
  The invariant: a closed breaker has fewer failures than the threshold, an open or half-open
  one at least as many, a half-open one has not yet seen the successes that close it, and the
  successes are among the calls.
\<close>

definition breaker_ok :: "circuit_breaker \<Rightarrow> bool" where
  "breaker_ok c =
     (0 < cb_failure_threshold c \<and> 0 < cb_half_open_max c \<and> 0 \<le> cb_failure_count c
      \<and> (case cb_state c of
           CLOSED \<Rightarrow> cb_failure_count c < cb_failure_threshold c
         | OPEN \<Rightarrow> cb_failure_threshold c \<le> cb_failure_count c
         | HALF_OPEN \<Rightarrow> cb_failure_threshold c \<le> cb_failure_count c
             \<and> 0 \<le> cb_half_open_attempts c \<and> cb_half_open_attempts c < cb_half_open_max c)
      \<and> 0 \<le> cb_success_count c \<and> cb_success_count c \<le> cb_total_calls c)"

interpretation breaker: invariant_machine breaker_step breaker_ok
proof unfold_locales
  fix c :: circuit_breaker and e :: breaker_event
  assume "breaker_ok c"
  then show "breaker_ok (breaker_step e c)"
    by (cases e; cases "cb_state c") (auto simp: breaker_ok_def breaker_defs Let_def)
qed

text \<open>The events that are not failures, and the clock of an event.\<close>

primrec quiet_until :: "flt \<Rightarrow> breaker_event \<Rightarrow> bool" where
  "quiet_until limit CbSuccess = True"
| "quiet_until limit (CbFailure now) = False"
| "quiet_until limit (CbCheck now) = (now < limit)"

lemma open_step:
  assumes "cb_state c = OPEN" "quiet_until (cb_last_failure_time c + cb_recovery_timeout c) e"
  shows "cb_state (breaker_step e c) = OPEN"
    "cb_last_failure_time (breaker_step e c) = cb_last_failure_time c"
    "cb_recovery_timeout (breaker_step e c) = cb_recovery_timeout c"
    "cb_half_open_max (breaker_step e c) = cb_half_open_max c"
  using assms by (cases e; auto simp: breaker_defs Let_def)+

lemma open_run:
  assumes "cb_state c = OPEN"
    and "list_all (quiet_until (cb_last_failure_time c + cb_recovery_timeout c)) es"
  shows "cb_state (fold breaker_step es c) = OPEN
       \<and> cb_last_failure_time (fold breaker_step es c) = cb_last_failure_time c
       \<and> cb_recovery_timeout (fold breaker_step es c) = cb_recovery_timeout c
       \<and> cb_half_open_max (fold breaker_step es c) = cb_half_open_max c"
  using assms
proof (induction es arbitrary: c)
  case (Cons e es)
  then show ?case using open_step[of c e] by simp
qed simp

lemma half_open_successes:
  assumes "cb_state c = HALF_OPEN" "0 < cb_half_open_max c - cb_half_open_attempts c"
    and "int n = cb_half_open_max c - cb_half_open_attempts c"
  shows "cb_state ((record_success ^^ n) c) = CLOSED \<and> cb_failure_count ((record_success ^^ n) c) = 0"
  using assms
proof (induction n arbitrary: c)
  case (Suc n)
  show ?case
  proof (cases "n = 0")
    case True
    with Suc.prems show ?thesis by (simp add: record_success_def Let_def)
  next
    case False
    with Suc.prems have "cb_half_open_attempts c + 1 < cb_half_open_max c" by linarith
    with Suc.prems have "cb_state (record_success c) = HALF_OPEN"
      "cb_half_open_attempts (record_success c) = cb_half_open_attempts c + 1"
      "cb_half_open_max (record_success c) = cb_half_open_max c"
      by (simp_all add: record_success_def Let_def)
    with Suc.IH[of "record_success c"] Suc.prems \<open>cb_half_open_attempts c + 1 < cb_half_open_max c\<close>
    show ?thesis by (simp add: funpow_Suc_right del: funpow.simps)
  qed
qed simp

lemma new_breaker_ok: "0 < threshold \<Longrightarrow> 0 < half_max \<Longrightarrow> breaker_ok (new_breaker name threshold timeout half_max)"
  by (simp add: breaker_ok_def new_breaker_def)

text \<open>
  Whatever calls a fresh breaker has seen: while it is closed it has recorded fewer failures
  than its threshold; once it is open it rejects every call made before the recovery timeout has
  run since the last failure, whatever successes and checks come meanwhile; the first check after
  the timeout lets calls through again, and \<open>half_open_max\<close> successes then close it with a
  failure count of zero.
\<close>

theorem breaker_lifecycle:
  assumes "0 < threshold" "0 < half_max"
    and c: "c = fold breaker_step es (new_breaker name threshold timeout half_max)"
    and quiet: "list_all (quiet_until (cb_last_failure_time c + cb_recovery_timeout c)) es'"
    and c': "c' = fold breaker_step es' c"
  shows "(cb_state c = CLOSED \<longrightarrow> cb_failure_count c < cb_failure_threshold c)
    \<and> (cb_state c = OPEN \<longrightarrow> now < cb_last_failure_time c + cb_recovery_timeout c
           \<longrightarrow> \<not> snd (can_execute now c'))
    \<and> (cb_state c = OPEN \<longrightarrow> cb_last_failure_time c + cb_recovery_timeout c \<le> now
           \<longrightarrow> snd (can_execute now c')
             \<and> cb_state ((record_success ^^ nat (cb_half_open_max c)) (fst (can_execute now c')))
                 = CLOSED
             \<and> cb_failure_count
                 ((record_success ^^ nat (cb_half_open_max c)) (fst (can_execute now c'))) = 0)"
proof (intro conjI)
  have ok: "breaker_ok c"
    unfolding c by (rule breaker.run_inv) (rule new_breaker_ok[OF assms(1,2)])
  then show "cb_state c = CLOSED \<longrightarrow> cb_failure_count c < cb_failure_threshold c"
    by (auto simp: breaker_ok_def)
  show "cb_state c = OPEN \<longrightarrow> now < cb_last_failure_time c + cb_recovery_timeout c
           \<longrightarrow> \<not> snd (can_execute now c')"
    using open_run[OF _ quiet] by (simp add: c' can_execute_def cb_read_state_def Let_def)
  show "cb_state c = OPEN \<longrightarrow> cb_last_failure_time c + cb_recovery_timeout c \<le> now
           \<longrightarrow> snd (can_execute now c')
             \<and> cb_state ((record_success ^^ nat (cb_half_open_max c)) (fst (can_execute now c')))
                 = CLOSED
             \<and> cb_failure_count
                 ((record_success ^^ nat (cb_half_open_max c)) (fst (can_execute now c'))) = 0"
  proof (intro impI)
    assume "cb_state c = OPEN" "cb_last_failure_time c + cb_recovery_timeout c \<le> now"
    with open_run[OF _ quiet] have
      half: "cb_state (fst (can_execute now c')) = HALF_OPEN"
        "cb_half_open_attempts (fst (can_execute now c')) = 0"
        "cb_half_open_max (fst (can_execute now c')) = cb_half_open_max c"
      by (simp_all add: c' can_execute_def cb_read_state_def Let_def)
    moreover have "0 < cb_half_open_max c" using ok by (simp add: breaker_ok_def)
    ultimately show "snd (can_execute now c')
        \<and> cb_state ((record_success ^^ nat (cb_half_open_max c)) (fst (can_execute now c')))
                 = CLOSED
        \<and> cb_failure_count
            ((record_success ^^ nat (cb_half_open_max c)) (fst (can_execute now c'))) = 0"
      using half_open_successes[of "fst (can_execute now c')" "nat (cb_half_open_max c)"]
      by (auto simp: can_execute_def Let_def)
  qed
qed

definition demo_breaker :: circuit_breaker where
  "demo_breaker = fold breaker_step [CbFailure 1, CbFailure 2] (new_breaker ''api'' 2 30 1)"

theorem breaker_lifecycle_witness:
  "cb_state demo_breaker = OPEN \<and> \<not> snd (can_execute 31 (fold breaker_step [CbSuccess] demo_breaker))
   \<and> snd (can_execute 32 (fold breaker_step [CbSuccess] demo_breaker))"
proof -
  have "cb_state demo_breaker = OPEN" "cb_last_failure_time demo_breaker = 2"
    "cb_recovery_timeout demo_breaker = 30"
    by (simp_all add: demo_breaker_def model_simps)
  with breaker_lifecycle[of 2 1 demo_breaker "[CbFailure 1, CbFailure 2]" "''api''" 30
      "[CbSuccess]" "fold breaker_step [CbSuccess] demo_breaker"]
  show ?thesis by (simp add: demo_breaker_def)
qed

text \<open>
  The documentation speaks of consecutive failures; a success only takes one failure off the
  count, so six failures with a success among them open a breaker of threshold five.
\<close>

lemma breaker_counts_not_consecutive:
  "cb_state (fold breaker_step
      [CbFailure 1, CbFailure 2, CbFailure 3, CbFailure 4, CbSuccess, CbFailure 5, CbFailure 6]
      (new_breaker ''api'' 5 30 2)) = OPEN"
  by (simp add: model_simps)

section \<open>Retry with exponential backoff\<close>

text \<open>
  \<open>retry_with_backoff\<close>: the \<open>k\<close>-th call of the function returns \<open>fn k\<close>, \<open>rnd k\<close> is the
  value of \<open>random()\<close> after it and \<open>clk k\<close> the time at which its failure is recorded.
  \<open>NoAttempt\<close> is the \<open>TypeError\<close> of \<open>raise None\<close> when \<open>retries\<close> is negative.
\<close>

datatype 'e retry_error = CircuitOpenError string | LastError 'e | NoAttempt

definition retry_delay :: "flt \<Rightarrow> flt \<Rightarrow> flt \<Rightarrow> nat \<Rightarrow> flt \<Rightarrow> flt" where
  "retry_delay base_delay max_delay backoff_factor attempt rnd =
     min (base_delay * backoff_factor ^ attempt) max_delay * (1/2 + rnd)"

record ('e, 'a) retry_run =
  rr_outcome :: "'e retry_error + 'a"
  rr_circuit :: "circuit_breaker option"
  rr_delays :: "flt list"
  rr_calls :: nat

text \<open>The loop from \<open>attempt\<close> on, with \<open>left\<close> attempts still allowed after this one.\<close>

primrec retry_loop ::
  "(nat \<Rightarrow> 'e + 'a) \<Rightarrow> (nat \<Rightarrow> flt) \<Rightarrow> (nat \<Rightarrow> flt) \<Rightarrow> flt \<Rightarrow> flt \<Rightarrow> flt \<Rightarrow> nat \<Rightarrow> nat
   \<Rightarrow> circuit_breaker option \<Rightarrow> ('e, 'a) retry_run" where
  "retry_loop fn rnd clk base mx factor 0 attempt circuit =
     (case fn attempt of
        Inr v \<Rightarrow> \<lparr>rr_outcome = Inr v, rr_circuit = map_option record_success circuit,
                 rr_delays = [], rr_calls = Suc attempt\<rparr>
      | Inl e \<Rightarrow> \<lparr>rr_outcome = Inl (LastError e),
                 rr_circuit = map_option (record_failure (clk attempt)) circuit,
                 rr_delays = [], rr_calls = Suc attempt\<rparr>)"
| "retry_loop fn rnd clk base mx factor (Suc left) attempt circuit =
     (case fn attempt of
        Inr v \<Rightarrow> \<lparr>rr_outcome = Inr v, rr_circuit = map_option record_success circuit,
                 rr_delays = [], rr_calls = Suc attempt\<rparr>
      | Inl e \<Rightarrow>
          (let r = retry_loop fn rnd clk base mx factor left (Suc attempt)
                     (map_option (record_failure (clk attempt)) circuit)
           in r\<lparr>rr_delays := retry_delay base mx factor attempt (rnd attempt) # rr_delays r\<rparr>))"

definition retry_with_backoff ::
  "(nat \<Rightarrow> 'e + 'a) \<Rightarrow> (nat \<Rightarrow> flt) \<Rightarrow> (nat \<Rightarrow> flt) \<Rightarrow> int \<Rightarrow> flt \<Rightarrow> flt \<Rightarrow> flt \<Rightarrow> flt
   \<Rightarrow> circuit_breaker option \<Rightarrow> ('e, 'a) retry_run" where
  "retry_with_backoff fn rnd clk retries base mx factor now circuit =
     (let checked = map_option (can_execute now) circuit
      in case checked of
           Some (c, False) \<Rightarrow>
             \<lparr>rr_outcome = Inl (CircuitOpenError (cb_name c)), rr_circuit = Some c,
              rr_delays = [], rr_calls = 0\<rparr>
         | _ \<Rightarrow>
             if retries < 0
             then \<lparr>rr_outcome = Inl NoAttempt, rr_circuit = map_option fst checked,
                   rr_delays = [], rr_calls = 0\<rparr>
             else retry_loop fn rnd clk base mx factor (nat retries) 0 (map_option fst checked))"

declare retry_delay_def [model_simps] retry_with_backoff_def [model_simps]

text \<open>What the loop did: the calls before the last failed, the last one decided the outcome.\<close>

lemma retry_loop_spec:
  assumes "r = retry_loop fn rnd clk base mx factor left attempt circuit"
  shows "attempt < rr_calls r \<and> rr_calls r \<le> attempt + left + 1
    \<and> (\<forall>k. attempt \<le> k \<and> k + 1 < rr_calls r \<longrightarrow> isl (fn k))
    \<and> rr_delays r = map (\<lambda>k. retry_delay base mx factor k (rnd k)) [attempt ..< rr_calls r - 1]
    \<and> (case fn (rr_calls r - 1) of
         Inr v \<Rightarrow> rr_outcome r = Inr v
       | Inl e \<Rightarrow> rr_outcome r = Inl (LastError e) \<and> rr_calls r = attempt + left + 1)"
  using assms
proof (induction left arbitrary: attempt circuit r)
  case 0
  then show ?case by (auto split: sum.split)
next
  case (Suc left)
  show ?case
  proof (cases "fn attempt")
    case (Inr v)
    with Suc.prems show ?thesis by (auto split: sum.split)
  next
    case (Inl e)
    define r' where "r' = retry_loop fn rnd clk base mx factor left (Suc attempt)
                     (map_option (record_failure (clk attempt)) circuit)"
    note ih = Suc.IH[OF r'_def]
    have r: "r = r'\<lparr>rr_delays := retry_delay base mx factor attempt (rnd attempt) # rr_delays r'\<rparr>"
      using Suc.prems Inl by (simp add: r'_def Let_def)
    from ih have "attempt < rr_calls r' - 1" by linarith
    then have "[attempt ..< rr_calls r' - 1] = attempt # [Suc attempt ..< rr_calls r' - 1]"
      by (rule upt_conv_Cons)
    then have "rr_delays r
        = map (\<lambda>k. retry_delay base mx factor k (rnd k)) [attempt ..< rr_calls r - 1]"
      using ih unfolding r by simp
    moreover have "\<forall>k. attempt \<le> k \<and> k + 1 < rr_calls r \<longrightarrow> isl (fn k)"
    proof (intro allI impI)
      fix k assume "attempt \<le> k \<and> k + 1 < rr_calls r"
      then show "isl (fn k)"
        using ih Inl by (cases "k = attempt") (simp_all add: r)
    qed
    moreover have "case fn (rr_calls r - 1) of
         Inr v \<Rightarrow> rr_outcome r = Inr v
       | Inl e \<Rightarrow> rr_outcome r = Inl (LastError e) \<and> rr_calls r = attempt + Suc left + 1"
      using ih unfolding r by (simp split: sum.splits)
    moreover have "attempt < rr_calls r \<and> rr_calls r \<le> attempt + Suc left + 1"
      using ih unfolding r by simp
    ultimately show ?thesis by blast
  qed
qed

text \<open>
  C31.  With \<open>retries\<close> not negative and the circuit not open the function is called at least
  once and at most \<open>retries + 1\<close> times; every call but the last failed, a success is returned
  at once, and an error is the last one, after all attempts.  Between calls the loop slept once,
  each time within half and one and a half times the capped exponential delay.
\<close>

theorem retry_bounded:
  assumes "0 \<le> retries" "\<And>k. 0 \<le> rnd k \<and> rnd k < 1" "0 < base" "0 < mx" "0 < factor"
    and "\<And>c. circuit = Some c \<Longrightarrow> snd (can_execute now c)"
    and r: "r = retry_with_backoff fn rnd clk retries base mx factor now circuit"
  shows "1 \<le> rr_calls r \<and> int (rr_calls r) \<le> retries + 1
       \<and> (\<forall>k. k + 1 < rr_calls r \<longrightarrow> isl (fn k))
       \<and> (case fn (rr_calls r - 1) of
            Inr v \<Rightarrow> rr_outcome r = Inr v
          | Inl e \<Rightarrow> rr_outcome r = Inl (LastError e) \<and> int (rr_calls r) = retries + 1)
       \<and> length (rr_delays r) = rr_calls r - 1
       \<and> (\<forall>k < length (rr_delays r).
            1/2 * min (base * factor ^ k) mx \<le> rr_delays r ! k
            \<and> rr_delays r ! k < 3/2 * min (base * factor ^ k) mx)"
proof -
  have "r = retry_loop fn rnd clk base mx factor (nat retries) 0
          (map_option fst (map_option (can_execute now) circuit))"
    using assms(1,6) by (auto simp: r retry_with_backoff_def Let_def split: option.splits bool.splits
        prod.splits)
  from retry_loop_spec[OF this] have
    spec: "0 < rr_calls r \<and> rr_calls r \<le> 0 + nat retries + 1
      \<and> (\<forall>k. 0 \<le> k \<and> k + 1 < rr_calls r \<longrightarrow> isl (fn k))
      \<and> rr_delays r = map (\<lambda>k. retry_delay base mx factor k (rnd k)) [0 ..< rr_calls r - 1]
      \<and> (case fn (rr_calls r - 1) of
         Inr v \<Rightarrow> rr_outcome r = Inr v
       | Inl e \<Rightarrow> rr_outcome r = Inl (LastError e) \<and> rr_calls r = 0 + nat retries + 1)" .
  have delay: "1/2 * min (base * factor ^ k) mx \<le> retry_delay base mx factor k (rnd k)
      \<and> retry_delay base mx factor k (rnd k) < 3/2 * min (base * factor ^ k) mx" for k
  proof -
    have "0 < min (base * factor ^ k) mx" using assms(3-5) by simp
    moreover have "1/2 \<le> 1/2 + rnd k" "1/2 + rnd k < 3/2" using assms(2)[of k] by auto
    ultimately show ?thesis
      using mult_left_mono[of "1/2" "1/2 + rnd k" "min (base * factor ^ k) mx"]
        mult_strict_left_mono[of "1/2 + rnd k" "3/2" "min (base * factor ^ k) mx"]
      by (simp add: retry_delay_def mult.commute)
  qed
  with spec assms(1) show ?thesis by (auto split: sum.splits)
qed

definition demo_retry :: "(unit, nat) retry_run" where
  "demo_retry = retry_with_backoff (\<lambda>k. if k < 2 then Inl () else Inr k) (\<lambda>k. 1/2) of_nat
     3 1 30 2 0 None"

theorem retry_bounded_witness:
  "1 \<le> rr_calls demo_retry \<and> int (rr_calls demo_retry) \<le> 3 + 1 \<and> rr_outcome demo_retry = Inr 2"
proof -
  have "rr_outcome demo_retry = Inr 2"
    by (simp add: demo_retry_def retry_with_backoff_def numeral_3_eq_3 Let_def)
  with retry_bounded[of 3 "\<lambda>k. 1/2" 1 30 2 None 0 demo_retry "\<lambda>k. if k < 2 then Inl () else Inr k"
      of_nat] show ?thesis
    by (simp add: demo_retry_def)
qed

text \<open>A call against an open circuit never reaches the function.\<close>

lemma retry_rejected:
  assumes "\<not> snd (can_execute now c)"
  shows "retry_with_backoff fn rnd clk retries base mx factor now (Some c)
    = \<lparr>rr_outcome = Inl (CircuitOpenError (cb_name c)), rr_circuit = Some (fst (can_execute now c)),
       rr_delays = [], rr_calls = 0\<rparr>"
proof -
  have "cb_name (fst (can_execute now c)) = cb_name c"
    by (simp add: can_execute_def cb_read_state_def Let_def)
  with assms show ?thesis
    by (cases "can_execute now c") (simp add: retry_with_backoff_def)
qed

section \<open>Sessions\<close>

text \<open>What awaiting the authentication function gives; \<open>NoAuthFn\<close> when none was set.\<close>

datatype auth_result = NoAuthFn | AuthToken "string option" | AuthRaised

record session_manager =
  sm_name :: string
  sm_session_ttl :: flt
  sm_max_session_age :: flt
  sm_token :: "string option"
  sm_created :: flt
  sm_last_activity :: flt
  sm_refresh_count :: int

definition truthy_str :: "string option \<Rightarrow> bool" where
  "truthy_str x = (case x of None \<Rightarrow> False | Some s \<Rightarrow> s \<noteq> [])"

definition is_expired :: "flt \<Rightarrow> session_manager \<Rightarrow> bool" where
  "is_expired now s =
     (if \<not> truthy_str (sm_token s) then True
      else if sm_max_session_age s < now - sm_created s then True
      else sm_session_ttl s < now - sm_last_activity s)"

definition time_until_expiry :: "flt \<Rightarrow> session_manager \<Rightarrow> flt" where
  "time_until_expiry now s =
     (if \<not> truthy_str (sm_token s) then 0
      else max 0 (min (sm_session_ttl s - (now - sm_last_activity s))
                      (sm_max_session_age s - (now - sm_created s))))"

definition session_refresh :: "auth_result \<Rightarrow> flt \<Rightarrow> session_manager \<Rightarrow> session_manager \<times> bool" where
  "session_refresh auth now s =
     (case auth of
        NoAuthFn \<Rightarrow> (s, False)
      | AuthRaised \<Rightarrow> (s, False)
      | AuthToken tok \<Rightarrow>
          if truthy_str tok
          then (s\<lparr>sm_token := tok, sm_created := now, sm_last_activity := now,
                 sm_refresh_count := sm_refresh_count s + 1\<rparr>, True)
          else (s, False))"

definition get_token ::
  "auth_result \<Rightarrow> flt \<Rightarrow> flt \<Rightarrow> session_manager \<Rightarrow> session_manager \<times> string option" where
  "get_token auth now now' s0 =
     (let s1 = (if is_expired now s0 then fst (session_refresh auth now' s0) else s0);
          s2 = s1\<lparr>sm_last_activity := now'\<rparr>
      in (s2, sm_token s2))"

definition session_invalidate :: "session_manager \<Rightarrow> session_manager" where
  "session_invalidate s = s\<lparr>sm_token := None\<rparr>"

record session_stats =
  ss_name :: string
  ss_has_token :: bool
  ss_expired :: bool
  ss_ttl_remaining :: flt
  ss_refresh_count :: int
  ss_age :: flt

definition session_stats_of :: "flt \<Rightarrow> session_manager \<Rightarrow> session_stats" where
  "session_stats_of now s =
     \<lparr> ss_name = sm_name s, ss_has_token = (sm_token s \<noteq> None), ss_expired = is_expired now s,
       ss_ttl_remaining = round_nd 1 (time_until_expiry now s),
       ss_refresh_count = sm_refresh_count s,
       ss_age = (if 0 < sm_created s then round_nd 1 (now - sm_created s) else 0) \<rparr>"

lemmas session_defs = truthy_str_def is_expired_def time_until_expiry_def session_refresh_def
  get_token_def session_invalidate_def

declare session_defs [model_simps]

text \<open>
  The remaining time says the same as the expiry test: a session with time left is not expired,
  and an expired one has none.
\<close>

lemma expiry_consistent:
  "0 < time_until_expiry now s \<Longrightarrow> \<not> is_expired now s"
  "is_expired now s \<Longrightarrow> time_until_expiry now s = 0"
  by (auto simp: session_defs min_def max_def split: if_splits option.splits)

lemma invalidate_expires: "is_expired now (session_invalidate s)"
  by (simp add: session_defs)

text \<open>A working authentication always yields a token that is not expired when it is handed out.\<close>

lemma get_token_fresh:
  assumes "auth = AuthToken (Some tok)" "tok \<noteq> []" "0 \<le> sm_session_ttl s" "0 \<le> sm_max_session_age s"
    and "now' = now"
  shows "\<not> is_expired now (fst (get_token auth now now' s))"
  using assms by (auto simp: session_defs Let_def split: option.splits)

text \<open>
  When the authentication fails the expired token is handed out all the same, and since the
  attempt counts as activity a session that had expired by idleness passes for a live one.
\<close>

lemma failed_refresh_revives:
  assumes "is_expired now s" "auth = AuthRaised" "truthy_str (sm_token s)"
    and "now' - sm_created s \<le> sm_max_session_age s" "0 \<le> sm_session_ttl s"
  shows "snd (get_token auth now now' s) = sm_token s
       \<and> \<not> is_expired now' (fst (get_token auth now now' s))"
  using assms by (auto simp: session_defs Let_def split: option.splits if_splits)

section \<open>Rate limiter\<close>

record rate_limiter =
  rl_name :: string
  rl_max_requests :: int
  rl_window_seconds :: flt
  rl_tokens :: flt
  rl_last_refill :: flt
  rl_penalty_until :: flt
  rl_penalty_count :: int
  rl_total_wait_time :: flt
  rl_last_wait_seconds :: flt
  rl_last_penalty_reason :: string
  rl_total_acquires :: int

definition new_rate_limiter :: "string \<Rightarrow> int \<Rightarrow> flt \<Rightarrow> flt \<Rightarrow> rate_limiter" where
  "new_rate_limiter name max_requests window now =
     \<lparr> rl_name = name, rl_max_requests = max_requests, rl_window_seconds = window,
       rl_tokens = of_int max_requests, rl_last_refill = now, rl_penalty_until = 0,
       rl_penalty_count = 0, rl_total_wait_time = 0, rl_last_wait_seconds = 0,
       rl_last_penalty_reason = [], rl_total_acquires = 0 \<rparr>"

definition rl_refill :: "flt \<Rightarrow> rate_limiter \<Rightarrow> rate_limiter" where
  "rl_refill now r =
     (let elapsed = now - rl_last_refill r;
          refill = elapsed * (of_int (rl_max_requests r) / rl_window_seconds r)
      in r\<lparr>rl_tokens := min (of_int (rl_max_requests r)) (rl_tokens r + refill),
           rl_last_refill := now\<rparr>)"

definition available_tokens :: "flt \<Rightarrow> rate_limiter \<Rightarrow> rate_limiter \<times> int" where
  "available_tokens now r = (let r' = rl_refill now r in (r', py_int (rl_tokens r')))"

definition remaining_penalty_seconds :: "flt \<Rightarrow> rate_limiter \<Rightarrow> flt" where
  "remaining_penalty_seconds now r = max (rl_penalty_until r - now) 0"

definition note_wait :: "flt \<Rightarrow> rate_limiter \<Rightarrow> rate_limiter" where
  "note_wait w r = r\<lparr>rl_last_wait_seconds := w, rl_total_wait_time := rl_total_wait_time r + w\<rparr>"

text \<open>
  One turn of the loop of \<open>acquire\<close> at time \<open>now\<close>: \<open>None\<close> when it took a token and returns,
  \<open>Some w\<close> when it sleeps \<open>w\<close> seconds and turns again.
\<close>

definition acquire_turn :: "flt \<Rightarrow> rate_limiter \<Rightarrow> rate_limiter \<times> flt option" where
  "acquire_turn now r =
     (let wait = remaining_penalty_seconds now r
      in if 0 < wait then (note_wait wait r, Some wait)
         else let r1 = rl_refill now r
              in if 1 \<le> rl_tokens r1
                 then (r1\<lparr>rl_tokens := rl_tokens r1 - 1,
                          rl_total_acquires := rl_total_acquires r1 + 1\<rparr>, None)
                 else let w = rl_window_seconds r1 / of_int (rl_max_requests r1)
                      in (note_wait w r1, Some w))"

text \<open>
  The loop.  \<open>wake now w\<close> is the time at which a sleep of \<open>w\<close> seconds started at \<open>now\<close> ends;
  the result is \<open>None\<close> when the fuel runs out, and otherwise the limiter and the time of the
  acquisition.
\<close>

primrec acquire :: "(flt \<Rightarrow> flt \<Rightarrow> flt) \<Rightarrow> nat \<Rightarrow> flt \<Rightarrow> rate_limiter \<Rightarrow> (rate_limiter \<times> flt) option" where
  "acquire wake 0 now r = None"
| "acquire wake (Suc n) now r =
     (case acquire_turn now r of
        (r', None) \<Rightarrow> Some (r', now)
      | (r', Some w) \<Rightarrow> acquire wake n (wake now w) r')"

definition penalize :: "flt \<Rightarrow> string \<Rightarrow> flt \<Rightarrow> rate_limiter \<Rightarrow> rate_limiter \<times> flt" where
  "penalize delay0 reason now r =
     (let delay = max delay0 0
      in if delay \<le> 0 then (r, 0)
         else (r\<lparr>rl_penalty_until := max (rl_penalty_until r) (now + delay),
                 rl_penalty_count := rl_penalty_count r + 1, rl_last_penalty_reason := reason,
                 rl_tokens := min (rl_tokens r) 0\<rparr>, delay))"

text \<open>
  \<open>apply_retry_after\<close>, given what \<open>_parse_retry_after\<close> made of the header (\<open>None\<close> when it
  could not be parsed).
\<close>

definition apply_retry_after ::
  "flt option \<Rightarrow> flt \<Rightarrow> string \<Rightarrow> flt \<Rightarrow> rate_limiter \<Rightarrow> rate_limiter \<times> flt" where
  "apply_retry_after parsed fallback_delay reason now r =
     penalize (case parsed of None \<Rightarrow> max fallback_delay 0 | Some d \<Rightarrow> d) reason now r"

lemmas limiter_defs = rl_refill_def available_tokens_def remaining_penalty_seconds_def
  note_wait_def acquire_turn_def penalize_def apply_retry_after_def

declare limiter_defs [model_simps] new_rate_limiter_def [model_simps]

datatype limiter_event = RlTurn flt | RlPenalize flt string flt | RlAvailable flt

primrec limiter_step :: "limiter_event \<Rightarrow> rate_limiter \<Rightarrow> rate_limiter" where
  "limiter_step (RlTurn now) r = fst (acquire_turn now r)"
| "limiter_step (RlPenalize d reason now) r = fst (penalize d reason now r)"
| "limiter_step (RlAvailable now) r = fst (available_tokens now r)"

text \<open>The clock does not run backwards between two refills.\<close>

primrec limiter_guard :: "limiter_event \<Rightarrow> rate_limiter \<Rightarrow> bool" where
  "limiter_guard (RlTurn now) r = (rl_last_refill r \<le> now)"
| "limiter_guard (RlPenalize d reason now) r = True"
| "limiter_guard (RlAvailable now) r = (rl_last_refill r \<le> now)"

definition limiter_ok :: "rate_limiter \<Rightarrow> bool" where
  "limiter_ok r = (0 < rl_max_requests r \<and> 0 < rl_window_seconds r \<and> 0 \<le> rl_tokens r
     \<and> rl_tokens r \<le> of_int (rl_max_requests r))"

text \<open>
  Relative to an earlier state \<open>r0\<close>: the tokens taken since, plus those still in the bucket,
  are at most a full bucket and what has flowed in since.
\<close>

definition limiter_since :: "rate_limiter \<Rightarrow> rate_limiter \<Rightarrow> bool" where
  "limiter_since r0 r =
     (limiter_ok r \<and> rl_max_requests r = rl_max_requests r0
      \<and> rl_window_seconds r = rl_window_seconds r0 \<and> rl_last_refill r0 \<le> rl_last_refill r
      \<and> of_int (rl_total_acquires r - rl_total_acquires r0) + rl_tokens r
          \<le> of_int (rl_max_requests r0)
            + (rl_last_refill r - rl_last_refill r0)
              * (of_int (rl_max_requests r0) / rl_window_seconds r0))"

lemma limiter_since_refl: "limiter_ok r \<Longrightarrow> limiter_since r r"
  by (simp add: limiter_since_def limiter_ok_def)

lemma refill_since:
  assumes "limiter_since r0 r" "rl_last_refill r \<le> now"
  shows "limiter_since r0 (rl_refill now r)"
proof -
  let ?rate = "of_int (rl_max_requests r0) / rl_window_seconds r0"
  have "0 < ?rate" using assms(1) by (simp add: limiter_since_def limiter_ok_def)
  then have "0 \<le> (now - rl_last_refill r) * ?rate"
    using assms(2) by (intro mult_nonneg_nonneg) simp_all
  moreover have "(now - rl_last_refill r) * ?rate + (rl_last_refill r - rl_last_refill r0) * ?rate
      = (now - rl_last_refill r0) * ?rate"
    by (simp only: distrib_right[symmetric]) simp
  ultimately show ?thesis
    using assms by (auto simp: limiter_since_def limiter_ok_def rl_refill_def Let_def)
qed

lemma limiter_since_drop:
  assumes "limiter_since r0 r" "0 \<le> t" "t \<le> rl_tokens r"
  shows "limiter_since r0 (r\<lparr>rl_tokens := t\<rparr>)"
  using assms by (auto simp: limiter_since_def limiter_ok_def)

interpretation limiter: guarded_machine limiter_step limiter_guard "limiter_since r0"
proof unfold_locales
  fix r :: rate_limiter and e :: limiter_event
  assume s: "limiter_since r0 r" and g: "limiter_guard e r"
  show "limiter_since r0 (limiter_step e r)"
  proof (cases e)
    case (RlTurn now)
    with g refill_since[OF s] have "limiter_since r0 (rl_refill now r)" by simp
    with s RlTurn show ?thesis
      by (auto simp: acquire_turn_def Let_def note_wait_def limiter_since_def limiter_ok_def)
  next
    case (RlPenalize d reason now)
    with s limiter_since_drop[OF s, of 0] show ?thesis
      by (auto simp: penalize_def Let_def limiter_since_def limiter_ok_def min_def)
  next
    case (RlAvailable now)
    with g refill_since[OF s] show ?thesis by (simp add: available_tokens_def Let_def)
  qed
qed

text \<open>
  Between any two moments of a limiter's life at most \<open>max_requests\<close> tokens plus
  \<open>max_requests / window\<close> per second elapsed are handed out, whatever mixture of acquisitions,
  waits and penalties comes in between, and the bucket never goes below zero nor over its cap.
\<close>

theorem limiter_rate_bound:
  assumes "limiter_ok r" and "guarded_run limiter_step limiter_guard es r"
    and "r' = fold limiter_step es r"
  shows "of_int (rl_total_acquires r' - rl_total_acquires r)
           \<le> of_int (rl_max_requests r)
             + (rl_last_refill r' - rl_last_refill r)
               * (of_int (rl_max_requests r) / rl_window_seconds r)
       \<and> 0 \<le> rl_tokens r' \<and> rl_tokens r' \<le> of_int (rl_max_requests r)"
  using limiter.guarded_run_inv[OF limiter_since_refl[OF assms(1)] assms(2)] assms(3)
  by (simp add: limiter_since_def limiter_ok_def)

definition demo_limiter :: rate_limiter where
  "demo_limiter = new_rate_limiter ''kalshi'' 2 1 0"

theorem limiter_rate_bound_witness:
  "rl_total_acquires (fold limiter_step [RlTurn 0, RlTurn 0, RlTurn 0, RlTurn (1/2)] demo_limiter) = 3
   \<and> of_int (rl_total_acquires (fold limiter_step [RlTurn 0, RlTurn 0, RlTurn 0, RlTurn (1/2)]
         demo_limiter) - rl_total_acquires demo_limiter) \<le> (2 + (1/2 - 0) * (2 / 1) :: flt)"
proof -
  let ?es = "[RlTurn 0, RlTurn 0, RlTurn 0, RlTurn (1/2)]"
  have "limiter_ok demo_limiter" "guarded_run limiter_step limiter_guard ?es demo_limiter"
    "rl_last_refill (fold limiter_step ?es demo_limiter) = 1/2"
    "rl_total_acquires (fold limiter_step ?es demo_limiter) = 3"
    by (simp_all add: limiter_ok_def demo_limiter_def model_simps Let_def)
  with limiter_rate_bound[of demo_limiter ?es "fold limiter_step ?es demo_limiter"]
  show ?thesis by (simp add: demo_limiter_def new_rate_limiter_def)
qed

text \<open>
  The loop of \<open>acquire\<close> ends: a penalty is slept off once, and after one wait for a token the
  refill has brought one.
\<close>

lemma refill_fields [simp]:
  "rl_max_requests (rl_refill now r) = rl_max_requests r"
  "rl_window_seconds (rl_refill now r) = rl_window_seconds r"
  "rl_penalty_until (rl_refill now r) = rl_penalty_until r"
  "rl_total_acquires (rl_refill now r) = rl_total_acquires r"
  "rl_last_refill (rl_refill now r) = now"
  "rl_tokens (rl_refill now (note_wait w r)) = rl_tokens (rl_refill now r)"
  by (simp_all add: rl_refill_def note_wait_def Let_def)

lemma note_wait_fields [simp]:
  "rl_max_requests (note_wait w r) = rl_max_requests r"
  "rl_window_seconds (note_wait w r) = rl_window_seconds r"
  "rl_penalty_until (note_wait w r) = rl_penalty_until r"
  "rl_total_acquires (note_wait w r) = rl_total_acquires r"
  "rl_last_refill (note_wait w r) = rl_last_refill r"
  "rl_tokens (note_wait w r) = rl_tokens r"
  by (simp_all add: note_wait_def)

lemma acquire_with_token:
  assumes "rl_penalty_until r \<le> now" "1 \<le> rl_tokens (rl_refill now r)"
  shows "\<exists>r'. acquire wake (Suc n) now r = Some (r', now)
    \<and> rl_total_acquires r' = rl_total_acquires r + 1"
  using assms by (simp add: acquire_turn_def remaining_penalty_seconds_def Let_def)

lemma acquire_unpenalized:
  assumes "limiter_ok r" "rl_last_refill r \<le> now" "rl_penalty_until r \<le> now"
    and wake: "\<And>t w. 0 \<le> w \<Longrightarrow> t + w \<le> wake t w"
  shows "\<exists>r' t. acquire wake (Suc (Suc n)) now r = Some (r', t) \<and> now \<le> t
    \<and> rl_total_acquires r' = rl_total_acquires r + 1"
proof (cases "1 \<le> rl_tokens (rl_refill now r)")
  case True
  show ?thesis using acquire_with_token[OF assms(3) True, of wake "Suc n"] by auto
next
  case False
  let ?w = "rl_window_seconds r / of_int (rl_max_requests r)"
  let ?r1 = "note_wait ?w (rl_refill now r)"
  have pos: "0 < rl_window_seconds r" "1 \<le> rl_max_requests r"
    using assms(1) by (auto simp: limiter_ok_def)
  then have w: "0 \<le> ?w" by simp
  from wake[OF w, of now] have t: "now + ?w \<le> wake now ?w" .
  have ok: "limiter_since r (rl_refill now r)"
    by (rule refill_since[OF limiter_since_refl[OF assms(1)] assms(2)])
  have "?w * (of_int (rl_max_requests r) / rl_window_seconds r) = 1"
    using pos by simp
  then have "1 \<le> (wake now ?w - now) * (of_int (rl_max_requests r) / rl_window_seconds r)"
    using t pos mult_right_mono[of ?w "wake now ?w - now"
        "of_int (rl_max_requests r) / rl_window_seconds r"] by simp
  moreover have "0 \<le> rl_tokens (rl_refill now r)"
    using ok by (simp add: limiter_since_def limiter_ok_def)
  moreover have "(1::flt) \<le> of_int (rl_max_requests r)" using pos by simp
  ultimately have "1 \<le> rl_tokens (rl_refill (wake now ?w) ?r1)"
    by (simp add: rl_refill_def Let_def note_wait_def)
  moreover have "rl_penalty_until ?r1 \<le> wake now ?w" using t w assms(3) by simp
  ultimately obtain r' where "acquire wake (Suc n) (wake now ?w) ?r1 = Some (r', wake now ?w)"
    "rl_total_acquires r' = rl_total_acquires ?r1 + 1"
    using acquire_with_token[of ?r1 "wake now ?w" wake n] by blast
  moreover have "acquire_turn now r = (?r1, Some ?w)"
    using False assms(3) by (simp add: acquire_turn_def remaining_penalty_seconds_def Let_def)
  ultimately show ?thesis using t w by simp
qed

text \<open>
  \<open>acquire\<close> returns: with a limiter that may ever hand out a token, a clock that has not
  run backwards and sleeps that are not cut short, three turns of the loop are enough, the token
  is counted once, and it is not handed out before the penalty is over.
\<close>

theorem acquire_terminates:
  assumes "limiter_ok r" "rl_last_refill r \<le> now"
    and wake: "\<And>t w. 0 \<le> w \<Longrightarrow> t + w \<le> wake t w"
  shows "\<exists>r' t. acquire wake 3 now r = Some (r', t) \<and> max now (rl_penalty_until r) \<le> t
    \<and> rl_total_acquires r' = rl_total_acquires r + 1"
proof (cases "rl_penalty_until r \<le> now")
  case True
  have "Suc (Suc 1) = (3::nat)" by simp
  with acquire_unpenalized[OF assms(1,2) True wake, of 1] True show ?thesis
    by (simp del: acquire.simps add: numeral_3_eq_3)
next
  case False
  let ?w = "rl_penalty_until r - now"
  let ?r1 = "note_wait ?w r"
  have t: "rl_penalty_until r \<le> wake now ?w" using wake[of ?w now] False by simp
  have "limiter_ok ?r1" using assms(1) by (simp add: limiter_ok_def)
  moreover have "rl_last_refill ?r1 \<le> wake now ?w" "rl_penalty_until ?r1 \<le> wake now ?w"
    using assms(2) False t by simp_all
  ultimately obtain r' t' where "acquire wake 2 (wake now ?w) ?r1 = Some (r', t')"
    "wake now ?w \<le> t'" "rl_total_acquires r' = rl_total_acquires ?r1 + 1"
    using acquire_unpenalized[of ?r1 "wake now ?w" wake 0] wake
    by (auto simp del: acquire.simps simp add: numeral_2_eq_2)
  moreover have "acquire_turn now r = (?r1, Some ?w)"
    using False by (simp add: acquire_turn_def remaining_penalty_seconds_def Let_def)
  then have "acquire wake (Suc n) now r = acquire wake n (wake now ?w) ?r1" for n by simp
  from this[of 2] have "acquire wake 3 now r = acquire wake 2 (wake now ?w) ?r1"
    by (simp del: acquire.simps add: numeral_3_eq_3 numeral_2_eq_2)
  ultimately show ?thesis using t False by (simp del: acquire.simps)
qed

theorem acquire_terminates_witness:
  "\<exists>r' t. acquire (\<lambda>t w. t + w) 3 0 (fst (penalize 5 ''rate_limited'' 0 demo_limiter)) = Some (r', t)
     \<and> 5 \<le> t \<and> rl_total_acquires r' = 1"
proof -
  let ?r = "fst (penalize 5 ''rate_limited'' 0 demo_limiter)"
  have "limiter_ok ?r" "rl_last_refill ?r \<le> 0" "rl_penalty_until ?r = 5" "rl_total_acquires ?r = 0"
    by (simp_all add: limiter_ok_def demo_limiter_def model_simps Let_def)
  with acquire_terminates[of ?r 0 "\<lambda>t w. t + w"] show ?thesis by simp
qed

text \<open>
  The side condition is needed: a limiter configured with no request per window never hands out
  a token, whatever the fuel (its wait divides by zero in the code, which raises).
\<close>

lemma no_requests_no_token:
  "rl_max_requests r = 0 \<Longrightarrow> rl_tokens r \<le> 0 \<Longrightarrow> snd (acquire_turn now r) \<noteq> None"
  by (auto simp: acquire_turn_def Let_def rl_refill_def)

text \<open>A penalty empties the bucket and never shortens an earlier one.\<close>

lemma penalize_monotone:
  "rl_penalty_until r \<le> rl_penalty_until (fst (penalize d reason now r))"
  "0 < d \<Longrightarrow> rl_tokens (fst (penalize d reason now r)) \<le> 0"
  "0 \<le> snd (penalize d reason now r)"
  by (auto simp: penalize_def Let_def)

end
