(* ===== verification/Price_Store.thy ===== *)
theory Price_Store
  imports Prelude
begin

text \<open>
  \<open>arbiter/utils/price_store.py\<close>: the quotes of all venues, keyed by the string
  \<open>price:platform:canonical_id\<close>, with a freshness window, a bounded chart history per market, a
  periodic sweep of dead markets and bounded subscriber queues.  Redis is a parameter: a read
  takes what the server answered, a write is part of the result.  The string values of a quote's
  metadata are kept, the only ones the scanner reads.
\<close>

section \<open>Quotes and state\<close>

record price_point =
  pp_platform :: string
  pp_canonical_id :: string
  pp_yes_price :: flt
  pp_no_price :: flt
  pp_yes_volume :: flt
  pp_no_volume :: flt
  pp_timestamp :: flt
  pp_raw_market_id :: string
  pp_yes_market_id :: string
  pp_no_market_id :: string
  pp_yes_bid :: flt
  pp_yes_ask :: flt
  pp_no_bid :: flt
  pp_no_ask :: flt
  pp_fee_rate :: flt
  pp_mapping_status :: string
  pp_mapping_score :: flt
  pp_metadata :: "(string, string) dict"

definition age_seconds :: "flt \<Rightarrow> price_point \<Rightarrow> flt" where
  "age_seconds now p = max (now - pp_timestamp p) 0"

record history_entry =
  he_timestamp :: flt
  he_platform :: string
  he_yes_price :: flt
  he_no_price :: flt
  he_mid_price :: flt
  he_mapping_status :: string

record price_store =
  ps_mem :: "(string, price_point) dict"
  ps_redis :: bool
  ps_ttl :: flt
  ps_history_limit :: nat
  ps_subscribers :: "(nat \<times> price_point queue) list"
  ps_next_subscriber :: nat
  ps_history :: "(string, history_entry list) dict"
  ps_prune_counter :: nat

definition prune_every :: nat where "prune_every = 5000"

definition prune_after_s :: flt where "prune_after_s = 3600"

definition new_price_store :: "bool \<Rightarrow> flt \<Rightarrow> nat \<Rightarrow> price_store" where
  "new_price_store redis ttl history_limit =
     \<lparr> ps_mem = [], ps_redis = redis, ps_ttl = ttl, ps_history_limit = history_limit,
       ps_subscribers = [], ps_next_subscriber = 0, ps_history = [], ps_prune_counter = 0 \<rparr>"

definition price_key :: "string \<Rightarrow> string \<Rightarrow> string" where
  "price_key platform cid = ''price:'' @ platform @ '':'' @ cid"

section \<open>Operations\<close>

definition prune_dead_locked :: "flt \<Rightarrow> price_store \<Rightarrow> price_store" where
  "prune_dead_locked now s =
     (let cutoff = now - prune_after_s
      in s\<lparr>ps_mem := filter (\<lambda>(k, p). \<not> pp_timestamp p < cutoff) (ps_mem s),
           ps_history := filter (\<lambda>(c, dq). \<not> (dq = [] \<or> he_timestamp (last dq) < cutoff))
                           (ps_history s)\<rparr>)"

definition history_of :: "price_point \<Rightarrow> history_entry" where
  "history_of p =
     \<lparr> he_timestamp = pp_timestamp p, he_platform = pp_platform p,
       he_yes_price = pp_yes_price p, he_no_price = pp_no_price p,
       he_mid_price = round_nd 4 ((pp_yes_price p + (1 - pp_no_price p)) / 2),
       he_mapping_status = pp_mapping_status p \<rparr>"

text \<open>\<open>put\<close> also gives the entry written to Redis, when a client is configured.\<close>

definition store_put ::
  "price_point \<Rightarrow> flt \<Rightarrow> price_store \<Rightarrow> price_store \<times> (string \<times> flt \<times> price_point) option" where
  "store_put price now s0 =
     (let key = price_key (pp_platform price) (pp_canonical_id price);
          s1 = s0\<lparr>ps_mem := AList.update key price (ps_mem s0),
                  ps_prune_counter := ps_prune_counter s0 + 1\<rparr>;
          s2 = (if prune_every \<le> ps_prune_counter s1
                then prune_dead_locked now (s1\<lparr>ps_prune_counter := 0\<rparr>) else s1);
          dq = dget (ps_history s2) (pp_canonical_id price) [];
          s3 = s2\<lparr>ps_history := AList.update (pp_canonical_id price)
                    (deque_append (ps_history_limit s2) dq (history_of price)) (ps_history s2)\<rparr>
      in (s3\<lparr>ps_subscribers := map (\<lambda>(i, q). (i, put_nowait price q)) (ps_subscribers s3)\<rparr>,
          if ps_redis s3 then Some (key, ps_ttl s3, price) else None))"

text \<open>
  \<open>get\<close>: \<open>redis key\<close> is what the server holds for the key, \<open>None\<close> when there is no client, no
  entry, or the read or the decoding raised.
\<close>

definition store_get ::
  "(string \<Rightarrow> price_point option) \<Rightarrow> string \<Rightarrow> string \<Rightarrow> flt \<Rightarrow> price_store \<Rightarrow> price_point option" where
  "store_get redis platform cid now s =
     (let key = price_key platform cid;
          remote = (if ps_redis s then redis key else None)
      in case map_of (ps_mem s) key of
           Some cached \<Rightarrow> if age_seconds now cached < ps_ttl s then Some cached else remote
         | None \<Rightarrow> remote)"

definition get_all_for_market :: "string \<Rightarrow> flt \<Rightarrow> price_store \<Rightarrow> (string, price_point) dict" where
  "get_all_for_market cid now s =
     (let suffix = '':'' @ cid
      in fold (\<lambda>(key, price) result.
                 if \<not> ends_with key suffix then result
                 else if ps_ttl s \<le> age_seconds now price then result
                 else AList.update (pp_platform price) price result)
           (ps_mem s) [])"

definition get_all_prices :: "flt \<Rightarrow> price_store \<Rightarrow> (string, price_point) dict" where
  "get_all_prices now s = filter (\<lambda>(k, p). now - pp_timestamp p < ps_ttl s) (ps_mem s)"

text \<open>\<open>xs[-limit:]\<close>.\<close>

definition slice_last :: "int \<Rightarrow> 'a list \<Rightarrow> 'a list" where
  "slice_last limit xs =
     (if limit = 0 then xs
      else if 0 < limit then drop (length xs - nat limit) xs else drop (nat (- limit)) xs)"

definition get_market_history :: "string \<Rightarrow> int \<Rightarrow> price_store \<Rightarrow> history_entry list" where
  "get_market_history cid limit s = slice_last limit (dget (ps_history s) cid [])"

definition store_subscribe :: "price_store \<Rightarrow> price_store \<times> nat" where
  "store_subscribe s =
     (s\<lparr>ps_subscribers := ps_subscribers s
          @ [(ps_next_subscriber s, \<lparr>q_maxsize = 1000, q_items = []\<rparr>)],
        ps_next_subscriber := ps_next_subscriber s + 1\<rparr>, ps_next_subscriber s)"

definition store_unsubscribe :: "nat \<Rightarrow> price_store \<Rightarrow> price_store" where
  "store_unsubscribe i s = s\<lparr>ps_subscribers := filter (\<lambda>(j, q). j \<noteq> i) (ps_subscribers s)\<rparr>"

fun pairs_of :: "'a list \<Rightarrow> ('a \<times> 'a) list" where
  "pairs_of [] = []"
| "pairs_of (x # xs) = map (\<lambda>y. (x, y)) xs @ pairs_of xs"

definition get_cross_platform_pairs ::
  "string \<Rightarrow> flt \<Rightarrow> price_store \<Rightarrow> (price_point \<times> price_point) list" where
  "get_cross_platform_pairs cid now s = pairs_of (map snd (get_all_for_market cid now s))"

section \<open>Invariant\<close>

datatype store_event = StPut price_point flt | StSubscribe | StUnsubscribe nat

primrec store_step :: "store_event \<Rightarrow> price_store \<Rightarrow> price_store" where
  "store_step (StPut p now) s = fst (store_put p now s)"
| "store_step StSubscribe s = fst (store_subscribe s)"
| "store_step (StUnsubscribe i) s = store_unsubscribe i s"

definition keyed_ok :: "(string, price_point) dict \<Rightarrow> bool" where
  "keyed_ok d = list_all (\<lambda>(k, p). k = price_key (pp_platform p) (pp_canonical_id p)) d"

definition store_ok :: "price_store \<Rightarrow> bool" where
  "store_ok s =
     (dict_ok (ps_mem s) \<and> keyed_ok (ps_mem s) \<and> dict_ok (ps_history s)
      \<and> dict_all (\<lambda>dq. length dq \<le> ps_history_limit s) (ps_history s)
      \<and> list_all (\<lambda>(i, q). i < ps_next_subscriber s \<and> length (q_items q) \<le> q_maxsize q)
          (ps_subscribers s)
      \<and> distinct (map fst (ps_subscribers s)) \<and> ps_prune_counter s < prune_every)"

lemma keyed_ok_update:
  "keyed_ok d \<Longrightarrow> k = price_key (pp_platform p) (pp_canonical_id p) \<Longrightarrow> keyed_ok (AList.update k p d)"
  by (induction d) (auto simp: keyed_ok_def)

lemma list_all_filter: "list_all P xs \<Longrightarrow> list_all P (filter Q xs)"
  by (auto simp: list_all_iff)

text \<open>The sweep, when it is due.\<close>

definition swept :: "flt \<Rightarrow> price_store \<Rightarrow> price_store" where
  "swept now s = (if prune_every \<le> ps_prune_counter s
                  then prune_dead_locked now (s\<lparr>ps_prune_counter := 0\<rparr>) else s)"

definition stored :: "price_point \<Rightarrow> price_store \<Rightarrow> price_store" where
  "stored price s =
     s\<lparr>ps_mem := AList.update (price_key (pp_platform price) (pp_canonical_id price)) price (ps_mem s),
       ps_prune_counter := ps_prune_counter s + 1\<rparr>"

lemma swept_simps [simp]:
  "ps_ttl (swept now s) = ps_ttl s" "ps_redis (swept now s) = ps_redis s"
  "ps_history_limit (swept now s) = ps_history_limit s"
  "ps_subscribers (swept now s) = ps_subscribers s"
  "ps_next_subscriber (swept now s) = ps_next_subscriber s"
  by (simp_all add: swept_def prune_dead_locked_def Let_def)

lemma stored_simps [simp]:
  "ps_ttl (stored p s) = ps_ttl s" "ps_redis (stored p s) = ps_redis s"
  "ps_history_limit (stored p s) = ps_history_limit s" "ps_history (stored p s) = ps_history s"
  "ps_subscribers (stored p s) = ps_subscribers s"
  "ps_next_subscriber (stored p s) = ps_next_subscriber s"
  "ps_prune_counter (stored p s) = ps_prune_counter s + 1"
  by (simp_all add: stored_def)

lemma store_put_eq:
  "store_put price now s =
     (let s2 = swept now (stored price s);
          s3 = s2\<lparr>ps_history := AList.update (pp_canonical_id price)
                    (deque_append (ps_history_limit s2)
                       (dget (ps_history s2) (pp_canonical_id price) []) (history_of price))
                    (ps_history s2)\<rparr>
      in (s3\<lparr>ps_subscribers := map (\<lambda>(i, q). (i, put_nowait price q)) (ps_subscribers s3)\<rparr>,
          if ps_redis s3 then Some (price_key (pp_platform price) (pp_canonical_id price), ps_ttl s3, price)
          else None))"
  by (simp add: store_put_def swept_def stored_def Let_def)

lemma put_mem [simp]: "ps_mem (fst (store_put price now s)) = ps_mem (swept now (stored price s))"
  and put_ttl [simp]: "ps_ttl (fst (store_put price now s)) = ps_ttl s"
  and put_redis [simp]: "ps_redis (fst (store_put price now s)) = ps_redis s"
  by (simp_all add: store_put_eq Let_def)

lemma stored_ok:
  assumes "store_ok s"
  shows "dict_ok (ps_mem (stored p s))" "keyed_ok (ps_mem (stored p s))"
  using assms by (simp_all add: stored_def store_ok_def keyed_ok_update)

lemma swept_ok:
  assumes "store_ok s"
  shows "dict_ok (ps_mem (swept now (stored p s)))" "keyed_ok (ps_mem (swept now (stored p s)))"
    and "dict_ok (ps_history (swept now (stored p s)))"
    and "dict_all (\<lambda>dq. length dq \<le> ps_history_limit s) (ps_history (swept now (stored p s)))"
    and "ps_prune_counter (swept now (stored p s)) < prune_every"
  using stored_ok[OF assms, of p] assms
  by (auto simp: swept_def prune_dead_locked_def Let_def store_ok_def keyed_ok_def list_all_filter
      prune_every_def)

lemma put_nowait_bound: "length (q_items q) \<le> q_maxsize q \<Longrightarrow>
    length (q_items (put_nowait x q)) \<le> q_maxsize (put_nowait x q)"
  by (simp add: put_nowait_def)

interpretation store: invariant_machine store_step store_ok
proof unfold_locales
  fix s :: price_store and e :: store_event
  assume ok: "store_ok s"
  show "store_ok (store_step e s)"
  proof (cases e)
    case (StPut p now)
    let ?s2 = "swept now (stored p s)"
    let ?dq = "dget (ps_history ?s2) (pp_canonical_id p) []"
    have "length ?dq \<le> ps_history_limit s"
      by (rule dict_all_dget[OF swept_ok(4)[OF ok]]) simp
    from length_deque_append[OF this, of "history_of p"]
    have "dict_all (\<lambda>dq. length dq \<le> ps_history_limit s) (AList.update (pp_canonical_id p)
        (deque_append (ps_history_limit s) ?dq (history_of p)) (ps_history ?s2))"
      by (rule dict_all_update[OF swept_ok(4)[OF ok]])
    moreover have "list_all (\<lambda>(i, q). i < ps_next_subscriber s \<and> length (q_items q) \<le> q_maxsize q)
        (map (\<lambda>(i, q). (i, put_nowait p q)) (ps_subscribers s))"
      using ok by (auto simp: store_ok_def list_all_iff put_nowait_bound)
    moreover have "map fst (map (\<lambda>(i, q). (i, put_nowait p q)) (ps_subscribers s))
        = map fst (ps_subscribers s)"
      by auto
    ultimately show ?thesis
      using StPut ok swept_ok[OF ok, of now p]
      by (simp add: store_put_eq Let_def store_ok_def del: map_map)
  next
    case StSubscribe
    with ok show ?thesis
      by (auto simp: store_ok_def store_subscribe_def list_all_iff)
  next
    case (StUnsubscribe i)
    have "distinct (map fst (filter (\<lambda>(j, q). j \<noteq> i) (ps_subscribers s)))"
      using ok by (auto simp: store_ok_def distinct_map_filter)
    with StUnsubscribe ok show ?thesis
      by (auto simp: store_ok_def store_unsubscribe_def list_all_filter)
  qed
qed

lemma new_price_store_ok: "store_ok (new_price_store redis ttl n)"
  by (simp add: store_ok_def new_price_store_def keyed_ok_def prune_every_def)

section \<open>Reading back what was written\<close>

lemma map_of_filter:
  "dict_ok d \<Longrightarrow> map_of (filter (\<lambda>(k, v). P v) d) k
     = (case map_of d k of None \<Rightarrow> None | Some v \<Rightarrow> if P v then Some v else None)"
proof (induction d)
  case (Cons kv d)
  obtain k' v' where kv: "kv = (k', v')" by (cases kv)
  from Cons.prems have d: "dict_ok d" "k' \<notin> fst ` set d" by (auto simp: dict_ok_def kv)
  show ?case
  proof (cases "k = k'")
    case True
    with d(2) have "map_of d k = None" by (simp add: map_of_eq_None_iff)
    with Cons.IH[OF d(1)] True show ?thesis by (simp add: kv)
  next
    case False
    with Cons.IH[OF d(1)] show ?thesis by (simp add: kv)
  qed
qed simp

lemma swept_mem:
  assumes "store_ok s"
  shows "map_of (ps_mem (swept now (stored p s))) k =
    (case map_of (ps_mem (stored p s)) k of None \<Rightarrow> None
     | Some v \<Rightarrow> if prune_every \<le> ps_prune_counter s + 1 \<and> pp_timestamp v < now - prune_after_s
                 then None else Some v)"
  using map_of_filter[OF stored_ok(1)[OF assms], of "\<lambda>v. \<not> pp_timestamp v < now - prune_after_s" p k]
  by (auto simp: swept_def prune_dead_locked_def Let_def stored_def split: option.splits)

lemma stored_mem:
  "map_of (ps_mem (stored p s)) = (map_of (ps_mem s))
     (price_key (pp_platform p) (pp_canonical_id p) \<mapsto> p)"
  by (simp add: stored_def update_conv')

text \<open>
  The contract between the collectors that put quotes and the readers: with a window not longer
  than the sweep's horizon, a sweep never hides a quote that is still fresh.
\<close>

lemma fresh_not_swept:
  assumes "store_ok s" "ps_ttl s \<le> prune_after_s" "map_of (ps_mem (stored p s)) k = Some v"
    and "age_seconds now' v < ps_ttl s" "now \<le> now'"
  shows "map_of (ps_mem (swept now (stored p s))) k = Some v"
proof -
  have "\<not> pp_timestamp v < now - prune_after_s"
    using assms(2,4,5) by (simp add: age_seconds_def)
  with assms show ?thesis by (simp add: swept_mem)
qed

text \<open>
  From any reachable store whose window is at most the hour of the sweep: a quote that was
  just put is what \<open>get\<close> answers for its venue and market while it is younger than the window,
  and no other key's answer changes, whether or not the put triggered a sweep.
\<close>

theorem put_then_get:
  assumes "s = fold store_step es (new_price_store redis_on ttl n)" "ttl \<le> 3600"
    and "s' = fst (store_put p now s)" "now \<le> now'"
  shows "(age_seconds now' p < ps_ttl s \<longrightarrow>
            store_get redis (pp_platform p) (pp_canonical_id p) now' s' = Some p)
       \<and> (price_key pl cid \<noteq> price_key (pp_platform p) (pp_canonical_id p) \<longrightarrow>
            store_get redis pl cid now' s' = store_get redis pl cid now' s)"
proof -
  have ok: "store_ok s"
    unfolding assms(1) by (rule store.run_inv) (rule new_price_store_ok)
  have ttl_run: "ps_ttl (fold store_step es s0) = ps_ttl s0" for s0 es
  proof (induction es arbitrary: s0)
    case (Cons e es)
    then show ?case
      by (cases e) (simp_all add: store_subscribe_def store_unsubscribe_def)
  qed simp
  have ttl: "ps_ttl s \<le> prune_after_s"
    using assms(2) by (simp add: assms(1) ttl_run new_price_store_def prune_after_s_def)
  note fresh = fresh_not_swept[OF ok ttl _ _ assms(4)]
  show ?thesis
  proof (intro conjI impI)
    assume "age_seconds now' p < ps_ttl s"
    with fresh[of p "price_key (pp_platform p) (pp_canonical_id p)" p]
    show "store_get redis (pp_platform p) (pp_canonical_id p) now' s' = Some p"
      by (simp add: assms(3) store_get_def stored_mem)
  next
    assume k: "price_key pl cid \<noteq> price_key (pp_platform p) (pp_canonical_id p)"
    then have same: "map_of (ps_mem (stored p s)) (price_key pl cid) = map_of (ps_mem s) (price_key pl cid)"
      by (simp add: stored_mem)
    show "store_get redis pl cid now' s' = store_get redis pl cid now' s"
    proof (cases "map_of (ps_mem s) (price_key pl cid)")
      case None
      with same show ?thesis
        by (simp add: assms(3) store_get_def swept_mem[OF ok] Let_def)
    next
      case (Some v)
      show ?thesis
      proof (cases "age_seconds now' v < ps_ttl s")
        case True
        with fresh[of p "price_key pl cid" v] Some same show ?thesis
          by (simp add: assms(3) store_get_def)
      next
        case False
        with Some same show ?thesis
          by (simp add: assms(3) store_get_def swept_mem[OF ok] Let_def)
      qed
    qed
  qed
qed

definition demo_point :: price_point where
  "demo_point = \<lparr> pp_platform = ''kalshi'', pp_canonical_id = ''A'', pp_yes_price = 1/2,
     pp_no_price = 1/2, pp_yes_volume = 100, pp_no_volume = 100, pp_timestamp = 50,
     pp_raw_market_id = ''KA'', pp_yes_market_id = ''KA'', pp_no_market_id = ''KA'',
     pp_yes_bid = 49/100, pp_yes_ask = 1/2, pp_no_bid = 49/100, pp_no_ask = 1/2, pp_fee_rate = 0,
     pp_mapping_status = ''confirmed'', pp_mapping_score = 1, pp_metadata = [] \<rparr>"

theorem put_then_get_witness:
  "store_get (\<lambda>k. None) ''kalshi'' ''A'' 52
     (fst (store_put demo_point 50 (new_price_store False 10 240))) = Some demo_point"
  using put_then_get[of "new_price_store False 10 240" "[]" False 10 240 _ demo_point 50 52
      "\<lambda>k. None"]
  by (simp add: age_seconds_def demo_point_def new_price_store_def)

section \<open>All venues of a market\<close>

lemma last_colon:
  assumes "xs @ c # ys = zs @ c # ws" "c \<notin> set ys" "c \<notin> set ws"
  shows "ys = ws"
proof -
  have "takeWhile (\<lambda>x. x \<noteq> c) (rev (xs @ c # ys)) = rev ys"
    using assms(2) by (simp add: takeWhile_append)
  moreover have "takeWhile (\<lambda>x. x \<noteq> c) (rev (zs @ c # ws)) = rev ws"
    using assms(3) by (simp add: takeWhile_append)
  ultimately show ?thesis using assms(1) by simp
qed

lemma price_key_inj:
  assumes "price_key pl cid = price_key pl' cid'" "CHR '':'' \<notin> set cid" "CHR '':'' \<notin> set cid'"
  shows "pl = pl' \<and> cid = cid'"
  using assms last_colon[of pl "CHR '':''" cid pl' cid'] by (auto simp: price_key_def)

lemma ends_with_key:
  assumes "CHR '':'' \<notin> set cid" "CHR '':'' \<notin> set cid'"
  shows "ends_with (price_key pl cid') ('':'' @ cid) \<longleftrightarrow> cid' = cid"
proof
  assume "ends_with (price_key pl cid') ('':'' @ cid)"
  then obtain r where "(''price:'' @ pl) @ CHR '':'' # cid' = r @ CHR '':'' # cid"
    by (auto simp: ends_with_iff price_key_def)
  from last_colon[OF this] assms show "cid' = cid" by blast
next
  assume "cid' = cid"
  then have "price_key pl cid' = (''price:'' @ pl) @ '':'' @ cid" by (simp add: price_key_def)
  then show "ends_with (price_key pl cid') ('':'' @ cid)"
    unfolding ends_with_iff by blast
qed

definition plain_ids :: "price_store \<Rightarrow> bool" where
  "plain_ids s = list_all (\<lambda>(k, p). CHR '':'' \<notin> set (pp_canonical_id p)) (ps_mem s)"

lemma market_fold:
  assumes "dict_ok d" "keyed_ok d" "CHR '':'' \<notin> set cid"
    and "list_all (\<lambda>(k, p). CHR '':'' \<notin> set (pp_canonical_id p)) d"
  shows "map_of (fold (\<lambda>(key, price) result.
                 if \<not> ends_with key ('':'' @ cid) then result
                 else if ttl \<le> age_seconds now price then result
                 else AList.update (pp_platform price) price result) d acc) pl
    = (case map_of d (price_key pl cid) of
         Some p \<Rightarrow> if age_seconds now p < ttl then Some p else map_of acc pl
       | None \<Rightarrow> map_of acc pl)"
  using assms
proof (induction d arbitrary: acc)
  case (Cons kp d)
  obtain k p where kp: "kp = (k, p)" by (cases kp)
  from Cons.prems have d: "dict_ok d" "keyed_ok d" "k \<notin> fst ` set d"
    "list_all (\<lambda>(k, p). CHR '':'' \<notin> set (pp_canonical_id p)) d"
    and k: "k = price_key (pp_platform p) (pp_canonical_id p)" "CHR '':'' \<notin> set (pp_canonical_id p)"
    by (auto simp: kp dict_ok_def keyed_ok_def)
  define upd where "upd = (if \<not> ends_with k ('':'' @ cid) then acc
              else if ttl \<le> age_seconds now p then acc else AList.update (pp_platform p) p acc)"
  note ih = Cons.IH[OF d(1,2) assms(3) d(4), of upd]
  have one: "fold (\<lambda>(key, price) result.
                 if \<not> ends_with key ('':'' @ cid) then result
                 else if ttl \<le> age_seconds now price then result
                 else AList.update (pp_platform price) price result) (kp # d) acc
    = fold (\<lambda>(key, price) result.
                 if \<not> ends_with key ('':'' @ cid) then result
                 else if ttl \<le> age_seconds now price then result
                 else AList.update (pp_platform price) price result) d upd"
    by (simp add: kp upd_def)
  show ?case
  proof (cases "k = price_key pl cid")
    case True
    from price_key_inj[OF trans[OF k(1)[symmetric] True] k(2) assms(3)]
    have "pp_platform p = pl" "pp_canonical_id p = cid" by blast+
    moreover have "map_of d (price_key pl cid) = None"
      using d(3) True by (simp add: map_of_eq_None_iff)
    ultimately show ?thesis
      using True ends_with_key[OF assms(3), of cid pl] assms(3)
      unfolding one ih by (simp add: kp upd_def update_conv' not_less)
  next
    case False
    have "map_of upd pl = map_of acc pl"
      using ends_with_key[OF assms(3) k(2), of "pp_platform p"] k(1) False
      by (cases "pp_canonical_id p = cid"; cases "pl = pp_platform p") (simp_all add: upd_def update_conv')
    then show ?thesis using False unfolding one ih by (simp add: kp split: option.split)
  qed
qed simp

lemma market_lookup:
  assumes "store_ok s" "plain_ids s" "CHR '':'' \<notin> set cid"
  shows "map_of (get_all_for_market cid now s) pl
    = (case map_of (ps_mem s) (price_key pl cid) of
         Some p \<Rightarrow> if age_seconds now p < ps_ttl s then Some p else None
       | None \<Rightarrow> None)"
  using market_fold[OF _ _ assms(3), of "ps_mem s" "ps_ttl s" now "[]" pl] assms(1,2)
  by (simp add: get_all_for_market_def store_ok_def plain_ids_def split: option.split)

text \<open>
  The bulk reader agrees with the single-key reader: when no canonical id holds a colon,
  the quotes the scanner gets for a market are, venue by venue, exactly what \<open>get\<close> answers from
  memory, so a stale quote, another market's quote or a missing venue never shows up.
\<close>

theorem market_quotes_are_gets:
  assumes "s = fold store_step es (new_price_store False ttl n)" "plain_ids s"
    and "CHR '':'' \<notin> set cid"
  shows "map_of (get_all_for_market cid now s) pl = store_get redis pl cid now s"
proof -
  have "store_ok s"
    unfolding assms(1) by (rule store.run_inv) (rule new_price_store_ok)
  moreover have "ps_redis (fold store_step es s0) = ps_redis s0" for s0
  proof (induction es arbitrary: s0)
    case (Cons e es)
    then show ?case
      by (cases e) (simp_all add: store_subscribe_def store_unsubscribe_def)
  qed simp
  then have "\<not> ps_redis s" by (simp add: assms(1) new_price_store_def)
  ultimately show ?thesis
    using market_lookup[OF _ assms(2,3), of now pl]
    by (simp add: store_get_def Let_def split: option.split)
qed

theorem market_quotes_are_gets_witness:
  "map_of (get_all_for_market ''A'' 52 (fold store_step [StPut demo_point 50]
       (new_price_store False 10 240))) ''kalshi'' = Some demo_point"
proof -
  let ?s = "fold store_step [StPut demo_point 50] (new_price_store False 10 240)"
  have "plain_ids ?s"
    by (simp add: plain_ids_def demo_point_def new_price_store_def stored_def swept_def prune_every_def)
  then have "map_of (get_all_for_market ''A'' 52 ?s) ''kalshi''
      = store_get (\<lambda>k. None) ''kalshi'' ''A'' 52 ?s"
    by (intro market_quotes_are_gets[where es = "[StPut demo_point 50]" and ttl = 10 and n = 240]) simp_all
  also have "\<dots> = Some demo_point"
    by (simp add: store_get_def demo_point_def new_price_store_def stored_def swept_def
        prune_every_def age_seconds_def price_key_def)
  finally show ?thesis .
qed

text \<open>
  The condition on the ids matters: a market whose id ends with a colon and another market's id
  is picked up for that other market.
\<close>

lemma colon_collision:
  assumes "pp_canonical_id p = ''B:A''" "pp_platform p = ''kalshi''" "pp_timestamp p = 50"
  shows "map_of (get_all_for_market ''A'' 52 (fst (store_put p 50 (new_price_store False 10 240)))) ''kalshi''
       = Some p"
  using assms
  by (simp add: get_all_for_market_def new_price_store_def stored_def swept_def prune_every_def
      age_seconds_def price_key_def ends_with_def)

section \<open>Pairs\<close>

lemma pairs_of_length: "2 * length (pairs_of xs) = length xs * (length xs - 1)"
proof (induction xs)
  case (Cons x xs)
  then show ?case by (cases xs) (auto simp: algebra_simps)
qed simp

lemma pairs_of_distinct: "distinct xs \<Longrightarrow> (x, y) \<in> set (pairs_of xs) \<Longrightarrow> x \<noteq> y \<and> x \<in> set xs \<and> y \<in> set xs"
  by (induction xs) auto

end
