(* ===== verification/Opportunity.thy ===== *)
theory Opportunity
  imports Prelude
begin

text \<open>
  \<open>ArbitrageOpportunity\<close> of \<open>arbiter/scanner/arbitrage.py\<close>: what the scanner publishes, the
  auditor recomputes and the engine trades.  Its two dict forms have the fields of the record:
  \<open>to_dict\<close> rounds them for display, \<open>to_audit_dict\<close> keeps them.
\<close>

record opportunity =
  opp_canonical_id :: string
  opp_description :: string
  opp_yes_platform :: string
  opp_yes_price :: flt
  opp_yes_fee :: flt
  opp_yes_market_id :: string
  opp_no_platform :: string
  opp_no_price :: flt
  opp_no_fee :: flt
  opp_no_market_id :: string
  opp_gross_edge :: flt
  opp_total_fees :: flt
  opp_net_edge :: flt
  opp_net_edge_cents :: flt
  opp_suggested_qty :: int
  opp_max_profit_usd :: flt
  opp_timestamp :: flt
  opp_confidence :: flt
  opp_arb_type :: string
  opp_status :: string
  opp_persistence_count :: int
  opp_quote_age_seconds :: flt
  opp_min_available_liquidity :: flt
  opp_mapping_status :: string
  opp_mapping_score :: flt
  opp_requires_manual :: bool
  opp_fee_breakdown :: "(string, flt) dict"
  opp_yes_fee_rate :: flt
  opp_no_fee_rate :: flt
  opp_yes_outcome_name :: string
  opp_no_outcome_name :: string
  opp_yes_question :: string
  opp_no_question :: string
  opp_yes_bid :: flt
  opp_yes_ask :: flt
  opp_no_bid :: flt
  opp_no_ask :: flt
  opp_yes_quote_age_seconds :: flt
  opp_no_quote_age_seconds :: flt

definition opp_key :: "opportunity \<Rightarrow> string" where
  "opp_key p = opp_canonical_id p @ '':'' @ opp_yes_platform p @ '':'' @ opp_no_platform p
     @ '':'' @ opp_yes_market_id p @ '':'' @ opp_no_market_id p"

definition to_audit_dict :: "opportunity \<Rightarrow> opportunity" where
  "to_audit_dict p = p"

definition opp_to_dict :: "opportunity \<Rightarrow> opportunity" where
  "opp_to_dict p = p
     \<lparr> opp_yes_price := round_nd 4 (opp_yes_price p), opp_yes_fee := round_nd 4 (opp_yes_fee p),
       opp_no_price := round_nd 4 (opp_no_price p), opp_no_fee := round_nd 4 (opp_no_fee p),
       opp_gross_edge := round_nd 4 (opp_gross_edge p),
       opp_total_fees := round_nd 4 (opp_total_fees p), opp_net_edge := round_nd 4 (opp_net_edge p),
       opp_net_edge_cents := round_nd 2 (opp_net_edge_cents p),
       opp_max_profit_usd := round_nd 2 (opp_max_profit_usd p),
       opp_confidence := round_nd 3 (opp_confidence p),
       opp_quote_age_seconds := round_nd 2 (opp_quote_age_seconds p),
       opp_min_available_liquidity := round_nd 2 (opp_min_available_liquidity p),
       opp_mapping_score := round_nd 3 (opp_mapping_score p),
       opp_fee_breakdown := map (\<lambda>(name, v). (name, round_nd 4 v)) (opp_fee_breakdown p),
       opp_yes_fee_rate := round_nd 6 (opp_yes_fee_rate p),
       opp_no_fee_rate := round_nd 6 (opp_no_fee_rate p),
       opp_yes_bid := round_nd 4 (opp_yes_bid p), opp_yes_ask := round_nd 4 (opp_yes_ask p),
       opp_no_bid := round_nd 4 (opp_no_bid p), opp_no_ask := round_nd 4 (opp_no_ask p),
       opp_yes_quote_age_seconds := round_nd 2 (opp_yes_quote_age_seconds p),
       opp_no_quote_age_seconds := round_nd 2 (opp_no_quote_age_seconds p) \<rparr>"

text \<open>
  Rounding moves the edge a reader sees by at most the rounding errors of its parts: a displayed
  net edge is within half of \<open>10^-4\<close> of the one traded.
\<close>

lemma displayed_edge_error: "\<bar>opp_net_edge (opp_to_dict p) - opp_net_edge p\<bar> \<le> 1 / (2 * 10 ^ 4)"
  using round_nd_error[of 4 "opp_net_edge p"] by (simp add: opp_to_dict_def)

text \<open>An opportunity for the examples of the components that consume one.\<close>

definition demo_opp :: opportunity where
  "demo_opp = \<lparr> opp_canonical_id = ''A'', opp_description = ''demo'', opp_yes_platform = ''forecastex'',
     opp_yes_price = 40/100, opp_yes_fee = 5/1000, opp_yes_market_id = ''y'',
     opp_no_platform = ''forecastex'', opp_no_price = 50/100, opp_no_fee = 5/1000,
     opp_no_market_id = ''n'', opp_gross_edge = 10/100, opp_total_fees = 1/100,
     opp_net_edge = 9/100, opp_net_edge_cents = 9, opp_suggested_qty = 10,
     opp_max_profit_usd = 9/10, opp_timestamp = 50, opp_confidence = 1,
     opp_arb_type = ''cross_platform'', opp_status = ''tradable'', opp_persistence_count = 5,
     opp_quote_age_seconds = 1, opp_min_available_liquidity = 50,
     opp_mapping_status = ''confirmed'', opp_mapping_score = 1, opp_requires_manual = False,
     opp_fee_breakdown = [], opp_yes_fee_rate = 0, opp_no_fee_rate = 0,
     opp_yes_outcome_name = [], opp_no_outcome_name = [], opp_yes_question = [],
     opp_no_question = [], opp_yes_bid = 39/100, opp_yes_ask = 40/100, opp_no_bid = 49/100,
     opp_no_ask = 50/100, opp_yes_quote_age_seconds = 1, opp_no_quote_age_seconds = 1 \<rparr>"

lemma demo_opp_fields:
  "opp_yes_price demo_opp = 2/5" "opp_no_price demo_opp = 1/2" "opp_gross_edge demo_opp = 1/10"
  "opp_total_fees demo_opp = 1/100" "opp_net_edge demo_opp = 9/100" "opp_net_edge_cents demo_opp = 9"
  "opp_suggested_qty demo_opp = 10" "opp_max_profit_usd demo_opp = 9/10"
  "opp_min_available_liquidity demo_opp = 50"
  "opp_yes_platform demo_opp = ''forecastex''" "opp_no_platform demo_opp = ''forecastex''"
  "opp_canonical_id demo_opp = ''A''" "opp_status demo_opp = ''tradable''"
  "opp_confidence demo_opp = 1" "opp_requires_manual demo_opp = False"
  "opp_quote_age_seconds demo_opp = 1" "opp_yes_fee_rate demo_opp = 0" "opp_no_fee_rate demo_opp = 0"
  "opp_mapping_status demo_opp = ''confirmed''"
  by (simp_all add: demo_opp_def)

end
