(* ===== verification/Scanner.thy ===== *)
theory Scanner
  imports Fees Config Market_Map Price_Store Opportunity "HOL-Library.Multiset"
begin

text \<open>
  \<open>ArbitrageScanner\<close> of \<open>arbiter/scanner/arbitrage.py\<close>.  One scan walks the confirmed
  mappings, builds an opportunity for every ordered pair of venues that quote the market, counts
  for how many scans in a row it has been seen, resolves its status through the gates and
  publishes it to the bounded queues of the subscribers.  The quotes are read from the price
  store, the mappings from the market map; the balance provider and the environment variable
  \<open>FORECASTEX_MAX_QUOTE_AGE_S\<close> are parameters held in the scanner's state.
\<close>

section \<open>State\<close>

datatype balance_source = NoProvider | ProviderError | Balances "(string, flt) dict"

record scan_entry =
  se_timestamp :: flt
  se_scan_ms :: flt
  se_best_edge_cents :: flt
  se_active :: nat
  se_tradable :: nat
  se_manual :: nat

type_synonym skips = "(string, int) dict"

record scanner =
  sc_config :: scanner_config
  sc_max_fx_age :: flt
  sc_balances :: balance_source
  sc_running :: bool
  sc_paused :: bool
  sc_opportunities :: "opportunity list"
  sc_subscribers :: "opportunity queue list"
  sc_scan_count :: int
  sc_last_scan_time :: flt
  sc_published_count :: int
  sc_stable_keys :: "(string, int) dict"
  sc_recent_publish_time :: "(string, flt) dict"
  sc_history :: "scan_entry list"
  sc_skip_reasons :: skips

definition new_scanner :: "scanner_config \<Rightarrow> flt \<Rightarrow> balance_source \<Rightarrow> scanner" where
  "new_scanner cfg fx_age bal =
     \<lparr> sc_config = cfg, sc_max_fx_age = fx_age, sc_balances = bal, sc_running = False,
       sc_paused = False, sc_opportunities = [], sc_subscribers = [], sc_scan_count = 0,
       sc_last_scan_time = 0, sc_published_count = 0, sc_stable_keys = [],
       sc_recent_publish_time = [], sc_history = [], sc_skip_reasons = [] \<rparr>"

definition scanner_subscribe :: "scanner \<Rightarrow> scanner" where
  "scanner_subscribe sc =
     sc\<lparr>sc_subscribers := sc_subscribers sc @ [\<lparr>q_maxsize = 100, q_items = []\<rparr>]\<rparr>"

definition scanner_pause :: "scanner \<Rightarrow> scanner" where
  "scanner_pause sc = sc\<lparr>sc_paused := True\<rparr>"

definition scanner_resume :: "scanner \<Rightarrow> scanner" where
  "scanner_resume sc = sc\<lparr>sc_paused := False\<rparr>"

definition bump :: "string \<Rightarrow> skips \<Rightarrow> skips" where
  "bump reason d = AList.update reason (dget d reason 0 + 1) d"

section \<open>Structural filter\<close>

definition bracket_ticker :: "string \<Rightarrow> bool" where
  "bracket_ticker s =
     (let t = py_lower s
      in contains ''kxdsenateseats'' t \<or> contains ''kxdhouseseats'' t
         \<or> contains ''kxrsenateseats'' t \<or> contains ''kxrhouseseats'' t)"

definition mapping_is_bracket_mismatch :: "mapping_dict \<Rightarrow> bool" where
  "mapping_is_bracket_mismatch m =
     (let kalshi = or_str (opt_get (m_kalshi m) []) (opt_get (m_kalshi_market_id m) []);
          poly = or_str (opt_get (m_polymarket m) []) (opt_get (m_polymarket_slug m) [])
      in bracket_ticker kalshi
         \<and> list_ex (\<lambda>kw. contains kw (py_lower poly)) [''midterms'', ''control'', ''usse'', ''usho''])"

section \<open>Outcome names\<close>

definition md_text :: "price_point \<Rightarrow> string \<Rightarrow> string" where
  "md_text p k = py_strip (dget (pp_metadata p) k [])"

definition extract_outcome_metadata :: "price_point \<Rightarrow> string \<Rightarrow> string \<times> string" where
  "extract_outcome_metadata p side =
     (if pp_platform p = ''kalshi'' then
        (let outcome = (if side = ''yes'' then md_text p ''yes_sub_title''
                        else md_text p ''no_sub_title'');
             question = md_text p ''market_title''
         in (or_str outcome question, question))
      else if pp_platform p = ''polymarket'' then
        (let question = md_text p ''question'' in (question, question))
      else ([], []))"

section \<open>Position sizing\<close>

definition edge_scalar :: "scanner_config \<Rightarrow> flt \<Rightarrow> flt" where
  "edge_scalar cfg edge_cents =
     (let min_gate = max (min_edge_cents cfg) 0;
          ref_edge = max (edge_scaling_ref_cents cfg) (min_gate + 1 / 10 ^ 6);
          min_frac = max 0 (min (edge_scaling_min_fraction cfg) 1)
      in if ref_edge \<le> min_gate then 1
         else let ratio = (edge_cents - min_gate) / (ref_edge - min_gate);
                  scalar = min_frac + max 0 ratio * (1 - min_frac)
              in max min_frac (min scalar 1))"

definition reserve_fraction :: flt where "reserve_fraction = 1/10"

text \<open>
  The three balance-aware caps: the 10 percent reserve per leg, the fraction of the smaller
  balance, and the dollar reserve.  Without balances all three are the configured cap.
\<close>

definition balance_caps ::
  "scanner_config \<Rightarrow> balance_source \<Rightarrow> price_point \<Rightarrow> price_point \<Rightarrow> flt \<Rightarrow> flt \<Rightarrow> flt
   \<Rightarrow> int \<Rightarrow> int \<times> int \<times> int" where
  "balance_caps cfg bal yes_pp no_pp yes_price no_price edge_cents config_limited =
     (case bal of
        NoProvider \<Rightarrow> (config_limited, config_limited, config_limited)
      | ProviderError \<Rightarrow> (config_limited, config_limited, config_limited)
      | Balances balances \<Rightarrow>
          (let max_cap = max_position_usd cfg;
               cost_per_pair = max (yes_price + no_price) (1/100);
               yes_bal = dget balances (pp_platform yes_pp) max_cap;
               no_bal = dget balances (pp_platform no_pp) max_cap;
               min_bal = min yes_bal no_bal;
               yes_cap = max (yes_bal * (1 - reserve_fraction)) 0 / max yes_price (1/100);
               no_cap = max (no_bal * (1 - reserve_fraction)) 0 / max no_price (1/100);
               legacy_reserve = py_int (min yes_cap no_cap);
               fraction0 = max 0 (min (max_balance_fraction_per_trade cfg) 1);
               fraction = (if edge_scaling_enabled cfg \<and> 0 < fraction0
                           then fraction0 * edge_scalar cfg edge_cents else fraction0);
               balance_fraction_cap = py_int (min_bal * fraction / cost_per_pair);
               reserve_floor = max 0 (min_platform_reserve_usd cfg);
               yes_avail = max (yes_bal - reserve_floor) 0 * (1 - reserve_fraction);
               no_avail = max (no_bal - reserve_floor) 0 * (1 - reserve_fraction);
               min_reserve_cap =
                 (if 0 < reserve_floor
                  then py_int (min (yes_avail / max yes_price (1/100))
                                   (no_avail / max no_price (1/100)))
                  else config_limited)
           in (legacy_reserve, balance_fraction_cap, min_reserve_cap)))"

definition platform_min_shares :: "string \<Rightarrow> int" where
  "platform_min_shares platform =
     dget [(''polymarket'', 5), (''kalshi'', 1), (''forecastex'', 1)] platform 1"

definition natural_size ::
  "scanner_config \<Rightarrow> balance_source \<Rightarrow> price_point \<Rightarrow> price_point \<Rightarrow> flt \<Rightarrow> flt \<Rightarrow> flt \<Rightarrow> int" where
  "natural_size cfg bal yes_pp no_pp yes_price no_price edge_cents =
     (let cost_per_pair = max (yes_price + no_price) (1/100);
          config_limited = py_int (max_position_usd cfg / cost_per_pair);
          liquidity_limited = py_int (max (min (pp_yes_volume yes_pp) (pp_no_volume no_pp)) 1);
          (legacy_reserve, balance_fraction_cap, min_reserve_cap) =
            balance_caps cfg bal yes_pp no_pp yes_price no_price edge_cents config_limited
      in max (min config_limited (min liquidity_limited
              (min legacy_reserve (min balance_fraction_cap min_reserve_cap)))) 0)"

definition compute_position_size ::
  "scanner_config \<Rightarrow> balance_source \<Rightarrow> price_point \<Rightarrow> price_point \<Rightarrow> flt \<Rightarrow> flt \<Rightarrow> flt
   \<Rightarrow> skips \<Rightarrow> skips \<times> int" where
  "compute_position_size cfg bal yes_pp no_pp yes_price no_price edge_cents skips =
     (let size = natural_size cfg bal yes_pp no_pp yes_price no_price edge_cents;
          min_required = max (max 0 (platform_min_shares (pp_platform yes_pp)))
                             (platform_min_shares (pp_platform no_pp))
      in if size < min_required then (bump ''sub_min_size'' skips, 0) else (skips, size))"

section \<open>Building an opportunity\<close>

definition compute_confidence :: "scanner_config \<Rightarrow> flt \<Rightarrow> flt \<Rightarrow> flt \<Rightarrow> bool \<Rightarrow> flt" where
  "compute_confidence cfg quote_age liquidity mapping_score requires_manual =
     (let freshness_score = max 0 (1 - quote_age / max (max_quote_age_seconds cfg) 1);
          liquidity_score = min 1 (liquidity / max (min_liquidity cfg * 4) 1);
          manual_penalty = (if requires_manual then 1/10 else 0);
          confidence = 45/100 * freshness_score + 35/100 * liquidity_score
                       + 20/100 * max mapping_score (1/4)
      in max 0 (min (confidence - manual_penalty) 1))"

definition max_binary_deviation :: flt where "max_binary_deviation = 15/100"

definition non_binary :: "price_point \<Rightarrow> bool" where
  "non_binary p =
     (let platform_sum = pp_yes_price p + pp_no_price p
      in 0 < platform_sum \<and> max_binary_deviation < \<bar>platform_sum - 1\<bar>)"

definition wide_spread :: "scanner_config \<Rightarrow> price_point \<Rightarrow> price_point \<Rightarrow> bool" where
  "wide_spread cfg yes_pp no_pp =
     (let max_spread = max_bid_ask_spread_cents cfg;
          yes_spread = (pp_yes_ask yes_pp - pp_yes_bid yes_pp) * 100;
          no_spread = (pp_no_ask no_pp - pp_no_bid no_pp) * 100
      in 0 < max_spread
         \<and> (0 < pp_yes_bid yes_pp \<and> 0 < pp_yes_ask yes_pp \<and> max_spread < yes_spread
            \<or> 0 < pp_no_bid no_pp \<and> 0 < pp_no_ask no_pp \<and> max_spread < no_spread))"

text \<open>
  \<open>_build_cross_platform_opportunity\<close>: the early returns in the order of the source, then the
  sizing, the fees at the sized quantity and the edge floor of the pair.  \<open>make_opportunity\<close> is
  the record it returns.
\<close>

definition fx_stale :: "flt \<Rightarrow> flt \<Rightarrow> price_point \<Rightarrow> bool" where
  "fx_stale max_fx_age now p =
     (0 < max_fx_age \<and> pp_platform p = ''forecastex'' \<and> max_fx_age < age_seconds now p)"

definition make_opportunity ::
  "scanner_config \<Rightarrow> flt \<Rightarrow> string \<Rightarrow> string \<Rightarrow> string \<Rightarrow> flt \<Rightarrow> price_point \<Rightarrow> price_point \<Rightarrow> int
   \<Rightarrow> opportunity" where
  "make_opportunity cfg now cid description mapping_status mapping_score yes_pp no_pp qty =
     (let yes_price = pp_yes_ask yes_pp; no_price = pp_no_ask no_pp;
          gross = 1 - yes_price - no_price;
          yes_fee_total = compute_fee (pp_platform yes_pp) yes_price qty (pp_fee_rate yes_pp);
          no_fee_total = compute_fee (pp_platform no_pp) no_price qty (pp_fee_rate no_pp);
          total_fees = (yes_fee_total + no_fee_total) / of_int qty;
          net = gross - total_fees;
          quote_age = max (age_seconds now yes_pp) (age_seconds now no_pp);
          liquidity = min (pp_yes_volume yes_pp) (pp_no_volume no_pp)
      in \<lparr> opp_canonical_id = cid, opp_description = description,
           opp_yes_platform = pp_platform yes_pp, opp_yes_price = yes_price,
           opp_yes_fee = yes_fee_total / of_int qty,
           opp_yes_market_id = or_str (pp_yes_market_id yes_pp) (pp_raw_market_id yes_pp),
           opp_no_platform = pp_platform no_pp, opp_no_price = no_price,
           opp_no_fee = no_fee_total / of_int qty,
           opp_no_market_id = or_str (pp_no_market_id no_pp) (pp_raw_market_id no_pp),
           opp_gross_edge = gross, opp_total_fees = total_fees, opp_net_edge = net,
           opp_net_edge_cents = net * 100, opp_suggested_qty = qty,
           opp_max_profit_usd = round_nd 4 (net * of_int qty), opp_timestamp = now,
           opp_confidence = compute_confidence cfg quote_age liquidity mapping_score False,
           opp_arb_type = ''cross_platform'', opp_status = ''candidate'',
           opp_persistence_count = 1, opp_quote_age_seconds = quote_age,
           opp_min_available_liquidity = liquidity, opp_mapping_status = mapping_status,
           opp_mapping_score = mapping_score, opp_requires_manual = False,
           opp_fee_breakdown = [(''yes_total_fee'', yes_fee_total), (''no_total_fee'', no_fee_total)],
           opp_yes_fee_rate = pp_fee_rate yes_pp, opp_no_fee_rate = pp_fee_rate no_pp,
           opp_yes_outcome_name = fst (extract_outcome_metadata yes_pp ''yes''),
           opp_no_outcome_name = fst (extract_outcome_metadata no_pp ''no''),
           opp_yes_question = snd (extract_outcome_metadata yes_pp ''yes''),
           opp_no_question = snd (extract_outcome_metadata no_pp ''no''),
           opp_yes_bid = pp_yes_bid yes_pp, opp_yes_ask = pp_yes_ask yes_pp,
           opp_no_bid = pp_no_bid no_pp, opp_no_ask = pp_no_ask no_pp,
           opp_yes_quote_age_seconds = age_seconds now yes_pp,
           opp_no_quote_age_seconds = age_seconds now no_pp \<rparr>)"

definition build_opportunity ::
  "scanner_config \<Rightarrow> flt \<Rightarrow> balance_source \<Rightarrow> flt \<Rightarrow> string \<Rightarrow> string \<Rightarrow> string \<Rightarrow> flt
   \<Rightarrow> price_point \<Rightarrow> price_point \<Rightarrow> skips \<Rightarrow> skips \<times> opportunity option" where
  "build_opportunity cfg max_fx_age bal now cid description mapping_status mapping_score
     yes_pp no_pp skips =
     (if fx_stale max_fx_age now yes_pp then (bump ''fx_stale_yes'' skips, None)
      else if fx_stale max_fx_age now no_pp then (bump ''fx_stale_no'' skips, None)
      else let yes_price = pp_yes_ask yes_pp; no_price = pp_no_ask no_pp
           in if yes_price \<le> 0 \<or> no_price \<le> 0 then (bump ''dead_ask'' skips, None)
              else if non_binary yes_pp \<or> non_binary no_pp then (skips, None)
              else let gross_edge = 1 - yes_price - no_price
                   in if gross_edge \<le> 0 then (skips, None)
                      else if wide_spread cfg yes_pp no_pp then (skips, None)
                      else let early_liq = min (pp_yes_volume yes_pp) (pp_no_volume no_pp);
                               floor_liq = min_liquidity_for_pair cfg (pp_platform yes_pp)
                                             (pp_platform no_pp);
                               (skips', qty) =
                                 (if early_liq < floor_liq then (skips, 1)
                                  else compute_position_size cfg bal yes_pp no_pp yes_price no_price
                                         (gross_edge * 100) skips)
                           in if qty \<le> 0 then (skips', None)
                              else let opp = make_opportunity cfg now cid description mapping_status
                                               mapping_score yes_pp no_pp qty
                                   in if opp_net_edge_cents opp
                                         < min_edge_for_pair cfg (pp_platform yes_pp) (pp_platform no_pp)
                                      then (skips', None) else (skips', Some opp))"

section \<open>Status and publication\<close>

definition resolve_status :: "scanner_config \<Rightarrow> opportunity \<Rightarrow> mapping_dict \<Rightarrow> string" where
  "resolve_status cfg p m =
     (let res_status = py_lower (opt_get (m_resolution_match_status m) ''pending_operator_review'');
          liquidity_floor = min_liquidity_for_pair cfg (opp_yes_platform p) (opp_no_platform p);
          edge_floor = min_edge_for_pair cfg (opp_yes_platform p) (opp_no_platform p);
          phantom_thr = phantom_edge_threshold_cents cfg;
          max_age = or_flt (phantom_edge_max_age_seconds cfg) 5
      in if opp_mapping_status p \<noteq> ''confirmed'' then ''review''
         else if \<not> opt_get (m_allow_auto_trade m) False then ''review''
         else if res_status \<noteq> ''identical'' then ''review''
         else if max_quote_age_seconds cfg < opp_quote_age_seconds p then ''stale''
         else if opp_min_available_liquidity p < liquidity_floor then ''illiquid''
         else if opp_persistence_count p < persistence_scans cfg then ''candidate''
         else if opp_requires_manual p then ''manual''
         else if opp_confidence p < confidence_threshold cfg then ''candidate''
         else if opp_net_edge_cents p < edge_floor then ''candidate''
         else if 0 < phantom_thr \<and> phantom_thr \<le> opp_net_edge_cents p
                 \<and> (max_age < opp_yes_quote_age_seconds p \<or> max_age < opp_no_quote_age_seconds p)
         then ''candidate''
         else ''tradable'')"

definition should_publish :: "opportunity \<Rightarrow> scanner \<Rightarrow> bool" where
  "should_publish p sc =
     (let last_published = dget (sc_recent_publish_time sc) (opp_key p) 0
      in last_published = 0 \<or> 30 \<le> opp_timestamp p - last_published)"

definition published_status :: "string \<Rightarrow> bool" where
  "published_status st = (st = ''tradable'' \<or> st = ''manual'')"

text \<open>What the scan does with an opportunity it has built.\<close>

definition track_opportunity :: "mapping_dict \<Rightarrow> opportunity \<Rightarrow> scanner \<Rightarrow> scanner \<times> opportunity" where
  "track_opportunity m p0 sc0 =
     (let k = opp_key p0;
          p1 = p0\<lparr>opp_persistence_count := dget (sc_stable_keys sc0) k 0 + 1\<rparr>;
          sc1 = sc0\<lparr>sc_stable_keys := AList.update k (opp_persistence_count p1) (sc_stable_keys sc0)\<rparr>;
          p2 = p1\<lparr>opp_status := resolve_status (sc_config sc0) p1 m\<rparr>
      in if published_status (opp_status p2) \<and> should_publish p2 sc1
         then (sc1\<lparr>sc_published_count := sc_published_count sc1 + 1,
                   sc_recent_publish_time :=
                     AList.update k (opp_timestamp p2) (sc_recent_publish_time sc1),
                   sc_subscribers := publish p2 (sc_subscribers sc1)\<rparr>, p2)
         else (sc1, p2))"

text \<open>The opportunities found so far and their keys are threaded with the state.\<close>

type_synonym scan_acc = "scanner \<times> opportunity list \<times> string list"

definition scan_pair ::
  "flt \<Rightarrow> string \<Rightarrow> mapping_dict \<Rightarrow> price_point \<Rightarrow> price_point \<Rightarrow> scan_acc \<Rightarrow> scan_acc" where
  "scan_pair now cid m yes_pp no_pp = (\<lambda>(sc, opps, seen).
     case build_opportunity (sc_config sc) (sc_max_fx_age sc) (sc_balances sc) now cid
            (opt_get (m_description m) cid) (opt_get (m_status m) ''candidate'')
            (opt_get (m_mapping_score m) 0) yes_pp no_pp (sc_skip_reasons sc) of
       (skips, None) \<Rightarrow> (sc\<lparr>sc_skip_reasons := skips\<rparr>, opps, seen)
     | (skips, Some p) \<Rightarrow>
         (let (sc', p') = track_opportunity m p (sc\<lparr>sc_skip_reasons := skips\<rparr>)
          in (sc', opps @ [p'], opp_key p # seen)))"

definition ordered_pairs :: "(string, price_point) dict \<Rightarrow> (price_point \<times> price_point) list" where
  "ordered_pairs prices =
     concat (map (\<lambda>(y, yp). map (\<lambda>(n, np). (yp, np)) (filter (\<lambda>(n, np). y \<noteq> n) prices)) prices)"

definition scan_market ::
  "flt \<Rightarrow> price_store \<Rightarrow> string \<times> mapping_dict \<Rightarrow> scan_acc \<Rightarrow> scan_acc" where
  "scan_market now st = (\<lambda>(cid, m) acc.
     if m_status m \<noteq> Some ''confirmed'' then acc
     else if mapping_is_bracket_mismatch m then acc
     else let prices = get_all_for_market cid now st
          in if length prices < 2 then acc
             else fold (\<lambda>(yp, np). scan_pair now cid m yp np) (ordered_pairs prices) acc)"

definition rank :: "opportunity \<Rightarrow> bool \<times> flt \<times> flt" where
  "rank p = (opp_status p = ''tradable'', opp_net_edge_cents p, opp_confidence p)"

text \<open>\<open>sort(key=rank, reverse=True)\<close>, which keeps the order of equal keys.\<close>

definition sort_best :: "opportunity list \<Rightarrow> opportunity list" where
  "sort_best opps = rev (sort_key rank (rev opps))"

definition count_status :: "string \<Rightarrow> opportunity list \<Rightarrow> nat" where
  "count_status st opps = length (filter (\<lambda>p. opp_status p = st) opps)"

definition scan_once ::
  "flt \<Rightarrow> flt \<Rightarrow> price_store \<Rightarrow> market_map \<Rightarrow> scanner \<Rightarrow> scanner \<times> opportunity list" where
  "scan_once now now_end st mm sc0 =
     (let sc1 = sc0\<lparr>sc_scan_count := sc_scan_count sc0 + 1\<rparr>;
          (sc2, opps, seen) = fold (scan_market now st) mm (sc1, [], []);
          ranked = sort_best opps;
          scan_time = now_end - now
      in (sc2\<lparr> sc_stable_keys := filter (\<lambda>(k, n). k \<in> set seen) (sc_stable_keys sc2),
               sc_recent_publish_time :=
                 filter (\<lambda>(k, t). k \<in> set seen) (sc_recent_publish_time sc2),
               sc_opportunities := ranked,
               sc_last_scan_time := scan_time,
               sc_history := deque_append 240 (sc_history sc2)
                 \<lparr> se_timestamp = now_end, se_scan_ms = round_nd 2 (scan_time * 1000),
                   se_best_edge_cents = (case ranked of [] \<Rightarrow> 0 | p # ps \<Rightarrow> opp_net_edge_cents p),
                   se_active = length ranked, se_tradable = count_status ''tradable'' ranked,
                   se_manual = count_status ''manual'' ranked \<rparr> \<rparr>, ranked))"

text \<open>One turn of \<open>run\<close>: a paused scanner does not scan.\<close>

definition run_turn :: "flt \<Rightarrow> flt \<Rightarrow> price_store \<Rightarrow> market_map \<Rightarrow> scanner \<Rightarrow> scanner" where
  "run_turn now now_end st mm sc =
     (if sc_paused sc then sc else fst (scan_once now now_end st mm sc))"

text \<open>
  \<open>build_opportunity_for_canonical\<close>: the best tradable or manual opportunity of one market, for
  the external signal feeds; the first of equal edges wins.
\<close>

definition better :: "opportunity option \<Rightarrow> opportunity \<Rightarrow> opportunity option" where
  "better best p =
     (case best of None \<Rightarrow> Some p
      | Some b \<Rightarrow> if opp_net_edge_cents b < opp_net_edge_cents p then Some p else Some b)"

definition feed_pair ::
  "flt \<Rightarrow> string \<Rightarrow> mapping_dict \<Rightarrow> price_point \<Rightarrow> price_point
   \<Rightarrow> scanner \<times> opportunity option \<Rightarrow> scanner \<times> opportunity option" where
  "feed_pair now cid m yes_pp no_pp = (\<lambda>(sc, best).
     case build_opportunity (sc_config sc) (sc_max_fx_age sc) (sc_balances sc) now cid
            (opt_get (m_description m) cid) (opt_get (m_status m) ''candidate'')
            (opt_get (m_mapping_score m) 0) yes_pp no_pp (sc_skip_reasons sc) of
       (skips, None) \<Rightarrow> (sc\<lparr>sc_skip_reasons := skips\<rparr>, best)
     | (skips, Some p) \<Rightarrow>
         (let p' = p\<lparr>opp_status := resolve_status (sc_config sc) p m\<rparr>
          in (sc\<lparr>sc_skip_reasons := skips\<rparr>,
              if published_status (opp_status p') then better best p' else best)))"

definition build_opportunity_for_canonical ::
  "string \<Rightarrow> flt \<Rightarrow> price_store \<Rightarrow> market_map \<Rightarrow> scanner \<Rightarrow> scanner \<times> opportunity option" where
  "build_opportunity_for_canonical cid now st mm sc =
     (case map_of mm cid of
        None \<Rightarrow> (sc, None)
      | Some m \<Rightarrow>
          if m_status m \<noteq> Some ''confirmed'' then (sc, None)
          else if mapping_is_bracket_mismatch m then (sc, None)
          else let prices = get_all_for_market cid now st
               in if length prices < 2 then (sc, None)
                  else fold (\<lambda>(yp, np). feed_pair now cid m yp np) (ordered_pairs prices) (sc, None))"

record scanner_stats =
  st_scan_count :: int
  st_last_scan_ms :: flt
  st_active_opportunities :: nat
  st_tradable_opportunities :: nat
  st_manual_opportunities :: nat
  st_best_edge_cents :: flt
  st_persistence_scans :: int
  st_max_quote_age_seconds :: flt
  st_min_liquidity :: flt
  st_confidence_threshold :: flt
  st_published :: int
  st_paused :: bool
  st_skip_reasons :: skips

definition scanner_stats_of :: "scanner \<Rightarrow> scanner_stats" where
  "scanner_stats_of sc =
     \<lparr> st_scan_count = sc_scan_count sc, st_last_scan_ms = round_nd 1 (sc_last_scan_time sc * 1000),
       st_active_opportunities = length (sc_opportunities sc),
       st_tradable_opportunities = count_status ''tradable'' (sc_opportunities sc),
       st_manual_opportunities = count_status ''manual'' (sc_opportunities sc),
       st_best_edge_cents =
         (case sc_opportunities sc of [] \<Rightarrow> 0 | p # ps \<Rightarrow> round_nd 2 (opp_net_edge_cents p)),
       st_persistence_scans = persistence_scans (sc_config sc),
       st_max_quote_age_seconds = max_quote_age_seconds (sc_config sc),
       st_min_liquidity = min_liquidity (sc_config sc),
       st_confidence_threshold = confidence_threshold (sc_config sc),
       st_published = sc_published_count sc, st_paused = sc_paused sc,
       st_skip_reasons = sc_skip_reasons sc \<rparr>"

section \<open>Ranges\<close>

lemma edge_scalar_range:
  "0 \<le> edge_scalar cfg e" "edge_scalar cfg e \<le> 1"
  "max 0 (min (edge_scaling_min_fraction cfg) 1) \<le> edge_scalar cfg e"
  by (simp_all add: edge_scalar_def Let_def max_def min_def)

lemma confidence_range:
  "0 \<le> compute_confidence cfg a l ms b" "compute_confidence cfg a l ms b \<le> 1"
  by (simp_all add: compute_confidence_def Let_def)

lemma edge_scalar_mono:
  assumes "e \<le> e'"
  shows "edge_scalar cfg e \<le> edge_scalar cfg e'"
proof -
  define g where "g = max (min_edge_cents cfg) 0"
  define r where "r = max (edge_scaling_ref_cents cfg) (g + 1 / 10 ^ 6)"
  define f where "f = max 0 (min (edge_scaling_min_fraction cfg) 1)"
  have "g + 1 / 10 ^ 6 \<le> r" by (simp add: r_def)
  then have pos: "g < r" by simp
  have eq: "edge_scalar cfg x = max f (min (f + max 0 ((x - g) / (r - g)) * (1 - f)) 1)" for x
    unfolding edge_scalar_def Let_def g_def[symmetric] r_def[symmetric] f_def[symmetric]
    using pos by simp
  have "f \<le> 1" by (simp add: f_def)
  have "(e - g) / (r - g) \<le> (e' - g) / (r - g)"
    by (rule divide_right_mono) (use assms pos in simp_all)
  then have "max 0 ((e - g) / (r - g)) * (1 - f) \<le> max 0 ((e' - g) / (r - g)) * (1 - f)"
    by (intro mult_right_mono max.mono order_refl) (use \<open>f \<le> 1\<close> in simp_all)
  then show ?thesis
    unfolding eq by (intro max.mono min.mono order_refl add_left_mono)
qed

section \<open>What a size respects\<close>

lemma cap_affords:
  assumes "0 < n" "n \<le> py_int (a / max p (1/100))" "0 \<le> p"
  shows "of_int n * p \<le> (a :: flt)"
proof -
  have m: "0 < max p (1/100)" by simp
  from py_int_ge[OF assms(1,2)] m have "of_int n * max p (1/100) \<le> a"
    by (simp add: pos_le_divide_eq)
  moreover have "of_int n * p \<le> of_int n * max p (1/100)"
    using assms(1) by (intro mult_left_mono) auto
  ultimately show ?thesis by simp
qed

lemma py_int_min_le: "n \<le> py_int (min x y) \<Longrightarrow> n \<le> py_int x \<and> n \<le> py_int y"
  using py_int_mono[of "min x y" x] py_int_mono[of "min x y" y] by auto

lemma size_cases:
  assumes "compute_position_size cfg bal yes_pp no_pp yp np e skips = (skips', q)" "0 < q"
  shows "q = natural_size cfg bal yes_pp no_pp yp np e"
    and "platform_min_shares (pp_platform yes_pp) \<le> q" "platform_min_shares (pp_platform no_pp) \<le> q"
    and "skips' = skips"
  using assms by (auto simp: compute_position_size_def Let_def split: if_splits)

lemma natural_size_caps:
  assumes "0 < n" "n = natural_size cfg bal yes_pp no_pp yp np e"
    and "c = py_int (max_position_usd cfg / max (yp + np) (1/100))"
    and "balance_caps cfg bal yes_pp no_pp yp np e c = (l, f, r)"
  shows "n \<le> c" "n \<le> py_int (max (min (pp_yes_volume yes_pp) (pp_no_volume no_pp)) 1)"
    "n \<le> l" "n \<le> f" "n \<le> r"
proof -
  have "n = max (min c (min (py_int (max (min (pp_yes_volume yes_pp) (pp_no_volume no_pp)) 1))
      (min l (min f r)))) 0"
    using assms(4) unfolding assms(2) natural_size_def Let_def assms(3)[symmetric] by simp
  with assms(1) have "n \<le> min c (min (py_int (max (min (pp_yes_volume yes_pp) (pp_no_volume no_pp)) 1))
      (min l (min f r)))"
    by (metis max_def order_less_irrefl order_refl)
  then show "n \<le> c" "n \<le> py_int (max (min (pp_yes_volume yes_pp) (pp_no_volume no_pp)) 1)"
    "n \<le> l" "n \<le> f" "n \<le> r"
    unfolding min.bounded_iff by blast+
qed

text \<open>
  What the caps mean in dollars for a sized order of \<open>n\<close> contracts: \<open>leg_affordable\<close> is one leg
  against the venue's balance.
\<close>

definition leg_affordable :: "scanner_config \<Rightarrow> flt \<Rightarrow> flt \<Rightarrow> int \<Rightarrow> bool" where
  "leg_affordable cfg balance price n =
     (of_int n * price \<le> max (balance * (9/10)) 0
      \<and> (0 < min_platform_reserve_usd cfg
         \<longrightarrow> of_int n * price \<le> max (balance - min_platform_reserve_usd cfg) 0 * (9/10)))"

definition size_affordable ::
  "scanner_config \<Rightarrow> balance_source \<Rightarrow> price_point \<Rightarrow> price_point \<Rightarrow> flt \<Rightarrow> flt \<Rightarrow> int \<Rightarrow> bool" where
  "size_affordable cfg bal yes_pp no_pp yp np n =
     (of_int n * (yp + np) \<le> max_position_usd cfg
      \<and> of_int n \<le> max (min (pp_yes_volume yes_pp) (pp_no_volume no_pp)) 1
      \<and> platform_min_shares (pp_platform yes_pp) \<le> n
      \<and> platform_min_shares (pp_platform no_pp) \<le> n
      \<and> (case bal of
           Balances b \<Rightarrow>
             leg_affordable cfg (dget b (pp_platform yes_pp) (max_position_usd cfg)) yp n
             \<and> leg_affordable cfg (dget b (pp_platform no_pp) (max_position_usd cfg)) np n
         | _ \<Rightarrow> True))"

lemma legs_affordable:
  assumes "0 < n" "0 \<le> yp" "0 \<le> np" "n \<le> l" "n \<le> r"
    and caps: "balance_caps cfg (Balances b) yes_pp no_pp yp np e c = (l, f, r)"
  shows "leg_affordable cfg (dget b (pp_platform yes_pp) (max_position_usd cfg)) yp n"
    and "leg_affordable cfg (dget b (pp_platform no_pp) (max_position_usd cfg)) np n"
proof -
  let ?y = "dget b (pp_platform yes_pp) (max_position_usd cfg)"
  let ?n = "dget b (pp_platform no_pp) (max_position_usd cfg)"
  let ?fl = "max 0 (min_platform_reserve_usd cfg)"
  have l: "l = py_int (min (max (?y * (9/10)) 0 / max yp (1/100)) (max (?n * (9/10)) 0 / max np (1/100)))"
    using caps by (simp add: balance_caps_def Let_def reserve_fraction_def)
  from py_int_min_le[OF assms(4)[unfolded l]] cap_affords[OF assms(1)] assms(2,3)
  have 1: "of_int n * yp \<le> max (?y * (9/10)) 0" "of_int n * np \<le> max (?n * (9/10)) 0"
    by blast+
  have 2: "of_int n * yp \<le> max (?y - min_platform_reserve_usd cfg) 0 * (9/10)
      \<and> of_int n * np \<le> max (?n - min_platform_reserve_usd cfg) 0 * (9/10)"
    if "0 < min_platform_reserve_usd cfg"
  proof -
    have "r = py_int (min (max (?y - min_platform_reserve_usd cfg) 0 * (9/10) / max yp (1/100))
                      (max (?n - min_platform_reserve_usd cfg) 0 * (9/10) / max np (1/100)))"
      using caps that by (simp add: balance_caps_def Let_def reserve_fraction_def)
    from py_int_min_le[OF assms(5)[unfolded this]] cap_affords[OF assms(1)] assms(2,3)
    show ?thesis by blast
  qed
  from 1 2 show "leg_affordable cfg ?y yp n" "leg_affordable cfg ?n np n"
    by (simp_all add: leg_affordable_def)
qed

lemma sized_affordable:
  assumes "compute_position_size cfg bal yes_pp no_pp yp np e skips = (skips', n)" "0 < n"
    and "0 \<le> yp" "0 \<le> np"
  shows "size_affordable cfg bal yes_pp no_pp yp np n"
proof -
  let ?c = "py_int (max_position_usd cfg / max (yp + np) (1/100))"
  obtain l f r where caps: "balance_caps cfg bal yes_pp no_pp yp np e ?c = (l, f, r)"
    by (metis prod_cases3)
  note size = size_cases[OF assms(1,2)]
  note bounds = natural_size_caps[OF assms(2) size(1) refl caps]
  have "of_int n * (yp + np) \<le> max_position_usd cfg"
    using cap_affords[OF assms(2) bounds(1)] assms(3,4) by simp
  moreover have "of_int n \<le> max (min (pp_yes_volume yes_pp) (pp_no_volume no_pp)) 1"
    by (rule py_int_ge[OF assms(2) bounds(2)])
  moreover have "case bal of
           Balances b \<Rightarrow>
             leg_affordable cfg (dget b (pp_platform yes_pp) (max_position_usd cfg)) yp n
             \<and> leg_affordable cfg (dget b (pp_platform no_pp) (max_position_usd cfg)) np n
         | _ \<Rightarrow> True"
  proof (cases bal)
    case (Balances b)
    with legs_affordable[OF assms(2-4) bounds(3,5)] caps show ?thesis by simp
  qed simp_all
  ultimately show ?thesis using size(2,3) by (simp add: size_affordable_def)
qed

section \<open>What an opportunity promises\<close>

lemma build_Some:
  assumes "build_opportunity cfg fx bal now cid d ms sc yes_pp no_pp skips = (skips', Some p)"
  obtains qty where "p = make_opportunity cfg now cid d ms sc yes_pp no_pp qty" "0 < qty"
    and "\<not> fx_stale fx now yes_pp" "\<not> fx_stale fx now no_pp"
    and "0 < pp_yes_ask yes_pp" "0 < pp_no_ask no_pp"
    and "\<not> non_binary yes_pp" "\<not> non_binary no_pp" "\<not> wide_spread cfg yes_pp no_pp"
    and "0 < 1 - pp_yes_ask yes_pp - pp_no_ask no_pp"
    and "min_edge_for_pair cfg (pp_platform yes_pp) (pp_platform no_pp) \<le> opp_net_edge_cents p"
    and "min (pp_yes_volume yes_pp) (pp_no_volume no_pp)
           < min_liquidity_for_pair cfg (pp_platform yes_pp) (pp_platform no_pp) \<and> qty = 1
         \<or> compute_position_size cfg bal yes_pp no_pp (pp_yes_ask yes_pp) (pp_no_ask no_pp)
             ((1 - pp_yes_ask yes_pp - pp_no_ask no_pp) * 100) skips = (skips', qty)"
  using assms unfolding build_opportunity_def Let_def
  by (auto simp: not_le not_less split: if_splits prod.splits)

lemma make_opportunity_simps [simp]:
  "opp_canonical_id (make_opportunity cfg now cid d ms sc y n q) = cid"
  "opp_yes_platform (make_opportunity cfg now cid d ms sc y n q) = pp_platform y"
  "opp_no_platform (make_opportunity cfg now cid d ms sc y n q) = pp_platform n"
  "opp_yes_price (make_opportunity cfg now cid d ms sc y n q) = pp_yes_ask y"
  "opp_no_price (make_opportunity cfg now cid d ms sc y n q) = pp_no_ask n"
  "opp_suggested_qty (make_opportunity cfg now cid d ms sc y n q) = q"
  "opp_gross_edge (make_opportunity cfg now cid d ms sc y n q) = 1 - pp_yes_ask y - pp_no_ask n"
  "opp_yes_fee (make_opportunity cfg now cid d ms sc y n q)
     = compute_fee (pp_platform y) (pp_yes_ask y) q (pp_fee_rate y) / of_int q"
  "opp_no_fee (make_opportunity cfg now cid d ms sc y n q)
     = compute_fee (pp_platform n) (pp_no_ask n) q (pp_fee_rate n) / of_int q"
  "opp_total_fees (make_opportunity cfg now cid d ms sc y n q)
     = (compute_fee (pp_platform y) (pp_yes_ask y) q (pp_fee_rate y)
        + compute_fee (pp_platform n) (pp_no_ask n) q (pp_fee_rate n)) / of_int q"
  "opp_net_edge (make_opportunity cfg now cid d ms sc y n q)
     = 1 - pp_yes_ask y - pp_no_ask n
       - (compute_fee (pp_platform y) (pp_yes_ask y) q (pp_fee_rate y)
          + compute_fee (pp_platform n) (pp_no_ask n) q (pp_fee_rate n)) / of_int q"
  "opp_net_edge_cents (make_opportunity cfg now cid d ms sc y n q)
     = opp_net_edge (make_opportunity cfg now cid d ms sc y n q) * 100"
  "opp_max_profit_usd (make_opportunity cfg now cid d ms sc y n q)
     = round_nd 4 (opp_net_edge (make_opportunity cfg now cid d ms sc y n q) * of_int q)"
  "opp_timestamp (make_opportunity cfg now cid d ms sc y n q) = now"
  "opp_min_available_liquidity (make_opportunity cfg now cid d ms sc y n q)
     = min (pp_yes_volume y) (pp_no_volume n)"
  "opp_quote_age_seconds (make_opportunity cfg now cid d ms sc y n q)
     = max (age_seconds now y) (age_seconds now n)"
  "opp_yes_fee_rate (make_opportunity cfg now cid d ms sc y n q) = pp_fee_rate y"
  "opp_no_fee_rate (make_opportunity cfg now cid d ms sc y n q) = pp_fee_rate n"
  "opp_mapping_status (make_opportunity cfg now cid d ms sc y n q) = ms"
  by (simp_all add: make_opportunity_def Let_def)

text \<open>
  An opportunity is well priced when its numbers are the arithmetic of its two live asks and of
  the fees at its quantity.
\<close>

definition well_priced :: "opportunity \<Rightarrow> bool" where
  "well_priced p =
     (0 < opp_yes_price p \<and> 0 < opp_no_price p \<and> opp_yes_price p + opp_no_price p < 1
      \<and> 0 < opp_suggested_qty p
      \<and> opp_gross_edge p = 1 - opp_yes_price p - opp_no_price p
      \<and> opp_yes_fee p = compute_fee (opp_yes_platform p) (opp_yes_price p) (opp_suggested_qty p)
                          (opp_yes_fee_rate p) / of_int (opp_suggested_qty p)
      \<and> opp_no_fee p = compute_fee (opp_no_platform p) (opp_no_price p) (opp_suggested_qty p)
                          (opp_no_fee_rate p) / of_int (opp_suggested_qty p)
      \<and> opp_total_fees p = opp_yes_fee p + opp_no_fee p
      \<and> opp_net_edge p = opp_gross_edge p - opp_total_fees p
      \<and> opp_net_edge_cents p = opp_net_edge p * 100
      \<and> opp_max_profit_usd p = round_nd 4 (opp_net_edge p * of_int (opp_suggested_qty p)))"

lemma built_well_priced:
  assumes "build_opportunity cfg fx bal now cid d ms sc yes_pp no_pp skips = (skips', Some p)"
  shows "well_priced p"
  using assms
  by (rule build_Some) (simp add: well_priced_def add_divide_distrib)


definition demo_yes :: price_point where
  "demo_yes = demo_point\<lparr>pp_yes_ask := 40/100, pp_yes_bid := 38/100\<rparr>"

definition demo_no :: price_point where
  "demo_no = demo_point\<lparr>pp_platform := ''polymarket'', pp_no_ask := 45/100, pp_no_bid := 44/100,
     pp_fee_rate := 4/100\<rparr>"

lemma demo_builds:
  "\<exists>p. build_opportunity default_scanner_config 60 NoProvider 52 ''A'' ''demo'' ''confirmed'' 1
     demo_yes demo_no [] = ([], Some p) \<and> opp_suggested_qty p = 100"
proof -
  have "compute_fee ''kalshi'' (2/5) 100 0 = 168/100" "compute_fee ''polymarket'' (9/20) 100 (1/25) = 99/100"
    by (simp_all add: compute_fee_def kalshi_order_fee_def polymarket_order_fee_def
        kalshi_taker_fee_rate_def clamp_probability_def Let_def ceiling_eq_iff)
  then show ?thesis
    by (simp add: build_opportunity_def fx_stale_def non_binary_def wide_spread_def demo_yes_def
        demo_no_def demo_point_def age_seconds_def max_binary_deviation_def compute_position_size_def
        natural_size_def balance_caps_def platform_min_shares_def dget_def min_liquidity_for_pair_def
        min_edge_for_pair_def default_scanner_config_def venue_name_def py_lower_def py_strip_def
        py_space_def lower_char_def pair_key_def py_int_def Let_def)
qed


text \<open>What every subscriber may rely on.\<close>

definition publishable :: "scanner_config \<Rightarrow> opportunity \<Rightarrow> bool" where
  "publishable cfg p =
     (published_status (opp_status p) \<and> well_priced p \<and> opp_mapping_status p = ''confirmed''
      \<and> opp_quote_age_seconds p \<le> max_quote_age_seconds cfg
      \<and> min_liquidity_for_pair cfg (opp_yes_platform p) (opp_no_platform p)
          \<le> opp_min_available_liquidity p
      \<and> persistence_scans cfg \<le> opp_persistence_count p
      \<and> min_edge_for_pair cfg (opp_yes_platform p) (opp_no_platform p) \<le> opp_net_edge_cents p)"

lemma status_gates:
  assumes "published_status (resolve_status cfg p m)"
  shows "opp_mapping_status p = ''confirmed''
      \<and> opp_quote_age_seconds p \<le> max_quote_age_seconds cfg
      \<and> min_liquidity_for_pair cfg (opp_yes_platform p) (opp_no_platform p)
          \<le> opp_min_available_liquidity p
      \<and> persistence_scans cfg \<le> opp_persistence_count p"
  using assms unfolding resolve_status_def Let_def published_status_def
  by (simp add: not_less split: if_splits)

definition scanner_ok :: "scanner \<Rightarrow> bool" where
  "scanner_ok sc =
     (queues_ok (sc_subscribers sc)
      \<and> list_all (\<lambda>q. list_all (publishable (sc_config sc)) (q_items q)) (sc_subscribers sc)
      \<and> length (sc_history sc) \<le> 240
      \<and> 0 \<le> sc_published_count sc)"

lemma well_priced_status [simp]:
  "well_priced (p\<lparr>opp_persistence_count := n, opp_status := st\<rparr>) = well_priced p"
  "well_priced (p\<lparr>opp_status := st\<rparr>) = well_priced p"
  "well_priced (p\<lparr>opp_persistence_count := n\<rparr>) = well_priced p"
  by (simp_all add: well_priced_def)

lemma items_publish:
  "list_all (\<lambda>q. list_all P (q_items q)) qs \<Longrightarrow> P x \<Longrightarrow>
   list_all (\<lambda>q. list_all P (q_items q)) (publish x qs)"
  by (auto simp: publish_def put_nowait_def list_all_iff)

lemma track_ok:
  assumes "scanner_ok sc" "well_priced p"
    and "min_edge_for_pair (sc_config sc) (opp_yes_platform p) (opp_no_platform p)
           \<le> opp_net_edge_cents p"
    and "track_opportunity m p sc = (sc', p')"
  shows "scanner_ok sc' \<and> sc_config sc' = sc_config sc"
proof -
  let ?p1 = "p\<lparr>opp_persistence_count := dget (sc_stable_keys sc) (opp_key p) 0 + 1\<rparr>"
  let ?p2 = "?p1\<lparr>opp_status := resolve_status (sc_config sc) ?p1 m\<rparr>"
  have pub: "publishable (sc_config sc) ?p2"
    if "published_status (resolve_status (sc_config sc) ?p1 m)"
    using status_gates[OF that] that assms(2,3) by (simp add: publishable_def)
  show ?thesis
    using assms(1,4) pub
    by (auto simp: track_opportunity_def Let_def scanner_ok_def items_publish split: if_splits)
qed

lemma scan_pair_ok:
  assumes "scanner_ok sc" "scan_pair now cid m yp np (sc, opps, seen) = (sc', r)"
  shows "scanner_ok sc' \<and> sc_config sc' = sc_config sc"
proof -
  obtain skips po where b: "build_opportunity (sc_config sc) (sc_max_fx_age sc) (sc_balances sc) now cid
            (opt_get (m_description m) cid) (opt_get (m_status m) ''candidate'')
            (opt_get (m_mapping_score m) 0) yp np (sc_skip_reasons sc) = (skips, po)"
    by fastforce
  let ?sc = "sc\<lparr>sc_skip_reasons := skips\<rparr>"
  have ok: "scanner_ok ?sc" using assms(1) by (simp add: scanner_ok_def)
  show ?thesis
  proof (cases po)
    case None
    with assms(2) b ok show ?thesis by (auto simp: scan_pair_def)
  next
    case (Some p)
    from b[unfolded Some] have edge: "min_edge_for_pair (sc_config ?sc) (opp_yes_platform p) (opp_no_platform p)
        \<le> opp_net_edge_cents p" and wp: "well_priced p"
      by (auto intro: built_well_priced elim: build_Some)
    obtain sc'' p' where t: "track_opportunity m p ?sc = (sc'', p')" by fastforce
    with assms(2) b Some have "sc' = sc''" by (auto simp: scan_pair_def)
    with track_ok[OF ok wp edge t] show ?thesis by simp
  qed
qed

lemma scan_pairs_ok:
  assumes "scanner_ok sc"
  shows "scanner_ok (fst (fold (\<lambda>(yp, np). scan_pair now cid m yp np) prs (sc, r)))
    \<and> sc_config (fst (fold (\<lambda>(yp, np). scan_pair now cid m yp np) prs (sc, r))) = sc_config sc"
  using assms
proof (induction prs arbitrary: sc r)
  case (Cons pr prs)
  obtain yp np opps seen where pr: "pr = (yp, np)" "r = (opps, seen)" by (metis surj_pair)
  obtain sc' r' where one: "scan_pair now cid m yp np (sc, opps, seen) = (sc', r')"
    by (metis surj_pair)
  from Cons.IH[of sc' r'] scan_pair_ok[OF Cons.prems one] one show ?case by (simp add: pr)
qed simp

lemma scan_market_ok:
  assumes "scanner_ok (fst acc)"
  shows "scanner_ok (fst (scan_market now st e acc))
    \<and> sc_config (fst (scan_market now st e acc)) = sc_config (fst acc)"
proof -
  obtain sc r cid m where acc: "acc = (sc, r)" "e = (cid, m)" by (metis surj_pair)
  from assms scan_pairs_ok[of sc now cid m "ordered_pairs (get_all_for_market cid now st)" r]
  show ?thesis by (simp add: scan_market_def Let_def acc)
qed

lemma scan_markets_ok:
  "scanner_ok (fst acc) \<Longrightarrow> scanner_ok (fst (fold (scan_market now st) mm acc))
    \<and> sc_config (fst (fold (scan_market now st) mm acc)) = sc_config (fst acc)"
proof (induction mm arbitrary: acc)
  case (Cons e mm)
  from Cons.IH[of "scan_market now st e acc"] scan_market_ok[OF Cons.prems, of now st e]
  show ?case by simp
qed simp

datatype scanner_event =
  ScSubscribe | ScPause | ScResume | ScTurn flt flt price_store market_map

primrec scanner_step :: "scanner_event \<Rightarrow> scanner \<Rightarrow> scanner" where
  "scanner_step ScSubscribe sc = scanner_subscribe sc"
| "scanner_step ScPause sc = scanner_pause sc"
| "scanner_step ScResume sc = scanner_resume sc"
| "scanner_step (ScTurn now now_end st mm) sc = run_turn now now_end st mm sc"

lemma scan_once_ok:
  assumes "scanner_ok sc"
  shows "scanner_ok (fst (scan_once now now_end st mm sc))
    \<and> sc_config (fst (scan_once now now_end st mm sc)) = sc_config sc"
proof -
  let ?sc1 = "sc\<lparr>sc_scan_count := sc_scan_count sc + 1\<rparr>"
  obtain sc2 opps seen where f: "fold (scan_market now st) mm (?sc1, [], []) = (sc2, opps, seen)"
    by (metis surj_pair)
  have "scanner_ok ?sc1" using assms by (simp add: scanner_ok_def)
  with scan_markets_ok[of "(?sc1, [], [])" now st mm] f
  have "scanner_ok sc2" "sc_config sc2 = sc_config sc" by simp_all
  then show ?thesis
    using f by (simp add: scan_once_def Let_def scanner_ok_def length_deque_append)
qed

interpretation scanning: invariant_machine scanner_step "\<lambda>sc. scanner_ok sc \<and> sc_config sc = cfg"
proof unfold_locales
  fix sc :: scanner and e :: scanner_event
  assume "scanner_ok sc \<and> sc_config sc = cfg"
  then have ok: "scanner_ok sc" and cfg: "sc_config sc = cfg" by simp_all
  show "scanner_ok (scanner_step e sc) \<and> sc_config (scanner_step e sc) = cfg"
  proof (cases e)
    case (ScTurn now now_end st mm)
    with scan_once_ok[OF ok] ok cfg show ?thesis by (simp add: run_turn_def)
  qed (use ok cfg in \<open>auto simp: scanner_subscribe_def scanner_pause_def scanner_resume_def
      scanner_ok_def queues_ok_def\<close>)
qed

text \<open>
  C25.  Whatever quotes and mappings the scanner sees over its life, however it is paused and
  whoever subscribes when: every opportunity in a subscriber's queue is well priced, comes from a
  confirmed mapping with fresh quotes and enough liquidity, has been counted in at least
  \<open>persistence_scans\<close> scans and clears the edge floor of its venues; and no queue holds more
  than its bound.
\<close>

theorem scanner_publishes_safely:
  "list_all (\<lambda>q. list_all (publishable cfg) (q_items q) \<and> length (q_items q) \<le> q_maxsize q)
     (sc_subscribers (fold scanner_step es (new_scanner cfg fx bal)))"
proof -
  have "scanner_ok (new_scanner cfg fx bal) \<and> sc_config (new_scanner cfg fx bal) = cfg"
    by (simp add: scanner_ok_def new_scanner_def queues_ok_def)
  from scanning.run_inv[OF this, of es] show ?thesis
    by (auto simp: scanner_ok_def queues_ok_def list_all_iff)
qed

text \<open>A paused scanner publishes nothing and its ranking is best first, losing no opportunity.\<close>

lemma paused_turn: "sc_paused sc \<Longrightarrow> run_turn now now_end st mm sc = sc"
  by (simp add: run_turn_def)

lemma sort_best_ranked:
  "mset (sort_best opps) = mset opps"
  "sorted_wrt (\<lambda>p q. rank q \<le> rank p) (sort_best opps)"
proof -
  show "mset (sort_best opps) = mset opps" by (simp add: sort_best_def)
  have "sorted_wrt (\<lambda>p q. rank p \<le> rank q) (sort_key rank (rev opps))"
    using sorted_sort_key[of rank "rev opps"] by (simp add: sorted_map)
  then show "sorted_wrt (\<lambda>p q. rank q \<le> rank p) (sort_best opps)"
    by (simp add: sort_best_def sorted_wrt_rev)
qed

text \<open>The caches keep only what the last scan saw.\<close>

lemma caches_pruned:
  assumes "scan_once now now_end st mm sc = (sc', r)"
    and "fold (scan_market now st) mm (sc\<lparr>sc_scan_count := sc_scan_count sc + 1\<rparr>, [], [])
           = (sc2, opps, seen)"
  shows "fst ` set (sc_stable_keys sc') \<subseteq> set seen \<and> fst ` set (sc_recent_publish_time sc') \<subseteq> set seen"
  using assms by (auto simp: scan_once_def Let_def)

end
