(* ===== verification/Math_Auditor.thy ===== *)
theory Math_Auditor
  imports Fees Opportunity
begin

text \<open>
  \<open>arbiter/audit/math_auditor.py\<close>: the shadow calculator every opportunity and every execution
  passes.  A message of a flag is a constructor with the values the f-string interpolates.  A
  stored result and the returned one are the same object in the code, so the execution checks
  also change the newest stored result.
\<close>

section \<open>Results\<close>

datatype severity = Info | Warning | Critical

datatype audit_message =
    GrossMismatch flt flt
  | QuantityExceeds int int
  | FeeMismatch flt flt flt flt
  | NetMismatch flt flt
  | CentsMismatch flt flt
  | CostViolation flt flt flt flt
  | ProfitInconsistent flt int flt flt
  | SignMismatch flt flt
  | FillSlippage flt flt
  | OneLegRisk string string

record audit_flag =
  af_field :: string
  af_expected :: flt
  af_actual :: flt
  af_discrepancy :: flt
  af_severity :: severity
  af_message :: audit_message

record audit_result =
  ar_canonical_id :: string
  ar_yes_platform :: string
  ar_no_platform :: string
  ar_timestamp :: flt
  ar_passed :: bool
  ar_flags :: "audit_flag list"
  ar_shadow_gross_edge :: flt
  ar_shadow_total_fees :: flt
  ar_shadow_net_edge :: flt
  ar_shadow_net_edge_cents :: flt
  ar_shadow_suggested_qty :: int
  ar_shadow_max_profit :: flt

definition result_to_dict :: "audit_result \<Rightarrow> audit_result" where
  "result_to_dict r = r
     \<lparr> ar_flags := map (\<lambda>f. f\<lparr>af_expected := round_nd 6 (af_expected f),
                               af_actual := round_nd 6 (af_actual f),
                               af_discrepancy := round_nd 6 (af_discrepancy f)\<rparr>) (ar_flags r),
       ar_shadow_gross_edge := round_nd 6 (ar_shadow_gross_edge r),
       ar_shadow_total_fees := round_nd 6 (ar_shadow_total_fees r),
       ar_shadow_net_edge := round_nd 6 (ar_shadow_net_edge r),
       ar_shadow_net_edge_cents := round_nd 4 (ar_shadow_net_edge_cents r),
       ar_shadow_max_profit := round_nd 4 (ar_shadow_max_profit r) \<rparr>"

definition discrepancy_threshold :: flt where "discrepancy_threshold = 1/1000"

definition critical_profit_threshold :: flt where "critical_profit_threshold = 5/1000"

record math_auditor =
  ma_max_position_usd :: flt
  ma_audit_count :: int
  ma_flag_count :: int
  ma_critical_count :: int
  ma_results :: "audit_result list"

definition new_auditor :: "flt \<Rightarrow> math_auditor" where
  "new_auditor mp = \<lparr>ma_max_position_usd = mp, ma_audit_count = 0, ma_flag_count = 0,
     ma_critical_count = 0, ma_results = []\<rparr>"

section \<open>The opportunity audit\<close>

definition shadow_position_size :: "flt \<Rightarrow> flt \<Rightarrow> flt \<Rightarrow> flt \<Rightarrow> int" where
  "shadow_position_size max_position yes_price no_price liquidity =
     (let cost_per_pair = yes_price + no_price
      in if cost_per_pair \<le> 0 then 0
         else let by_capital = py_int (max_position / cost_per_pair);
                  capped = (if 0 < liquidity then min by_capital (py_int (max liquidity 1))
                            else by_capital)
              in max 1 capped)"

definition qty_for_fee :: "flt \<Rightarrow> opportunity \<Rightarrow> int" where
  "qty_for_fee mp p =
     (let shadow_qty = shadow_position_size mp (opp_yes_price p) (opp_no_price p)
                         (opp_min_available_liquidity p)
      in max (if opp_suggested_qty p = 0 then shadow_qty else opp_suggested_qty p) 1)"

definition shadow_fee_a :: "flt \<Rightarrow> opportunity \<Rightarrow> flt" where
  "shadow_fee_a mp p = shadow_compute_fee (opp_yes_platform p) (opp_yes_price p)
     (qty_for_fee mp p) (Some (opp_yes_fee_rate p))"

definition shadow_fee_b :: "flt \<Rightarrow> opportunity \<Rightarrow> flt" where
  "shadow_fee_b mp p = shadow_compute_fee (opp_no_platform p) (opp_no_price p)
     (qty_for_fee mp p) (Some (opp_no_fee_rate p))"

definition shadow_gross :: "opportunity \<Rightarrow> flt" where
  "shadow_gross p = 1 - opp_yes_price p - opp_no_price p"

definition shadow_net :: "flt \<Rightarrow> opportunity \<Rightarrow> flt" where
  "shadow_net mp p = shadow_gross p - (shadow_fee_a mp p + shadow_fee_b mp p)"

text \<open>\<open>flag_if\<close> is one check: its flag when the condition holds.\<close>

definition flag_if ::
  "bool \<Rightarrow> string \<Rightarrow> flt \<Rightarrow> flt \<Rightarrow> flt \<Rightarrow> severity \<Rightarrow> audit_message \<Rightarrow> audit_flag list" where
  "flag_if c fld expected actual discrepancy sev msg =
     (if c then [\<lparr>af_field = fld, af_expected = expected, af_actual = actual,
                  af_discrepancy = discrepancy, af_severity = sev, af_message = msg\<rparr>]
      else [])"

definition audit_flags :: "flt \<Rightarrow> opportunity \<Rightarrow> audit_flag list" where
  "audit_flags mp p =
     (let yes_price = opp_yes_price p; no_price = opp_no_price p;
          gross = shadow_gross p;
          shadow_qty = shadow_position_size mp yes_price no_price (opp_min_available_liquidity p);
          fee_a = shadow_fee_a mp p; fee_b = shadow_fee_b mp p; total_fees = fee_a + fee_b;
          net = shadow_net mp p; cents = net * 100;
          total_cost = yes_price + no_price + total_fees;
          expected_profit = opp_net_edge p * of_int (opp_suggested_qty p)
      in flag_if (discrepancy_threshold < \<bar>gross - opp_gross_edge p\<bar>) ''gross_edge'' gross
           (opp_gross_edge p) \<bar>gross - opp_gross_edge p\<bar> Warning
           (GrossMismatch gross (opp_gross_edge p))
       @ flag_if (shadow_qty < opp_suggested_qty p) ''suggested_qty'' (of_int shadow_qty)
           (of_int (opp_suggested_qty p)) (of_int \<bar>shadow_qty - opp_suggested_qty p\<bar>) Warning
           (QuantityExceeds (opp_suggested_qty p) shadow_qty)
       @ flag_if (discrepancy_threshold < \<bar>total_fees - opp_total_fees p\<bar>) ''total_fees''
           total_fees (opp_total_fees p) \<bar>total_fees - opp_total_fees p\<bar> Warning
           (FeeMismatch total_fees fee_a fee_b (opp_total_fees p))
       @ flag_if (discrepancy_threshold < \<bar>net - opp_net_edge p\<bar>) ''net_edge'' net
           (opp_net_edge p) \<bar>net - opp_net_edge p\<bar>
           (if critical_profit_threshold < \<bar>net - opp_net_edge p\<bar> then Critical else Warning)
           (NetMismatch net (opp_net_edge p))
       @ flag_if (1/10 < \<bar>cents - opp_net_edge_cents p\<bar>) ''net_edge_cents'' cents
           (opp_net_edge_cents p) \<bar>cents - opp_net_edge_cents p\<bar> Warning
           (CentsMismatch cents (opp_net_edge_cents p))
       @ flag_if (1 \<le> total_cost \<and> 0 < net) ''fundamental_constraint'' 0 total_cost
           (total_cost - 1) Critical (CostViolation yes_price no_price total_fees total_cost)
       @ flag_if (discrepancy_threshold < \<bar>opp_max_profit_usd p - expected_profit\<bar>)
           ''max_profit_usd'' expected_profit (opp_max_profit_usd p)
           \<bar>opp_max_profit_usd p - expected_profit\<bar> Warning
           (ProfitInconsistent (opp_net_edge p) (opp_suggested_qty p) expected_profit
              (opp_max_profit_usd p))
       @ flag_if (net \<le> 0 \<and> 0 < opp_net_edge p) ''sign_check'' net (opp_net_edge p)
           \<bar>net - opp_net_edge p\<bar> Critical (SignMismatch net (opp_net_edge p)))"

definition has_critical :: "audit_flag list \<Rightarrow> bool" where
  "has_critical fs = list_ex (\<lambda>f. af_severity f = Critical) fs"

definition audit_opportunity ::
  "flt \<Rightarrow> opportunity \<Rightarrow> math_auditor \<Rightarrow> math_auditor \<times> audit_result" where
  "audit_opportunity now p a =
     (let mp = ma_max_position_usd a;
          flags = audit_flags mp p;
          shadow_qty = shadow_position_size mp (opp_yes_price p) (opp_no_price p)
                         (opp_min_available_liquidity p);
          r = \<lparr> ar_canonical_id = opp_canonical_id p, ar_yes_platform = opp_yes_platform p,
                ar_no_platform = opp_no_platform p, ar_timestamp = now, ar_passed = (flags = []),
                ar_flags = flags, ar_shadow_gross_edge = shadow_gross p,
                ar_shadow_total_fees = shadow_fee_a mp p + shadow_fee_b mp p,
                ar_shadow_net_edge = shadow_net mp p,
                ar_shadow_net_edge_cents = shadow_net mp p * 100,
                ar_shadow_suggested_qty = shadow_qty,
                ar_shadow_max_profit = shadow_net mp p * of_int shadow_qty \<rparr>
      in (a\<lparr> ma_audit_count := ma_audit_count a + 1,
             ma_flag_count := ma_flag_count a + int (length flags),
             ma_critical_count := ma_critical_count a + (if has_critical flags then 1 else 0),
             ma_results := deque_append 1000 (ma_results a) r \<rparr>, r))"

section \<open>The execution audit\<close>

text \<open>The fields of a leg the audit reads, with the defaults of its \<open>get\<close> calls filled in.\<close>

record audit_leg =
  al_status :: string
  al_fill_price :: flt
  al_fill_qty :: flt

definition leg_is_filled :: "audit_leg \<Rightarrow> bool" where
  "leg_is_filled l =
     ((al_status l = ''filled'' \<or> al_status l = ''simulated'') \<and> 0 < al_fill_qty l)"

definition execution_flags :: "opportunity \<Rightarrow> audit_leg \<Rightarrow> audit_leg \<Rightarrow> audit_flag list" where
  "execution_flags p y n =
     (let yes_slip = \<bar>al_fill_price y - opp_yes_price p\<bar>;
          no_slip = \<bar>al_fill_price n - opp_no_price p\<bar>
      in flag_if (0 < al_fill_price y \<and> discrepancy_threshold < yes_slip) ''yes_fill_slippage''
           (opp_yes_price p) (al_fill_price y) yes_slip Warning
           (FillSlippage (opp_yes_price p) (al_fill_price y))
       @ flag_if (0 < al_fill_price n \<and> discrepancy_threshold < no_slip) ''no_fill_slippage''
           (opp_no_price p) (al_fill_price n) no_slip Warning
           (FillSlippage (opp_no_price p) (al_fill_price n))
       @ (if leg_is_filled y \<and> \<not> leg_is_filled n
          then flag_if True ''leg_mismatch'' 1 0 1 Critical (OneLegRisk (al_status y) (al_status n))
          else flag_if (leg_is_filled n \<and> \<not> leg_is_filled y) ''leg_mismatch'' 1 0 1 Critical
                 (OneLegRisk (al_status n) (al_status y))))"

text \<open>The stored result is the returned one: the new flags show up in both.\<close>

definition audit_execution ::
  "flt \<Rightarrow> opportunity \<Rightarrow> audit_leg \<Rightarrow> audit_leg \<Rightarrow> math_auditor \<Rightarrow> math_auditor \<times> audit_result" where
  "audit_execution now p y n a0 =
     (let (a, r) = audit_opportunity now p a0;
          flags = ar_flags r @ execution_flags p y n;
          r' = r\<lparr>ar_flags := flags, ar_passed := (flags = [])\<rparr>
      in (a\<lparr>ma_results := butlast (ma_results a) @ [r']\<rparr>, r'))"

record auditor_stats =
  as_audits_run :: int
  as_total_flags :: int
  as_critical_flags :: int
  as_pass_rate :: flt
  as_recent_results :: "audit_result list"

definition auditor_stats_of :: "math_auditor \<Rightarrow> auditor_stats" where
  "auditor_stats_of a =
     \<lparr> as_audits_run = ma_audit_count a, as_total_flags = ma_flag_count a,
       as_critical_flags = ma_critical_count a,
       as_pass_rate = (if 0 < ma_audit_count a
                       then round_nd 4 (of_int (ma_audit_count a - ma_critical_count a)
                                        / of_int (ma_audit_count a))
                       else 1),
       as_recent_results =
         map result_to_dict (drop (length (ma_results a) - 10) (ma_results a)) \<rparr>"

section \<open>What a passed audit means\<close>

lemma flag_if_Nil [simp]: "flag_if c fld e a d s m = [] \<longleftrightarrow> \<not> c"
  by (simp add: flag_if_def)

lemma audit_flags_Nil:
  "audit_flags mp p = [] \<longleftrightarrow>
     \<bar>shadow_gross p - opp_gross_edge p\<bar> \<le> 1/1000
     \<and> opp_suggested_qty p \<le> shadow_position_size mp (opp_yes_price p) (opp_no_price p)
                               (opp_min_available_liquidity p)
     \<and> \<bar>shadow_fee_a mp p + shadow_fee_b mp p - opp_total_fees p\<bar> \<le> 1/1000
     \<and> \<bar>shadow_net mp p - opp_net_edge p\<bar> \<le> 1/1000
     \<and> \<bar>shadow_net mp p * 100 - opp_net_edge_cents p\<bar> \<le> 1/10
     \<and> \<bar>opp_max_profit_usd p - opp_net_edge p * of_int (opp_suggested_qty p)\<bar> \<le> 1/1000
     \<and> (0 < opp_net_edge p \<longrightarrow> 0 < shadow_net mp p)"
  unfolding audit_flags_def Let_def append_is_Nil_conv flag_if_Nil discrepancy_threshold_def not_less
  by (auto simp: not_le shadow_net_def shadow_gross_def)

text \<open>
  The sixth check never fires: a total cost of a dollar or more is the same as a shadow edge that
  is not positive, and the check asks for both at once (the reported edge was meant, as its
  message says).
\<close>

lemma fundamental_check_dead:
  "f \<in> set (audit_flags mp p) \<Longrightarrow> af_field f \<noteq> ''fundamental_constraint''"
  unfolding audit_flags_def Let_def
  by (auto simp: flag_if_def shadow_net_def shadow_gross_def split: if_splits)

text \<open>
  The settlement of a pair: the YES contract pays a dollar when the event happens, the NO contract
  when it does not.
\<close>

definition pair_pnl :: "flt \<Rightarrow> opportunity \<Rightarrow> bool \<Rightarrow> flt" where
  "pair_pnl mp p outcome =
     of_int (opp_suggested_qty p)
     * ((if outcome then 1 else 0) - opp_yes_price p + ((if outcome then 0 else 1) - opp_no_price p)
        - (shadow_fee_a mp p + shadow_fee_b mp p))"

lemma pair_pnl_eq: "pair_pnl mp p outcome = of_int (opp_suggested_qty p) * shadow_net mp p"
  by (simp add: pair_pnl_def shadow_net_def shadow_gross_def)

text \<open>
  C26.  A passed audit makes the trade riskless on paper: if the audit raises no flag and the
  scanner reports a positive edge, then both outcomes of the event pay the same positive amount
  after fees, that amount is within a tenth of a cent per contract of the reported edge, and the
  order is not larger than the auditor's own cap.
\<close>

theorem passed_audit_is_riskless:
  assumes "ar_passed (snd (audit_opportunity now p a))" "0 < opp_net_edge p" "0 < opp_suggested_qty p"
  shows "0 < pair_pnl (ma_max_position_usd a) p outcome
    \<and> pair_pnl (ma_max_position_usd a) p True = pair_pnl (ma_max_position_usd a) p False
    \<and> \<bar>pair_pnl (ma_max_position_usd a) p outcome - of_int (opp_suggested_qty p) * opp_net_edge p\<bar>
        \<le> of_int (opp_suggested_qty p) * (1/1000)
    \<and> opp_suggested_qty p \<le> shadow_position_size (ma_max_position_usd a) (opp_yes_price p)
                               (opp_no_price p) (opp_min_available_liquidity p)"
proof -
  let ?mp = "ma_max_position_usd a" and ?q = "of_int (opp_suggested_qty p) :: flt"
  from assms(1) have nil: "audit_flags ?mp p = []"
    by (simp add: audit_opportunity_def Let_def)
  with assms(2) have net: "0 < shadow_net ?mp p" "\<bar>shadow_net ?mp p - opp_net_edge p\<bar> \<le> 1/1000"
    and size: "opp_suggested_qty p \<le> shadow_position_size ?mp (opp_yes_price p)
                               (opp_no_price p) (opp_min_available_liquidity p)"
    by (simp_all add: audit_flags_Nil)
  have q: "0 < ?q" using assms(3) by simp
  have "\<bar>?q * shadow_net ?mp p - ?q * opp_net_edge p\<bar> = ?q * \<bar>shadow_net ?mp p - opp_net_edge p\<bar>"
    using q by (simp add: abs_mult right_diff_distrib[symmetric])
  also have "\<dots> \<le> ?q * (1/1000)"
    using q net(2) by (intro mult_left_mono) auto
  finally show ?thesis
    using q net(1) size by (simp add: pair_pnl_eq)
qed

lemma demo_opp_fees:
  "shadow_fee_a 100 demo_opp = 1/200" "shadow_fee_b 100 demo_opp = 1/200"
  by (simp_all add: shadow_fee_a_def shadow_fee_b_def demo_opp_def shadow_compute_fee_def
      shadow_forecastex_fee_def or_flt_def)

lemma demo_opp_size: "shadow_position_size 100 (2/5) (1/2) 50 = 50"
proof -
  have "\<lfloor>1000/9 :: flt\<rfloor> = 111" by (rule floor_unique) simp_all
  then have "py_int (1000/9) = 111" "py_int 50 = 50" by (simp_all add: py_int_def)
  then show ?thesis by (simp add: shadow_position_size_def Let_def)
qed

lemma demo_opp_audit: "audit_flags 100 demo_opp = []"
  by (simp add: audit_flags_Nil shadow_net_def shadow_gross_def demo_opp_fields demo_opp_fees
      demo_opp_size)

theorem passed_audit_is_riskless_witness:
  "0 < pair_pnl 100 demo_opp True \<and> pair_pnl 100 demo_opp True = pair_pnl 100 demo_opp False"
proof -
  have "ar_passed (snd (audit_opportunity 50 demo_opp (new_auditor 100)))"
    "ma_max_position_usd (new_auditor 100) = 100"
    by (simp_all add: audit_opportunity_def new_auditor_def demo_opp_audit Let_def)
  with passed_audit_is_riskless[of 50 demo_opp "new_auditor 100" True]
  show ?thesis by (simp add: demo_opp_fields)
qed

text \<open>
  The execution audit finds an unhedged leg: it raises a critical leg mismatch exactly when
  one leg has a non-empty fill and the other has none, and a result with an unhedged leg never
  counts as passed.
\<close>

theorem one_leg_risk_detected:
  "((\<exists>f \<in> set (execution_flags p y n). af_field f = ''leg_mismatch'' \<and> af_severity f = Critical)
     \<longleftrightarrow> leg_is_filled y \<noteq> leg_is_filled n)
   \<and> (leg_is_filled y \<noteq> leg_is_filled n \<longrightarrow> \<not> ar_passed (snd (audit_execution now p y n a)))"
proof -
  have "(\<exists>f \<in> set (execution_flags p y n). af_field f = ''leg_mismatch'' \<and> af_severity f = Critical)
     \<longleftrightarrow> leg_is_filled y \<noteq> leg_is_filled n"
    unfolding execution_flags_def Let_def
    by (cases "leg_is_filled y"; cases "leg_is_filled n") (auto simp: flag_if_def)
  moreover have "leg_is_filled y \<noteq> leg_is_filled n \<Longrightarrow> execution_flags p y n \<noteq> []"
    unfolding execution_flags_def Let_def by auto
  ultimately show ?thesis
    by (auto simp: audit_execution_def Let_def split: prod.splits)
qed

theorem one_leg_risk_detected_witness:
  "\<not> ar_passed (snd (audit_execution 50 demo_opp
       \<lparr>al_status = ''filled'', al_fill_price = 40/100, al_fill_qty = 10\<rparr>
       \<lparr>al_status = ''failed'', al_fill_price = 0, al_fill_qty = 0\<rparr> (new_auditor 100)))"
  by (rule one_leg_risk_detected[THEN conjunct2, THEN mp]) (simp add: leg_is_filled_def)

text \<open>
  The counters: every audit counts once, the critical ones are among them and the stored results
  are bounded.
\<close>

definition auditor_ok :: "math_auditor \<Rightarrow> bool" where
  "auditor_ok a = (0 \<le> ma_critical_count a \<and> ma_critical_count a \<le> ma_audit_count a
     \<and> length (ma_results a) \<le> 1000)"

datatype auditor_event =
  AuditOpportunity flt opportunity | AuditExecution flt opportunity audit_leg audit_leg

primrec auditor_step :: "auditor_event \<Rightarrow> math_auditor \<Rightarrow> math_auditor" where
  "auditor_step (AuditOpportunity now p) a = fst (audit_opportunity now p a)"
| "auditor_step (AuditExecution now p y n) a = fst (audit_execution now p y n a)"

lemma audit_opportunity_ok: "auditor_ok a \<Longrightarrow> auditor_ok (fst (audit_opportunity now p a))"
  by (auto simp: auditor_ok_def audit_opportunity_def Let_def length_deque_append)

lemma audit_results_nonempty: "ma_results (fst (audit_opportunity now p a)) \<noteq> []"
  by (simp add: audit_opportunity_def Let_def deque_append_def)

interpretation auditing: invariant_machine auditor_step auditor_ok
proof unfold_locales
  fix a :: math_auditor and e :: auditor_event
  assume ok: "auditor_ok a"
  show "auditor_ok (auditor_step e a)"
  proof (cases e)
    case (AuditOpportunity now p)
    with audit_opportunity_ok[OF ok] show ?thesis by simp
  next
    case (AuditExecution now p y n)
    obtain a' r where ar: "audit_opportunity now p a = (a', r)" by fastforce
    with audit_opportunity_ok[OF ok, of now p] audit_results_nonempty[of now p a]
    have "auditor_ok a'" "ma_results a' \<noteq> []" by simp_all
    then show ?thesis
      using AuditExecution ar
      by (cases "ma_results a'") (auto simp: auditor_ok_def audit_execution_def Let_def)
  qed
qed

lemma pass_rate_range:
  "auditor_ok a \<Longrightarrow> 0 \<le> ma_audit_count a - ma_critical_count a"
  by (simp add: auditor_ok_def)

end
