(* ===== verification/Orders.thy ===== *)
theory Orders
  imports Opportunity
begin

text \<open>
  The data of \<open>arbiter/execution/engine.py\<close>: orders, incidents, manual positions and arbitrage
  executions, with their display dicts as records of rounded fields.  The message of an incident is
  the text of its f-string, with \<open>{}\<close> for a formatted number, and the numbers; the metadata keeps
  texts and numbers and marks a nested payload.  The post-mortem text of an execution is not
  modelled.
\<close>

datatype order_status =
  PENDING | SUBMITTED | FILLED | PARTIAL | CANCELLED | FAILED | ABORTED | SIMULATED

definition status_text :: "order_status \<Rightarrow> string" where
  "status_text s = (case s of PENDING \<Rightarrow> ''pending'' | SUBMITTED \<Rightarrow> ''submitted'' | FILLED \<Rightarrow> ''filled''
     | PARTIAL \<Rightarrow> ''partial'' | CANCELLED \<Rightarrow> ''cancelled'' | FAILED \<Rightarrow> ''failed''
     | ABORTED \<Rightarrow> ''aborted'' | SIMULATED \<Rightarrow> ''simulated'')"

record order =
  ord_id :: string
  ord_platform :: string
  ord_market_id :: string
  ord_canonical_id :: string
  ord_side :: string
  ord_price :: flt
  ord_quantity :: int
  ord_status :: order_status
  ord_fill_price :: flt
  ord_fill_qty :: int
  ord_timestamp :: flt
  ord_error :: string
  ord_external_client_order_id :: "string option"
  ord_idempotency_ambiguous :: bool

definition order_to_dict :: "order \<Rightarrow> order" where
  "order_to_dict r = r\<lparr>ord_price := round_nd 4 (ord_price r),
     ord_fill_price := round_nd 4 (ord_fill_price r)\<rparr>"

datatype meta_value = MText string | MNum flt | MInt int | MNested

type_synonym message = "string \<times> flt list"

record incident =
  inc_id :: string
  inc_arb_id :: string
  inc_canonical_id :: string
  inc_severity :: string
  inc_message :: message
  inc_timestamp :: flt
  inc_metadata :: "(string, meta_value) dict"
  inc_status :: string
  inc_resolved_at :: flt
  inc_resolution_note :: string

record manual_position =
  mp_id :: string
  mp_canonical_id :: string
  mp_description :: string
  mp_instructions :: message
  mp_yes_platform :: string
  mp_no_platform :: string
  mp_quantity :: int
  mp_yes_price :: flt
  mp_no_price :: flt
  mp_status :: string
  mp_timestamp :: flt
  mp_updated_at :: flt
  mp_entry_confirmed_at :: flt
  mp_closed_at :: flt
  mp_note :: string

definition manual_to_dict :: "manual_position \<Rightarrow> manual_position" where
  "manual_to_dict q = q\<lparr>mp_yes_price := round_nd 4 (mp_yes_price q),
     mp_no_price := round_nd 4 (mp_no_price q)\<rparr>"

record arb_execution =
  ex_arb_id :: string
  ex_opportunity :: opportunity
  ex_leg_yes :: order
  ex_leg_no :: order
  ex_status :: string
  ex_realized_pnl :: flt
  ex_unwind_pnl :: flt
  ex_timestamp :: flt
  ex_notes :: "string list"

definition arb_pnl :: "arb_execution \<Rightarrow> flt" where
  "arb_pnl e = ex_realized_pnl e - ex_unwind_pnl e"

definition execution_to_dict :: "arb_execution \<Rightarrow> arb_execution \<times> flt" where
  "execution_to_dict e =
     (e\<lparr>ex_opportunity := opp_to_dict (ex_opportunity e), ex_leg_yes := order_to_dict (ex_leg_yes e),
        ex_leg_no := order_to_dict (ex_leg_no e), ex_realized_pnl := round_nd 4 (ex_realized_pnl e),
        ex_unwind_pnl := round_nd 4 (ex_unwind_pnl e)\<rparr>, round_nd 4 (arb_pnl e))"

text \<open>\<open>_trim_executions\<close> keeps the newest \<open>MAX_EXECUTION_HISTORY\<close> entries.\<close>

definition max_execution_history :: nat where "max_execution_history = 1000"

definition trim_executions :: "arb_execution list \<Rightarrow> arb_execution list" where
  "trim_executions es =
     (let overflow = int (length es) - int max_execution_history
      in if 0 < overflow then drop (nat overflow) es else es)"

lemma trim_bound: "length (trim_executions es) \<le> max_execution_history"
  by (auto simp: trim_executions_def Let_def)

text \<open>Trimming after every append is a bounded deque.\<close>

lemma trim_is_deque: "trim_executions (es @ [e]) = deque_append max_execution_history es e"
  by (auto simp: trim_executions_def deque_append_def Let_def nat_diff_distrib of_nat_diff
      max_execution_history_def)

text \<open>The status texts stored in the database tell the statuses apart.\<close>

lemma status_text_inj: "status_text s = status_text t \<longleftrightarrow> s = t"
  by (cases s; cases t) (simp_all add: status_text_def)

text \<open>An order of the statuses, by which lists of orders can be sorted and compared.\<close>

definition status_rank :: "order_status \<Rightarrow> nat" where
  "status_rank s = (case s of PENDING \<Rightarrow> 0 | SUBMITTED \<Rightarrow> 1 | PARTIAL \<Rightarrow> 2 | CANCELLED \<Rightarrow> 3
     | FAILED \<Rightarrow> 4 | ABORTED \<Rightarrow> 5 | SIMULATED \<Rightarrow> 6 | FILLED \<Rightarrow> 7)"

instantiation order_status :: linorder
begin

definition less_eq_order_status :: "order_status \<Rightarrow> order_status \<Rightarrow> bool" where
  "less_eq_order_status s t = (status_rank s \<le> status_rank t)"

definition less_order_status :: "order_status \<Rightarrow> order_status \<Rightarrow> bool" where
  "less_order_status s t = (status_rank s < status_rank t)"

instance
  by standard
    (auto simp: less_eq_order_status_def less_order_status_def status_rank_def
      split: order_status.splits)

end

end
