(* ===== verification/Risk_Manager.thy ===== *)
theory Risk_Manager
  imports Config Opportunity
begin

text \<open>
  \<open>RiskManager\<close> of \<open>arbiter/execution/engine.py\<close>: the exposure book of the engine and the gate
  in front of every trade.  The infinite platform ceiling of a manager built without a safety
  configuration is \<open>None\<close>; the UTC day is the number of whole days of the clock.
\<close>

section \<open>State\<close>

record risk_manager =
  rm_config :: scanner_config
  rm_max_platform_exposure :: "flt option"
  rm_open_positions :: "(string, flt) dict"
  rm_platform_exposures :: "(string, flt) dict"
  rm_daily_pnl :: flt
  rm_daily_trades :: int
  rm_max_daily_trades :: int
  rm_max_daily_loss :: flt
  rm_max_total_exposure :: flt
  rm_daily_window_day :: int

definition utc_day :: "flt \<Rightarrow> int" where
  "utc_day now = \<lfloor>now / 86400\<rfloor>"

text \<open>
  The limits of the environment, \<open>None\<close> where the variable is unset, empty or not a number:
  \<open>MAX_DAILY_TRADES\<close>, \<open>MAX_DAILY_LOSS_USD\<close>, \<open>MAX_TOTAL_EXPOSURE_USD\<close>.
\<close>

record risk_env =
  re_daily_trades :: "int option"
  re_daily_loss :: "flt option"
  re_total_exposure :: "flt option"

definition env_or :: "'a option \<Rightarrow> 'a \<Rightarrow> 'a" where
  "env_or x d = (case x of None \<Rightarrow> d | Some y \<Rightarrow> y)"

definition no_risk_env :: risk_env where
  "no_risk_env = \<lparr>re_daily_trades = None, re_daily_loss = None, re_total_exposure = None\<rparr>"

definition new_risk_manager ::
  "risk_env \<Rightarrow> scanner_config \<Rightarrow> flt option \<Rightarrow> flt \<Rightarrow> risk_manager" where
  "new_risk_manager renv cfg platform_limit now =
     \<lparr> rm_config = cfg, rm_max_platform_exposure = platform_limit, rm_open_positions = [],
       rm_platform_exposures = [], rm_daily_pnl = 0, rm_daily_trades = 0,
       rm_max_daily_trades = env_or (re_daily_trades renv) 100,
       rm_max_daily_loss = env_or (re_daily_loss renv) (- 50),
       rm_max_total_exposure = env_or (re_total_exposure renv) 500,
       rm_daily_window_day = utc_day now \<rparr>"

definition roll_daily_window :: "flt \<Rightarrow> risk_manager \<Rightarrow> risk_manager" where
  "roll_daily_window now r =
     (if utc_day now \<noteq> rm_daily_window_day r
      then r\<lparr>rm_daily_window_day := utc_day now, rm_daily_trades := 0, rm_daily_pnl := 0\<rparr>
      else r)"

section \<open>The gate\<close>

datatype risk_verdict =
    NotReady string
  | LowConfidence flt
  | EdgeTooThin flt
  | StaleQuote flt
  | DailyTradeLimit
  | DailyLossLimit
  | PerMarketLimit
  | PerPlatformLimit string
  | TotalLimit
  | Approved

definition opp_exposure :: "opportunity \<Rightarrow> flt" where
  "opp_exposure p = of_int (opp_suggested_qty p) * (opp_yes_price p + opp_no_price p)"

definition yes_leg_exposure :: "opportunity \<Rightarrow> flt" where
  "yes_leg_exposure p = of_int (opp_suggested_qty p) * opp_yes_price p"

definition no_leg_exposure :: "opportunity \<Rightarrow> flt" where
  "no_leg_exposure p = of_int (opp_suggested_qty p) * opp_no_price p"

text \<open>\<open>platform_add\<close>: the legs aggregated by venue.\<close>

definition add_to :: "string \<Rightarrow> flt \<Rightarrow> (string, flt) dict \<Rightarrow> (string, flt) dict" where
  "add_to k x d = AList.update k (dget d k 0 + x) d"

definition platform_add :: "opportunity \<Rightarrow> (string, flt) dict" where
  "platform_add p = fold (\<lambda>(pl, x). add_to pl x)
     [(opp_yes_platform p, yes_leg_exposure p), (opp_no_platform p, no_leg_exposure p)] []"

definition over_limit :: "flt option \<Rightarrow> flt \<Rightarrow> bool" where
  "over_limit limit x = (case limit of None \<Rightarrow> False | Some l \<Rightarrow> l < x)"

fun first_over :: "risk_manager \<Rightarrow> (string, flt) dict \<Rightarrow> string option" where
  "first_over r [] = None"
| "first_over r ((pl, x) # d) =
     (if over_limit (rm_max_platform_exposure r) (dget (rm_platform_exposures r) pl 0 + x)
      then Some pl else first_over r d)"

definition check_limits :: "opportunity \<Rightarrow> risk_manager \<Rightarrow> risk_verdict" where
  "check_limits p r =
     (let exposure = opp_exposure p;
          existing = dget (rm_open_positions r) (opp_canonical_id p) 0
      in if rm_max_daily_trades r \<le> rm_daily_trades r then DailyTradeLimit
         else if rm_daily_pnl r \<le> rm_max_daily_loss r then DailyLossLimit
         else if max_position_usd (rm_config r) < existing + exposure then PerMarketLimit
         else case first_over r (platform_add p) of
                Some pl \<Rightarrow> PerPlatformLimit pl
              | None \<Rightarrow>
                  if rm_max_total_exposure r < dsum (rm_open_positions r) + exposure
                  then TotalLimit else Approved)"

definition check_trade :: "flt \<Rightarrow> opportunity \<Rightarrow> risk_manager \<Rightarrow> risk_manager \<times> risk_verdict" where
  "check_trade now p r =
     (if opp_status p \<noteq> ''tradable'' \<and> opp_status p \<noteq> ''manual'' then (r, NotReady (opp_status p))
      else if opp_confidence p < confidence_threshold (rm_config r) \<and> \<not> opp_requires_manual p
      then (r, LowConfidence (opp_confidence p))
      else if opp_net_edge_cents p
              < min_edge_for_pair (rm_config r) (opp_yes_platform p) (opp_no_platform p)
      then (r, EdgeTooThin (opp_net_edge_cents p))
      else if max_quote_age_seconds (rm_config r) < opp_quote_age_seconds p
      then (r, StaleQuote (opp_quote_age_seconds p))
      else let r' = roll_daily_window now r in (r', check_limits p r'))"

section \<open>Recording and releasing\<close>

record trade_args =
  ta_platform :: "string option"
  ta_yes_platform :: "string option"
  ta_no_platform :: "string option"
  ta_yes_exposure :: flt
  ta_no_exposure :: flt

definition add_opt :: "string option \<Rightarrow> flt \<Rightarrow> (string, flt) dict \<Rightarrow> (string, flt) dict" where
  "add_opt pl x d = (case pl of None \<Rightarrow> d | Some k \<Rightarrow> add_to k x d)"

definition truthy_leg :: "string option \<Rightarrow> flt \<Rightarrow> string option" where
  "truthy_leg pl x = (if x = 0 then None else pl)"

definition record_trade :: "string \<Rightarrow> flt \<Rightarrow> flt \<Rightarrow> trade_args \<Rightarrow> risk_manager \<Rightarrow> risk_manager" where
  "record_trade cid exposure pnl a r =
     (let d0 = rm_platform_exposures r;
          d1 = add_opt (ta_platform a) exposure d0;
          d2 = add_opt (truthy_leg (ta_yes_platform a) (ta_yes_exposure a)) (ta_yes_exposure a) d1;
          d3 = add_opt (truthy_leg (ta_no_platform a) (ta_no_exposure a)) (ta_no_exposure a) d2
      in r\<lparr>rm_open_positions := add_to cid exposure (rm_open_positions r),
           rm_daily_pnl := rm_daily_pnl r + pnl, rm_daily_trades := rm_daily_trades r + 1,
           rm_platform_exposures := d3\<rparr>)"

definition decrement :: "string option \<Rightarrow> flt \<Rightarrow> (string, flt) dict \<Rightarrow> (string, flt) dict" where
  "decrement pl amount d =
     (case pl of None \<Rightarrow> d
      | Some k \<Rightarrow> if k = [] \<or> amount = 0 then d
                  else let new_value = dget d k 0 - amount
                       in if 0 < new_value then AList.update k new_value d else AList.delete k d)"

definition release_trade :: "string \<Rightarrow> flt \<Rightarrow> flt \<Rightarrow> trade_args \<Rightarrow> risk_manager \<Rightarrow> risk_manager" where
  "release_trade cid exposure pnl a r =
     (let remaining = max (dget (rm_open_positions r) cid 0 - exposure) 0;
          pos = (if 0 < remaining then AList.update cid remaining (rm_open_positions r)
                 else AList.delete cid (rm_open_positions r));
          d0 = rm_platform_exposures r;
          d1 = decrement (ta_platform a) exposure d0;
          d2 = decrement (truthy_leg (ta_yes_platform a) (ta_yes_exposure a)) (ta_yes_exposure a) d1;
          d3 = decrement (truthy_leg (ta_no_platform a) (ta_no_exposure a)) (ta_no_exposure a) d2
      in r\<lparr>rm_open_positions := pos, rm_daily_pnl := rm_daily_pnl r + pnl,
           rm_platform_exposures := d3\<rparr>)"

section \<open>The exposure invariant\<close>

text \<open>
  How the engine records a trade it was allowed to make: the whole exposure on the market and
  one leg on each venue.
\<close>

definition arb_args :: "opportunity \<Rightarrow> trade_args" where
  "arb_args p = \<lparr> ta_platform = None, ta_yes_platform = Some (opp_yes_platform p),
     ta_no_platform = Some (opp_no_platform p), ta_yes_exposure = yes_leg_exposure p,
     ta_no_exposure = no_leg_exposure p \<rparr>"

definition record_arb :: "opportunity \<Rightarrow> flt \<Rightarrow> risk_manager \<Rightarrow> risk_manager" where
  "record_arb p pnl r = record_trade (opp_canonical_id p) (opp_exposure p) pnl (arb_args p) r"

datatype risk_event =
  RiskTrade flt opportunity flt | RiskRelease string flt flt trade_args

primrec risk_step :: "risk_event \<Rightarrow> risk_manager \<Rightarrow> risk_manager" where
  "risk_step (RiskTrade now p pnl) r = record_arb p pnl (fst (check_trade now p r))"
| "risk_step (RiskRelease cid x pnl a) r = release_trade cid x pnl a r"

definition sane_opp :: "opportunity \<Rightarrow> bool" where
  "sane_opp p = (0 \<le> opp_suggested_qty p \<and> 0 \<le> opp_yes_price p \<and> 0 \<le> opp_no_price p)"

text \<open>A trade is recorded only if the gate approved it; a release gives back, it does not take.\<close>

primrec risk_guard :: "risk_event \<Rightarrow> risk_manager \<Rightarrow> bool" where
  "risk_guard (RiskTrade now p pnl) r = (sane_opp p \<and> snd (check_trade now p r) = Approved)"
| "risk_guard (RiskRelease cid x pnl a) r =
     (0 \<le> x \<and> 0 \<le> ta_yes_exposure a \<and> 0 \<le> ta_no_exposure a)"

definition in_limit :: "flt option \<Rightarrow> flt \<Rightarrow> bool" where
  "in_limit limit v = (0 \<le> v \<and> \<not> over_limit limit v)"

definition risk_ok :: "risk_manager \<Rightarrow> bool" where
  "risk_ok r =
     (dict_ok (rm_open_positions r) \<and> dict_ok (rm_platform_exposures r)
      \<and> dict_all (in_limit (Some (max_position_usd (rm_config r)))) (rm_open_positions r)
      \<and> dict_all (in_limit (rm_max_platform_exposure r)) (rm_platform_exposures r)
      \<and> dsum (rm_open_positions r) \<le> rm_max_total_exposure r
      \<and> 0 \<le> rm_daily_trades r \<and> rm_daily_trades r \<le> rm_max_daily_trades r)"

lemma in_limit_Some: "in_limit (Some l) v \<longleftrightarrow> 0 \<le> v \<and> v \<le> l"
  by (auto simp: in_limit_def over_limit_def)

lemma exposure_nonneg:
  assumes "sane_opp p"
  shows "0 \<le> yes_leg_exposure p" "0 \<le> no_leg_exposure p" "0 \<le> opp_exposure p"
    "opp_exposure p = yes_leg_exposure p + no_leg_exposure p"
  using assms
  by (simp_all add: sane_opp_def yes_leg_exposure_def no_leg_exposure_def opp_exposure_def
      distrib_left)

lemma first_over_None:
  "first_over r d = None \<longleftrightarrow>
     list_all (\<lambda>(pl, x). \<not> over_limit (rm_max_platform_exposure r)
                          (dget (rm_platform_exposures r) pl 0 + x)) d"
  by (induction r d rule: first_over.induct) auto

lemma over_limit_mono: "over_limit l x \<Longrightarrow> x \<le> y \<Longrightarrow> over_limit l y"
  by (auto simp: over_limit_def split: option.splits)

text \<open>What the platform check guarantees for the two legs, on one venue or on two.\<close>

lemma platform_legs:
  assumes "sane_opp p" "first_over r (platform_add p) = None"
  shows "\<not> over_limit (rm_max_platform_exposure r)
           (dget (rm_platform_exposures r) (opp_yes_platform p) 0 + yes_leg_exposure p)"
    and "\<not> over_limit (rm_max_platform_exposure r)
           (dget (rm_platform_exposures r) (opp_no_platform p) 0 + no_leg_exposure p
            + (if opp_yes_platform p = opp_no_platform p then yes_leg_exposure p else 0))"
proof -
  note nn = exposure_nonneg[OF assms(1)]
  show "\<not> over_limit (rm_max_platform_exposure r)
           (dget (rm_platform_exposures r) (opp_yes_platform p) 0 + yes_leg_exposure p)"
    "\<not> over_limit (rm_max_platform_exposure r)
           (dget (rm_platform_exposures r) (opp_no_platform p) 0 + no_leg_exposure p
            + (if opp_yes_platform p = opp_no_platform p then yes_leg_exposure p else 0))"
    using assms(2) nn over_limit_mono[of _ "dget (rm_platform_exposures r) (opp_yes_platform p) 0
        + yes_leg_exposure p" "dget (rm_platform_exposures r) (opp_yes_platform p) 0
        + yes_leg_exposure p + no_leg_exposure p"]
    by (auto simp: first_over_None platform_add_def add_to_def dget_def algebra_simps
        split: if_splits)
qed

lemma add_to_all: "dict_all P d \<Longrightarrow> P (dget d k 0 + x) \<Longrightarrow> dict_all P (add_to k x d)"
  by (simp add: add_to_def)

lemma add_to_ok [simp]: "dict_ok d \<Longrightarrow> dict_ok (add_to k x d)"
  by (simp add: add_to_def)

lemma dget_add_to [simp]: "dget (add_to k x d) k' 0 = dget d k' 0 + (if k' = k then x else 0)"
  by (simp add: add_to_def)

lemma dsum_add_to: "dict_ok d \<Longrightarrow> dsum (add_to k x d) = dsum d + x"
  by (simp add: add_to_def dsum_update)

lemma dget_nonneg: "dict_all (in_limit l) d \<Longrightarrow> 0 \<le> dget d k 0"
  using dict_all_dget[of "\<lambda>v. 0 \<le> v" d 0 k] dict_all_mono[of "in_limit l" d "\<lambda>v. 0 \<le> v"]
  by (simp add: in_limit_def)

text \<open>A new exposure with room for it keeps the book within its limit.\<close>

lemma legs_in_limit:
  assumes "dict_all (in_limit l) d" "0 \<le> y" "0 \<le> n"
    and "\<not> over_limit l (dget d a 0 + y)"
    and "\<not> over_limit l (dget d b 0 + n + (if a = b then y else 0))"
  shows "dict_all (in_limit l) (add_opt (truthy_leg (Some b) n) n (add_opt (truthy_leg (Some a) y) y d))"
proof -
  have "dict_all (in_limit l) (add_to a y d)"
    using assms(1,2,4) dget_nonneg[OF assms(1), of a] by (intro add_to_all) (auto simp: in_limit_def)
  moreover have "in_limit l (dget (add_to a y d) b 0 + n)"
    using assms(2,3,5) dget_nonneg[OF assms(1), of b] by (auto simp: in_limit_def algebra_simps)
  moreover have "in_limit l (dget d b 0 + n)" if "y = 0"
    using assms(3,5) that dget_nonneg[OF assms(1), of b] by (auto simp: in_limit_def)
  ultimately show ?thesis
    using assms(1) by (auto simp: add_opt_def truthy_leg_def add_to_all)
qed

lemma legs_dict_ok: "dict_ok d \<Longrightarrow> dict_ok (add_opt pl x d)"
  by (simp add: add_opt_def split: option.split)

lemma decrement_all:
  assumes "dict_all (in_limit l) d" "0 \<le> x"
  shows "dict_all (in_limit l) (decrement pl x d)"
proof -
  have "in_limit l (dget d k 0 - x)" if "0 < dget d k 0 - x" for k
  proof -
    have "map_of d k \<noteq> None" using that assms(2) by (auto simp: dget_def split: option.splits)
    then obtain v where "map_of d k = Some v" by auto
    with dict_all_lookup[OF this assms(1)] that assms(2) over_limit_mono[of l "v - x" v]
    show ?thesis by (auto simp: in_limit_def dget_def)
  qed
  with assms(1) show ?thesis
    by (auto simp: decrement_def Let_def split: option.split)
qed

lemma decrement_ok [simp]: "dict_ok d \<Longrightarrow> dict_ok (decrement pl x d)"
  by (simp add: decrement_def Let_def split: option.split)

lemma release_position:
  assumes "dict_ok d" "dict_all (in_limit l) d" "0 \<le> x"
    and rest: "rest = max (dget d cid 0 - x) 0"
    and d': "d' = (if 0 < rest then AList.update cid rest d else AList.delete cid d)"
  shows "dict_ok d' \<and> dict_all (in_limit l) d' \<and> dsum d' \<le> dsum d"
proof -
  have cur: "0 \<le> dget d cid 0" by (rule dget_nonneg[OF assms(2)])
  have "d' = (if 0 < dget d cid 0 - x then AList.update cid (dget d cid 0 - x) d
              else AList.delete cid d)"
    by (auto simp: d' rest)
  moreover have "in_limit l (dget d cid 0 - x)" if "0 < dget d cid 0 - x"
  proof -
    have "map_of d cid \<noteq> None" using that assms(3) by (auto simp: dget_def split: option.splits)
    then obtain v where "map_of d cid = Some v" by auto
    with dict_all_lookup[OF this assms(2)] that assms(3) over_limit_mono[of l "v - x" v]
    show ?thesis by (auto simp: in_limit_def dget_def)
  qed
  ultimately show ?thesis
    using assms(1,2,3) cur by (simp add: dsum_update dsum_delete)
qed

lemma check_trade_state:
  "fst (check_trade now p r) = r \<or> fst (check_trade now p r) = roll_daily_window now r"
  by (simp add: check_trade_def Let_def)

lemma roll_ok: "risk_ok r \<Longrightarrow> 0 \<le> rm_max_daily_trades r \<Longrightarrow> risk_ok (roll_daily_window now r)"
  by (auto simp: risk_ok_def roll_daily_window_def)

lemma approved_cases:
  assumes "snd (check_trade now p r) = Approved"
  shows "fst (check_trade now p r) = roll_daily_window now r"
    and "check_limits p (roll_daily_window now r) = Approved"
    and "opp_status p = ''tradable'' \<or> opp_status p = ''manual''"
    and "min_edge_for_pair (rm_config r) (opp_yes_platform p) (opp_no_platform p) \<le> opp_net_edge_cents p"
    and "opp_quote_age_seconds p \<le> max_quote_age_seconds (rm_config r)"
  using assms by (auto simp: check_trade_def Let_def split: if_splits)

lemma approved_limits:
  assumes "check_limits p r = Approved"
  shows "rm_daily_trades r < rm_max_daily_trades r" "rm_max_daily_loss r < rm_daily_pnl r"
    "dget (rm_open_positions r) (opp_canonical_id p) 0 + opp_exposure p \<le> max_position_usd (rm_config r)"
    "first_over r (platform_add p) = None"
    "dsum (rm_open_positions r) + opp_exposure p \<le> rm_max_total_exposure r"
  using assms by (auto simp: check_limits_def Let_def split: if_splits option.splits)

lemma record_arb_ok:
  assumes "risk_ok r" "sane_opp p" "check_limits p r = Approved"
  shows "risk_ok (record_arb p pnl r)"
proof -
  note nn = exposure_nonneg[OF assms(2)]
  note lim = approved_limits[OF assms(3)]
  note legs = platform_legs[OF assms(2) lim(4)]
  have ok: "dict_ok (rm_open_positions r)" "dict_ok (rm_platform_exposures r)"
    "dict_all (in_limit (Some (max_position_usd (rm_config r)))) (rm_open_positions r)"
    "dict_all (in_limit (rm_max_platform_exposure r)) (rm_platform_exposures r)"
    using assms(1) by (simp_all add: risk_ok_def)
  have "dict_all (in_limit (Some (max_position_usd (rm_config r))))
      (add_to (opp_canonical_id p) (opp_exposure p) (rm_open_positions r))"
    using nn(3) lim(3) dget_nonneg[OF ok(3)]
    by (intro add_to_all ok) (auto simp: in_limit_Some intro: add_nonneg_nonneg)
  moreover have "dict_all (in_limit (rm_max_platform_exposure r))
      (add_opt (truthy_leg (Some (opp_no_platform p)) (no_leg_exposure p)) (no_leg_exposure p)
        (add_opt (truthy_leg (Some (opp_yes_platform p)) (yes_leg_exposure p)) (yes_leg_exposure p)
          (rm_platform_exposures r)))"
    by (rule legs_in_limit[OF ok(4) nn(1,2) legs])
  ultimately show ?thesis
    using assms(1) lim(1,5) ok
    by (simp add: risk_ok_def record_arb_def record_trade_def arb_args_def Let_def add_opt_def[of None]
        dsum_add_to legs_dict_ok)
qed

lemma release_ok:
  assumes "risk_ok r" "0 \<le> x" "0 \<le> ta_yes_exposure a" "0 \<le> ta_no_exposure a"
  shows "risk_ok (release_trade cid x pnl a r)"
proof -
  have ok: "dict_ok (rm_open_positions r)" "dict_ok (rm_platform_exposures r)"
    "dict_all (in_limit (Some (max_position_usd (rm_config r)))) (rm_open_positions r)"
    "dict_all (in_limit (rm_max_platform_exposure r)) (rm_platform_exposures r)"
    using assms(1) by (simp_all add: risk_ok_def)
  from release_position[OF ok(1,3) assms(2) refl refl, of cid] show ?thesis
    using assms ok by (auto simp: risk_ok_def release_trade_def Let_def decrement_all)
qed

lemma record_constants [simp]:
  "rm_max_daily_trades (record_arb p pnl r) = rm_max_daily_trades r"
  "rm_config (record_arb p pnl r) = rm_config r"
  "rm_max_platform_exposure (record_arb p pnl r) = rm_max_platform_exposure r"
  "rm_max_total_exposure (record_arb p pnl r) = rm_max_total_exposure r"
  "rm_max_daily_trades (release_trade cid x pnl a r) = rm_max_daily_trades r"
  "rm_config (release_trade cid x pnl a r) = rm_config r"
  "rm_max_platform_exposure (release_trade cid x pnl a r) = rm_max_platform_exposure r"
  "rm_max_total_exposure (release_trade cid x pnl a r) = rm_max_total_exposure r"
  "rm_max_daily_trades (roll_daily_window now r) = rm_max_daily_trades r"
  "rm_config (roll_daily_window now r) = rm_config r"
  "rm_max_platform_exposure (roll_daily_window now r) = rm_max_platform_exposure r"
  "rm_max_total_exposure (roll_daily_window now r) = rm_max_total_exposure r"
  by (simp_all add: record_arb_def record_trade_def release_trade_def roll_daily_window_def Let_def)

definition same_limits :: "risk_manager \<Rightarrow> risk_manager \<Rightarrow> bool" where
  "same_limits r0 r =
     (rm_config r = rm_config r0 \<and> rm_max_platform_exposure r = rm_max_platform_exposure r0
      \<and> rm_max_total_exposure r = rm_max_total_exposure r0
      \<and> rm_max_daily_trades r = rm_max_daily_trades r0 \<and> 0 \<le> rm_max_daily_trades r0)"

interpretation risk: guarded_machine risk_step risk_guard "\<lambda>r. risk_ok r \<and> same_limits r0 r"
proof unfold_locales
  fix r :: risk_manager and e :: risk_event
  assume inv: "risk_ok r \<and> same_limits r0 r" and g: "risk_guard e r"
  show "risk_ok (risk_step e r) \<and> same_limits r0 (risk_step e r)"
  proof (cases e)
    case (RiskTrade now p pnl)
    with g have sane: "sane_opp p" and ap: "snd (check_trade now p r) = Approved" by simp_all
    have "risk_ok (roll_daily_window now r)"
      using inv by (intro roll_ok) (auto simp: same_limits_def)
    from record_arb_ok[OF this sane approved_cases(2)[OF ap], of pnl]
    show ?thesis using RiskTrade inv by (simp add: approved_cases(1)[OF ap] same_limits_def)
  next
    case (RiskRelease cid x pnl a)
    with inv g release_ok[of r x a] show ?thesis by (simp add: same_limits_def)
  qed
qed

definition sane_env :: "risk_env \<Rightarrow> bool" where
  "sane_env renv = (0 \<le> env_or (re_daily_trades renv) 100 \<and> 0 \<le> env_or (re_total_exposure renv) 500)"

lemma new_risk_ok:
  "sane_env renv \<Longrightarrow> risk_ok (new_risk_manager renv cfg limit now) \<and> same_limits (new_risk_manager renv cfg limit now)
     (new_risk_manager renv cfg limit now)"
  by (simp add: risk_ok_def same_limits_def new_risk_manager_def dsum_def sane_env_def)

lemma in_limit_dget:
  assumes "dict_all (in_limit l) d" "case l of None \<Rightarrow> True | Some m \<Rightarrow> 0 \<le> m"
  shows "\<not> over_limit l (dget d k 0)"
proof -
  have "in_limit l 0" using assms(2) by (auto simp: in_limit_def over_limit_def split: option.splits)
  from dict_all_dget[OF assms(1) this] show ?thesis by (simp add: in_limit_def)
qed

text \<open>
  C23.  Over the whole life of a risk manager, as long as the engine records only trades its gate
  approved in that state: no market's exposure exceeds the position limit, no venue's exposure its
  ceiling, the sum of all positions the total limit and the trades of the day their limit, whatever
  is released in between and however the daily window rolls.
\<close>

theorem risk_limits_hold:
  assumes "guarded_run risk_step risk_guard es (new_risk_manager renv cfg limit now)"
    and "r = fold risk_step es (new_risk_manager renv cfg limit now)"
    and "0 \<le> max_position_usd cfg" "case limit of None \<Rightarrow> True | Some m \<Rightarrow> 0 \<le> m"
    and "sane_env renv"
  shows "dget (rm_open_positions r) cid 0 \<le> max_position_usd cfg
    \<and> \<not> over_limit limit (dget (rm_platform_exposures r) pl 0)
    \<and> dsum (rm_open_positions r) \<le> env_or (re_total_exposure renv) 500
    \<and> rm_daily_trades r \<le> env_or (re_daily_trades renv) 100"
proof -
  from risk.guarded_run_inv[OF new_risk_ok[OF assms(5)] assms(1)]
  have ok: "risk_ok r" and same: "same_limits (new_risk_manager renv cfg limit now) r"
    by (simp_all add: assms(2))
  from same have eqs: "rm_config r = cfg" "rm_max_platform_exposure r = limit"
    "rm_max_total_exposure r = env_or (re_total_exposure renv) 500"
    "rm_max_daily_trades r = env_or (re_daily_trades renv) 100"
    by (simp_all add: same_limits_def new_risk_manager_def)
  with ok in_limit_dget[of "Some (max_position_usd cfg)" "rm_open_positions r" cid]
    in_limit_dget[of limit "rm_platform_exposures r" pl] assms(3,4)
  show ?thesis by (auto simp: risk_ok_def over_limit_def)
qed

lemma demo_trade_approved:
  assumes "utc_day now = utc_day 0"
  shows "check_trade now demo_opp (new_risk_manager no_risk_env default_scanner_config (Some 100) 0)
     = (new_risk_manager no_risk_env default_scanner_config (Some 100) 0, Approved)"
proof -
  have "min_edge_for_pair default_scanner_config ''forecastex'' ''forecastex'' = 7"
    "confidence_threshold default_scanner_config = 1/2"
    "max_quote_age_seconds default_scanner_config = 15"
    "max_position_usd default_scanner_config = 100"
    by (simp_all add: min_edge_for_pair_def Let_def default_scanner_config_def)
  with assms show ?thesis
    by (simp add: check_trade_def demo_opp_fields roll_daily_window_def new_risk_manager_def
        check_limits_def opp_exposure_def platform_add_def add_to_def over_limit_def
        yes_leg_exposure_def no_leg_exposure_def Let_def dsum_def dget_def env_or_def no_risk_env_def)
qed

theorem risk_limits_hold_witness:
  "dget (rm_open_positions (fold risk_step [RiskTrade 0 demo_opp (9/10)]
     (new_risk_manager no_risk_env default_scanner_config (Some 100) 0))) ''A'' 0 \<le> 100"
proof -
  let ?es = "[RiskTrade 0 demo_opp (9/10)]"
  have "guarded_run risk_step risk_guard ?es (new_risk_manager no_risk_env default_scanner_config (Some 100) 0)"
    by (simp add: demo_trade_approved[OF refl] sane_opp_def demo_opp_fields)
  moreover have "sane_env no_risk_env" by (simp add: sane_env_def no_risk_env_def env_or_def)
  moreover have "max_position_usd default_scanner_config = 100" by (simp add: default_scanner_config_def)
  ultimately show ?thesis
    using risk_limits_hold[OF _ refl, of ?es no_risk_env default_scanner_config "Some 100" 0 "''A''"]
    by simp
qed

text \<open>What recording adds and releasing takes, key by key.\<close>

lemma dget_add_opt [simp]: "dget (add_opt q y d) k 0 = dget d k 0 + (if q = Some k then y else 0)"
  by (auto simp: add_opt_def split: option.splits)

lemma dget_decrement:
  "q \<noteq> Some [] \<Longrightarrow> 0 \<le> y \<Longrightarrow> (q = Some k \<longrightarrow> y \<le> dget d k 0)
   \<Longrightarrow> dget (decrement q y d) k 0 = dget d k 0 - (if q = Some k then y else 0)"
  by (auto simp: decrement_def Let_def split: option.splits)

lemma release_record_positions:
  assumes "dict_all (in_limit m) (rm_open_positions r)" "0 \<le> x"
  shows "dget (rm_open_positions (release_trade cid x pnl' a (record_trade cid x pnl a r))) k 0
    = dget (rm_open_positions r) k 0"
  using assms(2) dget_nonneg[OF assms(1), of k] dget_nonneg[OF assms(1), of cid]
  by (simp add: release_trade_def record_trade_def Let_def)

lemma release_record_platforms:
  assumes "dict_all (in_limit l) (rm_platform_exposures r)"
    and "0 \<le> x" "0 \<le> ta_yes_exposure a" "0 \<le> ta_no_exposure a"
    and "ta_platform a \<noteq> Some []" "ta_yes_platform a \<noteq> Some []" "ta_no_platform a \<noteq> Some []"
  shows "dget (rm_platform_exposures (release_trade cid x pnl' a (record_trade cid x pnl a r))) pl 0
    = dget (rm_platform_exposures r) pl 0"
  using assms(2-7) dget_nonneg[OF assms(1), of pl]
  by (simp add: release_trade_def record_trade_def Let_def dget_decrement truthy_leg_def)

text \<open>
  Releasing what was recorded gives the exposures back: after a trade is recorded with any
  split over venues and released with the same split, every market and every venue has the exposure
  it had before, while the trade stays counted and both profits stay booked.
\<close>

theorem release_undoes_record:
  assumes "dict_all (in_limit m) (rm_open_positions r)" "dict_all (in_limit l) (rm_platform_exposures r)"
    and "0 \<le> x" "0 \<le> ta_yes_exposure a" "0 \<le> ta_no_exposure a"
    and "ta_platform a \<noteq> Some []" "ta_yes_platform a \<noteq> Some []" "ta_no_platform a \<noteq> Some []"
    and "r' = release_trade cid x pnl' a (record_trade cid x pnl a r)"
  shows "dget (rm_open_positions r') k 0 = dget (rm_open_positions r) k 0
    \<and> dget (rm_platform_exposures r') pl 0 = dget (rm_platform_exposures r) pl 0
    \<and> rm_daily_trades r' = rm_daily_trades r + 1
    \<and> rm_daily_pnl r' = rm_daily_pnl r + pnl + pnl'"
  by (simp_all add: assms(9) release_record_positions[OF assms(1,3)]
      release_record_platforms[OF assms(2-8)])
    (simp add: release_trade_def record_trade_def Let_def)

definition demo_trade :: trade_args where
  "demo_trade = \<lparr>ta_platform = None, ta_yes_platform = Some ''kalshi'',
     ta_no_platform = Some ''polymarket'', ta_yes_exposure = 20, ta_no_exposure = 25\<rparr>"

theorem release_undoes_record_witness:
  "dget (rm_open_positions (release_trade ''A'' 45 1 demo_trade (record_trade ''A'' 45 2 demo_trade
      (new_risk_manager no_risk_env default_scanner_config None 0)))) ''A'' 0 = 0"
  using release_undoes_record[of None "new_risk_manager no_risk_env default_scanner_config None 0" None 45
      demo_trade _ "''A''" 1 2 "''A''" "''kalshi''"]
  by (simp add: new_risk_manager_def demo_trade_def)

text \<open>The window: a trade limit or a loss reached yesterday does not block today.\<close>

lemma window_rolls:
  assumes "utc_day now \<noteq> rm_daily_window_day r" "0 < rm_max_daily_trades r" "rm_max_daily_loss r < 0"
  shows "check_limits p (roll_daily_window now r) \<notin> {DailyTradeLimit, DailyLossLimit}"
    and "rm_open_positions (roll_daily_window now r) = rm_open_positions r"
  using assms by (auto simp: check_limits_def roll_daily_window_def Let_def split: option.split)

end
