(* ===== verification/Supervisor.thy ===== *)
theory Supervisor
  imports Orders
begin

text \<open>
  The kill switch: \<open>SafetySupervisor\<close> of \<open>arbiter/safety/supervisor.py\<close> with the event store
  and the Redis mirror of \<open>arbiter/safety/persistence.py\<close>.  Every operation runs under the state
  lock, so it is one step.  What the outside does during a step is its environment: whether Redis
  and the event store accept a write and what each adapter's \<open>cancel_all\<close> ends with; the notifier
  only receives.
\<close>

section \<open>State\<close>

record safety_state =
  ks_armed :: bool
  ks_armed_by :: "string option"
  ks_armed_at :: flt
  ks_armed_reason :: string
  ks_cooldown_until :: flt
  ks_last_reset_at :: flt
  ks_last_reset_by :: string

definition initial_safety_state :: safety_state where
  "initial_safety_state = \<lparr>ks_armed = False, ks_armed_by = None, ks_armed_at = 0,
     ks_armed_reason = [], ks_cooldown_until = 0, ks_last_reset_at = 0, ks_last_reset_by = []\<rparr>"

text \<open>\<open>SafetyState.to_dict\<close>: the state and the cooldown remaining at the time of the call.\<close>

definition state_to_dict :: "flt \<Rightarrow> safety_state \<Rightarrow> safety_state \<times> flt" where
  "state_to_dict now s = (s, max (ks_cooldown_until s - now) 0)"

datatype cancel_outcome = CancelIds "string list" | CancelNone | CancelTimeout | CancelRaised

record safety_event =
  sev_type :: string
  sev_actor :: string
  sev_reason :: string
  sev_state :: "safety_state \<times> flt"
  sev_cancelled_counts :: "(string, nat) dict"

datatype published_event =
    KillSwitch "safety_state \<times> flt"
  | ShuttingDown flt string
  | ShutdownComplete flt
  | OneLegExposure incident

datatype safety_notice =
    KillArmed string string "(string, nat) dict"
  | KillReset string string
  | KillRestored string
  | NakedPosition string string string int flt string

record supervisor =
  sv_min_cooldown :: flt
  sv_adapters :: "string list"
  sv_state :: safety_state
  sv_subscribers :: "published_event queue list"
  sv_redis :: "bool option"
  sv_store :: "safety_event list option"
  sv_notices :: "(string \<times> safety_notice) list"
  sv_db_write_failed :: bool

text \<open>
  \<open>sv_redis\<close> is the flag held by Redis, \<open>None\<close> without a client; \<open>sv_store\<close> the rows of
  \<open>safety_events\<close>, oldest first, \<open>None\<close> without a store; \<open>sv_db_write_failed\<close> the engine's flag
  that the reset clears.
\<close>

record safety_env =
  se_redis_ok :: bool
  se_store_ok :: bool
  se_cancel :: "string \<Rightarrow> cancel_outcome"

definition new_supervisor :: "flt \<Rightarrow> string list \<Rightarrow> bool option \<Rightarrow> safety_event list option \<Rightarrow> supervisor" where
  "new_supervisor cooldown adapters redis store =
     \<lparr> sv_min_cooldown = cooldown, sv_adapters = adapters, sv_state = initial_safety_state,
       sv_subscribers = [], sv_redis = redis, sv_store = store, sv_notices = [],
       sv_db_write_failed = False \<rparr>"

definition is_armed :: "supervisor \<Rightarrow> bool" where
  "is_armed s = ks_armed (sv_state s)"

definition armed_by :: "supervisor \<Rightarrow> string option" where
  "armed_by s = ks_armed_by (sv_state s)"

definition sv_subscribe :: "supervisor \<Rightarrow> supervisor" where
  "sv_subscribe s = s\<lparr>sv_subscribers := sv_subscribers s @ [\<lparr>q_maxsize = 100, q_items = []\<rparr>]\<rparr>"

definition sv_publish :: "published_event \<Rightarrow> supervisor \<Rightarrow> supervisor" where
  "sv_publish e s = s\<lparr>sv_subscribers := publish e (sv_subscribers s)\<rparr>"

definition sv_notify :: "string \<Rightarrow> safety_notice \<Rightarrow> supervisor \<Rightarrow> supervisor" where
  "sv_notify key n s = s\<lparr>sv_notices := sv_notices s @ [(key, n)]\<rparr>"

definition sv_set_redis :: "bool \<Rightarrow> safety_env \<Rightarrow> supervisor \<Rightarrow> supervisor" where
  "sv_set_redis b env s =
     (case sv_redis s of None \<Rightarrow> s
      | Some old \<Rightarrow> if se_redis_ok env then s\<lparr>sv_redis := Some b\<rparr> else s)"

definition insert_safety_event :: "safety_event \<Rightarrow> safety_env \<Rightarrow> supervisor \<Rightarrow> supervisor" where
  "insert_safety_event e env s =
     (case sv_store s of None \<Rightarrow> s
      | Some rows \<Rightarrow> if se_store_ok env then s\<lparr>sv_store := Some (rows @ [e])\<rparr> else s)"

definition cancel_all_adapters :: "safety_env \<Rightarrow> supervisor \<Rightarrow> (string, nat) dict" where
  "cancel_all_adapters env s =
     map (\<lambda>pl. (pl, case se_cancel env pl of CancelIds ids \<Rightarrow> length ids | _ \<Rightarrow> 0)) (sv_adapters s)"

section \<open>The gate\<close>

datatype gate_context = NoContext | NotTripped | TrippedState "safety_state \<times> flt"

definition allow_execution :: "flt \<Rightarrow> opportunity \<Rightarrow> supervisor \<Rightarrow> bool \<times> string \<times> gate_context" where
  "allow_execution now p s =
     (if ks_armed (sv_state s)
      then (False, ''Kill switch armed: '' @ or_str (ks_armed_reason (sv_state s)) ''manual'',
            TrippedState (state_to_dict now (sv_state s)))
      else (True, ''safety supervisor approved'', NotTripped))"

section \<open>Transitions\<close>

definition trip_kill :: "string \<Rightarrow> string \<Rightarrow> bool \<Rightarrow> flt \<Rightarrow> safety_env \<Rightarrow> supervisor \<Rightarrow> supervisor" where
  "trip_kill actor reason persist now env s0 =
     (if ks_armed (sv_state s0) then s0
      else let st = initial_safety_state\<lparr>ks_armed := True, ks_armed_by := Some actor, ks_armed_at := now,
                      ks_armed_reason := reason, ks_cooldown_until := now + sv_min_cooldown s0\<rparr>;
               s1 = s0\<lparr>sv_state := st\<rparr>;
               counts = cancel_all_adapters env s1;
               s2 = sv_notify (''kill_armed:'' @ actor) (KillArmed actor reason counts) s1;
               s3 = (if persist then sv_set_redis True env s2 else s2);
               s4 = insert_safety_event
                      \<lparr>sev_type = ''arm'', sev_actor = actor, sev_reason = reason,
                       sev_state = state_to_dict now st, sev_cancelled_counts = counts\<rparr> env s3
           in sv_publish (KillSwitch (state_to_dict now st)) s4)"

text \<open>\<open>Inl\<close> is the \<open>ValueError\<close> of a reset inside the cooldown, with the remaining seconds.\<close>

definition reset_kill ::
  "string \<Rightarrow> string \<Rightarrow> flt \<Rightarrow> safety_env \<Rightarrow> supervisor \<Rightarrow> supervisor \<times> (flt + safety_state)" where
  "reset_kill actor msg now env s0 =
     (if ks_armed (sv_state s0) \<and> now < ks_cooldown_until (sv_state s0)
      then (s0, Inl (ks_cooldown_until (sv_state s0) - now))
      else let st = initial_safety_state\<lparr>ks_last_reset_at := now, ks_last_reset_by := actor\<rparr>;
               s1 = s0\<lparr>sv_state := st\<rparr>;
               s2 = sv_notify (''kill_reset:'' @ actor) (KillReset actor msg) s1;
               s3 = sv_set_redis False env s2;
               s4 = insert_safety_event
                      \<lparr>sev_type = ''reset'', sev_actor = actor,
                       sev_reason = or_str msg ''operator reset'',
                       sev_state = state_to_dict now st, sev_cancelled_counts = []\<rparr> env s3;
               s5 = (if sv_db_write_failed s4 then s4\<lparr>sv_db_write_failed := False\<rparr> else s4)
           in (sv_publish (KillSwitch (state_to_dict now st)) s5, Inr st))"

definition list_events :: "int \<Rightarrow> int \<Rightarrow> safety_event list \<Rightarrow> safety_event list" where
  "list_events limit offset rows =
     take (nat (max 1 (min limit 500))) (drop (nat (max 0 offset)) (rev rows))"

definition lookup_last_arm_reason :: "supervisor \<Rightarrow> string option" where
  "lookup_last_arm_reason s =
     (case sv_store s of None \<Rightarrow> None
      | Some rows \<Rightarrow>
          (case filter (\<lambda>e. sev_type e = ''arm'') (list_events 10 0 rows) of
             [] \<Rightarrow> None
           | e # es \<Rightarrow> Some (py_strip (or_str (sev_reason e) ''unknown'' @ '' (armed_by=''
                              @ or_str (sev_actor e) ''unknown'' @ '')''))))"

definition restore_from_redis :: "flt \<Rightarrow> safety_env \<Rightarrow> supervisor \<Rightarrow> supervisor" where
  "restore_from_redis now env s0 =
     (if sv_redis s0 \<noteq> Some True \<or> \<not> se_redis_ok env then s0
      else if ks_armed (sv_state s0) then s0
      else let prior = (case lookup_last_arm_reason s0 of None \<Rightarrow> ''unknown'' | Some r \<Rightarrow> or_str r ''unknown'');
               st = initial_safety_state\<lparr>ks_armed := True, ks_armed_by := Some ''system:redis_restore'',
                      ks_armed_at := now,
                      ks_armed_reason :=
                        ''kill switch restored from persisted state (prior: '' @ prior @ '')'',
                      ks_cooldown_until := now + sv_min_cooldown s0\<rparr>;
               s1 = sv_notify ''kill_restored_from_redis'' (KillRestored prior) (s0\<lparr>sv_state := st\<rparr>);
               s2 = insert_safety_event
                      \<lparr>sev_type = ''restore'', sev_actor = ''system:redis_restore'',
                       sev_reason = ''Restored armed state on startup; prior arm: '' @ prior,
                       sev_state = state_to_dict now st, sev_cancelled_counts = []\<rparr> env s1
           in sv_publish (KillSwitch (state_to_dict now st)) s2)"

definition prepare_shutdown :: "flt \<Rightarrow> safety_env \<Rightarrow> supervisor \<Rightarrow> supervisor" where
  "prepare_shutdown now env s =
     sv_publish (ShutdownComplete now)
       (trip_kill ''system:shutdown'' ''Process shutdown signal'' False now env
         (sv_publish (ShuttingDown now ''Process shutdown signal'') s))"

text \<open>
  \<open>handle_one_leg_exposure\<close>: \<open>exposure\<close> and \<open>unwind\<close> are the entries of the incident's metadata,
  when it has them.
\<close>

definition handle_one_leg_exposure ::
  "incident \<Rightarrow> order \<Rightarrow> string \<Rightarrow> flt option \<Rightarrow> string option \<Rightarrow> supervisor \<Rightarrow> supervisor" where
  "handle_one_leg_exposure inc filled cid exposure unwind s =
     (let exposure_usd = (case exposure of Some x \<Rightarrow> x
                          | None \<Rightarrow> of_int (ord_fill_qty filled) * ord_fill_price filled);
          instruction = (case unwind of Some u \<Rightarrow> u | None \<Rightarrow> ''Close exposure manually'');
          s1 = sv_notify (''one_leg:'' @ cid)
                 (NakedPosition cid (ord_platform filled) (ord_side filled) (ord_fill_qty filled)
                    exposure_usd instruction) s;
          payload = inc\<lparr>inc_canonical_id := or_str (inc_canonical_id inc) cid\<rparr>
      in sv_publish (OneLegExposure payload) s1)"

section \<open>The trade gate as an interface\<close>

text \<open>
  What the engine relies on: a gate that denies every opportunity while its owner is blocked.  The
  readiness gate of the chain is such a parameter too; whatever it answers, the chain denies while
  the kill switch is armed.
\<close>

locale trade_gate =
  fixes gate :: "'s \<Rightarrow> opportunity \<Rightarrow> bool"
    and blocked :: "'s \<Rightarrow> bool"
  assumes blocked_denies: "blocked s \<Longrightarrow> \<not> gate s p"
begin

lemma chain_denies: "blocked s \<Longrightarrow> \<not> (first s p \<and> gate s p)"
  by (simp add: blocked_denies)

lemma allowed_not_blocked: "gate s p \<Longrightarrow> \<not> blocked s"
  using blocked_denies by blast

lemma filter_blocked: "blocked s \<Longrightarrow> filter (gate s) ps = []"
  by (simp add: blocked_denies)

end

definition chained_gate :: "(opportunity \<Rightarrow> bool) \<Rightarrow> flt \<Rightarrow> supervisor \<Rightarrow> opportunity \<Rightarrow> bool" where
  "chained_gate readiness now s p = (if \<not> readiness p then False else fst (allow_execution now p s))"

interpretation kill_switch: trade_gate "\<lambda>s p. fst (allow_execution now p s)" is_armed
  by unfold_locales (simp add: allow_execution_def is_armed_def)

interpretation chained: trade_gate "chained_gate readiness now" is_armed
  by unfold_locales (simp add: chained_gate_def kill_switch.blocked_denies)

section \<open>The state machine\<close>

datatype supervisor_event =
    SvTrip string string bool flt safety_env
  | SvReset string string flt safety_env
  | SvRestore flt safety_env
  | SvShutdown flt safety_env
  | SvOneLeg incident order string "flt option" "string option"
  | SvSubscribe
  | SvDbFailed

primrec supervisor_step :: "supervisor_event \<Rightarrow> supervisor \<Rightarrow> supervisor" where
  "supervisor_step (SvTrip actor reason persist now env) s = trip_kill actor reason persist now env s"
| "supervisor_step (SvReset actor msg now env) s = fst (reset_kill actor msg now env s)"
| "supervisor_step (SvRestore now env) s = restore_from_redis now env s"
| "supervisor_step (SvShutdown now env) s = prepare_shutdown now env s"
| "supervisor_step (SvOneLeg inc leg cid x u) s = handle_one_leg_exposure inc leg cid x u s"
| "supervisor_step SvSubscribe s = sv_subscribe s"
| "supervisor_step SvDbFailed s = s\<lparr>sv_db_write_failed := True\<rparr>"

lemma helper_state [simp]:
  "sv_state (sv_publish e s) = sv_state s" "sv_state (sv_notify k n s) = sv_state s"
  "sv_state (sv_set_redis b env s) = sv_state s" "sv_state (insert_safety_event r env s) = sv_state s"
  "sv_state (sv_subscribe s) = sv_state s"
  "sv_store (sv_publish e s) = sv_store s" "sv_store (sv_notify k n s) = sv_store s"
  "sv_store (sv_set_redis b env s) = sv_store s" "sv_store (sv_subscribe s) = sv_store s"
  "sv_redis (sv_publish e s) = sv_redis s" "sv_redis (sv_notify k n s) = sv_redis s"
  "sv_redis (insert_safety_event r env s) = sv_redis s" "sv_redis (sv_subscribe s) = sv_redis s"
  "sv_min_cooldown (sv_publish e s) = sv_min_cooldown s"
  "sv_min_cooldown (sv_notify k n s) = sv_min_cooldown s"
  "sv_min_cooldown (sv_set_redis b env s) = sv_min_cooldown s"
  "sv_min_cooldown (insert_safety_event r env s) = sv_min_cooldown s"
  "sv_min_cooldown (sv_subscribe s) = sv_min_cooldown s"
  by (simp_all add: sv_publish_def sv_notify_def sv_set_redis_def insert_safety_event_def
      sv_subscribe_def split: option.split)

lemma helper_store [simp]:
  "sv_store (insert_safety_event r env s)
     = (if se_store_ok env then map_option (\<lambda>rows. rows @ [r]) (sv_store s) else sv_store s)"
  "sv_redis (sv_set_redis b env s)
     = (if se_redis_ok env then map_option (\<lambda>old. b) (sv_redis s) else sv_redis s)"
  by (simp_all add: insert_safety_event_def sv_set_redis_def split: option.split)

lemma one_leg_state [simp]:
  "sv_state (handle_one_leg_exposure inc leg cid x u s) = sv_state s"
  "sv_store (handle_one_leg_exposure inc leg cid x u s) = sv_store s"
  "sv_redis (handle_one_leg_exposure inc leg cid x u s) = sv_redis s"
  "sv_min_cooldown (handle_one_leg_exposure inc leg cid x u s) = sv_min_cooldown s"
  by (simp_all add: handle_one_leg_exposure_def Let_def)

text \<open>The events that cannot disarm before \<open>limit\<close>: everything but a late reset.\<close>

primrec no_late_reset :: "flt \<Rightarrow> supervisor_event \<Rightarrow> bool" where
  "no_late_reset limit (SvReset actor msg now env) = (now < limit)"
| "no_late_reset limit (SvTrip actor reason persist now env) = True"
| "no_late_reset limit (SvRestore now env) = True"
| "no_late_reset limit (SvShutdown now env) = True"
| "no_late_reset limit (SvOneLeg inc leg cid x u) = True"
| "no_late_reset limit SvSubscribe = True"
| "no_late_reset limit SvDbFailed = True"

lemma armed_step:
  assumes "is_armed s" "no_late_reset (ks_cooldown_until (sv_state s)) e"
  shows "sv_state (supervisor_step e s) = sv_state s"
  using assms
  by (cases e) (simp_all add: is_armed_def trip_kill_def reset_kill_def restore_from_redis_def
      prepare_shutdown_def)

lemma armed_run:
  assumes "is_armed s" "list_all (no_late_reset (ks_cooldown_until (sv_state s))) es"
  shows "sv_state (fold supervisor_step es s) = sv_state s"
  using assms
proof (induction es arbitrary: s)
  case (Cons e es)
  then show ?case using armed_step[of s e] by (simp add: is_armed_def)
qed simp

text \<open>
  C22.  The kill switch latches: once armed, no sequence of trips, shutdowns, restores, one-leg
  alerts and resets attempted before the cooldown has run changes its state, and every opportunity
  is denied through the chained gate all along, whatever the readiness layer answers.
\<close>

theorem kill_switch_latches:
  assumes "is_armed s" "list_all (no_late_reset (ks_cooldown_until (sv_state s))) es"
  shows "sv_state (fold supervisor_step es s) = sv_state s
    \<and> \<not> chained_gate readiness now (fold supervisor_step es s) p"
proof -
  have st: "sv_state (fold supervisor_step es s) = sv_state s"
    by (rule armed_run[OF assms])
  then have "is_armed (fold supervisor_step es s)" using assms(1) by (simp add: is_armed_def)
  with st show ?thesis using chained.blocked_denies by blast
qed

definition demo_env :: safety_env where
  "demo_env = \<lparr>se_redis_ok = True, se_store_ok = True, se_cancel = (\<lambda>pl. CancelIds [''o1''])\<rparr>"

definition demo_armed :: supervisor where
  "demo_armed = trip_kill ''operator'' ''test'' True 100 demo_env
     (new_supervisor 30 [''kalshi''] (Some False) (Some []))"

lemma demo_armed_state: "is_armed demo_armed" "ks_cooldown_until (sv_state demo_armed) = 130"
  by (simp_all add: demo_armed_def is_armed_def trip_kill_def new_supervisor_def
      initial_safety_state_def Let_def)

theorem kill_switch_latches_witness:
  "\<not> chained_gate (\<lambda>p. True) 200
     (fold supervisor_step [SvReset ''operator'' [] 129 demo_env, SvShutdown 150 demo_env] demo_armed)
     demo_opp"
  using kill_switch_latches[of demo_armed "[SvReset ''operator'' [] 129 demo_env, SvShutdown 150 demo_env]"
      "\<lambda>p. True" 200 demo_opp]
  by (simp add: demo_armed_state)

section \<open>The audit trail\<close>

text \<open>
  The abstract reading of \<open>safety_events\<close>: the switch is armed when the newest row is an arm or
  a restore.
\<close>

definition replayed :: "safety_event list \<Rightarrow> bool" where
  "replayed rows = (rows \<noteq> [] \<and> sev_type (last rows) \<noteq> ''reset'')"

definition trail_ok :: "supervisor \<Rightarrow> bool" where
  "trail_ok s = (case sv_store s of None \<Rightarrow> False | Some rows \<Rightarrow> replayed rows = is_armed s)"

primrec store_up :: "supervisor_event \<Rightarrow> supervisor \<Rightarrow> bool" where
  "store_up (SvTrip actor reason persist now env) s = se_store_ok env"
| "store_up (SvReset actor msg now env) s = se_store_ok env"
| "store_up (SvRestore now env) s = se_store_ok env"
| "store_up (SvShutdown now env) s = se_store_ok env"
| "store_up (SvOneLeg inc leg cid x u) s = True"
| "store_up SvSubscribe s = True"
| "store_up SvDbFailed s = True"

lemma is_armed_publish [simp]: "is_armed (sv_publish e s) = is_armed s"
  by (simp add: is_armed_def)

lemma trip_store:
  "sv_store (trip_kill actor reason persist now env s) =
     (if is_armed s then sv_store s
      else let st = sv_state (trip_kill actor reason persist now env s)
           in if se_store_ok env then map_option (\<lambda>rows. rows @
                [\<lparr>sev_type = ''arm'', sev_actor = actor, sev_reason = reason,
                  sev_state = state_to_dict now st,
                  sev_cancelled_counts = cancel_all_adapters env (s\<lparr>sv_state := st\<rparr>)\<rparr>]) (sv_store s)
              else sv_store s)"
  by (simp add: trip_kill_def is_armed_def Let_def)

lemma trip_armed [simp]: "is_armed (trip_kill actor reason persist now env s)"
  by (simp add: trip_kill_def is_armed_def Let_def)

lemma trip_trail: "se_store_ok env \<Longrightarrow> trail_ok s \<Longrightarrow> trail_ok (trip_kill actor reason persist now env s)"
  unfolding trail_ok_def trip_store
  by (auto simp: Let_def replayed_def split: option.splits)

lemma publish_trail [simp]: "trail_ok (sv_publish e s) = trail_ok s"
  by (simp add: trail_ok_def split: option.split)

interpretation trail: guarded_machine supervisor_step store_up trail_ok
proof unfold_locales
  fix s :: supervisor and e :: supervisor_event
  assume ok: "trail_ok s" and up: "store_up e s"
  show "trail_ok (supervisor_step e s)"
  proof (cases e)
    case (SvTrip actor reason persist now env)
    with ok up trip_trail show ?thesis by simp
  next
    case (SvReset actor msg now env)
    with ok up show ?thesis
      by (auto simp: reset_kill_def trail_ok_def is_armed_def replayed_def initial_safety_state_def
          Let_def split: option.splits)
  next
    case (SvRestore now env)
    with ok up show ?thesis
      by (auto simp: restore_from_redis_def trail_ok_def is_armed_def replayed_def Let_def
          split: option.splits)
  next
    case (SvShutdown now env)
    with ok up show ?thesis by (simp add: prepare_shutdown_def trip_trail)
  qed (use ok in \<open>simp_all add: trail_ok_def is_armed_def split: option.splits\<close>)
qed

text \<open>
  C28.  The audit trail is faithful within a process: from a new supervisor with an empty event store on, while
  the store accepts every write, reading the newest row of \<open>safety_events\<close> tells whether the switch is armed,
  after any history of trips, resets, refused resets, restores and shutdowns.  It is not so over a
  restart, which disarms and writes no row (lemma \<open>restart_leaves_trail\<close>).
\<close>

theorem audit_trail_replays:
  assumes "guarded_run supervisor_step store_up es (new_supervisor cooldown adapters redis (Some []))"
    and "s = fold supervisor_step es (new_supervisor cooldown adapters redis (Some []))"
  shows "\<exists>rows. sv_store s = Some rows \<and> replayed rows = is_armed s"
proof -
  have "trail_ok (new_supervisor cooldown adapters redis (Some []))"
    by (simp add: trail_ok_def new_supervisor_def replayed_def is_armed_def initial_safety_state_def)
  from trail.guarded_run_inv[OF this assms(1)] show ?thesis
    by (auto simp: assms(2) trail_ok_def split: option.splits)
qed

theorem audit_trail_replays_witness:
  "\<exists>rows. sv_store (fold supervisor_step [SvTrip ''operator'' ''test'' True 100 demo_env,
        SvReset ''operator'' [] 120 demo_env, SvReset ''operator'' [] 130 demo_env]
        (new_supervisor 30 [] None (Some []))) = Some rows \<and> \<not> replayed rows"
proof -
  let ?es = "[SvTrip ''operator'' ''test'' True 100 demo_env,
        SvReset ''operator'' [] 120 demo_env, SvReset ''operator'' [] 130 demo_env]"
  let ?s = "fold supervisor_step ?es (new_supervisor 30 [] None (Some []))"
  have "guarded_run supervisor_step store_up ?es (new_supervisor 30 [] None (Some []))"
    by (simp add: demo_env_def)
  from audit_trail_replays[OF this refl]
  obtain rows where "sv_store ?s = Some rows" "replayed rows = is_armed ?s" by blast
  moreover have "\<not> is_armed ?s"
    by (simp add: is_armed_def trip_kill_def reset_kill_def new_supervisor_def
        initial_safety_state_def Let_def)
  ultimately show ?thesis by blast
qed

section \<open>Restarts\<close>

definition restart :: "supervisor \<Rightarrow> supervisor" where
  "restart s = new_supervisor (sv_min_cooldown s) (sv_adapters s) (sv_redis s) (sv_store s)"

lemma trip_redis:
  "sv_redis (trip_kill actor reason persist now env s) =
     (if \<not> is_armed s \<and> persist \<and> se_redis_ok env then map_option (\<lambda>old. True) (sv_redis s)
      else sv_redis s)"
  by (simp add: trip_kill_def is_armed_def Let_def)

lemma restore_armed:
  assumes "\<not> is_armed s"
  shows "is_armed (restore_from_redis now env s) \<longleftrightarrow> sv_redis s = Some True \<and> se_redis_ok env"
  using assms by (simp add: restore_from_redis_def is_armed_def Let_def)

lemma restart_disarmed [simp]: "\<not> is_armed (restart s)" "sv_redis (restart s) = sv_redis s"
  by (simp_all add: restart_def new_supervisor_def is_armed_def initial_safety_state_def)

lemma restart_leaves_trail:
  "trail_ok s \<Longrightarrow> is_armed s \<Longrightarrow> sv_store s = Some rows
   \<Longrightarrow> sv_store (restart s) = Some rows \<and> replayed rows \<and> \<not> is_armed (restart s)"
  by (simp add: trail_ok_def restart_def new_supervisor_def is_armed_def initial_safety_state_def)

text \<open>
  A trip survives a restart and a shutdown does not: with Redis up, a process that was
  disarmed when an operator or an incident tripped the switch comes back armed and denies every
  opportunity; one that was only drained by its shutdown comes back with the flag Redis had
  before.
\<close>

theorem trip_survives_restart:
  assumes "\<not> is_armed s" "sv_redis s = Some flag" "se_redis_ok env" "se_redis_ok env'"
  shows "is_armed (restore_from_redis t' env' (restart (trip_kill actor reason True t env s)))
    \<and> \<not> fst (allow_execution now p
          (restore_from_redis t' env' (restart (trip_kill actor reason True t env s))))
    \<and> is_armed (restore_from_redis t' env' (restart (prepare_shutdown t env s))) = flag"
proof -
  have armed: "is_armed (restore_from_redis t' env' (restart (trip_kill actor reason True t env s)))"
    using assms by (simp add: restore_armed trip_redis)
  moreover have "sv_redis (prepare_shutdown t env s) = Some flag"
    using assms(2) by (simp add: prepare_shutdown_def trip_redis)
  then have "is_armed (restore_from_redis t' env' (restart (prepare_shutdown t env s))) = flag"
    using assms(4) by (simp add: restore_armed)
  ultimately show ?thesis using kill_switch.blocked_denies by blast
qed

theorem trip_survives_restart_witness:
  "is_armed (restore_from_redis 200 demo_env (restart (trip_kill ''operator'' ''test'' True 100 demo_env
     (new_supervisor 30 [''kalshi''] (Some False) (Some [])))))"
  using trip_survives_restart[of "new_supervisor 30 [''kalshi''] (Some False) (Some [])" False
      demo_env demo_env 200 "''operator''" "''test''" 100 0 demo_opp]
  by (simp add: new_supervisor_def is_armed_def initial_safety_state_def demo_env_def)

text \<open>
  A trip that comes after the shutdown has begun is a no-op, so it is not written to Redis: the
  next process starts disarmed although an incident asked for the switch.
\<close>

lemma trip_during_shutdown_lost:
  assumes "\<not> is_armed s" "sv_redis s = Some False"
  shows "\<not> is_armed (restore_from_redis t' env'
           (restart (trip_kill actor reason True t2 env2 (prepare_shutdown t env s))))"
  using assms by (simp add: restore_armed trip_redis prepare_shutdown_def)

text \<open>A trip is idempotent, and the first one cancels, notifies and audits exactly once.\<close>

lemma trip_idempotent:
  "trip_kill actor' reason' persist' t' env' (trip_kill actor reason persist t env s)
     = trip_kill actor reason persist t env s"
proof -
  have "ks_armed (sv_state (trip_kill actor reason persist t env s))"
    using trip_armed by (simp add: is_armed_def del: trip_armed)
  then show ?thesis by (simp add: trip_kill_def[of actor'])
qed

lemma trip_effects:
  assumes "\<not> is_armed s" "se_store_ok env" "sv_store s = Some rows"
  shows "\<exists>row. sv_store (trip_kill actor reason persist t env s) = Some (rows @ [row])
    \<and> sev_type row = ''arm'' \<and> sev_actor row = actor
    \<and> map fst (sev_cancelled_counts row) = sv_adapters s
    \<and> length (sv_notices (trip_kill actor reason persist t env s)) = Suc (length (sv_notices s))"
  using assms
  by (auto simp: trip_kill_def is_armed_def Let_def cancel_all_adapters_def sv_publish_def
      insert_safety_event_def sv_set_redis_def sv_notify_def comp_def split: option.split)

end
