(* ===== verification/Engine.thy ===== *)
theory Engine
  imports Fees Config Market_Map Price_Store Math_Auditor Orders Risk_Manager Supervisor
begin

text \<open>
  \<open>ExecutionEngine\<close> of \<open>arbiter/execution/engine.py\<close>: the pipeline from an opportunity to a
  simulated execution, a queued manual one, or the hand-over to live order placement; the manual
  workflow; incidents.  What is awaited on the way (the trade gate, the price store and Redis, the
  adapters' order books, the database) is the environment of a step.  The placement of live orders
  itself is not modelled: the pipeline ends in \<open>GoLive\<close>.
\<close>

section \<open>State and environment\<close>

record engine =
  en_config :: scanner_config
  en_risk :: risk_manager
  en_auditor :: math_auditor
  en_safety :: supervisor
  en_executions :: "arb_execution list"
  en_execution_count :: nat
  en_subscribers :: "arb_execution queue list"
  en_incident_subscribers :: "incident queue list"
  en_incidents :: "incident list"
  en_manual_positions :: "manual_position list"
  en_recent_signatures :: "(string, flt) dict"
  en_signatures_last_pruned :: flt
  en_aborted_count :: int
  en_manual_count :: int
  en_recovery_count :: int
  en_naked_leg_count :: int
  en_naked_leg_exposure_usd :: flt

datatype bbo_result = NoBbo | BboFailed | Bbo flt flt

text \<open>
  \<open>xe_gate\<close> is the configured trade gate (\<open>\<lambda>s p. True\<close> without one), \<open>xe_bbo\<close> the best bid and
  ask an adapter returns for a market (\<open>NoBbo\<close> when the venue has no adapter that can), \<open>xe_db\<close>
  whether a database is wired and accepts the write, \<open>xe_seq\<close> the value drawn from the arb-id
  sequence, \<open>xe_uuid\<close> the random part of an incident id.
\<close>

record exec_env =
  xe_now :: flt
  xe_gate :: "supervisor \<Rightarrow> opportunity \<Rightarrow> bool"
  xe_mapping :: "string \<Rightarrow> mapping_dict option"
  xe_prices :: "price_store option"
  xe_redis :: "string \<Rightarrow> price_point option"
  xe_bbo :: "string \<Rightarrow> string \<Rightarrow> bbo_result"
  xe_db :: "bool option"
  xe_safety_env :: safety_env
  xe_seq :: "nat option"
  xe_uuid :: string

text \<open>\<open>_p5 or _mp or config.max_position_usd\<close>: the auditor's cap.\<close>

definition audit_cap :: "flt \<Rightarrow> flt \<Rightarrow> scanner_config \<Rightarrow> flt" where
  "audit_cap phase5 max_pos cfg = or_flt phase5 (or_flt max_pos (max_position_usd cfg))"

definition new_engine ::
  "risk_env \<Rightarrow> scanner_config \<Rightarrow> flt option \<Rightarrow> flt \<Rightarrow> flt \<Rightarrow> supervisor \<Rightarrow> flt \<Rightarrow> engine" where
  "new_engine renv cfg platform_limit phase5 max_pos sv now =
     \<lparr> en_config = cfg, en_risk = new_risk_manager renv cfg platform_limit now,
       en_auditor = new_auditor (audit_cap phase5 max_pos cfg), en_safety = sv, en_executions = [],
       en_execution_count = 0, en_subscribers = [], en_incident_subscribers = [],
       en_incidents = [], en_manual_positions = [], en_recent_signatures = [],
       en_signatures_last_pruned = now, en_aborted_count = 0, en_manual_count = 0,
       en_recovery_count = 0, en_naked_leg_count = 0, en_naked_leg_exposure_usd = 0 \<rparr>"

definition en_subscribe :: "engine \<Rightarrow> engine" where
  "en_subscribe en =
     en\<lparr>en_subscribers := en_subscribers en @ [\<lparr>q_maxsize = 100, q_items = []\<rparr>]\<rparr>"

definition subscribe_incidents :: "engine \<Rightarrow> engine" where
  "subscribe_incidents en =
     en\<lparr>en_incident_subscribers := en_incident_subscribers en @ [\<lparr>q_maxsize = 100, q_items = []\<rparr>]\<rparr>"

definition publish_execution :: "arb_execution \<Rightarrow> engine \<Rightarrow> engine" where
  "publish_execution ex en = en\<lparr>en_subscribers := publish ex (en_subscribers en)\<rparr>"

section \<open>Incidents\<close>

definition push_incident :: "incident \<Rightarrow> engine \<Rightarrow> engine" where
  "push_incident inc en =
     en\<lparr>en_incidents := deque_appendleft 200 (en_incidents en) inc,
        en_incident_subscribers := publish inc (en_incident_subscribers en)\<rparr>"

definition handle_db_failure ::
  "exec_env \<Rightarrow> string \<Rightarrow> string \<Rightarrow> string \<Rightarrow> engine \<Rightarrow> engine" where
  "handle_db_failure env op_name arb_id cid en =
     (let sv = en_safety en;
          en1 = en\<lparr>en_safety := sv\<lparr>sv_db_write_failed := True\<rparr>\<rparr>
      in if sv_db_write_failed sv then en1
         else let inc = \<lparr> inc_id = ''INC-DB-'' @ xe_uuid env,
                          inc_arb_id = or_str arb_id ''DB-FAILURE'', inc_canonical_id = cid,
                          inc_severity = ''critical'',
                          inc_message = (''ExecutionStore.'' @ op_name @ '' failed'', []),
                          inc_timestamp = xe_now env,
                          inc_metadata = [(''event_type'', MText ''db_write_failure''),
                                          (''op'', MText op_name)],
                          inc_status = ''open'', inc_resolved_at = 0, inc_resolution_note = [] \<rparr>;
                  en2 = push_incident inc en1
              in en2\<lparr>en_safety := trip_kill ''execution_engine:db_failure''
                        (''ExecutionStore.'' @ op_name @ '' write failed'') True (xe_now env)
                        (xe_safety_env env) (en_safety en2)\<rparr>)"

definition new_incident ::
  "exec_env \<Rightarrow> string \<Rightarrow> string \<Rightarrow> string \<Rightarrow> message \<Rightarrow> (string, meta_value) dict \<Rightarrow> incident" where
  "new_incident env arb_id cid sev msg meta =
     \<lparr> inc_id = ''INC-'' @ xe_uuid env, inc_arb_id = arb_id, inc_canonical_id = cid,
       inc_severity = sev, inc_message = msg, inc_timestamp = xe_now env,
       inc_metadata = meta, inc_status = ''open'', inc_resolved_at = 0,
       inc_resolution_note = [] \<rparr>"

definition record_incident ::
  "exec_env \<Rightarrow> string \<Rightarrow> string \<Rightarrow> string \<Rightarrow> message \<Rightarrow> (string, meta_value) dict \<Rightarrow> engine \<Rightarrow> engine" where
  "record_incident env arb_id cid sev msg meta en =
     (let en1 = push_incident (new_incident env arb_id cid sev msg meta) en
      in if xe_db env = Some False then handle_db_failure env ''insert_incident'' arb_id cid en1
         else en1)"

text \<open>\<open>_emit_rejection_incident\<close>: the reason text of the risk manager and its classification.\<close>

definition reason_text :: "risk_verdict \<Rightarrow> message" where
  "reason_text v = (case v of
       NotReady st \<Rightarrow> (''Opportunity not ready: '' @ st, [])
     | LowConfidence c \<Rightarrow> (''Low confidence: {}'', [c])
     | EdgeTooThin c \<Rightarrow> (''Edge too thin: {}c'', [c])
     | StaleQuote a \<Rightarrow> (''Stale quote: {}s'', [a])
     | DailyTradeLimit \<Rightarrow> (''Daily trade limit reached'', [])
     | DailyLossLimit \<Rightarrow> (''Daily loss limit reached'', [])
     | PerMarketLimit \<Rightarrow> (''Per-market exposure limit exceeded'', [])
     | PerPlatformLimit pl \<Rightarrow> (''Per-platform exposure limit exceeded on '' @ pl, [])
     | TotalLimit \<Rightarrow> (''Total exposure limit exceeded'', [])
     | Approved \<Rightarrow> (''approved'', []))"

fun after_last :: "string \<Rightarrow> string \<Rightarrow> string option" where
  "after_last pat [] = None"
| "after_last pat (c # cs) =
     (case after_last pat cs of
        Some r \<Rightarrow> Some r
      | None \<Rightarrow> if starts_with pat (c # cs) then Some (drop (length pat) (c # cs)) else None)"

definition rejection_type :: "string \<Rightarrow> string" where
  "rejection_type reason =
     (let r = py_lower reason
      in if contains ''per-market'' r then ''per_market''
         else if contains ''per-platform'' r then ''per_platform''
         else if contains ''total exposure'' r then ''total_exposure''
         else if contains ''daily'' r \<and> contains ''loss'' r then ''daily_loss''
         else if contains ''daily'' r \<and> contains ''trade'' r then ''daily_trades''
         else if contains ''stale'' r then ''stale_quote''
         else if contains ''confidence'' r then ''low_confidence''
         else if contains ''edge'' r then ''thin_edge''
         else if contains ''not ready'' r then ''not_ready''
         else ''unknown'')"

definition rejection_platform :: "string \<Rightarrow> (string, meta_value) dict" where
  "rejection_platform reason =
     (if rejection_type reason = ''per_platform''
      then case after_last '' on '' reason of
             None \<Rightarrow> []
           | Some pl \<Rightarrow> if py_strip pl = [] then [] else [(''platform'', MText (py_strip pl))]
      else [])"

definition emit_rejection_incident ::
  "exec_env \<Rightarrow> opportunity \<Rightarrow> risk_verdict \<Rightarrow> engine \<Rightarrow> engine" where
  "emit_rejection_incident env p v en =
     (let (reason, nums) = reason_text v;
          meta = [(''event_type'', MText ''order_rejected''),
                  (''rejection_type'', MText (rejection_type reason)),
                  (''reason'', MText reason), (''yes_platform'', MText (opp_yes_platform p)),
                  (''no_platform'', MText (opp_no_platform p)),
                  (''canonical_id'', MText (opp_canonical_id p)),
                  (''suggested_qty'', MInt (opp_suggested_qty p))] @ rejection_platform reason
      in record_incident env (''REJ-'' @ xe_uuid env) (opp_canonical_id p) ''info''
           (''Order rejected: '' @ reason, nums) meta en)"

section \<open>Ids\<close>

fun digits :: "nat \<Rightarrow> string" where
  "digits n = (if n < 10 then [char_of (48 + n)] else digits (n div 10) @ [char_of (48 + n mod 10)])"

declare digits.simps [simp del]

text \<open>\<open>ARB-{n:06d}\<close>.\<close>

definition arb_id_of :: "nat \<Rightarrow> string" where
  "arb_id_of n = ''ARB-'' @ replicate (6 - length (digits n)) (CHR ''0'') @ digits n"

definition next_arb_id :: "exec_env \<Rightarrow> engine \<Rightarrow> engine \<times> string" where
  "next_arb_id env en =
     (case xe_seq env of
        Some n \<Rightarrow> (en\<lparr>en_execution_count := max n (en_execution_count en)\<rparr>, arb_id_of n)
      | None \<Rightarrow> (let n = en_execution_count en + 1
                 in (en\<lparr>en_execution_count := n\<rparr>, arb_id_of n)))"

section \<open>Re-quoting\<close>

definition quote_desync_tolerance :: flt where "quote_desync_tolerance = 2/100"

definition fresh_ask_of :: "string \<Rightarrow> flt \<Rightarrow> flt \<Rightarrow> flt" where
  "fresh_ask_of side best_bid best_ask =
     (if side = ''yes'' then (if 0 < best_ask then best_ask else 1 - best_bid)
      else (if 0 < best_bid then 1 - best_bid else 1 - best_ask))"

definition sanity_check_quote ::
  "exec_env \<Rightarrow> string \<Rightarrow> opportunity \<Rightarrow> string \<Rightarrow> price_point \<Rightarrow> flt \<Rightarrow> engine \<Rightarrow> engine \<times> bool" where
  "sanity_check_quote env arb_id p side pp store_price en =
     (let platform = (if side = ''yes'' then opp_yes_platform p else opp_no_platform p);
          market_id = or_str (if side = ''yes'' then pp_yes_market_id pp else pp_no_market_id pp)
                        (opp_canonical_id p)
      in case xe_bbo env platform market_id of
           NoBbo \<Rightarrow> (en, True)
         | BboFailed \<Rightarrow> (en, True)
         | Bbo best_bid best_ask \<Rightarrow>
             if best_bid \<le> 0 \<and> best_ask \<le> 0 then (en, True)
             else let fresh_ask = fresh_ask_of side best_bid best_ask;
                      delta = \<bar>store_price - fresh_ask\<bar>
                  in if quote_desync_tolerance < delta
                     then (record_incident env arb_id (opp_canonical_id p) ''warning''
                             (''Quote desync on '' @ platform @ '' '' @ side
                                @ '': store={} fresh={} delta={}'', [store_price, fresh_ask, delta])
                             [(''platform'', MText platform), (''side'', MText side),
                              (''market_id'', MText market_id), (''store_price'', MNum store_price),
                              (''fresh_ask'', MNum fresh_ask), (''best_bid'', MNum best_bid),
                              (''best_ask'', MNum best_ask)] en, False)
                     else (en, True))"

definition requoted ::
  "exec_env \<Rightarrow> opportunity \<Rightarrow> price_point \<Rightarrow> price_point \<Rightarrow> opportunity" where
  "requoted env p cy cn =
     (let yes_price = pp_yes_price cy; no_price = pp_no_price cn;
          gross = 1 - yes_price - no_price;
          total_fees = (compute_fee (opp_yes_platform p) yes_price (opp_suggested_qty p) (pp_fee_rate cy)
                        + compute_fee (opp_no_platform p) no_price (opp_suggested_qty p) (pp_fee_rate cn))
                       / of_int (max (opp_suggested_qty p) 1);
          net = gross - total_fees
      in p\<lparr> opp_yes_price := yes_price, opp_no_price := no_price,
            opp_yes_market_id := or_str (pp_yes_market_id cy) (opp_yes_market_id p),
            opp_no_market_id := or_str (pp_no_market_id cn) (opp_no_market_id p),
            opp_gross_edge := gross, opp_total_fees := total_fees, opp_net_edge := net,
            opp_net_edge_cents := net * 100,
            opp_max_profit_usd := round_nd 4 (net * of_int (opp_suggested_qty p)),
            opp_quote_age_seconds := max (age_seconds (xe_now env) cy) (age_seconds (xe_now env) cn),
            opp_timestamp := xe_now env,
            opp_yes_fee_rate := pp_fee_rate cy, opp_no_fee_rate := pp_fee_rate cn \<rparr>)"

definition requote_prices ::
  "exec_env \<Rightarrow> string \<Rightarrow> opportunity \<Rightarrow> price_point \<Rightarrow> price_point \<Rightarrow> engine
   \<Rightarrow> engine \<times> opportunity option" where
  "requote_prices env arb_id p cy cn en0 =
     (let cfg = en_config en0; cid = opp_canonical_id p;
          yes_price = pp_yes_price cy; no_price = pp_no_price cn;
          (en1, yes_ok) = sanity_check_quote env arb_id p ''yes'' cy yes_price en0
      in if \<not> yes_ok then (en1, None)
         else let (en2, no_ok) = sanity_check_quote env arb_id p ''no'' cn no_price en1
              in if \<not> no_ok then (en2, None)
                 else if slippage_tolerance cfg < \<bar>yes_price - opp_yes_price p\<bar>
                         \<or> slippage_tolerance cfg < \<bar>no_price - opp_no_price p\<bar>
                 then (record_incident env arb_id cid ''warning''
                         (''Slippage exceeded tolerance during re-quote'', [])
                         [(''original_yes'', MNum (opp_yes_price p)), (''current_yes'', MNum yes_price),
                          (''original_no'', MNum (opp_no_price p)), (''current_no'', MNum no_price)] en2,
                       None)
                 else let p' = requoted env p cy cn
                      in if opp_net_edge_cents p'
                            < min_edge_for_pair cfg (opp_yes_platform p) (opp_no_platform p)
                         then (record_incident env arb_id cid ''warning''
                                 (''Edge collapsed below threshold after re-quote ({}c)'',
                                  [opp_net_edge_cents p']) [] en2, None)
                         else (en2, Some p'))"

definition fx_too_old :: "scanner_config \<Rightarrow> flt \<Rightarrow> string \<Rightarrow> price_point \<Rightarrow> bool" where
  "fx_too_old cfg now platform pp =
     (platform = ''forecastex'' \<and> max_quote_age_seconds_forecastex cfg < age_seconds now pp)"

definition pre_trade_requote ::
  "exec_env \<Rightarrow> string \<Rightarrow> opportunity \<Rightarrow> engine \<Rightarrow> engine \<times> opportunity option" where
  "pre_trade_requote env arb_id p en =
     (case xe_prices env of
        None \<Rightarrow> (en, Some p)
      | Some store \<Rightarrow>
          (let now = xe_now env; cfg = en_config en; cid = opp_canonical_id p;
               warn = (\<lambda>msg meta. (record_incident env arb_id cid ''warning'' msg meta en, None))
           in case (store_get (xe_redis env) (opp_yes_platform p) cid now store,
                    store_get (xe_redis env) (opp_no_platform p) cid now store) of
                (Some cy, Some cn) \<Rightarrow>
                  (let age = max (age_seconds now cy) (age_seconds now cn)
                   in if max_quote_age_seconds cfg < age
                      then warn (''Quotes became stale before execution ({}s)'', [age]) []
                      else if fx_too_old cfg now (opp_yes_platform p) cy
                      then warn (''ForecastEx YES quote stale ({}s > {}s)'',
                                 [age_seconds now cy, max_quote_age_seconds_forecastex cfg])
                             [(''event_type'', MText ''fx_quote_stale''), (''side'', MText ''yes'')]
                      else if fx_too_old cfg now (opp_no_platform p) cn
                      then warn (''ForecastEx NO quote stale ({}s > {}s)'',
                                 [age_seconds now cn, max_quote_age_seconds_forecastex cfg])
                             [(''event_type'', MText ''fx_quote_stale''), (''side'', MText ''no'')]
                      else requote_prices env arb_id p cy cn en)
              | _ \<Rightarrow> warn (''Missing fresh quotes during pre-trade re-quote'', []) []))"

section \<open>Audits\<close>

definition engine_audit_opportunity ::
  "exec_env \<Rightarrow> string \<Rightarrow> opportunity \<Rightarrow> engine \<Rightarrow> engine \<times> bool" where
  "engine_audit_opportunity env arb_id p en =
     (let (a, r) = audit_opportunity (xe_now env) (to_audit_dict p) (en_auditor en);
          en1 = en\<lparr>en_auditor := a\<rparr>
      in if ar_passed r then (en1, True)
         else (record_incident env arb_id (opp_canonical_id p)
                 (if has_critical (ar_flags r) then ''critical'' else ''warning'')
                 (''Shadow math audit rejected opportunity before execution'', [])
                 [(''audit'', MNested), (''summary'', MNested)] en1, False))"

definition leg_view :: "order \<Rightarrow> audit_leg" where
  "leg_view r = \<lparr>al_status = status_text (ord_status r), al_fill_price = ord_fill_price r,
     al_fill_qty = of_int (ord_fill_qty r)\<rparr>"

definition engine_audit_execution :: "exec_env \<Rightarrow> arb_execution \<Rightarrow> engine \<Rightarrow> engine" where
  "engine_audit_execution env ex en =
     (let (a, r) = audit_execution (xe_now env) (to_audit_dict (ex_opportunity ex))
                     (leg_view (ex_leg_yes ex)) (leg_view (ex_leg_no ex)) (en_auditor en);
          en1 = en\<lparr>en_auditor := a\<rparr>;
          is_terminal = (ex_status ex = ''filled'' \<or> ex_status ex = ''failed'')
      in if ar_passed r then en1
         else record_incident env (ex_arb_id ex) (opp_canonical_id (ex_opportunity ex))
                (if has_critical (ar_flags r) \<and> is_terminal then ''critical'' else ''warning'')
                (''Shadow execution audit flagged (trade status='' @ ex_status ex @ '')'', [])
                [(''audit'', MNested)] en1)"

section \<open>Simulated and manual executions\<close>

definition make_order ::
  "string \<Rightarrow> opportunity \<Rightarrow> string \<Rightarrow> order_status \<Rightarrow> flt \<Rightarrow> int \<Rightarrow> flt \<Rightarrow> string \<Rightarrow> order" where
  "make_order oid p side st fill_price fill_qty now err =
     \<lparr> ord_id = oid,
       ord_platform = (if side = ''yes'' then opp_yes_platform p else opp_no_platform p),
       ord_market_id = (if side = ''yes'' then opp_yes_market_id p else opp_no_market_id p),
       ord_canonical_id = opp_canonical_id p, ord_side = side,
       ord_price = (if side = ''yes'' then opp_yes_price p else opp_no_price p),
       ord_quantity = opp_suggested_qty p, ord_status = st, ord_fill_price = fill_price,
       ord_fill_qty = fill_qty, ord_timestamp = now, ord_error = err,
       ord_external_client_order_id = None, ord_idempotency_ambiguous = False \<rparr>"

definition append_execution :: "arb_execution \<Rightarrow> engine \<Rightarrow> engine" where
  "append_execution ex en = en\<lparr>en_executions := trim_executions (en_executions en @ [ex])\<rparr>"

definition simulate_execution ::
  "exec_env \<Rightarrow> string \<Rightarrow> opportunity \<Rightarrow> engine \<Rightarrow> engine \<times> arb_execution" where
  "simulate_execution env arb_id p en =
     (let now = xe_now env;
          ex = \<lparr> ex_arb_id = arb_id, ex_opportunity = p,
                 ex_leg_yes = make_order (arb_id @ ''-YES'') p ''yes'' SIMULATED (opp_yes_price p)
                                (opp_suggested_qty p) now [],
                 ex_leg_no = make_order (arb_id @ ''-NO'') p ''no'' SIMULATED (opp_no_price p)
                               (opp_suggested_qty p) now [],
                 ex_status = ''simulated'',
                 ex_realized_pnl = opp_net_edge p * of_int (opp_suggested_qty p),
                 ex_unwind_pnl = 0, ex_timestamp = now, ex_notes = [] \<rparr>;
          en1 = append_execution ex en
      in (en1\<lparr>en_risk := record_arb p (ex_realized_pnl ex) (en_risk en1)\<rparr>, ex))"

definition manual_instructions :: "opportunity \<Rightarrow> message" where
  "manual_instructions p =
     (''Manual workflow required. Buy YES on '' @ py_upper (opp_yes_platform p)
        @ '' at ${} and buy NO on '' @ py_upper (opp_no_platform p)
        @ '' at ${} for {} contracts. Confirm the manual leg in the dashboard before hedging or unwinding.'',
      [opp_yes_price p, opp_no_price p, of_int (opp_suggested_qty p)])"

definition queue_manual_execution ::
  "exec_env \<Rightarrow> string \<Rightarrow> opportunity \<Rightarrow> engine \<Rightarrow> engine \<times> arb_execution" where
  "queue_manual_execution env arb_id p en =
     (let now = xe_now env;
          pos = \<lparr> mp_id = ''MANUAL-'' @ arb_id, mp_canonical_id = opp_canonical_id p,
                  mp_description = opp_description p, mp_instructions = manual_instructions p,
                  mp_yes_platform = opp_yes_platform p, mp_no_platform = opp_no_platform p,
                  mp_quantity = opp_suggested_qty p, mp_yes_price = opp_yes_price p,
                  mp_no_price = opp_no_price p, mp_status = ''awaiting-entry'',
                  mp_timestamp = now, mp_updated_at = now, mp_entry_confirmed_at = 0,
                  mp_closed_at = 0, mp_note = [] \<rparr>;
          ex = \<lparr> ex_arb_id = arb_id, ex_opportunity = p,
                 ex_leg_yes = make_order (arb_id @ ''-YES-MANUAL'') p ''yes'' PENDING 0 0 now
                                ''Manual execution required'',
                 ex_leg_no = make_order (arb_id @ ''-NO-MANUAL'') p ''no'' PENDING 0 0 now
                               ''Manual execution required'',
                 ex_status = ''manual_pending'', ex_realized_pnl = 0, ex_unwind_pnl = 0,
                 ex_timestamp = now, ex_notes = [''Manual workflow queued''] \<rparr>;
          en1 = en\<lparr>en_manual_positions := deque_appendleft 200 (en_manual_positions en) pos,
                   en_manual_count := en_manual_count en + 1\<rparr>
      in (append_execution ex en1, ex))"

section \<open>The pipeline\<close>

datatype exec_result =
    RejectedByRisk risk_verdict
  | Duplicate
  | NotConfirmed
  | NotIdentical
  | GateBlocked
  | AuditFailed
  | RequoteAborted
  | ManualQueued arb_execution
  | Simulated arb_execution
  | GoLive string opportunity

definition signature_of :: "opportunity \<Rightarrow> string" where
  "signature_of p = opp_key p @ '':'' @ opp_status p"

definition signature_dedup_window :: flt where "signature_dedup_window = 30"

definition signature_prune_interval :: flt where "signature_prune_interval = 300"

definition prune_signatures :: "flt \<Rightarrow> engine \<Rightarrow> engine" where
  "prune_signatures now en =
     (if signature_prune_interval < now - en_signatures_last_pruned en
      then en\<lparr>en_recent_signatures :=
                 filter (\<lambda>(k, ts). now - signature_dedup_window * 4 < ts) (en_recent_signatures en),
              en_signatures_last_pruned := now\<rparr>
      else en)"

definition abort :: "engine \<Rightarrow> engine" where
  "abort en = en\<lparr>en_aborted_count := en_aborted_count en + 1\<rparr>"

definition live_resolution :: "exec_env \<Rightarrow> opportunity \<Rightarrow> string" where
  "live_resolution env p =
     py_lower (case xe_mapping env (opp_canonical_id p) of
                 None \<Rightarrow> ''pending_operator_review''
               | Some m \<Rightarrow> opt_get (m_resolution_match_status m) ''pending_operator_review'')"

text \<open>From the audited, re-quoted opportunity on.\<close>

definition finish_execution ::
  "exec_env \<Rightarrow> string \<Rightarrow> opportunity \<Rightarrow> engine \<Rightarrow> engine \<times> exec_result" where
  "finish_execution env arb_id p en =
     (if dry_run (en_config en)
      then let (en1, ex) = simulate_execution env arb_id p en
           in (publish_execution ex (engine_audit_execution env ex en1), Simulated ex)
      else (en, GoLive arb_id p))"

definition run_gated ::
  "exec_env \<Rightarrow> string \<Rightarrow> opportunity \<Rightarrow> engine \<Rightarrow> engine \<times> exec_result" where
  "run_gated env arb_id p en =
     (if opp_requires_manual p
      then let (en1, ok) = engine_audit_opportunity env arb_id p en
           in if \<not> ok then (abort en1, AuditFailed)
              else let (en2, ex) = queue_manual_execution env arb_id p en1
                   in (publish_execution ex (engine_audit_execution env ex en2), ManualQueued ex)
      else let (en1, q) = pre_trade_requote env arb_id p en
           in case q of
                None \<Rightarrow> (abort en1, RequoteAborted)
              | Some p' \<Rightarrow>
                  let (en2, ok) = engine_audit_opportunity env arb_id p' en1
                  in if \<not> ok then (abort en2, AuditFailed) else finish_execution env arb_id p' en2)"

definition execute_opportunity ::
  "exec_env \<Rightarrow> opportunity \<Rightarrow> engine \<Rightarrow> engine \<times> exec_result" where
  "execute_opportunity env p en0 =
     (let now = xe_now env;
          (risk, verdict) = check_trade now p (en_risk en0);
          en1 = en0\<lparr>en_risk := risk\<rparr>
      in if verdict \<noteq> Approved then (emit_rejection_incident env p verdict en1, RejectedByRisk verdict)
         else if now - dget (en_recent_signatures en1) (signature_of p) 0 < signature_dedup_window
         then (en1, Duplicate)
         else let en2 = prune_signatures now
                          (en1\<lparr>en_recent_signatures :=
                                 AList.update (signature_of p) now (en_recent_signatures en1)\<rparr>);
                  (en3, arb_id) = next_arb_id env en2
              in if opp_mapping_status p \<noteq> ''confirmed'' then (abort en3, NotConfirmed)
                 else if live_resolution env p \<noteq> ''identical'' then (abort en3, NotIdentical)
                 else if \<not> xe_gate env (en_safety en3) p
                 then (let en4 = abort en3
                       in if dry_run (en_config en4) then en4
                          else record_incident env arb_id (opp_canonical_id p) ''warning''
                                 (''Trade gate blocked execution: {}'', [])
                                 [(''event_type'', MText ''trade_gate_blocked''), (''gate'', MNested)] en4,
                       GateBlocked)
                 else run_gated env arb_id p en3)"

text \<open>The clamp of \<open>run\<close> before an opportunity from the queue is executed.\<close>

definition clamp_opportunity :: "flt \<Rightarrow> flt \<Rightarrow> scanner_config \<Rightarrow> opportunity \<Rightarrow> opportunity" where
  "clamp_opportunity phase5 max_pos cfg p =
     (let cap = audit_cap phase5 max_pos cfg;
          price = or_flt (opp_yes_price p) (1/100) + or_flt (opp_no_price p) (1/100);
          notional = price * of_int (opp_suggested_qty p)
      in if cap < notional \<and> 0 < cap
         then let q = max 1 (py_int (cap / price))
              in p\<lparr>opp_suggested_qty := q, opp_max_profit_usd := round_nd 4 (opp_net_edge p * of_int q)\<rparr>
         else p)"

section \<open>Daily loss, equity and statistics\<close>

text \<open>
  \<open>_maybe_halt_on_daily_loss\<close>: the loss of an unwind is booked first; a limit already crossed trips
  the kill switch.
\<close>

definition maybe_halt_on_daily_loss :: "exec_env \<Rightarrow> flt \<Rightarrow> engine \<Rightarrow> engine" where
  "maybe_halt_on_daily_loss env unwind_pnl en0 =
     (let en = (if unwind_pnl \<noteq> 0
                then en0\<lparr>en_risk := (en_risk en0)\<lparr>rm_daily_pnl := rm_daily_pnl (en_risk en0) + unwind_pnl\<rparr>\<rparr>
                else en0)
      in if rm_max_daily_loss (en_risk en) < rm_daily_pnl (en_risk en) then en
         else if is_armed (en_safety en) then en
         else en\<lparr>en_safety := trip_kill ''system:daily_loss'' ''Daily loss limit reached'' True
                     (xe_now env) (xe_safety_env env) (en_safety en)\<rparr>)"

definition last_n :: "nat \<Rightarrow> 'a list \<Rightarrow> 'a list" where
  "last_n n xs = drop (length xs - n) xs"

fun equity_points :: "flt \<Rightarrow> arb_execution list \<Rightarrow> (flt \<times> flt) list" where
  "equity_points acc [] = []"
| "equity_points acc (e # es) =
     (let acc' = acc + ex_realized_pnl e
      in (ex_timestamp e, round_nd 4 acc') # equity_points acc' es)"

definition equity_curve :: "engine \<Rightarrow> (flt \<times> flt) list" where
  "equity_curve en = equity_points 0 (last_n 120 (en_executions en))"

record engine_stats =
  est_total_executions :: nat
  est_simulated :: nat
  est_live :: nat
  est_manual :: int
  est_incidents :: nat
  est_recoveries :: int
  est_aborted :: int
  est_total_pnl :: flt
  est_dry_run :: bool
  est_naked_leg_count :: int
  est_naked_leg_exposure_usd :: flt

definition manual_statuses :: "string list" where
  "manual_statuses = [''manual_pending'', ''manual_entered'', ''manual_closed'', ''manual_cancelled'']"

definition engine_stats_of :: "engine \<Rightarrow> engine_stats" where
  "engine_stats_of en =
     \<lparr> est_total_executions = length (en_executions en),
       est_simulated = length (filter (\<lambda>e. ex_status e = ''simulated'') (en_executions en)),
       est_live = length (filter (\<lambda>e. ex_status e \<notin> set (''simulated'' # manual_statuses))
                                 (en_executions en)),
       est_manual = en_manual_count en, est_incidents = length (en_incidents en),
       est_recoveries = en_recovery_count en, est_aborted = en_aborted_count en,
       est_total_pnl = round_nd 2 (sum_list (map ex_realized_pnl (en_executions en))),
       est_dry_run = dry_run (en_config en), est_naked_leg_count = en_naked_leg_count en,
       est_naked_leg_exposure_usd = round_nd 2 (en_naked_leg_exposure_usd en) \<rparr>"

section \<open>Frames\<close>

lemma push_frame [simp]:
  "en_config (push_incident i en) = en_config en"
  "en_risk (push_incident i en) = en_risk en"
  "en_auditor (push_incident i en) = en_auditor en"
  "en_safety (push_incident i en) = en_safety en"
  "en_executions (push_incident i en) = en_executions en"
  "en_manual_positions (push_incident i en) = en_manual_positions en"
  "en_recent_signatures (push_incident i en) = en_recent_signatures en"
  "en_signatures_last_pruned (push_incident i en) = en_signatures_last_pruned en"
  "en_subscribers (push_incident i en) = en_subscribers en"
  by (simp_all add: push_incident_def)

lemma db_failure_frame [simp]:
  "en_config (handle_db_failure env op_name arb_id cid en) = en_config en"
  "en_risk (handle_db_failure env op_name arb_id cid en) = en_risk en"
  "en_auditor (handle_db_failure env op_name arb_id cid en) = en_auditor en"
  "en_executions (handle_db_failure env op_name arb_id cid en) = en_executions en"
  "en_manual_positions (handle_db_failure env op_name arb_id cid en) = en_manual_positions en"
  "en_recent_signatures (handle_db_failure env op_name arb_id cid en) = en_recent_signatures en"
  "en_signatures_last_pruned (handle_db_failure env op_name arb_id cid en) = en_signatures_last_pruned en"
  "en_subscribers (handle_db_failure env op_name arb_id cid en) = en_subscribers en"
  by (simp_all add: handle_db_failure_def Let_def)

lemma incident_frame [simp]:
  "en_config (record_incident env arb_id cid sev msg meta en) = en_config en"
  "en_risk (record_incident env arb_id cid sev msg meta en) = en_risk en"
  "en_auditor (record_incident env arb_id cid sev msg meta en) = en_auditor en"
  "en_executions (record_incident env arb_id cid sev msg meta en) = en_executions en"
  "en_manual_positions (record_incident env arb_id cid sev msg meta en) = en_manual_positions en"
  "en_recent_signatures (record_incident env arb_id cid sev msg meta en) = en_recent_signatures en"
  "en_signatures_last_pruned (record_incident env arb_id cid sev msg meta en) = en_signatures_last_pruned en"
  "en_subscribers (record_incident env arb_id cid sev msg meta en) = en_subscribers en"
  by (simp_all add: record_incident_def Let_def)

lemma rejection_frame [simp]:
  "en_config (emit_rejection_incident env p v en) = en_config en"
  "en_risk (emit_rejection_incident env p v en) = en_risk en"
  "en_auditor (emit_rejection_incident env p v en) = en_auditor en"
  "en_executions (emit_rejection_incident env p v en) = en_executions en"
  "en_manual_positions (emit_rejection_incident env p v en) = en_manual_positions en"
  "en_recent_signatures (emit_rejection_incident env p v en) = en_recent_signatures en"
  "en_signatures_last_pruned (emit_rejection_incident env p v en) = en_signatures_last_pruned en"
  "en_subscribers (emit_rejection_incident env p v en) = en_subscribers en"
  by (simp_all add: emit_rejection_incident_def split: prod.split)

lemma abort_frame [simp]:
  "en_config (abort en) = en_config en" "en_risk (abort en) = en_risk en"
  "en_auditor (abort en) = en_auditor en" "en_safety (abort en) = en_safety en"
  "en_executions (abort en) = en_executions en"
  "en_manual_positions (abort en) = en_manual_positions en"
  "en_recent_signatures (abort en) = en_recent_signatures en"
  "en_signatures_last_pruned (abort en) = en_signatures_last_pruned en"
  "en_subscribers (abort en) = en_subscribers en" "en_incidents (abort en) = en_incidents en"
  "en_incident_subscribers (abort en) = en_incident_subscribers en"
  by (simp_all add: abort_def)

lemma prune_frame [simp]:
  "en_config (prune_signatures now en) = en_config en" "en_risk (prune_signatures now en) = en_risk en"
  "en_auditor (prune_signatures now en) = en_auditor en"
  "en_safety (prune_signatures now en) = en_safety en"
  "en_executions (prune_signatures now en) = en_executions en"
  "en_manual_positions (prune_signatures now en) = en_manual_positions en"
  "en_subscribers (prune_signatures now en) = en_subscribers en"
  "en_incidents (prune_signatures now en) = en_incidents en"
  "en_incident_subscribers (prune_signatures now en) = en_incident_subscribers en"
  by (simp_all add: prune_signatures_def)

lemma arb_id_frame [simp]:
  "en_config (fst (next_arb_id env en)) = en_config en" "en_risk (fst (next_arb_id env en)) = en_risk en"
  "en_auditor (fst (next_arb_id env en)) = en_auditor en"
  "en_safety (fst (next_arb_id env en)) = en_safety en"
  "en_executions (fst (next_arb_id env en)) = en_executions en"
  "en_manual_positions (fst (next_arb_id env en)) = en_manual_positions en"
  "en_recent_signatures (fst (next_arb_id env en)) = en_recent_signatures en"
  "en_signatures_last_pruned (fst (next_arb_id env en)) = en_signatures_last_pruned en"
  "en_subscribers (fst (next_arb_id env en)) = en_subscribers en"
  "en_incidents (fst (next_arb_id env en)) = en_incidents en"
  "en_incident_subscribers (fst (next_arb_id env en)) = en_incident_subscribers en"
  by (simp_all add: next_arb_id_def Let_def split: option.split)

lemma sanity_frame [simp]:
  "en_config (fst (sanity_check_quote env arb_id p side pp x en)) = en_config en"
  "en_risk (fst (sanity_check_quote env arb_id p side pp x en)) = en_risk en"
  "en_auditor (fst (sanity_check_quote env arb_id p side pp x en)) = en_auditor en"
  "en_executions (fst (sanity_check_quote env arb_id p side pp x en)) = en_executions en"
  "en_manual_positions (fst (sanity_check_quote env arb_id p side pp x en)) = en_manual_positions en"
  "en_recent_signatures (fst (sanity_check_quote env arb_id p side pp x en)) = en_recent_signatures en"
  "en_signatures_last_pruned (fst (sanity_check_quote env arb_id p side pp x en)) = en_signatures_last_pruned en"
  "en_subscribers (fst (sanity_check_quote env arb_id p side pp x en)) = en_subscribers en"
  by (simp_all add: sanity_check_quote_def Let_def split: bbo_result.split)

lemma requote_prices_frame [simp]:
  "en_config (fst (requote_prices env arb_id p cy cn en)) = en_config en"
  "en_risk (fst (requote_prices env arb_id p cy cn en)) = en_risk en"
  "en_auditor (fst (requote_prices env arb_id p cy cn en)) = en_auditor en"
  "en_executions (fst (requote_prices env arb_id p cy cn en)) = en_executions en"
  "en_manual_positions (fst (requote_prices env arb_id p cy cn en)) = en_manual_positions en"
  "en_recent_signatures (fst (requote_prices env arb_id p cy cn en)) = en_recent_signatures en"
  "en_signatures_last_pruned (fst (requote_prices env arb_id p cy cn en)) = en_signatures_last_pruned en"
  "en_subscribers (fst (requote_prices env arb_id p cy cn en)) = en_subscribers en"
  by (simp_all add: requote_prices_def Let_def case_prod_unfold)

lemma requote_frame [simp]:
  "en_config (fst (pre_trade_requote env arb_id p en)) = en_config en"
  "en_risk (fst (pre_trade_requote env arb_id p en)) = en_risk en"
  "en_auditor (fst (pre_trade_requote env arb_id p en)) = en_auditor en"
  "en_executions (fst (pre_trade_requote env arb_id p en)) = en_executions en"
  "en_manual_positions (fst (pre_trade_requote env arb_id p en)) = en_manual_positions en"
  "en_recent_signatures (fst (pre_trade_requote env arb_id p en)) = en_recent_signatures en"
  "en_signatures_last_pruned (fst (pre_trade_requote env arb_id p en)) = en_signatures_last_pruned en"
  "en_subscribers (fst (pre_trade_requote env arb_id p en)) = en_subscribers en"
  by (simp_all add: pre_trade_requote_def Let_def split: option.split)

lemma audit_cap_kept [simp]:
  "ma_max_position_usd (fst (audit_opportunity now p a)) = ma_max_position_usd a"
  "ma_max_position_usd (fst (audit_execution now p y n a)) = ma_max_position_usd a"
  by (simp_all add: audit_opportunity_def audit_execution_def Let_def)

lemma audit_passed_iff: "ar_passed (snd (audit_opportunity now p a)) = (audit_flags (ma_max_position_usd a) p = [])"
  by (simp add: audit_opportunity_def Let_def)

lemma opp_audit_frame [simp]:
  "en_config (fst (engine_audit_opportunity env arb_id p en)) = en_config en"
  "en_risk (fst (engine_audit_opportunity env arb_id p en)) = en_risk en"
  "ma_max_position_usd (en_auditor (fst (engine_audit_opportunity env arb_id p en)))
     = ma_max_position_usd (en_auditor en)"
  "en_executions (fst (engine_audit_opportunity env arb_id p en)) = en_executions en"
  "en_manual_positions (fst (engine_audit_opportunity env arb_id p en)) = en_manual_positions en"
  "en_recent_signatures (fst (engine_audit_opportunity env arb_id p en)) = en_recent_signatures en"
  "en_signatures_last_pruned (fst (engine_audit_opportunity env arb_id p en)) = en_signatures_last_pruned en"
  "en_subscribers (fst (engine_audit_opportunity env arb_id p en)) = en_subscribers en"
  by (simp_all add: engine_audit_opportunity_def Let_def case_prod_unfold)

lemma opp_audit_ok:
  "snd (engine_audit_opportunity env arb_id p en)
     = (audit_flags (ma_max_position_usd (en_auditor en)) p = [])"
  by (simp add: engine_audit_opportunity_def Let_def case_prod_unfold audit_passed_iff to_audit_dict_def)

lemma exec_audit_frame [simp]:
  "en_config (engine_audit_execution env ex en) = en_config en"
  "en_risk (engine_audit_execution env ex en) = en_risk en"
  "en_executions (engine_audit_execution env ex en) = en_executions en"
  "en_manual_positions (engine_audit_execution env ex en) = en_manual_positions en"
  "en_recent_signatures (engine_audit_execution env ex en) = en_recent_signatures en"
  "en_signatures_last_pruned (engine_audit_execution env ex en) = en_signatures_last_pruned en"
  "en_subscribers (engine_audit_execution env ex en) = en_subscribers en"
  by (simp_all add: engine_audit_execution_def Let_def case_prod_unfold)

lemma publish_frame [simp]:
  "en_config (publish_execution ex en) = en_config en" "en_risk (publish_execution ex en) = en_risk en"
  "en_executions (publish_execution ex en) = en_executions en"
  "en_manual_positions (publish_execution ex en) = en_manual_positions en"
  "en_recent_signatures (publish_execution ex en) = en_recent_signatures en"
  "en_signatures_last_pruned (publish_execution ex en) = en_signatures_last_pruned en"
  "en_incidents (publish_execution ex en) = en_incidents en"
  "en_safety (publish_execution ex en) = en_safety en"
  by (simp_all add: publish_execution_def)

section \<open>What a re-quote guarantees\<close>

definition same_quote_as :: "scanner_config \<Rightarrow> opportunity \<Rightarrow> opportunity \<Rightarrow> bool" where
  "same_quote_as cfg p q =
     (\<bar>opp_yes_price q - opp_yes_price p\<bar> \<le> slippage_tolerance cfg
      \<and> \<bar>opp_no_price q - opp_no_price p\<bar> \<le> slippage_tolerance cfg
      \<and> min_edge_for_pair cfg (opp_yes_platform p) (opp_no_platform p) \<le> opp_net_edge_cents q)"

lemma requoted_identity [simp]:
  "opp_canonical_id (requoted env p cy cn) = opp_canonical_id p"
  "opp_suggested_qty (requoted env p cy cn) = opp_suggested_qty p"
  "opp_yes_platform (requoted env p cy cn) = opp_yes_platform p"
  "opp_no_platform (requoted env p cy cn) = opp_no_platform p"
  "opp_yes_price (requoted env p cy cn) = pp_yes_price cy"
  "opp_no_price (requoted env p cy cn) = pp_no_price cn"
  by (simp_all add: requoted_def Let_def)

lemma requote_prices_Some:
  assumes "snd (requote_prices env arb_id p cy cn en) = Some q"
  shows "q = requoted env p cy cn \<and> same_quote_as (en_config en) p q"
  using assms
  by (auto simp: requote_prices_def Let_def case_prod_unfold same_quote_as_def not_less not_le
      split: if_splits)

definition same_pair :: "opportunity \<Rightarrow> opportunity \<Rightarrow> bool" where
  "same_pair p q =
     (opp_canonical_id q = opp_canonical_id p \<and> opp_suggested_qty q = opp_suggested_qty p
      \<and> opp_yes_platform q = opp_yes_platform p \<and> opp_no_platform q = opp_no_platform p)"

lemma requote_Some:
  assumes "snd (pre_trade_requote env arb_id p en) = Some q"
  shows "same_pair p q
    \<and> (if xe_prices env = None then q = p else same_quote_as (en_config en) p q)"
proof (cases "xe_prices env")
  case None
  with assms show ?thesis by (simp add: pre_trade_requote_def same_pair_def)
next
  case (Some store)
  with assms obtain cy cn where "snd (requote_prices env arb_id p cy cn en) = Some q"
    by (auto simp: pre_trade_requote_def Let_def split: option.splits if_splits)
  from requote_prices_Some[OF this] Some show ?thesis by (auto simp: same_pair_def)
qed

section \<open>The gates of the pipeline\<close>

text \<open>What a step trades: the opportunity it simulates, queues or hands to the venues.\<close>

definition traded :: "exec_result \<Rightarrow> opportunity option" where
  "traded r = (case r of ManualQueued ex \<Rightarrow> Some (ex_opportunity ex)
     | Simulated ex \<Rightarrow> Some (ex_opportunity ex) | GoLive arb_id p \<Rightarrow> Some p | _ \<Rightarrow> None)"

lemma traded_simps [simp]:
  "traded (RejectedByRisk v) = None" "traded Duplicate = None" "traded NotConfirmed = None"
  "traded NotIdentical = None" "traded GateBlocked = None" "traded AuditFailed = None"
  "traded RequoteAborted = None" "traded (ManualQueued ex) = Some (ex_opportunity ex)"
  "traded (Simulated ex) = Some (ex_opportunity ex)" "traded (GoLive arb_id p) = Some p"
  by (simp_all add: traded_def)

definition not_duplicate :: "flt \<Rightarrow> opportunity \<Rightarrow> engine \<Rightarrow> bool" where
  "not_duplicate now p en =
     (signature_dedup_window \<le> now - dget (en_recent_signatures en) (signature_of p) 0)"

lemma execution_opportunity [simp]:
  "ex_opportunity (snd (simulate_execution env arb_id p en)) = p"
  "ex_opportunity (snd (queue_manual_execution env arb_id p en)) = p"
  by (simp_all add: simulate_execution_def queue_manual_execution_def Let_def)

lemma execute_reaches:
  assumes "execute_opportunity env p en = (en', r)"
  obtains (stopped) "traded r = None" "en_risk en' = fst (check_trade (xe_now env) p (en_risk en))"
      "en_executions en' = en_executions en" "en_manual_positions en' = en_manual_positions en"
      "en_subscribers en' = en_subscribers en" "en_config en' = en_config en"
  | (gated) en3 arb_id where "run_gated env arb_id p en3 = (en', r)"
      "snd (check_trade (xe_now env) p (en_risk en)) = Approved" "not_duplicate (xe_now env) p en"
      "opp_mapping_status p = ''confirmed''" "live_resolution env p = ''identical''"
      "xe_gate env (en_safety en) p" "en_config en3 = en_config en"
      "en_risk en3 = fst (check_trade (xe_now env) p (en_risk en))"
      "en_auditor en3 = en_auditor en" "en_executions en3 = en_executions en"
      "en_manual_positions en3 = en_manual_positions en" "en_subscribers en3 = en_subscribers en"
proof -
  define en1 where "en1 = en\<lparr>en_risk := fst (check_trade (xe_now env) p (en_risk en))\<rparr>"
  define en3 where "en3 = fst (next_arb_id env (prune_signatures (xe_now env) (en1\<lparr>en_recent_signatures :=
      AList.update (signature_of p) (xe_now env) (en_recent_signatures en1)\<rparr>)))"
  define arb_id where "arb_id = snd (next_arb_id env (prune_signatures (xe_now env) (en1\<lparr>en_recent_signatures :=
      AList.update (signature_of p) (xe_now env) (en_recent_signatures en1)\<rparr>)))"
  have frames: "en_config en3 = en_config en" "en_auditor en3 = en_auditor en"
    "en_risk en3 = fst (check_trade (xe_now env) p (en_risk en))"
    "en_executions en3 = en_executions en" "en_manual_positions en3 = en_manual_positions en"
    "en_subscribers en3 = en_subscribers en" "en_safety en3 = en_safety en"
    by (simp_all add: en3_def en1_def)
  have unfold: "execute_opportunity env p en =
    (if snd (check_trade (xe_now env) p (en_risk en)) \<noteq> Approved
     then (emit_rejection_incident env p (snd (check_trade (xe_now env) p (en_risk en))) en1,
           RejectedByRisk (snd (check_trade (xe_now env) p (en_risk en))))
     else if \<not> not_duplicate (xe_now env) p en then (en1, Duplicate)
     else if opp_mapping_status p \<noteq> ''confirmed'' then (abort en3, NotConfirmed)
     else if live_resolution env p \<noteq> ''identical'' then (abort en3, NotIdentical)
     else if \<not> xe_gate env (en_safety en3) p
     then (if dry_run (en_config (abort en3)) then abort en3
           else record_incident env arb_id (opp_canonical_id p) ''warning''
                  (''Trade gate blocked execution: {}'', [])
                  [(''event_type'', MText ''trade_gate_blocked''), (''gate'', MNested)] (abort en3),
           GateBlocked)
     else run_gated env arb_id p en3)"
    by (simp add: execute_opportunity_def Let_def case_prod_unfold en1_def en3_def arb_id_def
        not_duplicate_def not_le)
  have e1: "en_risk en1 = fst (check_trade (xe_now env) p (en_risk en))"
    "en_executions en1 = en_executions en" "en_manual_positions en1 = en_manual_positions en"
    "en_subscribers en1 = en_subscribers en" "en_config en1 = en_config en"
    by (simp_all add: en1_def)
  show ?thesis
  proof (cases "snd (check_trade (xe_now env) p (en_risk en)) = Approved
      \<and> not_duplicate (xe_now env) p en \<and> opp_mapping_status p = ''confirmed''
      \<and> live_resolution env p = ''identical'' \<and> xe_gate env (en_safety en) p")
    case True
    with assms have "run_gated env arb_id p en3 = (en', r)" by (simp add: unfold frames)
    with True gated frames show ?thesis by blast
  next
    case False
    with assms e1 frames show ?thesis
      by (intro stopped) (auto simp: unfold split: if_splits)
  qed
qed

lemma run_gated_traded:
  assumes "run_gated env arb_id p en = (en', r)" "traded r = Some q"
  shows "same_pair p q \<and> audit_flags (ma_max_position_usd (en_auditor en)) q = []
    \<and> (if opp_requires_manual p \<or> xe_prices env = None then q = p else same_quote_as (en_config en) p q)
    \<and> (case r of ManualQueued ex \<Rightarrow> opp_requires_manual p
        | Simulated ex \<Rightarrow> \<not> opp_requires_manual p \<and> dry_run (en_config en)
        | GoLive i o' \<Rightarrow> \<not> opp_requires_manual p \<and> \<not> dry_run (en_config en) | _ \<Rightarrow> False)"
proof (cases "opp_requires_manual p")
  case True
  with assms show ?thesis
    by (auto simp: run_gated_def Let_def case_prod_unfold opp_audit_ok same_pair_def split: if_splits)
next
  case False
  with assms obtain p' where p': "snd (pre_trade_requote env arb_id p en) = Some p'"
    by (cases "snd (pre_trade_requote env arb_id p en)")
      (auto simp: run_gated_def case_prod_unfold)
  with assms False have "audit_flags (ma_max_position_usd (en_auditor en)) p' = []"
    and fin: "finish_execution env arb_id p' (fst (engine_audit_opportunity env arb_id p'
        (fst (pre_trade_requote env arb_id p en)))) = (en', r)"
    by (auto simp: run_gated_def case_prod_unfold Let_def opp_audit_ok split: if_splits)
  moreover from fin assms(2) have "q = p'" "case r of ManualQueued ex \<Rightarrow> False
      | Simulated ex \<Rightarrow> dry_run (en_config en) | GoLive i o' \<Rightarrow> \<not> dry_run (en_config en) | _ \<Rightarrow> False"
    by (auto simp: finish_execution_def case_prod_unfold Let_def split: if_splits)
  ultimately show ?thesis
    using requote_Some[OF p'] False by (auto split: exec_result.splits if_splits)
qed

text \<open>The environment of the witnesses: a store-less dry run with everything allowed.\<close>

definition demo_exec_env :: exec_env where
  "demo_exec_env = \<lparr> xe_now = 60, xe_gate = (\<lambda>s p. chained_gate (\<lambda>p. True) 60 s p),
     xe_mapping = (\<lambda>cid. Some (empty_mapping\<lparr>m_resolution_match_status := Some ''identical''\<rparr>)),
     xe_prices = None, xe_redis = (\<lambda>k. None), xe_bbo = (\<lambda>pl m. NoBbo), xe_db = None,
     xe_safety_env = demo_env, xe_seq = None, xe_uuid = ''u'' \<rparr>"

end
