(* ===== verification/Manual_Flow.thy ===== *)
theory Manual_Flow
  imports Engine
begin

text \<open>
  The operator's side of \<open>arbiter/execution/engine.py\<close>: entering, closing and cancelling a queued
  manual position, which records and releases its exposure, and resolving an incident.  A refused
  action is the \<open>Inl\<close> of a \<open>ValueError\<close> and leaves the engine as it was.
\<close>

section \<open>Operations\<close>

definition merge_note :: "string \<Rightarrow> string \<Rightarrow> string" where
  "merge_note existing note =
     (let e = py_strip existing; n = py_strip note
      in if n = [] then e else if e = [] then n else if contains n e then e else e @ '' | '' @ n)"

fun remove_first :: "string \<Rightarrow> string \<Rightarrow> string" where
  "remove_first pat [] = []"
| "remove_first pat (c # cs) =
     (if starts_with pat (c # cs) then drop (length pat) (c # cs) else c # remove_first pat cs)"

fun update_first :: "('a \<Rightarrow> bool) \<Rightarrow> ('a \<Rightarrow> 'a) \<Rightarrow> 'a list \<Rightarrow> 'a list" where
  "update_first P f [] = []"
| "update_first P f (x # xs) = (if P x then f x # xs else x # update_first P f xs)"

definition manual_status :: "string \<Rightarrow> string option" where
  "manual_status st =
     (if st = ''awaiting-entry'' then Some ''manual_pending''
      else if st = ''entered'' then Some ''manual_entered''
      else if st = ''closed'' then Some ''manual_closed''
      else if st = ''cancelled'' then Some ''manual_cancelled'' else None)"

definition lifecycle_note :: "string \<Rightarrow> string option" where
  "lifecycle_note st =
     (if st = ''entered'' then Some ''Manual leg confirmed by operator''
      else if st = ''closed'' then Some ''Manual position closed by operator''
      else if st = ''cancelled'' then Some ''Manual position cancelled by operator'' else None)"

definition append_note :: "string \<Rightarrow> string list \<Rightarrow> string list" where
  "append_note n ns = (if n = [] \<or> n \<in> set ns then ns else ns @ [n])"

text \<open>What \<open>_update_manual_execution\<close> does to the execution, and to the exposure book.\<close>

definition manual_executed :: "string \<Rightarrow> string \<Rightarrow> arb_execution \<Rightarrow> arb_execution" where
  "manual_executed st note e =
     (let p = ex_opportunity e;
          notes = append_note (case lifecycle_note st of None \<Rightarrow> [] | Some n \<Rightarrow> n) (ex_notes e)
      in e\<lparr> ex_status := (case manual_status st of None \<Rightarrow> ex_status e | Some s \<Rightarrow> s),
            ex_notes := append_note (merge_note [] note) notes,
            ex_realized_pnl :=
              (if st = ''closed'' \<and> ex_realized_pnl e = 0
               then round_nd 4 (opp_net_edge p * of_int (opp_suggested_qty p))
               else ex_realized_pnl e) \<rparr>)"

definition manual_risk :: "string \<Rightarrow> arb_execution \<Rightarrow> risk_manager \<Rightarrow> risk_manager" where
  "manual_risk st e r =
     (let p = ex_opportunity e;
          r1 = (if st = ''entered'' \<and> ex_status e \<noteq> ''manual_entered''
                then record_trade (opp_canonical_id p) (opp_exposure p) 0 (arb_args p) r else r)
      in if st = ''closed''
         then release_trade (opp_canonical_id p) (opp_exposure p)
                (ex_realized_pnl (manual_executed st [] e)) (arb_args p) r1
         else if st = ''cancelled''
         then release_trade (opp_canonical_id p) (opp_exposure p) 0 (arb_args p) r1 else r1)"

definition update_manual_execution :: "manual_position \<Rightarrow> string \<Rightarrow> engine \<Rightarrow> engine \<times> arb_execution option" where
  "update_manual_execution pos note en =
     (let arb_id = remove_first ''MANUAL-'' (mp_id pos); st = mp_status pos;
          is_it = (\<lambda>e. ex_arb_id e = arb_id)
      in case List.find is_it (en_executions en) of
           None \<Rightarrow> (en, None)
         | Some e \<Rightarrow>
             (en\<lparr>en_executions := update_first is_it (manual_executed st note) (en_executions en),
                 en_risk := manual_risk st e (en_risk en)\<rparr>, Some (manual_executed st note e)))"

datatype manual_error = UnsupportedAction string | Refused string string

definition manual_refused :: "string \<Rightarrow> string \<Rightarrow> bool" where
  "manual_refused action st =
     (action = ''mark_entered'' \<and> (st = ''closed'' \<or> st = ''cancelled'')
      \<or> action = ''mark_closed'' \<and> st = ''cancelled''
      \<or> action = ''cancel'' \<and> st = ''closed'')"

definition moved_position :: "flt \<Rightarrow> string \<Rightarrow> string \<Rightarrow> manual_position \<Rightarrow> manual_position" where
  "moved_position now action note q =
     q\<lparr> mp_status := (if action = ''mark_entered'' then ''entered''
                       else if action = ''mark_closed'' then ''closed''
                       else if action = ''cancel'' then ''cancelled'' else mp_status q),
        mp_updated_at := now,
        mp_entry_confirmed_at :=
          (if action = ''mark_entered'' \<or> action = ''mark_closed''
           then or_flt (mp_entry_confirmed_at q) now else mp_entry_confirmed_at q),
        mp_closed_at := (if action = ''mark_closed'' then now
                         else if action = ''cancel'' then or_flt (mp_closed_at q) now
                         else mp_closed_at q),
        mp_note := merge_note (mp_note q) note \<rparr>"

definition update_manual_position ::
  "exec_env \<Rightarrow> string \<Rightarrow> string \<Rightarrow> string \<Rightarrow> engine \<Rightarrow> manual_error + (engine \<times> manual_position option)" where
  "update_manual_position env pid raw_action note en =
     (let action = py_lower (py_strip raw_action); is_it = (\<lambda>q. mp_id q = pid)
      in if action \<notin> {''mark_entered'', ''mark_closed'', ''cancel''}
         then Inl (UnsupportedAction (or_str action ''unknown''))
         else case List.find is_it (en_manual_positions en) of
                None \<Rightarrow> Inr (en, None)
              | Some q \<Rightarrow>
                  if manual_refused action (mp_status q) then Inl (Refused action (mp_status q))
                  else let q' = moved_position (xe_now env) action note q;
                           en1 = en\<lparr>en_manual_positions :=
                                      update_first is_it (\<lambda>_. q') (en_manual_positions en)\<rparr>;
                           (en2, ex) = update_manual_execution q' note en1
                       in Inr (case ex of None \<Rightarrow> en2 | Some e \<Rightarrow> publish_execution e en2, Some q'))"

definition resolve_incident ::
  "exec_env \<Rightarrow> string \<Rightarrow> string \<Rightarrow> engine \<Rightarrow> engine \<times> incident option" where
  "resolve_incident env iid note en =
     (let is_it = (\<lambda>i. inc_id i = iid)
      in case List.find is_it (en_incidents en) of
           None \<Rightarrow> (en, None)
         | Some i \<Rightarrow>
             let i' = i\<lparr>inc_status := ''resolved'',
                        inc_resolved_at := or_flt (inc_resolved_at i) (xe_now env),
                        inc_resolution_note := merge_note (inc_resolution_note i) note\<rparr>;
                 en1 = en\<lparr>en_incidents := update_first is_it (\<lambda>_. i') (en_incidents en),
                          en_incident_subscribers := publish i' (en_incident_subscribers en)\<rparr>
             in (if xe_db env = Some False
                 then handle_db_failure env ''insert_incident_resolve'' (inc_arb_id i')
                        (inc_canonical_id i') en1
                 else en1, Some i'))"

section \<open>Queued, entered, closed\<close>

lemma remove_first_prefix [simp]: "remove_first ''MANUAL-'' (''MANUAL-'' @ a) = a"
  by simp

lemma find_last: "x \<notin> f ` set es \<Longrightarrow> f e = x \<Longrightarrow> List.find (\<lambda>e. f e = x) (es @ [e]) = Some e"
  by (induction es) auto

lemma update_first_last:
  "x \<notin> f ` set es \<Longrightarrow> f e = x \<Longrightarrow> update_first (\<lambda>e. f e = x) g (es @ [e]) = es @ [g e]"
  by (induction es) auto

lemma trim_append: "\<exists>es'. trim_executions (es @ [e]) = es' @ [e] \<and> set es' \<subseteq> set es"
proof -
  have "nat (int (length (es @ [e])) - int max_execution_history) \<le> length es"
    by (simp add: max_execution_history_def)
  then show ?thesis
    by (auto simp: trim_executions_def Let_def simp del: length_append intro!: set_drop_subset)
qed

text \<open>The last execution and the first position of an engine belong to the manual trade.\<close>

definition holds_manual :: "string \<Rightarrow> string \<Rightarrow> arb_execution \<Rightarrow> engine \<Rightarrow> bool" where
  "holds_manual a st e en =
     (\<exists>es q qs. en_executions en = es @ [e] \<and> a \<notin> ex_arb_id ` set es \<and> ex_arb_id e = a
        \<and> en_manual_positions en = q # qs \<and> mp_id q = ''MANUAL-'' @ a \<and> mp_status q = st)"

lemma moved_id [simp]: "mp_id (moved_position now action nt q) = mp_id q"
  by (simp add: moved_position_def)

lemma manual_executed_fields [simp]:
  "ex_arb_id (manual_executed st nt e) = ex_arb_id e"
  "ex_opportunity (manual_executed st nt e) = ex_opportunity e"
  by (simp_all add: manual_executed_def Let_def)

text \<open>An accepted action on it: the position moves, the execution follows, the book is updated.\<close>

lemma manual_action:
  assumes "holds_manual a st e en" "py_lower (py_strip act) = action"
    and "action \<in> {''mark_entered'', ''mark_closed'', ''cancel''}" "\<not> manual_refused action st"
    and "st' = (if action = ''mark_entered'' then ''entered''
                else if action = ''mark_closed'' then ''closed'' else ''cancelled'')"
  shows "\<exists>en' q'. update_manual_position env (''MANUAL-'' @ a) act nt en = Inr (en', Some q')
     \<and> mp_status q' = st' \<and> holds_manual a st' (manual_executed st' nt e) en'
     \<and> en_risk en' = manual_risk st' e (en_risk en)"
proof -
  from assms(1) obtain es q qs where en: "en_executions en = es @ [e]" "a \<notin> ex_arb_id ` set es"
    "ex_arb_id e = a" "en_manual_positions en = q # qs" "mp_id q = ''MANUAL-'' @ a" "mp_status q = st"
    by (auto simp: holds_manual_def)
  have st': "mp_status (moved_position now action nt q) = st'" for now
    using assms(3) by (auto simp: moved_position_def assms(5))
  have find: "List.find (\<lambda>e. ex_arb_id e = a) (es @ [e]) = Some e"
    "update_first (\<lambda>e. ex_arb_id e = a) g (es @ [e]) = es @ [g e]" for g
    using en(2,3) by (simp_all add: find_last update_first_last)
  show ?thesis
    using assms(3,4) en(2,3)
    by (simp add: update_manual_position_def update_manual_execution_def Let_def assms(2) en(1,4-6) find
        st' holds_manual_def remove_first_prefix[simplified])
qed

lemma queue_holds_manual:
  assumes "a \<notin> ex_arb_id ` set (en_executions en)"
  shows "holds_manual a ''awaiting-entry'' (snd (queue_manual_execution env a p en))
     (fst (queue_manual_execution env a p en))"
proof -
  let ?ex = "snd (queue_manual_execution env a p en)"
  from trim_append[of "en_executions en" ?ex] obtain es' where
    "trim_executions (en_executions en @ [?ex]) = es' @ [?ex]" "set es' \<subseteq> set (en_executions en)" by blast
  with assms show ?thesis
    by (auto simp: holds_manual_def queue_manual_execution_def append_execution_def Let_def
        deque_appendleft_def)
qed

definition manual_profit :: "opportunity \<Rightarrow> flt" where
  "manual_profit p = round_nd 4 (opp_net_edge p * of_int (opp_suggested_qty p))"

lemma queue_fields [simp]:
  "en_risk (fst (queue_manual_execution env a p en)) = en_risk en"
  "ex_opportunity (snd (queue_manual_execution env a p en)) = p"
  "ex_status (snd (queue_manual_execution env a p en)) = ''manual_pending''"
  "ex_realized_pnl (snd (queue_manual_execution env a p en)) = 0"
  by (simp_all add: queue_manual_execution_def append_execution_def Let_def)

lemma action_words:
  "py_lower (py_strip ''mark_entered'') = ''mark_entered''"
  "py_lower (py_strip ''mark_closed'') = ''mark_closed''"
  "py_lower (py_strip ''cancel'') = ''cancel''"
  by code_simp+

lemma entered_risk:
  "ex_status e \<noteq> ''manual_entered'' \<Longrightarrow> manual_risk ''entered'' e r
     = record_arb (ex_opportunity e) 0 r"
  by (simp add: manual_risk_def record_arb_def Let_def)

lemma closed_risk:
  "manual_risk ''closed'' e r
     = release_trade (opp_canonical_id (ex_opportunity e)) (opp_exposure (ex_opportunity e))
         (if ex_realized_pnl e = 0 then manual_profit (ex_opportunity e) else ex_realized_pnl e)
         (arb_args (ex_opportunity e)) r"
  by (simp add: manual_risk_def manual_executed_def manual_profit_def Let_def)

lemma arb_args_fields [simp]:
  "ta_platform (arb_args p) = None" "ta_yes_platform (arb_args p) = Some (opp_yes_platform p)"
  "ta_no_platform (arb_args p) = Some (opp_no_platform p)"
  "ta_yes_exposure (arb_args p) = yes_leg_exposure p" "ta_no_exposure (arb_args p) = no_leg_exposure p"
  by (simp_all add: arb_args_def)

lemma executed_pnl:
  "ex_realized_pnl (manual_executed ''entered'' n e) = ex_realized_pnl e"
  "ex_realized_pnl (manual_executed ''closed'' n e)
     = (if ex_realized_pnl e = 0 then manual_profit (ex_opportunity e) else ex_realized_pnl e)"
  by (simp_all add: manual_executed_def manual_profit_def Let_def)

text \<open>Queue, enter, close: each action is accepted, and the book after each.\<close>

lemma manual_enter_close:
  assumes "a \<notin> ex_arb_id ` set (en_executions en)"
  obtains en2 q2 en3 q3 where
    "update_manual_position env (''MANUAL-'' @ a) ''mark_entered'' n2
       (fst (queue_manual_execution env0 a p en)) = Inr (en2, Some q2)"
    "mp_status q2 = ''entered''" "en_risk en2 = record_arb p 0 (en_risk en)"
    "update_manual_position env' (''MANUAL-'' @ a) ''mark_closed'' n3 en2 = Inr (en3, Some q3)"
    "mp_status q3 = ''closed''"
    "en_risk en3 = release_trade (opp_canonical_id p) (opp_exposure p) (manual_profit p) (arb_args p) (en_risk en2)"
    "\<exists>e. holds_manual a ''closed'' e en3 \<and> ex_opportunity e = p \<and> ex_realized_pnl e = manual_profit p"
proof -
  let ?q = "queue_manual_execution env0 a p en"
  let ?e2 = "manual_executed ''entered'' n2 (snd ?q)"
  from manual_action[OF queue_holds_manual[OF assms, of env0 p] action_words(1), of "''entered''" env n2]
  obtain en2 q2 where en2: "update_manual_position env (''MANUAL-'' @ a) ''mark_entered'' n2 (fst ?q) = Inr (en2, Some q2)"
    "mp_status q2 = ''entered''" "holds_manual a ''entered'' ?e2 en2"
    "en_risk en2 = record_arb p 0 (en_risk en)"
    by (auto simp: manual_refused_def entered_risk)
  from manual_action[OF en2(3) action_words(2), of "''closed''" env' n3]
  obtain en3 q3 where en3: "update_manual_position env' (''MANUAL-'' @ a) ''mark_closed'' n3 en2 = Inr (en3, Some q3)"
    "mp_status q3 = ''closed''" "holds_manual a ''closed'' (manual_executed ''closed'' n3 ?e2) en3"
    "en_risk en3 = release_trade (opp_canonical_id p) (opp_exposure p) (manual_profit p) (arb_args p) (en_risk en2)"
    by (auto simp: manual_refused_def closed_risk executed_pnl)
  have "\<exists>e. holds_manual a ''closed'' e en3 \<and> ex_opportunity e = p \<and> ex_realized_pnl e = manual_profit p"
    using en3(3) by (intro exI[of _ "manual_executed ''closed'' n3 ?e2"]) (simp add: executed_pnl)
  with en2 en3 show ?thesis by (intro that)
qed

text \<open>
  C29.  The manual workflow books a trade once and gives it back: a queued position can be entered
  and then closed; entering adds its whole exposure to the market, closing leaves every market and
  every venue with the exposure they had before, one trade counted and the paper profit booked.
\<close>

theorem manual_round_trip:
  assumes "a \<notin> ex_arb_id ` set (en_executions en)" "sane_opp p"
    and "opp_yes_platform p \<noteq> []" "opp_no_platform p \<noteq> []"
    and "dict_all (in_limit m) (rm_open_positions (en_risk en))"
    and "dict_all (in_limit l) (rm_platform_exposures (en_risk en))"
  shows "\<exists>en2 q2 en3 q3.
    update_manual_position env (''MANUAL-'' @ a) ''mark_entered'' n2
      (fst (queue_manual_execution env0 a p en)) = Inr (en2, Some q2)
    \<and> update_manual_position env' (''MANUAL-'' @ a) ''mark_closed'' n3 en2 = Inr (en3, Some q3)
    \<and> mp_status q2 = ''entered'' \<and> mp_status q3 = ''closed''
    \<and> dget (rm_open_positions (en_risk en2)) (opp_canonical_id p) 0
        = dget (rm_open_positions (en_risk en)) (opp_canonical_id p) 0 + opp_exposure p
    \<and> dget (rm_open_positions (en_risk en3)) k 0 = dget (rm_open_positions (en_risk en)) k 0
    \<and> dget (rm_platform_exposures (en_risk en3)) pl 0 = dget (rm_platform_exposures (en_risk en)) pl 0
    \<and> rm_daily_trades (en_risk en3) = rm_daily_trades (en_risk en) + 1
    \<and> rm_daily_pnl (en_risk en3) = rm_daily_pnl (en_risk en) + manual_profit p"
proof -
  obtain en2 q2 en3 q3
    where u2: "update_manual_position env (''MANUAL-'' @ a) ''mark_entered'' n2
       (fst (queue_manual_execution env0 a p en)) = Inr (en2, Some q2)" "mp_status q2 = ''entered''"
      "en_risk en2 = record_arb p 0 (en_risk en)"
    and u3: "update_manual_position env' (''MANUAL-'' @ a) ''mark_closed'' n3 en2 = Inr (en3, Some q3)"
      "mp_status q3 = ''closed''"
      "en_risk en3 = release_trade (opp_canonical_id p) (opp_exposure p) (manual_profit p) (arb_args p) (en_risk en2)"
    using manual_enter_close[OF assms(1)] by metis
  have given: "dget (rm_open_positions (en_risk en3)) k 0 = dget (rm_open_positions (en_risk en)) k 0"
    "dget (rm_platform_exposures (en_risk en3)) pl 0 = dget (rm_platform_exposures (en_risk en)) pl 0"
    using exposure_nonneg[OF assms(2)] assms(3,4)
    by (simp_all add: u2(3) u3(3) record_arb_def release_record_positions[OF assms(5)]
        release_record_platforms[OF assms(6)])
  have book: "dget (rm_open_positions (en_risk en2)) (opp_canonical_id p) 0
      = dget (rm_open_positions (en_risk en)) (opp_canonical_id p) 0 + opp_exposure p"
    "rm_daily_trades (en_risk en3) = rm_daily_trades (en_risk en) + 1"
    "rm_daily_pnl (en_risk en3) = rm_daily_pnl (en_risk en) + manual_profit p"
    by (simp_all add: u2(3) u3(3) record_arb_def record_trade_def release_trade_def Let_def)
  show ?thesis
    by (intro exI conjI) (rule u2(1), rule u3(1), rule u2(2), rule u3(2), rule book(1), rule given(1),
      rule given(2), rule book(2), rule book(3))
qed

theorem manual_round_trip_witness:
  "\<exists>en2 en3 q3. update_manual_position demo_exec_env ''MANUAL-ARB-000001'' ''mark_closed'' [] en2
       = Inr (en3, Some q3) \<and> mp_status q3 = ''closed''
     \<and> dget (rm_open_positions (en_risk en3)) ''A'' 0 = 0
     \<and> rm_daily_pnl (en_risk en3) = manual_profit demo_opp"
proof -
  let ?en = "new_engine no_risk_env default_scanner_config (Some 100) 0 0 (new_supervisor 30 [] None None) 0"
  have en: "en_executions ?en = []" "rm_open_positions (en_risk ?en) = []"
    "rm_platform_exposures (en_risk ?en) = []" "rm_daily_pnl (en_risk ?en) = 0"
    by (simp_all add: new_engine_def new_risk_manager_def)
  have "sane_opp demo_opp" by (simp add: sane_opp_def demo_opp_fields)
  from manual_round_trip[where a = "''ARB-000001''" and en = ?en and p = demo_opp and m = None
      and l = None and env = demo_exec_env and env' = demo_exec_env and ?env0.0 = demo_exec_env
      and ?n2.0 = "[]" and ?n3.0 = "[]" and k = "''A''" and pl = "[]", OF _ this]
  show ?thesis by (auto simp: en demo_opp_fields)
qed

text \<open>
  Closing a closed position is not refused, and it books the trade again: the same profit is
  added to the daily result a second time, and the exposure of the market is reduced once more,
  though nothing was recorded in between.
\<close>

theorem manual_close_twice:
  assumes "a \<notin> ex_arb_id ` set (en_executions en)" "manual_profit p \<noteq> 0"
  shows "\<exists>en2 q2 en3 q3 en4 q4.
    update_manual_position env (''MANUAL-'' @ a) ''mark_entered'' n2
      (fst (queue_manual_execution env0 a p en)) = Inr (en2, Some q2)
    \<and> update_manual_position env' (''MANUAL-'' @ a) ''mark_closed'' n3 en2 = Inr (en3, Some q3)
    \<and> update_manual_position env'' (''MANUAL-'' @ a) ''mark_closed'' n4 en3 = Inr (en4, Some q4)
    \<and> rm_daily_pnl (en_risk en4) = rm_daily_pnl (en_risk en) + 2 * manual_profit p
    \<and> dget (rm_open_positions (en_risk en4)) (opp_canonical_id p) 0
        = max (dget (rm_open_positions (en_risk en3)) (opp_canonical_id p) 0 - opp_exposure p) 0"
proof -
  obtain en2 q2 en3 q3 e
    where u2: "update_manual_position env (''MANUAL-'' @ a) ''mark_entered'' n2
       (fst (queue_manual_execution env0 a p en)) = Inr (en2, Some q2)"
      "en_risk en2 = record_arb p 0 (en_risk en)"
    and u3: "update_manual_position env' (''MANUAL-'' @ a) ''mark_closed'' n3 en2 = Inr (en3, Some q3)"
      "en_risk en3 = release_trade (opp_canonical_id p) (opp_exposure p) (manual_profit p) (arb_args p) (en_risk en2)"
    and e: "holds_manual a ''closed'' e en3" "ex_opportunity e = p" "ex_realized_pnl e = manual_profit p"
    using manual_enter_close[OF assms(1)] by metis
  from manual_action[OF e(1) action_words(2), of "''closed''" env'' n4]
  obtain en4 q4 where u4: "update_manual_position env'' (''MANUAL-'' @ a) ''mark_closed'' n4 en3 = Inr (en4, Some q4)"
    "en_risk en4 = release_trade (opp_canonical_id p) (opp_exposure p) (manual_profit p) (arb_args p) (en_risk en3)"
    by (auto simp: manual_refused_def closed_risk e(2,3))
  have "rm_daily_pnl (en_risk en4) = rm_daily_pnl (en_risk en) + 2 * manual_profit p"
    by (simp add: u2(2) u3(2) u4(2) record_arb_def record_trade_def release_trade_def Let_def)
  moreover have "dget (rm_open_positions (en_risk en4)) (opp_canonical_id p) 0
      = max (dget (rm_open_positions (en_risk en3)) (opp_canonical_id p) 0 - opp_exposure p) 0"
    by (simp add: u4(2) release_trade_def Let_def max_def)
  ultimately show ?thesis using u2(1) u3(1) u4(1) by blast
qed

theorem manual_close_twice_witness:
  "\<exists>en3 en4 q4. update_manual_position demo_exec_env ''MANUAL-ARB-000001'' ''mark_closed'' [] en3
       = Inr (en4, Some q4)
     \<and> rm_daily_pnl (en_risk en4) = 2 * manual_profit demo_opp \<and> 2 * manual_profit demo_opp = 9/5"
proof -
  let ?en = "new_engine no_risk_env default_scanner_config (Some 100) 0 0 (new_supervisor 30 [] None None) 0"
  have "manual_profit demo_opp = 9/10"
    by (simp add: manual_profit_def demo_opp_fields round_nd_def py_round_def)
  moreover have "en_executions ?en = []" "rm_daily_pnl (en_risk ?en) = 0"
    by (simp_all add: new_engine_def new_risk_manager_def)
  ultimately show ?thesis
    using manual_close_twice[where a = "''ARB-000001''" and en = ?en and p = demo_opp
      and env = demo_exec_env and env' = demo_exec_env and env'' = demo_exec_env
      and ?env0.0 = demo_exec_env and ?n2.0 = "[]" and ?n3.0 = "[]" and ?n4.0 = "[]"] by auto
qed

text \<open>
  Cancelling a position nobody entered releases an exposure that was never recorded: what other
  trades hold on the market shrinks.
\<close>

lemma cancel_before_entry:
  assumes "a \<notin> ex_arb_id ` set (en_executions en)"
  shows "\<exists>en2 q2. update_manual_position env (''MANUAL-'' @ a) ''cancel'' n2
      (fst (queue_manual_execution env0 a p en)) = Inr (en2, Some q2)
    \<and> dget (rm_open_positions (en_risk en2)) (opp_canonical_id p) 0
        = max (dget (rm_open_positions (en_risk en)) (opp_canonical_id p) 0 - opp_exposure p) 0"
proof -
  from manual_action[OF queue_holds_manual[OF assms, of env0 p] action_words(3), of "''cancelled''" env n2]
  obtain en2 q2 where "update_manual_position env (''MANUAL-'' @ a) ''cancel'' n2
      (fst (queue_manual_execution env0 a p en)) = Inr (en2, Some q2)"
    "en_risk en2 = manual_risk ''cancelled'' (snd (queue_manual_execution env0 a p en)) (en_risk en)"
    by (auto simp: manual_refused_def)
  then show ?thesis
    by (auto simp: manual_risk_def release_trade_def Let_def max_def)
qed

text \<open>What is refused changes nothing, and a cancelled position never comes back.\<close>

lemma manual_refusals:
  assumes "List.find (\<lambda>q. mp_id q = pid) (en_manual_positions en) = Some q"
  shows "mp_status q = ''cancelled'' \<Longrightarrow>
      update_manual_position env pid ''mark_entered'' nt en = Inl (Refused ''mark_entered'' ''cancelled'')"
    and "mp_status q = ''cancelled'' \<Longrightarrow>
      update_manual_position env pid ''mark_closed'' nt en = Inl (Refused ''mark_closed'' ''cancelled'')"
    and "mp_status q = ''closed'' \<Longrightarrow>
      update_manual_position env pid ''cancel'' nt en = Inl (Refused ''cancel'' ''closed'')"
  using assms by (simp_all add: update_manual_position_def Let_def action_words manual_refused_def)

end
