(* ===== verification/Pipeline.thy ===== *)
theory Pipeline
  imports Manual_Flow
begin

text \<open>
  The engine as one machine: executions, operator actions, incident resolutions, unwind losses and
  whatever others do to the shared supervisor, in any order.  Its invariant, and the properties of
  the pipeline of \<open>execute_opportunity\<close> along its runs.
\<close>

datatype engine_event =
    EnExecute exec_env opportunity
  | EnManual exec_env string string string
  | EnResolve exec_env string string
  | EnDailyLoss exec_env flt
  | EnSubscribe
  | EnSubscribeIncidents
  | EnSupervisor supervisor_event

primrec engine_step :: "engine_event \<Rightarrow> engine \<Rightarrow> engine" where
  "engine_step (EnExecute env p) en = fst (execute_opportunity env p en)"
| "engine_step (EnManual env pid action note) en =
     (case update_manual_position env pid action note en of Inl err \<Rightarrow> en | Inr (en', q) \<Rightarrow> en')"
| "engine_step (EnResolve env iid note) en = fst (resolve_incident env iid note en)"
| "engine_step (EnDailyLoss env x) en = maybe_halt_on_daily_loss env x en"
| "engine_step EnSubscribe en = en_subscribe en"
| "engine_step EnSubscribeIncidents en = subscribe_incidents en"
| "engine_step (EnSupervisor e) en = en\<lparr>en_safety := supervisor_step e (en_safety en)\<rparr>"

section \<open>Bounded histories\<close>

definition engine_ok :: "scanner_config \<Rightarrow> flt \<Rightarrow> engine \<Rightarrow> bool" where
  "engine_ok cfg cap en =
     (en_config en = cfg \<and> rm_config (en_risk en) = cfg \<and> ma_max_position_usd (en_auditor en) = cap
      \<and> length (en_executions en) \<le> max_execution_history
      \<and> length (en_manual_positions en) \<le> 200 \<and> length (en_incidents en) \<le> 200
      \<and> queues_ok (en_subscribers en) \<and> queues_ok (en_incident_subscribers en))"

lemma check_trade_config [simp]: "rm_config (fst (check_trade now p r)) = rm_config r"
  by (cases "fst (check_trade now p r) = r") (use check_trade_state[of now p r] in auto)

lemma ok_push: "engine_ok cfg cap en \<Longrightarrow> engine_ok cfg cap (push_incident i en)"
  by (auto simp: engine_ok_def push_incident_def length_deque_appendleft)

lemma ok_db_failure: "engine_ok cfg cap en \<Longrightarrow> engine_ok cfg cap (handle_db_failure env op_name a cid en)"
  by (auto simp: engine_ok_def handle_db_failure_def push_incident_def length_deque_appendleft Let_def)

lemma ok_incident: "engine_ok cfg cap en \<Longrightarrow> engine_ok cfg cap (record_incident env a cid sev msg meta en)"
  by (simp add: record_incident_def Let_def ok_push ok_db_failure)

lemma ok_rejection: "engine_ok cfg cap en \<Longrightarrow> engine_ok cfg cap (emit_rejection_incident env p v en)"
  by (simp add: emit_rejection_incident_def ok_incident split: prod.split)

lemma ok_abort: "engine_ok cfg cap (abort en) = engine_ok cfg cap en"
  by (simp add: engine_ok_def)

lemma ok_risk:
  "engine_ok cfg cap en \<Longrightarrow> rm_config r = cfg \<Longrightarrow> engine_ok cfg cap (en\<lparr>en_risk := r\<rparr>)"
  by (simp add: engine_ok_def)

lemma ok_sanity:
  "engine_ok cfg cap en \<Longrightarrow> engine_ok cfg cap (fst (sanity_check_quote env a p side pp x en))"
  by (simp add: sanity_check_quote_def Let_def ok_incident split: bbo_result.split)

lemma ok_requote_prices:
  "engine_ok cfg cap en \<Longrightarrow> engine_ok cfg cap (fst (requote_prices env a p cy cn en))"
  by (simp add: requote_prices_def Let_def case_prod_unfold ok_incident ok_sanity)

lemma ok_requote: "engine_ok cfg cap en \<Longrightarrow> engine_ok cfg cap (fst (pre_trade_requote env a p en))"
  by (simp add: pre_trade_requote_def Let_def ok_incident ok_requote_prices split: option.split)

lemma ok_auditor:
  "engine_ok cfg cap en \<Longrightarrow> ma_max_position_usd a = ma_max_position_usd (en_auditor en)
   \<Longrightarrow> engine_ok cfg cap (en\<lparr>en_auditor := a\<rparr>)"
  by (simp add: engine_ok_def)

lemma ok_opp_audit: "engine_ok cfg cap en \<Longrightarrow> engine_ok cfg cap (fst (engine_audit_opportunity env a p en))"
  by (simp add: engine_audit_opportunity_def Let_def case_prod_unfold ok_incident ok_auditor)

lemma ok_exec_audit: "engine_ok cfg cap en \<Longrightarrow> engine_ok cfg cap (engine_audit_execution env ex en)"
  by (simp add: engine_audit_execution_def Let_def case_prod_unfold ok_incident ok_auditor)

lemma ok_publish: "engine_ok cfg cap en \<Longrightarrow> engine_ok cfg cap (publish_execution ex en)"
  by (simp add: engine_ok_def publish_execution_def)

lemma ok_append: "engine_ok cfg cap en \<Longrightarrow> engine_ok cfg cap (append_execution ex en)"
  by (simp add: engine_ok_def append_execution_def trim_bound)

lemma ok_simulate: "engine_ok cfg cap en \<Longrightarrow> engine_ok cfg cap (fst (simulate_execution env a p en))"
  using ok_append[of cfg cap en]
  by (simp add: simulate_execution_def Let_def) (simp add: engine_ok_def)

lemma ok_manual: "engine_ok cfg cap en \<Longrightarrow> engine_ok cfg cap (fst (queue_manual_execution env a p en))"
  by (simp add: queue_manual_execution_def Let_def ok_append engine_ok_def append_execution_def
      trim_bound length_deque_appendleft)

lemma ok_run_gated: "engine_ok cfg cap en \<Longrightarrow> engine_ok cfg cap (fst (run_gated env a p en))"
  by (simp add: run_gated_def finish_execution_def Let_def case_prod_unfold ok_abort ok_opp_audit
      ok_requote ok_publish ok_exec_audit ok_manual ok_simulate split: option.split)

lemma ok_signatures:
  "engine_ok cfg cap (en\<lparr>en_recent_signatures := d\<rparr>) = engine_ok cfg cap en"
  "engine_ok cfg cap (prune_signatures now en) = engine_ok cfg cap en"
  "engine_ok cfg cap (fst (next_arb_id env en)) = engine_ok cfg cap en"
  by (simp_all add: engine_ok_def)

lemma ok_execute:
  assumes "engine_ok cfg cap en"
  shows "engine_ok cfg cap (fst (execute_opportunity env p en))"
proof -
  have "engine_ok cfg cap (en\<lparr>en_risk := fst (check_trade (xe_now env) p (en_risk en))\<rparr>)"
    using assms by (intro ok_risk) (simp_all add: engine_ok_def)
  then show ?thesis
    by (simp add: execute_opportunity_def Let_def case_prod_unfold ok_rejection ok_signatures ok_abort
        ok_incident ok_run_gated)
qed

lemma length_update_first [simp]: "length (update_first P f xs) = length xs"
  by (induction xs) auto

lemma manual_risk_config [simp]: "rm_config (manual_risk st e r) = rm_config r"
  by (simp add: manual_risk_def Let_def record_trade_def release_trade_def)

lemma ok_manual_update:
  assumes "engine_ok cfg cap en" "update_manual_position env pid action note en = Inr (en', q)"
  shows "engine_ok cfg cap en'"
proof -
  have exec: "engine_ok cfg cap (fst (update_manual_execution pos note e))"
    if "engine_ok cfg cap e" for pos e
    using that by (simp add: update_manual_execution_def Let_def engine_ok_def split: option.split)
  have pos: "engine_ok cfg cap (en\<lparr>en_manual_positions := update_first P f (en_manual_positions en)\<rparr>)"
    for P f using assms(1) by (simp add: engine_ok_def)
  from assms(2) assms(1) exec[OF pos] show ?thesis
    by (auto simp: update_manual_position_def Let_def case_prod_unfold ok_publish
        split: if_splits option.splits)
qed

lemma ok_resolve: "engine_ok cfg cap en \<Longrightarrow> engine_ok cfg cap (fst (resolve_incident env iid note en))"
proof -
  assume ok: "engine_ok cfg cap en"
  then have "engine_ok cfg cap (en\<lparr>en_incidents := update_first P f (en_incidents en),
      en_incident_subscribers := publish i (en_incident_subscribers en)\<rparr>)" for P f i
    by (simp add: engine_ok_def)
  with ok show ?thesis
    by (simp add: resolve_incident_def Let_def ok_db_failure split: option.split)
qed

lemma ok_daily_loss: "engine_ok cfg cap en \<Longrightarrow> engine_ok cfg cap (maybe_halt_on_daily_loss env x en)"
  by (simp add: engine_ok_def maybe_halt_on_daily_loss_def Let_def)

interpretation engine_runs: invariant_machine engine_step "engine_ok cfg cap"
proof unfold_locales
  fix en :: engine and e :: engine_event
  assume ok: "engine_ok cfg cap en"
  show "engine_ok cfg cap (engine_step e en)"
  proof (cases e)
    case (EnManual env pid action nt)
    with ok show ?thesis by (auto split: sum.split intro: ok_manual_update)
  next
    case EnSubscribe
    with ok show ?thesis by (simp add: engine_ok_def en_subscribe_def queues_ok_def)
  next
    case EnSubscribeIncidents
    with ok show ?thesis by (simp add: engine_ok_def subscribe_incidents_def queues_ok_def)
  next
    case (EnSupervisor e')
    with ok show ?thesis by (simp add: engine_ok_def)
  qed (simp_all add: ok ok_execute ok_resolve ok_daily_loss)
qed

lemma new_engine_ok:
  "engine_ok cfg (audit_cap phase5 max_pos cfg) (new_engine renv cfg limit phase5 max_pos sv now)"
  by (simp add: engine_ok_def new_engine_def new_risk_manager_def new_auditor_def queues_ok_def)

text \<open>
  The engine's memory stays bounded in every run: whatever is executed, entered by an
  operator, resolved or done to the supervisor, at most 1000 executions, 200 manual positions and
  200 incidents are kept, no subscriber's queue overflows, and the configuration the risk manager
  and the auditor work with never changes.
\<close>

theorem engine_histories_bounded:
  "length (en_executions (fold engine_step es (new_engine renv cfg limit phase5 max_pos sv now))) \<le> 1000
   \<and> length (en_manual_positions (fold engine_step es (new_engine renv cfg limit phase5 max_pos sv now))) \<le> 200
   \<and> length (en_incidents (fold engine_step es (new_engine renv cfg limit phase5 max_pos sv now))) \<le> 200
   \<and> queues_ok (en_subscribers (fold engine_step es (new_engine renv cfg limit phase5 max_pos sv now)))
   \<and> rm_config (en_risk (fold engine_step es (new_engine renv cfg limit phase5 max_pos sv now))) = cfg
   \<and> ma_max_position_usd (en_auditor (fold engine_step es (new_engine renv cfg limit phase5 max_pos sv now)))
       = audit_cap phase5 max_pos cfg"
  using engine_runs.run_inv[OF new_engine_ok]
  by (simp add: engine_ok_def max_execution_history_def)

section \<open>Only cleared opportunities trade\<close>

text \<open>
  C1.  Nothing reaches a simulation, the manual queue or the venues unless it passed every gate
  in the state the step started from: approved by the risk manager, not seen in the deduplication
  window, a confirmed mapping whose live resolution criteria are identical, the trade gate open,
  and an audit without a flag; what is traded is the same pair and quantity, re-quoted within the
  slippage tolerance and above the edge floor when a price store is wired.  A manual opportunity is
  only queued, and only a dry run simulates.
\<close>

theorem only_cleared_trades:
  assumes "execute_opportunity env p en = (en', r)" "traded r = Some q"
  shows "snd (check_trade (xe_now env) p (en_risk en)) = Approved
    \<and> not_duplicate (xe_now env) p en
    \<and> opp_mapping_status p = ''confirmed'' \<and> live_resolution env p = ''identical''
    \<and> xe_gate env (en_safety en) p
    \<and> ar_passed (snd (audit_opportunity (xe_now env) q (en_auditor en)))
    \<and> same_pair p q
    \<and> (if opp_requires_manual p \<or> xe_prices env = None then q = p else same_quote_as (en_config en) p q)
    \<and> (case r of ManualQueued ex \<Rightarrow> opp_requires_manual p
        | Simulated ex \<Rightarrow> \<not> opp_requires_manual p \<and> dry_run (en_config en)
        | GoLive i o' \<Rightarrow> \<not> opp_requires_manual p \<and> \<not> dry_run (en_config en) | _ \<Rightarrow> False)"
  using assms(1)
proof (cases rule: execute_reaches)
  case stopped
  with assms(2) show ?thesis by simp
next
  case (gated en3 arb_id)
  from run_gated_traded[OF gated(1) assms(2), unfolded gated(7) gated(9)] gated(2-6) show ?thesis
    unfolding audit_passed_iff by blast
qed

definition demo_engine :: engine where
  "demo_engine = new_engine no_risk_env default_scanner_config (Some 100) 0 0 (new_supervisor 30 [] None None) 0"

lemma demo_env_fields:
  "xe_now demo_exec_env = 60" "xe_prices demo_exec_env = None" "xe_seq demo_exec_env = None"
  "xe_db demo_exec_env = None" "live_resolution demo_exec_env p = ''identical''"
  "xe_gate demo_exec_env sv p = chained_gate (\<lambda>p. True) 60 sv p"
  by (simp_all add: demo_exec_env_def live_resolution_def opt_get_def py_lower_def lower_char_def)

lemma demo_engine_fields:
  "en_config demo_engine = default_scanner_config" "dry_run default_scanner_config"
  "en_risk demo_engine = new_risk_manager no_risk_env default_scanner_config (Some 100) 0"
  "en_auditor demo_engine = new_auditor 100" "en_recent_signatures demo_engine = []"
  "en_safety demo_engine = new_supervisor 30 [] None None" "en_signatures_last_pruned demo_engine = 0"
  "en_executions demo_engine = []"
  by (simp_all add: demo_engine_def new_engine_def audit_cap_def or_flt_def default_scanner_config_def)

lemma demo_trade_approved_60:
  "check_trade 60 demo_opp (new_risk_manager no_risk_env default_scanner_config (Some 100) 0)
     = (new_risk_manager no_risk_env default_scanner_config (Some 100) 0, Approved)"
  by (rule demo_trade_approved) (simp add: utc_day_def floor_unique)

lemma demo_executes:
  "\<exists>ex. snd (execute_opportunity demo_exec_env demo_opp demo_engine) = Simulated ex
     \<and> ex_opportunity ex = demo_opp"
proof -
  have gate: "chained_gate (\<lambda>p. True) 60 (new_supervisor 30 [] None None) demo_opp"
    by (simp add: chained_gate_def allow_execution_def new_supervisor_def initial_safety_state_def)
  have audit: "audit_flags (ma_max_position_usd (new_auditor 100)) demo_opp = []"
    by (simp add: new_auditor_def demo_opp_audit)
  show ?thesis
    by (simp add: execute_opportunity_def Let_def case_prod_unfold demo_env_fields demo_engine_fields
        demo_trade_approved_60 demo_opp_fields gate signature_dedup_window_def run_gated_def
        pre_trade_requote_def opp_audit_ok audit finish_execution_def)
qed

theorem only_cleared_trades_witness:
  "ar_passed (snd (audit_opportunity 60 demo_opp (en_auditor demo_engine)))"
proof -
  obtain ex where ex: "snd (execute_opportunity demo_exec_env demo_opp demo_engine) = Simulated ex"
    "ex_opportunity ex = demo_opp" using demo_executes by blast
  have "execute_opportunity demo_exec_env demo_opp demo_engine
    = (fst (execute_opportunity demo_exec_env demo_opp demo_engine), Simulated ex)"
    by (simp add: prod_eq_iff ex(1))
  from only_cleared_trades[OF this, of demo_opp] show ?thesis
    by (simp add: ex(2) demo_env_fields)
qed

text \<open>
  C4.  What the engine passes on has its edge in the quotes.  Whatever a run of the engine has led to, the
  opportunity that an execution then simulates, queues or hands to live placement pays, whichever way the event
  goes, at least the pair's edge floor less the tenth of a cent the audit tolerates, per contract: at the prices
  it is passed on with, after the auditor's fees, when both legs fill there in full.  It bounds what is decided
  on, not what the venues then fill.
\<close>

theorem traded_locks_in_edge:
  assumes "en = fold engine_step es (new_engine renv cfg limit phase5 max_pos sv t0)"
    and "execute_opportunity env p en = (en', r)" "traded r = Some q" "0 \<le> opp_suggested_qty p"
  shows "of_int (opp_suggested_qty p)
           * ((min_edge_for_pair cfg (opp_yes_platform p) (opp_no_platform p) - 1/10) / 100)
         \<le> pair_pnl (audit_cap phase5 max_pos cfg) q outcome"
proof -
  let ?cap = "audit_cap phase5 max_pos cfg" and ?floor = "min_edge_for_pair cfg (opp_yes_platform p) (opp_no_platform p)"
  have ok: "engine_ok cfg ?cap en"
    unfolding assms(1) by (rule engine_runs.run_inv[OF new_engine_ok])
  from assms(2) obtain en3 a where ap: "snd (check_trade (xe_now env) p (en_risk en)) = Approved"
    and run: "run_gated env a p en3 = (en', r)" and en3: "en_config en3 = en_config en" "en_auditor en3 = en_auditor en"
    by (cases rule: execute_reaches) (use assms(3) in auto)
  from ok have cfg: "en_config en = cfg" "rm_config (en_risk en) = cfg" "ma_max_position_usd (en_auditor en) = ?cap"
    by (simp_all add: engine_ok_def)
  from run_gated_traded[OF run assms(3)] have pair: "same_pair p q" and nil: "audit_flags ?cap q = []"
    and edge: "q = p \<or> same_quote_as cfg p q"
    by (auto simp: en3 cfg split: if_splits)
  have "?floor \<le> opp_net_edge_cents q"
    using edge approved_cases(4)[OF ap] cfg by (auto simp: same_quote_as_def)
  moreover have "opp_net_edge_cents q - 1/10 \<le> shadow_net ?cap q * 100"
    using nil unfolding audit_flags_Nil abs_le_iff by linarith
  ultimately have "(?floor - 1/10) / 100 \<le> shadow_net ?cap q" by simp
  from mult_left_mono[OF this, of "of_int (opp_suggested_qty p)"] pair assms(4) show ?thesis
    by (simp add: pair_pnl_eq same_pair_def)
qed

theorem traded_locks_in_edge_witness:
  "10 * ((min_edge_for_pair default_scanner_config ''forecastex'' ''forecastex'' - 1/10) / 100)
     \<le> pair_pnl (audit_cap 0 0 default_scanner_config) demo_opp True"
proof -
  obtain ex where ex: "snd (execute_opportunity demo_exec_env demo_opp demo_engine) = Simulated ex"
    "ex_opportunity ex = demo_opp" using demo_executes by blast
  have run: "execute_opportunity demo_exec_env demo_opp demo_engine
    = (fst (execute_opportunity demo_exec_env demo_opp demo_engine), Simulated ex)"
    by (simp add: prod_eq_iff ex(1))
  have "demo_engine = fold engine_step [] (new_engine no_risk_env default_scanner_config (Some 100) 0 0
      (new_supervisor 30 [] None None) 0)"
    by (simp add: demo_engine_def)
  from traded_locks_in_edge[OF this run, of demo_opp True] show ?thesis
    by (simp add: ex(2) demo_opp_fields)
qed

section \<open>The kill switch stops the engine\<close>

text \<open>An armed supervisor stays as it is through everything the engine does to it.\<close>

definition armed_as :: "safety_state \<Rightarrow> engine \<Rightarrow> bool" where
  "armed_as st en = (ks_armed st \<and> sv_state (en_safety en) = st)"

lemma trip_armed_state: "ks_armed (sv_state s) \<Longrightarrow> trip_kill actor reason persist now env s = s"
  by (simp add: trip_kill_def)

lemma armed_db_failure:
  "armed_as st en \<Longrightarrow> armed_as st (handle_db_failure env op_name a cid en)"
  by (auto simp: armed_as_def handle_db_failure_def Let_def push_incident_def trip_armed_state)

lemma armed_push: "armed_as st (push_incident i en) = armed_as st en"
  by (simp add: armed_as_def)

lemma armed_incident:
  "armed_as st en \<Longrightarrow> armed_as st (record_incident env a cid sev msg meta en)"
  by (simp add: record_incident_def Let_def armed_push armed_db_failure)

lemma armed_rejection: "armed_as st en \<Longrightarrow> armed_as st (emit_rejection_incident env p v en)"
  by (simp add: emit_rejection_incident_def armed_incident split: prod.split)

lemma armed_frames [simp]:
  "armed_as st (abort en) = armed_as st en"
  "armed_as st (prune_signatures now en) = armed_as st en"
  "armed_as st (fst (next_arb_id env en)) = armed_as st en"
  "armed_as st (publish_execution ex en) = armed_as st en"
  "armed_as st (en\<lparr>en_risk := r\<rparr>) = armed_as st en"
  "armed_as st (en\<lparr>en_recent_signatures := d\<rparr>) = armed_as st en"
  by (simp_all add: armed_as_def)

text \<open>The trade gate the program wires into the engine, on every execution of the run.\<close>

primrec chained_env :: "engine_event \<Rightarrow> bool" where
  "chained_env (EnExecute env p) = (\<exists>readiness now. xe_gate env = chained_gate readiness now)"
| "chained_env (EnManual env pid action nt) = True"
| "chained_env (EnResolve env iid nt) = True"
| "chained_env (EnDailyLoss env x) = True"
| "chained_env EnSubscribe = True"
| "chained_env EnSubscribeIncidents = True"
| "chained_env (EnSupervisor e) = True"

primrec keeps_armed :: "flt \<Rightarrow> engine_event \<Rightarrow> bool" where
  "keeps_armed limit (EnSupervisor e) = no_late_reset limit e"
| "keeps_armed limit (EnExecute env p) = True"
| "keeps_armed limit (EnManual env pid action nt) = True"
| "keeps_armed limit (EnResolve env iid nt) = True"
| "keeps_armed limit (EnDailyLoss env x) = True"
| "keeps_armed limit EnSubscribe = True"
| "keeps_armed limit EnSubscribeIncidents = True"

lemma armed_execute:
  assumes "armed_as st en" "xe_gate env = chained_gate readiness now"
  shows "armed_as st (fst (execute_opportunity env p en))"
    and "traded (snd (execute_opportunity env p en)) = None"
    and "en_executions (fst (execute_opportunity env p en)) = en_executions en"
    and "en_risk (fst (execute_opportunity env p en)) = fst (check_trade (xe_now env) p (en_risk en))"
proof -
  have shut: "\<not> xe_gate env (en_safety en) p" if "armed_as st en" for en
    using that chained.blocked_denies unfolding assms(2) by (auto simp: armed_as_def is_armed_def)
  from assms(1) shut show "armed_as st (fst (execute_opportunity env p en))"
    by (simp add: execute_opportunity_def Let_def case_prod_unfold armed_rejection armed_incident)
  obtain en' r where run: "execute_opportunity env p en = (en', r)" by (metis surj_pair)
  from this shut[OF assms(1)] show "traded (snd (execute_opportunity env p en)) = None"
    "en_executions (fst (execute_opportunity env p en)) = en_executions en"
    "en_risk (fst (execute_opportunity env p en)) = fst (check_trade (xe_now env) p (en_risk en))"
    by (cases rule: execute_reaches; simp)+
qed

lemma update_first_map:
  "(\<And>x. g (f x) = g x) \<Longrightarrow> map g (update_first P f xs) = map g xs"
  by (induction xs) auto

lemma manual_executed_id [simp]: "ex_arb_id (manual_executed st nt e) = ex_arb_id e"
  by (simp add: manual_executed_def Let_def)

lemma manual_update_frame:
  assumes "update_manual_position env pid action nt en = Inr (en', q)"
  shows "en_safety en' = en_safety en" "en_recent_signatures en' = en_recent_signatures en"
    "map ex_arb_id (en_executions en') = map ex_arb_id (en_executions en)"
  using assms
  by (auto simp: update_manual_position_def update_manual_execution_def Let_def update_first_map
      split: if_splits option.splits)

lemma armed_resolve: "armed_as st en \<Longrightarrow> armed_as st (fst (resolve_incident env iid nt en))"
proof -
  assume "armed_as st en"
  then have "armed_as st (en\<lparr>en_incidents := xs, en_incident_subscribers := qs\<rparr>)" for xs qs
    by (simp add: armed_as_def)
  with \<open>armed_as st en\<close> show ?thesis
    by (simp add: resolve_incident_def Let_def armed_db_failure split: option.split)
qed

lemma armed_daily_loss: "armed_as st en \<Longrightarrow> armed_as st (maybe_halt_on_daily_loss env x en)"
  by (auto simp: armed_as_def maybe_halt_on_daily_loss_def Let_def is_armed_def)

lemma resolve_executions [simp]: "en_executions (fst (resolve_incident env iid nt en)) = en_executions en"
  by (simp add: resolve_incident_def Let_def split: option.split)

lemma daily_loss_executions [simp]:
  "en_executions (maybe_halt_on_daily_loss env x en) = en_executions en"
  by (simp add: maybe_halt_on_daily_loss_def Let_def)

lemma armed_engine_step:
  assumes "armed_as st en" "chained_env e" "keeps_armed (ks_cooldown_until st) e"
  shows "armed_as st (engine_step e en)
    \<and> map ex_arb_id (en_executions (engine_step e en)) = map ex_arb_id (en_executions en)"
proof (cases e)
  case (EnExecute env p)
  with assms obtain readiness now where "xe_gate env = chained_gate readiness now" by auto
  from armed_execute[OF assms(1) this] EnExecute show ?thesis by simp
next
  case (EnManual env pid action nt)
  with assms(1) show ?thesis by (auto simp: armed_as_def manual_update_frame split: sum.split)
next
  case (EnSupervisor e')
  with assms armed_step[of "en_safety en" e'] show ?thesis by (simp add: armed_as_def is_armed_def)
next
  case EnSubscribe
  with assms(1) show ?thesis by (simp add: armed_as_def en_subscribe_def)
next
  case EnSubscribeIncidents
  with assms(1) show ?thesis by (simp add: armed_as_def subscribe_incidents_def)
qed (simp_all add: assms(1) armed_resolve armed_daily_loss)

text \<open>What the executions of a run come to.\<close>

primrec attempts :: "engine_event list \<Rightarrow> engine \<Rightarrow> exec_result list" where
  "attempts [] en = []"
| "attempts (e # es) en =
     (case e of EnExecute env p \<Rightarrow> [snd (execute_opportunity env p en)] | _ \<Rightarrow> [])
     @ attempts es (engine_step e en)"

lemma armed_attempts:
  assumes "armed_as st en" "chained_env e"
  shows "list_all (\<lambda>r. traded r = None) (attempts [e] en)"
  using assms armed_execute(2) by (cases e) auto

text \<open>
  C5.  The kill switch stops the engine: from the moment the supervisor is armed, in every run in
  which nobody resets it after the cooldown and the executions go through the chained gate, it stays
  armed, no execution of the run simulates, queues or hands anything to live placement, and the
  engine's list of executions gets no entry.
\<close>

theorem armed_engine_never_trades:
  assumes "is_armed (en_safety en)" "list_all chained_env es"
    and "list_all (keeps_armed (ks_cooldown_until (sv_state (en_safety en)))) es"
  shows "is_armed (en_safety (fold engine_step es en))
    \<and> list_all (\<lambda>r. traded r = None) (attempts es en)
    \<and> map ex_arb_id (en_executions (fold engine_step es en)) = map ex_arb_id (en_executions en)"
proof -
  define st where "st = sv_state (en_safety en)"
  have "armed_as st en" using assms(1) by (simp add: armed_as_def is_armed_def st_def)
  moreover have "list_all (keeps_armed (ks_cooldown_until st)) es" using assms(3) by (simp add: st_def)
  ultimately have "armed_as st (fold engine_step es en) \<and> list_all (\<lambda>r. traded r = None) (attempts es en)
    \<and> map ex_arb_id (en_executions (fold engine_step es en)) = map ex_arb_id (en_executions en)"
    using assms(2)
  proof (induction es arbitrary: en)
    case (Cons e es)
    from armed_engine_step[of st en e] armed_attempts[of st en e] Cons.prems
    have "armed_as st (engine_step e en)" "list_all (\<lambda>r. traded r = None) (attempts [e] en)"
      "map ex_arb_id (en_executions (engine_step e en)) = map ex_arb_id (en_executions en)" by auto
    with Cons show ?case by simp
  qed simp
  then show ?thesis by (auto simp: armed_as_def is_armed_def)
qed

theorem armed_engine_never_trades_witness:
  "en_executions (fold engine_step [EnExecute demo_exec_env demo_opp]
     (demo_engine\<lparr>en_safety := demo_armed\<rparr>)) = []"
proof -
  have "chained_env (EnExecute demo_exec_env demo_opp)"
    by (auto simp: demo_exec_env_def)
  with armed_engine_never_trades[of "demo_engine\<lparr>en_safety := demo_armed\<rparr>"
      "[EnExecute demo_exec_env demo_opp]"]
  show ?thesis by (simp add: demo_armed_state demo_engine_fields)
qed

section \<open>Deduplication\<close>

definition admits :: "exec_env \<Rightarrow> opportunity \<Rightarrow> engine \<Rightarrow> bool" where
  "admits env p en =
     (case snd (execute_opportunity env p en) of
        RejectedByRisk v \<Rightarrow> False | Duplicate \<Rightarrow> False | _ \<Rightarrow> True)"

text \<open>The attempts of a run that got past the deduplication, with their times.\<close>

primrec admitted :: "engine_event list \<Rightarrow> engine \<Rightarrow> (flt \<times> string) list" where
  "admitted [] en = []"
| "admitted (e # es) en =
     (case e of EnExecute env p \<Rightarrow> if admits env p en then [(xe_now env, signature_of p)] else []
      | _ \<Rightarrow> []) @ admitted es (engine_step e en)"

text \<open>The clock of the executions does not go back.\<close>

primrec clocked :: "flt \<Rightarrow> engine_event list \<Rightarrow> bool" where
  "clocked t [] = True"
| "clocked t (e # es) =
     (case e of EnExecute env p \<Rightarrow> t \<le> xe_now env \<and> clocked (xe_now env) es | _ \<Rightarrow> clocked t es)"

lemma simulate_signatures [simp]:
  "en_recent_signatures (fst (simulate_execution env a p en)) = en_recent_signatures en"
  "en_recent_signatures (fst (queue_manual_execution env a p en)) = en_recent_signatures en"
  by (simp_all add: simulate_execution_def queue_manual_execution_def append_execution_def Let_def)

lemma run_gated_signatures [simp]:
  "en_recent_signatures (fst (run_gated env a p en)) = en_recent_signatures en"
  by (simp add: run_gated_def finish_execution_def Let_def case_prod_unfold split: option.split)

lemma run_gated_result:
  "snd (run_gated env a p en) \<noteq> RejectedByRisk v" "snd (run_gated env a p en) \<noteq> Duplicate"
  by (simp_all add: run_gated_def finish_execution_def Let_def case_prod_unfold split: option.split)

lemma admits_iff:
  "admits env p en \<longleftrightarrow>
     snd (check_trade (xe_now env) p (en_risk en)) = Approved \<and> not_duplicate (xe_now env) p en"
  using run_gated_result
  by (auto simp: admits_def execute_opportunity_def Let_def case_prod_unfold not_duplicate_def not_le
      split: exec_result.split)

lemma execute_signatures:
  "en_recent_signatures (fst (execute_opportunity env p en)) =
     (if admits env p en
      then en_recent_signatures (prune_signatures (xe_now env)
             (en\<lparr>en_recent_signatures := AList.update (signature_of p) (xe_now env) (en_recent_signatures en)\<rparr>))
      else en_recent_signatures en)"
  by (simp add: admits_iff execute_opportunity_def Let_def case_prod_unfold not_duplicate_def not_le
      prune_signatures_def)

text \<open>A time \<open>t0\<close> of a signature is remembered until its window is over.\<close>

definition remembered :: "flt \<Rightarrow> flt \<Rightarrow> string \<Rightarrow> engine \<Rightarrow> bool" where
  "remembered now t0 s en =
     (t0 \<le> dget (en_recent_signatures en) s 0 \<or> t0 + signature_dedup_window \<le> now)"

lemma remembered_later: "remembered now t0 s en \<Longrightarrow> now \<le> now' \<Longrightarrow> remembered now' t0 s en"
  by (auto simp: remembered_def)

lemma prune_remembers:
  assumes "t0 \<le> dget (en_recent_signatures en) s 0"
  shows "remembered now t0 s (prune_signatures now en)"
proof -
  let ?keep = "\<lambda>(k, ts). now - signature_dedup_window * 4 < ts"
  have "t0 \<le> dget (filter ?keep d) s 0 \<or> t0 + signature_dedup_window \<le> now"
    if "t0 \<le> dget d s 0" for d
    using that
  proof (induction d)
    case (Cons kt d)
    obtain k ts where kt: "kt = (k, ts)" by fastforce
    show ?case
    proof (cases "k = s")
      case True
      with Cons.prems kt show ?thesis
        by (cases "?keep kt") (auto simp: dget_def signature_dedup_window_def not_less)
    next
      case False
      with Cons kt show ?thesis by (auto simp: dget_def)
    qed
  qed simp
  with assms show ?thesis by (simp add: remembered_def prune_signatures_def)
qed

lemma execute_remembers:
  assumes "remembered now t0 s en" "now \<le> xe_now env"
  shows "remembered (xe_now env) t0 s (fst (execute_opportunity env p en))"
proof (cases "t0 + signature_dedup_window \<le> xe_now env \<or> \<not> admits env p en")
  case True
  with remembered_later[OF assms] show ?thesis by (auto simp: remembered_def execute_signatures)
next
  case False
  with remembered_later[OF assms] have "t0 \<le> dget (en_recent_signatures en) s 0"
    "signature_of p \<noteq> s"
    by (auto simp: remembered_def admits_iff not_duplicate_def)
  then have "t0 \<le> dget (en_recent_signatures (en\<lparr>en_recent_signatures :=
      AList.update (signature_of p) (xe_now env) (en_recent_signatures en)\<rparr>)) s 0"
    by simp
  from prune_remembers[OF this, of "xe_now env"] False show ?thesis
    by (simp add: remembered_def execute_signatures)
qed

lemma admission_remembered:
  assumes "admits env p en"
  shows "remembered (xe_now env) (xe_now env) (signature_of p) (fst (execute_opportunity env p en))"
proof -
  have "xe_now env \<le> dget (en_recent_signatures (en\<lparr>en_recent_signatures :=
      AList.update (signature_of p) (xe_now env) (en_recent_signatures en)\<rparr>)) (signature_of p) 0"
    by simp
  from prune_remembers[OF this, of "xe_now env"] assms show ?thesis
    by (simp add: remembered_def execute_signatures)
qed

lemma other_steps_remember:
  "(\<And>env p. e \<noteq> EnExecute env p) \<Longrightarrow> en_recent_signatures (engine_step e en) = en_recent_signatures en"
  by (cases e) (auto simp: manual_update_frame resolve_incident_def maybe_halt_on_daily_loss_def Let_def
      en_subscribe_def subscribe_incidents_def split: sum.split option.split)

lemma remembered_spaces:
  assumes "remembered now t0 s en" "clocked now es" "(t, s) \<in> set (admitted es en)"
  shows "t0 + signature_dedup_window \<le> t"
  using assms
proof (induction es arbitrary: en now)
  case (Cons e es)
  show ?case
  proof (cases "\<exists>env p. e = EnExecute env p")
    case True
    then obtain env p where e: "e = EnExecute env p" by blast
    with Cons.prems have clock: "now \<le> xe_now env" "clocked (xe_now env) es" by simp_all
    show ?thesis
    proof (cases "(t, s) \<in> set (admitted es (engine_step e en))")
      case True
      with Cons.IH[OF _ clock(2), of "engine_step e en"] execute_remembers[OF Cons.prems(1) clock(1)] e
      show ?thesis by simp
    next
      case False
      with Cons.prems(3) e have "admits env p en" "t = xe_now env" "s = signature_of p"
        by (auto split: if_splits)
      with remembered_later[OF Cons.prems(1) clock(1)] show ?thesis
        by (auto simp: admits_iff not_duplicate_def remembered_def)
    qed
  next
    case False
    then have "\<And>env p. e \<noteq> EnExecute env p" by blast
    from other_steps_remember[OF this] Cons.prems(1)
    have "remembered now t0 s (engine_step e en)" by (simp add: remembered_def)
    with Cons.IH[of now "engine_step e en"] Cons.prems(2,3) False show ?thesis
      by (cases e) simp_all
  qed
qed simp

lemma clocked_admitted:
  "clocked now es \<Longrightarrow> sorted_wrt (\<lambda>a b. snd a = snd b \<longrightarrow> fst a + signature_dedup_window \<le> fst b) (admitted es en)"
proof (induction es arbitrary: en now)
  case (Cons e es)
  show ?case
  proof (cases "\<exists>env p. e = EnExecute env p \<and> admits env p en")
    case True
    then obtain env p where e: "e = EnExecute env p" and ad: "admits env p en" by blast
    with Cons.prems have clock: "clocked (xe_now env) es" by simp
    have "fst a + signature_dedup_window \<le> fst b"
      if "a = (xe_now env, signature_of p)" "b \<in> set (admitted es (engine_step e en))" "snd a = snd b" for a b
      using remembered_spaces[OF admission_remembered[OF ad] clock, of "fst b"] that e
      by (metis engine_step.simps(1) fst_conv snd_conv surjective_pairing)
    with Cons.IH[OF clock] e ad show ?thesis by auto
  next
    case False
    with Cons.IH[of _ "engine_step e en"] Cons.prems show ?thesis
      by (cases e) auto
  qed
qed simp

text \<open>
  Deduplication: in every run in which the clock does not go back, two attempts with the same
  key and status that got past the deduplication are at least thirty seconds apart, however the
  signature table is pruned and whatever operators do in between.
\<close>

theorem attempts_are_spaced:
  assumes "clocked t0 es"
  shows "sorted_wrt (\<lambda>a b. snd a = snd b \<longrightarrow> fst a + 30 \<le> fst b) (admitted es en)"
  using clocked_admitted[OF assms, of en] by (simp add: signature_dedup_window_def)

text \<open>A second attempt right after the first is refused.\<close>

theorem attempts_are_spaced_witness:
  "admitted [EnExecute demo_exec_env demo_opp, EnExecute demo_exec_env demo_opp] demo_engine
     = [(60, signature_of demo_opp)]"
proof -
  let ?es = "[EnExecute demo_exec_env demo_opp, EnExecute demo_exec_env demo_opp]"
  have "admits demo_exec_env demo_opp demo_engine"
    using demo_executes by (auto simp: admits_def)
  moreover have "clocked 0 ?es" by (simp add: demo_env_fields)
  note spaced = attempts_are_spaced[OF this, of demo_engine]
  ultimately show ?thesis using spaced by (auto simp: demo_env_fields split: if_splits)
qed

section \<open>What a simulated trade adds to the book\<close>

lemma run_gated_records:
  assumes "run_gated env a p en = (en', Simulated ex)"
  shows "en_risk en' = record_arb (ex_opportunity ex) (ex_realized_pnl ex) (en_risk en)"
  using assms
  by (auto simp: run_gated_def finish_execution_def Let_def case_prod_unfold simulate_execution_def
      append_execution_def split: if_splits option.splits)

definition requote_slack :: "exec_env \<Rightarrow> scanner_config \<Rightarrow> opportunity \<Rightarrow> flt" where
  "requote_slack env cfg p =
     (if xe_prices env = None then 0 else 2 * slippage_tolerance cfg * of_int (opp_suggested_qty p))"

lemma requoted_exposure:
  assumes "same_pair p q" "if xe_prices env = None then q = p else same_quote_as cfg p q"
    and "0 \<le> opp_suggested_qty p"
  shows "opp_exposure q \<le> opp_exposure p + requote_slack env cfg p"
proof (cases "xe_prices env = None")
  case False
  with assms have "opp_yes_price q + opp_no_price q
      \<le> opp_yes_price p + opp_no_price p + 2 * slippage_tolerance cfg"
    by (auto simp: same_quote_as_def abs_le_iff)
  from mult_left_mono[OF this, of "of_int (opp_suggested_qty p)"] False assms(1,3) show ?thesis
    by (auto simp: opp_exposure_def requote_slack_def same_pair_def algebra_simps)
qed (use assms in \<open>simp add: requote_slack_def\<close>)

text \<open>
  The position limit survives the re-quote up to its slack: the risk manager checks the
  prices of the scan and the engine books those of the re-quote, so after a simulated trade the
  market's exposure is at most the limit plus twice the slippage tolerance per contract, and within
  the limit itself when nothing is re-quoted.
\<close>

theorem simulated_exposure_bounded:
  assumes "en = fold engine_step es (new_engine renv cfg limit phase5 max_pos sv t0)"
    and "execute_opportunity env p en = (en', Simulated ex)" "0 \<le> opp_suggested_qty p"
  shows "dget (rm_open_positions (en_risk en')) (opp_canonical_id p) 0
    \<le> max_position_usd cfg + requote_slack env cfg p"
proof -
  have ok: "en_config en = cfg" "rm_config (en_risk en) = cfg"
    using engine_runs.run_inv[OF new_engine_ok[of cfg phase5 max_pos renv limit sv t0], of es]
    by (simp_all add: assms(1) engine_ok_def)
  from assms(2) obtain en3 a where ap: "snd (check_trade (xe_now env) p (en_risk en)) = Approved"
    and run: "run_gated env a p en3 = (en', Simulated ex)" and en3: "en_config en3 = cfg"
      "en_risk en3 = roll_daily_window (xe_now env) (en_risk en)"
    by (cases rule: execute_reaches) (auto simp: ok approved_cases(1))
  have same: "same_pair p (ex_opportunity ex)"
    "if xe_prices env = None then ex_opportunity ex = p else same_quote_as cfg p (ex_opportunity ex)"
    using run_gated_traded[OF run] by (simp_all add: en3 split: if_splits)
  note cap = approved_limits(3)[OF approved_cases(2)[OF ap]]
  from same(1) have "dget (rm_open_positions (en_risk en')) (opp_canonical_id p) 0
      = dget (rm_open_positions (en_risk en3)) (opp_canonical_id p) 0 + opp_exposure (ex_opportunity ex)"
    by (simp add: run_gated_records[OF run] record_arb_def record_trade_def same_pair_def)
  with cap requoted_exposure[OF same assms(3)] show ?thesis by (simp add: en3(2) ok)
qed

theorem simulated_exposure_bounded_witness:
  "dget (rm_open_positions (en_risk (fst (execute_opportunity demo_exec_env demo_opp demo_engine)))) ''A'' 0
     \<le> 100"
proof -
  obtain ex where "snd (execute_opportunity demo_exec_env demo_opp demo_engine) = Simulated ex"
    using demo_executes by blast
  then have run: "execute_opportunity demo_exec_env demo_opp demo_engine
    = (fst (execute_opportunity demo_exec_env demo_opp demo_engine), Simulated ex)"
    by (simp add: prod_eq_iff)
  have "demo_engine = fold engine_step [] (new_engine no_risk_env default_scanner_config (Some 100) 0 0
      (new_supervisor 30 [] None None) 0)"
    by (simp add: demo_engine_def)
  from simulated_exposure_bounded[OF this run] show ?thesis
    by (simp add: demo_opp_fields requote_slack_def demo_env_fields default_scanner_config_def)
qed

end
