(* ===== verification/Live_Orders.thy ===== *)
theory Live_Orders
  imports Engine
begin

text \<open>
  Placing one leg of a live trade, from \<open>arbiter/execution/engine.py\<close>: \<open>_place_order_for_leg\<close> with
  its timeout recovery, \<open>_poll_submitted_to_terminal\<close> and \<open>_execute_with_fallbacks\<close>.  A venue
  adapter is what the engine can observe of it: for every call, numbered by the calls made before,
  an answer.  The calls are logged in order, since they are what the outside sees.  \<open>get_order\<close> of
  the adapters updates the order it is given and returns it, so its answer replaces the order.
\<close>

section \<open>Venues\<close>

datatype tif = TIF_IOC | TIF_FOK

datatype place_result = Placed order | PlaceTimeout | PlaceRaised

datatype walk_result = Walked bool flt | WalkRaised

text \<open>
  An optional field is a method the adapter may lack; an answer \<open>None\<close> is an exception.
  \<open>ad_has_ioc\<close> says whether \<open>place_ioc\<close> is a coroutine of the adapter.
\<close>

record adapter =
  ad_depth :: "(nat \<Rightarrow> string \<Rightarrow> string \<Rightarrow> int \<Rightarrow> (bool \<times> flt) option) option"
  ad_walk :: "(nat \<Rightarrow> string \<Rightarrow> string \<Rightarrow> int \<Rightarrow> walk_result) option"
  ad_has_ioc :: bool
  ad_place :: "nat \<Rightarrow> tif \<Rightarrow> string \<Rightarrow> string \<Rightarrow> string \<Rightarrow> string \<Rightarrow> flt \<Rightarrow> int \<Rightarrow> place_result"
  ad_open_orders :: "nat \<Rightarrow> string \<Rightarrow> order list option"
  ad_cancel :: "nat \<Rightarrow> order \<Rightarrow> bool option"
  ad_get_order :: "(nat \<Rightarrow> order \<Rightarrow> order option) option"
  ad_resting_sell :: "(nat \<Rightarrow> string \<Rightarrow> string \<Rightarrow> string \<Rightarrow> string \<Rightarrow> flt \<Rightarrow> int \<Rightarrow> order option) option"
  ad_unwind_sell :: "(nat \<Rightarrow> string \<Rightarrow> string \<Rightarrow> string \<Rightarrow> string \<Rightarrow> int \<Rightarrow> order option) option"

datatype venue_call =
    CDepth string string string int
  | CWalk string string string int
  | CPlace string string string flt int tif
  | COpenOrders string string
  | CCancel string string
  | CGetOrder string string
  | CPersist string order bool
  | CRestingSell string string flt int
  | CUnwindSell string string int
  | CReconciled string flt
  | CRecordArb string bool

text \<open>
  The environment of a live trade: that of a step of the engine, the adapters, the balance
  snapshot, the settings read from the environment (\<open>None\<close> where unset or not a number), whether the
  store accepts the write made after so many calls, and how many polls fit before a deadline.
\<close>

record live_env =
  le_exec :: exec_env
  le_adapters :: "string \<Rightarrow> adapter option"
  le_balance :: "string \<Rightarrow> flt option"
  le_min_reserve :: "flt option"
  le_kalshi_first :: bool
  le_slippage_ticks :: "string \<Rightarrow> int option"
  le_buffer_min_net :: "flt option"
  le_primary_fok :: "string \<Rightarrow> bool"
  le_requote_attempts :: nat
  le_poll_timeout :: flt
  le_poll_timeout_forecastex :: flt
  le_polls :: "nat \<Rightarrow> nat"
  le_rest_polls :: nat
  le_store_ok :: "nat \<Rightarrow> bool"

record live =
  lv_engine :: engine
  lv_calls :: "venue_call list"

definition tick :: "live \<Rightarrow> nat" where
  "tick s = length (lv_calls s)"

definition log_call :: "venue_call \<Rightarrow> live \<Rightarrow> live" where
  "log_call c s = s\<lparr>lv_calls := lv_calls s @ [c]\<rparr>"

definition on_engine :: "(engine \<Rightarrow> engine) \<Rightarrow> live \<Rightarrow> live" where
  "on_engine f s = s\<lparr>lv_engine := f (lv_engine s)\<rparr>"

definition leg_order ::
  "string \<Rightarrow> string \<Rightarrow> string \<Rightarrow> string \<Rightarrow> string \<Rightarrow> flt \<Rightarrow> int \<Rightarrow> order_status \<Rightarrow> flt \<Rightarrow> string \<Rightarrow> order" where
  "leg_order oid platform market cid side price qty st now err =
     \<lparr> ord_id = oid, ord_platform = platform, ord_market_id = market, ord_canonical_id = cid,
       ord_side = side, ord_price = price, ord_quantity = qty, ord_status = st, ord_fill_price = 0,
       ord_fill_qty = 0, ord_timestamp = now, ord_error = err, ord_external_client_order_id = None,
       ord_idempotency_ambiguous = False \<rparr>"

section \<open>Timeouts and polling\<close>

fun cancel_each :: "adapter \<Rightarrow> string \<Rightarrow> order list \<Rightarrow> live \<Rightarrow> live \<times> bool" where
  "cancel_each ad platform [] s = (s, False)"
| "cancel_each ad platform (r # rs) s =
     (let ok = ad_cancel ad (tick s) r = Some True;
          (s', any) = cancel_each ad platform rs (log_call (CCancel platform (ord_id r)) s)
      in (s', ok \<or> any))"

fun first_external :: "order list \<Rightarrow> string option" where
  "first_external [] = None"
| "first_external (r # rs) =
     (case ord_external_client_order_id r of
        None \<Rightarrow> first_external rs
      | Some e \<Rightarrow> if e = [] then first_external rs else Some e)"

definition timeout_recovery ::
  "live_env \<Rightarrow> adapter \<Rightarrow> string \<Rightarrow> string \<Rightarrow> order \<Rightarrow> live \<Rightarrow> live \<times> order" where
  "timeout_recovery env ad arb_id platform request s =
     (let prefix = arb_id @ ''-'' @ py_upper (ord_side request) @ ''-'';
          partial = request\<lparr>ord_id := prefix @ py_upper platform, ord_status := PENDING,
                       ord_error := ''local timeout after {}s'', ord_idempotency_ambiguous := True\<rparr>;
          found = (case ad_open_orders ad (tick s) prefix of None \<Rightarrow> [] | Some rs \<Rightarrow> rs);
          partial1 = (case first_external found of None \<Rightarrow> partial
                      | Some e \<Rightarrow> partial\<lparr>ord_external_client_order_id := Some e\<rparr>);
          (s', any) = cancel_each ad platform found (log_call (COpenOrders platform prefix) s)
      in (s', if any
              then partial1\<lparr>ord_status := CANCELLED,
                     ord_error := ord_error partial1
                       @ ''; cancelled {} orphaned order(s) found by client_order_id prefix''\<rparr>
              else if found \<noteq> []
              then partial1\<lparr>ord_status := FAILED,
                     ord_error := ord_error partial1
                       @ ''; found {} orphaned order(s) but cancel failed''
                       @ '' - manual reconciliation required''\<rparr>
              else partial1\<lparr>ord_status := FAILED,
                     ord_error := ord_error partial1
                       @ ''; no matching open order found - platform may have rejected or never received''
                       @ '' - retry blocked: idempotency unproven''\<rparr>))"

definition terminal :: "order_status \<Rightarrow> bool" where
  "terminal st = (st \<in> {FILLED, PARTIAL, CANCELLED, FAILED, ABORTED})"

fun poll_loop ::
  "(nat \<Rightarrow> order \<Rightarrow> order option) \<Rightarrow> nat \<Rightarrow> order \<Rightarrow> live \<Rightarrow> live \<times> order" where
  "poll_loop get 0 r s = (s, r)"
| "poll_loop get (Suc n) r s =
     (let s' = log_call (CGetOrder (ord_platform r) (ord_id r)) s
      in case get (tick s) r of
           None \<Rightarrow> poll_loop get n r s'
         | Some u \<Rightarrow> if terminal (ord_status u) then (s', u) else poll_loop get n u s')"

definition poll_timeout_for_platform :: "live_env \<Rightarrow> string \<Rightarrow> flt" where
  "poll_timeout_for_platform env platform =
     (if py_lower platform = ''forecastex'' then le_poll_timeout_forecastex env
      else le_poll_timeout env)"

text \<open>After the deadline: cancel, read the order once more, and distrust what is not proven.\<close>

definition cancel_and_recheck ::
  "adapter \<Rightarrow> (nat \<Rightarrow> order \<Rightarrow> order option) \<Rightarrow> order \<Rightarrow> live \<Rightarrow> live \<times> order" where
  "cancel_and_recheck ad get r s =
     (let cancel_ok = ad_cancel ad (tick s) r = Some True;
          s1 = log_call (CCancel (ord_platform r) (ord_id r)) s;
          u = (case get (tick s1) r of None \<Rightarrow> r | Some u \<Rightarrow> u);
          s2 = log_call (CGetOrder (ord_platform r) (ord_id r)) s1
      in (s2, if (\<not> terminal (ord_status u) \<or> \<not> cancel_ok) \<and> ord_status u \<noteq> FILLED
              then u\<lparr>ord_idempotency_ambiguous := True\<rparr> else u))"

definition poll_submitted_to_terminal ::
  "live_env \<Rightarrow> adapter \<Rightarrow> order \<Rightarrow> live \<Rightarrow> live \<times> order" where
  "poll_submitted_to_terminal env ad r s =
     (if poll_timeout_for_platform env (ord_platform r) \<le> 0 then (s, r)
      else case ad_get_order ad of
             None \<Rightarrow> (s, r)
           | Some get \<Rightarrow>
               let (s', u) = poll_loop get (le_polls env (tick s)) r s
               in if terminal (ord_status u) then (s', u) else cancel_and_recheck ad get u s')"

section \<open>One order\<close>

text \<open>
  \<open>persist_leg\<close>: the write of the order, in the same transaction as the arb row for the first leg.
  A failed write blocks the engine.
\<close>

definition persist_leg ::
  "live_env \<Rightarrow> string \<Rightarrow> string \<Rightarrow> string \<Rightarrow> order \<Rightarrow> live \<Rightarrow> live" where
  "persist_leg env op_name db_arb_id cid r s =
     (if xe_db (le_exec env) = None then s
      else let ok = le_store_ok env (tick s); s' = log_call (CPersist db_arb_id r ok) s
           in if ok then s'
              else on_engine (handle_db_failure (le_exec env) op_name db_arb_id cid) s')"

record leg_request =
  lr_arb_id :: string
  lr_platform :: string
  lr_market :: string
  lr_cid :: string
  lr_side :: string
  lr_price :: flt
  lr_qty :: int
  lr_ioc :: bool
  lr_first :: bool
  lr_persist_id :: "string option"

text \<open>\<open>None\<close>: the placement raised something other than the timeout.\<close>

definition place_order_for_leg ::
  "live_env \<Rightarrow> leg_request \<Rightarrow> live \<Rightarrow> live \<times> order option" where
  "place_order_for_leg env q s =
     (let now = xe_now (le_exec env);
          mk = (\<lambda>suffix st err. leg_order (lr_arb_id q @ ''-'' @ py_upper (lr_side q) @ suffix)
                  (lr_platform q) (lr_market q) (lr_cid q) (lr_side q) (lr_price q) (lr_qty q) st now err)
      in case le_adapters env (lr_platform q) of
           None \<Rightarrow> (s, Some (mk ''-NOADAPTER'' FAILED
                      (''No adapter configured for platform: '' @ lr_platform q)))
         | Some ad \<Rightarrow>
             if sv_db_write_failed (en_safety (lv_engine s))
             then (s, Some (mk ''-DBFAIL'' ABORTED
                       ''DB write previously failed -- execution blocked by safety gate''))
             else let kind = (if lr_ioc q \<and> ad_has_ioc ad then TIF_IOC else TIF_FOK);
                      s1 = log_call (CPlace (lr_platform q) (lr_arb_id q) (lr_side q) (lr_price q)
                                       (lr_qty q) kind) s;
                      finish = (\<lambda>(s2, r).
                        let (s3, r') = (if ord_status r = SUBMITTED
                                        then poll_submitted_to_terminal env ad r s2 else (s2, r))
                        in (persist_leg env
                              (if lr_first q then ''record_arb_stub_with_leg'' else ''upsert_order'')
                              (case lr_persist_id q of None \<Rightarrow> lr_arb_id q
                               | Some a \<Rightarrow> or_str a (lr_arb_id q))
                              (lr_cid q) r' s3, Some r'))
                  in case ad_place ad (tick s) kind (lr_arb_id q) (lr_market q) (lr_cid q) (lr_side q)
                            (lr_price q) (lr_qty q) of
                       PlaceRaised \<Rightarrow> (s1, None)
                     | PlaceTimeout \<Rightarrow>
                         finish (timeout_recovery env ad (lr_arb_id q) (lr_platform q)
                                   (mk [] PENDING []) s1)
                     | Placed r \<Rightarrow> finish (s1, r))"

section \<open>The second leg and its fallbacks\<close>

record fallback_args =
  fb_arb_id :: string
  fb_platform :: string
  fb_market :: string
  fb_cid :: string
  fb_side :: string
  fb_initial_price :: flt
  fb_qty :: int
  fb_max_affordable :: flt
  fb_break_even :: "flt option"
  fb_skip_initial :: bool

definition fb_request :: "fallback_args \<Rightarrow> string \<Rightarrow> flt \<Rightarrow> bool \<Rightarrow> string option \<Rightarrow> leg_request" where
  "fb_request a suffix price ioc persist =
     \<lparr> lr_arb_id = fb_arb_id a @ suffix, lr_platform = fb_platform a, lr_market = fb_market a,
       lr_cid = fb_cid a, lr_side = fb_side a, lr_price = price, lr_qty = fb_qty a, lr_ioc = ioc,
       lr_first = False, lr_persist_id = persist \<rparr>"

definition requote_ceiling :: "fallback_args \<Rightarrow> bool \<Rightarrow> flt" where
  "requote_ceiling a is_final =
     (case fb_break_even a of
        None \<Rightarrow> fb_max_affordable a
      | Some b \<Rightarrow> if is_final \<and> fb_max_affordable a < b then b else fb_max_affordable a)"

datatype requote_end = RqRaised | RqDone order | RqExhausted "order option" "string list"

definition has_fill :: "order \<Rightarrow> bool" where
  "has_fill r = (ord_status r = FILLED \<or> ord_status r = PARTIAL)"

fun requote_loop ::
  "live_env \<Rightarrow> (nat \<Rightarrow> string \<Rightarrow> string \<Rightarrow> int \<Rightarrow> walk_result) \<Rightarrow> fallback_args \<Rightarrow> nat \<Rightarrow> nat
   \<Rightarrow> order option \<Rightarrow> string list \<Rightarrow> live \<Rightarrow> live \<times> requote_end" where
  "requote_loop env walk a attempt 0 last_order msgs s = (s, RqExhausted last_order msgs)"
| "requote_loop env walk a attempt (Suc left) last_order msgs s =
     (let s1 = log_call (CWalk (fb_platform a) (fb_market a) (fb_side a) (fb_qty a)) s;
          ceiling = requote_ceiling a (left = 0);
          rq = ''RQ'' @ digits attempt;
          skip = (\<lambda>note. requote_loop env walk a (attempt + 1) left last_order (msgs @ [rq @ note]) s1)
      in case walk (tick s) (fb_market a) (fb_side a) (fb_qty a) of
           WalkRaised \<Rightarrow> skip '':walk-error''
         | Walked fillable walked \<Rightarrow>
             if \<not> fillable \<or> walked \<le> 0 then skip '':no-book''
             else if ceiling + 1 / 10 ^ 9 < walked then skip '':walked={}>cap={}''
             else case place_order_for_leg env
                         (fb_request a (''-'' @ rq) ceiling True (Some (fb_arb_id a))) s1 of
                    (s2, None) \<Rightarrow> (s2, RqRaised)
                  | (s2, Some r) \<Rightarrow>
                      if has_fill r then (s2, RqDone r)
                      else if ord_idempotency_ambiguous r
                      then (s2, RqDone (r\<lparr>ord_error := ord_error r
                                   @ ''; requote retry suppressed - idempotency unproven''\<rparr>))
                      else requote_loop env walk a (attempt + 1) left (Some r)
                             (msgs @ [rq @ '':'' @ status_text (ord_status r)]) s2)"

datatype fallback_result = FbRaised | FbNothing | FbOrder order

definition joined :: "string list \<Rightarrow> string" where
  "joined msgs = (case msgs of [] \<Rightarrow> ''none'' | n # ns \<Rightarrow> concat (n # map (\<lambda>m. ''; '' @ m) ns))"

definition last_rung ::
  "live_env \<Rightarrow> fallback_args \<Rightarrow> order option \<Rightarrow> string list \<Rightarrow> live \<Rightarrow> live \<times> fallback_result" where
  "last_rung env a last_order msgs s =
     (case place_order_for_leg env
             (fb_request a ''-F3'' (fb_max_affordable a) False (Some (fb_arb_id a))) s of
        (s1, None) \<Rightarrow> (s1, FbRaised)
      | (s1, Some r3) \<Rightarrow>
          if ord_status r3 = FILLED then (s1, FbOrder r3)
          else let final = (case last_order of None \<Rightarrow> r3 | Some r \<Rightarrow> r);
                   first_status = (case last_order of None \<Rightarrow> ''skipped''
                                   | Some r \<Rightarrow> status_text (ord_status r))
               in (s1, FbOrder (final\<lparr>ord_error := ''All fallbacks exhausted: IOC@'' @ ''{} -> '' @ first_status
                         @ '', requote['' @ joined msgs @ ''], FOK@'' @ ''{} -> ''
                         @ status_text (ord_status r3)\<rparr>)))"

definition after_initial ::
  "live_env \<Rightarrow> fallback_args \<Rightarrow> order option \<Rightarrow> live \<Rightarrow> live \<times> fallback_result" where
  "after_initial env a first_order s =
     (let walk = (case le_adapters env (fb_platform a) of None \<Rightarrow> None | Some ad \<Rightarrow> ad_walk ad);
          (s1, e) = (case walk of
                       None \<Rightarrow> (s, RqExhausted first_order [])
                     | Some w \<Rightarrow> requote_loop env w a 1 (le_requote_attempts env) first_order [] s)
      in case e of
           RqRaised \<Rightarrow> (s1, FbRaised)
         | RqDone r \<Rightarrow> (s1, FbOrder r)
         | RqExhausted last_order msgs \<Rightarrow>
             if fb_skip_initial a \<and> last_order = None then (s1, FbNothing)
             else last_rung env a last_order msgs s1)"

definition execute_with_fallbacks ::
  "live_env \<Rightarrow> fallback_args \<Rightarrow> live \<Rightarrow> live \<times> fallback_result" where
  "execute_with_fallbacks env a s =
     (if fb_skip_initial a then after_initial env a None s
      else case place_order_for_leg env (fb_request a [] (fb_initial_price a) True None) s of
             (s1, None) \<Rightarrow> (s1, FbRaised)
           | (s1, Some r) \<Rightarrow>
               if has_fill r then (s1, FbOrder r)
               else if ord_idempotency_ambiguous r
               then (s1, FbOrder (r\<lparr>ord_error := ord_error r
                       @ ''; fallback retry suppressed - idempotency unproven''\<rparr>))
               else after_initial env a (Some r) s1)"

section \<open>What a leg does to the log\<close>

definition is_place :: "venue_call \<Rightarrow> bool" where
  "is_place c = (case c of CPlace pl a sd x n k \<Rightarrow> True | _ \<Rightarrow> False)"

definition is_persist :: "venue_call \<Rightarrow> bool" where
  "is_persist c = (case c of CPersist a r ok \<Rightarrow> True | _ \<Rightarrow> False)"

definition quiet :: "venue_call list \<Rightarrow> bool" where
  "quiet cs = list_all (\<lambda>c. \<not> is_place c \<and> \<not> is_persist c) cs"

text \<open>\<open>extends s s' cs\<close>: the calls made from \<open>s\<close> to \<open>s'\<close>.\<close>

definition extends :: "live \<Rightarrow> live \<Rightarrow> venue_call list \<Rightarrow> bool" where
  "extends s s' cs = (lv_calls s' = lv_calls s @ cs)"

lemma call_kinds [simp]:
  "is_place (CPlace pl a sd x n k)" "\<not> is_place (CWalk pl m sd n)" "\<not> is_place (CPersist a r ok)"
  "\<not> is_place (CCancel pl a)" "\<not> is_place (CGetOrder pl a)" "\<not> is_place (COpenOrders pl a)"
  "\<not> is_place (CDepth pl m sd n)" "\<not> is_place (CRestingSell pl sd x n)" "\<not> is_place (CUnwindSell pl sd n)"
  "\<not> is_place (CReconciled a x)" "\<not> is_place (CRecordArb a ok)"
  "\<not> is_persist (CDepth pl m sd n)" "\<not> is_persist (CRestingSell pl sd x n)"
  "\<not> is_persist (CUnwindSell pl sd n)" "\<not> is_persist (CReconciled a x)" "\<not> is_persist (CRecordArb a ok)"
  "is_persist (CPersist a r ok)" "\<not> is_persist (CPlace pl a sd x n k)" "\<not> is_persist (CWalk pl m sd n)"
  "\<not> is_persist (CCancel pl a)" "\<not> is_persist (CGetOrder pl a)" "\<not> is_persist (COpenOrders pl a)"
  by (simp_all add: is_place_def is_persist_def)

lemma extends_refl [simp]: "extends s s []"
  by (simp add: extends_def)

lemma extends_trans: "extends s s1 cs \<Longrightarrow> extends s1 s2 ds \<Longrightarrow> extends s s2 (cs @ ds)"
  by (simp add: extends_def)

lemma extends_log [simp]: "extends s (log_call c s) cs \<longleftrightarrow> cs = [c]"
  by (auto simp: extends_def log_call_def)

lemma quiet_simps [simp]: "quiet []" "quiet (cs @ ds) \<longleftrightarrow> quiet cs \<and> quiet ds"
  "quiet (c # cs) \<longleftrightarrow> \<not> is_place c \<and> \<not> is_persist c \<and> quiet cs"
  by (auto simp: quiet_def)

lemma log_engine [simp]: "lv_engine (log_call c s) = lv_engine s"
  by (simp add: log_call_def)

text \<open>A quiet stretch of calls: nothing placed, nothing written, the engine as it was.\<close>

definition quietly :: "live \<Rightarrow> live \<Rightarrow> bool" where
  "quietly s s' = (lv_engine s' = lv_engine s \<and> (\<exists>cs. extends s s' cs \<and> quiet cs))"

lemma quietly_refl [simp]: "quietly s s"
  unfolding quietly_def by (intro conjI refl exI[of _ "[]"]) simp_all

lemma quietly_trans: "quietly s s1 \<Longrightarrow> quietly s1 s2 \<Longrightarrow> quietly s s2"
  unfolding quietly_def by (metis extends_trans quiet_simps(2))

lemma quietly_log [simp]: "\<not> is_place c \<Longrightarrow> \<not> is_persist c \<Longrightarrow> quietly s (log_call c s)"
  unfolding quietly_def by (intro conjI exI[of _ "[c]"]) simp_all

lemma cancel_each_quiet: "quietly s (fst (cancel_each ad platform rs s))"
proof (induction rs arbitrary: s)
  case (Cons r rs)
  have "quietly s (log_call (CCancel platform (ord_id r)) s)" by simp
  from quietly_trans[OF this Cons.IH] show ?case
    by (simp add: Let_def case_prod_unfold)
qed simp

lemma timeout_quiet: "quietly s (fst (timeout_recovery env ad a platform q s))"
  unfolding timeout_recovery_def Let_def case_prod_unfold fst_conv
  by (rule quietly_trans[OF _ cancel_each_quiet]) simp

lemma poll_loop_quiet: "quietly s (fst (poll_loop get n r s))"
proof (induction n arbitrary: r s)
  case (Suc n)
  have "quietly s (log_call (CGetOrder (ord_platform r) (ord_id r)) s)" by simp
  from quietly_trans[OF this Suc.IH] this show ?case
    by (simp add: Let_def split: option.split)
qed simp

lemma recheck_quiet: "quietly s (fst (cancel_and_recheck ad get r s))"
  unfolding cancel_and_recheck_def Let_def fst_conv
  by (rule quietly_trans[of _ "log_call (CCancel (ord_platform r) (ord_id r)) s"]) simp_all

lemma poll_quiet: "quietly s (fst (poll_submitted_to_terminal env ad r s))"
  using quietly_trans[OF poll_loop_quiet recheck_quiet]
  by (auto simp: poll_submitted_to_terminal_def Let_def case_prod_unfold poll_loop_quiet
      split: option.split)

definition db_blocked :: "live \<Rightarrow> bool" where
  "db_blocked s = sv_db_write_failed (en_safety (lv_engine s))"

lemma trip_keeps_db_flag [simp]:
  "sv_db_write_failed (trip_kill actor reason persist now env s) = sv_db_write_failed s"
  by (simp add: trip_kill_def Let_def sv_publish_def insert_safety_event_def sv_set_redis_def
      sv_notify_def split: option.split)

lemma db_failure_blocks [simp]:
  "sv_db_write_failed (en_safety (handle_db_failure env op_name a cid en))"
  by (simp add: handle_db_failure_def Let_def push_incident_def)

lemma persist_effect:
  "(xe_db (le_exec env) = None \<and> persist_leg env op_name a cid r s = s)
   \<or> (\<exists>ok. extends s (persist_leg env op_name a cid r s) [CPersist a r ok]
        \<and> db_blocked (persist_leg env op_name a cid r s) = (db_blocked s \<or> \<not> ok))"
  by (auto simp: persist_leg_def Let_def extends_def log_call_def on_engine_def db_blocked_def)

text \<open>
  One placement: nothing at all without an adapter or while the store is blocked, and otherwise one
  order with the requested side, price and quantity, quiet calls, and the write of the outcome.
\<close>

lemma place_cases:
  assumes "place_order_for_leg env q s = (s', res)"
  obtains (unsent) r where "s' = s" "res = Some r" "\<not> has_fill r" "\<not> ord_idempotency_ambiguous r"
      "ord_fill_qty r = 0"
  | (raised) kind where "\<not> db_blocked s" "res = None" "lv_engine s' = lv_engine s"
      "extends s s' [CPlace (lr_platform q) (lr_arb_id q) (lr_side q) (lr_price q) (lr_qty q) kind]"
  | (placed) kind mid last r where "\<not> db_blocked s" "res = Some r" "quiet mid"
      "extends s s' (CPlace (lr_platform q) (lr_arb_id q) (lr_side q) (lr_price q) (lr_qty q) kind # mid @ last)"
      "last = [] \<and> xe_db (le_exec env) = None \<and> db_blocked s' = db_blocked s
       \<or> (\<exists>a ok. last = [CPersist a r ok] \<and> db_blocked s' = (\<not> ok))"
proof (cases "le_adapters env (lr_platform q)")
  case None
  with assms have "s' = s" "\<exists>r. res = Some r \<and> \<not> has_fill r \<and> \<not> ord_idempotency_ambiguous r \<and> ord_fill_qty r = 0"
    by (auto simp: place_order_for_leg_def Let_def leg_order_def has_fill_def)
  then show ?thesis using unsent by blast
next
  case (Some ad)
  show ?thesis
  proof (cases "db_blocked s")
    case True
    with Some assms
    have "s' = s" "\<exists>r. res = Some r \<and> \<not> has_fill r \<and> \<not> ord_idempotency_ambiguous r \<and> ord_fill_qty r = 0"
      by (auto simp: place_order_for_leg_def Let_def leg_order_def has_fill_def db_blocked_def)
    then show ?thesis using unsent by blast
  next
    case False
    define kind where "kind = (if lr_ioc q \<and> ad_has_ioc ad then TIF_IOC else TIF_FOK)"
    define c where "c = CPlace (lr_platform q) (lr_arb_id q) (lr_side q) (lr_price q) (lr_qty q) kind"
    define answer where "answer = ad_place ad (tick s) kind (lr_arb_id q) (lr_market q) (lr_cid q)
        (lr_side q) (lr_price q) (lr_qty q)"
    define mk where "mk = leg_order (lr_arb_id q @ ''-'' @ py_upper (lr_side q))
        (lr_platform q) (lr_market q) (lr_cid q) (lr_side q) (lr_price q) (lr_qty q) PENDING
        (xe_now (le_exec env)) []"
    have eq: "place_order_for_leg env q s =
      (case answer of PlaceRaised \<Rightarrow> (log_call c s, None)
       | _ \<Rightarrow>
         let (s2, r) = (case answer of Placed r \<Rightarrow> (log_call c s, r)
                        | _ \<Rightarrow> timeout_recovery env ad (lr_arb_id q) (lr_platform q) mk (log_call c s));
             (s3, r') = (if ord_status r = SUBMITTED then poll_submitted_to_terminal env ad r s2 else (s2, r))
         in (persist_leg env (if lr_first q then ''record_arb_stub_with_leg'' else ''upsert_order'')
              (case lr_persist_id q of None \<Rightarrow> lr_arb_id q | Some a \<Rightarrow> or_str a (lr_arb_id q))
              (lr_cid q) r' s3, Some r'))"
      using False Some
      by (simp add: place_order_for_leg_def Let_def db_blocked_def kind_def[symmetric] c_def[symmetric]
          answer_def[symmetric] mk_def case_prod_unfold split: place_result.split)
    show ?thesis
    proof (cases "answer = PlaceRaised")
      case True
      with assms show ?thesis
        by (intro raised[OF False, of kind]) (auto simp: eq c_def)
    next
      case False': False
      define s2 where "s2 = fst (case answer of Placed r \<Rightarrow> (log_call c s, r)
                        | _ \<Rightarrow> timeout_recovery env ad (lr_arb_id q) (lr_platform q) mk (log_call c s))"
      define r where "r = snd (case answer of Placed r \<Rightarrow> (log_call c s, r)
                        | _ \<Rightarrow> timeout_recovery env ad (lr_arb_id q) (lr_platform q) mk (log_call c s))"
      define s3 where "s3 = fst (if ord_status r = SUBMITTED
          then poll_submitted_to_terminal env ad r s2 else (s2, r))"
      define r' where "r' = snd (if ord_status r = SUBMITTED
          then poll_submitted_to_terminal env ad r s2 else (s2, r))"
      have "quietly (log_call c s) s2"
        using False' timeout_quiet by (cases answer) (simp_all add: s2_def)
      moreover have "quietly s2 s3" using poll_quiet by (simp add: s3_def)
      ultimately have q: "quietly (log_call c s) s3" by (rule quietly_trans)
      then obtain mid where mid: "extends s s3 (c # mid)" "quiet mid" "lv_engine s3 = lv_engine s"
        unfolding quietly_def by (auto simp: extends_def log_call_def)
      from eq assms have res: "res = Some r'" and s': "\<exists>opn a cid. s' = persist_leg env opn a cid r' s3"
        using False' by (auto simp: Let_def case_prod_unfold s2_def r_def s3_def r'_def split: place_result.splits)
      from s' obtain opn a cid where s'': "s' = persist_leg env opn a cid r' s3" by blast
      have unblocked: "\<not> db_blocked s3" using False mid(3) by (simp add: db_blocked_def)
      from persist_effect[of env opn a cid r' s3] show ?thesis
      proof (elim disjE conjE exE)
        assume "xe_db (le_exec env) = None" "persist_leg env opn a cid r' s3 = s3"
        with mid res s'' unblocked False show ?thesis
          by (intro placed[OF False res mid(2), of kind "[]"]) (simp_all add: c_def)
      next
        fix ok assume p: "extends s3 (persist_leg env opn a cid r' s3) [CPersist a r' ok]"
          "db_blocked (persist_leg env opn a cid r' s3) = (db_blocked s3 \<or> \<not> ok)"
        from extends_trans[OF mid(1) p(1)] p(2) unblocked show ?thesis
          by (intro placed[OF False res mid(2), of kind "[CPersist a r' ok]"]) (auto simp: s'' c_def)
      qed
    qed
  qed
qed

section \<open>When a chain of orders stops\<close>

text \<open>
  A written outcome after which no further order for the leg may be sent: it filled, its fate at the
  venue is unknown, or the write itself failed.
\<close>

definition stopper :: "venue_call \<Rightarrow> bool" where
  "stopper c = (case c of CPersist a r ok \<Rightarrow> has_fill r \<or> ord_idempotency_ambiguous r \<or> \<not> ok
     | _ \<Rightarrow> False)"

fun silent_after :: "(venue_call \<Rightarrow> bool) \<Rightarrow> venue_call list \<Rightarrow> bool" where
  "silent_after P [] = True"
| "silent_after P (c # cs) = ((P c \<longrightarrow> \<not> list_ex is_place cs) \<and> silent_after P cs)"

definition placed_count :: "venue_call list \<Rightarrow> nat" where
  "placed_count cs = length (filter is_place cs)"

lemma silent_append [simp]:
  "silent_after P (cs @ ds) \<longleftrightarrow>
     silent_after P cs \<and> silent_after P ds \<and> (list_ex P cs \<longrightarrow> \<not> list_ex is_place ds)"
  by (induction cs) auto

lemma placed_count_simps [simp]:
  "placed_count [] = 0" "placed_count (cs @ ds) = placed_count cs + placed_count ds"
  "placed_count (c # cs) = (if is_place c then Suc (placed_count cs) else placed_count cs)"
  by (simp_all add: placed_count_def)

lemma stopper_persist: "stopper c \<Longrightarrow> is_persist c"
  by (auto simp: stopper_def split: venue_call.splits)

lemma quiet_facts:
  assumes "quiet cs"
  shows "silent_after stopper cs" "\<not> list_ex stopper cs" "\<not> list_ex is_place cs" "placed_count cs = 0"
    "list_all (\<lambda>c. is_place c \<longrightarrow> ok c) cs"
proof -
  show "silent_after stopper cs"
    using assms by (induction cs) (auto dest: stopper_persist)
  show "\<not> list_ex stopper cs" "\<not> list_ex is_place cs" "placed_count cs = 0"
    "list_all (\<lambda>c. is_place c \<longrightarrow> ok c) cs"
    using assms by (auto simp: quiet_def list_ex_iff list_all_iff placed_count_def filter_empty_conv
        dest: stopper_persist)
qed

text \<open>
  \<open>leg_run s s' ended ok n\<close>: from \<open>s\<close> to \<open>s'\<close> at most \<open>n\<close> orders were sent, all of them \<open>ok\<close>, none
  after a stopper, none while the store is blocked; and after a stopper the run has \<open>ended\<close> or the
  store is blocked.
\<close>

definition leg_run :: "live \<Rightarrow> live \<Rightarrow> bool \<Rightarrow> (venue_call \<Rightarrow> bool) \<Rightarrow> nat \<Rightarrow> bool" where
  "leg_run s s' ended ok n =
     (\<exists>cs. extends s s' cs \<and> silent_after stopper cs \<and> list_all (\<lambda>c. is_place c \<longrightarrow> ok c) cs
        \<and> placed_count cs \<le> n \<and> (db_blocked s \<longrightarrow> db_blocked s' \<and> \<not> list_ex is_place cs)
        \<and> (list_ex stopper cs \<longrightarrow> ended \<or> db_blocked s'))"

lemma leg_run_quiet: "quietly s s' \<Longrightarrow> leg_run s s' e ok n"
  unfolding quietly_def leg_run_def db_blocked_def using quiet_facts by (metis le0)

lemma leg_run_trans:
  assumes "leg_run s s1 False ok n" "leg_run s1 s2 e ok k"
  shows "leg_run s s2 e ok (n + k)"
proof -
  from assms(1) obtain cs where c: "extends s s1 cs" "silent_after stopper cs"
    "list_all (\<lambda>c. is_place c \<longrightarrow> ok c) cs" "placed_count cs \<le> n"
    "db_blocked s \<longrightarrow> db_blocked s1 \<and> \<not> list_ex is_place cs" "list_ex stopper cs \<longrightarrow> db_blocked s1"
    by (auto simp: leg_run_def)
  from assms(2) obtain ds where d: "extends s1 s2 ds" "silent_after stopper ds"
    "list_all (\<lambda>c. is_place c \<longrightarrow> ok c) ds" "placed_count ds \<le> k"
    "db_blocked s1 \<longrightarrow> db_blocked s2 \<and> \<not> list_ex is_place ds" "list_ex stopper ds \<longrightarrow> e \<or> db_blocked s2"
    by (auto simp: leg_run_def)
  have "silent_after stopper (cs @ ds)" "list_all (\<lambda>c. is_place c \<longrightarrow> ok c) (cs @ ds)"
    "placed_count (cs @ ds) \<le> n + k" "db_blocked s \<longrightarrow> db_blocked s2 \<and> \<not> list_ex is_place (cs @ ds)"
    "list_ex stopper (cs @ ds) \<longrightarrow> e \<or> db_blocked s2"
    using c(2-) d(2-) by auto
  then show ?thesis unfolding leg_run_def using extends_trans[OF c(1) d(1)] by blast
qed

lemma leg_run_weaken:
  assumes "leg_run s s' e ok n" "e \<Longrightarrow> e'" "n \<le> k"
  shows "leg_run s s' e' ok k"
  using assms unfolding leg_run_def by (meson order_trans)

lemma place_run:
  assumes "place_order_for_leg env q s = (s', res)"
    and "\<And>kind. ok (CPlace (lr_platform q) (lr_arb_id q) (lr_side q) (lr_price q) (lr_qty q) kind)"
  shows "leg_run s s' (\<exists>r. res = Some r \<and> (has_fill r \<or> ord_idempotency_ambiguous r)) ok 1"
  using assms(1)
proof (cases rule: place_cases)
  case unsent
  then show ?thesis by (intro leg_run_quiet) simp
next
  case (raised kind)
  then show ?thesis using assms(2)
    by (auto simp: leg_run_def db_blocked_def stopper_def intro!: exI)
next
  case (placed kind mid last r)
  note q = quiet_facts[OF placed(3)]
  have "\<not> stopper (CPlace pl a sd x n k)" for pl a sd x n k by (simp add: stopper_def)
  with placed(5) q show ?thesis using placed(1,2,4) assms(2)
    unfolding leg_run_def
    by (intro exI[of _ "CPlace (lr_platform q) (lr_arb_id q) (lr_side q) (lr_price q) (lr_qty q) kind
        # mid @ last"]) (auto simp: stopper_def)
qed

definition chain_cap :: "fallback_args \<Rightarrow> flt" where
  "chain_cap a = (case fb_break_even a of None \<Rightarrow> fb_max_affordable a
     | Some b \<Rightarrow> max b (fb_max_affordable a))"

definition within_cap :: "fallback_args \<Rightarrow> venue_call \<Rightarrow> bool" where
  "within_cap a c = (case c of
       CPlace pl aid sd x n k \<Rightarrow> pl = fb_platform a \<and> sd = fb_side a \<and> n = fb_qty a \<and> x \<le> chain_cap a
     | _ \<Rightarrow> True)"

lemma request_within_cap:
  assumes "place_order_for_leg env (fb_request a suffix x ioc pid) s = (s', res)" "x \<le> chain_cap a"
  shows "leg_run s s' (\<exists>r. res = Some r \<and> (has_fill r \<or> ord_idempotency_ambiguous r)) (within_cap a) 1"
  using assms(2) by (intro place_run[OF assms(1)]) (simp add: fb_request_def within_cap_def)

lemma ceiling_within_cap: "requote_ceiling a f \<le> chain_cap a" "fb_max_affordable a \<le> chain_cap a"
  by (auto simp: requote_ceiling_def chain_cap_def split: option.split)

lemma requote_run:
  "requote_loop env walk a attempt left last_order msgs s = (s', e)
   \<Longrightarrow> leg_run s s' (\<forall>r ns. e \<noteq> RqExhausted r ns) (within_cap a) left"
proof (induction left arbitrary: attempt last_order msgs s)
  case 0
  then show ?case by (auto intro: leg_run_quiet)
next
  case (Suc left)
  let ?s1 = "log_call (CWalk (fb_platform a) (fb_market a) (fb_side a) (fb_qty a)) s"
  let ?fin = "\<forall>r ns. e \<noteq> RqExhausted r ns"
  let ?x = "requote_ceiling a (left = 0)"
  have walk: "leg_run s ?s1 False (within_cap a) 0" by (rule leg_run_quiet) simp
  have skip: ?case if ex: "\<exists>r ns. requote_loop env walk a (attempt + 1) left r ns ?s1 = (s', e)"
  proof -
    from ex obtain r ns where "requote_loop env walk a (attempt + 1) left r ns ?s1 = (s', e)" by blast
    from leg_run_weaken[OF leg_run_trans[OF walk Suc.IH[OF this]]] show ?thesis by simp
  qed
  show ?case
  proof (cases "walk (tick s) (fb_market a) (fb_side a) (fb_qty a)")
    case WalkRaised
    with Suc.prems have "\<exists>r ns. requote_loop env walk a (attempt + 1) left r ns ?s1 = (s', e)"
      by (simp add: Let_def) blast
    then show ?thesis by (rule skip)
  next
    case (Walked fillable walked)
    show ?thesis
    proof (cases "\<not> fillable \<or> walked \<le> 0 \<or> ?x + 1 / 10 ^ 9 < walked")
      case True
      with Walked Suc.prems have "\<exists>r ns. requote_loop env walk a (attempt + 1) left r ns ?s1 = (s', e)"
        by (simp add: Let_def split: if_splits) blast+
      then show ?thesis by (rule skip)
    next
      case False
      obtain s2 res where p: "place_order_for_leg env (fb_request a (''-'' @ ''RQ'' @ digits attempt) ?x True
          (Some (fb_arb_id a))) ?s1 = (s2, res)" by (metis surj_pair)
      note run = request_within_cap[OF p ceiling_within_cap(1)]
      show ?thesis
      proof (cases "\<exists>r. res = Some r \<and> \<not> has_fill r \<and> \<not> ord_idempotency_ambiguous r")
        case True
        then obtain r where r: "res = Some r" "\<not> has_fill r" "\<not> ord_idempotency_ambiguous r" by blast
        with Suc.prems False Walked p obtain ns where
          rest: "requote_loop env walk a (attempt + 1) left (Some r) ns s2 = (s', e)"
          by (auto simp: Let_def)
        have "leg_run ?s1 s2 False (within_cap a) 1" using leg_run_weaken[OF run, of False 1] r by simp
        from leg_run_weaken[OF leg_run_trans[OF walk leg_run_trans[OF this Suc.IH[OF rest]]]]
        show ?thesis by simp
      next
        case ended: False
        with Suc.prems False Walked p have "s' = s2 \<and> ?fin"
          by (cases res) (auto simp: Let_def split: if_splits)
        with leg_run_weaken[OF leg_run_trans[OF walk run], of ?fin "Suc left"] show ?thesis by simp
      qed
    qed
  qed
qed

lemma after_initial_run:
  assumes "after_initial env a r0 s = (s', res)"
  shows "leg_run s s' True (within_cap a) (le_requote_attempts env + 1)"
proof -
  let ?walk = "case le_adapters env (fb_platform a) of None \<Rightarrow> None | Some ad \<Rightarrow> ad_walk ad"
  obtain s1 e where e: "(case ?walk of None \<Rightarrow> (s, RqExhausted r0 [])
      | Some w \<Rightarrow> requote_loop env w a 1 (le_requote_attempts env) r0 [] s) = (s1, e)" by (metis surj_pair)
  have loop: "leg_run s s1 (\<forall>r ns. e \<noteq> RqExhausted r ns) (within_cap a) (le_requote_attempts env)"
    using e by (cases ?walk) (auto intro: leg_run_quiet requote_run)
  show ?thesis
  proof (cases e)
    case RqRaised
    with assms e have "s' = s1" by (simp add: after_initial_def Let_def)
    with leg_run_weaken[OF loop] show ?thesis by simp
  next
    case (RqDone r)
    with assms e have "s' = s1" by (simp add: after_initial_def Let_def)
    with leg_run_weaken[OF loop] show ?thesis by simp
  next
    case (RqExhausted last_order msgs)
    have loop': "leg_run s s1 False (within_cap a) (le_requote_attempts env)"
      using leg_run_weaken[OF loop, of False] RqExhausted by simp
    show ?thesis
    proof (cases "fb_skip_initial a \<and> last_order = None")
      case True
      with assms e RqExhausted have "s' = s1" by (simp add: after_initial_def Let_def)
      with leg_run_weaken[OF loop', of True] show ?thesis by simp
    next
      case False
      obtain s2 q where p: "place_order_for_leg env (fb_request a ''-F3'' (fb_max_affordable a) False
          (Some (fb_arb_id a))) s1 = (s2, q)" by (metis surj_pair)
      with assms e RqExhausted False have "s' = s2"
        by (auto simp: after_initial_def Let_def last_rung_def split: option.splits if_splits)
      with leg_run_weaken[OF leg_run_trans[OF loop' request_within_cap[OF p ceiling_within_cap(2)]], of True]
      show ?thesis by simp
    qed
  qed
qed

lemma fallbacks_run:
  assumes "execute_with_fallbacks env a s = (s', res)"
    and "fb_skip_initial a \<or> fb_initial_price a \<le> chain_cap a"
  shows "leg_run s s' True (within_cap a) (le_requote_attempts env + 2)"
proof (cases "fb_skip_initial a")
  case True
  with assms(1) have "after_initial env a None s = (s', res)" by (simp add: execute_with_fallbacks_def)
  from leg_run_weaken[OF after_initial_run[OF this], of True "le_requote_attempts env + 2"]
  show ?thesis by simp
next
  case False
  with assms(2) have cap: "fb_initial_price a \<le> chain_cap a" by simp
  obtain s1 q where p: "place_order_for_leg env (fb_request a [] (fb_initial_price a) True None) s = (s1, q)"
    by (metis surj_pair)
  note run = request_within_cap[OF p cap]
  show ?thesis
  proof (cases "\<exists>r. q = Some r \<and> \<not> has_fill r \<and> \<not> ord_idempotency_ambiguous r")
    case True
    then obtain r where r: "q = Some r" "\<not> has_fill r" "\<not> ord_idempotency_ambiguous r" by blast
    with assms(1) False p have rest: "after_initial env a (Some r) s1 = (s', res)"
      by (simp add: execute_with_fallbacks_def)
    have "leg_run s s1 False (within_cap a) 1" using leg_run_weaken[OF run, of False 1] r by simp
    from leg_run_weaken[OF leg_run_trans[OF this after_initial_run[OF rest]], of True] show ?thesis by simp
  next
    case ended: False
    with assms(1) False p have "s' = s1"
      by (cases q) (auto simp: execute_with_fallbacks_def split: if_splits)
    with leg_run_weaken[OF run, of True "le_requote_attempts env + 2"] show ?thesis by simp
  qed
qed

section \<open>Which calls were made\<close>

text \<open>\<open>only K\<close>: all new calls are \<open>K\<close>; \<open>emits P s s' ps\<close>: the new calls that are \<open>P\<close> are \<open>ps\<close>, in order.\<close>

definition only :: "(venue_call \<Rightarrow> bool) \<Rightarrow> live \<Rightarrow> live \<Rightarrow> bool" where
  "only K s s' = (\<exists>cs. extends s s' cs \<and> list_all K cs)"

definition emits :: "(venue_call \<Rightarrow> bool) \<Rightarrow> live \<Rightarrow> live \<Rightarrow> venue_call list \<Rightarrow> bool" where
  "emits P s s' ps = (\<exists>cs. extends s s' cs \<and> filter P cs = ps)"

lemma extends_engine [simp]: "extends s (on_engine f s') cs = extends s s' cs"
  by (simp add: extends_def on_engine_def)

lemma only_refl [simp]: "only K s s"
  unfolding only_def by (intro exI[of _ "[]"]) simp

lemma only_trans: "only K s s1 \<Longrightarrow> only K s1 s2 \<Longrightarrow> only K s s2"
  unfolding only_def by (metis extends_trans list_all_append)

lemma only_log [simp]: "K c \<Longrightarrow> only K s (log_call c s)"
  unfolding only_def by (intro exI[of _ "[c]"]) simp

lemma only_engine [simp]: "only K s (on_engine f s') = only K s s'"
  by (simp add: only_def)

lemma only_log_after: "only K s s' \<Longrightarrow> K c \<Longrightarrow> only K s (log_call c s')"
  using only_trans only_log by blast

lemma emits_refl [simp]: "emits P s s ps \<longleftrightarrow> ps = []"
  by (auto simp: emits_def extends_def)

lemma emits_trans: "emits P s s1 ps \<Longrightarrow> emits P s1 s2 qs \<Longrightarrow> emits P s s2 (ps @ qs)"
  unfolding emits_def by (metis extends_trans filter_append)

lemma emits_engine [simp]: "emits P s (on_engine f s') ps = emits P s s' ps"
  by (simp add: emits_def)

lemma emits_log [simp]: "emits P s (log_call c s) ps \<longleftrightarrow> ps = (if P c then [c] else [])"
  by (auto simp: emits_def)

lemma only_emits: "only K s s' \<Longrightarrow> (\<And>c. K c \<Longrightarrow> \<not> P c) \<Longrightarrow> emits P s s' []"
  by (auto simp: only_def emits_def list_all_iff filter_empty_conv)

lemma emits_unique: "emits P s s' ps \<Longrightarrow> lv_calls s' = lv_calls s @ cs \<Longrightarrow> filter P cs = ps"
  by (auto simp: emits_def extends_def)

lemma quietly_only: "quietly s s' \<Longrightarrow> (\<And>c. \<not> is_place c \<Longrightarrow> \<not> is_persist c \<Longrightarrow> K c) \<Longrightarrow> only K s s'"
  by (auto simp: quietly_def only_def quiet_def list_all_iff)

lemma persist_only: "(\<And>a r ok. K (CPersist a r ok)) \<Longrightarrow> only K s (persist_leg env opn a cid r s)"
  by (simp add: persist_leg_def Let_def)

lemma only_mono: "only K s s' \<Longrightarrow> (\<And>c. K c \<Longrightarrow> L c) \<Longrightarrow> only L s s'"
  by (auto simp: only_def list_all_iff)

lemma tick_log [simp]: "tick (log_call c s) = Suc (tick s)"
  by (simp add: tick_def log_call_def)

text \<open>
  C11.  The fallback chain of one leg is bounded.  For arguments whose first order, if it is not skipped, is priced
  within the cap of the chain (the arguments the engine builds are), and whatever the venue answers, the chain sends at most
  the configured number of re-quotes plus two orders, each on the leg's venue and side, for the leg's quantity and
  at no more than that cap: the larger of the break-even price and of the affordable price it was given.  It sends
  nothing after a written outcome that filled or whose fate is unknown, nothing after a write that failed, and
  nothing at all while the store is blocked.
\<close>

theorem fallback_chain_safe:
  assumes "execute_with_fallbacks env a s = (s', res)" "lv_calls s' = lv_calls s @ cs"
    and "fb_skip_initial a \<or> fb_initial_price a \<le> chain_cap a"
  shows "placed_count cs \<le> le_requote_attempts env + 2
    \<and> list_all (within_cap a) (filter is_place cs) \<and> silent_after stopper cs
    \<and> (db_blocked s \<longrightarrow> placed_count cs = 0)"
proof -
  from fallbacks_run[OF assms(1,3)] obtain ds where "extends s s' ds" and ds: "silent_after stopper ds"
    "list_all (\<lambda>c. is_place c \<longrightarrow> within_cap a c) ds" "placed_count ds \<le> le_requote_attempts env + 2"
    "db_blocked s \<longrightarrow> db_blocked s' \<and> \<not> list_ex is_place ds"
    by (auto simp: leg_run_def)
  moreover from this(1) assms(2) have "ds = cs" by (simp add: extends_def)
  ultimately show ?thesis
    by (auto simp: list_all_iff placed_count_def filter_empty_conv list_ex_iff)
qed

text \<open>
  The last rung reports the order before it: when the final FOK neither fills nor provably dies, the
  leg that is returned has the status, the fill and the ambiguity mark of the earlier order.
\<close>

theorem last_fok_fate_dropped:
  assumes "place_order_for_leg env (fb_request a ''-F3'' (fb_max_affordable a) False (Some (fb_arb_id a))) s
      = (s1, Some r3)" "ord_status r3 \<noteq> FILLED" "last_rung env a (Some r) msgs s = (s', res)"
  shows "\<exists>err. res = FbOrder (r\<lparr>ord_error := err\<rparr>)"
  using assms by (auto simp: last_rung_def)

section \<open>A demonstration venue\<close>

text \<open>
  IOC orders fill (\<open>fills\<close>) or are killed; FOK orders time out; nothing can be cancelled.
\<close>

definition demo_adapter :: "bool \<Rightarrow> adapter" where
  "demo_adapter fills =
     \<lparr> ad_depth = None, ad_walk = None, ad_has_ioc = True,
       ad_place = (\<lambda>t kind a m cid sd x n.
          if kind = TIF_FOK then PlaceTimeout
          else if fills
          then Placed ((leg_order a ''forecastex'' m cid sd x n FILLED 60 [])\<lparr>ord_fill_price := x, ord_fill_qty := n\<rparr>)
          else Placed (leg_order a ''forecastex'' m cid sd x n CANCELLED 60 [])),
       ad_open_orders = (\<lambda>t prefix. Some []), ad_cancel = (\<lambda>t r. Some False), ad_get_order = None,
       ad_resting_sell = None, ad_unwind_sell = None \<rparr>"

definition demo_live_env :: "adapter \<Rightarrow> live_env" where
  "demo_live_env ad =
     \<lparr> le_exec = demo_exec_env, le_adapters = (\<lambda>pl. Some ad), le_balance = (\<lambda>pl. None),
       le_min_reserve = None, le_kalshi_first = False, le_slippage_ticks = (\<lambda>pl. None),
       le_buffer_min_net = None, le_primary_fok = (\<lambda>pl. False), le_requote_attempts = 0,
       le_poll_timeout = 8, le_poll_timeout_forecastex = 8, le_polls = (\<lambda>t. 3), le_rest_polls = 3,
       le_store_ok = (\<lambda>t. True) \<rparr>"

definition demo_fallback :: fallback_args where
  "demo_fallback =
     \<lparr> fb_arb_id = ''ARB-000001'', fb_platform = ''forecastex'', fb_market = ''n'', fb_cid = ''A'',
       fb_side = ''no'', fb_initial_price = 50/100, fb_qty = 10, fb_max_affordable = 52/100,
       fb_break_even = Some (59/100), fb_skip_initial = False \<rparr>"

lemma demo_live_fields:
  "le_adapters (demo_live_env ad) = (\<lambda>pl. Some ad)" "le_exec (demo_live_env ad) = demo_exec_env"
  "le_requote_attempts (demo_live_env ad) = 0" "xe_db demo_exec_env = None"
  "le_balance (demo_live_env ad) = (\<lambda>pl. None)" "le_kalshi_first (demo_live_env ad) = False"
  "le_slippage_ticks (demo_live_env ad) = (\<lambda>pl. None)" "le_buffer_min_net (demo_live_env ad) = None"
  "le_primary_fok (demo_live_env ad) = (\<lambda>pl. False)"
  by (simp_all add: demo_live_env_def demo_exec_env_def)

definition demo_live :: live where
  "demo_live = \<lparr>lv_engine = new_engine no_risk_env default_scanner_config (Some 100) 0 0
     (new_supervisor 30 [] None None) 0, lv_calls = []\<rparr>"

lemma demo_live_state [simp]:
  "\<not> sv_db_write_failed (en_safety (lv_engine demo_live))" "lv_calls demo_live = []"
  by (simp_all add: demo_live_def new_engine_def new_supervisor_def)

text \<open>How the demonstration venue answers a placement.\<close>

lemma demo_place:
  assumes "\<not> sv_db_write_failed (en_safety (lv_engine s))"
  shows "\<exists>s' r. place_order_for_leg (demo_live_env (demo_adapter fills)) q s = (s', Some r)
    \<and> (if lr_ioc q then (if fills then ord_status r = FILLED \<and> ord_fill_qty r = lr_qty q \<and> ord_fill_price r = lr_price q
                          else ord_status r = CANCELLED \<and> ord_fill_qty r = 0) \<and> \<not> ord_idempotency_ambiguous r
       else ord_status r = FAILED \<and> ord_idempotency_ambiguous r)
    \<and> lv_engine s' = lv_engine s \<and> ord_platform r = (if lr_ioc q then ''forecastex'' else lr_platform q)
    \<and> ord_side r = lr_side q \<and> ord_quantity r = lr_qty q
    \<and> filter is_place (drop (length (lv_calls s)) (lv_calls s'))
        = [CPlace (lr_platform q) (lr_arb_id q) (lr_side q) (lr_price q) (lr_qty q)
             (if lr_ioc q then TIF_IOC else TIF_FOK)]"
  using assms
  by (simp add: place_order_for_leg_def demo_live_fields demo_adapter_def Let_def leg_order_def
      persist_leg_def timeout_recovery_def log_call_def)

theorem last_fok_fate_dropped_witness:
  "\<exists>s1 r3 s' r'. place_order_for_leg (demo_live_env (demo_adapter False))
       (fb_request demo_fallback ''-F3'' (52/100) False (Some ''ARB-000001'')) demo_live = (s1, Some r3)
     \<and> ord_idempotency_ambiguous r3
     \<and> last_rung (demo_live_env (demo_adapter False)) demo_fallback
         (Some (leg_order [] ''forecastex'' ''n'' ''A'' ''no'' 1 10 CANCELLED 60 [])) []
         demo_live = (s', FbOrder r')
     \<and> \<not> ord_idempotency_ambiguous r'"
proof -
  let ?env = "demo_live_env (demo_adapter False)" and ?s = "demo_live"
  from demo_place[OF demo_live_state(1), of False "fb_request demo_fallback ''-F3'' (52/100) False (Some ''ARB-000001'')"]
  obtain s1 r3 where p: "place_order_for_leg ?env
      (fb_request demo_fallback ''-F3'' (52/100) False (Some ''ARB-000001'')) ?s = (s1, Some r3)"
    "ord_status r3 = FAILED" "ord_idempotency_ambiguous r3"
    by (auto simp: fb_request_def)
  obtain s' res where l: "last_rung ?env demo_fallback
      (Some (leg_order [] ''forecastex'' ''n'' ''A'' ''no'' 1 10 CANCELLED 60 [])) [] ?s = (s', res)"
    by (metis surj_pair)
  from last_fok_fate_dropped[OF _ _ l, of s1 r3] p obtain err where
    "res = FbOrder ((leg_order [] ''forecastex'' ''n'' ''A'' ''no'' 1 10 CANCELLED 60 [])\<lparr>ord_error := err\<rparr>)"
    by (auto simp: demo_fallback_def)
  with p l show ?thesis by (auto simp: leg_order_def)
qed

theorem fallback_chain_safe_witness:
  "placed_count (lv_calls (fst (execute_with_fallbacks (demo_live_env (demo_adapter False)) demo_fallback
     demo_live))) \<le> 2"
proof -
  let ?s = "demo_live"
  obtain s' res where x: "execute_with_fallbacks (demo_live_env (demo_adapter False)) demo_fallback ?s = (s', res)"
    by (metis surj_pair)
  have "fb_initial_price demo_fallback \<le> chain_cap demo_fallback"
    by (simp add: demo_fallback_def chain_cap_def)
  with fallback_chain_safe[OF x, of "lv_calls s'"] show ?thesis
    by (simp add: x demo_live_fields)
qed

end
