(* ===== verification/Recovery.thy ===== *)
theory Recovery
  imports Live_Orders Manual_Flow
begin

text \<open>
  Recovery of a one-leg position, from \<open>arbiter/execution/engine.py\<close>: \<open>_cancel_order\<close>,
  \<open>_verify_leg_dead\<close>, \<open>_smart_unwind\<close>, \<open>_auto_resolve_recovery_incidents\<close> and
  \<open>_recover_one_leg_risk\<close>.
\<close>

section \<open>Cancelling and verifying a leg\<close>

definition cancel_order ::
  "live_env \<Rightarrow> string \<Rightarrow> order \<Rightarrow> live \<Rightarrow> live \<times> order \<times> bool" where
  "cancel_order env arb_id r s =
     (case le_adapters env (ord_platform r) of
        None \<Rightarrow> (s, r, False)
      | Some ad \<Rightarrow>
          let s1 = log_call (CCancel (ord_platform r) (ord_id r)) s
          in if ad_cancel ad (tick s) r \<noteq> Some True then (s1, r, False)
             else if xe_db (le_exec env) = None then (s1, r, True)
             else let r' = r\<lparr>ord_status := CANCELLED\<rparr>
                  in (persist_leg env ''upsert_order_cancel'' arb_id (ord_canonical_id r) r' s1, r', True))"

definition leg_possibly_live :: "order \<Rightarrow> bool" where
  "leg_possibly_live r =
     (ord_idempotency_ambiguous r
      \<or> (let err = py_lower (ord_error r)
         in contains ''cancel failed'' err \<or> contains ''may be live'' err
            \<or> contains ''may still be live'' err))"

datatype leg_verdict = Dead | LateFill | Unprovable

definition verify_leg_dead :: "live_env \<Rightarrow> order \<Rightarrow> live \<Rightarrow> live \<times> order \<times> leg_verdict" where
  "verify_leg_dead env r s =
     (case le_adapters env (ord_platform r) of
        None \<Rightarrow> (s, r, Unprovable)
      | Some ad \<Rightarrow>
          (case ad_get_order ad of
             None \<Rightarrow> (s, r, Unprovable)
           | Some get \<Rightarrow>
               let s1 = log_call (CGetOrder (ord_platform r) (ord_id r)) s
               in case get (tick s) r of
                    None \<Rightarrow> (s1, r, Unprovable)
                  | Some u \<Rightarrow>
                      (s1, u, if 0 < ord_fill_qty u then LateFill
                              else if ord_idempotency_ambiguous u then Unprovable
                              else if ord_status u \<in> {CANCELLED, FAILED, ABORTED} then Dead
                              else Unprovable)))"

section \<open>Selling back\<close>

text \<open>\<open>None\<close>: the adapter raised, or has no \<open>place_unwind_sell\<close>.\<close>

definition market_sell ::
  "adapter \<Rightarrow> string \<Rightarrow> order \<Rightarrow> int \<Rightarrow> live \<Rightarrow> live \<times> order option" where
  "market_sell ad arb_id leg qty s =
     (case ad_unwind_sell ad of
        None \<Rightarrow> (s, None)
      | Some sell \<Rightarrow>
          (log_call (CUnwindSell (ord_platform leg) (ord_side leg) qty) s,
           sell (tick s) (arb_id @ ''-UNWIND'') (ord_market_id leg) (ord_canonical_id leg)
             (ord_side leg) qty))"

definition filled_enough :: "order \<Rightarrow> int \<Rightarrow> bool" where
  "filled_enough r qty = (ord_status r = FILLED \<and> of_int qty * (99/100) \<le> (of_int (ord_fill_qty r) :: flt))"

definition read_order :: "adapter \<Rightarrow> order \<Rightarrow> live \<Rightarrow> live \<times> order option" where
  "read_order ad r s =
     (case ad_get_order ad of
        None \<Rightarrow> (s, None)
      | Some get \<Rightarrow> (log_call (CGetOrder (ord_platform r) (ord_id r)) s, get (tick s) r))"

fun rest_loop :: "adapter \<Rightarrow> nat \<Rightarrow> int \<Rightarrow> order \<Rightarrow> live \<Rightarrow> live \<times> order \<times> bool" where
  "rest_loop ad 0 qty r s = (s, r, False)"
| "rest_loop ad (Suc n) qty r s =
     (case read_order ad r s of
        (s1, None) \<Rightarrow> rest_loop ad n qty r s1
      | (s1, Some u) \<Rightarrow>
          if filled_enough u qty then (s1, u, True)
          else if ord_status u = CANCELLED \<or> ord_status u = FAILED then (s1, u, False)
          else rest_loop ad n qty u s1)"

definition blend_fills :: "order \<Rightarrow> order \<Rightarrow> int \<Rightarrow> order" where
  "blend_fills resting market qty =
     (if 0 < ord_fill_qty resting \<and> 0 < ord_fill_qty market
      then let total_filled = ord_fill_qty resting + ord_fill_qty market
           in market\<lparr> ord_fill_qty := total_filled,
                      ord_fill_price :=
                        (of_int (ord_fill_qty resting) * ord_fill_price resting
                         + of_int (ord_fill_qty market) * ord_fill_price market)
                        / of_int (max total_filled 1),
                      ord_quantity := qty \<rparr>
      else market)"

text \<open>From the end of the poll: cancel, read once more, sell what is left.\<close>

definition unwind_rest ::
  "adapter \<Rightarrow> string \<Rightarrow> order \<Rightarrow> int \<Rightarrow> order \<Rightarrow> live \<Rightarrow> live \<times> order option" where
  "unwind_rest ad arb_id leg qty resting s =
     (let s1 = log_call (CCancel (ord_platform resting) (ord_id resting)) s;
          (s2, read) = read_order ad resting s1;
          post = (case read of None \<Rightarrow> resting | Some u \<Rightarrow> u);
          rest_filled = ord_fill_qty post
      in if ord_status post = FILLED \<or> qty \<le> rest_filled then (s2, Some post)
         else let (s3, m) = market_sell ad arb_id leg (qty - rest_filled) s2
              in (s3, case m of None \<Rightarrow> None | Some market \<Rightarrow> Some (blend_fills post market qty)))"

definition smart_unwind ::
  "live_env \<Rightarrow> string \<Rightarrow> order \<Rightarrow> int \<Rightarrow> live \<Rightarrow> live \<times> order option" where
  "smart_unwind env arb_id leg qty s =
     (case le_adapters env (ord_platform leg) of
        None \<Rightarrow> (s, None)
      | Some ad \<Rightarrow>
          (case ad_resting_sell ad of
             None \<Rightarrow> market_sell ad arb_id leg qty s
           | Some rest \<Rightarrow>
               let s1 = log_call (CRestingSell (ord_platform leg) (ord_side leg) (ord_fill_price leg) qty) s
               in case rest (tick s) (arb_id @ ''-UNWIND-REST'') (ord_market_id leg)
                         (ord_canonical_id leg) (ord_side leg) (ord_fill_price leg) qty of
                    None \<Rightarrow> market_sell ad arb_id leg qty s1
                  | Some resting \<Rightarrow>
                      if ord_status resting = FAILED \<or> ord_status resting = CANCELLED
                      then market_sell ad arb_id leg qty s1
                      else if filled_enough resting qty then (s1, Some resting)
                      else let (s2, r, done') = rest_loop ad (le_rest_polls env) qty resting s1
                           in if done' then (s2, Some r) else unwind_rest ad arb_id leg qty r s2))"

section \<open>Resolving the incidents of a recovered leg\<close>

definition recovery_event_types :: "string list" where
  "recovery_event_types = [''one_leg_exposure'', ''soft_naked_leg'', ''auto_unwind'']"

definition incident_event :: "incident \<Rightarrow> string" where
  "incident_event i =
     (case map_of (inc_metadata i) ''event_type'' of Some (MText e) \<Rightarrow> py_lower e | _ \<Rightarrow> [])"

definition unwind_complete :: "int \<Rightarrow> int \<Rightarrow> bool" where
  "unwind_complete unwound target = (of_int target * (99/100) \<le> (of_int unwound :: flt))"

definition auto_resolve_recovery_incidents ::
  "live_env \<Rightarrow> string \<Rightarrow> int \<Rightarrow> int \<Rightarrow> engine \<Rightarrow> engine" where
  "auto_resolve_recovery_incidents env arb_id unwound target en =
     (if unwound \<le> 0 then en
      else let msg = (if unwind_complete unwound target
                      then ''Auto-resolved: unwind closed {}/{} contracts; naked exposure cleared.''
                      else ''Auto-resolved: partial unwind closed {}/{}; remaining exposure logged separately.'')
           in fold (\<lambda>i e. if inc_arb_id i = arb_id \<and> inc_status i \<noteq> ''resolved''
                              \<and> incident_event i \<in> set recovery_event_types
                           then fst (resolve_incident (le_exec env) (inc_id i) msg e) else e)
                (en_incidents en) en)"

section \<open>Recovery\<close>

definition single_args :: "string \<Rightarrow> trade_args" where
  "single_args pl = \<lparr>ta_platform = Some pl, ta_yes_platform = None, ta_no_platform = None,
     ta_yes_exposure = 0, ta_no_exposure = 0\<rparr>"

definition release_leg :: "string \<Rightarrow> flt \<Rightarrow> string \<Rightarrow> engine \<Rightarrow> engine" where
  "release_leg cid exposure pl en =
     en\<lparr>en_risk := release_trade cid exposure 0 (single_args pl) (en_risk en)\<rparr>"

definition really_filled :: "order \<Rightarrow> bool" where
  "really_filled r = (ord_status r = FILLED \<and> 0 < ord_fill_qty r)"

definition any_fill :: "order \<Rightarrow> bool" where
  "any_fill r = (has_fill r \<and> 0 < ord_fill_qty r)"

definition cancel_leg ::
  "live_env \<Rightarrow> string \<Rightarrow> string \<Rightarrow> order \<Rightarrow> live \<Rightarrow> live \<times> order \<times> string list" where
  "cancel_leg env arb_id cid r s =
     (if ord_status r \<notin> {SUBMITTED, PENDING, PARTIAL} then (s, r, [])
      else let (s1, r', cancelled) = cancel_order env arb_id r s;
               msg = ''cancel-'' @ ord_side r @ (if cancelled then '':ok'' else '':failed'');
               unfilled = max (ord_quantity r - ord_fill_qty r) 0
           in (if cancelled \<and> ord_status r \<noteq> PENDING \<and> 0 < unfilled
               then on_engine (release_leg cid (of_int unfilled * ord_price r) (ord_platform r)) s1
               else s1, r', [msg]))"

text \<open>The leg whose fills the other one does not match, and by how much.\<close>

definition unhedged :: "order \<Rightarrow> order \<Rightarrow> (bool \<times> int) option" where
  "unhedged y n =
     (if any_fill y \<and> \<not> any_fill n then Some (True, ord_fill_qty y)
      else if any_fill n \<and> \<not> any_fill y then Some (False, ord_fill_qty n)
      else if any_fill y \<and> any_fill n \<and> ord_fill_qty y \<noteq> ord_fill_qty n
      then if ord_fill_qty n < ord_fill_qty y then Some (True, ord_fill_qty y - ord_fill_qty n)
           else Some (False, ord_fill_qty n - ord_fill_qty y)
      else None)"

definition exposure_incident ::
  "live_env \<Rightarrow> string \<Rightarrow> opportunity \<Rightarrow> order \<Rightarrow> order \<Rightarrow> live \<Rightarrow> live" where
  "exposure_incident env arb_id p y n s =
     (let xe = le_exec env; cid = opp_canonical_id p
      in if really_filled y \<noteq> really_filled n
         then let filled = (if really_filled y then y else n);
                  failed = (if really_filled y then n else y);
                  exposure = of_int (ord_fill_qty filled) * ord_fill_price filled;
                  recommended = ''Sell {} '' @ py_upper (ord_side filled) @ '' on ''
                                  @ py_upper (ord_platform filled) @ '' at market to close exposure'';
                  msg = (''One-leg exposure detected - naked position requires unwind'', []);
                  meta = [(''event_type'', MText ''one_leg_exposure''),
                          (''filled_platform'', MText (ord_platform filled)),
                          (''filled_side'', MText (ord_side filled)),
                          (''filled_qty'', MInt (ord_fill_qty filled)),
                          (''filled_price'', MNum (ord_fill_price filled)),
                          (''exposure_usd'', MNum exposure),
                          (''failed_platform'', MText (ord_platform failed)),
                          (''failed_reason'', MText (ord_error failed)),
                          (''recommended_unwind'', MText recommended)];
                  s1 = on_engine (record_incident xe arb_id cid ''critical'' msg meta) s
              in on_engine (\<lambda>en. en\<lparr>en_safety := handle_one_leg_exposure
                    (new_incident xe arb_id cid ''critical'' msg meta) filled cid (Some exposure)
                    (Some recommended) (en_safety en)\<rparr>) s1
         else on_engine (record_incident xe arb_id cid ''critical''
                (''Partial fill or one-leg risk detected, starting recovery'', [])
                [(''leg_yes'', MNested), (''leg_no'', MNested)]) s)"

text \<open>The auto-unwind of the unhedged leg, with the realized result of the sale.\<close>

definition book_unwind ::
  "live_env \<Rightarrow> string \<Rightarrow> opportunity \<Rightarrow> order \<Rightarrow> int \<Rightarrow> order \<Rightarrow> live \<Rightarrow> live \<times> flt" where
  "book_unwind env arb_id p leg target u s =
     (let xe = le_exec env; cid = opp_canonical_id p; unwound = ord_fill_qty u;
          pnl = of_int unwound * (ord_fill_price u - ord_fill_price leg)
      in if unwound \<le> 0 then (s, 0)
         else let s1 = on_engine (release_leg cid (of_int unwound * ord_fill_price leg) (ord_platform leg)) s;
                  s2 = on_engine (record_incident xe arb_id cid ''warning''
                         (''Auto-unwind closed {}/{} contracts on '' @ ord_platform leg,
                          [of_int unwound, of_int target])
                         [(''event_type'', MText ''auto_unwind''), (''platform'', MText (ord_platform leg)),
                          (''side'', MText (ord_side leg)), (''fill_qty'', MInt unwound),
                          (''target_qty'', MInt target), (''panic_price'', MNum (ord_price u)),
                          (''buy_price'', MNum (ord_fill_price leg)),
                          (''sell_price'', MNum (ord_fill_price u)), (''realized_pnl'', MNum pnl)]) s1;
                  s3 = on_engine (auto_resolve_recovery_incidents env arb_id unwound target) s2
              in (if xe_db xe \<noteq> None \<and> unwind_complete unwound target
                  then log_call (CReconciled arb_id pnl) s3 else s3, pnl))"

definition unwind_leg ::
  "live_env \<Rightarrow> string \<Rightarrow> opportunity \<Rightarrow> order \<Rightarrow> int \<Rightarrow> live \<Rightarrow> live \<times> string list \<times> flt" where
  "unwind_leg env arb_id p leg target s =
     (case le_adapters env (ord_platform leg) of
        None \<Rightarrow> (s, [], 0)
      | Some ad \<Rightarrow>
          if ad_unwind_sell ad = None \<or> target \<le> 0 then (s, [], 0)
          else case smart_unwind env arb_id leg target s of
                 (s1, None) \<Rightarrow>
                   (on_engine (record_incident (le_exec env) arb_id (opp_canonical_id p) ''critical''
                        (''Smart-unwind raised on '' @ ord_platform leg @ '' '' @ py_upper (ord_side leg)
                           @ '' - manual review required'', [])
                        [(''event_type'', MText ''auto_unwind_exception''),
                         (''platform'', MText (ord_platform leg)), (''side'', MText (ord_side leg)),
                         (''target_qty'', MInt target), (''fill_price'', MNum (ord_fill_price leg))]
                      \<circ> release_leg (opp_canonical_id p) (of_int target * ord_fill_price leg)
                          (ord_platform leg)) s1,
                    [''unwind-'' @ ord_side leg @ '':exception''], 0)
               | (s1, Some u) \<Rightarrow>
                   let (s2, pnl) = book_unwind env arb_id p leg target u s1
                   in (s2, [''unwind-'' @ ord_side leg @ '':'' @ status_text (ord_status u) @ ''({}/{})''], pnl))"

record recovery =
  rc_yes :: order
  rc_no :: order
  rc_messages :: "string list"
  rc_pnl :: flt

definition counterpart_suspect :: "order \<Rightarrow> bool" where
  "counterpart_suspect r = (ord_fill_qty r = 0 \<and> leg_possibly_live r)"

text \<open>The unwind, with the counterpart verified first when its fate is uncertain.\<close>

definition verified_unwind ::
  "live_env \<Rightarrow> string \<Rightarrow> opportunity \<Rightarrow> order \<Rightarrow> order \<Rightarrow> int \<Rightarrow> live
   \<Rightarrow> live \<times> order \<times> string list \<times> flt" where
  "verified_unwind env arb_id p leg other qty s =
     (let xe = le_exec env; cid = opp_canonical_id p
      in if \<not> counterpart_suspect other
         then let (s1, msgs, pnl) = unwind_leg env arb_id p leg qty s in (s1, other, msgs, pnl)
         else case verify_leg_dead env other s of
                (s1, other', Unprovable) \<Rightarrow>
                  (on_engine (record_incident xe arb_id cid ''critical''
                      (''Unwind blocked: secondary order state unverifiable'', [])
                      [(''event_type'', MText ''unwind_blocked_ambiguous_secondary''),
                       (''ambiguous_platform'', MText (ord_platform other')),
                       (''ambiguous_order_id'', MText (ord_id other')),
                       (''filled_platform'', MText (ord_platform leg)),
                       (''filled_side'', MText (ord_side leg)), (''filled_qty'', MInt (ord_fill_qty leg)),
                       (''filled_price'', MNum (ord_fill_price leg))]) s1,
                   other', [''unwind-blocked:ambiguous-secondary('' @ ord_platform other' @ '')''], 0)
              | (s1, other', LateFill) \<Rightarrow>
                  if qty \<le> ord_fill_qty other'
                  then (on_engine (record_incident xe arb_id cid ''warning''
                          (''Late secondary fill discovered during recovery'', [])
                          [(''event_type'', MText ''late_secondary_fill_balanced''),
                           (''platform'', MText (ord_platform other')),
                           (''late_fill_qty'', MInt (ord_fill_qty other'))]) s1,
                        other', [''verify-secondary:late-fill({})''], 0)
                  else let (s2, msgs, pnl) = unwind_leg env arb_id p leg (qty - ord_fill_qty other') s1
                       in (s2, other', ''verify-secondary:late-fill({})'' # msgs, pnl)
              | (s1, other', Dead) \<Rightarrow>
                  let (s2, msgs, pnl) = unwind_leg env arb_id p leg qty s1
                  in (s2, other', ''verify-secondary:dead'' # msgs, pnl))"

definition recover_one_leg_risk ::
  "live_env \<Rightarrow> string \<Rightarrow> opportunity \<Rightarrow> order \<Rightarrow> order \<Rightarrow> live \<Rightarrow> live \<times> recovery" where
  "recover_one_leg_risk env arb_id p y n s0 =
     (let s1 = on_engine (\<lambda>en. en\<lparr>en_recovery_count := en_recovery_count en + 1\<rparr>) s0;
          s2 = exposure_incident env arb_id p y n s1;
          (s3, y1, m1) = cancel_leg env arb_id (opp_canonical_id p) y s2;
          (s4, n1, m2) = cancel_leg env arb_id (opp_canonical_id p) n s3
      in case unhedged y1 n1 of
           None \<Rightarrow> (s4, \<lparr>rc_yes = y1, rc_no = n1, rc_messages = m1 @ m2, rc_pnl = 0\<rparr>)
         | Some (is_yes, qty) \<Rightarrow>
             if is_yes
             then let (s5, n2, m3, pnl) = verified_unwind env arb_id p y1 n1 qty s4
                  in (s5, \<lparr>rc_yes = y1, rc_no = n2, rc_messages = m1 @ m2 @ m3, rc_pnl = pnl\<rparr>)
             else let (s5, y2, m3, pnl) = verified_unwind env arb_id p n1 y1 qty s4
                  in (s5, \<lparr>rc_yes = y2, rc_no = n1, rc_messages = m1 @ m2 @ m3, rc_pnl = pnl\<rparr>))"

section \<open>What recovery sends to the venues\<close>

definition is_sell :: "venue_call \<Rightarrow> bool" where
  "is_sell c = (case c of CRestingSell pl sd x n \<Rightarrow> True | CUnwindSell pl sd n \<Rightarrow> True | _ \<Rightarrow> False)"

definition is_order :: "venue_call \<Rightarrow> bool" where
  "is_order c = (is_place c \<or> is_sell c)"

lemma sell_kinds [simp]:
  "is_sell (CRestingSell pl sd x n)" "is_sell (CUnwindSell pl sd n)" "\<not> is_sell (CWalk pl m sd n)"
  "\<not> is_sell (CPlace pl m sd x n k)" "\<not> is_sell (CDepth pl m sd n)" "\<not> is_sell (CPersist a r ok)"
  "\<not> is_sell (CCancel pl a)" "\<not> is_sell (CGetOrder pl a)" "\<not> is_sell (COpenOrders pl a)"
  "\<not> is_sell (CReconciled a x)" "\<not> is_sell (CRecordArb a ok)"
  by (simp_all add: is_sell_def)

lemma order_kinds [simp]:
  "is_order (CRestingSell pl sd x n)" "is_order (CUnwindSell pl sd n)" "\<not> is_order (CWalk pl m sd n)"
  "is_order (CPlace pl m sd x n k)" "\<not> is_order (CDepth pl m sd n)" "\<not> is_order (CPersist a r ok)"
  "\<not> is_order (CCancel pl a)" "\<not> is_order (CGetOrder pl a)" "\<not> is_order (COpenOrders pl a)"
  "\<not> is_order (CReconciled a x)" "\<not> is_order (CRecordArb a ok)"
  by (simp_all add: is_order_def)

abbreviation orderless :: "live \<Rightarrow> live \<Rightarrow> bool" where
  "orderless \<equiv> only (\<lambda>c. \<not> is_order c)"

lemma cancel_orderless: "orderless s (fst (cancel_order env a r s))"
  by (auto simp: cancel_order_def Let_def split: option.split
      intro!: only_trans[OF only_log persist_only])

lemma cancel_leg_orderless: "orderless s (fst (cancel_leg env a cid r s))"
  using cancel_orderless by (simp add: cancel_leg_def Let_def case_prod_unfold)

lemma verify_orderless: "orderless s (fst (verify_leg_dead env r s))"
  by (simp add: verify_leg_dead_def Let_def split: option.split)

lemma exposure_orderless: "orderless s (exposure_incident env a p y n s)"
  by (simp add: exposure_incident_def Let_def)

lemma read_orderless: "orderless s (fst (read_order ad r s))"
  by (simp add: read_order_def split: option.split)

lemma rest_loop_orderless: "orderless s (fst (rest_loop ad n qty r s))"
proof (induction n arbitrary: r s)
  case (Suc n)
  from read_orderless[of s ad r] Suc show ?case
    by (auto split: prod.split option.split intro: only_trans)
qed simp

lemma book_orderless: "orderless s (fst (book_unwind env a p leg target u s))"
  by (simp add: book_unwind_def Let_def only_log_after)

text \<open>The read of the resting order after its cancel, at call number \<open>T\<close>.\<close>

definition reread_at :: "live \<Rightarrow> nat \<Rightarrow> bool" where
  "reread_at s' T =
     (0 < T \<and> T < tick s' \<and> (\<exists>pl a pl' a'. lv_calls s' ! (T - 1) = CCancel pl a
        \<and> lv_calls s' ! T = CGetOrder pl' a'))"

lemma market_sell_emits:
  "emits is_order s (fst (market_sell ad a leg qty s))
     (if ad_unwind_sell ad = None then [] else [CUnwindSell (ord_platform leg) (ord_side leg) qty])"
  by (auto simp: market_sell_def split: option.split)

lemma unwind_rest_sells:
  assumes "unwind_rest ad a leg qty resting s = (s', res)" "ad_get_order ad = Some get"
    and honest: "\<And>t r. \<exists>u. get t r = Some u \<and> ord_fill_qty u = fill t"
  obtains (closed) "emits is_order s s' []"
  | (rest) T where "emits is_order s s'
        (if ad_unwind_sell ad = None then []
         else [CUnwindSell (ord_platform leg) (ord_side leg) (qty - fill T)])"
      "reread_at s' T" "fill T < qty"
proof -
  define s1 where "s1 = log_call (CCancel (ord_platform resting) (ord_id resting)) s"
  define s2 where "s2 = log_call (CGetOrder (ord_platform resting) (ord_id resting)) s1"
  obtain u where u: "get (tick s1) resting = Some u" "ord_fill_qty u = fill (tick s1)"
    using honest by blast
  have eq: "unwind_rest ad a leg qty resting s =
    (if ord_status u = FILLED \<or> qty \<le> fill (tick s1) then (s2, Some u)
     else (fst (market_sell ad a leg (qty - fill (tick s1)) s2),
           case snd (market_sell ad a leg (qty - fill (tick s1)) s2) of None \<Rightarrow> None
           | Some market \<Rightarrow> Some (blend_fills u market qty)))"
    by (simp add: unwind_rest_def Let_def read_order_def assms(2) s1_def[symmetric] u s2_def[symmetric]
        case_prod_unfold split: option.split)
  have quiet: "emits is_order s s2 []"
    using emits_trans[of is_order s s1 "[]" s2 "[]"] by (simp add: s1_def s2_def)
  show ?thesis
  proof (cases "ord_status u = FILLED \<or> qty \<le> fill (tick s1)")
    case True
    with assms(1) eq quiet closed show ?thesis by auto
  next
    case False
    with assms(1) eq have s': "s' = fst (market_sell ad a leg (qty - fill (tick s1)) s2)" by simp
    have "lv_calls s2 = lv_calls s @ [CCancel (ord_platform resting) (ord_id resting),
        CGetOrder (ord_platform resting) (ord_id resting)]"
      by (simp add: s1_def s2_def log_call_def)
    moreover obtain ds where "lv_calls s' = lv_calls s2 @ ds"
      using market_sell_emits[of s2 ad a leg "qty - fill (tick s1)"] unfolding s' emits_def extends_def
      by blast
    ultimately have "reread_at s' (tick s1)"
      by (simp add: reread_at_def tick_def s1_def log_call_def nth_append)
    moreover have "emits is_order s s' ([] @ (if ad_unwind_sell ad = None then []
         else [CUnwindSell (ord_platform leg) (ord_side leg) (qty - fill (tick s1))]))"
      unfolding s' by (rule emits_trans[OF quiet market_sell_emits])
    ultimately show ?thesis using False rest[of "tick s1"] by simp
  qed
qed

definition refused :: "order option \<Rightarrow> bool" where
  "refused r = (case r of None \<Rightarrow> True | Some x \<Rightarrow> ord_status x = FAILED \<or> ord_status x = CANCELLED)"

text \<open>
  The orders of a two-phase unwind, when the venue answers every read of an order with its true fill: one resting
  sell for the whole quantity, and after it at most one market sell, for the whole quantity only when the resting
  order was refused outright, and otherwise for exactly what a read made right after the cancel shows as not sold.
\<close>

lemma unwind_orders:
  assumes "smart_unwind env arb_id leg qty s = (s', res)" "lv_calls s' = lv_calls s @ cs"
    and "le_adapters env (ord_platform leg) = Some ad" "ad_resting_sell ad = Some rest"
    and "ad_unwind_sell ad = Some sell" "ad_get_order ad = Some get"
    and "\<And>t r. \<exists>u. get t r = Some u \<and> ord_fill_qty u = fill t"
  defines "r \<equiv> CRestingSell (ord_platform leg) (ord_side leg) (ord_fill_price leg) qty"
    and "m \<equiv> CUnwindSell (ord_platform leg) (ord_side leg)"
  shows "filter is_order cs = [r]
    \<or> refused (rest (tick s) (arb_id @ ''-UNWIND-REST'') (ord_market_id leg) (ord_canonical_id leg)
                 (ord_side leg) (ord_fill_price leg) qty) \<and> filter is_order cs = [r, m qty]
    \<or> (\<exists>T. reread_at s' T \<and> fill T < qty \<and> filter is_order cs = [r, m (qty - fill T)])"
proof -
  define s1 where "s1 = log_call r s"
  define ans where "ans = rest (tick s) (arb_id @ ''-UNWIND-REST'') (ord_market_id leg)
      (ord_canonical_id leg) (ord_side leg) (ord_fill_price leg) qty"
  have first: "emits is_order s s1 [r]" by (simp add: s1_def r_def)
  have done_first: ?thesis if "emits is_order s1 s' []"
    using emits_unique[OF emits_trans[OF first that] assms(2)] by simp
  show ?thesis
  proof (cases "refused ans")
    case True
    with assms(1,3-) have "s' = fst (market_sell ad arb_id leg qty s1)"
      by (auto simp: smart_unwind_def Let_def ans_def s1_def refused_def split: option.splits)
    with market_sell_emits[of s1 ad arb_id leg qty] assms(5) have "emits is_order s1 s' [m qty]"
      by (simp add: m_def)
    from emits_unique[OF emits_trans[OF first this] assms(2)] True show ?thesis by (simp add: ans_def)
  next
    case False
    then obtain resting where resting: "ans = Some resting" "\<not> (ord_status resting = FAILED \<or> ord_status resting = CANCELLED)"
      by (auto simp: refused_def split: option.splits)
    show ?thesis
    proof (cases "filled_enough resting qty")
      case True
      with assms(1,3-) resting have "s' = s1"
        by (simp add: smart_unwind_def Let_def ans_def s1_def)
      then show ?thesis by (intro done_first) simp
    next
      case False
      obtain s2 r2 ended where loop: "rest_loop ad (le_rest_polls env) qty resting s1 = (s2, r2, ended)"
        by (metis prod_cases3)
      have quiet: "emits is_order s1 s2 []"
        using only_emits[OF rest_loop_orderless[of s1 ad "le_rest_polls env" qty resting]] loop by simp
      from assms(1,3-) resting False loop
      have end_eq: "(if ended then (s2, Some r2) else unwind_rest ad arb_id leg qty r2 s2) = (s', res)"
        by (simp add: smart_unwind_def Let_def ans_def s1_def)
      show ?thesis
      proof (cases ended)
        case True
        with end_eq quiet show ?thesis by (intro done_first) simp
      next
        case False
        with end_eq have run: "unwind_rest ad arb_id leg qty r2 s2 = (s', res)" by simp
        show ?thesis
        proof (rule unwind_rest_sells[OF run assms(6,7)])
          assume "emits is_order s2 s' []"
          from emits_trans[OF quiet this] show ?thesis by (intro done_first) simp
        next
          fix T
          assume T: "reread_at s' T" "fill T < qty"
            and "emits is_order s2 s' (if ad_unwind_sell ad = None then []
                else [CUnwindSell (ord_platform leg) (ord_side leg) (qty - fill T)])"
          then have "emits is_order s2 s' [m (qty - fill T)]" by (simp add: assms(5) m_def)
          from emits_unique[OF emits_trans[OF first emits_trans[OF quiet this]] assms(2)] T
          show ?thesis by auto
        qed
      qed
    qed
  qed
qed

text \<open>What the calls sell at the market.\<close>

definition market_sold :: "venue_call list \<Rightarrow> int" where
  "market_sold cs = sum_list (map (\<lambda>c. case c of CUnwindSell pl sd n \<Rightarrow> n | _ \<Rightarrow> 0) cs)"

lemma market_sold_orders: "market_sold (filter is_order cs) = market_sold cs"
  by (induction cs) (auto simp: market_sold_def split: venue_call.split)

text \<open>
  C12.  A two-phase unwind sells each contract at most once, as long as the venue is what the code takes it for: it
  answers every read of an order with its true fill, a resting sell it refuses never rests, the cancel takes effect
  (the resting sell has no fill after the read that follows its cancel), and it fills no more than ordered.
  Then the unwind sends exactly one resting sell, for the whole quantity at the price paid, and what that sell fills
  in the end and all market sells together come to at most the quantity.
\<close>

theorem unwind_sells_once:
  assumes "smart_unwind env arb_id leg qty s = (s', res)" "lv_calls s' = lv_calls s @ cs"
    and "le_adapters env (ord_platform leg) = Some ad" "ad_resting_sell ad = Some rest"
    and "ad_unwind_sell ad = Some sell" "ad_get_order ad = Some get"
    and "\<And>t r. \<exists>u. get t r = Some u \<and> ord_fill_qty u = fill t"
    and "refused (rest (tick s) (arb_id @ ''-UNWIND-REST'') (ord_market_id leg) (ord_canonical_id leg)
           (ord_side leg) (ord_fill_price leg) qty) \<Longrightarrow> rest_filled = 0"
    and "\<And>T. reread_at s' T \<Longrightarrow> fill T = rest_filled" "rest_filled \<le> qty"
  shows "filter (\<lambda>c. is_order c \<and> (\<forall>n. c \<noteq> CUnwindSell (ord_platform leg) (ord_side leg) n)) cs
      = [CRestingSell (ord_platform leg) (ord_side leg) (ord_fill_price leg) qty]
    \<and> rest_filled + market_sold cs \<le> qty"
proof -
  let ?r = "CRestingSell (ord_platform leg) (ord_side leg) (ord_fill_price leg) qty"
    and ?m = "CUnwindSell (ord_platform leg) (ord_side leg)"
  have split: "filter (\<lambda>c. is_order c \<and> (\<forall>n. c \<noteq> ?m n)) cs = filter (\<lambda>c. \<forall>n. c \<noteq> ?m n) (filter is_order cs)"
    by (simp add: conj_commute)
  consider (alone) "filter is_order cs = [?r]"
    | (anew) "rest_filled = 0" "filter is_order cs = [?r, ?m qty]"
    | (remainder) "filter is_order cs = [?r, ?m (qty - rest_filled)]"
  proof -
    have "filter is_order cs = [?r]
      \<or> refused (rest (tick s) (arb_id @ ''-UNWIND-REST'') (ord_market_id leg) (ord_canonical_id leg)
             (ord_side leg) (ord_fill_price leg) qty) \<and> filter is_order cs = [?r, ?m qty]
      \<or> (\<exists>T. reread_at s' T \<and> fill T < qty \<and> filter is_order cs = [?r, ?m (qty - fill T)])"
      by (rule unwind_orders [OF assms(1-7)])
    then show thesis
    proof (elim disjE conjE exE)
      fix T assume "reread_at s' T" "filter is_order cs = [?r, ?m (qty - fill T)]"
      with assms(9) show thesis by (intro remainder) simp
    qed (use alone anew assms(8) in blast)+
  qed
  then show ?thesis
    using assms(10) unfolding split market_sold_orders [of cs, symmetric]
    by cases (simp_all add: market_sold_def)
qed

abbreviation placeless :: "live \<Rightarrow> live \<Rightarrow> bool" where
  "placeless \<equiv> only (\<lambda>c. \<not> is_place c)"

lemma orderless_placeless: "orderless s s' \<Longrightarrow> placeless s s'"
  by (erule only_mono) (simp add: is_order_def)

lemma market_placeless: "placeless s (fst (market_sell ad a leg qty s))"
  by (simp add: market_sell_def split: option.split)

lemma rest_placeless: "placeless s (fst (unwind_rest ad a leg qty r s))"
proof -
  let ?s1 = "log_call (CCancel (ord_platform r) (ord_id r)) s"
  let ?s2 = "fst (read_order ad r ?s1)"
  have "placeless ?s1 ?s2" using read_orderless by (rule orderless_placeless)
  then have "placeless s ?s2" by (rule only_trans[rotated]) simp
  then show ?thesis
    using only_trans[OF _ market_placeless] by (simp add: unwind_rest_def Let_def case_prod_unfold)
qed

lemma smart_placeless: "placeless s (fst (smart_unwind env a leg qty s))"
proof -
  have market: "placeless s (fst (market_sell ad a leg qty (log_call (CRestingSell pl sd x k) s)))"
    for ad pl sd x k by (rule only_trans[OF only_log market_placeless]) simp
  have loop: "placeless s (fst (rest_loop ad n qty r (log_call (CRestingSell pl sd x k) s)))"
    for ad pl sd x k n r
    by (rule only_trans[OF only_log orderless_placeless[OF rest_loop_orderless]]) simp
  note rest = only_trans[OF loop rest_placeless]
  show ?thesis
    by (simp add: smart_unwind_def Let_def case_prod_unfold market_placeless market loop rest
        split: option.split)
qed

lemma unwind_leg_placeless: "placeless s (fst (unwind_leg env a p leg target s))"
proof -
  have book: "placeless s (fst (book_unwind env a p leg target u s'))" if "placeless s s'" for u s'
    using only_trans[OF that orderless_placeless[OF book_orderless]] .
  show ?thesis
    using smart_placeless[of s env a leg target] book
    by (auto simp: unwind_leg_def Let_def case_prod_unfold split: option.split prod.split)
qed

lemma verified_placeless: "placeless s (fst (verified_unwind env a p leg other qty s))"
proof -
  have v: "placeless s (fst (verify_leg_dead env other s))"
    using verify_orderless by (rule orderless_placeless)
  show ?thesis
    using only_trans[OF v unwind_leg_placeless] v unwind_leg_placeless
    by (auto simp: verified_unwind_def Let_def case_prod_unfold split: leg_verdict.split)
qed

lemma recover_start:
  "orderless s (fst (cancel_leg env a cid n (fst (cancel_leg env a cid y
      (exposure_incident env a p y n (on_engine f s))))))"
proof -
  have "orderless s (exposure_incident env a p y n (on_engine f s))"
    using exposure_orderless[of "on_engine f s" env a p y n]
    by (simp add: only_def extends_def on_engine_def)
  then show ?thesis
    by (intro only_trans[OF _ cancel_leg_orderless])
qed

lemma recover_placeless: "placeless s (fst (recover_one_leg_risk env a p y n s))"
proof -
  note start = orderless_placeless[OF recover_start[of s env a "opp_canonical_id p" n y p]]
  show ?thesis
    using start only_trans[OF start verified_placeless]
    by (simp add: recover_one_leg_risk_def Let_def case_prod_unfold split: option.split)
qed

text \<open>What the venue cannot vouch for.\<close>

definition unvouched :: "live_env \<Rightarrow> order \<Rightarrow> bool" where
  "unvouched env r =
     (case le_adapters env (ord_platform r) of
        None \<Rightarrow> True
      | Some ad \<Rightarrow> (case ad_get_order ad of
                      None \<Rightarrow> True
                    | Some get \<Rightarrow> \<forall>t. case get t r of
                        None \<Rightarrow> True
                      | Some u \<Rightarrow> ord_fill_qty u \<le> 0 \<and>
                          (ord_idempotency_ambiguous u
                           \<or> ord_status u \<notin> {CANCELLED, FAILED, ABORTED})))"

lemma unvouched_verdict: "unvouched env r \<Longrightarrow> snd (snd (verify_leg_dead env r s)) = Unprovable"
  by (auto simp: unvouched_def verify_leg_dead_def Let_def split: option.splits dest!: spec[of _ "tick s"])

lemma push_in: "i \<in> set (en_incidents (push_incident i en))"
  by (simp add: push_incident_def deque_appendleft_def numeral_eq_Suc)

lemma incident_in:
  "new_incident env a cid sev msg meta \<in> set (en_incidents (record_incident env a cid sev msg meta en))"
proof -
  have "i \<in> set (en_incidents (handle_db_failure env opn a cid (push_incident i en)))" for i opn
    by (simp add: handle_db_failure_def push_incident_def Let_def deque_appendleft_def numeral_eq_Suc)
  then show ?thesis by (simp add: record_incident_def Let_def push_in)
qed

text \<open>A cancel changes no more of a leg than its status, and nothing of a filled one.\<close>

lemma cancel_leg_leg:
  "fst (snd (cancel_leg env a cid r s)) \<in> {r, r\<lparr>ord_status := CANCELLED\<rparr>}"
  "ord_status r = FILLED \<Longrightarrow> cancel_leg env a cid r s = (s, r, [])"
  by (auto simp: cancel_leg_def cancel_order_def Let_def split: option.split)

lemma blocked_unwind:
  assumes "counterpart_suspect other" "unvouched env other"
  obtains meta s1 other' msgs where "verified_unwind env a p leg other qty s =
      (on_engine (record_incident (le_exec env) a (opp_canonical_id p) ''critical''
         (''Unwind blocked: secondary order state unverifiable'', []) meta) s1, other', msgs, 0)" "orderless s s1"
proof -
  obtain s1 other' where v: "verify_leg_dead env other s = (s1, other', Unprovable)"
    using unvouched_verdict [OF assms(2), of s] by (metis prod.collapse)
  have "orderless s s1" using verify_orderless [of s env other] by (simp add: v)
  then show ?thesis using assms(1) by (intro that) (simp_all add: verified_unwind_def v)
qed

text \<open>
  C13.  A leg of unknown fate blocks the unwind: when one leg is filled and the other, in whatever status, reports no
  fill and is flagged as possibly live (as ambiguous, or by the words of its error), and the venue cannot vouch that
  it is dead, then the recovery sends no order at all, books no result and leaves an open critical incident for
  the operator.  The venue cannot vouch when it has no adapter or no read of orders, the read raises, or it shows
  no fill and either the ambiguity or a status that is not final.
\<close>

theorem unprovable_leg_blocks_unwind:
  assumes "recover_one_leg_risk env arb_id p y n s = (s', rc)" "lv_calls s' = lv_calls s @ cs"
    and "leg = y \<and> other = n \<or> leg = n \<and> other = y"
    and "ord_status leg = FILLED" "0 < ord_fill_qty leg" "ord_fill_qty other = 0" "leg_possibly_live other"
    and "unvouched env other" "unvouched env (other\<lparr>ord_status := CANCELLED\<rparr>)"
  shows "filter is_order cs = [] \<and> rc_pnl rc = 0 \<and> (\<exists>i \<in> set (en_incidents (lv_engine s')).
      inc_arb_id i = arb_id \<and> inc_severity i = ''critical'' \<and> inc_status i = ''open''
      \<and> inc_message i = (''Unwind blocked: secondary order state unverifiable'', []))"
proof -
  let ?cid = "opp_canonical_id p"
  define s2 where "s2 = exposure_incident env arb_id p y n
      (on_engine (\<lambda>en. en\<lparr>en_recovery_count := en_recovery_count en + 1\<rparr>) s)"
  obtain s3 other' msgs where cancel: "cancel_leg env arb_id ?cid other s2 = (s3, other', msgs)" by (metis prod_cases3)
  have same: "other' \<in> {other, other\<lparr>ord_status := CANCELLED\<rparr>}"
    using cancel_leg_leg(1) [of env arb_id ?cid other s2] by (simp add: cancel)
  then have suspect: "counterpart_suspect other'" "unvouched env other'" "\<not> any_fill other'"
    using assms(6-9) by (auto simp: counterpart_suspect_def leg_possibly_live_def any_fill_def)
  have leg: "any_fill leg" using assms(4,5) by (simp add: any_fill_def has_fill_def)
  note keep = cancel_leg_leg(2) [OF assms(4), of env arb_id ?cid]
  have quiet: "orderless s s2"
    using exposure_orderless [of "on_engine (\<lambda>en. en\<lparr>en_recovery_count := en_recovery_count en + 1\<rparr>) s" env arb_id p y n]
    by (simp add: s2_def only_def extends_def on_engine_def)
  have quiet2: "orderless s2 s3" using cancel_leg_orderless [of s2 env arb_id ?cid other] by (simp only: cancel fst_conv)
  obtain meta s4 other2 msgs2 where blocked: "verified_unwind env arb_id p leg other' (ord_fill_qty leg) s3 =
      (on_engine (record_incident (le_exec env) arb_id ?cid ''critical''
         (''Unwind blocked: secondary order state unverifiable'', []) meta) s4, other2, msgs2, 0)" "orderless s3 s4"
    using blocked_unwind [OF suspect(1,2)] by blast
  have result: "s' = on_engine (record_incident (le_exec env) arb_id ?cid ''critical''
      (''Unwind blocked: secondary order state unverifiable'', []) meta) s4 \<and> rc_pnl rc = 0"
    using assms(3)
  proof
    assume r: "leg = y \<and> other = n"
    have "unhedged y other' = Some (True, ord_fill_qty y)" using leg suspect(3) r by (simp add: unhedged_def)
    then show ?thesis
      using assms(1) cancel keep blocked(1) r by (auto simp: recover_one_leg_risk_def Let_def s2_def[symmetric])
  next
    assume r: "leg = n \<and> other = y"
    have "unhedged other' n = Some (False, ord_fill_qty n)" using leg suspect(3) r by (simp add: unhedged_def)
    then show ?thesis
      using assms(1) cancel keep blocked(1) r by (auto simp: recover_one_leg_risk_def Let_def s2_def[symmetric])
  qed
  have "emits is_order s s' []"
    using only_emits[OF only_trans[OF only_trans[OF quiet quiet2] blocked(2)], of is_order] result by simp
  from emits_unique[OF this assms(2)] have "filter is_order cs = []" .
  moreover have "new_incident (le_exec env) arb_id ?cid ''critical''
      (''Unwind blocked: secondary order state unverifiable'', []) meta \<in> set (en_incidents (lv_engine s'))"
    using incident_in result by (simp add: on_engine_def)
  ultimately show ?thesis using result by (force simp: new_incident_def)
qed

text \<open>
  A resting leg whose cancel fails and that carries no such flag is not verified: the other leg is unwound at once.
\<close>

lemma open_leg_not_verified:
  assumes "ord_status n = SUBMITTED" "ord_fill_qty n = 0" "\<not> leg_possibly_live n"
    and "\<And>ad. le_adapters env (ord_platform n) = Some ad \<Longrightarrow> ad_cancel ad (tick s) n \<noteq> Some True"
  shows "fst (snd (cancel_leg env a cid n s)) = n
    \<and> fst (verified_unwind env a p y n qty s1) = fst (unwind_leg env a p y qty s1)"
  using assms
  by (auto simp: cancel_leg_def cancel_order_def verified_unwind_def counterpart_suspect_def Let_def case_prod_unfold
      split: option.split)

definition demo_unwind_adapter :: adapter where
  "demo_unwind_adapter = (demo_adapter True)
     \<lparr> ad_get_order := Some (\<lambda>t r. Some (r\<lparr>ord_fill_qty := 3\<rparr>)),
       ad_resting_sell := Some (\<lambda>t a m cid sd x n. Some (leg_order a ''forecastex'' m cid sd x n SUBMITTED 60 [])),
       ad_unwind_sell := Some (\<lambda>t a m cid sd n. Some ((leg_order a ''forecastex'' m cid sd (1/100) n FILLED 60 [])
                                 \<lparr>ord_fill_qty := n, ord_fill_price := 30/100\<rparr>)) \<rparr>"

definition demo_filled_leg :: order where
  "demo_filled_leg = (leg_order ''ARB-000001-YES'' ''forecastex'' ''y'' ''A'' ''yes'' (40/100) 10 FILLED 60 [])
     \<lparr>ord_fill_qty := 10, ord_fill_price := 40/100\<rparr>"

lemma demo_filled_fields:
  "ord_platform demo_filled_leg = ''forecastex''" "ord_side demo_filled_leg = ''yes''"
  "ord_fill_price demo_filled_leg = 2/5" "ord_fill_qty demo_filled_leg = 10"
  "ord_status demo_filled_leg = FILLED" "ord_canonical_id demo_filled_leg = ''A''"
  by (simp_all add: demo_filled_leg_def leg_order_def)

theorem unwind_sells_once_witness:
  "3 + market_sold (lv_calls (fst (smart_unwind (demo_live_env demo_unwind_adapter) ''ARB-000001''
      demo_filled_leg 10 demo_live))) \<le> 10"
proof -
  let ?ad = demo_unwind_adapter
  obtain s' res where x: "smart_unwind (demo_live_env ?ad) ''ARB-000001'' demo_filled_leg 10 demo_live = (s', res)"
    by (metis surj_pair)
  obtain rest where rest: "ad_resting_sell ?ad = Some rest"
    "rest (tick demo_live) (''ARB-000001'' @ ''-UNWIND-REST'') (ord_market_id demo_filled_leg)
       (ord_canonical_id demo_filled_leg) (ord_side demo_filled_leg) (ord_fill_price demo_filled_leg) 10
     = Some (leg_order (''ARB-000001'' @ ''-UNWIND-REST'') ''forecastex'' (ord_market_id demo_filled_leg)
         (ord_canonical_id demo_filled_leg) (ord_side demo_filled_leg) (ord_fill_price demo_filled_leg) 10
         SUBMITTED 60 [])"
    by (simp add: demo_unwind_adapter_def demo_adapter_def)
  obtain sell where sell: "ad_unwind_sell ?ad = Some sell"
    by (simp add: demo_unwind_adapter_def demo_adapter_def)
  have get: "ad_get_order ?ad = Some (\<lambda>t r. Some (r\<lparr>ord_fill_qty := 3\<rparr>))"
    by (simp add: demo_unwind_adapter_def demo_adapter_def)
  have "\<not> refused (Some (leg_order i pl m c sd y k SUBMITTED 60 e))" for i pl m c sd y k e
    by (simp add: refused_def leg_order_def)
  with unwind_sells_once[OF x _ _ rest(1) sell get, of "lv_calls s'" "\<lambda>t. 3" 3] rest(2)
  have "3 + market_sold (lv_calls s') \<le> 10" by (auto simp: demo_live_fields)
  then show ?thesis by (simp add: x)
qed

definition demo_dead_leg :: order where
  "demo_dead_leg = (leg_order ''ARB-000001-NO'' ''forecastex'' ''n'' ''A'' ''no'' (50/100) 10 FAILED 60 [])
     \<lparr>ord_idempotency_ambiguous := True\<rparr>"

lemma demo_dead_fields:
  "ord_fill_qty demo_dead_leg = 0" "ord_status demo_dead_leg = FAILED"
  "ord_idempotency_ambiguous demo_dead_leg"
  by (simp_all add: demo_dead_leg_def leg_order_def)

theorem unprovable_leg_blocks_unwind_witness:
  "filter is_order (lv_calls (fst (recover_one_leg_risk ((demo_live_env demo_unwind_adapter)\<lparr>le_adapters := \<lambda>pl. None\<rparr>)
     ''ARB-000001'' demo_opp demo_filled_leg demo_dead_leg demo_live))) = []"
proof -
  let ?env = "(demo_live_env demo_unwind_adapter)\<lparr>le_adapters := \<lambda>pl. None\<rparr>"
  obtain s' rc where x: "recover_one_leg_risk ?env ''ARB-000001'' demo_opp demo_filled_leg demo_dead_leg demo_live
      = (s', rc)" by (metis surj_pair)
  have "unvouched ?env demo_dead_leg" "unvouched ?env (demo_dead_leg\<lparr>ord_status := CANCELLED\<rparr>)"
    by (simp_all add: unvouched_def)
  with unprovable_leg_blocks_unwind[OF x, of "lv_calls s'" demo_filled_leg demo_dead_leg] show ?thesis
    by (simp add: x demo_filled_fields demo_dead_fields leg_possibly_live_def)
qed

text \<open>
  With a store, the cancel of a partially filled leg hides its fill: before it the legs differ by
  less, after it the other leg counts as unhedged in full.
\<close>

lemma cancelled_partial_forgotten:
  assumes "ord_status n = PARTIAL" "0 < ord_fill_qty n" "any_fill y"
    and "le_adapters env (ord_platform n) = Some ad"
    and "ad_cancel ad (tick s) n = Some True" "xe_db (le_exec env) \<noteq> None"
  shows "unhedged y n \<noteq> Some (True, ord_fill_qty y)
    \<and> unhedged y (fst (snd (cancel_leg env arb_id cid n s))) = Some (True, ord_fill_qty y)"
proof
  show "unhedged y n \<noteq> Some (True, ord_fill_qty y)"
    using assms(1-3) by (simp add: unhedged_def any_fill_def has_fill_def)
  show "unhedged y (fst (snd (cancel_leg env arb_id cid n s))) = Some (True, ord_fill_qty y)"
    using assms by (simp add: cancel_leg_def cancel_order_def Let_def unhedged_def any_fill_def has_fill_def)
qed

end
