(* ===== verification/Live_Execution.thy ===== *)
theory Live_Execution
  imports Recovery Pipeline
begin

text \<open>
  \<open>_live_execution\<close> of \<open>arbiter/execution/engine.py\<close>: the balance and profitability gates, the choice
  of the first leg, depth, price and slippage buffer, the sequential placement of the two legs, naked
  positions, the status of the pair, its booking, recovery and persistence; and
  \<open>execute_opportunity\<close> with this in place of the hand-over.  Where the code raises, the model has a
  value of its own.
\<close>

section \<open>The pair\<close>

text \<open>A side of the pair is named by whether it is the YES one.\<close>

definition side_name :: "bool \<Rightarrow> string" where
  "side_name y = (if y then ''yes'' else ''no'')"

definition side_platform :: "opportunity \<Rightarrow> bool \<Rightarrow> string" where
  "side_platform p y = (if y then opp_yes_platform p else opp_no_platform p)"

definition side_market :: "opportunity \<Rightarrow> bool \<Rightarrow> string" where
  "side_market p y = (if y then opp_yes_market_id p else opp_no_market_id p)"

definition side_price :: "opportunity \<Rightarrow> bool \<Rightarrow> flt" where
  "side_price p y = (if y then opp_yes_price p else opp_no_price p)"

definition side_rate :: "opportunity \<Rightarrow> bool \<Rightarrow> flt" where
  "side_rate p y = (if y then opp_yes_fee_rate p else opp_no_fee_rate p)"

definition side_fee :: "opportunity \<Rightarrow> bool \<Rightarrow> flt \<Rightarrow> int \<Rightarrow> flt" where
  "side_fee p y price qty = compute_fee (side_platform p y) price qty (side_rate p y) / of_int (max qty 1)"

text \<open>What a contract of the pair nets when the side \<open>y\<close> costs \<open>price\<close> and the other \<open>other\<close>.\<close>

definition net_at :: "opportunity \<Rightarrow> bool \<Rightarrow> flt \<Rightarrow> flt \<Rightarrow> int \<Rightarrow> flt" where
  "net_at p y price other qty =
     1 - (price + other) - side_fee p y price qty - side_fee p (\<not> y) other qty"

definition live_floor :: "live_env \<Rightarrow> opportunity \<Rightarrow> live \<Rightarrow> flt" where
  "live_floor env p s =
     min_edge_for_pair (en_config (lv_engine s)) (opp_yes_platform p) (opp_no_platform p)"

definition live_qty :: "opportunity \<Rightarrow> int" where
  "live_qty p = max 1 (opp_suggested_qty p)"

section \<open>Gates before the first order\<close>

definition leg_notionals :: "opportunity \<Rightarrow> (string \<times> flt) list" where
  "leg_notionals p =
     AList.update (opp_no_platform p) (opp_no_price p * of_int (live_qty p))
       [(opp_yes_platform p, opp_yes_price p * of_int (live_qty p))]"

definition min_reserve :: "live_env \<Rightarrow> flt" where
  "min_reserve env = (case le_min_reserve env of None \<Rightarrow> 20 | Some x \<Rightarrow> x)"

fun balance_short :: "live_env \<Rightarrow> (string \<times> flt) list \<Rightarrow> (string \<times> flt \<times> flt) option" where
  "balance_short env [] = None"
| "balance_short env ((pl, notional) # rest) =
     (case le_balance env pl of
        None \<Rightarrow> balance_short env rest
      | Some avail \<Rightarrow> if avail < notional + min_reserve env then Some (pl, avail, notional)
                      else balance_short env rest)"

definition balance_reject ::
  "live_env \<Rightarrow> string \<Rightarrow> opportunity \<Rightarrow> string \<times> flt \<times> flt \<Rightarrow> live \<Rightarrow> live" where
  "balance_reject env arb_id p b s =
     (case b of (pl, avail, notional) \<Rightarrow>
        on_engine (abort \<circ> record_incident (le_exec env) arb_id (opp_canonical_id p) ''warning''
          (''Pre-trade balance gate: '' @ pl @ '' short'', [])
          [(''event_type'', MText ''balance_gate_reject''), (''platform'', MText pl),
           (''available_usd'', MNum avail), (''leg_notional_usd'', MNum notional),
           (''reserve_floor_usd'', MNum (min_reserve env)), (''qty'', MInt (live_qty p))]) s)"

definition unplaced_leg ::
  "live_env \<Rightarrow> string \<Rightarrow> string \<Rightarrow> opportunity \<Rightarrow> bool \<Rightarrow> flt \<Rightarrow> int \<Rightarrow> string \<Rightarrow> order" where
  "unplaced_leg env arb_id suffix p y price qty err =
     leg_order (arb_id @ ''-'' @ py_upper (side_name y) @ suffix) (side_platform p y)
       (side_market p y) (opp_canonical_id p) (side_name y) price qty ABORTED (xe_now (le_exec env)) err"

definition unprofitable_leg :: "live_env \<Rightarrow> string \<Rightarrow> opportunity \<Rightarrow> bool \<Rightarrow> order" where
  "unprofitable_leg env arb_id p y =
     unplaced_leg env arb_id ''-UNPROFITABLE'' p y (side_price p y) (opp_suggested_qty p)
       ''Net edge {}c below {}c minimum''"

text \<open>Whether the YES leg is placed first.\<close>

definition yes_first :: "live_env \<Rightarrow> opportunity \<Rightarrow> bool" where
  "yes_first env p =
     (if le_kalshi_first env
      then opp_yes_platform p = ''kalshi'' \<or> opp_no_platform p \<noteq> ''kalshi''
      else opp_yes_platform p = ''polymarket''
        \<or> (opp_no_platform p \<noteq> ''polymarket''
           \<and> (opp_yes_platform p = ''polymarket_us'' \<or> opp_no_platform p \<noteq> ''polymarket_us'')))"

section \<open>Depth, price and buffer\<close>

datatype depth_result = DepthRaised | NoDepth | DepthFor int

function depth_loop ::
  "(nat \<Rightarrow> string \<Rightarrow> string \<Rightarrow> int \<Rightarrow> (bool \<times> flt) option) \<Rightarrow> opportunity \<Rightarrow> bool \<Rightarrow> int
   \<Rightarrow> live \<Rightarrow> live \<times> depth_result" where
  "depth_loop depth p y try_qty s =
     (if try_qty < 1 then (s, NoDepth)
      else let s1 = log_call (CDepth (side_platform p y) (side_market p y) (side_name y) try_qty) s
           in case depth (tick s) (side_market p y) (side_name y) try_qty of
                None \<Rightarrow> (s1, DepthRaised)
              | Some (sufficient, best) \<Rightarrow>
                  if sufficient then (s1, DepthFor try_qty)
                  else depth_loop depth p y (try_qty div 2) s1)"
  by pat_completeness auto

termination
  by (relation "measure (\<lambda>(depth, p, y, try_qty, s). nat try_qty)") auto

declare depth_loop.simps [simp del]

definition check_leg_depth :: "live_env \<Rightarrow> opportunity \<Rightarrow> bool \<Rightarrow> live \<Rightarrow> live \<times> depth_result" where
  "check_leg_depth env p y s =
     (case le_adapters env (side_platform p y) of
        None \<Rightarrow> (s, DepthFor (live_qty p))
      | Some ad \<Rightarrow> (case ad_depth ad of
                      None \<Rightarrow> (s, DepthFor (live_qty p))
                    | Some depth \<Rightarrow> depth_loop depth p y (live_qty p) s))"

text \<open>The walk of a side's book: \<open>None\<close> where the adapter cannot.\<close>

definition walk_book ::
  "live_env \<Rightarrow> opportunity \<Rightarrow> bool \<Rightarrow> int \<Rightarrow> live \<Rightarrow> live \<times> walk_result option" where
  "walk_book env p y qty s =
     (case le_adapters env (side_platform p y) of
        None \<Rightarrow> (s, None)
      | Some ad \<Rightarrow> (case ad_walk ad of
                      None \<Rightarrow> (s, None)
                    | Some walk \<Rightarrow>
                        (log_call (CWalk (side_platform p y) (side_market p y) (side_name y) qty) s,
                         Some (walk (tick s) (side_market p y) (side_name y) qty))))"

datatype primary_plan = PlanRaised | PlanSkipped | PlanOrder int flt

definition slippage_ticks :: "live_env \<Rightarrow> string \<Rightarrow> int" where
  "slippage_ticks env pl = max 0 (case le_slippage_ticks env pl of None \<Rightarrow> 2 | Some n \<Rightarrow> n)"

definition buffer_floor :: "live_env \<Rightarrow> flt" where
  "buffer_floor env = (case le_buffer_min_net env of None \<Rightarrow> 2 | Some x \<Rightarrow> x)"

definition buffered_price :: "live_env \<Rightarrow> opportunity \<Rightarrow> bool \<Rightarrow> int \<Rightarrow> flt \<Rightarrow> flt" where
  "buffered_price env p y qty price =
     (let ticks = slippage_ticks env (side_platform p y);
          b = min (price + 1/100 * of_int ticks) (99/100)
      in if 0 < ticks \<and> buffer_floor env \<le> net_at p y b (side_price p (\<not> y)) qty * 100 then b
         else price)"

definition walked_price :: "opportunity \<Rightarrow> bool \<Rightarrow> flt \<Rightarrow> int \<Rightarrow> walk_result option \<Rightarrow> primary_plan" where
  "walked_price p y edge_floor qty w =
     (case w of
        None \<Rightarrow> PlanOrder qty (side_price p y)
      | Some WalkRaised \<Rightarrow> PlanRaised
      | Some (Walked fillable x) \<Rightarrow>
          if \<not> fillable \<or> x \<le> 0 then PlanOrder qty (side_price p y)
          else if side_price p y < x \<and> net_at p y x (side_price p (\<not> y)) qty * 100 < edge_floor
          then PlanSkipped
          else PlanOrder qty x)"

definition plan_primary :: "live_env \<Rightarrow> opportunity \<Rightarrow> bool \<Rightarrow> live \<Rightarrow> live \<times> primary_plan" where
  "plan_primary env p y s =
     (case check_leg_depth env p y s of
        (s1, DepthRaised) \<Rightarrow> (s1, PlanRaised)
      | (s1, NoDepth) \<Rightarrow> (s1, PlanSkipped)
      | (s1, DepthFor qty) \<Rightarrow>
          let (s2, w) = walk_book env p y qty s1
          in case walked_price p y (live_floor env p s) qty w of
               PlanOrder q x \<Rightarrow> (s2, PlanOrder q (buffered_price env p y q x))
             | plan \<Rightarrow> (s2, plan))"

definition place_primary ::
  "live_env \<Rightarrow> string \<Rightarrow> opportunity \<Rightarrow> bool \<Rightarrow> int \<Rightarrow> flt \<Rightarrow> live \<Rightarrow> live \<times> order option" where
  "place_primary env arb_id p y qty price s =
     place_order_for_leg env
       \<lparr> lr_arb_id = arb_id, lr_platform = side_platform p y, lr_market = side_market p y,
         lr_cid = opp_canonical_id p, lr_side = side_name y, lr_price = price, lr_qty = qty,
         lr_ioc = (\<not> le_primary_fok env (side_platform p y)), lr_first = True,
         lr_persist_id = None \<rparr> s"

section \<open>The second leg\<close>

text \<open>The most the second leg may cost while the pair still nets its floor.\<close>

definition max_affordable_secondary ::
  "opportunity \<Rightarrow> bool \<Rightarrow> flt \<Rightarrow> order \<Rightarrow> flt \<Rightarrow> int \<Rightarrow> flt" where
  "max_affordable_secondary p y edge_floor primary fok_price qty =
     (let n = (if ord_fill_qty primary = 0 then qty else ord_fill_qty primary)
      in max (1 - ord_fill_price primary - side_fee p y (ord_fill_price primary) n
              - side_fee p (\<not> y) fok_price qty - edge_floor / 100) 0)"

definition hopeless_threshold :: "string \<Rightarrow> flt" where
  "hopeless_threshold pl = (if pl = ''polymarket'' then 0 else 1/100)"

definition second_quote :: "opportunity \<Rightarrow> bool \<Rightarrow> walk_result option \<Rightarrow> flt" where
  "second_quote p y w =
     (case w of
        Some (Walked fillable x) \<Rightarrow> if fillable \<and> 0 < x then x else side_price p (\<not> y)
      | _ \<Rightarrow> side_price p (\<not> y))"

text \<open>The arguments of the fallback chain, from the walk of the second book.\<close>

definition secondary_args ::
  "string \<Rightarrow> opportunity \<Rightarrow> bool \<Rightarrow> flt \<Rightarrow> order \<Rightarrow> int \<Rightarrow> walk_result option \<Rightarrow> fallback_args" where
  "secondary_args arb_id p y edge_floor primary qty w =
     (let fok_price = second_quote p y w;
          afford = max_affordable_secondary p y edge_floor primary fok_price qty;
          give_up = (afford + hopeless_threshold (side_platform p (\<not> y)) < fok_price)
      in \<lparr> fb_arb_id = arb_id, fb_platform = side_platform p (\<not> y), fb_market = side_market p (\<not> y),
           fb_cid = opp_canonical_id p, fb_side = side_name (\<not> y),
           fb_initial_price = (if give_up then fok_price else afford), fb_qty = qty,
           fb_max_affordable = afford, fb_break_even = Some (afford + edge_floor / 100),
           fb_skip_initial = give_up \<rparr>)"

definition secondary_raised ::
  "live_env \<Rightarrow> string \<Rightarrow> opportunity \<Rightarrow> bool \<Rightarrow> order \<Rightarrow> live \<Rightarrow> live" where
  "secondary_raised env arb_id p y primary s =
     on_engine (record_incident (le_exec env) arb_id (opp_canonical_id p) ''critical''
       (''Secondary execution raised before order construction ({}) - naked position'', [])
       [(''event_type'', MText ''secondary_execution_exception''),
        (''primary_platform'', MText (side_platform p y)), (''primary_side'', MText (side_name y)),
        (''primary_filled_qty'', MInt (ord_fill_qty primary)),
        (''primary_filled_price'', MNum (ord_fill_price primary)),
        (''primary_exposure_usd'', MNum (of_int (ord_fill_qty primary) * ord_fill_price primary)),
        (''secondary_platform'', MText (side_platform p (\<not> y))),
        (''secondary_side'', MText (side_name (\<not> y)))]) s"

text \<open>The second leg of a primary that filled, and whether the block raised.\<close>

definition place_secondary ::
  "live_env \<Rightarrow> string \<Rightarrow> opportunity \<Rightarrow> bool \<Rightarrow> flt \<Rightarrow> order \<Rightarrow> int \<Rightarrow> live
   \<Rightarrow> live \<times> order \<times> bool" where
  "place_secondary env arb_id p y edge_floor primary qty s =
     (let failed = (\<lambda>s'. (secondary_raised env arb_id p y primary s',
            unplaced_leg env arb_id ''-EXCEPTION'' p (\<not> y) (side_price p (\<not> y)) qty
              ''Secondary execution raised before order construction: {}'', True));
          (s1, w) = walk_book env p (\<not> y) qty s
      in if w = Some WalkRaised then failed s1
         else let a = secondary_args arb_id p y edge_floor primary qty w
              in case execute_with_fallbacks env a s1 of
                   (s2, FbRaised) \<Rightarrow> failed s2
                 | (s2, FbOrder r) \<Rightarrow> (s2, r, False)
                 | (s2, FbNothing) \<Rightarrow>
                     (s2, unplaced_leg env arb_id ''-EDGE-LOST'' p (\<not> y) (fb_initial_price a) qty
                            ''Secondary live-book exec price {} exceeds max-affordable {} (requote attempts exhausted)'',
                      False))"

section \<open>Naked positions\<close>

definition count_naked :: "flt \<Rightarrow> engine \<Rightarrow> engine" where
  "count_naked usd en =
     en\<lparr>en_naked_leg_count := en_naked_leg_count en + 1,
        en_naked_leg_exposure_usd := en_naked_leg_exposure_usd en + usd\<rparr>"

definition soft_naked ::
  "live_env \<Rightarrow> string \<Rightarrow> opportunity \<Rightarrow> bool \<Rightarrow> order \<Rightarrow> order \<Rightarrow> engine \<Rightarrow> engine" where
  "soft_naked env arb_id p y primary secondary en =
     (let xe = le_exec env; cid = opp_canonical_id p;
          usd = of_int (ord_fill_qty primary) * ord_fill_price primary;
          unwind = ''Wait for resting '' @ py_upper (side_name (\<not> y)) @ '' on ''
                     @ py_upper (side_platform p (\<not> y)) @ '' to fill, or cancel and hedge ''
                     @ py_upper (side_name y) @ '' exposure on '' @ py_upper (side_platform p y);
          msg = (''Soft naked position: secondary leg accepted but not filled'', []);
          meta = [(''event_type'', MText ''soft_naked_leg''),
                  (''primary_platform'', MText (side_platform p y)),
                  (''primary_side'', MText (side_name y)),
                  (''primary_filled_qty'', MInt (ord_fill_qty primary)),
                  (''primary_filled_price'', MNum (ord_fill_price primary)),
                  (''primary_exposure_usd'', MNum usd), (''exposure_usd'', MNum usd),
                  (''secondary_platform'', MText (side_platform p (\<not> y))),
                  (''secondary_side'', MText (side_name (\<not> y))),
                  (''secondary_status'', MText (status_text (ord_status secondary))),
                  (''secondary_filled_qty'', MInt (ord_fill_qty secondary)),
                  (''secondary_unfilled_qty'',
                     MNum (max (of_int (ord_quantity secondary) - of_int (ord_fill_qty secondary)) 0)),
                  (''recommended_unwind'', MText unwind),
                  (''cumulative_naked_count'', MInt (en_naked_leg_count en)),
                  (''cumulative_naked_exposure_usd'', MNum (round_nd 2 (en_naked_leg_exposure_usd en)))];
          en1 = record_incident xe arb_id cid ''critical'' msg meta en
      in en1\<lparr>en_safety := handle_one_leg_exposure (new_incident xe arb_id cid ''critical'' msg meta)
               primary cid (Some usd) (Some unwind) (en_safety en1)\<rparr>)"

definition note_naked ::
  "live_env \<Rightarrow> string \<Rightarrow> opportunity \<Rightarrow> bool \<Rightarrow> order \<Rightarrow> order \<Rightarrow> engine \<Rightarrow> engine" where
  "note_naked env arb_id p y primary secondary en =
     (let usd = of_int (ord_fill_qty primary) * ord_fill_price primary
      in if ord_status secondary = FILLED then en
         else if ord_status secondary \<in> {SUBMITTED, PARTIAL}
         then soft_naked env arb_id p y primary secondary (count_naked usd en)
         else count_naked usd en)"

section \<open>The two legs\<close>

datatype legs_result = LegsNone | LegsRaised | Legs order order bool

definition pair_legs :: "bool \<Rightarrow> order \<Rightarrow> order \<Rightarrow> bool \<Rightarrow> legs_result" where
  "pair_legs y primary secondary raised =
     (if y then Legs primary secondary raised else Legs secondary primary raised)"

definition place_pair ::
  "live_env \<Rightarrow> string \<Rightarrow> opportunity \<Rightarrow> live \<Rightarrow> live \<times> legs_result" where
  "place_pair env arb_id p s =
     (let y = yes_first env p; edge_floor = live_floor env p s
      in case plan_primary env p y s of
           (s1, PlanRaised) \<Rightarrow> (s1, LegsRaised)
         | (s1, PlanSkipped) \<Rightarrow> (s1, LegsNone)
         | (s1, PlanOrder qty price) \<Rightarrow>
             (case place_primary env arb_id p y qty price s1 of
                (s2, None) \<Rightarrow> (s2, LegsRaised)
              | (s2, Some primary) \<Rightarrow>
                  if ord_fill_qty primary \<le> 0
                  then (s2, pair_legs y primary
                         (unplaced_leg env arb_id ''-SKIPPED'' p (\<not> y) (side_price p (\<not> y)) qty
                            ''Skipped: primary leg did not fill (sequential execution)'') False)
                  else let (s3, secondary, raised) =
                         place_secondary env arb_id p y edge_floor primary (min qty (ord_fill_qty primary)) s2
                       in (on_engine (note_naked env arb_id p y primary secondary) s3,
                           pair_legs y primary secondary raised)))"

definition place_legs ::
  "live_env \<Rightarrow> string \<Rightarrow> opportunity \<Rightarrow> live \<Rightarrow> live \<times> legs_result" where
  "place_legs env arb_id p s =
     (case balance_short env (leg_notionals p) of
        Some b \<Rightarrow> (balance_reject env arb_id p b s, LegsNone)
      | None \<Rightarrow>
          if net_at p True (opp_yes_price p) (opp_no_price p) (live_qty p) * 100 < live_floor env p s
          then (s, Legs (unprofitable_leg env arb_id p True) (unprofitable_leg env arb_id p False) False)
          else place_pair env arb_id p s)"

section \<open>Status and booking\<close>

definition surviving :: "order \<Rightarrow> bool" where
  "surviving r = (ord_status r \<in> {FILLED, PARTIAL, SUBMITTED})"

definition terminal_failed :: "order \<Rightarrow> bool" where
  "terminal_failed r = (ord_status r \<in> {FAILED, CANCELLED, ABORTED})"

definition is_survivor :: "order \<Rightarrow> bool" where
  "is_survivor r = (surviving r \<and> (ord_status r = FILLED \<longrightarrow> 0 < ord_fill_qty r))"

definition resting_open :: "order \<Rightarrow> bool" where
  "resting_open r = (ord_status r \<in> {SUBMITTED, PENDING} \<and> ord_fill_qty r < ord_quantity r)"

definition pair_status :: "order \<Rightarrow> order \<Rightarrow> string" where
  "pair_status y n =
     (if terminal_failed y \<or> terminal_failed n
      then if is_survivor y \<or> is_survivor n then ''recovering'' else ''failed''
      else if ord_status y = PARTIAL \<or> ord_status n = PARTIAL then ''recovering''
      else if ord_status y = FILLED \<and> ord_status n = FILLED then ''filled''
      else if ord_status y = FILLED \<and> resting_open n \<or> ord_status n = FILLED \<and> resting_open y
      then ''recovering''
      else ''submitted'')"

definition live_pnl :: "opportunity \<Rightarrow> order \<Rightarrow> order \<Rightarrow> flt" where
  "live_pnl p y n =
     (if pair_status y n = ''filled'' \<or> pair_status y n = ''submitted''
      then opp_net_edge p * of_int (min (max (ord_fill_qty y) 0) (max (ord_fill_qty n) 0)) else 0)"

definition record_pair :: "opportunity \<Rightarrow> flt \<Rightarrow> risk_manager \<Rightarrow> risk_manager" where
  "record_pair p pnl =
     record_trade (opp_canonical_id p)
       (of_int (opp_suggested_qty p) * (opp_yes_price p + opp_no_price p)) pnl
       \<lparr>ta_platform = None, ta_yes_platform = Some (opp_yes_platform p),
        ta_no_platform = Some (opp_no_platform p),
        ta_yes_exposure = of_int (opp_suggested_qty p) * opp_yes_price p,
        ta_no_exposure = of_int (opp_suggested_qty p) * opp_no_price p\<rparr>"

definition record_survivor :: "opportunity \<Rightarrow> bool \<Rightarrow> flt \<Rightarrow> risk_manager \<Rightarrow> risk_manager" where
  "record_survivor p y pnl =
     record_trade (opp_canonical_id p) (of_int (opp_suggested_qty p) * side_price p y) pnl
       (single_args (side_platform p y))"

definition book_live :: "opportunity \<Rightarrow> order \<Rightarrow> order \<Rightarrow> risk_manager \<Rightarrow> risk_manager" where
  "book_live p y n r =
     (let pnl = live_pnl p y n; st = pair_status y n
      in if st = ''submitted'' \<or> st = ''filled'' then record_pair p pnl r
         else if st = ''recovering''
         then if surviving y \<and> \<not> surviving n then record_survivor p True pnl r
              else if surviving n \<and> \<not> surviving y then record_survivor p False pnl r
              else record_pair p pnl r
         else r)"

definition replace_last :: "arb_execution \<Rightarrow> engine \<Rightarrow> engine" where
  "replace_last ex en = en\<lparr>en_executions := butlast (en_executions en) @ [ex]\<rparr>"

text \<open>
  From the legs on.  The execution appended to the history is the object the recovery then updates:
  its legs, notes and profits.
\<close>

definition settle_live ::
  "live_env \<Rightarrow> string \<Rightarrow> opportunity \<Rightarrow> order \<Rightarrow> order \<Rightarrow> live \<Rightarrow> live \<times> arb_execution" where
  "settle_live env arb_id p y n s =
     (let xe = le_exec env;
          ex = \<lparr> ex_arb_id = arb_id, ex_opportunity = p, ex_leg_yes = y, ex_leg_no = n,
                 ex_status = pair_status y n, ex_realized_pnl = live_pnl p y n, ex_unwind_pnl = 0,
                 ex_timestamp = xe_now xe, ex_notes = [] \<rparr>;
          s1 = on_engine (\<lambda>en. en\<lparr>en_risk := book_live p y n (en_risk en)\<rparr>)
                 (on_engine (append_execution ex) s);
          (s2, ex') = (if pair_status y n = ''recovering''
                       then let (s', rc) = recover_one_leg_risk env arb_id p y n s1;
                                ex' = ex\<lparr>ex_leg_yes := rc_yes rc, ex_leg_no := rc_no rc,
                                        ex_notes := rc_messages rc,
                                        ex_unwind_pnl := rc_pnl rc,
                                        ex_realized_pnl := ex_realized_pnl ex + rc_pnl rc\<rparr>
                            in (on_engine (replace_last ex') s', ex')
                       else (s1, ex));
          s3 = on_engine (maybe_halt_on_daily_loss xe (ex_unwind_pnl ex')) s2
      in (if xe_db xe = None then s3
          else let ok = le_store_ok env (tick s3); s4 = log_call (CRecordArb arb_id ok) s3
               in if ok then s4
                  else on_engine (handle_db_failure xe ''record_arb'' arb_id (opp_canonical_id p)) s4,
          ex'))"

datatype live_result = LiveNone | LiveRaised | LiveDone arb_execution

definition live_execution ::
  "live_env \<Rightarrow> string \<Rightarrow> opportunity \<Rightarrow> live \<Rightarrow> live \<times> live_result" where
  "live_execution env arb_id p s =
     (case place_legs env arb_id p s of
        (s1, LegsNone) \<Rightarrow> (s1, LiveNone)
      | (s1, LegsRaised) \<Rightarrow> (s1, LiveRaised)
      | (s1, Legs y n raised) \<Rightarrow>
          let (s2, ex) = settle_live env arb_id p y n s1
          in (s2, if raised then LiveRaised else LiveDone ex))"

text \<open>\<open>execute_opportunity\<close> with live placement: a trade that was not placed counts as aborted.\<close>

datatype whole_result = Stayed exec_result | WentLive live_result

definition execute_whole ::
  "live_env \<Rightarrow> opportunity \<Rightarrow> live \<Rightarrow> live \<times> whole_result" where
  "execute_whole env p s =
     (let xe = le_exec env; (en1, r) = execute_opportunity xe p (lv_engine s);
          s1 = on_engine (\<lambda>_. en1) s
      in case r of
           GoLive arb_id q \<Rightarrow>
             (case live_execution env arb_id q s1 of
                (s2, LiveNone) \<Rightarrow> (on_engine abort s2, WentLive LiveNone)
              | (s2, LiveRaised) \<Rightarrow> (s2, WentLive LiveRaised)
              | (s2, LiveDone ex) \<Rightarrow>
                  (on_engine (publish_execution ex \<circ> engine_audit_execution xe ex) s2,
                   WentLive (LiveDone ex)))
         | _ \<Rightarrow> (s1, Stayed r))"

section \<open>What a live trade sends\<close>

lemma depth_placeless: "placeless s (fst (depth_loop depth p y n s))"
proof (induction depth p y n s rule: depth_loop.induct)
  case (1 depth p y n s)
  let ?s1 = "log_call (CDepth (side_platform p y) (side_market p y) (side_name y) n) s"
  have "placeless s ?s1" by simp
  from only_trans[OF this] 1 show ?case
    by (subst depth_loop.simps) (simp add: Let_def split: option.split)
qed

lemma depth_for_range:
  "snd (depth_loop depth p y n s) = DepthFor q \<Longrightarrow> 1 \<le> q \<and> q \<le> n"
proof (induction depth p y n s rule: depth_loop.induct)
  case (1 depth p y n s)
  from 1(2) show ?case
    by (subst (asm) depth_loop.simps)
      (auto simp: Let_def split: if_splits option.splits dest: 1(1)[OF _ refl _ refl])
qed

lemma check_depth_placeless: "placeless s (fst (check_leg_depth env p y s))"
  by (simp add: check_leg_depth_def depth_placeless split: option.split)

lemma check_depth_range:
  "check_leg_depth env p y s = (s1, DepthFor q) \<Longrightarrow> 1 \<le> q \<and> q \<le> live_qty p"
  by (auto simp: check_leg_depth_def live_qty_def split: option.splits
      dest!: arg_cong[where f = snd] dest: depth_for_range)

lemma walk_placeless: "placeless s (fst (walk_book env p y qty s))"
  by (simp add: walk_book_def split: option.split)

lemma plan_placeless: "placeless s (fst (plan_primary env p y s))"
  using check_depth_placeless[of s env p y]
  by (auto simp: plan_primary_def case_prod_unfold Let_def walk_placeless intro: only_trans
      split: depth_result.split primary_plan.split)

definition sane_limit :: "live_env \<Rightarrow> opportunity \<Rightarrow> bool \<Rightarrow> flt \<Rightarrow> int \<Rightarrow> flt \<Rightarrow> bool" where
  "sane_limit env p y edge_floor qty x =
     (1 \<le> qty \<and> qty \<le> live_qty p
      \<and> (x \<le> side_price p y
         \<or> min edge_floor (buffer_floor env) \<le> net_at p y x (side_price p (\<not> y)) qty * 100))"

lemma plan_sane:
  assumes "plan_primary env p y s = (s', PlanOrder qty x)"
  shows "sane_limit env p y (live_floor env p s) qty x"
proof -
  obtain s1 q where d: "check_leg_depth env p y s = (s1, DepthFor q)"
    using assms by (auto simp: plan_primary_def split: prod.splits depth_result.splits)
  note range = check_depth_range[OF d]
  obtain x0 where x0: "walked_price p y (live_floor env p s) q (snd (walk_book env p y q s1)) = PlanOrder qty x0"
    "x = buffered_price env p y qty x0"
    using assms d by (auto simp: plan_primary_def case_prod_unfold Let_def split: primary_plan.splits)
  from x0(1) have q: "qty = q" and walked: "x0 \<le> side_price p y
      \<or> live_floor env p s \<le> net_at p y x0 (side_price p (\<not> y)) q * 100"
    by (auto simp: walked_price_def not_le not_less split: option.splits walk_result.splits if_splits)
  from x0(2) have "x = x0 \<or> buffer_floor env \<le> net_at p y x (side_price p (\<not> y)) q * 100"
    by (auto simp: buffered_price_def Let_def q split: if_splits)
  with walked range show ?thesis by (auto simp: sane_limit_def q min_le_iff_disj)
qed

lemma place_emits:
  assumes "place_order_for_leg env q s = (s', res)"
  obtains (none) "emits is_place s s' []" "\<And>r. res = Some r \<Longrightarrow> ord_fill_qty r = 0"
  | (one) k where "\<not> db_blocked s" "emits is_place s s'
      [CPlace (lr_platform q) (lr_arb_id q) (lr_side q) (lr_price q) (lr_qty q) k]"
  using assms
proof (cases rule: place_cases)
  case (unsent r)
  then show ?thesis by (intro none) simp_all
next
  case (raised k)
  then show ?thesis by (intro one[of k]) (auto simp: emits_def)
next
  case (placed k mid last r)
  then have "filter is_place (mid @ last) = []"
    by (auto simp: quiet_def list_all_iff filter_empty_conv)
  with placed show ?thesis by (intro one[of k]) (auto simp: emits_def)
qed

lemma run_emits:
  assumes "leg_run s s' e ok n"
  obtains ps where "emits is_place s s' ps" "length ps \<le> n" "list_all ok ps" "db_blocked s \<Longrightarrow> ps = []"
    "list_all is_place ps"
proof -
  from assms obtain cs where "extends s s' cs" "list_all (\<lambda>c. is_place c \<longrightarrow> ok c) cs"
    "placed_count cs \<le> n" "db_blocked s \<longrightarrow> \<not> list_ex is_place cs"
    by (auto simp: leg_run_def)
  then show ?thesis
    by (intro that[of "filter is_place cs"])
      (auto simp: emits_def placed_count_def list_all_iff list_ex_iff filter_empty_conv)
qed

text \<open>
  An order over \<open>n\<close> contracts that hedges the fill of the first leg, when the walk of the second book gave
  \<open>w\<close>: its price is at most what the fill, its fee and the fee of the hedge, taken at that walk, leave of the
  payout, or the floor itself when they leave less.
\<close>

definition hedges ::
  "opportunity \<Rightarrow> bool \<Rightarrow> flt \<Rightarrow> order \<Rightarrow> int \<Rightarrow> walk_result option \<Rightarrow> venue_call \<Rightarrow> bool" where
  "hedges p y edge_floor primary n w c =
     (case c of CPlace pl a sd x m k \<Rightarrow>
        pl = side_platform p (\<not> y) \<and> sd = side_name (\<not> y) \<and> m = n
        \<and> x \<le> max (1 - ord_fill_price primary - side_fee p y (ord_fill_price primary) (ord_fill_qty primary)
                      - side_fee p (\<not> y) (second_quote p y w) n) (edge_floor / 100)
      | _ \<Rightarrow> False)"

lemma secondary_args_cap:
  "fb_skip_initial (secondary_args a p y fl r n w)
   \<or> fb_initial_price (secondary_args a p y fl r n w) \<le> chain_cap (secondary_args a p y fl r n w)"
  by (simp add: secondary_args_def Let_def chain_cap_def)

lemma within_cap_hedges:
  assumes "within_cap (secondary_args a p y fl r n w) c" "is_place c" "0 \<le> fl" "0 < n" "n \<le> ord_fill_qty r"
  shows "hedges p y fl r n w c"
proof -
  let ?A = "1 - ord_fill_price r - side_fee p y (ord_fill_price r) (ord_fill_qty r)
      - side_fee p (\<not> y) (second_quote p y w) n"
  have "max_affordable_secondary p y fl r (second_quote p y w) n = max (?A - fl / 100) 0"
    using assms(4,5) by (simp add: max_affordable_secondary_def Let_def)
  then have cap: "chain_cap (secondary_args a p y fl r n w) = max ?A (fl / 100)"
    using assms(3) by (simp add: secondary_args_def Let_def chain_cap_def max_def)
  from assms show ?thesis
    unfolding hedges_def within_cap_def cap
    by (auto simp: is_place_def secondary_args_def Let_def split: venue_call.splits)
qed

lemma secondary_emits:
  assumes "place_secondary env a p y fl r n s = (s', sec, raised)" "0 \<le> fl" "0 < n" "n \<le> ord_fill_qty r"
  obtains ps where "emits is_place s s' ps" "length ps \<le> le_requote_attempts env + 2"
    "list_all (hedges p y fl r n (snd (walk_book env p (\<not> y) n s))) ps" "db_blocked s \<Longrightarrow> ps = []"
proof -
  obtain s1 w where w: "walk_book env p (\<not> y) n s = (s1, w)" by (metis surj_pair)
  have "lv_engine s1 = lv_engine s"
    using w by (auto simp: walk_book_def split: option.splits)
  then have same: "db_blocked s1 = db_blocked s" by (simp add: db_blocked_def)
  have quiet: "emits is_place s s1 []"
    using only_emits[OF walk_placeless[of s env p "\<not> y" n]] w by simp
  show ?thesis
  proof (cases "w = Some WalkRaised")
    case True
    with assms(1) w have "s' = secondary_raised env a p y r s1"
      by (simp add: place_secondary_def Let_def)
    with quiet show ?thesis by (intro that[of "[]"]) (simp_all add: secondary_raised_def)
  next
    case False
    define args where "args = secondary_args a p y fl r n w"
    obtain s2 res where run: "execute_with_fallbacks env args s1 = (s2, res)" by (metis surj_pair)
    have "leg_run s1 s2 True (within_cap args) (le_requote_attempts env + 2)"
      using fallbacks_run[OF run] secondary_args_cap by (simp add: args_def)
    then obtain ps where ps: "emits is_place s1 s2 ps" "length ps \<le> le_requote_attempts env + 2"
      "list_all (within_cap args) ps" "db_blocked s1 \<Longrightarrow> ps = []" "list_all is_place ps"
      by (rule run_emits) blast
    from assms(1) w False run have "s' = s2 \<or> s' = secondary_raised env a p y r s2"
      by (auto simp: place_secondary_def Let_def args_def split: fallback_result.splits)
    with emits_trans[OF quiet ps(1)] have "emits is_place s s' ps"
      by (auto simp: secondary_raised_def)
    moreover have "list_all (hedges p y fl r n (snd (walk_book env p (\<not> y) n s))) ps"
      using ps(3,5) within_cap_hedges[OF _ _ assms(2-4)] by (auto simp: list_all_iff args_def w)
    ultimately show ?thesis using ps same that by blast
  qed
qed

text \<open>
  What a live trade sends: nothing, or an order for the first leg and then hedges of what it filled, all over
  one quantity and within the price that the walk of the second book after the fill gave.
\<close>

definition sound_sends :: "live_env \<Rightarrow> string \<Rightarrow> opportunity \<Rightarrow> flt \<Rightarrow> venue_call list \<Rightarrow> bool" where
  "sound_sends env arb_id p edge_floor ps =
     (ps = [] \<or> (\<exists>qty x k hs s1 s2 r.
        ps = CPlace (side_platform p (yes_first env p)) arb_id (side_name (yes_first env p)) x qty k # hs
        \<and> sane_limit env p (yes_first env p) edge_floor qty x \<and> length hs \<le> le_requote_attempts env + 2
        \<and> (hs \<noteq> [] \<longrightarrow> place_primary env arb_id p (yes_first env p) qty x s1 = (s2, Some r)
             \<and> 0 < ord_fill_qty r
             \<and> list_all (hedges p (yes_first env p) edge_floor r (min qty (ord_fill_qty r))
                 (snd (walk_book env p (\<not> yes_first env p) (min qty (ord_fill_qty r)) s2))) hs)))"

lemma depth_engine: "lv_engine (fst (depth_loop depth p y n s)) = lv_engine s"
proof (induction depth p y n s rule: depth_loop.induct)
  case (1 depth p y n s)
  then show ?case
    by (subst depth_loop.simps) (simp add: Let_def split: option.split)
qed

lemma plan_engine: "lv_engine (fst (plan_primary env p y s)) = lv_engine s"
proof -
  have "lv_engine (fst (check_leg_depth env p y s)) = lv_engine s"
    by (simp add: check_leg_depth_def depth_engine split: option.split)
  moreover have "lv_engine (fst (walk_book env p y q s')) = lv_engine s'" for q s'
    by (simp add: walk_book_def split: option.split)
  ultimately show ?thesis
    by (simp add: plan_primary_def case_prod_unfold Let_def split: depth_result.split primary_plan.split)
qed

lemma pair_sends:
  assumes "place_pair env a p s = (s', res)" "0 \<le> live_floor env p s"
  obtains ps where "emits is_place s s' ps" "sound_sends env a p (live_floor env p s) ps"
    "db_blocked s \<Longrightarrow> ps = []"
proof -
  note result = that
  define y where "y = yes_first env p"
  let ?fl = "live_floor env p s"
  obtain s1 plan where plan: "plan_primary env p y s = (s1, plan)" by (metis surj_pair)
  have quiet: "emits is_place s s1 []"
    using only_emits[OF plan_placeless[of s env p y]] plan by simp
  have same: "db_blocked s1 = db_blocked s"
    using plan plan_engine[of env p y s] by (simp add: db_blocked_def)
  show ?thesis
  proof (cases "\<exists>q x. plan = PlanOrder q x")
    case False
    with assms(1) plan have "s' = s1"
      by (cases plan) (auto simp: place_pair_def Let_def y_def[symmetric])
    with quiet show ?thesis by (intro that[of "[]"]) (simp_all add: sound_sends_def)
  next
    case True
    then obtain q x where qx: "plan = PlanOrder q x" by blast
    note sane = plan_sane[OF plan[unfolded qx]]
    obtain s2 res2 where prim: "place_primary env a p y q x s1 = (s2, res2)" by (metis surj_pair)
    from prim[unfolded place_primary_def] show ?thesis
    proof (cases rule: place_emits)
      case none
      then have "s' = s2"
        using assms(1) plan qx prim
        by (auto simp: place_pair_def Let_def y_def[symmetric] split: option.splits)
      with emits_trans[OF quiet none(1)] show ?thesis
        by (intro that[of "[]"]) (simp_all add: sound_sends_def)
    next
      case (one k)
      let ?c = "CPlace (side_platform p y) a (side_name y) x q k"
      have first: "emits is_place s s2 [?c]" using emits_trans[OF quiet one(2)] by simp
      have stop: ?thesis if "s' = s2"
        using that first sane one(1) same
        by (intro result[of "[?c]"]) (auto simp: sound_sends_def y_def)
      show ?thesis
      proof (cases "\<exists>r. res2 = Some r \<and> 0 < ord_fill_qty r")
        case False
        with assms(1) plan qx prim have "s' = s2"
          by (auto simp: place_pair_def Let_def y_def[symmetric] not_less split: option.splits if_splits)
        then show ?thesis by (rule stop)
      next
        case True
        then obtain r where r: "res2 = Some r" "0 < ord_fill_qty r" by blast
        obtain s3 sec raised where sec: "place_secondary env a p y ?fl r (min q (ord_fill_qty r)) s2
            = (s3, sec, raised)" by (metis prod_cases3)
        have n: "0 < min q (ord_fill_qty r)" "min q (ord_fill_qty r) \<le> ord_fill_qty r"
          using r(2) sane by (simp_all add: sane_limit_def)
        from secondary_emits[OF sec assms(2) n] obtain hs where hs: "emits is_place s2 s3 hs"
          "length hs \<le> le_requote_attempts env + 2"
          "list_all (hedges p y ?fl r (min q (ord_fill_qty r)) (snd (walk_book env p (\<not> y) (min q (ord_fill_qty r)) s2))) hs"
          by blast
        from assms(1) plan qx prim r sec have "s' = on_engine (note_naked env a p y r sec) s3"
          by (simp add: place_pair_def Let_def y_def[symmetric] not_le[symmetric])
        with emits_trans[OF first hs(1)] have "emits is_place s s' (?c # hs)" by simp
        moreover have "sound_sends env a p ?fl (?c # hs)"
          using prim r hs sane unfolding sound_sends_def y_def by blast
        ultimately show ?thesis using one(1) same that by blast
      qed
    qed
  qed
qed

lemma settle_placeless: "placeless s (fst (settle_live env a p y n s))"
proof -
  have "placeless s (fst (recover_one_leg_risk env a p y n (on_engine f (on_engine g s))))" for f g
    using recover_placeless[of "on_engine f (on_engine g s)" env a p y n]
    by (simp add: only_def extends_def on_engine_def)
  then show ?thesis
    by (simp add: settle_live_def Let_def case_prod_unfold only_log_after)
qed

definition gated_out :: "live_env \<Rightarrow> opportunity \<Rightarrow> live \<Rightarrow> bool" where
  "gated_out env p s =
     (balance_short env (leg_notionals p) \<noteq> None
      \<or> net_at p True (opp_yes_price p) (opp_no_price p) (live_qty p) * 100 < live_floor env p s)"

lemma live_emits:
  assumes "live_execution env arb_id p s = (s', res)"
  obtains (gated) "gated_out env p s" "emits is_place s s' []"
  | (pair) s1 legs where "\<not> gated_out env p s" "place_pair env arb_id p s = (s1, legs)"
      "emits is_place s1 s' []"
proof -
  obtain s1 legs where legs: "place_legs env arb_id p s = (s1, legs)" by (metis surj_pair)
  have after: "emits is_place s1 s' []"
    using assms(1) legs only_emits[OF settle_placeless[of s1 env arb_id p], of is_place]
    by (auto simp: live_execution_def case_prod_unfold Let_def split: legs_result.splits)
  show ?thesis
  proof (cases "gated_out env p s")
    case True
    with legs have "emits is_place s s1 []"
      by (auto simp: place_legs_def balance_reject_def case_prod_unfold gated_out_def
          split: option.splits)
    from emits_trans[OF this after] gated True show ?thesis by simp
  next
    case False
    then have "balance_short env (leg_notionals p) = None" unfolding gated_out_def by blast
    with False legs have "place_pair env arb_id p s = (s1, legs)"
      by (simp add: place_legs_def gated_out_def)
    from pair[OF False this after] show ?thesis .
  qed
qed

text \<open>
  C3.  The second leg only hedges.  Whatever the venues answer, a live trade sends nothing, or one
  order for the first leg, validated against the edge floor when it pays more than the quote, and,
  only when that one has filled something, at most the configured re-quotes plus two orders on the
  other side.  Each of these is over the same quantity, the smaller of what was ordered and what
  was filled, and pays at most what the filled leg, its fee and the hedge's fee (at the price the
  walk of the second book showed) leave of the payout, or the edge floor itself when they leave
  less: below the floor the code caps at the floor and not at break-even.  With a floor of at least
  0; nothing is sent when the balance or edge gate rejects, or while the store is blocked.
\<close>

theorem second_leg_only_hedges:
  assumes "live_execution env arb_id p s = (s', res)" "lv_calls s' = lv_calls s @ cs"
    and "0 \<le> live_floor env p s"
  shows "sound_sends env arb_id p (live_floor env p s) (filter is_place cs)
    \<and> (db_blocked s \<or> gated_out env p s \<longrightarrow> filter is_place cs = [])"
  using assms(1)
proof (cases rule: live_emits)
  case gated
  from emits_unique[OF this(2) assms(2)] show ?thesis by (simp add: sound_sends_def)
next
  case (pair s1 legs)
  from pair(2) assms(3) obtain ps where ps: "emits is_place s s1 ps"
    "sound_sends env arb_id p (live_floor env p s) ps" "db_blocked s \<Longrightarrow> ps = []"
    by (rule pair_sends) blast
  from emits_unique[OF emits_trans[OF ps(1) pair(3)] assms(2)] ps pair(1) show ?thesis by auto
qed

lemma engine_calls [simp]: "lv_calls (on_engine f s) = lv_calls s"
  by (simp add: on_engine_def)

lemma run_gated_config [simp]: "en_config (fst (run_gated env a p en)) = en_config en"
  by (simp add: run_gated_def finish_execution_def simulate_execution_def queue_manual_execution_def
      append_execution_def Let_def case_prod_unfold split: option.split)


section \<open>A demonstration trade\<close>

lemma demo_floor: "live_floor (demo_live_env ad) demo_opp demo_live = 7"
  by (simp add: live_floor_def demo_live_def new_engine_def demo_opp_fields)
    (simp add: min_edge_for_pair_def venue_name_def default_scanner_config_def py_lower_def py_strip_def)

theorem second_leg_only_hedges_witness:
  "sound_sends (demo_live_env (demo_adapter True)) ''ARB-000001'' demo_opp 7
     (filter is_place (lv_calls (fst (live_execution (demo_live_env (demo_adapter True)) ''ARB-000001''
        demo_opp demo_live))))"
proof -
  let ?env = "demo_live_env (demo_adapter True)"
  obtain s' res where x: "live_execution ?env ''ARB-000001'' demo_opp demo_live = (s', res)"
    by (metis surj_pair)
  from second_leg_only_hedges[OF x, of "lv_calls s'"] show ?thesis by (simp add: x demo_floor)
qed

lemma demo_yes_first: "yes_first (demo_live_env ad) demo_opp"
  by (simp add: yes_first_def demo_live_fields demo_opp_fields)

lemma demo_side_fields:
  "side_platform demo_opp y = ''forecastex''" "side_price demo_opp True = 2/5"
  "side_price demo_opp False = 1/2" "live_qty demo_opp = 10"
  by (simp_all add: side_platform_def side_price_def live_qty_def demo_opp_fields)

lemma demo_not_gated:
  assumes "en_config (lv_engine s) = default_scanner_config\<lparr>dry_run := False\<rparr>"
  shows "\<not> gated_out (demo_live_env ad) demo_opp s"
proof -
  have fee: "side_fee demo_opp y (2/5) 10 = 1/200" "side_fee demo_opp y (1/2) 10 = 1/200" for y
    by (simp_all add: side_fee_def demo_side_fields compute_fee_def forecastex_order_fee_def side_rate_def
        demo_opp_fields or_flt_def)
  have "net_at demo_opp True (2/5) (1/2) 10 = 9/100" by (simp add: net_at_def fee)
  moreover have "live_floor (demo_live_env ad) demo_opp s = 7"
    by (simp add: live_floor_def assms min_edge_for_pair_def demo_opp_fields)
      (simp add: default_scanner_config_def)
  moreover have "balance_short (demo_live_env ad) (leg_notionals demo_opp) = None"
    by (simp add: leg_notionals_def demo_opp_fields demo_live_fields)
  ultimately show ?thesis by (simp add: gated_out_def demo_opp_fields demo_side_fields)
qed

lemma demo_plan:
  "\<exists>x. plan_primary (demo_live_env (demo_adapter fills)) demo_opp True s = (s, PlanOrder 10 x)"
  by (simp add: plan_primary_def check_leg_depth_def walk_book_def demo_live_fields demo_adapter_def
      walked_price_def demo_side_fields)

lemma demo_pair_sends:
  assumes "\<not> sv_db_write_failed (en_safety (lv_engine s))"
    and "place_pair (demo_live_env (demo_adapter False)) a demo_opp s = (s', legs)"
  shows "\<exists>c. emits is_place s s' [c]"
proof -
  let ?env = "demo_live_env (demo_adapter False)"
  obtain x where plan: "plan_primary ?env demo_opp True s = (s, PlanOrder 10 x)" using demo_plan by blast
  obtain s2 r where p: "place_primary ?env a demo_opp True 10 x s = (s2, Some r)" "ord_fill_qty r = 0"
    and c: "filter is_place (drop (length (lv_calls s)) (lv_calls s2)) \<noteq> []"
    using demo_place[OF assms(1), of False "\<lparr> lr_arb_id = a, lr_platform = side_platform demo_opp True,
         lr_market = side_market demo_opp True, lr_cid = opp_canonical_id demo_opp,
         lr_side = side_name True, lr_price = x, lr_qty = 10,
         lr_ioc = True, lr_first = True, lr_persist_id = None \<rparr>"]
    by (auto simp: place_primary_def demo_live_fields)
  from p plan assms(2) have "s' = s2"
    by (simp add: place_pair_def Let_def demo_yes_first)
  from p(1)[unfolded place_primary_def] show ?thesis
  proof (cases rule: place_emits)
    case none
    then obtain cs where "lv_calls s2 = lv_calls s @ cs" "filter is_place cs = []"
      by (auto simp: emits_def extends_def)
    with c show ?thesis by simp
  next
    case (one k)
    with \<open>s' = s2\<close> show ?thesis by blast
  qed
qed

lemma passed_audit_safety:
  "audit_flags (ma_max_position_usd (en_auditor en)) p = []
   \<Longrightarrow> en_safety (fst (engine_audit_opportunity env a p en)) = en_safety en"
  by (simp add: engine_audit_opportunity_def Let_def case_prod_unfold audit_passed_iff to_audit_dict_def)

lemma demo_goes_live:
  assumes "en = demo_engine\<lparr>en_config := default_scanner_config\<lparr>dry_run := False\<rparr>\<rparr>"
  shows "\<exists>en' a. execute_opportunity demo_exec_env demo_opp en = (en', GoLive a demo_opp)
     \<and> \<not> sv_db_write_failed (en_safety en') \<and> en_config en' = en_config en"
proof -
  have gate: "chained_gate (\<lambda>p. True) 60 (new_supervisor 30 [] None None) demo_opp"
    by (simp add: chained_gate_def allow_execution_def new_supervisor_def initial_safety_state_def)
  have audit: "audit_flags (ma_max_position_usd (new_auditor 100)) demo_opp = []"
    by (simp add: new_auditor_def demo_opp_audit)
  show ?thesis
    unfolding assms
    by (simp add: execute_opportunity_def Let_def case_prod_unfold demo_env_fields demo_engine_fields
        demo_trade_approved_60 demo_opp_fields gate signature_dedup_window_def run_gated_def
        pre_trade_requote_def opp_audit_ok audit finish_execution_def passed_audit_safety)
      (simp add: new_supervisor_def)
qed



section \<open>Recovery is missed\<close>

text \<open>
  A hedge that is reported as filled with no contracts is missed: the trade is filed as filled,
  nothing is counted or reported as naked, no recovery runs and nothing is sold back, while the
  first leg holds its contracts and the exposure book carries both legs.
\<close>

theorem zero_fill_hedge_unrecovered:
  assumes "ord_status primary = FILLED" "0 < ord_fill_qty primary"
    and "ord_status secondary = FILLED" "ord_fill_qty secondary = 0"
    and "settle_live env arb_id p primary secondary s = (s', ex)"
  shows "note_naked env arb_id p y primary secondary en = en
    \<and> ex_status ex = ''filled'' \<and> ex_realized_pnl ex = 0 \<and> orderless s s'
    \<and> en_recovery_count (lv_engine s') = en_recovery_count (lv_engine s)
    \<and> rm_open_positions (en_risk (lv_engine s'))
        = rm_open_positions (record_pair p 0 (en_risk (lv_engine s)))"
proof -
  have st: "pair_status primary secondary = ''filled''" "live_pnl p primary secondary = 0"
    using assms(1-4) by (simp_all add: pair_status_def terminal_failed_def live_pnl_def)
  have halt: "en_recovery_count (maybe_halt_on_daily_loss xe 0 e) = en_recovery_count e"
    "en_risk (maybe_halt_on_daily_loss xe 0 e) = en_risk e" for xe e
    by (simp_all add: maybe_halt_on_daily_loss_def)
  have fail: "en_recovery_count (handle_db_failure xe opn a c e) = en_recovery_count e" for xe opn a c e
    by (simp add: handle_db_failure_def push_incident_def Let_def)
  have eng: "lv_engine (on_engine f s) = f (lv_engine s)" for f s by (simp add: on_engine_def)
  from assms(5) have "ex_status ex = ''filled'' \<and> ex_realized_pnl ex = 0 \<and> orderless s s'
    \<and> en_recovery_count (lv_engine s') = en_recovery_count (lv_engine s)
    \<and> rm_open_positions (en_risk (lv_engine s'))
        = rm_open_positions (record_pair p 0 (en_risk (lv_engine s)))"
    by (auto simp: settle_live_def st Let_def append_execution_def book_live_def halt fail eng
        only_log_after split: if_splits)
  with assms(3) show ?thesis by (simp add: note_naked_def Let_def)
qed

theorem zero_fill_hedge_unrecovered_witness:
  "ex_status (snd (settle_live (demo_live_env (demo_adapter True)) ''ARB-000001'' demo_opp demo_filled_leg
     (demo_filled_leg\<lparr>ord_fill_qty := 0\<rparr>) demo_live)) = ''filled''"
proof -
  obtain s' ex where x: "settle_live (demo_live_env (demo_adapter True)) ''ARB-000001'' demo_opp demo_filled_leg
     (demo_filled_leg\<lparr>ord_fill_qty := 0\<rparr>) demo_live = (s', ex)" by (metis surj_pair)
  from zero_fill_hedge_unrecovered[OF _ _ _ _ x] show ?thesis by (simp add: x demo_filled_fields)
qed

text \<open>The balance gate counts an abort, and \<open>execute_opportunity\<close> counts it again.\<close>

lemma gate_abort_counted_twice:
  assumes "execute_opportunity (le_exec env) p (lv_engine s) = (en1, GoLive a q)"
    and "balance_short env (leg_notionals q) = Some b" "execute_whole env p s = (s', r)"
  shows "en_aborted_count (lv_engine s') = en_aborted_count en1 + 2"
proof -
  have "en_aborted_count (record_incident xe a c sev m d e) = en_aborted_count e" for xe a c sev m d e
    by (simp add: record_incident_def handle_db_failure_def push_incident_def Let_def)
  with assms show ?thesis
    by (cases b) (auto simp: execute_whole_def live_execution_def place_legs_def balance_reject_def
        on_engine_def abort_def)
qed

text \<open>The clamp at zero lifts the price of the last re-quote above break-even.\<close>

lemma side_fee_nonneg: "0 \<le> side_fee p y x n"
  by (simp add: side_fee_def compute_fee_nonneg)

lemma break_even_clamped:
  assumes "1 - ord_fill_price primary < fl / 100"
  shows "fb_break_even (secondary_args a p y fl primary n w) = Some (fl / 100)
    \<and> 1 < ord_fill_price primary + fl / 100"
proof -
  have "1 - ord_fill_price primary - side_fee p y (ord_fill_price primary) k
      - side_fee p (\<not> y) (second_quote p y w) n - fl / 100 < 0" for k
    using assms side_fee_nonneg[of p y "ord_fill_price primary" k]
      side_fee_nonneg[of p "\<not> y" "second_quote p y w" n] by linarith
  from less_imp_le[OF this] assms show ?thesis
    by (simp add: secondary_args_def max_affordable_secondary_def Let_def)
qed

end
