(* ===== verification/Failure_Tracker.thy ===== *)
theory Failure_Tracker
  imports Orders
begin

text \<open>
  \<open>FailureTracker\<close> of \<open>arbiter/execution/failure_tracker.py\<close>: a sliding window of failures per market,
  side and price bucket, and the back-off it imposes on new submissions.
\<close>

section \<open>State\<close>

type_synonym failure_key = "string \<times> string \<times> int"

record tracker_config =
  tc_window_seconds :: flt
  tc_backoff_threshold :: int
  tc_backoff_seconds :: flt
  tc_bucket_size_cents :: int
  tc_max_samples_per_key :: nat

definition default_tracker_config :: tracker_config where
  "default_tracker_config = \<lparr> tc_window_seconds = 3600, tc_backoff_threshold = 3,
     tc_backoff_seconds = 1800, tc_bucket_size_cents = 5, tc_max_samples_per_key = 64 \<rparr>"

lemma tracker_defaults:
  "tc_window_seconds default_tracker_config = 3600" "tc_backoff_threshold default_tracker_config = 3"
  "tc_backoff_seconds default_tracker_config = 1800" "tc_bucket_size_cents default_tracker_config = 5"
  "tc_max_samples_per_key default_tracker_config = 64"
  by (simp_all add: default_tracker_config_def)

record failure_tracker =
  ft_config :: tracker_config
  ft_history :: "(failure_key, flt list) dict"
  ft_backoff_until :: "(failure_key, flt) dict"
  ft_recorded :: int
  ft_queries :: int
  ft_backoff_blocks :: int
  ft_last_recorded_ts :: flt

definition new_tracker :: "tracker_config \<Rightarrow> failure_tracker" where
  "new_tracker cfg = \<lparr> ft_config = cfg, ft_history = [], ft_backoff_until = [], ft_recorded = 0,
     ft_queries = 0, ft_backoff_blocks = 0, ft_last_recorded_ts = 0 \<rparr>"

definition price_bucket_cents :: "flt \<Rightarrow> int \<Rightarrow> int" where
  "price_bucket_cents price bucket_size =
     (let bucket = max bucket_size 1; cents = py_round (price * 100) in (cents div bucket) * bucket)"

definition failure_key_of :: "failure_tracker \<Rightarrow> string \<Rightarrow> string \<Rightarrow> flt \<Rightarrow> failure_key" where
  "failure_key_of t cid side price =
     (cid, side, price_bucket_cents price (tc_bucket_size_cents (ft_config t)))"

section \<open>Recording\<close>

text \<open>The history after \<open>_failures_in_window\<close>; the result is its length.\<close>

definition in_window :: "tracker_config \<Rightarrow> flt \<Rightarrow> flt list \<Rightarrow> flt list" where
  "in_window cfg now history = dropWhile (\<lambda>ts. ts < now - tc_window_seconds cfg) history"

definition ft_record_failure :: "string \<Rightarrow> string \<Rightarrow> flt \<Rightarrow> flt \<Rightarrow> failure_tracker \<Rightarrow> failure_tracker" where
  "ft_record_failure cid side price ts t =
     (if py_lower side \<notin> {''yes'', ''no''} then t
      else let cfg = ft_config t; key = failure_key_of t cid (py_lower side) price;
               history = in_window cfg ts
                 (deque_append (tc_max_samples_per_key cfg) (dget (ft_history t) key []) ts);
               t1 = t\<lparr>ft_history := AList.update key history (ft_history t),
                      ft_recorded := ft_recorded t + 1, ft_last_recorded_ts := ts\<rparr>
           in if tc_backoff_threshold cfg \<le> int (length history)
              then t1\<lparr>ft_backoff_until :=
                        AList.update key (ts + tc_backoff_seconds cfg) (ft_backoff_until t1)\<rparr>
              else t1)"

definition leg_died :: "order \<Rightarrow> bool" where
  "leg_died r = (ord_status r \<in> {FAILED, CANCELLED, ABORTED})"

definition record_execution :: "arb_execution \<Rightarrow> flt \<Rightarrow> failure_tracker \<Rightarrow> failure_tracker" where
  "record_execution ex now t =
     (let cid = opp_canonical_id (ex_opportunity ex);
          one = (\<lambda>leg side t'. if leg_died leg
                               then ft_record_failure cid side (ord_price leg) now t' else t')
      in if py_lower (ex_status ex) \<notin> {''failed'', ''recovering''} \<or> cid = [] then t
         else one (ex_leg_no ex) ''no'' (one (ex_leg_yes ex) ''yes'' t))"

section \<open>Querying\<close>

text \<open>The live check, once no cool-off is active; the reason is the text of the f-string.\<close>

definition live_check ::
  "failure_key \<Rightarrow> flt \<Rightarrow> failure_tracker \<Rightarrow> failure_tracker \<times> bool \<times> string" where
  "live_check key now t =
     (let cfg = ft_config t
      in case map_of (ft_history t) key of
           None \<Rightarrow> (t, False, [])
         | Some h \<Rightarrow>
             let history = in_window cfg now h;
                 t1 = t\<lparr>ft_history := AList.update key history (ft_history t)\<rparr>
             in if tc_backoff_threshold cfg \<le> int (length history)
                then (t1\<lparr>ft_backoff_until :=
                           AList.update key (now + tc_backoff_seconds cfg) (ft_backoff_until t1),
                         ft_backoff_blocks := ft_backoff_blocks t1 + 1\<rparr>,
                      True, ''failure-pattern backoff: {} failures in trailing {}m'')
                else (t1, False, []))"

definition should_skip ::
  "string \<Rightarrow> string \<Rightarrow> flt \<Rightarrow> flt \<Rightarrow> failure_tracker \<Rightarrow> failure_tracker \<times> bool \<times> string" where
  "should_skip cid side price now t0 =
     (let t = t0\<lparr>ft_queries := ft_queries t0 + 1\<rparr>;
          key = failure_key_of t cid (py_lower side) price
      in if cid = [] \<or> py_lower side \<notin> {''yes'', ''no''} then (t, False, [])
         else case map_of (ft_backoff_until t) key of
           Some until \<Rightarrow>
             if until \<le> now
             then live_check key now (t\<lparr>ft_backoff_until := AList.delete key (ft_backoff_until t)\<rparr>)
             else (t\<lparr>ft_backoff_blocks := ft_backoff_blocks t + 1\<rparr>, True,
                   ''failure-pattern backoff active ({}s remaining; {}+ failures in last {}m)'')
         | None \<Rightarrow> live_check key now t)"

section \<open>Reporting\<close>

record failure_pattern =
  fp_key :: failure_key
  fp_failures_in_window :: nat
  fp_last_failure_ts :: flt
  fp_backoff_until_ts :: flt

text \<open>\<open>snapshot\<close> prunes every history on the way.\<close>

definition ft_snapshot :: "flt \<Rightarrow> failure_tracker \<Rightarrow> failure_tracker \<times> failure_pattern list" where
  "ft_snapshot now t =
     (let hs = map (\<lambda>(k, h). (k, in_window (ft_config t) now h)) (ft_history t);
          pats = map (\<lambda>(k, h). let until = dget (ft_backoff_until t) k 0
                                 in \<lparr> fp_key = k, fp_failures_in_window = length h,
                                      fp_last_failure_ts = last h,
                                      fp_backoff_until_ts = (if now < until then until else 0) \<rparr>)
                   (filter (\<lambda>(k, h). h \<noteq> []) hs)
      in (t\<lparr>ft_history := hs\<rparr>, sort_key (\<lambda>p. - int (fp_failures_in_window p)) pats))"

section \<open>The history of a key\<close>

text \<open>
  What the tracker knows of a key after the failures \<open>fs\<close>, oldest first, at time \<open>now\<close>: a suffix, and
  what is missing is either older than the window or cut off by the sample limit.
\<close>

definition remembers :: "tracker_config \<Rightarrow> flt \<Rightarrow> flt list \<Rightarrow> flt list \<Rightarrow> bool" where
  "remembers cfg now fs h =
     (\<exists>d. fs = d @ h \<and> length h \<le> tc_max_samples_per_key cfg
        \<and> (length h = tc_max_samples_per_key cfg \<or> (\<forall>x \<in> set d. x < now - tc_window_seconds cfg)))"

lemma remembers_later: "remembers cfg now fs h \<Longrightarrow> now \<le> now' \<Longrightarrow> remembers cfg now' fs h"
  unfolding remembers_def by force

lemma remembers_window:
  assumes "remembers cfg now fs h" "sorted fs"
  shows "remembers cfg now fs (in_window cfg now h)"
proof -
  from assms(1) obtain d where d: "fs = d @ h" "length h \<le> tc_max_samples_per_key cfg"
    "length h = tc_max_samples_per_key cfg \<or> (\<forall>x \<in> set d. x < now - tc_window_seconds cfg)"
    by (auto simp: remembers_def)
  let ?old = "takeWhile (\<lambda>ts. ts < now - tc_window_seconds cfg) h"
  have h: "h = ?old @ in_window cfg now h" by (simp add: in_window_def)
  have old: "\<forall>x \<in> set ?old. x < now - tc_window_seconds cfg"
    by (auto dest: set_takeWhileD)
  show ?thesis
  proof (cases "?old = []")
    case True
    with h have "in_window cfg now h = h" by simp
    with assms(1) show ?thesis by simp
  next
    case False
    then obtain y ys where y: "?old = y # ys" by (cases ?old) auto
    with h assms(2) d(1) have "\<forall>x \<in> set d. x \<le> y"
      by (metis Cons_eq_appendI list.set_intros(1) sorted_append)
    with old y have "\<forall>x \<in> set d. x < now - tc_window_seconds cfg" by fastforce
    moreover have "fs = (d @ ?old) @ in_window cfg now h" using d(1) h by simp
    moreover have "length (in_window cfg now h) \<le> tc_max_samples_per_key cfg"
      using d(2) length_dropWhile_le[of _ h] unfolding in_window_def by (rule le_trans[rotated])
    ultimately show ?thesis unfolding remembers_def using old
      by (intro exI[of _ "d @ ?old"]) auto
  qed
qed

lemma remembers_append:
  assumes "remembers cfg now fs h"
  shows "remembers cfg now (fs @ [ts]) (deque_append (tc_max_samples_per_key cfg) h ts)"
proof -
  from assms obtain d where d: "fs = d @ h" "length h \<le> tc_max_samples_per_key cfg"
    "length h = tc_max_samples_per_key cfg \<or> (\<forall>x \<in> set d. x < now - tc_window_seconds cfg)"
    by (auto simp: remembers_def)
  let ?n = "tc_max_samples_per_key cfg"
  show ?thesis
  proof (cases "length h = ?n")
    case True
    then have "deque_append ?n h ts = drop 1 (h @ [ts])" by (simp add: deque_append_def)
    moreover have "fs @ [ts] = (d @ take 1 (h @ [ts])) @ drop 1 (h @ [ts])"
      by (simp only: d(1) append_assoc append_take_drop_id)
    moreover have "length (drop 1 (h @ [ts])) = ?n" using True by simp
    ultimately show ?thesis unfolding remembers_def by (metis le_refl)
  next
    case False
    with d have "deque_append ?n h ts = h @ [ts]" by (simp add: deque_append_def)
    with d False show ?thesis unfolding remembers_def by (intro exI[of _ d]) auto
  qed
qed

lemma remembers_counts:
  assumes "remembers cfg now fs h" "\<forall>x \<in> set h. now - tc_window_seconds cfg \<le> x"
    and "th \<le> tc_max_samples_per_key cfg"
    and "th \<le> length (filter (\<lambda>x. now - tc_window_seconds cfg \<le> x) fs)"
  shows "th \<le> length h"
proof -
  from assms(1) obtain d where d: "fs = d @ h"
    "length h = tc_max_samples_per_key cfg \<or> (\<forall>x \<in> set d. x < now - tc_window_seconds cfg)"
    by (auto simp: remembers_def)
  from d(2) show ?thesis
  proof
    assume "length h = tc_max_samples_per_key cfg"
    with assms(3) show ?thesis by simp
  next
    assume "\<forall>x \<in> set d. x < now - tc_window_seconds cfg"
    then have "filter (\<lambda>x. now - tc_window_seconds cfg \<le> x) d = []"
      by (auto simp: filter_empty_conv not_le)
    with assms(4) d(1) show ?thesis
      by simp (meson le_trans length_filter_le)
  qed
qed

lemma in_window_recent:
  assumes "sorted h"
  shows "\<forall>x \<in> set (in_window cfg now h). now - tc_window_seconds cfg \<le> x"
  using assms unfolding in_window_def
  by (induction h) (auto simp: not_less intro: order_trans)

section \<open>Runs\<close>

datatype tracker_event =
    FtExecution arb_execution flt
  | FtQuery string string flt flt
  | FtSnapshot flt

primrec event_time :: "tracker_event \<Rightarrow> flt" where
  "event_time (FtExecution ex now) = now"
| "event_time (FtQuery cid side price now) = now"
| "event_time (FtSnapshot now) = now"

primrec tracker_step :: "tracker_event \<Rightarrow> failure_tracker \<Rightarrow> failure_tracker" where
  "tracker_step (FtExecution ex now) t = record_execution ex now t"
| "tracker_step (FtQuery cid side price now) t = fst (should_skip cid side price now t)"
| "tracker_step (FtSnapshot now) t = fst (ft_snapshot now t)"

text \<open>The keys a finished execution fails, in the order of its legs.\<close>

definition failed_keys :: "tracker_config \<Rightarrow> arb_execution \<Rightarrow> failure_key list" where
  "failed_keys cfg ex =
     (let cid = opp_canonical_id (ex_opportunity ex);
          key = (\<lambda>side leg. (cid, side, price_bucket_cents (ord_price leg) (tc_bucket_size_cents cfg)))
      in if py_lower (ex_status ex) \<notin> {''failed'', ''recovering''} \<or> cid = [] then []
         else (if leg_died (ex_leg_yes ex) then [key ''yes'' (ex_leg_yes ex)] else [])
            @ (if leg_died (ex_leg_no ex) then [key ''no'' (ex_leg_no ex)] else []))"

primrec event_failures :: "tracker_config \<Rightarrow> failure_key \<Rightarrow> tracker_event \<Rightarrow> flt list" where
  "event_failures cfg k (FtExecution ex now) = (if k \<in> set (failed_keys cfg ex) then [now] else [])"
| "event_failures cfg k (FtQuery cid side price now) = []"
| "event_failures cfg k (FtSnapshot now) = []"

definition failures_of :: "tracker_config \<Rightarrow> failure_key \<Rightarrow> tracker_event list \<Rightarrow> flt list" where
  "failures_of cfg k es = concat (map (event_failures cfg k) es)"

lemma failures_snoc [simp]:
  "failures_of cfg k [] = []"
  "failures_of cfg k (es @ [e]) = failures_of cfg k es @ event_failures cfg k e"
  by (simp_all add: failures_of_def)

definition sane_tracker :: "tracker_config \<Rightarrow> bool" where
  "sane_tracker cfg = (0 \<le> tc_window_seconds cfg \<and> 0 < tc_backoff_seconds cfg
     \<and> 1 \<le> tc_backoff_threshold cfg \<and> tc_backoff_threshold cfg \<le> int (tc_max_samples_per_key cfg))"

text \<open>
  The invariant, over the failures \<open>F k\<close> of each key so far: the history remembers them, and a
  back-off ends within a window and a cool-off after one of them.
\<close>

definition backoff_ok :: "tracker_config \<Rightarrow> flt list \<Rightarrow> flt \<Rightarrow> bool" where
  "backoff_ok cfg fs u = (\<exists>L \<in> set fs. u \<le> L + tc_window_seconds cfg + tc_backoff_seconds cfg)"

definition tracker_inv ::
  "tracker_config \<Rightarrow> flt \<Rightarrow> (failure_key \<Rightarrow> flt list) \<Rightarrow> failure_tracker \<Rightarrow> bool" where
  "tracker_inv cfg now F t =
     (ft_config t = cfg
      \<and> (\<forall>k. sorted (F k) \<and> (\<forall>x \<in> set (F k). x \<le> now) \<and> remembers cfg now (F k) (dget (ft_history t) k []))
      \<and> (\<forall>k u. map_of (ft_backoff_until t) k = Some u \<longrightarrow> backoff_ok cfg (F k) u))"

lemma inv_facts:
  assumes "tracker_inv cfg now F t"
  shows "ft_config t = cfg" "sorted (F k)" "remembers cfg now (F k) (dget (ft_history t) k [])"
    "map_of (ft_backoff_until t) k = Some u \<Longrightarrow> backoff_ok cfg (F k) u"
  using assms unfolding tracker_inv_def by blast+

lemma tracker_inv_later: "tracker_inv cfg now F t \<Longrightarrow> now \<le> now' \<Longrightarrow> tracker_inv cfg now' F t"
  unfolding tracker_inv_def using remembers_later by (meson order_trans)

lemma inv_history_sorted: "tracker_inv cfg now F t \<Longrightarrow> sorted (dget (ft_history t) k [])"
  unfolding tracker_inv_def remembers_def by (metis sorted_append)

lemma remembers_subset: "remembers cfg now fs h \<Longrightarrow> set h \<subseteq> set fs"
  by (auto simp: remembers_def)

text \<open>One failure recorded for \<open>key\<close>.\<close>

lemma record_failure_inv:
  assumes inv: "tracker_inv cfg now F t" and sane: "sane_tracker cfg"
    and side: "py_lower side \<in> {''yes'', ''no''}"
    and key: "key = failure_key_of t cid (py_lower side) price"
  shows "tracker_inv cfg now (F(key := F key @ [now])) (ft_record_failure cid side price now t)"
proof -
  let ?F = "F(key := F key @ [now])"
  let ?h = "in_window cfg now (deque_append (tc_max_samples_per_key cfg) (dget (ft_history t) key []) now)"
  from inv have cfg: "ft_config t = cfg" and F: "\<And>k. sorted (F k)" "\<And>k x. x \<in> set (F k) \<Longrightarrow> x \<le> now"
    and mem: "\<And>k. remembers cfg now (F k) (dget (ft_history t) k [])"
    and bo: "\<And>k u. map_of (ft_backoff_until t) k = Some u \<Longrightarrow> backoff_ok cfg (F k) u"
    by (auto simp: tracker_inv_def)
  have sorted: "sorted (?F k)" "\<forall>x \<in> set (?F k). x \<le> now" for k
    using F(1)[of k] F(2)[of _ k] F(1)[of key] F(2)[of _ key] by (simp_all add: sorted_append)
  have "remembers cfg now (?F key) ?h"
    using remembers_window[OF remembers_append[OF mem[of key]]] sorted(1)[of key] by simp
  moreover have "backoff_ok cfg (?F k) u" if "backoff_ok cfg (F k) u" for k u
    using that by (auto simp: backoff_ok_def)
  moreover have "backoff_ok cfg (?F key) (now + tc_backoff_seconds cfg)"
    using sane by (auto simp: backoff_ok_def sane_tracker_def)
  ultimately show ?thesis
    using side mem bo sorted unfolding ft_record_failure_def tracker_inv_def
    by (simp add: Let_def cfg key[symmetric] update_conv')
qed

lemma failure_key_config: "ft_config t = cfg \<Longrightarrow> failure_key_of t cid side price
    = (cid, side, price_bucket_cents price (tc_bucket_size_cents cfg))"
  by (simp add: failure_key_of_def)

lemma record_failure_config [simp]: "ft_config (ft_record_failure cid side price now t) = ft_config t"
  by (simp add: ft_record_failure_def Let_def)

lemma lower_sides [simp]: "py_lower ''yes'' = ''yes''" "py_lower ''no'' = ''no''"
  by (simp_all add: py_lower_def lower_char_def)

lemma record_execution_inv:
  assumes inv: "tracker_inv cfg now F t" and sane: "sane_tracker cfg"
  shows "tracker_inv cfg now (\<lambda>k. F k @ event_failures cfg k (FtExecution ex now)) (record_execution ex now t)"
proof -
  let ?cid = "opp_canonical_id (ex_opportunity ex)"
  let ?key = "\<lambda>side leg. (?cid, side, price_bucket_cents (ord_price leg) (tc_bucket_size_cents cfg))"
  have one: "tracker_inv cfg now (F'(?key side leg := F' (?key side leg) @ [now]))
      (ft_record_failure ?cid side (ord_price leg) now t')"
    if "tracker_inv cfg now F' t'" "side = ''yes'' \<or> side = ''no''" for F' t' side leg
    using that by (intro record_failure_inv[OF that(1) sane])
      (auto simp: tracker_inv_def failure_key_of_def)
  show ?thesis
  proof (cases "py_lower (ex_status ex) \<notin> {''failed'', ''recovering''} \<or> ?cid = []")
    case True
    with inv show ?thesis by (auto simp: record_execution_def failed_keys_def Let_def)
  next
    case False
    define F1 where "F1 = (if leg_died (ex_leg_yes ex)
      then F(?key ''yes'' (ex_leg_yes ex) := F (?key ''yes'' (ex_leg_yes ex)) @ [now]) else F)"
    define t1 where "t1 = (if leg_died (ex_leg_yes ex)
      then ft_record_failure ?cid ''yes'' (ord_price (ex_leg_yes ex)) now t else t)"
    define F2 where "F2 = (if leg_died (ex_leg_no ex)
      then F1(?key ''no'' (ex_leg_no ex) := F1 (?key ''no'' (ex_leg_no ex)) @ [now]) else F1)"
    define t2 where "t2 = (if leg_died (ex_leg_no ex)
      then ft_record_failure ?cid ''no'' (ord_price (ex_leg_no ex)) now t1 else t1)"
    have "tracker_inv cfg now F1 t1" using inv one[of F t "''yes''" "ex_leg_yes ex"] by (simp add: F1_def t1_def)
    then have "tracker_inv cfg now F2 t2" using one[of F1 t1 "''no''" "ex_leg_no ex"] by (simp add: F2_def t2_def)
    moreover have "record_execution ex now t = t2"
      using False by (simp add: record_execution_def Let_def t1_def t2_def)
    moreover have "F2 = (\<lambda>k. F k @ event_failures cfg k (FtExecution ex now))"
      using False by (rule_tac ext) (auto simp: F1_def F2_def failed_keys_def Let_def)
    ultimately show ?thesis by simp
  qed
qed

lemma live_check_inv:
  assumes inv: "tracker_inv cfg now F t" and sane: "sane_tracker cfg"
  shows "tracker_inv cfg now F (fst (live_check key now t))"
    and "tc_backoff_threshold cfg \<le> int (length (filter (\<lambda>x. now - tc_window_seconds cfg \<le> x) (F key)))
      \<Longrightarrow> fst (snd (live_check key now t))"
    and "fst (snd (live_check key now t)) \<Longrightarrow> \<exists>L \<in> set (F key). now - tc_window_seconds cfg \<le> L"
proof -
  from inv have cfg: "ft_config t = cfg" and F: "\<And>k. sorted (F k)"
    and mem: "\<And>k. remembers cfg now (F k) (dget (ft_history t) k [])"
    by (auto simp: tracker_inv_def)
  let ?h = "in_window cfg now (dget (ft_history t) key [])"
  have mem': "remembers cfg now (F key) ?h" by (rule remembers_window[OF mem F])
  have recent: "\<forall>x \<in> set ?h. now - tc_window_seconds cfg \<le> x"
    by (rule in_window_recent[OF inv_history_sorted[OF inv]])
  have hist: "tracker_inv cfg now F (t\<lparr>ft_history := AList.update key ?h (ft_history t)\<rparr>)"
    using inv mem' by (simp add: tracker_inv_def)
  have th: "1 \<le> tc_backoff_threshold cfg" "tc_backoff_threshold cfg \<le> int (tc_max_samples_per_key cfg)"
    using sane by (simp_all add: sane_tracker_def)
  have old: "\<exists>L \<in> set (F key). now - tc_window_seconds cfg \<le> L" if "tc_backoff_threshold cfg \<le> int (length ?h)"
  proof -
    from that th(1) obtain L where "L \<in> set ?h" by (cases ?h) auto
    with recent remembers_subset[OF mem'] show ?thesis by blast
  qed
  have arm: "backoff_ok cfg (F key) (now + tc_backoff_seconds cfg)" if "tc_backoff_threshold cfg \<le> int (length ?h)"
    using old[OF that] unfolding backoff_ok_def by force
  have none: "?h = []" if "map_of (ft_history t) key = None"
    using that by (simp add: dget_def in_window_def)
  have some: "in_window cfg now h = ?h" if "map_of (ft_history t) key = Some h" for h
    using that by (simp add: dget_def)
  show "tracker_inv cfg now F (fst (live_check key now t))"
    using inv hist arm some
    by (auto simp: live_check_def Let_def cfg tracker_inv_def update_conv' split: option.split)
  show "fst (snd (live_check key now t))"
    if "tc_backoff_threshold cfg \<le> int (length (filter (\<lambda>x. now - tc_window_seconds cfg \<le> x) (F key)))"
  proof -
    have "nat (tc_backoff_threshold cfg) \<le> length ?h"
      using that th by (intro remembers_counts[OF mem' recent]) linarith+
    with none some th(1) show ?thesis
      by (cases "map_of (ft_history t) key") (auto simp: live_check_def Let_def cfg)
  qed
  show "\<exists>L \<in> set (F key). now - tc_window_seconds cfg \<le> L" if "fst (snd (live_check key now t))"
    using that some old
    by (cases "map_of (ft_history t) key") (auto simp: live_check_def Let_def cfg split: if_splits)
qed

lemma tracker_inv_fields [simp]:
  "tracker_inv cfg now F (t\<lparr>ft_queries := n\<rparr>) = tracker_inv cfg now F t"
  "tracker_inv cfg now F (t\<lparr>ft_backoff_blocks := n\<rparr>) = tracker_inv cfg now F t"
  by (simp_all add: tracker_inv_def)

lemma tracker_inv_delete:
  "tracker_inv cfg now F t \<Longrightarrow> tracker_inv cfg now F (t\<lparr>ft_backoff_until := AList.delete k (ft_backoff_until t)\<rparr>)"
  by (auto simp: tracker_inv_def delete_conv' split: if_splits)

lemma should_skip_inv:
  assumes inv: "tracker_inv cfg now F t" and sane: "sane_tracker cfg"
  shows "tracker_inv cfg now F (fst (should_skip cid side price now t))"
proof -
  let ?t = "t\<lparr>ft_queries := ft_queries t + 1\<rparr>"
  have t: "tracker_inv cfg now F ?t" using inv by simp
  note live = live_check_inv(1)[OF t sane] live_check_inv(1)[OF tracker_inv_delete[OF t] sane]
  show ?thesis
    using inv t live unfolding should_skip_def Let_def
    by (simp split: option.split)
qed

lemma should_skip_says:
  assumes inv: "tracker_inv cfg now F t" and sane: "sane_tracker cfg"
    and ok: "cid \<noteq> []" "py_lower side \<in> {''yes'', ''no''}"
    and key: "key = (cid, py_lower side, price_bucket_cents price (tc_bucket_size_cents cfg))"
  shows "tc_backoff_threshold cfg \<le> int (length (filter (\<lambda>x. now - tc_window_seconds cfg \<le> x) (F key)))
      \<Longrightarrow> fst (snd (should_skip cid side price now t))"
    and "fst (snd (should_skip cid side price now t))
      \<Longrightarrow> \<exists>L \<in> set (F key). now < L + tc_window_seconds cfg + tc_backoff_seconds cfg"
proof -
  let ?t = "t\<lparr>ft_queries := ft_queries t + 1\<rparr>"
  have t: "tracker_inv cfg now F ?t" using inv by simp
  let ?t' = "?t\<lparr>ft_backoff_until := AList.delete key (ft_backoff_until ?t)\<rparr>"
  have k: "failure_key_of ?t cid (py_lower side) price = key"
    using inv key by (simp add: failure_key_of_def tracker_inv_def)
  have eq: "should_skip cid side price now t = (case map_of (ft_backoff_until t) key of
      Some until \<Rightarrow> if until \<le> now then live_check key now ?t'
        else (?t\<lparr>ft_backoff_blocks := ft_backoff_blocks t + 1\<rparr>, True,
              ''failure-pattern backoff active ({}s remaining; {}+ failures in last {}m)'')
      | None \<Rightarrow> live_check key now ?t)"
    unfolding should_skip_def Let_def k using ok by (simp split: option.split)
  note live = live_check_inv(2,3)[OF t sane, of key] live_check_inv(2,3)[OF tracker_inv_delete[OF t] sane, of key key]
  show "fst (snd (should_skip cid side price now t))"
    if "tc_backoff_threshold cfg \<le> int (length (filter (\<lambda>x. now - tc_window_seconds cfg \<le> x) (F key)))"
    using live(1,3)[OF that] by (simp add: eq split: option.split)
  have pos: "0 < tc_backoff_seconds cfg" using sane by (simp add: sane_tracker_def)
  have near: "\<exists>L \<in> set (F key). now < L + tc_window_seconds cfg + tc_backoff_seconds cfg"
    if "\<exists>L \<in> set (F key). now - tc_window_seconds cfg \<le> L"
    using that pos by (metis add_increasing2 add_less_cancel_left diff_le_eq le_less_trans less_add_same_cancel1 not_le)
  show "\<exists>L \<in> set (F key). now < L + tc_window_seconds cfg + tc_backoff_seconds cfg"
    if "fst (snd (should_skip cid side price now t))"
  proof (cases "map_of (ft_backoff_until t) key")
    case None
    with that live(2) near show ?thesis by (simp add: eq)
  next
    case (Some until)
    show ?thesis
    proof (cases "until \<le> now")
      case True
      with Some that live(4) near show ?thesis by (simp add: eq)
    next
      case False
      from inv_facts(4)[OF inv Some] have "backoff_ok cfg (F key) until" .
      with False show ?thesis unfolding backoff_ok_def by force
    qed
  qed
qed

lemma snapshot_inv:
  assumes "tracker_inv cfg now F t"
  shows "tracker_inv cfg now F (fst (ft_snapshot now t))"
proof -
  have h: "dget (map (\<lambda>(k, h). (k, in_window cfg now h)) d) k [] = in_window cfg now (dget d k [])" for d k
    by (induction d) (auto simp: dget_def in_window_def)
  from assms have cfg: "ft_config t = cfg" by (simp add: tracker_inv_def)
  have "remembers cfg now (F k) (in_window cfg now (dget (ft_history t) k []))" for k
    by (rule remembers_window[OF inv_facts(3,2)[OF assms]])
  with assms show ?thesis by (simp add: ft_snapshot_def Let_def tracker_inv_def cfg h)
qed

lemma tracker_run_inv:
  assumes "sane_tracker cfg" "sorted (map event_time es)" "\<forall>e \<in> set es. event_time e \<le> now"
  shows "tracker_inv cfg now (\<lambda>k. failures_of cfg k es) (fold tracker_step es (new_tracker cfg))"
  using assms(2,3)
proof (induction es arbitrary: now rule: rev_induct)
  case Nil
  then show ?case by (simp add: tracker_inv_def new_tracker_def remembers_def)
next
  case (snoc e es)
  let ?now = "event_time e"
  have "\<forall>e' \<in> set es. event_time e' \<le> ?now" using snoc.prems(1) by (auto simp: sorted_append)
  with snoc have t: "tracker_inv cfg ?now (\<lambda>k. failures_of cfg k es) (fold tracker_step es (new_tracker cfg))"
    by (simp add: sorted_append)
  have "tracker_inv cfg ?now (\<lambda>k. failures_of cfg k (es @ [e]))
      (tracker_step e (fold tracker_step es (new_tracker cfg)))"
  proof (cases e)
    case (FtExecution ex n)
    with record_execution_inv[OF t assms(1)] show ?thesis by simp
  next
    case (FtQuery cid side price n)
    with should_skip_inv[OF t assms(1)] show ?thesis by simp
  next
    case (FtSnapshot n)
    with snapshot_inv[OF t] show ?thesis by simp
  qed
  from tracker_inv_later[OF this] snoc.prems(2) show ?case by simp
qed

text \<open>
  The failure tracker blocks the hot keys and nothing for long.  After any history of
  executions, queries and snapshots, a submission is suppressed whenever the failures of its market,
  side and price bucket within the window reach the threshold; and whenever one is suppressed, a
  failure of that key lies less than a window plus a cool-off back.
\<close>

theorem tracker_blocks_hot_keys:
  assumes "sane_tracker cfg" "sorted (map event_time es)" "\<forall>e \<in> set es. event_time e \<le> now"
    and "cid \<noteq> []" "py_lower side \<in> {''yes'', ''no''}"
    and "t = fold tracker_step es (new_tracker cfg)"
    and "fs = failures_of cfg (cid, py_lower side, price_bucket_cents price (tc_bucket_size_cents cfg)) es"
  shows "(tc_backoff_threshold cfg \<le> int (length (filter (\<lambda>x. now - tc_window_seconds cfg \<le> x) fs))
            \<longrightarrow> fst (snd (should_skip cid side price now t)))
    \<and> (fst (snd (should_skip cid side price now t))
            \<longrightarrow> (\<exists>L \<in> set fs. now < L + tc_window_seconds cfg + tc_backoff_seconds cfg))"
  using should_skip_says[OF tracker_run_inv[OF assms(1-3)] assms(1,4,5) refl, of price]
  unfolding assms(6,7) by blast

definition demo_failed_leg :: "string \<Rightarrow> order" where
  "demo_failed_leg side = \<lparr> ord_id = [], ord_platform = ''kalshi'', ord_market_id = ''m'',
     ord_canonical_id = ''A'', ord_side = side, ord_price = 42/100, ord_quantity = 10,
     ord_status = FAILED, ord_fill_price = 0, ord_fill_qty = 0, ord_timestamp = 0, ord_error = [],
     ord_external_client_order_id = None, ord_idempotency_ambiguous = False \<rparr>"

definition demo_failed_execution :: arb_execution where
  "demo_failed_execution = \<lparr> ex_arb_id = ''ARB-000001'', ex_opportunity = demo_opp,
     ex_leg_yes = demo_failed_leg ''yes'', ex_leg_no = demo_failed_leg ''no'', ex_status = ''failed'',
     ex_realized_pnl = 0, ex_unwind_pnl = 0, ex_timestamp = 0, ex_notes = [] \<rparr>"

lemma demo_bucket: "price_bucket_cents (42/100) 5 = 40" "price_bucket_cents (21/50) 5 = 40"
  by (simp_all add: price_bucket_cents_def py_round_def)

theorem tracker_blocks_hot_keys_witness:
  "fst (snd (should_skip ''A'' ''yes'' (42/100) 3600
     (fold tracker_step (replicate 3 (FtExecution demo_failed_execution 0)) (new_tracker default_tracker_config))))"
proof -
  let ?es = "replicate 3 (FtExecution demo_failed_execution 0)"
  have keys: "(''A'', ''yes'', 40) \<in> set (failed_keys default_tracker_config demo_failed_execution)"
    by (simp add: failed_keys_def demo_failed_execution_def demo_failed_leg_def leg_died_def Let_def
        demo_bucket demo_opp_fields default_tracker_config_def py_lower_def lower_char_def)
  have fs: "failures_of default_tracker_config (''A'', ''yes'', 40) ?es = [0, 0, 0]"
    using keys by (simp add: failures_of_def numeral_eq_Suc)
  have "sane_tracker default_tracker_config" "sorted (map event_time ?es)" "\<forall>e \<in> set ?es. event_time e \<le> 3600"
    by (simp_all add: sane_tracker_def default_tracker_config_def numeral_eq_Suc)
  from tracker_blocks_hot_keys[OF this, of "''A''" "''yes''" _ _ "42/100", OF _ _ refl refl]
  show ?thesis
    by (simp add: fs demo_bucket tracker_defaults)
qed

text \<open>
  A query re-arms an expired cool-off as long as the failures are in the window, so a block can last
  a window and a cool-off, 90 minutes with the defaults, and not only the cool-off.
\<close>

lemma block_outlasts_cooloff:
  assumes "t = fold (ft_record_failure ''A'' ''yes'' (42/100)) [0, 0, 0] (new_tracker default_tracker_config)"
  shows "fst (snd (should_skip ''A'' ''yes'' (42/100) 5399
    (fst (should_skip ''A'' ''yes'' (42/100) 3600 t))))"
  unfolding assms
  by (simp add: should_skip_def live_check_def ft_record_failure_def new_tracker_def
      default_tracker_config_def failure_key_of_def Let_def demo_bucket in_window_def deque_append_def dget_def)

text \<open>The buckets are rounded down, not to the nearest as the module text has it.\<close>

lemma bucket_floors: "price_bucket_cents (44/100) 5 = 40"
  by (simp add: price_bucket_cents_def py_round_def)

end
