(* ===== verification/Auto_Executor.thy ===== *)
theory Auto_Executor
  imports Live_Execution Failure_Tracker
begin

text \<open>
  \<open>AutoExecutor\<close> of \<open>arbiter/execution/auto_executor.py\<close>: the policy gates, the pre-flight checks with
  fresh quotes and depth, the call of the engine, and the cool-downs and the loss streak its result
  leads to.  What it awaits on the way is the environment of a step.
\<close>

section \<open>State and environment\<close>

record auto_config =
  ac_enabled :: bool
  ac_max_position_usd :: flt
  ac_bootstrap_trades :: "int option"
  ac_dedup_window_seconds :: int
  ac_max_quote_age_s :: flt
  ac_min_depth_usd :: flt
  ac_min_edge_cents_preflight :: flt
  ac_min_edge_by_pair :: "(string, flt) dict"
  ac_require_mapping_confirmed :: bool
  ac_max_auto_gross_edge_cents :: flt
  ac_loss_streak_disable_threshold :: int
  ac_liquidity_adaptive_sizing :: bool

definition default_auto_config :: auto_config where
  "default_auto_config =
     \<lparr> ac_enabled = False, ac_max_position_usd = 10, ac_bootstrap_trades = None,
       ac_dedup_window_seconds = 5, ac_max_quote_age_s = 30, ac_min_depth_usd = 25,
       ac_min_edge_cents_preflight = 7, ac_min_edge_by_pair = [],
       ac_require_mapping_confirmed = True, ac_max_auto_gross_edge_cents = 15,
       ac_loss_streak_disable_threshold = 3, ac_liquidity_adaptive_sizing = True \<rparr>"

definition edge_floor_for :: "auto_config \<Rightarrow> string \<Rightarrow> string \<Rightarrow> flt" where
  "edge_floor_for c yes_platform no_platform =
     (let a = venue_name yes_platform; b = venue_name no_platform;
          global_floor = ac_min_edge_cents_preflight c
      in if a = [] \<or> b = [] \<or> a = b then global_floor
         else case map_of (ac_min_edge_by_pair c) (pair_key a b) of
                None \<Rightarrow> global_floor
              | Some pf \<Rightarrow> min global_floor pf)"

text \<open>Why an opportunity was not executed: the counter of the statistics that goes up.\<close>

datatype skip_kind =
    SkDisabled | SkArmed | SkRequiresManual | SkNotAllowed | SkForecastexUnavailable
  | SkMappingUnconfirmed | SkSuspiciousEdge | SkFailedCooldown | SkFailurePattern | SkDuplicate
  | SkOverCap | SkStaleQuote | SkEdgeCollapsed | SkDepthLow | SkBootstrapFull | SkGateStructural

record auto_stats =
  as_considered :: int
  as_executed :: int
  as_skipped :: "skip_kind \<Rightarrow> int"
  as_auto_disabled_loss_streak :: int
  as_failures :: int
  as_last_considered_ts :: flt
  as_last_executed_ts :: flt

record auto_mapping =
  am_allow_auto_trade :: bool
  am_status :: string
  am_forecastex_not_available :: bool
  am_forecastex_contract_id :: string

record auto_executor =
  ae_config :: auto_config
  ae_tracker :: "failure_tracker option"
  ae_seen_dedup_keys :: "(string, flt) dict"
  ae_failed_cooldown :: "(string, flt) dict"
  ae_failed_count :: "(string, nat) dict"
  ae_loss_streak :: "(string, int) dict"
  ae_gate_structural_cooldown :: "(string \<times> string, flt) dict"
  ae_gate_structural_cooldown_s :: flt
  ae_naked_cooldown_s :: flt
  ae_stats :: auto_stats
  ae_disabled :: "string list"

definition new_auto_executor ::
  "auto_config \<Rightarrow> failure_tracker option \<Rightarrow> flt \<Rightarrow> auto_executor" where
  "new_auto_executor cfg tracker naked_cooldown =
     \<lparr> ae_config = cfg, ae_tracker = tracker, ae_seen_dedup_keys = [], ae_failed_cooldown = [],
       ae_failed_count = [], ae_loss_streak = [], ae_gate_structural_cooldown = [],
       ae_gate_structural_cooldown_s = 1800, ae_naked_cooldown_s = naked_cooldown,
       ae_stats = \<lparr> as_considered = 0, as_executed = 0, as_skipped = (\<lambda>k. 0),
                    as_auto_disabled_loss_streak = 0, as_failures = 0,
                    as_last_considered_ts = 0, as_last_executed_ts = 0 \<rparr>,
       ae_disabled = [] \<rparr>"

datatype quote_answer = QuoteError | NoQuote | Quote price_point

text \<open>
  \<open>ax_mapping\<close>: what the mapping store answers (\<open>None\<close> when it raises); \<open>ax_quote\<close>: the price store,
  when wired; \<open>ax_depth\<close>: \<open>check_depth\<close> of a venue's adapter, numbered by the checks made before;
  \<open>ax_gate_reason\<close>: the text of a denial of the trade gate.
\<close>

record auto_env =
  ax_now :: flt
  ax_mapping :: "string \<Rightarrow> auto_mapping option option"
  ax_quote :: "(string \<Rightarrow> string \<Rightarrow> quote_answer) option"
  ax_depth :: "string \<Rightarrow> (nat \<Rightarrow> string \<Rightarrow> string \<Rightarrow> int \<Rightarrow> (bool \<times> flt) option) option"
  ax_gate_error :: bool
  ax_gate_reason :: string

definition bump_skip :: "skip_kind \<Rightarrow> auto_executor \<Rightarrow> auto_executor" where
  "bump_skip k ae =
     (let st = ae_stats ae
      in ae\<lparr>ae_stats := st\<lparr>as_skipped := (as_skipped st)(k := as_skipped st k + 1)\<rparr>\<rparr>)"

definition count_failure :: "auto_executor \<Rightarrow> auto_executor" where
  "count_failure ae = ae\<lparr>ae_stats := (ae_stats ae)\<lparr>as_failures := as_failures (ae_stats ae) + 1\<rparr>\<rparr>"

section \<open>Policy gates\<close>

definition bad_conid :: "string \<Rightarrow> bool" where
  "bad_conid s = (s = [] \<or> s = ''0'')"

definition forecastex_refused :: "opportunity \<Rightarrow> auto_mapping \<Rightarrow> bool" where
  "forecastex_refused p m =
     (let yes_is_fx = opp_yes_platform p = ''forecastex''; no_is_fx = opp_no_platform p = ''forecastex'';
          no_id = py_strip (opp_no_market_id p); yes_id = py_strip (opp_yes_market_id p)
      in (yes_is_fx \<or> no_is_fx)
         \<and> (am_forecastex_not_available m \<or> bad_conid (py_strip (am_forecastex_contract_id m))
            \<or> no_is_fx \<and> (bad_conid no_id \<or> no_id = ''None'' \<or> yes_is_fx \<and> no_id = yes_id)))"

definition suspicious_edge :: "auto_config \<Rightarrow> opportunity \<Rightarrow> bool" where
  "suspicious_edge c p =
     (0 < ac_max_auto_gross_edge_cents c \<and> ac_max_auto_gross_edge_cents c < opp_gross_edge p * 100)"

text \<open>The gates before any state of the executor is read or written; \<open>Inl None\<close> is an exception.\<close>

definition policy_gates ::
  "auto_env \<Rightarrow> auto_config \<Rightarrow> bool \<Rightarrow> opportunity \<Rightarrow> skip_kind option + auto_mapping" where
  "policy_gates env c armed p =
     (if \<not> ac_enabled c then Inl (Some SkDisabled)
      else if armed then Inl (Some SkArmed)
      else if opp_requires_manual p then Inl (Some SkRequiresManual)
      else case ax_mapping env (opp_canonical_id p) of
             None \<Rightarrow> Inl None
           | Some None \<Rightarrow> Inl (Some SkNotAllowed)
           | Some (Some m) \<Rightarrow>
               if \<not> am_allow_auto_trade m then Inl (Some SkNotAllowed)
               else if forecastex_refused p m then Inl (Some SkForecastexUnavailable)
               else if ac_require_mapping_confirmed c \<and> py_lower (am_status m) \<noteq> ''confirmed''
               then Inl (Some SkMappingUnconfirmed)
               else if suspicious_edge c p then Inl (Some SkSuspiciousEdge)
               else Inr m)"

text \<open>The failure tracker is asked for YES, and for NO when YES is not blocked.\<close>

definition tracker_blocks ::
  "flt \<Rightarrow> opportunity \<Rightarrow> auto_executor \<Rightarrow> auto_executor \<times> bool" where
  "tracker_blocks now p ae =
     (case ae_tracker ae of
        None \<Rightarrow> (ae, False)
      | Some t \<Rightarrow>
          (case should_skip (opp_canonical_id p) ''yes'' (opp_yes_price p) now t of
             (t1, True, _) \<Rightarrow> (ae\<lparr>ae_tracker := Some t1\<rparr>, True)
           | (t1, False, _) \<Rightarrow>
               (case should_skip (opp_canonical_id p) ''no'' (opp_no_price p) now t1 of
                  (t2, b, _) \<Rightarrow> (ae\<lparr>ae_tracker := Some t2\<rparr>, b))))"

definition auto_dedup_key :: "auto_config \<Rightarrow> opportunity \<Rightarrow> flt \<Rightarrow> string" where
  "auto_dedup_key c p now =
     opp_canonical_id p @ '':'' @ opp_yes_platform p @ '':'' @ opp_no_platform p @ '':''
       @ digits (nat \<lfloor>now / of_int (max 1 (ac_dedup_window_seconds c))\<rfloor>)"

definition record_dedup :: "string \<Rightarrow> flt \<Rightarrow> auto_executor \<Rightarrow> auto_executor" where
  "record_dedup key ts ae =
     (let cutoff = ts - of_int (ac_dedup_window_seconds (ae_config ae)) * 10
      in ae\<lparr>ae_seen_dedup_keys :=
              AList.update key ts (filter (\<lambda>(k, t). cutoff \<le> t) (ae_seen_dedup_keys ae))\<rparr>)"

section \<open>Size\<close>

definition estimate_notional :: "opportunity \<Rightarrow> flt" where
  "estimate_notional p = (opp_yes_price p + opp_no_price p) * of_int (max 1 (opp_suggested_qty p))"

definition clamped :: "opportunity \<Rightarrow> int \<Rightarrow> opportunity" where
  "clamped p q =
     (let yes_fee = compute_fee (opp_yes_platform p) (opp_yes_price p) q (opp_yes_fee_rate p);
          no_fee = compute_fee (opp_no_platform p) (opp_no_price p) q (opp_no_fee_rate p);
          fees = (yes_fee + no_fee) / of_int (max q 1);
          net = opp_gross_edge p - fees
      in p\<lparr> opp_suggested_qty := q, opp_net_edge := net, opp_net_edge_cents := net * 100,
            opp_total_fees := fees, opp_yes_fee := yes_fee / of_int (max q 1),
            opp_no_fee := no_fee / of_int (max q 1),
            opp_max_profit_usd := round_nd 4 (net * of_int q) \<rparr>)"

definition clamp_to_cap :: "auto_config \<Rightarrow> opportunity \<Rightarrow> opportunity option" where
  "clamp_to_cap c p =
     (if estimate_notional p \<le> ac_max_position_usd c then Some p
      else let price = or_flt (opp_yes_price p) (1/100) + or_flt (opp_no_price p) (1/100);
               raw_qty = py_int (ac_max_position_usd c / price); p' = clamped p raw_qty
           in if raw_qty < 1 then None
              else if opp_net_edge_cents p' < edge_floor_for c (opp_yes_platform p) (opp_no_platform p)
              then None else Some p')"

section \<open>Pre-flight\<close>

text \<open>What a side's book absorbs; the counter is the number of depth checks made.\<close>

datatype absorbed = AbsorbFailed | Absorbs int

function halve_depth ::
  "(nat \<Rightarrow> string \<Rightarrow> string \<Rightarrow> int \<Rightarrow> (bool \<times> flt) option) \<Rightarrow> string \<Rightarrow> string \<Rightarrow> int \<Rightarrow> nat
   \<Rightarrow> nat \<times> absorbed" where
  "halve_depth depth market side try_qty n =
     (if try_qty < 1 then (n, AbsorbFailed)
      else case depth n market side try_qty of
             None \<Rightarrow> (n + 1, AbsorbFailed)
           | Some (ok, best) \<Rightarrow> if ok then (n + 1, Absorbs try_qty)
                               else halve_depth depth market side (try_qty div 2) (n + 1))"
  by pat_completeness auto

termination
  by (relation "measure (\<lambda>(depth, market, side, try_qty, n). nat try_qty)") auto

declare halve_depth.simps [simp del]

definition required_depth :: "auto_config \<Rightarrow> int \<Rightarrow> flt \<Rightarrow> int" where
  "required_depth c qty price =
     max qty (py_int (ac_min_depth_usd c / max price (1/100) + 1/2))"

text \<open>The quantity one side can take of \<open>qty\<close>.\<close>

definition side_depth ::
  "auto_env \<Rightarrow> auto_config \<Rightarrow> string \<Rightarrow> string \<Rightarrow> string \<Rightarrow> flt \<Rightarrow> int \<Rightarrow> nat \<Rightarrow> nat \<times> absorbed" where
  "side_depth env c platform market side price qty n =
     (case ax_depth env platform of
        None \<Rightarrow> (n, AbsorbFailed)
      | Some depth \<Rightarrow>
          let required = required_depth c qty price
          in case depth n market side required of
               None \<Rightarrow> (n + 1, AbsorbFailed)
             | Some (ok, best) \<Rightarrow>
                 if ok then (n + 1, Absorbs qty)
                 else if \<not> ac_liquidity_adaptive_sizing c then (n + 1, AbsorbFailed)
                 else halve_depth depth market side (max 1 (required div 2)) (n + 1))"

definition fresh_fees :: "opportunity \<Rightarrow> price_point \<Rightarrow> price_point \<Rightarrow> int \<Rightarrow> flt" where
  "fresh_fees p y n qty =
     (compute_fee (opp_yes_platform p) (pp_yes_price y) qty (pp_fee_rate y)
      + compute_fee (opp_no_platform p) (pp_no_price n) qty (pp_fee_rate n)) / of_int qty"

definition preflight_quote ::
  "flt \<Rightarrow> opportunity \<Rightarrow> price_point \<Rightarrow> price_point \<Rightarrow> int \<Rightarrow> opportunity" where
  "preflight_quote now p y n qty =
     (let gross = 1 - pp_yes_price y - pp_no_price n; fees = fresh_fees p y n qty
      in p\<lparr> opp_yes_price := pp_yes_price y, opp_no_price := pp_no_price n,
            opp_yes_market_id := or_str (pp_yes_market_id y) (opp_yes_market_id p),
            opp_no_market_id := or_str (pp_no_market_id n) (opp_no_market_id p),
            opp_gross_edge := gross, opp_total_fees := fees, opp_net_edge := gross - fees,
            opp_net_edge_cents := (gross - fees) * 100,
            opp_quote_age_seconds := max (age_seconds now y) (age_seconds now n),
            opp_timestamp := now, opp_yes_fee_rate := pp_fee_rate y,
            opp_no_fee_rate := pp_fee_rate n \<rparr>)"

definition resized :: "opportunity \<Rightarrow> flt \<Rightarrow> flt \<Rightarrow> int \<Rightarrow> opportunity" where
  "resized p net fees qty =
     p\<lparr> opp_suggested_qty := qty, opp_net_edge := net, opp_net_edge_cents := net * 100,
        opp_total_fees := fees, opp_max_profit_usd := round_nd 4 (net * of_int qty) \<rparr>"

definition pre_flight_depth ::
  "auto_env \<Rightarrow> auto_config \<Rightarrow> opportunity \<Rightarrow> price_point \<Rightarrow> price_point \<Rightarrow> int
   \<Rightarrow> skip_kind + opportunity" where
  "pre_flight_depth env c p y n qty =
     (case side_depth env c (opp_yes_platform p) (opp_yes_market_id p) ''yes'' (pp_yes_price y) qty 0 of
        (k, AbsorbFailed) \<Rightarrow> Inl SkDepthLow
      | (k, Absorbs a) \<Rightarrow>
          (case side_depth env c (opp_no_platform p) (opp_no_market_id p) ''no'' (pp_no_price n) qty k of
             (k', AbsorbFailed) \<Rightarrow> Inl SkDepthLow
           | (k', Absorbs b) \<Rightarrow>
               let adaptive = min (min qty a) b
               in if qty \<le> adaptive then Inr (preflight_quote (ax_now env) p y n qty)
                  else let q = max 1 adaptive; fees = fresh_fees p y n q;
                           net = 1 - pp_yes_price y - pp_no_price n - fees
                       in if net * 100 < edge_floor_for c (opp_yes_platform p) (opp_no_platform p)
                          then Inl SkEdgeCollapsed
                          else Inr (preflight_quote (ax_now env) (resized p net fees q) y n q)))"

definition pre_flight_checks ::
  "auto_env \<Rightarrow> auto_config \<Rightarrow> opportunity \<Rightarrow> skip_kind + opportunity" where
  "pre_flight_checks env c p =
     (case ax_quote env of
        None \<Rightarrow> Inr p
      | Some quote \<Rightarrow>
          (case (quote (opp_yes_platform p) (opp_canonical_id p),
                 quote (opp_no_platform p) (opp_canonical_id p)) of
             (Quote y, Quote n) \<Rightarrow>
               let qty = max 1 (opp_suggested_qty p);
                   net = 1 - pp_yes_price y - pp_no_price n - fresh_fees p y n qty
               in if ac_max_quote_age_s c < max (age_seconds (ax_now env) y) (age_seconds (ax_now env) n)
                  then Inl SkStaleQuote
                  else if net * 100 < edge_floor_for c (opp_yes_platform p) (opp_no_platform p)
                  then Inl SkEdgeCollapsed
                  else pre_flight_depth env c p y n qty
           | _ \<Rightarrow> Inl SkStaleQuote))"

section \<open>The call of the engine and what follows\<close>

text \<open>What \<open>execute_opportunity\<close> gives its caller: an exception, nothing or an execution.\<close>

datatype engine_answer = EngineRaised | EngineNothing | EngineReturned arb_execution

definition engine_answer_of :: "whole_result \<Rightarrow> engine_answer" where
  "engine_answer_of r = (case r of
       WentLive LiveRaised \<Rightarrow> EngineRaised
     | WentLive (LiveDone ex) \<Rightarrow> EngineReturned ex
     | Stayed (ManualQueued ex) \<Rightarrow> EngineReturned ex
     | Stayed (Simulated ex) \<Rightarrow> EngineReturned ex
     | _ \<Rightarrow> EngineNothing)"

definition backoff_seconds :: "nat \<Rightarrow> flt" where
  "backoff_seconds attempt = min (300 * 2 ^ (attempt - 1)) 3600"

definition set_cooldown :: "flt \<Rightarrow> string \<Rightarrow> bool \<Rightarrow> auto_executor \<Rightarrow> auto_executor" where
  "set_cooldown now cid recovering ae =
     (let attempt = dget (ae_failed_count ae) cid 0 + 1; b = backoff_seconds attempt;
          b' = (if recovering then max b (ae_naked_cooldown_s ae) else b)
      in ae\<lparr>ae_failed_count := AList.update cid attempt (ae_failed_count ae),
            ae_failed_cooldown := AList.update cid (now + b') (ae_failed_cooldown ae)\<rparr>)"

text \<open>\<open>_auto_disable_mapping\<close>, with a store that accepts the change.\<close>

definition auto_disable_mapping :: "string \<Rightarrow> auto_executor \<Rightarrow> auto_executor" where
  "auto_disable_mapping cid ae =
     ae\<lparr>ae_loss_streak := AList.delete cid (ae_loss_streak ae),
        ae_stats := (ae_stats ae)\<lparr>as_auto_disabled_loss_streak :=
                      as_auto_disabled_loss_streak (ae_stats ae) + 1\<rparr>,
        ae_disabled := cid # ae_disabled ae\<rparr>"

definition clean_fill :: "string \<Rightarrow> flt \<Rightarrow> auto_executor \<Rightarrow> auto_executor" where
  "clean_fill cid pnl ae =
     ae\<lparr>ae_failed_count := AList.delete cid (ae_failed_count ae),
        ae_failed_cooldown := AList.delete cid (ae_failed_cooldown ae),
        ae_loss_streak := (if 0 < pnl then AList.delete cid (ae_loss_streak ae)
                           else ae_loss_streak ae)\<rparr>"

definition losing_trade :: "string \<Rightarrow> auto_executor \<Rightarrow> auto_executor" where
  "losing_trade cid ae =
     (let streak = dget (ae_loss_streak ae) cid 0 + 1;
          ae1 = ae\<lparr>ae_loss_streak := AList.update cid streak (ae_loss_streak ae)\<rparr>;
          threshold = ac_loss_streak_disable_threshold (ae_config ae)
      in if 0 < threshold \<and> threshold \<le> streak then auto_disable_mapping cid ae1 else ae1)"

definition failed_status :: "string \<Rightarrow> bool" where
  "failed_status st = (st = ''failed'' \<or> st = ''recovering'')"

definition after_engine :: "flt \<Rightarrow> string \<Rightarrow> engine_answer \<Rightarrow> auto_executor \<Rightarrow> auto_executor" where
  "after_engine now cid answer ae =
     (case answer of
        EngineRaised \<Rightarrow> count_failure ae
      | EngineNothing \<Rightarrow> set_cooldown now cid False ae
      | EngineReturned ex \<Rightarrow>
          let st = ex_status ex; pnl = ex_realized_pnl ex;
              ae1 = (if failed_status st then set_cooldown now cid (st = ''recovering'') ae else ae);
              ae2 = ae1\<lparr>ae_stats := (ae_stats ae1)\<lparr>as_executed := as_executed (ae_stats ae1) + 1,
                                                   as_last_executed_ts := now\<rparr>\<rparr>;
              ae3 = (if (st = ''filled'' \<or> st = ''submitted'') \<and> 0 \<le> pnl then clean_fill cid pnl ae2
                     else ae2)
          in if failed_status st \<and> pnl < 0 then losing_trade cid ae3 else ae3)"

text \<open>The trade gate is probed before the engine is called; a probe that raises does not block.\<close>

definition gate_denies :: "auto_env \<Rightarrow> live_env \<Rightarrow> opportunity \<Rightarrow> live \<Rightarrow> bool" where
  "gate_denies env lenv p lv =
     (\<not> ax_gate_error env \<and> \<not> xe_gate (le_exec lenv) (en_safety (lv_engine lv)) p)"

definition structural_skip :: "auto_env \<Rightarrow> string \<Rightarrow> auto_executor \<Rightarrow> auto_executor" where
  "structural_skip env cid ae =
     (let key = (cid, ax_gate_reason env); now = ax_now env
      in bump_skip SkGateStructural
           (if now < dget (ae_gate_structural_cooldown ae) key 0 then ae
            else ae\<lparr>ae_gate_structural_cooldown :=
                      AList.update key (now + ae_gate_structural_cooldown_s ae)
                        (ae_gate_structural_cooldown ae)\<rparr>))"

text \<open>
  From the gates on that read the executor's own state; the result is the opportunity handed to the
  engine, if one is.
\<close>

definition gated_execution ::
  "auto_env \<Rightarrow> live_env \<Rightarrow> opportunity \<Rightarrow> auto_executor \<Rightarrow> live
   \<Rightarrow> auto_executor \<times> live \<times> opportunity option" where
  "gated_execution env lenv p ae lv =
     (let c = ae_config ae
      in if (case ac_bootstrap_trades c of None \<Rightarrow> False | Some n \<Rightarrow> n \<le> as_executed (ae_stats ae))
         then (bump_skip SkBootstrapFull ae, lv, None)
         else if gate_denies env lenv p lv
         then (structural_skip env (opp_canonical_id p) ae, lv, None)
         else let (lv', r) = execute_whole lenv p lv
              in (after_engine (ax_now env) (opp_canonical_id p) (engine_answer_of r) ae, lv', Some p))"

definition sized_execution ::
  "auto_env \<Rightarrow> live_env \<Rightarrow> opportunity \<Rightarrow> auto_executor \<Rightarrow> live
   \<Rightarrow> auto_executor \<times> live \<times> opportunity option" where
  "sized_execution env lenv p ae lv =
     (case clamp_to_cap (ae_config ae) p of
        None \<Rightarrow> (bump_skip SkOverCap ae, lv, None)
      | Some p1 \<Rightarrow>
          (case pre_flight_checks env (ae_config ae) p1 of
             Inl k \<Rightarrow> (bump_skip k ae, lv, None)
           | Inr p2 \<Rightarrow> gated_execution env lenv p2 ae lv))"

definition consider_opportunity ::
  "auto_env \<Rightarrow> live_env \<Rightarrow> opportunity \<Rightarrow> auto_executor \<Rightarrow> live
   \<Rightarrow> auto_executor \<times> live \<times> opportunity option" where
  "consider_opportunity env lenv p ae0 lv =
     (let now = ax_now env; st = ae_stats ae0; cid = opp_canonical_id p;
          ae = ae0\<lparr>ae_stats := st\<lparr>as_considered := as_considered st + 1, as_last_considered_ts := now\<rparr>\<rparr>;
          c = ae_config ae
      in case policy_gates env c (is_armed (en_safety (lv_engine lv))) p of
           Inl None \<Rightarrow> (count_failure ae, lv, None)
         | Inl (Some k) \<Rightarrow> (bump_skip k ae, lv, None)
         | Inr m \<Rightarrow>
             if now < dget (ae_failed_cooldown ae) cid 0 then (bump_skip SkFailedCooldown ae, lv, None)
             else let (ae1, blocked) = tracker_blocks now p ae; key = auto_dedup_key c p now
                  in if blocked then (bump_skip SkFailurePattern ae1, lv, None)
                     else if map_of (ae_seen_dedup_keys ae1) key \<noteq> None
                     then (bump_skip SkDuplicate ae1, lv, None)
                     else sized_execution env lenv p (record_dedup key now ae1) lv)"

text \<open>The view of the settings map, for a store without a database, and its \<open>disable_auto_trade\<close>.\<close>

definition settings_view :: "mapping_dict \<Rightarrow> auto_mapping" where
  "settings_view m =
     \<lparr> am_allow_auto_trade = opt_get (m_allow_auto_trade m) False,
       am_status = opt_get (m_status m) ''candidate'',
       am_forecastex_not_available = False, am_forecastex_contract_id = [] \<rparr>"

definition settings_disable_auto_trade :: "string \<Rightarrow> mapping_dict \<Rightarrow> mapping_dict \<times> bool" where
  "settings_disable_auto_trade reason m =
     (if \<not> opt_get (m_allow_auto_trade m) False then (m, False)
      else (m\<lparr>m_allow_auto_trade := Some False,
              m_notes := Some (py_strip (opt_get (m_notes m) [] @ [CHR 0x0A] @ ''[auto-disabled: ''
                           @ reason @ '']''))\<rparr>, True))"

section \<open>What is handed to the engine\<close>

lemma tracker_blocks_frame [simp]:
  "ae_config (fst (tracker_blocks now p ae)) = ae_config ae"
  "ae_stats (fst (tracker_blocks now p ae)) = ae_stats ae"
  "ae_failed_cooldown (fst (tracker_blocks now p ae)) = ae_failed_cooldown ae"
  "ae_failed_count (fst (tracker_blocks now p ae)) = ae_failed_count ae"
  "ae_seen_dedup_keys (fst (tracker_blocks now p ae)) = ae_seen_dedup_keys ae"
  "ae_naked_cooldown_s (fst (tracker_blocks now p ae)) = ae_naked_cooldown_s ae"
  by (auto simp: tracker_blocks_def split: option.split prod.split bool.split)

lemma dedup_frame [simp]:
  "ae_config (record_dedup k ts ae) = ae_config ae" "ae_stats (record_dedup k ts ae) = ae_stats ae"
  "ae_failed_cooldown (record_dedup k ts ae) = ae_failed_cooldown ae"
  "ae_failed_count (record_dedup k ts ae) = ae_failed_count ae"
  "ae_naked_cooldown_s (record_dedup k ts ae) = ae_naked_cooldown_s ae"
  by (simp_all add: record_dedup_def Let_def)

lemma bump_frame [simp]:
  "ae_config (bump_skip k ae) = ae_config ae"
  "ae_failed_cooldown (bump_skip k ae) = ae_failed_cooldown ae"
  "ae_failed_count (bump_skip k ae) = ae_failed_count ae"
  by (simp_all add: bump_skip_def Let_def)

lemma failure_frame [simp]:
  "ae_config (count_failure ae) = ae_config ae"
  "ae_failed_cooldown (count_failure ae) = ae_failed_cooldown ae"
  by (simp_all add: count_failure_def)

lemma structural_frame [simp]:
  "ae_config (structural_skip env cid ae) = ae_config ae"
  "ae_failed_cooldown (structural_skip env cid ae) = ae_failed_cooldown ae"
  by (simp_all add: structural_skip_def Let_def)

text \<open>A call of the engine: what was decided before it, and the state it was made in.\<close>

lemma consider_cases:
  assumes "consider_opportunity env lenv p ae lv = (ae', lv', res)"
  obtains (skipped) "res = None" "lv' = lv" "ae_config ae' = ae_config ae"
      "ae_failed_cooldown ae' = ae_failed_cooldown ae"
  | (called) m p1 q ae1 r where "res = Some q"
      "policy_gates env (ae_config ae) (is_armed (en_safety (lv_engine lv))) p = Inr m"
      "dget (ae_failed_cooldown ae) (opp_canonical_id p) 0 \<le> ax_now env"
      "map_of (ae_seen_dedup_keys ae) (auto_dedup_key (ae_config ae) p (ax_now env)) = None"
      "clamp_to_cap (ae_config ae) p = Some p1" "pre_flight_checks env (ae_config ae) p1 = Inr q"
      "case ac_bootstrap_trades (ae_config ae) of None \<Rightarrow> True | Some n \<Rightarrow> as_executed (ae_stats ae) < n"
      "\<not> gate_denies env lenv q lv" "execute_whole lenv q lv = (lv', r)"
      "ae' = after_engine (ax_now env) (opp_canonical_id q) (engine_answer_of r) ae1"
      "ae_config ae1 = ae_config ae" "ae_failed_cooldown ae1 = ae_failed_cooldown ae"
      "ae_naked_cooldown_s ae1 = ae_naked_cooldown_s ae"
proof -
  define st where "st = ae_stats ae"
  define ae0 where "ae0 = ae\<lparr>ae_stats := st\<lparr>as_considered := as_considered st + 1,
      as_last_considered_ts := ax_now env\<rparr>\<rparr>"
  define key where "key = auto_dedup_key (ae_config ae) p (ax_now env)"
  define ae1 where "ae1 = fst (tracker_blocks (ax_now env) p ae0)"
  define ae2 where "ae2 = record_dedup key (ax_now env) ae1"
  have f0: "ae_config ae0 = ae_config ae" "ae_failed_cooldown ae0 = ae_failed_cooldown ae"
    "ae_seen_dedup_keys ae0 = ae_seen_dedup_keys ae" "ae_naked_cooldown_s ae0 = ae_naked_cooldown_s ae"
    "as_executed (ae_stats ae0) = as_executed (ae_stats ae)"
    by (simp_all add: ae0_def st_def)
  have f2: "ae_config ae2 = ae_config ae" "ae_failed_cooldown ae2 = ae_failed_cooldown ae"
    "as_executed (ae_stats ae2) = as_executed (ae_stats ae)" "ae_naked_cooldown_s ae2 = ae_naked_cooldown_s ae"
    by (simp_all add: ae2_def ae1_def f0)
  let ?gates = "policy_gates env (ae_config ae) (is_armed (en_safety (lv_engine lv))) p"
  let ?reach = "\<exists>m. ?gates = Inr m \<and> dget (ae_failed_cooldown ae) (opp_canonical_id p) 0 \<le> ax_now env
      \<and> \<not> snd (tracker_blocks (ax_now env) p ae0) \<and> map_of (ae_seen_dedup_keys ae) key = None"
  show ?thesis
  proof (cases ?reach)
    case False
    with assms show ?thesis
      by (intro skipped)
        (auto simp: consider_opportunity_def Let_def ae0_def[symmetric] st_def[symmetric] f0
          key_def[symmetric] case_prod_unfold not_le split: sum.splits option.splits if_splits)
  next
    case True
    then obtain m where m: "?gates = Inr m" "dget (ae_failed_cooldown ae) (opp_canonical_id p) 0 \<le> ax_now env"
      "\<not> snd (tracker_blocks (ax_now env) p ae0)" "map_of (ae_seen_dedup_keys ae) key = None" by blast
    with assms have sized: "sized_execution env lenv p ae2 lv = (ae', lv', res)"
      by (simp add: consider_opportunity_def Let_def ae0_def[symmetric] st_def[symmetric] f0
          key_def[symmetric] case_prod_unfold ae2_def ae1_def)
    show ?thesis
    proof (cases "\<exists>p1 q. clamp_to_cap (ae_config ae) p = Some p1 \<and> pre_flight_checks env (ae_config ae) p1 = Inr q")
      case False
      with sized show ?thesis
        by (intro skipped) (auto simp: sized_execution_def f2 split: option.splits sum.splits)
    next
      case True
      then obtain p1 q where q: "clamp_to_cap (ae_config ae) p = Some p1"
        "pre_flight_checks env (ae_config ae) p1 = Inr q" by blast
      with sized have g: "gated_execution env lenv q ae2 lv = (ae', lv', res)"
        by (simp add: sized_execution_def f2)
      obtain lv2 r where x: "execute_whole lenv q lv = (lv2, r)" by (metis surj_pair)
      show ?thesis
      proof (cases "(case ac_bootstrap_trades (ae_config ae) of None \<Rightarrow> True
          | Some n \<Rightarrow> as_executed (ae_stats ae) < n) \<and> \<not> gate_denies env lenv q lv")
        case False
        with g show ?thesis
          by (intro skipped)
            (auto simp: gated_execution_def Let_def f2 x not_less not_le split: option.splits if_splits)
      next
        case True
        with g x have "res = Some q" "lv' = lv2"
          "ae' = after_engine (ax_now env) (opp_canonical_id q) (engine_answer_of r) ae2"
          by (auto simp: gated_execution_def Let_def f2 not_less not_le split: option.splits if_splits)
        with True m q x f2 show ?thesis
          by (intro called[of q m p1 r ae2]) (simp_all add: key_def)
      qed
    qed
  qed
qed

lemma policy_gates_Inr:
  assumes "policy_gates env c armed p = Inr m"
  shows "ac_enabled c \<and> \<not> armed \<and> \<not> opp_requires_manual p
    \<and> ax_mapping env (opp_canonical_id p) = Some (Some m) \<and> am_allow_auto_trade m
    \<and> \<not> forecastex_refused p m \<and> (ac_require_mapping_confirmed c \<longrightarrow> py_lower (am_status m) = ''confirmed'')
    \<and> \<not> suspicious_edge c p"
  using assms by (auto simp: policy_gates_def split: if_splits option.splits)

lemma clamp_within_cap:
  assumes "clamp_to_cap c p = Some p1"
    and "0 < opp_yes_price p" "0 < opp_no_price p"
  shows "estimate_notional p1 \<le> ac_max_position_usd c" "opp_suggested_qty p1 \<le> max 1 (opp_suggested_qty p)"
    "opp_yes_price p1 = opp_yes_price p" "opp_no_price p1 = opp_no_price p"
    "opp_canonical_id p1 = opp_canonical_id p" "opp_yes_platform p1 = opp_yes_platform p"
    "opp_no_platform p1 = opp_no_platform p" "opp_requires_manual p1 = opp_requires_manual p"
proof -
  let ?price = "opp_yes_price p + opp_no_price p"
  have price: "or_flt (opp_yes_price p) (1/100) + or_flt (opp_no_price p) (1/100) = ?price" "0 < ?price"
    using assms(2,3) by (simp_all add: or_flt_def)
  have "p1 = p \<and> estimate_notional p \<le> ac_max_position_usd c
    \<or> p1 = clamped p (py_int (ac_max_position_usd c / ?price)) \<and> 1 \<le> py_int (ac_max_position_usd c / ?price)
      \<and> ac_max_position_usd c < estimate_notional p"
    using assms(1) by (auto simp: clamp_to_cap_def price Let_def not_le not_less split: if_splits)
  then consider "p1 = p" "estimate_notional p \<le> ac_max_position_usd c"
    | q where "q = py_int (ac_max_position_usd c / ?price)" "p1 = clamped p q" "1 \<le> q"
        "ac_max_position_usd c < estimate_notional p"
    by blast
  then have "estimate_notional p1 \<le> ac_max_position_usd c \<and> opp_suggested_qty p1 \<le> max 1 (opp_suggested_qty p)
    \<and> opp_yes_price p1 = opp_yes_price p \<and> opp_no_price p1 = opp_no_price p
    \<and> opp_canonical_id p1 = opp_canonical_id p \<and> opp_yes_platform p1 = opp_yes_platform p
    \<and> opp_no_platform p1 = opp_no_platform p \<and> opp_requires_manual p1 = opp_requires_manual p"
  proof cases
    case 1
    then show ?thesis by simp
  next
    case (2 q)
    have q: "(of_int q :: flt) \<le> ac_max_position_usd c / ?price"
      using py_int_ge[of q "ac_max_position_usd c / ?price"] 2 by simp
    then have le: "?price * of_int q \<le> ac_max_position_usd c"
      using price(2) by (simp add: pos_le_divide_eq mult.commute)
    with 2(4) have "?price * of_int q < ?price * of_int (max 1 (opp_suggested_qty p))"
      by (simp add: estimate_notional_def)
    then have "q < max 1 (opp_suggested_qty p)"
      using price(2) by (simp only: mult_less_cancel_left_pos of_int_less_iff)
    with 2 le show ?thesis by (simp add: clamped_def Let_def estimate_notional_def)
  qed
  then show "estimate_notional p1 \<le> ac_max_position_usd c" "opp_suggested_qty p1 \<le> max 1 (opp_suggested_qty p)"
    "opp_yes_price p1 = opp_yes_price p" "opp_no_price p1 = opp_no_price p"
    "opp_canonical_id p1 = opp_canonical_id p" "opp_yes_platform p1 = opp_yes_platform p"
    "opp_no_platform p1 = opp_no_platform p" "opp_requires_manual p1 = opp_requires_manual p"
    by blast+
qed

text \<open>A book confirms \<open>n\<close> contracts when a check of it for \<open>n\<close> or more came back positive.\<close>

definition book_confirms :: "auto_env \<Rightarrow> string \<Rightarrow> string \<Rightarrow> string \<Rightarrow> int \<Rightarrow> bool" where
  "book_confirms env platform market side n =
     (\<exists>depth j s best. ax_depth env platform = Some depth
        \<and> depth j market side s = Some (True, best) \<and> n \<le> s)"

lemma halve_confirmed:
  "snd (halve_depth depth market side n k) = Absorbs a
   \<Longrightarrow> 1 \<le> a \<and> (\<exists>j best. depth j market side a = Some (True, best))"
proof (induction depth market side n k rule: halve_depth.induct)
  case (1 depth market side n k)
  from 1(2) consider (ok) best where "1 \<le> n" "a = n" "depth k market side n = Some (True, best)"
    | (less) best where "1 \<le> n" "depth k market side n = Some (False, best)"
        "snd (halve_depth depth market side (n div 2) (k + 1)) = Absorbs a"
    by (subst (asm) halve_depth.simps) (fastforce split: if_splits option.splits)
  then show ?case
  proof cases
    case ok
    then show ?thesis by auto
  next
    case (less best)
    then show ?thesis using 1(1)[of "(False, best)" False best] by simp
  qed
qed

lemma side_depth_confirmed:
  assumes "side_depth env c pl market side price qty k = (k', Absorbs a)" "1 \<le> qty"
  shows "1 \<le> a \<and> book_confirms env pl market side a"
proof -
  obtain depth where d: "ax_depth env pl = Some depth"
    using assms(1) by (auto simp: side_depth_def split: option.splits)
  let ?r = "required_depth c qty price"
  have r: "qty \<le> ?r" by (simp add: required_depth_def)
  from assms(1) d consider (full) best where "depth k market side ?r = Some (True, best)" "a = qty"
    | (halved) "snd (halve_depth depth market side (max 1 (?r div 2)) (k + 1)) = Absorbs a"
    by (auto simp: side_depth_def Let_def split: option.splits if_splits dest!: arg_cong[where f = snd])
  then show ?thesis
  proof cases
    case full
    with assms(2) d r show ?thesis by (auto simp: book_confirms_def)
  next
    case halved
    from halve_confirmed[OF this] d show ?thesis by (auto simp: book_confirms_def)
  qed
qed

lemma book_confirms_less: "book_confirms env pl m sd a \<Longrightarrow> b \<le> a \<Longrightarrow> book_confirms env pl m sd b"
  by (fastforce simp: book_confirms_def)

text \<open>What the pre-flight lets through, when it has quotes to look at.\<close>

lemma preflight_fields [simp]:
  "opp_canonical_id (preflight_quote now p y n q) = opp_canonical_id p"
  "opp_yes_platform (preflight_quote now p y n q) = opp_yes_platform p"
  "opp_no_platform (preflight_quote now p y n q) = opp_no_platform p"
  "opp_requires_manual (preflight_quote now p y n q) = opp_requires_manual p"
  "opp_suggested_qty (preflight_quote now p y n q) = opp_suggested_qty p"
  "opp_yes_price (preflight_quote now p y n q) = pp_yes_price y"
  "opp_no_price (preflight_quote now p y n q) = pp_no_price n"
  "opp_canonical_id (resized p net fees q) = opp_canonical_id p"
  "opp_yes_platform (resized p net fees q) = opp_yes_platform p"
  "opp_no_platform (resized p net fees q) = opp_no_platform p"
  "opp_requires_manual (resized p net fees q) = opp_requires_manual p"
  "opp_suggested_qty (resized p net fees q) = q"
  by (simp_all add: preflight_quote_def resized_def Let_def)

lemma preflight_edge:
  "opp_net_edge_cents (preflight_quote now p y n q)
     = (1 - pp_yes_price y - pp_no_price n - fresh_fees p y n q) * 100"
  "fresh_fees (resized p net fees k) y n q = fresh_fees p y n q"
  by (simp_all add: preflight_quote_def fresh_fees_def resized_def Let_def)

lemma pre_flight_Inr:
  assumes "pre_flight_checks env c p = Inr q"
  shows "opp_canonical_id q = opp_canonical_id p \<and> opp_yes_platform q = opp_yes_platform p
    \<and> opp_no_platform q = opp_no_platform p \<and> opp_requires_manual q = opp_requires_manual p
    \<and> (if ax_quote env = None then q = p
       else edge_floor_for c (opp_yes_platform p) (opp_no_platform p) \<le> opp_net_edge_cents q
         \<and> opp_suggested_qty q \<le> max 1 (opp_suggested_qty p)
         \<and> book_confirms env (opp_yes_platform p) (opp_yes_market_id p) ''yes'' (opp_suggested_qty q)
         \<and> book_confirms env (opp_no_platform p) (opp_no_market_id p) ''no'' (opp_suggested_qty q))"
proof (cases "ax_quote env")
  case None
  with assms show ?thesis by (simp add: pre_flight_checks_def)
next
  case (Some quote)
  with assms obtain y n where yn: "quote (opp_yes_platform p) (opp_canonical_id p) = Quote y"
    "quote (opp_no_platform p) (opp_canonical_id p) = Quote n"
    by (auto simp: pre_flight_checks_def split: quote_answer.splits)
  let ?qty = "max 1 (opp_suggested_qty p)"
  from assms Some yn have edge: "edge_floor_for c (opp_yes_platform p) (opp_no_platform p)
      \<le> (1 - pp_yes_price y - pp_no_price n - fresh_fees p y n ?qty) * 100"
    and d: "pre_flight_depth env c p y n ?qty = Inr q"
    by (auto simp: pre_flight_checks_def Let_def not_less split: if_splits)
  obtain k a where a: "side_depth env c (opp_yes_platform p) (opp_yes_market_id p) ''yes'' (pp_yes_price y) ?qty 0
      = (k, Absorbs a)"
    using d by (auto simp: pre_flight_depth_def split: prod.splits absorbed.splits)
  obtain k' b where b: "side_depth env c (opp_no_platform p) (opp_no_market_id p) ''no'' (pp_no_price n) ?qty k
      = (k', Absorbs b)"
    using d a by (auto simp: pre_flight_depth_def split: prod.splits absorbed.splits)
  define m where "m = min (min ?qty a) b"
  define net where "net = 1 - pp_yes_price y - pp_no_price n - fresh_fees p y n (max 1 m)"
  have eq: "pre_flight_depth env c p y n ?qty =
    (if ?qty \<le> m then Inr (preflight_quote (ax_now env) p y n ?qty)
     else if net * 100 < edge_floor_for c (opp_yes_platform p) (opp_no_platform p) then Inl SkEdgeCollapsed
     else Inr (preflight_quote (ax_now env)
            (resized p net (fresh_fees p y n (max 1 m)) (max 1 m)) y n (max 1 m)))"
    by (simp only: pre_flight_depth_def a b prod.case absorbed.case Let_def m_def net_def)
  have small: "max 1 m \<le> max 1 (opp_suggested_qty p)" by (simp add: m_def)
  have confirmed: "book_confirms env (opp_yes_platform p) (opp_yes_market_id p) ''yes'' k
      \<and> book_confirms env (opp_no_platform p) (opp_no_market_id p) ''no'' k" if "k \<le> max 1 m" for k
  proof -
    from side_depth_confirmed[OF a] side_depth_confirmed[OF b] that have "k \<le> a" "k \<le> b"
      by (auto simp: m_def max_def min_def split: if_splits)
    moreover have "book_confirms env (opp_yes_platform p) (opp_yes_market_id p) ''yes'' a"
      "book_confirms env (opp_no_platform p) (opp_no_market_id p) ''no'' b"
      using side_depth_confirmed[OF a] side_depth_confirmed[OF b] by simp_all
    ultimately show ?thesis by (blast intro: book_confirms_less)
  qed
  show ?thesis
  proof (cases "?qty \<le> m")
    case True
    with d eq have "q = preflight_quote (ax_now env) p y n ?qty" by simp
    with edge Some confirmed[of "opp_suggested_qty p"] True show ?thesis by (simp add: preflight_edge)
  next
    case False
    with d eq have "\<not> net * 100 < edge_floor_for c (opp_yes_platform p) (opp_no_platform p)"
      "q = preflight_quote (ax_now env) (resized p net (fresh_fees p y n (max 1 m)) (max 1 m)) y n (max 1 m)"
      by (simp_all split: if_splits)
    with Some small confirmed[of "max 1 m"] show ?thesis by (simp add: preflight_edge net_def not_less)
  qed
qed

text \<open>
  The quotes an opportunity was re-priced with: both of its venues, fresh enough, and its edge is what they leave
  after their fees at the quantity it now has.
\<close>

definition fresh_priced :: "auto_env \<Rightarrow> auto_config \<Rightarrow> opportunity \<Rightarrow> opportunity \<Rightarrow> price_point \<Rightarrow> price_point \<Rightarrow> bool" where
  "fresh_priced env c p q y n =
     ((case ax_quote env of None \<Rightarrow> False
       | Some quote \<Rightarrow> quote (opp_yes_platform p) (opp_canonical_id p) = Quote y
                      \<and> quote (opp_no_platform p) (opp_canonical_id p) = Quote n)
      \<and> max (age_seconds (ax_now env) y) (age_seconds (ax_now env) n) \<le> ac_max_quote_age_s c
      \<and> opp_yes_price q = pp_yes_price y \<and> opp_no_price q = pp_no_price n
      \<and> opp_net_edge_cents q
          = (1 - pp_yes_price y - pp_no_price n - fresh_fees p y n (max 1 (opp_suggested_qty q))) * 100
      \<and> edge_floor_for c (opp_yes_platform p) (opp_no_platform p) \<le> opp_net_edge_cents q)"

lemma pre_flight_priced:
  assumes "pre_flight_checks env c p = Inr q" "ax_quote env = Some quote"
  shows "\<exists>y n. fresh_priced env c p q y n"
proof -
  obtain y n where yn: "quote (opp_yes_platform p) (opp_canonical_id p) = Quote y"
    "quote (opp_no_platform p) (opp_canonical_id p) = Quote n"
    using assms by (auto simp: pre_flight_checks_def split: quote_answer.splits)
  let ?qty = "max 1 (opp_suggested_qty p)"
  have pre: "max (age_seconds (ax_now env) y) (age_seconds (ax_now env) n) \<le> ac_max_quote_age_s c"
    "pre_flight_depth env c p y n ?qty = Inr q"
    using assms yn by (auto simp: pre_flight_checks_def Let_def not_less split: if_splits)
  obtain k where "q = preflight_quote (ax_now env) p y n ?qty
      \<or> q = preflight_quote (ax_now env) (resized p (1 - pp_yes_price y - pp_no_price n - fresh_fees p y n (max 1 k))
             (fresh_fees p y n (max 1 k)) (max 1 k)) y n (max 1 k)"
    using pre(2) by (auto simp: pre_flight_depth_def Let_def split: prod.splits absorbed.splits if_splits)
  then have "opp_yes_price q = pp_yes_price y" "opp_no_price q = pp_no_price n"
    "opp_net_edge_cents q = (1 - pp_yes_price y - pp_no_price n - fresh_fees p y n (max 1 (opp_suggested_qty q))) * 100"
    by (auto simp: preflight_edge)
  moreover have "edge_floor_for c (opp_yes_platform p) (opp_no_platform p) \<le> opp_net_edge_cents q"
    using pre_flight_Inr [OF assms(1)] assms(2) by simp
  ultimately show ?thesis using assms(2) yn pre(1) by (auto simp: fresh_priced_def)
qed

text \<open>What the executor lets through for an opportunity \<open>p\<close>, as \<open>q\<close>.\<close>

definition within_policy ::
  "auto_env \<Rightarrow> live_env \<Rightarrow> auto_executor \<Rightarrow> live \<Rightarrow> opportunity \<Rightarrow> opportunity \<Rightarrow> bool" where
  "within_policy env lenv ae lv p q =
     (let c = ae_config ae; cid = opp_canonical_id p
      in ac_enabled c \<and> \<not> is_armed (en_safety (lv_engine lv)) \<and> \<not> opp_requires_manual q
         \<and> (case ax_mapping env cid of
              Some (Some m) \<Rightarrow>
                am_allow_auto_trade m \<and> \<not> forecastex_refused p m
                \<and> (if ac_require_mapping_confirmed c then py_lower (am_status m) = ''confirmed'' else True)
            | _ \<Rightarrow> False)
         \<and> \<not> suspicious_edge c p
         \<and> dget (ae_failed_cooldown ae) cid 0 \<le> ax_now env
         \<and> map_of (ae_seen_dedup_keys ae) (auto_dedup_key c p (ax_now env)) = None
         \<and> (case ac_bootstrap_trades c of None \<Rightarrow> True | Some n \<Rightarrow> as_executed (ae_stats ae) < n)
         \<and> (opp_yes_price p + opp_no_price p) * of_int (max 1 (opp_suggested_qty q)) \<le> ac_max_position_usd c
         \<and> (\<exists>y n. fresh_priced env c p q y n)
         \<and> book_confirms env (opp_yes_platform p) (opp_yes_market_id p) ''yes'' (opp_suggested_qty q)
         \<and> book_confirms env (opp_no_platform p) (opp_no_market_id p) ''no'' (opp_suggested_qty q)
         \<and> xe_gate (le_exec lenv) (en_safety (lv_engine lv)) q)"

lemma clamped_markets:
  "clamp_to_cap c p = Some p1
   \<Longrightarrow> opp_yes_market_id p1 = opp_yes_market_id p \<and> opp_no_market_id p1 = opp_no_market_id p"
  by (auto simp: clamp_to_cap_def Let_def clamped_def split: if_splits)

text \<open>
  C8.  With a price store wired and a gate probe that answers, the engine is called only within the
  policy of the executor: enabled, kill switch unarmed, a mapping that allows auto-trading and, where
  the configuration asks for it, is confirmed, no suspicious edge, cool-down over, no duplicate in the
  window, bootstrap budget left, notional at the scanned (positive) prices within the cap; the
  opportunity it is called with is priced at quotes of both venues that are fresh enough, and these
  leave, after the fees for its quantity, at least the floor; a check of either book for that
  quantity or more came back positive, and the trade gate is open.  When it is not called, nothing is sent.
\<close>

theorem auto_executes_within_policy:
  assumes "consider_opportunity env lenv p ae lv = (ae', lv', res)"
    and "0 < opp_yes_price p" "0 < opp_no_price p" "ax_quote env \<noteq> None" "\<not> ax_gate_error env"
  shows "case res of None \<Rightarrow> lv' = lv
         | Some q \<Rightarrow> within_policy env lenv ae lv p q \<and> lv' = fst (execute_whole lenv q lv)"
  using assms(1)
proof (cases rule: consider_cases)
  case skipped
  then show ?thesis by simp
next
  case (called m p1 q ae1 r)
  note c = clamp_within_cap[OF called(5) assms(2,3)] and pre = pre_flight_Inr[OF called(6)]
  have "(opp_yes_price p + opp_no_price p) * of_int (max 1 (opp_suggested_qty q))
      \<le> (opp_yes_price p + opp_no_price p) * of_int (max 1 (opp_suggested_qty p1))"
    using pre assms(2,3,4) by (intro mult_left_mono) auto
  with c(1,3,4) have cap: "(opp_yes_price p + opp_no_price p) * of_int (max 1 (opp_suggested_qty q))
      \<le> ac_max_position_usd (ae_config ae)" by (simp add: estimate_notional_def)
  have fees: "fresh_fees p1 y n k = fresh_fees p y n k" for y n k using c(6,7) by (simp add: fresh_fees_def)
  obtain y n where "fresh_priced env (ae_config ae) p1 q y n"
    using pre_flight_priced[OF called(6)] assms(4) by blast
  then have "fresh_priced env (ae_config ae) p q y n" using c(5-7) by (simp add: fresh_priced_def fees split: option.splits)
  then have priced: "\<exists>y n. fresh_priced env (ae_config ae) p q y n" by blast
  have gate: "xe_gate (le_exec lenv) (en_safety (lv_engine lv)) q"
    using called(8) assms(5) by (simp add: gate_denies_def)
  from policy_gates_Inr[OF called(2)] clamped_markets[OF called(5)] pre c(6-8) called(3,4,7,9) cap priced gate assms(4)
  show ?thesis by (simp add: called(1) within_policy_def Let_def split: if_splits)
qed

section \<open>Back-off\<close>

fun auto_run ::
  "(auto_env \<times> live_env \<times> opportunity) list \<Rightarrow> auto_executor \<Rightarrow> live
   \<Rightarrow> auto_executor \<times> live \<times> opportunity list" where
  "auto_run [] ae lv = (ae, lv, [])"
| "auto_run ((env, lenv, p) # steps) ae lv =
     (let (ae1, lv1, res) = consider_opportunity env lenv p ae lv;
          (ae2, lv2, qs) = auto_run steps ae1 lv1
      in (ae2, lv2, (case res of None \<Rightarrow> [] | Some q \<Rightarrow> [q]) @ qs))"

text \<open>How long the answer of the engine blocks its market, when it does.\<close>

definition answer_block :: "auto_executor \<Rightarrow> engine_answer \<Rightarrow> flt option" where
  "answer_block ae a =
     (case a of EngineRaised \<Rightarrow> None | EngineNothing \<Rightarrow> Some 300
      | EngineReturned ex \<Rightarrow>
          if ex_status ex = ''failed'' then Some 300
          else if ex_status ex = ''recovering'' then Some (max 300 (ae_naked_cooldown_s ae)) else None)"

lemma backoff_range: "300 \<le> backoff_seconds n \<and> backoff_seconds n \<le> 3600"
proof -
  have "(1 :: flt) \<le> 2 ^ (n - 1)" by simp
  then show ?thesis by (simp add: backoff_seconds_def)
qed

lemma after_engine_cooldown:
  "cid' \<noteq> cid \<Longrightarrow> map_of (ae_failed_cooldown (after_engine now cid' a ae)) cid
     = map_of (ae_failed_cooldown ae) cid"
  by (auto simp: after_engine_def Let_def set_cooldown_def clean_fill_def losing_trade_def
      auto_disable_mapping_def count_failure_def AList.delete_conv' update_conv' split: engine_answer.split)

lemma after_engine_blocks:
  assumes "answer_block ae a = Some d"
  shows "now + d \<le> dget (ae_failed_cooldown (after_engine now cid a ae)) cid 0"
  using assms backoff_range[of "dget (ae_failed_count ae) cid 0 + 1"]
  by (auto simp: answer_block_def after_engine_def Let_def set_cooldown_def losing_trade_def failed_status_def
      auto_disable_mapping_def dget_def update_conv' split: engine_answer.splits if_splits)

lemma consider_keeps_block:
  assumes "consider_opportunity env lenv p ae lv = (ae', lv', res)"
    and "t \<le> dget (ae_failed_cooldown ae) cid 0" "ax_now env < t"
  shows "t \<le> dget (ae_failed_cooldown ae') cid 0 \<and> (\<forall>q. res = Some q \<longrightarrow> opp_canonical_id q \<noteq> cid)"
  using assms(1)
proof (cases rule: consider_cases)
  case skipped
  with assms(2) show ?thesis by simp
next
  case (called m p1 q ae1 r)
  have q: "opp_canonical_id q = opp_canonical_id p"
    using pre_flight_Inr[OF called(6)] called(5)
    by (auto simp: clamp_to_cap_def Let_def clamped_def split: if_splits)
  with called(3) assms(2,3) have "opp_canonical_id q \<noteq> cid" by auto
  with assms(2) called(1,10,12) show ?thesis by (simp add: dget_def after_engine_cooldown)
qed

lemma run_keeps_block:
  assumes "auto_run steps ae lv = (ae', lv', calls)"
    and "t \<le> dget (ae_failed_cooldown ae) cid 0" "\<forall>(env, lenv, p) \<in> set steps. ax_now env < t"
  shows "\<forall>q \<in> set calls. opp_canonical_id q \<noteq> cid"
  using assms
proof (induction steps ae lv arbitrary: ae' lv' calls rule: auto_run.induct)
  case (2 env lenv p steps ae lv)
  obtain ae1 lv1 res where c: "consider_opportunity env lenv p ae lv = (ae1, lv1, res)" by (metis surj_pair)
  obtain ae2 lv2 qs where r: "auto_run steps ae1 lv1 = (ae2, lv2, qs)" by (metis surj_pair)
  have now: "ax_now env < t" using "2.prems"(3) by auto
  note k = consider_keeps_block[OF c "2.prems"(2) now]
  have "\<forall>q \<in> set qs. opp_canonical_id q \<noteq> cid"
    using "2.IH"[OF c[symmetric] refl refl r] k "2.prems"(3) by auto
  with k "2.prems"(1) c r show ?case by (auto split: option.splits)
qed simp

text \<open>
  C32.  After the engine failed on a market, answered nothing or left a naked leg, the executor does
  not call it again for that market, whatever is offered, before the block is over: five minutes
  at least, and the longer naked-leg block when a recovery runs.
\<close>

theorem failed_market_backs_off:
  assumes "consider_opportunity env lenv p ae lv = (ae1, lv1, Some q)"
    and "answer_block ae (engine_answer_of (snd (execute_whole lenv q lv))) = Some d"
    and "\<forall>(env', lenv', p') \<in> set steps. ax_now env' < ax_now env + d"
    and "auto_run steps ae1 lv1 = (ae2, lv2, calls)"
  shows "\<forall>q' \<in> set calls. opp_canonical_id q' \<noteq> opp_canonical_id p"
  using assms(1)
proof (cases rule: consider_cases)
  case (called m p1 q' aeb r)
  have q: "q' = q" "opp_canonical_id q = opp_canonical_id p"
    using called(1) pre_flight_Inr[OF called(6)] called(5)
    by (auto simp: clamp_to_cap_def Let_def clamped_def split: if_splits)
  from called(9) q assms(2) have "answer_block ae (engine_answer_of r) = Some d" by simp
  moreover have "ae_naked_cooldown_s aeb = ae_naked_cooldown_s ae" by (rule called(13))
  ultimately have "answer_block aeb (engine_answer_of r) = Some d" by (auto simp: answer_block_def split: engine_answer.splits)
  from after_engine_blocks[OF this, of "ax_now env" "opp_canonical_id p"] called(10) q
  have "ax_now env + d \<le> dget (ae_failed_cooldown ae1) (opp_canonical_id p) 0" by simp
  from run_keeps_block[OF assms(4) this assms(3)] show ?thesis .
qed simp

section \<open>A demonstration\<close>

definition demo_auto_env :: auto_env where
  "demo_auto_env = \<lparr> ax_now = 60,
     ax_mapping = (\<lambda>cid. Some (Some \<lparr> am_allow_auto_trade = True, am_status = ''confirmed'',
        am_forecastex_not_available = False, am_forecastex_contract_id = ''7'' \<rparr>)),
     ax_quote = None, ax_depth = (\<lambda>pl. None), ax_gate_error = True, ax_gate_reason = [] \<rparr>"

definition demo_auto :: auto_executor where
  "demo_auto = new_auto_executor (default_auto_config\<lparr>ac_enabled := True\<rparr>) None 900"

definition demo_early :: opportunity where
  "demo_early = demo_opp\<lparr>opp_status := ''review''\<rparr>"

lemma demo_early_stays:
  "engine_answer_of (snd (execute_whole (demo_live_env ad) demo_early demo_live)) = EngineNothing"
  by (simp add: execute_whole_def Let_def case_prod_unfold execute_opportunity_def demo_early_def
      check_trade_def demo_opp_fields engine_answer_of_def)

lemma demo_auto_policy:
  "policy_gates demo_auto_env (default_auto_config\<lparr>ac_enabled := True\<rparr>) False demo_early
     = Inr \<lparr> am_allow_auto_trade = True, am_status = ''confirmed'',
        am_forecastex_not_available = False, am_forecastex_contract_id = ''7'' \<rparr>"
  by (simp add: policy_gates_def demo_auto_env_def demo_early_def demo_opp_def default_auto_config_def
      forecastex_refused_def bad_conid_def suspicious_edge_def py_strip_def py_lower_def lower_char_def
      Let_def py_space_def)

lemma demo_auto_calls:
  "\<exists>ae' lv'. consider_opportunity demo_auto_env (demo_live_env ad) demo_early demo_auto demo_live
     = (ae', lv', Some demo_early)"
proof -
  have armed: "\<not> is_armed (en_safety (lv_engine demo_live))"
    by (simp add: demo_live_def new_engine_def new_supervisor_def initial_safety_state_def is_armed_def)
  have cap: "clamp_to_cap (default_auto_config\<lparr>ac_enabled := True\<rparr>) demo_early = Some demo_early"
    by (simp add: clamp_to_cap_def estimate_notional_def demo_early_def demo_opp_fields default_auto_config_def)
  have open_gate: "\<not> gate_denies demo_auto_env l p s" for l p s
    by (simp add: gate_denies_def demo_auto_env_def)
  have env: "ax_quote demo_auto_env = None" "ax_now demo_auto_env = 60"
    "ac_bootstrap_trades default_auto_config = None"
    by (simp_all add: demo_auto_env_def default_auto_config_def)
  have new: "ae_config demo_auto = default_auto_config\<lparr>ac_enabled := True\<rparr>" "ae_tracker demo_auto = None"
    "ae_failed_cooldown demo_auto = []" "ae_seen_dedup_keys demo_auto = []"
    by (simp_all add: demo_auto_def new_auto_executor_def)
  show ?thesis
    by (simp add: consider_opportunity_def Let_def new armed demo_auto_policy dget_def tracker_blocks_def
        sized_execution_def cap pre_flight_checks_def env gated_execution_def open_gate case_prod_unfold)
qed

text \<open>The same with a price store, two books of thirty contracts and a gate that answers.\<close>

definition demo_quote :: "flt \<Rightarrow> flt \<Rightarrow> price_point" where
  "demo_quote yes no =
     \<lparr> pp_platform = ''forecastex'', pp_canonical_id = ''A'', pp_yes_price = yes, pp_no_price = no, pp_yes_volume = 1,
       pp_no_volume = 1, pp_timestamp = 50, pp_raw_market_id = ''m'', pp_yes_market_id = ''y'', pp_no_market_id = ''n'',
       pp_yes_bid = 0, pp_yes_ask = yes, pp_no_bid = 0, pp_no_ask = no, pp_fee_rate = 0,
       pp_mapping_status = ''confirmed'', pp_mapping_score = 1, pp_metadata = [] \<rparr>"

definition demo_quoted_env :: auto_env where
  "demo_quoted_env = demo_auto_env
     \<lparr> ax_quote := Some (\<lambda>pl cid. Quote (demo_quote (2/5) (49/100))),
       ax_depth := (\<lambda>pl. Some (\<lambda>k market side n. Some (n \<le> 100, 1/2))), ax_gate_error := False \<rparr>"

lemma demo_preflight:
  "pre_flight_checks demo_quoted_env (default_auto_config\<lparr>ac_enabled := True\<rparr>) demo_early
     = Inr (preflight_quote 60 demo_early (demo_quote (2/5) (49/100)) (demo_quote (2/5) (49/100)) 10)"
proof -
  have env: "ax_quote demo_quoted_env = Some (\<lambda>pl cid. Quote (demo_quote (2/5) (49/100)))" "ax_now demo_quoted_env = 60"
    "ax_depth demo_quoted_env = (\<lambda>pl. Some (\<lambda>k market side n. Some (n \<le> 100, 1/2)))"
    by (simp_all add: demo_quoted_env_def demo_auto_env_def)
  have opp: "opp_yes_platform demo_early = ''forecastex''" "opp_no_platform demo_early = ''forecastex''"
    "opp_suggested_qty demo_early = 10"
    by (simp_all add: demo_early_def demo_opp_fields)
  have quote: "pp_yes_price (demo_quote a b) = a" "pp_no_price (demo_quote a b) = b" "pp_fee_rate (demo_quote a b) = 0"
    "age_seconds 60 (demo_quote a b) = 10" for a b
    by (simp_all add: demo_quote_def age_seconds_def)
  have fees: "fresh_fees demo_early (demo_quote (2/5) (49/100)) (demo_quote (2/5) (49/100)) 10 = 1/100"
    by (simp add: fresh_fees_def opp quote compute_fee_def forecastex_order_fee_def) code_simp
  have depth: "required_depth (default_auto_config\<lparr>ac_enabled := True\<rparr>) 10 (2/5) \<le> 100"
    "required_depth (default_auto_config\<lparr>ac_enabled := True\<rparr>) 10 (49/100) \<le> 100"
    by code_simp+
  have cfg: "ac_max_quote_age_s default_auto_config = 30"
    "edge_floor_for (default_auto_config\<lparr>ac_enabled := True\<rparr>) ''forecastex'' ''forecastex'' \<le> 10"
    by code_simp+
  have side: "side_depth demo_quoted_env (default_auto_config\<lparr>ac_enabled := True\<rparr>) pl m sd x 10 k = (k + 1, Absorbs 10)"
    if "required_depth (default_auto_config\<lparr>ac_enabled := True\<rparr>) 10 x \<le> 100" for pl m sd x k
    using that by (simp add: side_depth_def env Let_def)
  show ?thesis
    using cfg(2) by (simp add: pre_flight_checks_def env quote opp Let_def fees cfg(1) pre_flight_depth_def side depth)
qed

lemma demo_quoted_calls:
  "\<exists>ae' lv' q. consider_opportunity demo_quoted_env (demo_live_env ad) demo_early demo_auto demo_live = (ae', lv', Some q)"
proof -
  let ?q = "preflight_quote 60 demo_early (demo_quote (2/5) (49/100)) (demo_quote (2/5) (49/100)) 10"
  have armed: "\<not> is_armed (en_safety (lv_engine demo_live))"
    by (simp add: demo_live_def new_engine_def new_supervisor_def initial_safety_state_def is_armed_def)
  have cap: "clamp_to_cap (default_auto_config\<lparr>ac_enabled := True\<rparr>) demo_early = Some demo_early"
    by (simp add: clamp_to_cap_def estimate_notional_def demo_early_def demo_opp_fields default_auto_config_def)
  have policy: "policy_gates demo_quoted_env (default_auto_config\<lparr>ac_enabled := True\<rparr>) False demo_early
     = Inr \<lparr> am_allow_auto_trade = True, am_status = ''confirmed'',
        am_forecastex_not_available = False, am_forecastex_contract_id = ''7'' \<rparr>"
    by (simp add: policy_gates_def demo_quoted_env_def demo_auto_env_def demo_early_def demo_opp_def
        default_auto_config_def forecastex_refused_def bad_conid_def suspicious_edge_def py_strip_def py_lower_def
        lower_char_def Let_def py_space_def)
  have open_gate: "\<not> gate_denies demo_quoted_env (demo_live_env ad) ?q demo_live"
    by (simp add: gate_denies_def demo_quoted_env_def demo_live_env_def demo_exec_env_def chained_gate_def allow_execution_def)
      (use armed in \<open>simp add: is_armed_def\<close>)
  have env: "ax_now demo_quoted_env = 60" "ac_bootstrap_trades default_auto_config = None"
    by (simp_all add: demo_quoted_env_def demo_auto_env_def default_auto_config_def)
  have new: "ae_config demo_auto = default_auto_config\<lparr>ac_enabled := True\<rparr>" "ae_tracker demo_auto = None"
    "ae_failed_cooldown demo_auto = []" "ae_seen_dedup_keys demo_auto = []"
    by (simp_all add: demo_auto_def new_auto_executor_def)
  show ?thesis
    by (simp add: consider_opportunity_def Let_def new armed policy dget_def tracker_blocks_def
        sized_execution_def cap demo_preflight env gated_execution_def open_gate case_prod_unfold)
qed

theorem auto_executes_within_policy_witness:
  "\<exists>ae' lv' q. consider_opportunity demo_quoted_env (demo_live_env (demo_adapter True)) demo_early demo_auto demo_live
     = (ae', lv', Some q)
   \<and> within_policy demo_quoted_env (demo_live_env (demo_adapter True)) demo_auto demo_live demo_early q"
proof -
  obtain ae' lv' q where c: "consider_opportunity demo_quoted_env (demo_live_env (demo_adapter True)) demo_early
      demo_auto demo_live = (ae', lv', Some q)" using demo_quoted_calls by blast
  have "0 < opp_yes_price demo_early" "0 < opp_no_price demo_early" "ax_quote demo_quoted_env \<noteq> None"
    "\<not> ax_gate_error demo_quoted_env"
    by (simp_all add: demo_early_def demo_opp_fields demo_quoted_env_def)
  with auto_executes_within_policy[OF c] c show ?thesis by auto
qed

theorem failed_market_backs_off_witness:
  "\<exists>ae1 lv1. consider_opportunity demo_auto_env (demo_live_env (demo_adapter True)) demo_early demo_auto demo_live
     = (ae1, lv1, Some demo_early)
   \<and> (\<forall>q \<in> set (snd (snd (auto_run [(demo_auto_env\<lparr>ax_now := 359\<rparr>, demo_live_env (demo_adapter True), demo_opp)]
        ae1 lv1))). opp_canonical_id q \<noteq> ''A'')"
proof -
  let ?steps = "[(demo_auto_env\<lparr>ax_now := 359\<rparr>, demo_live_env (demo_adapter True), demo_opp)]"
  obtain ae1 lv1 where c: "consider_opportunity demo_auto_env (demo_live_env (demo_adapter True)) demo_early
      demo_auto demo_live = (ae1, lv1, Some demo_early)" using demo_auto_calls by blast
  obtain ae2 lv2 calls where r: "auto_run ?steps ae1 lv1 = (ae2, lv2, calls)" by (metis surj_pair)
  have block: "answer_block demo_auto (engine_answer_of (snd (execute_whole (demo_live_env (demo_adapter True))
      demo_early demo_live))) = Some 300" by (simp add: demo_early_stays answer_block_def)
  have early: "\<forall>(env', lenv', p') \<in> set ?steps. ax_now env' < ax_now demo_auto_env + 300"
    by (simp add: demo_auto_env_def)
  from failed_market_backs_off[OF c block early r] c r show ?thesis
    by (auto simp: demo_early_def demo_opp_fields)
qed

section \<open>What the checks do not cover\<close>

text \<open>An engine that raises, as after a naked round trip, leaves no cool-down behind.\<close>

lemma raised_leaves_no_cooldown:
  "ae_failed_cooldown (after_engine now cid EngineRaised ae) = ae_failed_cooldown ae
   \<and> ae_loss_streak (after_engine now cid EngineRaised ae) = ae_loss_streak ae"
  by (simp add: after_engine_def count_failure_def)

text \<open>
  With adaptive sizing the floor of the depth in dollars does not reject: a book that only confirms one
  contract passes with one.
\<close>

lemma depth_floor_adapts:
  assumes "ac_liquidity_adaptive_sizing c" "ax_depth env pl = Some (\<lambda>k m sd n. Some (n \<le> 1, x))"
    and "1 < required_depth c qty price"
  shows "snd (side_depth env c pl market side price qty k) = Absorbs 1"
proof -
  have "snd (halve_depth (\<lambda>k m sd n. Some (n \<le> 1, x)) market side n j) = Absorbs 1" if "1 \<le> n" for n j
    using that
  proof (induction "nat n" arbitrary: n j rule: less_induct)
    case less
    show ?case
    proof (cases "n = 1")
      case True
      then show ?thesis by (simp add: halve_depth.simps)
    next
      case False
      with less show ?thesis by (subst halve_depth.simps) simp
    qed
  qed
  with assms show ?thesis by (simp add: side_depth_def Let_def)
qed

end
