(* ===== verification/Parsing.thy ===== *)
theory Parsing
  imports Prelude
begin

text \<open>
  How Python reads numbers from text, and the values that \<open>json.loads\<close> makes of an answer of a venue.
  The texts \<open>nan\<close> and \<open>inf\<close>, which \<open>float\<close> accepts, are not modelled; a JSON number is exact.
\<close>

section \<open>Numbers in text\<close>

text \<open>\<open>int(s)\<close> of a text: stripped, an optional sign, digits with single underscores between them.\<close>

definition digit_value :: "char \<Rightarrow> int option" where
  "digit_value c = (let n = (of_char c :: int) in if 48 \<le> n \<and> n \<le> 57 then Some (n - 48) else None)"

fun int_digits :: "int \<Rightarrow> bool \<Rightarrow> string \<Rightarrow> int option" where
  "int_digits acc ok [] = (if ok then Some acc else None)"
| "int_digits acc ok (c # cs) =
     (case digit_value c of
        Some d \<Rightarrow> int_digits (acc * 10 + d) True cs
      | None \<Rightarrow> if c = CHR ''_'' \<and> ok then int_digits acc False cs else None)"

definition int_of_text :: "string \<Rightarrow> int option" where
  "int_of_text s =
     (case py_strip s of
        [] \<Rightarrow> None
      | c # cs \<Rightarrow> if c = CHR ''-'' then map_option uminus (int_digits 0 False cs)
                  else if c = CHR ''+'' then int_digits 0 False cs
                  else int_digits 0 False (c # cs))"

text \<open>
  \<open>float(s)\<close> of a text: stripped, an optional sign, digits with at most one point between or around
  them, an optional exponent.  \<open>scan_digits\<close> reads digits with single underscores between them and
  returns their value, their number and the rest.
\<close>

fun scan_digits :: "int \<Rightarrow> nat \<Rightarrow> string \<Rightarrow> int \<times> nat \<times> string" where
  "scan_digits acc n [] = (acc, n, [])"
| "scan_digits acc n (c # cs) =
     (case digit_value c of
        Some d \<Rightarrow> scan_digits (acc * 10 + d) (n + 1) cs
      | None \<Rightarrow>
          (case cs of
             d # ds \<Rightarrow> if c = CHR ''_'' \<and> 0 < n \<and> digit_value d \<noteq> None then scan_digits acc n cs
                       else (acc, n, c # cs)
           | [] \<Rightarrow> (acc, n, [c])))"

definition scan_sign :: "string \<Rightarrow> int \<times> string" where
  "scan_sign s =
     (case s of c # cs \<Rightarrow> if c = CHR ''-'' then (-1, cs) else if c = CHR ''+'' then (1, cs) else (1, s)
      | [] \<Rightarrow> (1, s))"

definition scan_exponent :: "string \<Rightarrow> flt option" where
  "scan_exponent s =
     (case s of
        [] \<Rightarrow> Some 1
      | c # cs \<Rightarrow>
          if c = CHR ''e'' \<or> c = CHR ''E''
          then let (sgn, t) = scan_sign cs; (k, n, rest) = scan_digits 0 0 t
               in if n = 0 \<or> rest \<noteq> [] then None
                  else Some (if sgn < 0 then 1 / 10 ^ nat k else 10 ^ nat k)
          else None)"

definition float_of_text :: "string \<Rightarrow> flt option" where
  "float_of_text s =
     (let (sgn, t) = scan_sign (py_strip s); (i, n, rest) = scan_digits 0 0 t;
          (f, m, rest') = (case rest of c # cs \<Rightarrow> if c = CHR ''.'' then scan_digits 0 0 cs else (0, 0, rest)
                           | [] \<Rightarrow> (0, 0, []))
      in if n + m = 0 then None
         else map_option (\<lambda>e. of_int sgn * (of_int i + of_int f / 10 ^ m) * e) (scan_exponent rest'))"

section \<open>JSON\<close>

datatype json = JNull | JBool bool | JNum flt | JStr string | JArr "json list" | JObj "(string \<times> json) list"

definition truthy :: "json \<Rightarrow> bool" where
  "truthy j = (case j of JNull \<Rightarrow> False | JBool b \<Rightarrow> b | JNum x \<Rightarrow> x \<noteq> 0 | JStr s \<Rightarrow> s \<noteq> []
     | JArr xs \<Rightarrow> xs \<noteq> [] | JObj d \<Rightarrow> d \<noteq> [])"

definition or_json :: "json \<Rightarrow> json \<Rightarrow> json" where
  "or_json a b = (if truthy a then a else b)"

text \<open>\<open>d.get(k)\<close>, \<open>d.get(k, v)\<close>, and \<open>float(v)\<close> (\<open>None\<close>: an exception).\<close>

definition jget :: "(string \<times> json) list \<Rightarrow> string \<Rightarrow> json" where
  "jget d k = dget d k JNull"

definition json_float :: "json \<Rightarrow> flt option" where
  "json_float j = (case j of JNum x \<Rightarrow> Some x | JBool b \<Rightarrow> Some (if b then 1 else 0)
     | JStr s \<Rightarrow> float_of_text s | _ \<Rightarrow> None)"

text \<open>\<open>str(v)\<close>; a number and a nested value are shown as \<open>{}\<close>.\<close>

definition json_text :: "json \<Rightarrow> string" where
  "json_text j = (case j of JStr s \<Rightarrow> s | JNull \<Rightarrow> ''None'' | JBool b \<Rightarrow> (if b then ''True'' else ''False'')
     | _ \<Rightarrow> ''{}'')"

text \<open>A value that cannot be the key of a dict.\<close>

definition unhashable :: "json \<Rightarrow> bool" where
  "unhashable j = (case j of JArr xs \<Rightarrow> True | JObj d \<Rightarrow> True | _ \<Rightarrow> False)"

lemma float_of_text_examples:
  "float_of_text ''0.42'' = Some (42/100)" "float_of_text '' -1.5e2 '' = Some (-150)"
  "float_of_text ''10.00'' = Some 10" "float_of_text ''.5'' = Some (1/2)" "float_of_text ''1.'' = Some 1"
  "float_of_text ''1_000'' = Some 1000" "float_of_text ''1__0'' = None" "float_of_text ''.'' = None"
  "float_of_text ''12a'' = None" "float_of_text [] = None" "float_of_text ''1e'' = None"
  by code_simp+

end
