(* ===== verification/Profitability.thy ===== *)
theory Profitability
  imports Parsing Engine Scanner "HOL-Library.Multiset"
begin

text \<open>
  \<open>ProfitabilityValidator\<close> of \<open>arbiter/profitability/validator.py\<close>, with
  \<open>effective_critical_incident_count\<close> of \<open>arbiter/execution/incidents.py\<close>: the verdict on the runtime as
  a whole, on each venue and on each venue pair, from what the scanner and the engine have recorded.
\<close>

section \<open>Incidents that count\<close>

text \<open>\<open>max(1, int(metadata.get("count") or 1))\<close>, 1 when the value is no number.\<close>

definition summary_count :: "meta_value option \<Rightarrow> int" where
  "summary_count v =
     (case v of
        Some (MInt n) \<Rightarrow> max 1 (if n = 0 then 1 else n)
      | Some (MNum x) \<Rightarrow> max 1 (if x = 0 then 1 else py_int x)
      | Some (MText s) \<Rightarrow> (if s = [] then 1 else case int_of_text s of Some n \<Rightarrow> max 1 n | None \<Rightarrow> 1)
      | _ \<Rightarrow> 1)"

definition meta_text :: "string \<Rightarrow> incident \<Rightarrow> string" where
  "meta_text k i = (case map_of (inc_metadata i) k of Some (MText s) \<Rightarrow> s | _ \<Rightarrow> [])"

definition is_critical :: "incident \<Rightarrow> bool" where
  "is_critical i = (py_lower (inc_severity i) = ''critical'')"

definition effective_critical_incident_count :: "incident list \<Rightarrow> int" where
  "effective_critical_incident_count is =
     sum_list (map (\<lambda>i. if py_lower (meta_text ''event_type'' i) = ''half_recorded_arb_summary''
                         then summary_count (map_of (inc_metadata i) ''count'') else 1)
                (filter is_critical is))"

section \<open>Configuration\<close>

record profit_config =
  pc_evaluation_interval :: flt
  pc_min_scan_count :: int
  pc_min_published_opportunities :: int
  pc_min_completed_executions :: int
  pc_min_total_realized_pnl :: flt
  pc_min_average_realized_pnl :: flt
  pc_min_average_edge_cents :: flt
  pc_min_profitable_execution_ratio :: flt
  pc_min_total_by_scope :: "(string, flt) dict"
  pc_min_average_by_scope :: "(string, flt) dict"
  pc_min_ratio_by_scope :: "(string, flt) dict"
  pc_min_audit_pass_rate :: flt
  pc_max_incident_rate :: flt
  pc_max_critical_incidents :: int

definition default_profit_config :: profit_config where
  "default_profit_config =
     \<lparr> pc_evaluation_interval = 5, pc_min_scan_count = 250, pc_min_published_opportunities = 25,
       pc_min_completed_executions = 10, pc_min_total_realized_pnl = 5,
       pc_min_average_realized_pnl = 1/4, pc_min_average_edge_cents = 3,
       pc_min_profitable_execution_ratio = 65/100, pc_min_total_by_scope = [],
       pc_min_average_by_scope = [], pc_min_ratio_by_scope = [], pc_min_audit_pass_rate = 995/1000,
       pc_max_incident_rate = 15/100, pc_max_critical_incidents = 0 \<rparr>"

definition relaxed :: "flt \<Rightarrow> (string, flt) dict \<Rightarrow> string \<Rightarrow> flt" where
  "relaxed global overrides key =
     (case map_of overrides (py_lower key) of None \<Rightarrow> global | Some x \<Rightarrow> min global x)"

definition effective_min_total :: "profit_config \<Rightarrow> string \<Rightarrow> flt" where
  "effective_min_total c = relaxed (pc_min_total_realized_pnl c) (pc_min_total_by_scope c)"

definition effective_min_average :: "profit_config \<Rightarrow> string \<Rightarrow> flt" where
  "effective_min_average c = relaxed (pc_min_average_realized_pnl c) (pc_min_average_by_scope c)"

definition effective_min_ratio :: "profit_config \<Rightarrow> string \<Rightarrow> flt" where
  "effective_min_ratio c = relaxed (pc_min_profitable_execution_ratio c) (pc_min_ratio_by_scope c)"

section \<open>Verdict\<close>

datatype verdict = VBlocked | VCollecting | VNotProfitable | VValidated

definition verdict_text :: "verdict \<Rightarrow> string" where
  "verdict_text v = (case v of VBlocked \<Rightarrow> ''blocked'' | VCollecting \<Rightarrow> ''collecting_evidence''
     | VNotProfitable \<Rightarrow> ''not_profitable'' | VValidated \<Rightarrow> ''validated_profitable'')"

definition terminal_verdict :: "verdict \<Rightarrow> bool" where
  "terminal_verdict v = (v \<in> {VValidated, VNotProfitable, VBlocked})"

text \<open>The keyword arguments \<open>_resolve_verdict\<close>, \<open>_build_reasons\<close> and \<open>_compute_progress\<close> share.\<close>

record evidence =
  ev_scan_count :: int
  ev_published :: int
  ev_completed :: int
  ev_total_pnl :: flt
  ev_average_pnl :: flt
  ev_average_edge :: flt
  ev_ratio :: flt
  ev_audit_pass_rate :: flt
  ev_incident_rate :: flt
  ev_critical :: int

record pnl_floors =
  pf_total :: flt
  pf_average :: flt
  pf_ratio :: flt

text \<open>The floors in force: the overrides of a scope, or those of the configuration.\<close>

definition floors_of :: "profit_config \<Rightarrow> pnl_floors option \<Rightarrow> pnl_floors" where
  "floors_of c override =
     (case override of
        Some f \<Rightarrow> f
      | None \<Rightarrow> \<lparr> pf_total = pc_min_total_realized_pnl c, pf_average = pc_min_average_realized_pnl c,
                  pf_ratio = pc_min_profitable_execution_ratio c \<rparr>)"

definition resolve_verdict :: "profit_config \<Rightarrow> pnl_floors option \<Rightarrow> evidence \<Rightarrow> verdict" where
  "resolve_verdict c override e =
     (let f = floors_of c override
      in if ev_audit_pass_rate e < pc_min_audit_pass_rate c
            \<or> pc_max_critical_incidents c < ev_critical e then VBlocked
         else if ev_scan_count e < pc_min_scan_count c
            \<or> ev_published e < pc_min_published_opportunities c
            \<or> ev_completed e < pc_min_completed_executions c then VCollecting
         else if ev_total_pnl e < pf_total f \<or> ev_average_pnl e < pf_average f
            \<or> ev_average_edge e < pc_min_average_edge_cents c \<or> ev_ratio e < pf_ratio f
            \<or> pc_max_incident_rate c < ev_incident_rate e then VNotProfitable
         else VValidated)"

definition note_if :: "bool \<Rightarrow> string \<Rightarrow> flt list \<Rightarrow> message list" where
  "note_if b text xs = (if b then [(text, xs)] else [])"

definition all_satisfied :: message where
  "all_satisfied = (''All profitability gates are currently satisfied'', [])"

definition failed_gates :: "profit_config \<Rightarrow> pnl_floors option \<Rightarrow> evidence \<Rightarrow> message list" where
  "failed_gates c override e =
     (let f = floors_of c override; enough = pc_min_completed_executions c \<le> ev_completed e
      in note_if (ev_audit_pass_rate e < pc_min_audit_pass_rate c)
              ''Audit pass rate {} is below the required {}''
              [ev_audit_pass_rate e, pc_min_audit_pass_rate c]
          @ note_if (pc_max_critical_incidents c < ev_critical e)
              ''Critical incidents {} exceed the allowed {}''
              [of_int (ev_critical e), of_int (pc_max_critical_incidents c)]
          @ note_if (ev_scan_count e < pc_min_scan_count c)
              ''Need {} more scans before profitability can be determined''
              [of_int (pc_min_scan_count c - ev_scan_count e)]
          @ note_if (ev_published e < pc_min_published_opportunities c)
              ''Need {} more published opportunities''
              [of_int (pc_min_published_opportunities c - ev_published e)]
          @ note_if (\<not> enough) ''Need {} more completed executions''
              [of_int (pc_min_completed_executions c - ev_completed e)]
          @ note_if (enough \<and> ev_total_pnl e < pf_total f)
              ''Total realized P&L ${} is below the required ${}'' [ev_total_pnl e, pf_total f]
          @ note_if (enough \<and> ev_average_pnl e < pf_average f)
              ''Average realized P&L ${} is below the required ${}'' [ev_average_pnl e, pf_average f]
          @ note_if (enough \<and> ev_average_edge e < pc_min_average_edge_cents c)
              ''Average edge {} is below the required {}''
              [ev_average_edge e, pc_min_average_edge_cents c]
          @ note_if (enough \<and> ev_ratio e < pf_ratio f)
              ''Profitable execution ratio {} is below the required {}'' [ev_ratio e, pf_ratio f]
          @ note_if (enough \<and> pc_max_incident_rate c < ev_incident_rate e)
              ''Incident rate {} exceeds the allowed {}'' [ev_incident_rate e, pc_max_incident_rate c])"

definition build_reasons :: "profit_config \<Rightarrow> pnl_floors option \<Rightarrow> evidence \<Rightarrow> message list" where
  "build_reasons c override e =
     (let reasons = failed_gates c override e in if reasons = [] then [all_satisfied] else reasons)"

definition progress_ratio :: "flt \<Rightarrow> flt \<Rightarrow> flt" where
  "progress_ratio value threshold =
     (if threshold \<le> 0 then 1 else if value \<le> 0 then 0 else max 0 (min (value / threshold) 1))"

definition inverse_ratio :: "flt \<Rightarrow> flt \<Rightarrow> flt" where
  "inverse_ratio value limit =
     (if limit \<le> 0 then if value \<le> 0 then 1 else 0
      else if value \<le> 0 then 1 else if limit \<le> value then 0 else max 0 (min (1 - value / limit) 1))"

definition mean_of :: "flt list \<Rightarrow> flt" where
  "mean_of xs = sum_list xs / of_nat (length xs)"

definition compute_progress :: "profit_config \<Rightarrow> evidence \<Rightarrow> flt" where
  "compute_progress c e =
     max 0 (min (mean_of
       [progress_ratio (of_int (ev_scan_count e)) (of_int (pc_min_scan_count c)),
        progress_ratio (of_int (ev_published e)) (of_int (pc_min_published_opportunities c)),
        progress_ratio (of_int (ev_completed e)) (of_int (pc_min_completed_executions c)),
        progress_ratio (ev_total_pnl e) (pc_min_total_realized_pnl c),
        progress_ratio (ev_average_pnl e) (pc_min_average_realized_pnl c),
        progress_ratio (ev_average_edge e) (pc_min_average_edge_cents c),
        progress_ratio (ev_ratio e) (pc_min_profitable_execution_ratio c),
        inverse_ratio (ev_incident_rate e) (pc_max_incident_rate c),
        inverse_ratio (of_int (ev_critical e)) (of_int (pc_max_critical_incidents c)),
        progress_ratio (ev_audit_pass_rate e) (pc_min_audit_pass_rate c)]) 1)"

section \<open>Scopes\<close>

definition completed_statuses :: "string list" where
  "completed_statuses = [''simulated'', ''filled'', ''manual_closed'']"

definition completed_executions :: "arb_execution list \<Rightarrow> arb_execution list" where
  "completed_executions exs =
     filter (\<lambda>x. ex_status x \<in> set completed_statuses \<or> ex_realized_pnl x \<noteq> 0) exs"

definition mean_or_zero :: "flt list \<Rightarrow> flt" where
  "mean_or_zero xs = (if xs = [] then 0 else mean_of xs)"

definition exec_edge :: "arb_execution \<Rightarrow> flt" where
  "exec_edge x = opp_net_edge_cents (ex_opportunity x)"

definition total_arb_pnl :: "arb_execution list \<Rightarrow> flt" where
  "total_arb_pnl exs = sum_list (map arb_pnl exs)"

definition profitable_ones :: "arb_execution list \<Rightarrow> arb_execution list" where
  "profitable_ones exs = filter (\<lambda>x. 0 < arb_pnl x) exs"

text \<open>A share of the number of executions, 0 when there is none.\<close>

definition per_execution :: "flt \<Rightarrow> arb_execution list \<Rightarrow> flt" where
  "per_execution x exs = (if exs = [] then 0 else x / of_nat (length exs))"

fun join_texts :: "string \<Rightarrow> string list \<Rightarrow> string" where
  "join_texts sep [] = []"
| "join_texts sep [s] = s"
| "join_texts sep (s # t # ts) = s @ sep @ join_texts sep (t # ts)"

definition venues :: "string list \<Rightarrow> string list" where
  "venues ps = sort (remdups (filter (\<lambda>s. s \<noteq> []) (map py_lower ps)))"

definition scope_pair_key :: "string list \<Rightarrow> string" where
  "scope_pair_key ps = join_texts ''_'' (venues ps)"

datatype scope = PlatformScope | PairScope

definition opp_venues :: "opportunity \<Rightarrow> string list" where
  "opp_venues p = [opp_yes_platform p, opp_no_platform p]"

definition scope_keys :: "scope \<Rightarrow> arb_execution \<Rightarrow> string list" where
  "scope_keys sc x =
     (let p = ex_opportunity x
      in case sc of
           PlatformScope \<Rightarrow> venues (opp_venues p)
         | PairScope \<Rightarrow> if opp_yes_platform p = [] \<or> opp_no_platform p = [] then []
                        else [scope_pair_key (opp_venues p)])"

definition group_add :: "arb_execution \<Rightarrow> string \<Rightarrow> (string, arb_execution list) dict
    \<Rightarrow> (string, arb_execution list) dict" where
  "group_add x k g = AList.update k (dget g k [] @ [x]) g"

definition grouped :: "scope \<Rightarrow> arb_execution list \<Rightarrow> (string, arb_execution list) dict" where
  "grouped sc exs = fold (\<lambda>x g. fold (group_add x) (scope_keys sc x) g) exs []"

record scope_score =
  ss_key :: string
  ss_verdict :: verdict
  ss_reasons :: "message list"
  ss_completed :: nat
  ss_profitable :: nat
  ss_losing :: nat
  ss_breakeven :: nat
  ss_total_arb_pnl :: flt
  ss_average_arb_pnl :: flt
  ss_average_edge_cents :: flt
  ss_profitable_ratio :: flt

definition scope_evidence :: "profit_config \<Rightarrow> arb_execution list \<Rightarrow> evidence" where
  "scope_evidence c exs =
     \<lparr> ev_scan_count = pc_min_scan_count c, ev_published = pc_min_published_opportunities c,
       ev_completed = int (length exs), ev_total_pnl = total_arb_pnl exs,
       ev_average_pnl = per_execution (total_arb_pnl exs) exs,
       ev_average_edge = mean_or_zero (map exec_edge exs),
       ev_ratio = per_execution (of_nat (length (profitable_ones exs))) exs,
       ev_audit_pass_rate = 1, ev_incident_rate = 0, ev_critical = 0 \<rparr>"

definition scope_floors :: "profit_config \<Rightarrow> string \<Rightarrow> pnl_floors" where
  "scope_floors c key = \<lparr> pf_total = effective_min_total c key, pf_average = effective_min_average c key,
                          pf_ratio = effective_min_ratio c key \<rparr>"

definition score_execution_scope :: "profit_config \<Rightarrow> string \<Rightarrow> arb_execution list \<Rightarrow> scope_score" where
  "score_execution_scope c key exs =
     (let e = scope_evidence c exs; f = Some (scope_floors c key)
      in \<lparr> ss_key = key, ss_verdict = resolve_verdict c f e, ss_reasons = build_reasons c f e,
           ss_completed = length exs, ss_profitable = length (profitable_ones exs),
           ss_losing = length (filter (\<lambda>x. arb_pnl x < 0) exs),
           ss_breakeven = length (filter (\<lambda>x. arb_pnl x = 0) exs),
           ss_total_arb_pnl = round_nd 4 (ev_total_pnl e),
           ss_average_arb_pnl = round_nd 4 (ev_average_pnl e),
           ss_average_edge_cents = round_nd 4 (ev_average_edge e),
           ss_profitable_ratio = round_nd 4 (ev_ratio e) \<rparr>)"

definition build_scope_profitability ::
  "profit_config \<Rightarrow> scope \<Rightarrow> arb_execution list \<Rightarrow> (string, scope_score) dict" where
  "build_scope_profitability c sc exs =
     map (\<lambda>(k, xs). (k, score_execution_scope c k xs)) (sort_key fst (grouped sc exs))"

section \<open>The validator\<close>

record profit_snapshot =
  ps_timestamp :: flt
  ps_runtime_seconds :: flt
  ps_verdict :: verdict
  ps_progress :: flt
  ps_reasons :: "message list"
  ps_evidence :: evidence
  ps_active_opportunities :: nat
  ps_profitable :: nat
  ps_losing :: nat
  ps_breakeven :: nat
  ps_best_edge_cents :: flt
  ps_incident_count :: nat
  ps_platforms :: "(string, scope_score) dict"
  ps_pairs :: "(string, scope_score) dict"

record validator_entry =
  ve_timestamp :: flt
  ve_verdict :: verdict
  ve_progress :: flt
  ve_total_realized_pnl :: flt
  ve_completed_executions :: int
  ve_published_opportunities :: int

record validator =
  pv_config :: profit_config
  pv_started_at :: flt
  pv_last_snapshot :: "profit_snapshot option"
  pv_history :: "validator_entry list"
  pv_determined :: bool

definition gate_blocked_text :: string where
  "gate_blocked_text = ''Trade gate blocked execution:''"

text \<open>The incidents the verdict looks at.\<close>

definition active_incidents :: "incident list \<Rightarrow> incident list" where
  "active_incidents is =
     filter (\<lambda>i. py_lower (inc_status i) \<noteq> ''resolved'' \<and> py_lower (inc_severity i) \<noteq> ''info''
                 \<and> \<not> contains gate_blocked_text (fst (inc_message i))) is"

definition best_edge :: "flt list \<Rightarrow> flt" where
  "best_edge xs = (case xs of [] \<Rightarrow> 0 | y # ys \<Rightarrow> fold max ys y)"

definition incident_rate_of :: "engine \<Rightarrow> incident list \<Rightarrow> flt" where
  "incident_rate_of en is =
     (let stats = engine_stats_of en;
          evaluations = max (int (est_total_executions stats)) 0 + max (est_aborted stats) 0
      in if 0 < evaluations then of_nat (length is) / of_int evaluations
         else if is = [] then 0 else 1)"

definition runtime_evidence :: "scanner \<Rightarrow> engine \<Rightarrow> evidence" where
  "runtime_evidence sc en =
     (let closed = completed_executions (en_executions en); is = active_incidents (en_incidents en);
          stats = scanner_stats_of sc
      in \<lparr> ev_scan_count = st_scan_count stats, ev_published = st_published stats,
           ev_completed = int (length closed), ev_total_pnl = total_arb_pnl closed,
           ev_average_pnl = per_execution (total_arb_pnl closed) closed,
           ev_average_edge = mean_or_zero (map exec_edge closed),
           ev_ratio = per_execution (of_nat (length (profitable_ones closed))) closed,
           ev_audit_pass_rate = as_pass_rate (auditor_stats_of (en_auditor en)),
           ev_incident_rate = incident_rate_of en is,
           ev_critical = effective_critical_incident_count is \<rparr>)"

definition profit_snapshot_of :: "flt \<Rightarrow> scanner \<Rightarrow> engine \<Rightarrow> validator \<Rightarrow> profit_snapshot" where
  "profit_snapshot_of now sc en v =
     (let c = pv_config v; e = runtime_evidence sc en; closed = completed_executions (en_executions en)
      in \<lparr> ps_timestamp = now, ps_runtime_seconds = max (now - pv_started_at v) 0,
           ps_verdict = resolve_verdict c None e, ps_progress = compute_progress c e,
           ps_reasons = build_reasons c None e, ps_evidence = e,
           ps_active_opportunities = st_active_opportunities (scanner_stats_of sc),
           ps_profitable = length (profitable_ones closed),
           ps_losing = length (filter (\<lambda>x. arb_pnl x < 0) closed),
           ps_breakeven = length (filter (\<lambda>x. arb_pnl x = 0) closed),
           ps_best_edge_cents = best_edge (map opp_net_edge_cents (sc_opportunities sc)
                                           @ map exec_edge closed),
           ps_incident_count = length (active_incidents (en_incidents en)),
           ps_platforms = build_scope_profitability c PlatformScope closed,
           ps_pairs = build_scope_profitability c PairScope closed \<rparr>)"

definition pv_refresh :: "flt \<Rightarrow> scanner \<Rightarrow> engine \<Rightarrow> validator \<Rightarrow> validator \<times> profit_snapshot" where
  "pv_refresh now sc en v =
     (let s = profit_snapshot_of now sc en v;
          entry = \<lparr> ve_timestamp = now, ve_verdict = ps_verdict s,
                    ve_progress = round_nd 4 (ps_progress s),
                    ve_total_realized_pnl = round_nd 4 (ev_total_pnl (ps_evidence s)),
                    ve_completed_executions = ev_completed (ps_evidence s),
                    ve_published_opportunities = ev_published (ps_evidence s) \<rparr>
      in (v\<lparr>pv_last_snapshot := Some s, pv_history := deque_append 240 (pv_history v) entry,
            pv_determined := pv_determined v \<or> terminal_verdict (ps_verdict s)\<rparr>, s))"

definition new_validator :: "profit_config \<Rightarrow> flt \<Rightarrow> scanner \<Rightarrow> engine \<Rightarrow> validator" where
  "new_validator c now sc en =
     fst (pv_refresh now sc en \<lparr> pv_config = c, pv_started_at = now, pv_last_snapshot = None,
                                 pv_history = [], pv_determined = False \<rparr>)"

definition pv_get_snapshot ::
  "flt \<Rightarrow> scanner \<Rightarrow> engine \<Rightarrow> validator \<Rightarrow> validator \<times> profit_snapshot" where
  "pv_get_snapshot now sc en v =
     (case pv_last_snapshot v of Some s \<Rightarrow> (v, s) | None \<Rightarrow> pv_refresh now sc en v)"

datatype scope_answer =
  ScopeOk | NoPlatformEvidence string | PlatformVerdict string verdict
  | NoPairEvidence string | PairVerdict string verdict

fun check_platforms :: "(string, scope_score) dict \<Rightarrow> string list \<Rightarrow> scope_answer" where
  "check_platforms scores [] = ScopeOk"
| "check_platforms scores (k # ks) =
     (case map_of scores k of
        None \<Rightarrow> NoPlatformEvidence k
      | Some s \<Rightarrow> if ss_verdict s \<noteq> VValidated then PlatformVerdict k (ss_verdict s)
                   else check_platforms scores ks)"

definition validate_opportunity_scope :: "profit_snapshot \<Rightarrow> opportunity \<Rightarrow> scope_answer" where
  "validate_opportunity_scope s p =
     (let platforms = venues (opp_venues p); k = scope_pair_key platforms
      in case check_platforms (ps_platforms s) platforms of
           ScopeOk \<Rightarrow>
             (case map_of (ps_pairs s) k of
                None \<Rightarrow> NoPairEvidence k
              | Some t \<Rightarrow> if ss_verdict t \<noteq> VValidated then PairVerdict k (ss_verdict t) else ScopeOk)
         | denied \<Rightarrow> denied)"

section \<open>Verdict and reasons\<close>

lemma note_if_Nil [simp]: "note_if b t xs = [] \<longleftrightarrow> \<not> b"
  by (simp add: note_if_def)

lemma note_if_mem: "m \<in> set (note_if b t xs) \<longleftrightarrow> b \<and> m = (t, xs)"
  by (auto simp: note_if_def)

lemma verdict_validated:
  "resolve_verdict c override e = VValidated \<longleftrightarrow>
     \<not> (ev_audit_pass_rate e < pc_min_audit_pass_rate c \<or> pc_max_critical_incidents c < ev_critical e)
     \<and> \<not> (ev_scan_count e < pc_min_scan_count c \<or> ev_published e < pc_min_published_opportunities c
          \<or> \<not> pc_min_completed_executions c \<le> ev_completed e)
     \<and> \<not> (ev_total_pnl e < pf_total (floors_of c override) \<or> ev_average_pnl e < pf_average (floors_of c override)
          \<or> ev_average_edge e < pc_min_average_edge_cents c \<or> ev_ratio e < pf_ratio (floors_of c override)
          \<or> pc_max_incident_rate c < ev_incident_rate e)"
  by (simp add: resolve_verdict_def Let_def not_le)

text \<open>
  The reasons the validator gives explain its verdict: it says that all gates are satisfied exactly
  when the verdict is validated, whatever overrides are in force.
\<close>

theorem reasons_explain_verdict:
  "build_reasons c override e = [all_satisfied] \<longleftrightarrow> resolve_verdict c override e = VValidated"
proof -
  have "all_satisfied \<notin> set (failed_gates c override e)"
    by (simp add: failed_gates_def Let_def note_if_mem all_satisfied_def)
  then have "build_reasons c override e = [all_satisfied] \<longleftrightarrow> failed_gates c override e = []"
    by (auto simp: build_reasons_def Let_def)
  also have "\<dots> \<longleftrightarrow> resolve_verdict c override e = VValidated"
    by (simp only: failed_gates_def Let_def append_is_Nil_conv note_if_Nil verdict_validated) argo
  finally show ?thesis .
qed

lemma progress_range: "0 \<le> compute_progress c e \<and> compute_progress c e \<le> 1"
  by (simp add: compute_progress_def)

section \<open>Evidence per scope\<close>

lemma relaxed_le: "relaxed g d k \<le> g"
  by (simp add: relaxed_def split: option.split)

lemma venues_distinct [simp]: "distinct (venues ps)"
  by (simp add: venues_def)

lemma venues_mem: "k \<in> set (venues ps) \<longleftrightarrow> k \<noteq> [] \<and> k \<in> py_lower ` set ps"
  by (auto simp: venues_def)

lemma scope_keys_distinct [simp]: "distinct (scope_keys sc x)"
  by (auto simp: scope_keys_def Let_def split: scope.split)

lemma group_fold:
  "distinct ks \<Longrightarrow> map_of (fold (group_add x) ks g) k
     = (if k \<in> set ks then Some (dget g k [] @ [x]) else map_of g k)"
  by (induction ks arbitrary: g) (auto simp: group_add_def update_conv')

lemma group_fold_ok: "dict_ok g \<Longrightarrow> dict_ok (fold (group_add x) ks g)"
  by (induction ks arbitrary: g) (auto simp: group_add_def)

definition scope_executions :: "scope \<Rightarrow> string \<Rightarrow> arb_execution list \<Rightarrow> arb_execution list" where
  "scope_executions sc k exs = filter (\<lambda>x. k \<in> set (scope_keys sc x)) exs"

lemma grouped_lookup:
  "dict_ok (grouped sc exs) \<and> map_of (grouped sc exs) k
     = (if scope_executions sc k exs = [] then None else Some (scope_executions sc k exs))"
proof (induction exs rule: rev_induct)
  case Nil
  then show ?case by (simp add: grouped_def scope_executions_def)
next
  case (snoc x exs)
  have g: "grouped sc (exs @ [x]) = fold (group_add x) (scope_keys sc x) (grouped sc exs)"
    by (simp add: grouped_def)
  from snoc have "dget (grouped sc exs) k [] = scope_executions sc k exs"
    by (simp add: dget_def)
  then have "map_of (grouped sc (exs @ [x])) k
      = (if k \<in> set (scope_keys sc x) then Some (scope_executions sc k exs @ [x]) else map_of (grouped sc exs) k)"
    by (simp add: g group_fold)
  moreover have "scope_executions sc k (exs @ [x])
      = (if k \<in> set (scope_keys sc x) then scope_executions sc k exs @ [x] else scope_executions sc k exs)"
    by (simp add: scope_executions_def)
  ultimately show ?case using snoc by (simp add: g group_fold_ok)
qed

lemma map_of_sort_key:
  assumes "distinct (map fst d)"
  shows "map_of (sort_key f d) = map_of d"
proof (rule map_of_inject_set[THEN iffD2])
  have "mset (map fst (sort_key f d)) = mset (map fst d)" by (simp only: mset_map mset_sort)
  with assms show "distinct (map fst (sort_key f d))" by (metis mset_eq_imp_distinct_iff)
qed (simp_all add: assms)

lemma scope_score_lookup:
  "map_of (build_scope_profitability c sc exs) k
     = (let xs = scope_executions sc k exs in if xs = [] then None else Some (score_execution_scope c k xs))"
proof -
  have scored: "map_of (map (\<lambda>(k, xs). (k, score_execution_scope c k xs)) d) k
      = map_option (score_execution_scope c k) (map_of d k)" for d
    by (induction d) auto
  from grouped_lookup[of sc exs k] show ?thesis
    by (simp add: build_scope_profitability_def Let_def scored map_of_sort_key dict_ok_def)
qed

text \<open>What a validated scope has shown.\<close>

definition scope_proven :: "profit_config \<Rightarrow> string \<Rightarrow> arb_execution list \<Rightarrow> bool" where
  "scope_proven c k xs =
     (xs \<noteq> [] \<and> pc_min_completed_executions c \<le> int (length xs)
      \<and> effective_min_total c k \<le> total_arb_pnl xs
      \<and> effective_min_average c k \<le> total_arb_pnl xs / of_nat (length xs)
      \<and> pc_min_average_edge_cents c \<le> mean_of (map exec_edge xs)
      \<and> effective_min_ratio c k \<le> of_nat (length (profitable_ones xs)) / of_nat (length xs))"

definition sane_profit_config :: "profit_config \<Rightarrow> bool" where
  "sane_profit_config c = (pc_min_audit_pass_rate c \<le> 1 \<and> 0 \<le> pc_max_critical_incidents c
     \<and> 0 \<le> pc_max_incident_rate c)"

lemma score_validated:
  assumes "sane_profit_config c" "xs \<noteq> []"
  shows "ss_verdict (score_execution_scope c k xs) = VValidated \<longleftrightarrow> scope_proven c k xs"
  using assms
  by (auto simp: score_execution_scope_def Let_def resolve_verdict_def scope_evidence_def floors_of_def
      scope_floors_def scope_proven_def sane_profit_config_def per_execution_def mean_or_zero_def
      not_less not_le)

lemma check_platforms_ok:
  "check_platforms scores ks = ScopeOk
     \<longleftrightarrow> (\<forall>k \<in> set ks. \<exists>s. map_of scores k = Some s \<and> ss_verdict s = VValidated)"
  by (induction ks) (auto split: option.split)

text \<open>The executions the gate wants to see for an opportunity: on each venue, and on the pair.\<close>

definition proven_for :: "profit_config \<Rightarrow> arb_execution list \<Rightarrow> opportunity \<Rightarrow> bool" where
  "proven_for c exs p =
     ((\<forall>k \<in> set (venues (opp_venues p)). scope_proven c k (scope_executions PlatformScope k exs))
      \<and> (let k = scope_pair_key (venues (opp_venues p))
         in scope_proven c k (scope_executions PairScope k exs)))"

text \<open>
  The per-opportunity profitability gate lets an opportunity through exactly when each of its
  venues and the pair have the required sample of completed executions with the required profit,
  average, edge and share of winners, as computed from the engine's history.
\<close>

lemma scope_gate_iff_proven:
  assumes "sane_profit_config (pv_config v)"
  shows "validate_opportunity_scope (profit_snapshot_of now sc en v) p = ScopeOk
     \<longleftrightarrow> proven_for (pv_config v) (completed_executions (en_executions en)) p"
proof -
  have scope: "(\<exists>t. map_of (build_scope_profitability (pv_config v) s exs) k = Some t \<and> ss_verdict t = VValidated)
      \<longleftrightarrow> scope_proven (pv_config v) k (scope_executions s k exs)" for s exs k
    using score_validated[OF assms, of "scope_executions s k exs" k]
    by (auto simp: scope_score_lookup Let_def scope_proven_def)
  show ?thesis
    unfolding proven_for_def Let_def scope[symmetric]
    by (auto simp: validate_opportunity_scope_def Let_def check_platforms_ok[symmetric]
        profit_snapshot_of_def split: scope_answer.split option.split)
qed

definition demo_paid_leg :: "string \<Rightarrow> order" where
  "demo_paid_leg side = \<lparr> ord_id = [], ord_platform = ''forecastex'', ord_market_id = ''m'',
     ord_canonical_id = ''A'', ord_side = side, ord_price = 42/100, ord_quantity = 10,
     ord_status = FILLED, ord_fill_price = 42/100, ord_fill_qty = 10, ord_timestamp = 0, ord_error = [],
     ord_external_client_order_id = None, ord_idempotency_ambiguous = False \<rparr>"

definition demo_paid :: arb_execution where
  "demo_paid = \<lparr> ex_arb_id = ''ARB-000001'', ex_opportunity = demo_opp,
     ex_leg_yes = demo_paid_leg ''yes'', ex_leg_no = demo_paid_leg ''no'', ex_status = ''filled'',
     ex_realized_pnl = 9, ex_unwind_pnl = 0, ex_timestamp = 0, ex_notes = [] \<rparr>"

definition demo_paid_engine :: engine where
  "demo_paid_engine = (new_engine no_risk_env default_scanner_config (Some 100) 0 0
     (new_supervisor 30 [] None None) 0)\<lparr>en_executions := [demo_paid]\<rparr>"

definition demo_profit_config :: profit_config where
  "demo_profit_config = default_profit_config\<lparr>pc_min_completed_executions := 1\<rparr>"

definition demo_validator :: validator where
  "demo_validator = \<lparr> pv_config = demo_profit_config, pv_started_at = 0, pv_last_snapshot = None,
     pv_history = [], pv_determined = False \<rparr>"

lemma demo_lower: "py_lower ''forecastex'' = ''forecastex''"
  by (simp add: py_lower_def lower_char_def)

lemma demo_venues [simp]: "venues (opp_venues demo_opp) = [''forecastex'']"
  "scope_pair_key [''forecastex''] = ''forecastex''"
  by (simp_all add: venues_def opp_venues_def demo_opp_fields demo_lower scope_pair_key_def)

lemma demo_scope_proven: "scope_proven demo_profit_config k [demo_paid]"
proof -
  have "arb_pnl demo_paid = 9" "exec_edge demo_paid = 9"
    by (simp_all add: arb_pnl_def exec_edge_def demo_paid_def demo_opp_fields)
  moreover have "effective_min_total demo_profit_config k \<le> 5" "effective_min_average demo_profit_config k \<le> 1/4"
    "effective_min_ratio demo_profit_config k \<le> 65/100"
    "pc_min_completed_executions demo_profit_config = 1" "pc_min_average_edge_cents demo_profit_config = 3"
    using relaxed_le[of 5] relaxed_le[of "1/4"] relaxed_le[of "65/100"]
    by (simp_all add: effective_min_total_def effective_min_average_def effective_min_ratio_def
        demo_profit_config_def default_profit_config_def)
  ultimately show ?thesis
    by (simp add: scope_proven_def total_arb_pnl_def mean_of_def profitable_ones_def)
qed

lemma demo_proven: "proven_for demo_profit_config [demo_paid] demo_opp"
proof -
  have named: "opp_yes_platform demo_opp \<noteq> []" "opp_no_platform demo_opp \<noteq> []"
    by (simp_all add: demo_opp_fields)
  have x: "ex_opportunity demo_paid = demo_opp" by (simp add: demo_paid_def)
  have "scope_executions sc ''forecastex'' [demo_paid] = [demo_paid]" for sc
    by (cases sc) (simp_all add: scope_executions_def scope_keys_def Let_def x named,
        simp add: opp_venues_def scope_pair_key_def venues_def demo_opp_fields demo_lower)
  then show ?thesis by (simp add: proven_for_def Let_def demo_scope_proven)
qed

lemma demo_scope_ok:
  "validate_opportunity_scope (profit_snapshot_of t sc demo_paid_engine demo_validator) demo_opp = ScopeOk"
proof -
  have "sane_profit_config (pv_config demo_validator)" "pv_config demo_validator = demo_profit_config"
    by (simp_all add: sane_profit_config_def demo_validator_def demo_profit_config_def default_profit_config_def)
  moreover have "completed_executions (en_executions demo_paid_engine) = [demo_paid]"
    by (simp add: completed_executions_def demo_paid_engine_def demo_paid_def completed_statuses_def)
  ultimately show ?thesis using scope_gate_iff_proven[of demo_validator] demo_proven by simp
qed

end
