(* ===== verification/Reconciler.thy ===== *)
theory Reconciler
  imports Engine
begin

text \<open>
  \<open>PnLReconciler\<close> of \<open>arbiter/audit/pnl_reconciler.py\<close> and \<open>sync_runtime_reconciliation\<close> of
  \<open>arbiter/main.py\<close>: the profit the execution ledger records per venue against the balances the
  venues report, with the automatic detection of deposits.  The writes to Postgres are sent off and
  never read back while the program runs; what a start finds there is an argument.
\<close>

section \<open>State\<close>

record deposit_event =
  de_platform :: string
  de_amount :: flt
  de_before :: flt
  de_after :: flt
  de_timestamp :: flt

record recon_entry =
  re_platform :: string
  re_recorded_pnl :: flt
  re_platform_balance :: flt
  re_starting_balance :: flt
  re_expected_balance :: flt
  re_discrepancy :: flt
  re_is_flagged :: bool
  re_timestamp :: flt

record recon_report =
  rr_entries :: "recon_entry list"
  rr_total_recorded_pnl :: flt
  rr_total_discrepancy :: flt
  rr_has_flags :: bool
  rr_timestamp :: flt

definition entry_to_dict :: "recon_entry \<Rightarrow> recon_entry" where
  "entry_to_dict e = e\<lparr>re_recorded_pnl := round_nd 4 (re_recorded_pnl e),
     re_platform_balance := round_nd 2 (re_platform_balance e),
     re_starting_balance := round_nd 2 (re_starting_balance e),
     re_expected_balance := round_nd 2 (re_expected_balance e),
     re_discrepancy := round_nd 2 (re_discrepancy e)\<rparr>"

definition report_to_dict :: "recon_report \<Rightarrow> recon_report" where
  "report_to_dict r = r\<lparr>rr_entries := map entry_to_dict (rr_entries r),
     rr_total_recorded_pnl := round_nd 4 (rr_total_recorded_pnl r),
     rr_total_discrepancy := round_nd 2 (rr_total_discrepancy r)\<rparr>"

definition deposit_detection_threshold :: flt where "deposit_detection_threshold = 1"
definition deposit_incident_threshold :: flt where "deposit_incident_threshold = 5"
definition deposit_dedup_window :: flt where "deposit_dedup_window = 600"
definition deposit_dedup_tolerance :: flt where "deposit_dedup_tolerance = 1/100"

text \<open>\<open>rc_large_deposits\<close> collects the calls of \<open>on_large_deposit\<close>.\<close>

record reconciler =
  rc_threshold :: flt
  rc_starting :: "(string, flt) dict"
  rc_recorded :: "(string, flt) dict"
  rc_deposits :: "(string, flt) dict"
  rc_events :: "deposit_event list"
  rc_reports :: "recon_report list"
  rc_count :: int
  rc_flag_count :: int
  rc_restored :: bool
  rc_large_deposits :: "deposit_event list"

definition new_reconciler :: "flt \<Rightarrow> reconciler" where
  "new_reconciler threshold =
     \<lparr> rc_threshold = threshold, rc_starting = [], rc_recorded = [], rc_deposits = [], rc_events = [],
       rc_reports = [], rc_count = 0, rc_flag_count = 0, rc_restored = False, rc_large_deposits = [] \<rparr>"

section \<open>Baselines\<close>

definition set_starting_balance :: "string \<Rightarrow> flt \<Rightarrow> reconciler \<Rightarrow> reconciler" where
  "set_starting_balance platform balance r =
     r\<lparr>rc_starting := AList.update platform balance (rc_starting r),
       rc_recorded := (if map_of (rc_recorded r) platform = None
                       then AList.update platform 0 (rc_recorded r) else rc_recorded r)\<rparr>"

definition backfill_one :: "flt \<Rightarrow> string \<times> flt \<Rightarrow> reconciler \<Rightarrow> reconciler" where
  "backfill_one now = (\<lambda>(platform, starting) r.
     if starting \<le> 0 \<or> dget (rc_deposits r) platform 0 \<noteq> 0
        \<or> (\<exists>e \<in> set (rc_events r). de_platform e = platform) then r
     else r\<lparr>rc_events := rc_events r @ [\<lparr> de_platform = platform, de_amount = starting, de_before = 0,
                                          de_after = starting, de_timestamp = now \<rparr>],
            rc_deposits := AList.update platform starting (rc_deposits r)\<rparr>)"

definition backfill_initial_deposits :: "flt \<Rightarrow> reconciler \<Rightarrow> reconciler" where
  "backfill_initial_deposits now r = fold (backfill_one now) (rc_starting r) r"

text \<open>What the two queries of a start return; either may raise.\<close>

datatype persisted =
    NoPool | BalancesFailed
  | EventsFailed "(string \<times> flt \<times> flt) list"
  | Persisted "(string \<times> flt \<times> flt) list" "deposit_event list"

definition load_balance_row :: "string \<times> flt \<times> flt \<Rightarrow> reconciler \<Rightarrow> reconciler" where
  "load_balance_row = (\<lambda>(platform, starting, deposits) r.
     r\<lparr>rc_starting := AList.update platform starting (rc_starting r),
       rc_deposits := AList.update platform deposits (rc_deposits r),
       rc_recorded := (if map_of (rc_recorded r) platform = None
                       then AList.update platform 0 (rc_recorded r) else rc_recorded r)\<rparr>)"

definition load_persisted_state :: "flt \<Rightarrow> persisted \<Rightarrow> reconciler \<Rightarrow> reconciler \<times> bool" where
  "load_persisted_state now db r =
     (case db of
        NoPool \<Rightarrow> (r, False)
      | BalancesFailed \<Rightarrow> (r, False)
      | EventsFailed rows \<Rightarrow> (fold load_balance_row rows r, False)
      | Persisted rows events \<Rightarrow>
          let r1 = fold load_balance_row rows r; r2 = r1\<lparr>rc_events := rc_events r1 @ events\<rparr>
          in if rows \<noteq> [] then (backfill_initial_deposits now (r2\<lparr>rc_restored := True\<rparr>), True)
             else (r2, False))"

section \<open>The ledger per venue\<close>

definition credit :: "string \<Rightarrow> flt \<Rightarrow> (string, flt) dict \<Rightarrow> (string, flt) dict" where
  "credit k x d = AList.update k (dget d k 0 + x) d"

definition attribute_pnl :: "arb_execution \<Rightarrow> (string, flt) dict \<Rightarrow> (string, flt) dict" where
  "attribute_pnl e d =
     (let pnl = ex_realized_pnl e; p = ex_opportunity e; y = opp_yes_platform p; n = opp_no_platform p;
          yes_filled = (ord_status (ex_leg_yes e) = FILLED); no_filled = (ord_status (ex_leg_no e) = FILLED)
      in if pnl = 0 \<or> y = [] \<or> n = [] then d
         else if yes_filled \<and> \<not> no_filled then credit y pnl d
         else if no_filled \<and> \<not> yes_filled then credit n pnl d
         else credit n (pnl / 2) (credit y (pnl / 2) d))"

definition pnl_by_platform :: "arb_execution list \<Rightarrow> (string, flt) dict" where
  "pnl_by_platform exs = fold attribute_pnl exs []"

definition rebaseline_one :: "(string, flt) dict \<Rightarrow> string \<times> flt \<Rightarrow> reconciler \<Rightarrow> reconciler" where
  "rebaseline_one ledger = (\<lambda>(platform, balance) r.
     let recorded = dget ledger platform 0
     in r\<lparr>rc_starting := AList.update platform (balance - recorded) (rc_starting r),
          rc_recorded := AList.update platform recorded (rc_recorded r),
          rc_deposits := AList.update platform 0 (rc_deposits r)\<rparr>)"

definition rebaseline_absent ::
  "(string, flt) dict \<Rightarrow> string \<times> flt \<Rightarrow> reconciler \<Rightarrow> reconciler" where
  "rebaseline_absent balances = (\<lambda>(platform, recorded) r.
     if map_of balances platform \<noteq> None then r
     else r\<lparr>rc_starting := (if map_of (rc_starting r) platform = None
                            then AList.update platform (- recorded) (rc_starting r) else rc_starting r),
            rc_recorded := AList.update platform recorded (rc_recorded r),
            rc_deposits := AList.update platform 0 (rc_deposits r)\<rparr>)"

definition rebaseline ::
  "(string, flt) dict \<Rightarrow> arb_execution list option \<Rightarrow> reconciler \<Rightarrow> reconciler" where
  "rebaseline balances executions r =
     (let ledger = pnl_by_platform (case executions of None \<Rightarrow> [] | Some es \<Rightarrow> es);
          r1 = fold (rebaseline_one ledger) balances r;
          r2 = fold (rebaseline_absent balances) ledger r1
      in r2\<lparr>rc_flag_count := 0, rc_reports := [], rc_count := 0\<rparr>)"

definition record_execution_pnl :: "string \<Rightarrow> flt \<Rightarrow> reconciler \<Rightarrow> reconciler" where
  "record_execution_pnl platform pnl r = r\<lparr>rc_recorded := credit platform pnl (rc_recorded r)\<rparr>"

definition record_arb_pnl :: "string \<Rightarrow> string \<Rightarrow> flt \<Rightarrow> int \<Rightarrow> reconciler \<Rightarrow> reconciler" where
  "record_arb_pnl y n net_edge qty r =
     (let pnl = net_edge * of_int qty
      in r\<lparr>rc_recorded := credit n (pnl / 2) (credit y (pnl / 2) (rc_recorded r))\<rparr>)"

definition load_execution_history :: "arb_execution list \<Rightarrow> reconciler \<Rightarrow> reconciler" where
  "load_execution_history executions r =
     r\<lparr>rc_recorded := fold (\<lambda>(k, x) d. AList.update k x d) (pnl_by_platform executions)
                        (map (\<lambda>(k, x). (k, 0)) (rc_starting r))\<rparr>"

section \<open>Deposits\<close>

fun duplicate_among :: "string \<Rightarrow> flt \<Rightarrow> flt \<Rightarrow> flt \<Rightarrow> deposit_event list \<Rightarrow> bool" where
  "duplicate_among platform before after cutoff [] = False"
| "duplicate_among platform before after cutoff (e # es) =
     (if de_timestamp e < cutoff then False
      else if de_platform e = platform \<and> \<bar>de_before e - before\<bar> \<le> deposit_dedup_tolerance
              \<and> \<bar>de_after e - after\<bar> \<le> deposit_dedup_tolerance then True
      else duplicate_among platform before after cutoff es)"

definition is_duplicate_deposit :: "string \<Rightarrow> flt \<Rightarrow> flt \<Rightarrow> flt \<Rightarrow> reconciler \<Rightarrow> bool" where
  "is_duplicate_deposit platform before after now r =
     duplicate_among platform before after (now - deposit_dedup_window) (rev (rc_events r))"

definition record_deposit :: "string \<Rightarrow> flt \<Rightarrow> flt \<Rightarrow> flt \<Rightarrow> flt \<Rightarrow> reconciler \<Rightarrow> reconciler" where
  "record_deposit platform amount before after now r =
     (if is_duplicate_deposit platform before after now r then r
      else let event = \<lparr> de_platform = platform, de_amount = amount, de_before = before,
                         de_after = after, de_timestamp = now \<rparr>
           in r\<lparr>rc_events := rc_events r @ [event], rc_deposits := credit platform amount (rc_deposits r),
                rc_starting := credit platform amount (rc_starting r),
                rc_large_deposits := rc_large_deposits r
                  @ (if deposit_incident_threshold \<le> \<bar>amount\<bar> then [event] else [])\<rparr>)"

definition detect_one :: "flt \<Rightarrow> string \<times> flt \<Rightarrow> reconciler \<Rightarrow> reconciler" where
  "detect_one now = (\<lambda>(platform, actual) r.
     case map_of (rc_starting r) platform of
       None \<Rightarrow> r
     | Some starting \<Rightarrow>
         let expected = starting + dget (rc_recorded r) platform 0; discrepancy = actual - expected
         in if deposit_detection_threshold \<le> \<bar>discrepancy\<bar>
            then record_deposit platform discrepancy expected actual now r else r)"

definition detect_deposits :: "flt \<Rightarrow> (string, flt) dict \<Rightarrow> reconciler \<Rightarrow> reconciler" where
  "detect_deposits now balances r = fold (detect_one now) balances r"

section \<open>Reconciliation\<close>

definition recon_entry_of :: "flt \<Rightarrow> reconciler \<Rightarrow> string \<times> flt \<Rightarrow> recon_entry" where
  "recon_entry_of now r = (\<lambda>(platform, actual).
     let starting = dget (rc_starting r) platform actual; recorded = dget (rc_recorded r) platform 0;
         expected = starting + recorded; discrepancy = expected - actual
     in \<lparr> re_platform = platform, re_recorded_pnl = recorded, re_platform_balance = actual,
          re_starting_balance = starting, re_expected_balance = expected, re_discrepancy = discrepancy,
          re_is_flagged = (rc_threshold r < \<bar>discrepancy\<bar>), re_timestamp = now \<rparr>)"

text \<open>The state the entries are computed in: the ledger is loaded and deposits are absorbed.\<close>

definition before_report ::
  "flt \<Rightarrow> (string, flt) dict \<Rightarrow> arb_execution list option \<Rightarrow> reconciler \<Rightarrow> reconciler" where
  "before_report now balances executions r =
     (let r1 = (case executions of
                  None \<Rightarrow> r
                | Some es \<Rightarrow> let r0 = load_execution_history es r
                             in if es = [] then r0 else r0\<lparr>rc_restored := False\<rparr>)
      in if rc_restored r1 then r1 else detect_deposits now balances r1)"

definition reconcile ::
  "flt \<Rightarrow> (string, flt) dict \<Rightarrow> arb_execution list option \<Rightarrow> reconciler \<Rightarrow> reconciler \<times> recon_report" where
  "reconcile now balances executions r =
     (let r1 = before_report now balances executions r;
          entries = map (recon_entry_of now r1) balances; flagged = filter re_is_flagged entries;
          report = \<lparr> rr_entries = entries,
                     rr_total_recorded_pnl = sum_list (map re_recorded_pnl entries),
                     rr_total_discrepancy = sum_list (map re_discrepancy entries),
                     rr_has_flags = (flagged \<noteq> []), rr_timestamp = now \<rparr>
      in (r1\<lparr>rc_count := rc_count r1 + 1, rc_flag_count := rc_flag_count r1 + int (length flagged),
             rc_reports := rc_reports r1 @ [report]\<rparr>, report))"

definition latest_report :: "reconciler \<Rightarrow> recon_report option" where
  "latest_report r = (if rc_reports r = [] then None else Some (report_to_dict (last (rc_reports r))))"

definition sync_one :: "arb_execution list \<Rightarrow> string \<times> flt \<Rightarrow> reconciler \<Rightarrow> reconciler" where
  "sync_one executions = (\<lambda>(platform, balance) r.
     case map_of (rc_starting r) platform of
       None \<Rightarrow> set_starting_balance platform balance r
     | Some known \<Rightarrow>
         if executions = [] \<and> rc_events r = [] \<and> \<not> rc_restored r \<and> 1/100 < \<bar>known - balance\<bar>
         then set_starting_balance platform balance r else r)"

text \<open>
  \<open>known_balances\<close> is read once, before the loop; the balances are a dict, so no platform occurs
  twice and the state at its turn still holds what was known of it.
\<close>

definition sync_runtime_reconciliation ::
  "flt \<Rightarrow> (string, flt) dict \<Rightarrow> arb_execution list \<Rightarrow> reconciler \<Rightarrow> reconciler \<times> recon_report option" where
  "sync_runtime_reconciliation now balances executions r =
     (if balances = [] then (r, None)
      else let (r', report) = reconcile now balances (Some executions) (fold (sync_one executions) balances r)
           in (r', Some report))"

section \<open>The ledger is complete\<close>

lemma credit_facts [simp]:
  "dget (credit k x d) k' 0 = dget d k' 0 + (if k' = k then x else 0)"
  "dict_ok d \<Longrightarrow> dict_ok (credit k x d)"
  "dict_ok d \<Longrightarrow> dsum (credit k x d) = dsum d + x"
  by (simp_all add: credit_def dsum_update)

definition both_named :: "arb_execution \<Rightarrow> bool" where
  "both_named e = (opp_yes_platform (ex_opportunity e) \<noteq> [] \<and> opp_no_platform (ex_opportunity e) \<noteq> [])"

lemma attribute_facts:
  "dict_ok d \<Longrightarrow> dict_ok (attribute_pnl e d)
     \<and> dsum (attribute_pnl e d) = dsum d + (if both_named e then ex_realized_pnl e else 0)"
  by (simp add: attribute_pnl_def Let_def both_named_def)

lemma ledger_fold:
  "dict_ok d \<Longrightarrow> dict_ok (fold attribute_pnl exs d)
     \<and> dsum (fold attribute_pnl exs d)
       = dsum d + sum_list (map ex_realized_pnl (filter both_named exs))"
  by (induction exs arbitrary: d) (simp_all add: attribute_facts)

lemma ledger_ok [simp]: "dict_ok (pnl_by_platform exs)"
  by (simp add: pnl_by_platform_def ledger_fold)

text \<open>
  Nothing is lost or invented in the ledger per venue: whatever legs filled, the amounts credited
  to the venues sum up to the realized profit of the executions.
\<close>

theorem ledger_conserves_pnl:
  "dsum (pnl_by_platform exs) = sum_list (map ex_realized_pnl (filter both_named exs))"
  using ledger_fold[of "[]" exs] by (simp add: pnl_by_platform_def dsum_def[of "[]"])

section \<open>Capital\<close>

text \<open>What a baseline holds besides deposits, and what the deposit total holds besides events.\<close>

definition base_capital :: "reconciler \<Rightarrow> string \<Rightarrow> flt" where
  "base_capital r k = dget (rc_starting r) k 0 - dget (rc_deposits r) k 0"

definition unlisted_deposits :: "reconciler \<Rightarrow> string \<Rightarrow> flt" where
  "unlisted_deposits r k = dget (rc_deposits r) k 0
     - sum_list (map de_amount (filter (\<lambda>e. de_platform e = k) (rc_events r)))"

datatype recon_step =
    RsReconcile flt "(string, flt) dict" "arb_execution list option"
  | RsDeposit string flt flt flt flt
  | RsPnl string flt
  | RsArb string string flt int

primrec recon_apply :: "recon_step \<Rightarrow> reconciler \<Rightarrow> reconciler" where
  "recon_apply (RsReconcile now balances exs) r = fst (reconcile now balances exs r)"
| "recon_apply (RsDeposit k amount before after now) r = record_deposit k amount before after now r"
| "recon_apply (RsPnl k pnl) r = record_execution_pnl k pnl r"
| "recon_apply (RsArb y n edge qty) r = record_arb_pnl y n edge qty r"

definition same_capital :: "reconciler \<Rightarrow> reconciler \<Rightarrow> bool" where
  "same_capital r r' = (base_capital r' = base_capital r \<and> unlisted_deposits r' = unlisted_deposits r)"

lemma capital_deposit: "same_capital r0 r \<Longrightarrow> same_capital r0 (record_deposit k x b a now r)"
  by (auto simp: same_capital_def base_capital_def unlisted_deposits_def record_deposit_def Let_def fun_eq_iff)

lemma capital_detect: "same_capital r0 r \<Longrightarrow> same_capital r0 (fold (detect_one now) balances r)"
proof (induction balances arbitrary: r)
  case (Cons b bs)
  then have "same_capital r0 (detect_one now b r)"
    by (auto simp: detect_one_def Let_def capital_deposit split: prod.split option.split)
  with Cons.IH show ?case by simp
qed simp

lemma capital_recorded:
  "same_capital r0 (r\<lparr>rc_recorded := x\<rparr>) = same_capital r0 r"
  "same_capital r0 (r\<lparr>rc_restored := b\<rparr>) = same_capital r0 r"
  "same_capital r0 (r\<lparr>rc_count := n, rc_flag_count := m, rc_reports := ps\<rparr>) = same_capital r0 r"
  by (simp_all add: same_capital_def base_capital_def unlisted_deposits_def fun_eq_iff)

lemma capital_before_report:
  "same_capital r0 r \<Longrightarrow> same_capital r0 (before_report now balances exs r)"
  by (auto simp: before_report_def Let_def detect_deposits_def load_execution_history_def capital_recorded
      intro!: capital_detect split: option.split)

interpretation capital: invariant_machine recon_apply "same_capital r0"
proof unfold_locales
  fix r e
  assume "same_capital r0 r"
  then show "same_capital r0 (recon_apply e r)"
    by (cases e) (simp_all add: reconcile_def Let_def capital_recorded capital_before_report
        capital_deposit record_execution_pnl_def record_arb_pnl_def)
qed

text \<open>
  Detected and recorded deposits move the baseline and the deposit total by the same amount, and
  the total by what the events list, in every run of reconciliations, deposits and bookings.
\<close>

theorem deposits_are_neutral:
  "base_capital (fold recon_apply es r) = base_capital r
   \<and> unlisted_deposits (fold recon_apply es r) = unlisted_deposits r"
  using capital.run_inv[of r r es] by (simp add: same_capital_def)

section \<open>A new baseline\<close>

lemma fold_update_map_of:
  "dict_ok xs \<Longrightarrow> map_of (fold (\<lambda>(k, x) d. AList.update k x d) xs d) k
     = (case map_of xs k of Some x \<Rightarrow> Some x | None \<Rightarrow> map_of d k)"
proof (induction xs arbitrary: d)
  case (Cons b xs)
  obtain p x where b: "b = (p, x)" by (cases b)
  with Cons.prems have "dict_ok xs" "map_of xs p = None"
    by (auto simp: dict_ok_def map_of_eq_None_iff)
  with Cons.IH show ?case by (simp add: b update_conv' split: option.split)
qed simp

lemma zeros_map_of: "map_of (map (\<lambda>(k, x). (k, 0 :: flt)) d) k = map_option (\<lambda>x. 0) (map_of d k)"
  by (induction d) auto

lemma history_recorded:
  "dget (rc_recorded (load_execution_history exs r)) k 0 = dget (pnl_by_platform exs) k 0"
  by (simp add: load_execution_history_def dget_def fold_update_map_of zeros_map_of split: option.split)

lemma rebaseline_starting:
  "dict_ok balances \<Longrightarrow> map_of (rc_starting (fold (rebaseline_one ledger) balances r)) k
     = (case map_of balances k of Some b \<Rightarrow> Some (b - dget ledger k 0) | None \<Rightarrow> map_of (rc_starting r) k)"
proof (induction balances arbitrary: r)
  case (Cons b bs)
  obtain p x where b: "b = (p, x)" by (cases b)
  with Cons.prems have "dict_ok bs" "map_of bs p = None"
    by (auto simp: dict_ok_def map_of_eq_None_iff)
  with Cons.IH show ?case
    by (simp add: b rebaseline_one_def Let_def update_conv' split: option.split)
qed simp

lemma rebaseline_absent_starting:
  "map_of balances k = Some b
   \<Longrightarrow> map_of (rc_starting (fold (rebaseline_absent balances) ledger r)) k = map_of (rc_starting r) k"
proof (induction ledger arbitrary: r)
  case (Cons x ledger)
  then show ?case by (cases x) (auto simp: rebaseline_absent_def update_conv')
qed simp

lemma rebaseline_frame:
  "rc_events (fold (rebaseline_one ledger) balances r) = rc_events r
   \<and> rc_threshold (fold (rebaseline_one ledger) balances r) = rc_threshold r"
  by (induction balances arbitrary: r) (auto simp: rebaseline_one_def Let_def)

lemma absent_frame:
  "rc_events (fold (rebaseline_absent balances) ledger r) = rc_events r
   \<and> rc_threshold (fold (rebaseline_absent balances) ledger r) = rc_threshold r"
  by (induction ledger arbitrary: r) (auto simp: rebaseline_absent_def)

definition agrees :: "reconciler \<Rightarrow> (string, flt) dict \<Rightarrow> bool" where
  "agrees r balances = (\<forall>(k, b) \<in> set balances. \<exists>st. map_of (rc_starting r) k = Some st
                           \<and> st + dget (rc_recorded r) k 0 = b)"

lemma agreed_detect: "agrees r bs \<Longrightarrow> set cs \<subseteq> set bs \<Longrightarrow> fold (detect_one now) cs r = r"
proof (induction cs)
  case (Cons c cs)
  then have "detect_one now c r = r"
    by (force simp: agrees_def detect_one_def Let_def deposit_detection_threshold_def split: prod.split)
  with Cons show ?case by simp
qed simp

lemma rebaseline_agrees:
  assumes "dict_ok balances"
  shows "agrees (load_execution_history exs (rebaseline balances (Some exs) r)) balances"
proof -
  have "map_of balances k = Some b" if "(k, b) \<in> set balances" for k b
    using that assms by (simp add: dict_ok_def)
  then show ?thesis
    by (auto simp: agrees_def history_recorded)
      (simp add: load_execution_history_def rebaseline_def Let_def rebaseline_absent_starting
        rebaseline_starting assms)
qed

text \<open>
  A new baseline leaves nothing to reconcile: reconciling the same balances and executions right
  after it shows no discrepancy on any venue, flags nothing and takes nothing for a deposit.
\<close>

theorem rebaseline_then_clean:
  assumes "dict_ok balances" "0 \<le> rc_threshold r"
    and "reconcile now balances (Some exs) (rebaseline balances (Some exs) r) = (r', report)"
  shows "\<not> rr_has_flags report \<and> (\<forall>e \<in> set (rr_entries report). re_discrepancy e = 0)
     \<and> rc_events r' = rc_events r"
proof -
  let ?r1 = "load_execution_history exs (rebaseline balances (Some exs) r)"
  have ag: "agrees ?r1 balances" by (rule rebaseline_agrees[OF assms(1)])
  have ag': "agrees (?r1\<lparr>rc_restored := False\<rparr>) balances" using ag by (simp add: agrees_def)
  have b: "before_report now balances (Some exs) (rebaseline balances (Some exs) r)
      = (if exs = [] then ?r1 else ?r1\<lparr>rc_restored := False\<rparr>)"
    using agreed_detect[OF ag order_refl] agreed_detect[OF ag' order_refl]
    by (cases "exs = []") (simp_all add: before_report_def Let_def detect_deposits_def)
  have entry: "re_discrepancy (recon_entry_of now r2 kb) = 0 \<and> \<not> re_is_flagged (recon_entry_of now r2 kb)"
    if "kb \<in> set balances" "agrees r2 balances" "rc_threshold r2 = rc_threshold r" for kb r2
    using that assms(2) by (force simp: agrees_def recon_entry_of_def Let_def dget_def split: prod.split)
  have frame: "rc_events ?r1 = rc_events r" "rc_threshold ?r1 = rc_threshold r"
    by (simp_all add: load_execution_history_def rebaseline_def Let_def rebaseline_frame absent_frame)
  from assms(3) b entry[OF _ ag] entry[OF _ ag'] frame show ?thesis
    by (auto simp: reconcile_def Let_def filter_empty_conv split: if_splits)
qed

section \<open>The drift flag\<close>

lemma detect_frame [simp]: "rc_recorded (detect_one now b r) = rc_recorded r"
  "rc_threshold (detect_one now b r) = rc_threshold r" "rc_restored (detect_one now b r) = rc_restored r"
  by (auto simp: detect_one_def record_deposit_def Let_def split: prod.split option.split)

lemma detect_fold_frame [simp]: "rc_recorded (fold (detect_one now) bs r) = rc_recorded r"
  "rc_threshold (fold (detect_one now) bs r) = rc_threshold r"
  "rc_restored (fold (detect_one now) bs r) = rc_restored r"
  by (induction bs arbitrary: r) simp_all

lemma detect_other:
  "k \<noteq> fst b \<Longrightarrow> map_of (rc_starting (detect_one now b r)) k = map_of (rc_starting r) k"
  by (auto simp: detect_one_def record_deposit_def credit_def Let_def update_conv' split: prod.split option.split)

lemma detect_fold_other:
  "k \<notin> fst ` set bs \<Longrightarrow> map_of (rc_starting (fold (detect_one now) bs r)) k = map_of (rc_starting r) k"
  by (induction bs arbitrary: r) (auto simp: detect_other)

lemma duplicate_among_mem:
  "duplicate_among k before after cutoff es
   \<Longrightarrow> \<exists>e \<in> set es. de_platform e = k \<and> \<bar>de_after e - after\<bar> \<le> 1/100 \<and> cutoff \<le> de_timestamp e"
  by (induction k before after cutoff es rule: duplicate_among.induct)
    (auto simp: deposit_dedup_tolerance_def not_less split: if_splits)

definition recent_twin :: "flt \<Rightarrow> string \<Rightarrow> flt \<Rightarrow> reconciler \<Rightarrow> bool" where
  "recent_twin now k actual r =
     (\<exists>e \<in> set (rc_events r). de_platform e = k \<and> \<bar>de_after e - actual\<bar> \<le> 1/100
        \<and> now - deposit_dedup_window \<le> de_timestamp e)"

lemma detect_twin: "recent_twin now k a (detect_one now b r) \<Longrightarrow> k \<noteq> fst b \<Longrightarrow> recent_twin now k a r"
  by (auto simp: recent_twin_def detect_one_def record_deposit_def Let_def split: prod.splits option.splits if_splits)

lemma detect_settles:
  assumes "map_of (rc_starting r) k = Some st"
  shows "recent_twin now k a r
    \<or> (\<exists>st'. map_of (rc_starting (detect_one now (k, a) r)) k = Some st'
         \<and> \<bar>st' + dget (rc_recorded r) k 0 - a\<bar> < 1)"
proof (cases "is_duplicate_deposit k (st + dget (rc_recorded r) k 0) a now r")
  case True
  then have "recent_twin now k a r"
    using duplicate_among_mem by (fastforce simp: is_duplicate_deposit_def recent_twin_def)
  then show ?thesis by simp
next
  case False
  with assms show ?thesis
    by (auto simp: detect_one_def Let_def record_deposit_def credit_def update_conv' dget_def
        deposit_detection_threshold_def)
qed

lemma detect_fold_settles:
  "dict_ok bs \<Longrightarrow> (k, a) \<in> set bs \<Longrightarrow> map_of (rc_starting r) k = Some st
   \<Longrightarrow> recent_twin now k a r
     \<or> (\<exists>st'. map_of (rc_starting (fold (detect_one now) bs r)) k = Some st'
          \<and> \<bar>st' + dget (rc_recorded r) k 0 - a\<bar> < 1)"
proof (induction bs arbitrary: r)
  case (Cons b bs)
  show ?case
  proof (cases "fst b = k")
    case True
    with Cons.prems(1,2) have "b = (k, a)" "k \<notin> fst ` set bs"
      by (auto simp: dict_ok_def rev_image_eqI)
    with detect_settles[OF Cons.prems(3)] show ?thesis by (simp add: detect_fold_other)
  next
    case False
    with Cons.prems have "dict_ok bs" "(k, a) \<in> set bs" "map_of (rc_starting (detect_one now b r)) k = Some st"
      by (auto simp: dict_ok_def detect_other)
    from Cons.IH[OF this] False show ?thesis using detect_twin by fastforce
  qed
qed simp

text \<open>
  The drift flag is all but unreachable: with the venues on record and a limit of a dollar or more, a
  report raises it only while the state restored at the start is still trusted, or when a deposit to
  the same balance was recorded within ten minutes; every other drift is absorbed as a deposit.
\<close>

theorem flags_need_suppressed_deposit:
  assumes "reconcile now balances executions r = (r', report)" "rr_has_flags report"
    and "dict_ok balances" "1 \<le> rc_threshold r"
    and "\<forall>(k, a) \<in> set balances. map_of (rc_starting r) k \<noteq> None"
  shows "rc_restored r' \<or> (\<exists>(k, a) \<in> set balances. recent_twin now k a r)"
proof (cases "rc_restored r'")
  case False
  define r0 where "r0 = (case executions of None \<Rightarrow> r | Some es \<Rightarrow>
      (let r0 = load_execution_history es r in if es = [] then r0 else r0\<lparr>rc_restored := False\<rparr>))"
  have r0: "rc_starting r0 = rc_starting r" "rc_events r0 = rc_events r" "rc_threshold r0 = rc_threshold r"
    by (simp_all add: r0_def load_execution_history_def Let_def split: option.split)
  define r1 where "r1 = before_report now balances executions r"
  have r1: "r1 = fold (detect_one now) balances r0"
    using assms(1) False
    by (auto simp: r1_def reconcile_def Let_def before_report_def r0_def[symmetric] detect_deposits_def
        split: if_splits)
  from assms(1,2) obtain k a where ka: "(k, a) \<in> set balances" "re_is_flagged (recon_entry_of now r1 (k, a))"
    by (auto simp: reconcile_def Let_def r1_def[symmetric] filter_empty_conv)
  from assms(5) ka(1) obtain st where "map_of (rc_starting r0) k = Some st" by (auto simp: r0)
  from detect_fold_settles[OF assms(3) ka(1) this, of now]
  show ?thesis
  proof
    assume "recent_twin now k a r0"
    with ka(1) show ?thesis by (auto simp: recent_twin_def r0)
  next
    assume "\<exists>st'. map_of (rc_starting (fold (detect_one now) balances r0)) k = Some st'
        \<and> \<bar>st' + dget (rc_recorded r0) k 0 - a\<bar> < 1"
    with ka(2) assms(4) show ?thesis
      by (auto simp: r1 recon_entry_of_def Let_def dget_def r0)
  qed
qed simp

section \<open>A demonstration\<close>

definition demo_drift :: reconciler where
  "demo_drift = (set_starting_balance ''kalshi'' 0 (new_reconciler 100))\<lparr>rc_restored := True\<rparr>"

theorem rebaseline_then_clean_witness:
  "\<not> rr_has_flags (snd (reconcile 60 [(''kalshi'', 500)] (Some [])
       (rebaseline [(''kalshi'', 500)] (Some []) demo_drift)))"
proof -
  have "dict_ok [(''kalshi'', 500 :: flt)]" "0 \<le> rc_threshold demo_drift"
    by (simp_all add: dict_ok_def demo_drift_def set_starting_balance_def new_reconciler_def)
  from rebaseline_then_clean[OF this surjective_pairing] show ?thesis by simp
qed

theorem flags_need_suppressed_deposit_witness:
  "rr_has_flags (snd (reconcile 60 [(''kalshi'', 500)] None demo_drift))
   \<and> rc_restored (fst (reconcile 60 [(''kalshi'', 500)] None demo_drift))"
proof -
  have flag: "rr_has_flags (snd (reconcile 60 [(''kalshi'', 500)] None demo_drift))"
    by (simp add: reconcile_def before_report_def demo_drift_def set_starting_balance_def new_reconciler_def
        Let_def recon_entry_of_def dget_def)
  have "dict_ok [(''kalshi'', 500 :: flt)]" "1 \<le> rc_threshold demo_drift"
    "\<forall>(k, a) \<in> set [(''kalshi'', 500 :: flt)]. map_of (rc_starting demo_drift) k \<noteq> None"
    "\<not> recent_twin 60 ''kalshi'' 500 demo_drift"
    by (simp_all add: dict_ok_def demo_drift_def set_starting_balance_def new_reconciler_def recent_twin_def)
  with flags_need_suppressed_deposit[OF surjective_pairing flag] flag show ?thesis by auto
qed

end
