(* ===== verification/Readiness.thy ===== *)
theory Readiness
  imports Profitability Reconciler Market_Map Price_Store Pipeline
begin

text \<open>
  \<open>OperationalReadiness\<close> of \<open>arbiter/readiness.py\<close>: the nine checks, the snapshot with its view per
  venue and per pair, and \<open>allow_execution\<close>, the first layer of the trade gate.  The components it
  looks at are those of the model; a summary is the text the code builds.
\<close>

section \<open>What is looked at\<close>

record collector =
  co_total_fetches :: int
  co_total_errors :: int
  co_consecutive_errors :: int
  co_circuits :: "string list"
  co_authenticated :: bool

record balance_snapshot =
  bs_balance :: flt
  bs_is_low :: bool
  bs_timestamp :: flt

datatype polymarket_config = PolymarketUS string string | PolymarketLegacy "string option"

text \<open>
  \<open>rd_profit\<close> is the snapshot the validator answers with, \<open>rd_bootstrap\<close> the environment variable
  \<open>PHASE5_BOOTSTRAP_TRADES\<close>; \<open>None\<close> stands for a component that is not wired.
\<close>

record readiness =
  rd_now :: flt
  rd_dry_run :: bool
  rd_kalshi_key_id :: string
  rd_kalshi_key_path :: string
  rd_polymarket :: polymarket_config
  rd_telegram_token :: string
  rd_telegram_chat :: string
  rd_market_map :: market_map
  rd_engine :: "engine option"
  rd_balances :: "(string, balance_snapshot) dict"
  rd_profit :: "profit_snapshot option"
  rd_bootstrap :: "string option"
  rd_collectors :: "(string, collector) dict"
  rd_reconciler :: "reconciler option"
  rd_price_store :: "price_store option"

section \<open>Checks\<close>

datatype check_status = Pass | Fail | Warn | Manual

datatype check_details =
    NoDetails
  | DetMappings "string list"
  | DetCredentials bool bool
  | DetProfit verdict "(string \<times> flt) list"
  | DetIncidents int nat "incident list"
  | DetBalances "(string, balance_snapshot) dict"
  | DetCollectors "(string, collector) dict"
  | DetQuotes "(string \<times> nat) list" "string list"
  | DetReport recon_report

record readiness_check =
  ck_key :: string
  ck_status :: check_status
  ck_summary :: string
  ck_blocking :: bool
  ck_details :: check_details

definition mk_check :: "string \<Rightarrow> check_status \<Rightarrow> string \<Rightarrow> bool \<Rightarrow> check_details \<Rightarrow> readiness_check" where
  "mk_check k st summary blocking d = \<lparr> ck_key = k, ck_status = st, ck_summary = summary,
     ck_blocking = blocking, ck_details = d \<rparr>"

definition int_text :: "int \<Rightarrow> string" where
  "int_text n = (if n < 0 then CHR ''-'' # digits (nat (- n)) else digits (nat n))"

definition comma_join :: "string list \<Rightarrow> string" where
  "comma_join = join_texts '', ''"

definition auto_trade_ids :: "readiness \<Rightarrow> string list" where
  "auto_trade_ids r = map fst (iter_confirmed_market_mappings True (rd_market_map r))"

definition check_auto_trade_mappings :: "readiness \<Rightarrow> readiness_check" where
  "check_auto_trade_mappings r =
     (let ids = auto_trade_ids r
      in if ids \<noteq> []
         then mk_check ''auto_trade_mappings'' Pass
                (int_text (int (length ids)) @ '' confirmed auto-trade mappings enabled'') True (DetMappings ids)
         else mk_check ''auto_trade_mappings'' Fail ''No confirmed auto-trade mappings are enabled'' True
                NoDetails)"

definition kalshi_ready :: "readiness \<Rightarrow> bool" where
  "kalshi_ready r =
     ((case map_of (rd_collectors r) ''kalshi'' of Some c \<Rightarrow> co_authenticated c | None \<Rightarrow> False)
      \<or> rd_kalshi_key_id r \<noteq> [] \<and> rd_kalshi_key_path r \<noteq> [])"

definition polymarket_credentials :: "readiness \<Rightarrow> bool \<times> string" where
  "polymarket_credentials r =
     (case rd_polymarket r of
        PolymarketUS key secret \<Rightarrow> (key \<noteq> [] \<and> secret \<noteq> [], ''Polymarket US'')
      | PolymarketLegacy private_key \<Rightarrow>
          ((case private_key of Some k \<Rightarrow> k \<noteq> [] | None \<Rightarrow> False), ''Polymarket''))"

definition check_platform_credentials :: "readiness \<Rightarrow> readiness_check" where
  "check_platform_credentials r =
     (let k = kalshi_ready r; (p, label) = polymarket_credentials r; d = DetCredentials k p;
          missing = (if k then [] else [''Kalshi'']) @ (if p then [] else [label])
      in if k \<and> p
         then mk_check ''platform_credentials'' Pass ''Live venue credentials are configured'' True d
         else mk_check ''platform_credentials'' Fail
                (''Missing live venue credentials: '' @ comma_join missing) True d)"

definition check_alerting :: "readiness \<Rightarrow> readiness_check" where
  "check_alerting r =
     (if rd_telegram_token r \<noteq> [] \<and> rd_telegram_chat r \<noteq> []
      then mk_check ''alerting'' Pass ''Telegram alerting is configured'' True NoDetails
      else mk_check ''alerting'' Warn ''Telegram alerting is not configured yet'' True NoDetails)"

text \<open>How many trades the bootstrap of phase 5 still covers.\<close>

definition bootstrap_remaining :: "string option \<Rightarrow> profit_snapshot \<Rightarrow> int option" where
  "bootstrap_remaining env s =
     (case env of None \<Rightarrow> None
      | Some raw \<Rightarrow>
          let limit = (case int_of_text raw of None \<Rightarrow> 0 | Some n \<Rightarrow> n);
              completed = ev_completed (ps_evidence s)
          in if raw \<noteq> [] \<and> ps_verdict s = VCollecting \<and> 1 \<le> limit \<and> limit \<le> 500 \<and> completed < limit
             then Some (limit - completed) else None)"

definition check_profitability :: "readiness \<Rightarrow> readiness_check" where
  "check_profitability r =
     (case rd_profit r of
        None \<Rightarrow> mk_check ''profitability'' Fail ''Profitability validator is unavailable'' True NoDetails
      | Some s \<Rightarrow>
          let v = ps_verdict s;
              d = DetProfit v [(''progress'', round_nd 4 (ps_progress s)),
                     (''total_realized_pnl'', round_nd 4 (ev_total_pnl (ps_evidence s))),
                     (''completed_executions'', of_int (ev_completed (ps_evidence s)))]
          in case bootstrap_remaining (rd_bootstrap r) s of
               Some remaining \<Rightarrow>
                 mk_check ''profitability'' Pass
                   (''Phase 5 bootstrap: '' @ int_text remaining
                    @ '' trade(s) remaining before profitability gate re-engages'') False
                   (DetProfit v [(''completed_executions'', of_int (ev_completed (ps_evidence s))),
                                 (''bootstrap_remaining'', of_int remaining)])
             | None \<Rightarrow>
                 if v = VValidated
                 then mk_check ''profitability'' Pass ''Profitability gate is validated'' True d
                 else if v = VBlocked \<or> v = VNotProfitable
                 then mk_check ''profitability'' Fail (''Profitability verdict is '' @ verdict_text v) True d
                 else mk_check ''profitability'' Warn
                        (''Profitability is still collecting evidence ('' @ verdict_text v @ '')'') True d)"

definition rd_incidents :: "readiness \<Rightarrow> incident list" where
  "rd_incidents r = (case rd_engine r of None \<Rightarrow> [] | Some en \<Rightarrow> en_incidents en)"

definition open_incidents :: "readiness \<Rightarrow> incident list" where
  "open_incidents r = filter (\<lambda>i. inc_status i \<noteq> ''resolved'') (rd_incidents r)"

definition open_critical :: "readiness \<Rightarrow> incident list" where
  "open_critical r = filter is_critical (open_incidents r)"

definition check_incidents :: "readiness \<Rightarrow> readiness_check" where
  "check_incidents r =
     (let critical = open_critical r; n = effective_critical_incident_count critical
      in if critical \<noteq> []
         then mk_check ''incidents'' Fail (int_text n @ '' critical incidents remain unresolved'') True
                (DetIncidents n (length critical) (take 5 critical))
         else if open_incidents r \<noteq> []
         then mk_check ''incidents'' Warn
                (int_text (int (length (open_incidents r))) @ '' non-critical incidents are still open'')
                False NoDetails
         else mk_check ''incidents'' Pass ''No open incidents are blocking execution'' True NoDetails)"

definition balance_details :: "readiness \<Rightarrow> check_details" where
  "balance_details r =
     DetBalances (map (\<lambda>(k, b). (k, b\<lparr>bs_balance := round_nd 4 (bs_balance b)\<rparr>)) (rd_balances r))"

definition check_balances :: "readiness \<Rightarrow> readiness_check" where
  "check_balances r =
     (let low = map fst (filter (\<lambda>(k, b). bs_is_low b) (rd_balances r))
      in if rd_balances r = []
         then mk_check ''balances'' Warn ''Venue balances have not been observed yet'' True NoDetails
         else if low \<noteq> []
         then mk_check ''balances'' Fail (''Low balances detected on '' @ comma_join (sort low)) True
                (balance_details r)
         else mk_check ''balances'' Pass ''Venue balances are above configured thresholds'' True
                (balance_details r))"

definition collector_failed :: "collector \<Rightarrow> bool" where
  "collector_failed c = (''open'' \<in> set (co_circuits c) \<or> 5 \<le> co_consecutive_errors c)"

definition failed_collectors :: "readiness \<Rightarrow> string list" where
  "failed_collectors r = map fst (filter (\<lambda>(k, c). collector_failed c) (rd_collectors r))"

definition cold_collectors :: "readiness \<Rightarrow> string list" where
  "cold_collectors r = map fst (filter (\<lambda>(k, c). co_total_fetches c \<le> 0) (rd_collectors r))"

definition check_collectors :: "readiness \<Rightarrow> readiness_check" where
  "check_collectors r =
     (let d = DetCollectors (rd_collectors r); failures = failed_collectors r; cold = cold_collectors r
      in if rd_collectors r = []
         then mk_check ''collectors'' Warn ''Collector telemetry is unavailable'' True NoDetails
         else if failures \<noteq> []
         then mk_check ''collectors'' Fail
                (''Collector health is degraded: '' @ comma_join (sort failures)) True d
         else if cold \<noteq> []
         then mk_check ''collectors'' Warn
                (''Collectors are still warming up: '' @ comma_join (sort cold)) True d
         else mk_check ''collectors'' Pass ''Collectors are publishing healthy live data'' True d)"

text \<open>How many entries of a venue in the memory of the price store are younger than its window.\<close>

definition fresh_quotes :: "flt \<Rightarrow> price_store \<Rightarrow> string \<Rightarrow> nat" where
  "fresh_quotes now st platform =
     length (filter (\<lambda>(k, pp). pp_platform pp = platform \<and> now - pp_timestamp pp < ps_ttl st) (ps_mem st))"

definition check_quote_freshness :: "readiness \<Rightarrow> readiness_check" where
  "check_quote_freshness r =
     (case rd_price_store r of
        None \<Rightarrow> mk_check ''quote_freshness'' Manual ''Quote-freshness telemetry is unavailable'' False NoDetails
      | Some st \<Rightarrow>
          let counts = map (\<lambda>k. (k, fresh_quotes (rd_now r) st k)) (sort (map fst (rd_collectors r)));
              silent = map fst (filter (\<lambda>(k, n). n = 0) counts)
          in if rd_collectors r = []
             then mk_check ''quote_freshness'' Manual ''Quote-freshness telemetry is unavailable'' False NoDetails
             else if silent \<noteq> []
             then mk_check ''quote_freshness'' Warn
                    (''Enabled platforms with no fresh quotes: '' @ comma_join silent) False
                    (DetQuotes counts silent)
             else mk_check ''quote_freshness'' Pass ''All enabled platforms are publishing fresh quotes'' False
                    (DetQuotes counts []))"

definition all_zero_balances :: "recon_report \<Rightarrow> bool" where
  "all_zero_balances rep =
     (rr_entries rep \<noteq> [] \<and> (\<forall>e \<in> set (rr_entries rep). re_platform_balance e = 0))"

definition check_reconciliation :: "readiness \<Rightarrow> readiness_check" where
  "check_reconciliation r =
     (case rd_reconciler r of
        None \<Rightarrow> mk_check ''reconciliation'' Manual ''PnL reconciliation is not wired into the runtime yet''
                  False NoDetails
      | Some rc \<Rightarrow>
          (case latest_report rc of
             None \<Rightarrow> mk_check ''reconciliation'' Warn ''PnL reconciliation has not produced a report yet''
                       False NoDetails
           | Some rep \<Rightarrow>
               if \<not> rr_has_flags rep
               then mk_check ''reconciliation'' Pass ''PnL reconciliation shows no drift'' False (DetReport rep)
               else if all_zero_balances rep
               then mk_check ''reconciliation'' Warn ''PnL reconciliation: balance fetch unavailable'' False
                      (DetReport rep)
               else mk_check ''reconciliation'' Fail ''PnL reconciliation drift is flagged'' True
                      (DetReport rep)))"

definition all_checks :: "readiness \<Rightarrow> readiness_check list" where
  "all_checks r =
     [check_auto_trade_mappings r, check_platform_credentials r, check_alerting r,
      check_profitability r, check_incidents r, check_balances r, check_collectors r,
      check_quote_freshness r, check_reconciliation r]"

definition blocks :: "readiness_check \<Rightarrow> bool" where
  "blocks c = (ck_blocking c \<and> ck_status c \<noteq> Pass)"

definition warns :: "readiness_check \<Rightarrow> bool" where
  "warns c = (ck_status c = Warn \<or> ck_status c = Manual)"

section \<open>Scopes of a check\<close>

fun split_on :: "char \<Rightarrow> string \<Rightarrow> string list" where
  "split_on c [] = [[]]"
| "split_on c (x # xs) =
     (if x = c then [] # split_on c xs
      else case split_on c xs of [] \<Rightarrow> [[x]] | p # ps \<Rightarrow> (x # p) # ps)"

text \<open>The names after the last colon of a summary.\<close>

definition summary_names :: "string \<Rightarrow> string list" where
  "summary_names s =
     filter (\<lambda>n. n \<noteq> []) (map (\<lambda>n. py_lower (py_strip n)) (split_on CHR '','' (last (split_on CHR '':'' s))))"

definition incident_platform :: "incident \<Rightarrow> string" where
  "incident_platform i = py_lower (meta_text ''platform'' i)"

definition platform_scope :: "readiness_check \<Rightarrow> string list option" where
  "platform_scope c =
     (if ck_key c = ''collectors'' then Some (summary_names (ck_summary c))
      else case ck_details c of
             DetBalances bs \<Rightarrow>
               let low = map (\<lambda>(k, b). py_lower k) (filter (\<lambda>(k, b). bs_is_low b) bs)
               in if ck_key c = ''balances'' \<and> low \<noteq> [] then Some low else None
           | DetIncidents n m is \<Rightarrow>
               if ck_key c \<noteq> ''incidents'' \<or> (\<exists>i \<in> set is. incident_platform i = []) \<or> is = [] then None
               else Some (map incident_platform is)
           | _ \<Rightarrow> None)"

definition incident_touches :: "incident \<Rightarrow> string list \<Rightarrow> bool" where
  "incident_touches i involved = (incident_platform i = [] \<or> incident_platform i \<in> set involved)"

section \<open>The view per venue and pair\<close>

definition preferred_rank :: "string \<Rightarrow> nat" where
  "preferred_rank k = (if k = ''kalshi'' then 0 else if k = ''polymarket'' then 1
                       else if k = ''forecastex'' then 2 else 99)"

definition detail_platforms :: "check_details \<Rightarrow> string list" where
  "detail_platforms d =
     filter (\<lambda>k. k = ''kalshi'' \<or> k = ''polymarket'' \<or> k = ''forecastex'')
       (case d of DetBalances bs \<Rightarrow> map fst bs | DetCollectors cs \<Rightarrow> map fst cs | _ \<Rightarrow> [])"

definition known_platforms :: "readiness \<Rightarrow> readiness_check list \<Rightarrow> string list" where
  "known_platforms r checks =
     sort_key (\<lambda>k. (preferred_rank k, k))
       (remdups (map py_lower (map fst (rd_collectors r)) @ map py_lower (map fst (rd_balances r))
                 @ concat (map (\<lambda>c. detail_platforms (ck_details c)) checks)
                 @ [''kalshi'', ''polymarket'']))"

record venue_view =
  vv_ready :: bool
  vv_blocking :: "string list"
  vv_warnings :: "string list"

text \<open>Whether a check is charged to a platform.\<close>

definition charged :: "string \<Rightarrow> readiness_check \<Rightarrow> bool" where
  "charged platform c = (case platform_scope c of None \<Rightarrow> True | Some ps \<Rightarrow> platform \<in> set ps)"

definition platform_view :: "readiness_check list \<Rightarrow> string \<Rightarrow> venue_view" where
  "platform_view checks platform =
     (let bs = map ck_summary (filter (\<lambda>c. blocks c \<and> charged platform c) checks)
      in \<lparr> vv_ready = (bs = []), vv_blocking = bs,
           vv_warnings = map ck_summary (filter (\<lambda>c. warns c \<and> charged platform c) checks) \<rparr>)"

definition first_unique :: "'a list \<Rightarrow> 'a list" where
  "first_unique xs = rev (remdups (rev xs))"

definition pair_view :: "readiness_check list \<Rightarrow> string \<Rightarrow> string \<Rightarrow> venue_view" where
  "pair_view checks left right =
     (let l = platform_view checks left; r = platform_view checks right;
          global = map ck_summary (filter (\<lambda>c. blocks c \<and> platform_scope c = None) checks);
          bs = first_unique (global @ vv_blocking l @ vv_blocking r)
      in \<lparr> vv_ready = (bs = []), vv_blocking = bs,
           vv_warnings = first_unique (vv_warnings l @ vv_warnings r) \<rparr>)"

fun venue_pairs :: "readiness_check list \<Rightarrow> string list \<Rightarrow> (string, venue_view) dict" where
  "venue_pairs checks [] = []"
| "venue_pairs checks (left # rest) =
     map (\<lambda>right. (left @ '':'' @ right, pair_view checks left right)) rest @ venue_pairs checks rest"

record readiness_snapshot =
  sn_timestamp :: flt
  sn_mode :: string
  sn_ready :: bool
  sn_blocking :: "string list"
  sn_warnings :: "string list"
  sn_checks :: "readiness_check list"
  sn_venues :: "(string, venue_view) dict"
  sn_pairs :: "(string, venue_view) dict"

definition rd_refresh :: "readiness \<Rightarrow> readiness_snapshot" where
  "rd_refresh r =
     (let checks = all_checks r; bs = map ck_summary (filter blocks checks); ps = known_platforms r checks
      in \<lparr> sn_timestamp = rd_now r, sn_mode = (if rd_dry_run r then ''dry-run'' else ''live''),
           sn_ready = (bs = []), sn_blocking = bs, sn_warnings = map ck_summary (filter warns checks),
           sn_checks = checks, sn_venues = map (\<lambda>k. (k, platform_view checks k)) ps,
           sn_pairs = venue_pairs checks ps \<rparr>)"

definition startup_failures :: "readiness \<Rightarrow> string list" where
  "startup_failures r =
     (if auto_trade_ids r = [] then [''No confirmed auto-trade mappings are enabled''] else [])
     @ (if kalshi_ready r then [] else [''Kalshi API credentials are not configured''])
     @ (case polymarket_credentials r of
          (True, label) \<Rightarrow> []
        | (False, label) \<Rightarrow>
            [if label = ''Polymarket US'' then ''Polymarket US credentials are not configured''
             else ''Polymarket private key is not configured''])"

section \<open>The gate\<close>

definition involved_platforms :: "opportunity \<Rightarrow> string list" where
  "involved_platforms p = [py_lower (opp_yes_platform p), py_lower (opp_no_platform p)]"

definition scope_answer_text :: "scope_answer \<Rightarrow> string" where
  "scope_answer_text a =
     (case a of
        ScopeOk \<Rightarrow> ''platform and pair profitability validated''
      | NoPlatformEvidence k \<Rightarrow> ''No profitability evidence for platform '' @ k
      | PlatformVerdict k v \<Rightarrow> ''Platform profitability for '' @ k @ '' is '' @ verdict_text v
      | NoPairEvidence k \<Rightarrow> ''No profitability evidence for venue pair '' @ k
      | PairVerdict k v \<Rightarrow> ''Venue-pair profitability for '' @ k @ '' is '' @ verdict_text v)"

text \<open>What the loop over the checks does with one of them: pass over it, note it, or deny at once.\<close>

datatype check_effect = PassOver | Note string | Deny string

definition outside :: "readiness_check \<Rightarrow> string list \<Rightarrow> bool" where
  "outside c involved =
     (case platform_scope c of None \<Rightarrow> False
      | Some ps \<Rightarrow> ps \<noteq> [] \<and> set ps \<inter> set involved = {})"

definition check_effect_of :: "readiness \<Rightarrow> opportunity \<Rightarrow> readiness_check \<Rightarrow> check_effect" where
  "check_effect_of r p c =
     (let involved = involved_platforms p
      in if \<not> blocks c then PassOver
         else if ck_key c = ''collectors'' \<and> outside c involved then PassOver
         else if ck_key c = ''balances'' \<and> outside c involved then PassOver
         else if ck_key c = ''profitability'' \<and> rd_profit r \<noteq> None
         then (case validate_opportunity_scope (the (rd_profit r)) p of
                 ScopeOk \<Rightarrow> PassOver | a \<Rightarrow> Deny (scope_answer_text a))
         else if ck_key c = ''incidents'' \<and> open_critical r \<noteq> []
                 \<and> \<not> (\<exists>i \<in> set (open_critical r). incident_touches i involved) then PassOver
         else Note (ck_summary c))"

text \<open>\<open>Inl\<close> is an immediate denial, \<open>Inr\<close> the summaries noted.\<close>

fun walk_checks :: "(readiness_check \<Rightarrow> check_effect) \<Rightarrow> readiness_check list \<Rightarrow> string + string list" where
  "walk_checks f [] = Inr []"
| "walk_checks f (c # cs) =
     (case f c of
        Deny s \<Rightarrow> Inl s
      | PassOver \<Rightarrow> walk_checks f cs
      | Note s \<Rightarrow> (case walk_checks f cs of Inl t \<Rightarrow> Inl t | Inr ss \<Rightarrow> Inr (s # ss)))"

definition low_involved :: "readiness \<Rightarrow> opportunity \<Rightarrow> string list" where
  "low_involved r p =
     filter (\<lambda>k. case map_of (rd_balances r) k of Some b \<Rightarrow> bs_is_low b | None \<Rightarrow> False)
       (sort (remdups (involved_platforms p)))"

definition readiness_allow :: "readiness \<Rightarrow> opportunity \<Rightarrow> bool \<times> string" where
  "readiness_allow r p =
     (if rd_dry_run r then (True, ''dry-run mode collecting evidence'')
      else case walk_checks (check_effect_of r p) (all_checks r) of
             Inl s \<Rightarrow> (False, s)
           | Inr (s # ss) \<Rightarrow> (False, s)
           | Inr [] \<Rightarrow>
               (case (case rd_profit r of None \<Rightarrow> ScopeOk | Some s \<Rightarrow> validate_opportunity_scope s p) of
                  ScopeOk \<Rightarrow>
                    if low_involved r p \<noteq> []
                    then (False, ''Low balances on live venues: '' @ comma_join (low_involved r p))
                    else (True, ''ready for live execution'')
                | a \<Rightarrow> (False, scope_answer_text a)))"

section \<open>Names in a summary\<close>

lemma split_on_nonempty [simp]: "split_on c s \<noteq> []"
  by (induction s) (auto split: list.split)

lemma split_on_none: "c \<notin> set s \<Longrightarrow> split_on c s = [s]"
  by (induction s) auto

lemma split_on_append: "split_on c (a @ c # b) = split_on c a @ split_on c b"
  by (induction a) (auto split: list.split)

lemma strip_blank: "py_strip (CHR '' '' # s) = py_strip s"
  by (simp add: py_strip_def py_space_def)

text \<open>A venue name as the configuration has them: no blank, no colon, no comma.\<close>

definition plain_name :: "string \<Rightarrow> bool" where
  "plain_name k = (k \<noteq> [] \<and> py_strip k = k \<and> CHR '' '' \<notin> set k \<and> CHR '','' \<notin> set k
     \<and> CHR '':'' \<notin> set k)"

lemma comma_split:
  "ns \<noteq> [] \<Longrightarrow> \<forall>n \<in> set ns. CHR '','' \<notin> set n
   \<Longrightarrow> map py_strip (split_on CHR '','' (CHR '' '' # comma_join ns)) = map py_strip ns"
proof (induction ns rule: list_nonempty_induct)
  case (single n)
  then show ?case by (simp add: comma_join_def split_on_none strip_blank)
next
  case (cons n ns)
  then obtain m ms where ns: "ns = m # ms" by (cases ns) auto
  have "CHR '' '' # comma_join (n # ns) = (CHR '' '' # n) @ CHR '','' # (CHR '' '' # comma_join ns)"
    by (simp add: ns comma_join_def)
  then have "split_on CHR '','' (CHR '' '' # comma_join (n # ns))
      = split_on CHR '','' (CHR '' '' # n) @ split_on CHR '','' (CHR '' '' # comma_join ns)"
    by (simp only: split_on_append)
  with cons show ?case by (simp add: split_on_none strip_blank)
qed

lemma comma_join_chars: "c \<in> set (comma_join ns) \<Longrightarrow> c = CHR '','' \<or> c = CHR '' '' \<or> (\<exists>n \<in> set ns. c \<in> set n)"
  unfolding comma_join_def by (induction ns rule: induct_list012) auto

lemma summary_names_join:
  assumes "ns \<noteq> []" "\<forall>n \<in> set ns. plain_name n"
  shows "summary_names (a @ CHR '':'' # CHR '' '' # comma_join ns) = map py_lower ns"
proof -
  have "CHR '':'' \<notin> set (CHR '' '' # comma_join ns)"
    using assms(2) comma_join_chars[of "CHR '':''" ns] by (auto simp: plain_name_def)
  note none = split_on_none[OF this]
  have "last (split_on CHR '':'' (a @ CHR '':'' # CHR '' '' # comma_join ns)) = CHR '' '' # comma_join ns"
    by (simp only: split_on_append none last_snoc)
  moreover have stripped: "map py_strip (split_on CHR '','' (CHR '' '' # comma_join ns)) = map py_strip ns"
    using assms by (intro comma_split) (auto simp: plain_name_def)
  have twice: "map (\<lambda>n. py_lower (py_strip n)) xs = map py_lower (map py_strip xs)" for xs by simp
  have "map (\<lambda>n. py_lower (py_strip n)) (split_on CHR '','' (CHR '' '' # comma_join ns))
      = map (\<lambda>n. py_lower (py_strip n)) ns"
    unfolding twice stripped ..
  moreover have "filter (\<lambda>n. n \<noteq> []) (map (\<lambda>n. py_lower (py_strip n)) ns) = map py_lower ns"
    using assms(2) by (induction ns) (auto simp: plain_name_def py_lower_def)
  ultimately show ?thesis by (simp add: summary_names_def)
qed

section \<open>When the gate opens\<close>

lemma walk_open: "walk_checks f cs = Inr [] \<longleftrightarrow> (\<forall>c \<in> set cs. f c = PassOver)"
  by (induction cs) (auto split: check_effect.split sum.split)

lemma allow_iff:
  assumes "\<not> rd_dry_run r"
  shows "fst (readiness_allow r p) \<longleftrightarrow> (\<forall>c \<in> set (all_checks r). check_effect_of r p c = PassOver)
    \<and> (case rd_profit r of None \<Rightarrow> True | Some s \<Rightarrow> validate_opportunity_scope s p = ScopeOk)
    \<and> low_involved r p = []"
proof (cases "walk_checks (check_effect_of r p) (all_checks r) = Inr []")
  case True
  then have pass: "\<forall>c \<in> set (all_checks r). check_effect_of r p c = PassOver" by (simp only: walk_open)
  from assms True have "fst (readiness_allow r p) \<longleftrightarrow>
      (case rd_profit r of None \<Rightarrow> True | Some s \<Rightarrow> validate_opportunity_scope s p = ScopeOk)
      \<and> low_involved r p = []"
    by (simp add: readiness_allow_def split: option.split scope_answer.split)
  with pass show ?thesis by blast
next
  case False
  have "\<not> fst (readiness_allow r p)"
  proof (cases "walk_checks (check_effect_of r p) (all_checks r)")
    case (Inl s)
    with assms show ?thesis by (simp add: readiness_allow_def)
  next
    case (Inr ss)
    with assms False show ?thesis by (cases ss) (simp_all add: readiness_allow_def)
  qed
  with False show ?thesis by (simp add: walk_open)
qed

text \<open>What has to hold for an opportunity to be let through in live mode.\<close>

definition collectors_in_trouble :: "readiness \<Rightarrow> string list" where
  "collectors_in_trouble r = (if failed_collectors r \<noteq> [] then failed_collectors r else cold_collectors r)"

definition no_drift :: "readiness \<Rightarrow> bool" where
  "no_drift r =
     (case rd_reconciler r of None \<Rightarrow> True
      | Some rc \<Rightarrow> (case latest_report rc of None \<Rightarrow> True
                   | Some rep \<Rightarrow> rr_has_flags rep \<longrightarrow> all_zero_balances rep))"

definition live_ready :: "readiness \<Rightarrow> opportunity \<Rightarrow> bool" where
  "live_ready r p =
     (let involved = set (involved_platforms p)
      in auto_trade_ids r \<noteq> [] \<and> kalshi_ready r \<and> fst (polymarket_credentials r)
         \<and> rd_telegram_token r \<noteq> [] \<and> rd_telegram_chat r \<noteq> []
         \<and> (case rd_profit r of None \<Rightarrow> False | Some s \<Rightarrow> validate_opportunity_scope s p = ScopeOk)
         \<and> (\<forall>i \<in> set (open_critical r). incident_platform i \<noteq> [] \<and> incident_platform i \<notin> involved)
         \<and> rd_balances r \<noteq> []
         \<and> (\<forall>(k, b) \<in> set (rd_balances r). bs_is_low b \<longrightarrow> py_lower k \<notin> involved)
         \<and> py_lower ` set (collectors_in_trouble r) \<inter> involved = {}
         \<and> no_drift r)"

lemmas check_unfold = check_effect_of_def Let_def mk_check_def blocks_def

lemma effect_mappings: "check_effect_of r p (check_auto_trade_mappings r) = PassOver \<longleftrightarrow> auto_trade_ids r \<noteq> []"
  by (simp add: check_auto_trade_mappings_def check_unfold)

lemma effect_credentials:
  "check_effect_of r p (check_platform_credentials r) = PassOver
     \<longleftrightarrow> kalshi_ready r \<and> fst (polymarket_credentials r)"
  by (simp add: check_platform_credentials_def check_unfold case_prod_unfold)

lemma effect_alerting:
  "check_effect_of r p (check_alerting r) = PassOver \<longleftrightarrow> rd_telegram_token r \<noteq> [] \<and> rd_telegram_chat r \<noteq> []"
  by (simp add: check_alerting_def check_unfold)

lemma check_keys [simp]:
  "ck_key (check_profitability r) = ''profitability''" "ck_key (check_incidents r) = ''incidents''"
  "ck_key (check_balances r) = ''balances''" "ck_key (check_collectors r) = ''collectors''"
  "ck_key (check_reconciliation r) = ''reconciliation''"
  "ck_key (check_quote_freshness r) = ''quote_freshness''"
  by (simp_all add: check_profitability_def check_incidents_def check_balances_def check_collectors_def
      check_reconciliation_def check_quote_freshness_def mk_check_def Let_def split: option.split)

lemma effect_profitability:
  "check_effect_of r p (check_profitability r) = PassOver
   \<and> (case rd_profit r of None \<Rightarrow> True | Some s \<Rightarrow> validate_opportunity_scope s p = ScopeOk)
     \<longleftrightarrow> (case rd_profit r of None \<Rightarrow> False | Some s \<Rightarrow> validate_opportunity_scope s p = ScopeOk)"
proof (cases "rd_profit r")
  case None
  then show ?thesis by (simp add: check_profitability_def check_unfold)
next
  case (Some s)
  then show ?thesis by (auto simp: check_effect_of_def Let_def)
qed

lemma effect_incidents:
  "check_effect_of r p (check_incidents r) = PassOver
     \<longleftrightarrow> (\<forall>i \<in> set (open_critical r). incident_platform i \<noteq> [] \<and> incident_platform i \<notin> set (involved_platforms p))"
proof (cases "open_critical r = []")
  case True
  then show ?thesis by (simp add: check_effect_of_def Let_def) (simp add: check_incidents_def blocks_def mk_check_def Let_def)
next
  case False
  then have "blocks (check_incidents r)" by (simp add: check_incidents_def blocks_def mk_check_def Let_def)
  with False show ?thesis by (simp add: check_effect_of_def Let_def incident_touches_def)
qed

lemma effect_balances:
  "check_effect_of r p (check_balances r) = PassOver
     \<longleftrightarrow> rd_balances r \<noteq> [] \<and> (\<forall>(k, b) \<in> set (rd_balances r). bs_is_low b
            \<longrightarrow> py_lower k \<notin> set (involved_platforms p))"
proof -
  let ?low = "filter (\<lambda>(k, b). bs_is_low b) (rd_balances r)"
  have blocks: "blocks (check_balances r) \<longleftrightarrow> rd_balances r = [] \<or> ?low \<noteq> []"
    by (simp add: check_balances_def blocks_def mk_check_def Let_def)
  have scope: "platform_scope (check_balances r)
      = (if ?low = [] then None else Some (map (\<lambda>(k, b). py_lower k) ?low))"
    by (simp add: platform_scope_def check_balances_def mk_check_def balance_details_def Let_def filter_map comp_def
        case_prod_unfold)
  have "(\<forall>(k, b) \<in> set (rd_balances r). bs_is_low b \<longrightarrow> py_lower k \<notin> set (involved_platforms p))
      \<longleftrightarrow> set (map (\<lambda>(k, b). py_lower k) ?low) \<inter> set (involved_platforms p) = {}"
    by fastforce
  then show ?thesis
    by (cases "rd_balances r = []"; cases "?low = []")
      (simp_all add: check_effect_of_def Let_def blocks scope outside_def)
qed

lemma no_telemetry_names:
  "summary_names ''Collector telemetry is unavailable'' = [''collector telemetry is unavailable'']"
  by code_simp

lemma effect_collectors:
  assumes "\<forall>(k, c) \<in> set (rd_collectors r). plain_name k" "\<forall>k \<in> set (involved_platforms p). plain_name k"
  shows "check_effect_of r p (check_collectors r) = PassOver
     \<longleftrightarrow> py_lower ` set (collectors_in_trouble r) \<inter> set (involved_platforms p) = {}"
proof -
  let ?bad = "collectors_in_trouble r"
  have plain: "\<forall>n \<in> set (sort ?bad). plain_name n"
    using assms(1) by (auto simp: collectors_in_trouble_def failed_collectors_def cold_collectors_def)
  have texts: "''Collector health is degraded: '' @ x = ''Collector health is degraded'' @ CHR '':'' # CHR '' '' # x"
    "''Collectors are still warming up: '' @ x = ''Collectors are still warming up'' @ CHR '':'' # CHR '' '' # x" for x
    by simp_all
  consider (none) "rd_collectors r = []" | (healthy) "rd_collectors r \<noteq> []" "?bad = []"
    | (trouble) "rd_collectors r \<noteq> []" "?bad \<noteq> []" by blast
  then show ?thesis
  proof cases
    case none
    then have "?bad = []" by (simp add: collectors_in_trouble_def failed_collectors_def cold_collectors_def)
    moreover have "outside (check_collectors r) (involved_platforms p)"
      using none assms(2) no_telemetry_names
      by (auto simp: check_collectors_def mk_check_def Let_def outside_def platform_scope_def plain_name_def)
    ultimately show ?thesis by (simp add: check_effect_of_def Let_def)
  next
    case healthy
    then have "\<not> blocks (check_collectors r)"
      by (auto simp: collectors_in_trouble_def check_collectors_def mk_check_def Let_def blocks_def split: if_splits)
    with healthy show ?thesis by (simp add: check_effect_of_def)
  next
    case trouble
    then have "blocks (check_collectors r)"
      by (auto simp: collectors_in_trouble_def check_collectors_def mk_check_def Let_def blocks_def)
    moreover from trouble have ne: "sort ?bad \<noteq> []" by (metis length_sort length_0_conv)
    moreover have "platform_scope (check_collectors r) = Some (map py_lower (sort ?bad))"
    proof -
      note names = summary_names_join[OF ne plain]
      from trouble have "ck_summary (check_collectors r) = ''Collector health is degraded: '' @ comma_join (sort ?bad)
        \<or> ck_summary (check_collectors r) = ''Collectors are still warming up: '' @ comma_join (sort ?bad)"
        by (auto simp: collectors_in_trouble_def check_collectors_def mk_check_def Let_def)
      with names show ?thesis by (auto simp only: platform_scope_def check_keys texts simp_thms if_True)
    qed
    ultimately show ?thesis using trouble
      by (auto simp: check_effect_of_def Let_def outside_def)
  qed
qed

lemma effect_freshness: "check_effect_of r p (check_quote_freshness r) = PassOver"
  by (simp add: check_effect_of_def Let_def)
    (simp add: check_quote_freshness_def blocks_def mk_check_def Let_def split: option.split)

lemma effect_reconciliation: "check_effect_of r p (check_reconciliation r) = PassOver \<longleftrightarrow> no_drift r"
  by (simp add: check_effect_of_def Let_def)
    (auto simp: check_reconciliation_def blocks_def mk_check_def no_drift_def split: option.split)

lemma lower_idem [simp]: "py_lower (py_lower s) = py_lower s"
proof -
  have "lower_char (lower_char c) = lower_char c" for c
    by (auto simp: lower_char_def Let_def)
  then show ?thesis by (simp add: py_lower_def)
qed

lemma low_involved_none:
  assumes "\<forall>(k, b) \<in> set (rd_balances r). bs_is_low b \<longrightarrow> py_lower k \<notin> set (involved_platforms p)"
  shows "low_involved r p = []"
proof -
  have "\<not> bs_is_low b" if "k \<in> set (involved_platforms p)" "map_of (rd_balances r) k = Some b" for k b
  proof -
    from that(1) have "py_lower k \<in> set (involved_platforms p)" by (auto simp: involved_platforms_def)
    with assms map_of_SomeD[OF that(2)] show ?thesis by auto
  qed
  then show ?thesis by (auto simp: low_involved_def filter_empty_conv split: option.split)
qed

lemma readiness_open_iff:
  assumes "\<not> rd_dry_run r" "\<forall>(k, c) \<in> set (rd_collectors r). plain_name k"
    and "\<forall>k \<in> set (involved_platforms p). plain_name k"
  shows "fst (readiness_allow r p) \<longleftrightarrow> live_ready r p"
  unfolding allow_iff[OF assms(1)] live_ready_def Let_def
  using effect_profitability[of r p] low_involved_none[of r p]
  by (auto simp: all_checks_def effect_mappings effect_credentials effect_alerting effect_incidents
      effect_balances effect_collectors[OF assms(2,3)] effect_freshness effect_reconciliation)

text \<open>
  C7.  In live mode, for collectors and venues with plain names, the readiness gate opens for an opportunity
  exactly when a confirmed mapping may trade, the credentials and the alerting are there, the venues
  and the pair have proven profitable, every open critical incident is tagged with another venue,
  balances are known and none of the two venues is low, the collector check names neither of the two
  venues, and no drift is flagged.  The collector check names the collectors that have failed or,
  only when none at all has failed, those that never fetched: a venue that never fetched is passed
  over while another venue's collector is down.
\<close>

theorem readiness_allows_iff:
  assumes "\<not> rd_dry_run r" "\<forall>(k, c) \<in> set (rd_collectors r). plain_name k"
    and "\<forall>k \<in> set (involved_platforms p). plain_name k"
  shows "fst (readiness_allow r p) \<longleftrightarrow> live_ready r p"
  using assms by (rule readiness_open_iff)

section \<open>What the gate gives the engine\<close>

text \<open>
  C6.  A trade that goes to the venues is backed by evidence.  With the gate of the program, readiness
  before the kill switch, in live mode, the engine hands an opportunity to live placement only when
  its venues and its pair have the required record in the executions the validator last looked at, no
  open critical incident is untagged or touches its venues, and the kill switch is not armed.
\<close>

theorem live_trades_are_backed:
  assumes "execute_opportunity env p en = (en', GoLive a q)"
    and "xe_gate env = chained_gate (\<lambda>o'. fst (readiness_allow r o')) now"
    and "\<not> rd_dry_run r" "\<forall>(k, c) \<in> set (rd_collectors r). plain_name k"
    and "\<forall>k \<in> set (involved_platforms p). plain_name k"
    and "rd_engine r = Some en" "rd_profit r = Some (profit_snapshot_of t sc en0 v)"
    and "sane_profit_config (pv_config v)"
  shows "proven_for (pv_config v) (completed_executions (en_executions en0)) p
    \<and> (\<forall>i \<in> set (en_incidents en). inc_status i \<noteq> ''resolved'' \<and> is_critical i
          \<longrightarrow> \<not> incident_touches i (involved_platforms p))
    \<and> \<not> is_armed (en_safety en)"
proof -
  from assms(1) have "xe_gate env (en_safety en) p" by (cases rule: execute_reaches) simp_all
  then have gate: "chained_gate (\<lambda>o'. fst (readiness_allow r o')) now (en_safety en) p"
    by (simp add: assms(2))
  then have "fst (readiness_allow r p)" by (simp add: chained_gate_def split: if_splits)
  then have ready: "live_ready r p" using readiness_open_iff[OF assms(3-5)] by simp
  then have "validate_opportunity_scope (profit_snapshot_of t sc en0 v) p = ScopeOk"
    by (simp add: live_ready_def Let_def assms(7))
  then have "proven_for (pv_config v) (completed_executions (en_executions en0)) p"
    by (simp add: scope_gate_iff_proven[OF assms(8)])
  moreover from ready have "\<forall>i \<in> set (open_critical r). \<not> incident_touches i (involved_platforms p)"
    by (simp add: live_ready_def Let_def incident_touches_def)
  then have "\<forall>i \<in> set (en_incidents en). inc_status i \<noteq> ''resolved'' \<and> is_critical i
      \<longrightarrow> \<not> incident_touches i (involved_platforms p)"
    by (auto simp: open_critical_def open_incidents_def rd_incidents_def assms(6))
  moreover from gate have "\<not> is_armed (en_safety en)" by (rule chained.allowed_not_blocked)
  ultimately show ?thesis by blast
qed

text \<open>
  The bootstrap of phase 5 never opens the gate: it turns the profitability check green, but the
  verdict on the venues and the pair is asked for again, and whatever the variable says the answer
  of the gate is the same.
\<close>

theorem bootstrap_never_opens:
  "fst (readiness_allow (r\<lparr>rd_bootstrap := b\<rparr>) p) = fst (readiness_allow r p)"
proof (cases "rd_dry_run r")
  case True
  then show ?thesis by (simp add: readiness_allow_def)
next
  case False
  let ?r = "r\<lparr>rd_bootstrap := b\<rparr>"
  have "auto_trade_ids ?r = auto_trade_ids r" "kalshi_ready ?r = kalshi_ready r"
    "polymarket_credentials ?r = polymarket_credentials r" "open_incidents ?r = open_incidents r"
    "balance_details ?r = balance_details r" "failed_collectors ?r = failed_collectors r"
    "cold_collectors ?r = cold_collectors r" "low_involved ?r p = low_involved r p"
    by (simp_all add: auto_trade_ids_def kalshi_ready_def polymarket_credentials_def open_incidents_def
        rd_incidents_def balance_details_def failed_collectors_def cold_collectors_def low_involved_def)
  note parts = this
  have "open_critical ?r = open_critical r" by (simp add: open_critical_def parts)
  note parts = this parts
  have "rd_now ?r = rd_now r" "rd_collectors ?r = rd_collectors r"
    "rd_price_store ?r = rd_price_store r" "rd_reconciler ?r = rd_reconciler r"
    "rd_balances ?r = rd_balances r" "rd_profit ?r = rd_profit r" by simp_all
  note parts = this parts
  have same: "check_auto_trade_mappings ?r = check_auto_trade_mappings r"
    "check_platform_credentials ?r = check_platform_credentials r" "check_alerting ?r = check_alerting r"
    "check_incidents ?r = check_incidents r" "check_balances ?r = check_balances r"
    "check_collectors ?r = check_collectors r" "check_quote_freshness ?r = check_quote_freshness r"
    "check_reconciliation ?r = check_reconciliation r"
    unfolding check_auto_trade_mappings_def check_platform_credentials_def check_alerting_def
      check_incidents_def check_balances_def check_collectors_def check_quote_freshness_def
      check_reconciliation_def parts by simp_all
  have effect: "check_effect_of ?r p c = check_effect_of r p c" for c
    unfolding check_effect_of_def parts ..
  from False effect_profitability[of ?r p] effect_profitability[of r p] show ?thesis
    by (auto simp: allow_iff all_checks_def same parts effect)
qed

section \<open>The views\<close>

lemma pair_view_ready: "filter blocks checks = [] \<Longrightarrow> vv_ready (pair_view checks l r)"
  by (auto simp: pair_view_def platform_view_def first_unique_def Let_def filter_empty_conv)

lemma venue_pairs_view: "(k, vw) \<in> set (venue_pairs checks ps) \<Longrightarrow> \<exists>l r. vw = pair_view checks l r"
  by (induction checks ps rule: venue_pairs.induct) auto

text \<open>When the program as a whole is ready, so is every pair of venues in the scoped view.\<close>

lemma scoped_view_agrees:
  "sn_ready (rd_refresh r) \<Longrightarrow> (k, vw) \<in> set (sn_pairs (rd_refresh r)) \<Longrightarrow> vv_ready vw"
  by (auto simp: rd_refresh_def Let_def dest!: venue_pairs_view intro!: pair_view_ready)

text \<open>A gate that opens leaves nothing of what stops a start.\<close>

lemma ready_starts: "live_ready r p \<Longrightarrow> startup_failures r = []"
  by (auto simp: live_ready_def startup_failures_def Let_def split: prod.split bool.split)

text \<open>Without any collector the snapshot is not ready, and the gate does not mind.\<close>

lemma no_collectors_pass:
  assumes "rd_collectors r = []" "\<forall>k \<in> set (involved_platforms p). plain_name k"
  shows "\<not> sn_ready (rd_refresh r) \<and> check_effect_of r p (check_collectors r) = PassOver"
proof -
  have "blocks (check_collectors r)" using assms(1) by (simp add: check_collectors_def mk_check_def blocks_def)
  then have "\<not> sn_ready (rd_refresh r)"
    by (auto simp: rd_refresh_def Let_def all_checks_def filter_empty_conv)
  moreover have "collectors_in_trouble r = []"
    using assms(1) by (simp add: collectors_in_trouble_def failed_collectors_def cold_collectors_def)
  ultimately show ?thesis using effect_collectors[of r p] assms by simp
qed

text \<open>A failing collector elsewhere hides that one of the two venues has not fetched anything yet.\<close>

lemma failure_hides_cold:
  assumes "failed_collectors r \<noteq> []" "py_lower ` set (failed_collectors r) \<inter> set (involved_platforms p) = {}"
    and "\<forall>(k, c) \<in> set (rd_collectors r). plain_name k" "\<forall>k \<in> set (involved_platforms p). plain_name k"
  shows "check_effect_of r p (check_collectors r) = PassOver"
  using assms(1,2) by (simp add: effect_collectors[OF assms(3,4)] collectors_in_trouble_def)

text \<open>The scoped view charges incidents to the venues of the first five only.\<close>

lemma scoped_view_sees_five:
  assumes "open_critical r \<noteq> []" "\<forall>i \<in> set (open_critical r). incident_platform i \<noteq> []"
  shows "platform_scope (check_incidents r) = Some (map incident_platform (take 5 (open_critical r)))"
  using assms by (auto simp: platform_scope_def check_incidents_def mk_check_def Let_def dest: in_set_takeD)

section \<open>A demonstration\<close>

definition demo_live_engine :: engine where
  "demo_live_engine = demo_engine\<lparr>en_config := default_scanner_config\<lparr>dry_run := False\<rparr>\<rparr>"

definition demo_ready :: readiness where
  "demo_ready =
     \<lparr> rd_now = 60, rd_dry_run = False, rd_kalshi_key_id = ''id'', rd_kalshi_key_path = ''path'',
       rd_polymarket = PolymarketLegacy (Some ''key''), rd_telegram_token = ''t'', rd_telegram_chat = ''c'',
       rd_market_map = [(''A'', empty_mapping\<lparr>m_status := Some ''confirmed'', m_allow_auto_trade := Some True\<rparr>)],
       rd_engine = Some demo_live_engine,
       rd_balances = [(''forecastex'', \<lparr> bs_balance = 500, bs_is_low = False, bs_timestamp = 50 \<rparr>)],
       rd_profit = Some (profit_snapshot_of 50 (new_scanner default_scanner_config 10 NoProvider)
                           demo_paid_engine demo_validator),
       rd_bootstrap = None,
       rd_collectors = [(''forecastex'', \<lparr> co_total_fetches = 9, co_total_errors = 0,
                           co_consecutive_errors = 0, co_circuits = [''closed''], co_authenticated = True \<rparr>)],
       rd_reconciler = None, rd_price_store = None \<rparr>"

lemma demo_ready_names:
  "\<forall>(k, c) \<in> set (rd_collectors demo_ready). plain_name k" "\<forall>k \<in> set (involved_platforms demo_opp). plain_name k"
  "\<not> rd_dry_run demo_ready" "rd_engine demo_ready = Some demo_live_engine"
  by (simp_all add: demo_ready_def involved_platforms_def demo_opp_fields demo_lower plain_name_def
      py_strip_def py_space_def)

lemma demo_live_ready: "live_ready demo_ready demo_opp"
proof -
  have "open_critical demo_ready = []"
    by (simp add: open_critical_def open_incidents_def rd_incidents_def demo_ready_def demo_live_engine_def
        demo_engine_def new_engine_def)
  moreover have "collectors_in_trouble demo_ready = []"
    by (simp add: collectors_in_trouble_def failed_collectors_def cold_collectors_def demo_ready_def
        collector_failed_def)
  moreover have "rd_profit demo_ready = Some (profit_snapshot_of 50
      (new_scanner default_scanner_config 10 NoProvider) demo_paid_engine demo_validator)"
    by (simp add: demo_ready_def)
  moreover have "auto_trade_ids demo_ready \<noteq> []"
    by (simp add: auto_trade_ids_def iter_confirmed_market_mappings_def demo_ready_def opt_get_def)
  ultimately show ?thesis
    by (simp add: live_ready_def Let_def demo_scope_ok)
      (simp add: demo_ready_def kalshi_ready_def polymarket_credentials_def no_drift_def)
qed

theorem readiness_allows_iff_witness: "fst (readiness_allow demo_ready demo_opp)"
  using readiness_allows_iff[OF demo_ready_names(3,1,2)] demo_live_ready by simp

lemma demo_live_gated:
  assumes "xe_gate env = gate" "gate (en_safety demo_live_engine) demo_opp"
    and "env = demo_exec_env\<lparr>xe_gate := gate\<rparr>"
  shows "\<exists>en' a. execute_opportunity env demo_opp demo_live_engine = (en', GoLive a demo_opp)"
proof -
  have env: "xe_now env = 60" "xe_prices env = None" "xe_seq env = None" "xe_db env = None"
    "live_resolution env p = ''identical''" for p
    using demo_env_fields by (simp_all add: assms(3) live_resolution_def)
  have audit: "audit_flags (ma_max_position_usd (new_auditor 100)) demo_opp = []"
    by (simp add: new_auditor_def demo_opp_audit)
  have en: "en_safety demo_live_engine = en_safety demo_engine"
    "en_risk demo_live_engine = en_risk demo_engine" "en_auditor demo_live_engine = en_auditor demo_engine"
    "en_recent_signatures demo_live_engine = []" "en_signatures_last_pruned demo_live_engine = 0"
    "\<not> dry_run (en_config demo_live_engine)"
    by (simp_all add: demo_live_engine_def demo_engine_fields)
  have gate: "gate (new_supervisor 30 [] None None) demo_opp"
    using assms(2) by (simp add: en demo_engine_fields)
  show ?thesis
    by (simp add: execute_opportunity_def Let_def case_prod_unfold env demo_engine_fields en assms(1)
        demo_trade_approved_60 demo_opp_fields gate signature_dedup_window_def run_gated_def
        pre_trade_requote_def opp_audit_ok audit finish_execution_def)
qed

theorem live_trades_are_backed_witness:
  "\<exists>en' a. execute_opportunity
       (demo_exec_env\<lparr>xe_gate := chained_gate (\<lambda>o'. fst (readiness_allow demo_ready o')) 60\<rparr>)
       demo_opp demo_live_engine = (en', GoLive a demo_opp)
   \<and> proven_for demo_profit_config (completed_executions (en_executions demo_paid_engine)) demo_opp"
proof -
  let ?gate = "chained_gate (\<lambda>o'. fst (readiness_allow demo_ready o')) 60"
  let ?env = "demo_exec_env\<lparr>xe_gate := ?gate\<rparr>"
  have ok: "fst (readiness_allow demo_ready demo_opp)"
    using readiness_open_iff[OF demo_ready_names(3,1,2)] demo_live_ready by simp
  have "?gate (en_safety demo_live_engine) demo_opp"
    using ok by (simp add: chained_gate_def allow_execution_def demo_live_engine_def demo_engine_fields
        new_supervisor_def initial_safety_state_def)
  then obtain en' a where x: "execute_opportunity ?env demo_opp demo_live_engine = (en', GoLive a demo_opp)"
    using demo_live_gated[of ?env ?gate] by auto
  have v: "sane_profit_config (pv_config demo_validator)" "pv_config demo_validator = demo_profit_config"
    by (simp_all add: sane_profit_config_def demo_validator_def demo_profit_config_def default_profit_config_def)
  have snap: "rd_profit demo_ready = Some (profit_snapshot_of 50
      (new_scanner default_scanner_config 10 NoProvider) demo_paid_engine demo_validator)"
    by (simp add: demo_ready_def)
  from live_trades_are_backed[OF x _ demo_ready_names(3,1,2,4) snap v(1), of 60] x v(2) show ?thesis by simp
qed

end
