(* ===== verification/Retry_Scheduler.thy ===== *)
theory Retry_Scheduler
  imports Auto_Executor
begin

text \<open>
  \<open>RetryScheduler\<close> of \<open>arbiter/execution/retry_scheduler.py\<close>: which failed trades are retried, with
  what quotes, how often, and what is written down about it.  One step is the handling of one
  execution from the engine's queue, with its sleeps; what the rest of the program does to the engine
  during a sleep is part of the environment.
\<close>

section \<open>Why a trade failed\<close>

definition terminal_failed_leg :: "order \<Rightarrow> bool" where
  "terminal_failed_leg r = (ord_status r \<in> {FAILED, CANCELLED, ABORTED})"

definition says_skipped :: "order \<Rightarrow> bool" where
  "says_skipped r = contains ''second leg skipped'' (py_lower (ord_error r))"

definition primary_failed_leg :: "arb_execution \<Rightarrow> order" where
  "primary_failed_leg e =
     (let y = ex_leg_yes e; n = ex_leg_no e
      in if terminal_failed_leg y \<and> (\<not> terminal_failed_leg n \<or> says_skipped n) then y
         else if terminal_failed_leg n \<and> (\<not> terminal_failed_leg y \<or> says_skipped y) then n
         else if ord_error y \<noteq> [] then y
         else n)"

definition failure_reason_of :: "string \<Rightarrow> string" where
  "failure_reason_of err =
     (if contains ''fok'' err \<and> (contains ''reject'' err \<or> contains ''insufficient'' err)
      then ''Insufficient liquidity (FOK rejected)''
      else if contains ''second leg skipped'' err then ''Second leg skipped (primary leg failed)''
      else if contains ''slippage'' err then ''Price moved beyond threshold''
      else if contains ''timeout'' err then ''Local timeout''
      else if contains ''http'' err \<or> contains ''connection'' err \<or> contains ''503'' err
              \<or> contains ''502'' err \<or> contains ''504'' err \<or> contains ''reset by peer'' err
      then ''Platform API error''
      else if contains ''no adapter'' err then ''No platform adapter configured''
      else ''Platform error'')"

definition classify_failure :: "arb_execution \<Rightarrow> string \<times> string \<times> string" where
  "classify_failure e =
     (let leg = primary_failed_leg e
      in (ord_side leg, ord_platform leg, failure_reason_of (py_lower (ord_error leg))))"

section \<open>State and environment\<close>

record retry_config =
  rg_max_retries :: int
  rg_retry_delay_s :: flt
  rg_min_edge_cents_retry :: flt
  rg_max_quote_age_seconds :: flt
  rg_rejected_cooldown_s :: flt

definition default_retry_config :: retry_config where
  "default_retry_config = \<lparr> rg_max_retries = 2, rg_retry_delay_s = 30, rg_min_edge_cents_retry = 3,
     rg_max_quote_age_seconds = 30, rg_rejected_cooldown_s = 60 \<rparr>"

record retry_stats =
  rt_considered :: int
  rt_skipped_not_failed :: int
  rt_skipped_cooldown :: int
  rt_retries_attempted :: int
  rt_retried_success :: int
  rt_retry_exhausted :: int
  rt_spread_closed :: int
  rt_last_record_ts :: flt

datatype disposition = DPending | DSuccess | DExhausted | DSpreadClosed

record failed_trade =
  fr_arb_id :: string
  fr_canonical_id :: string
  fr_description :: string
  fr_yes_platform :: string
  fr_no_platform :: string
  fr_failed_leg_side :: string
  fr_failed_leg_platform :: string
  fr_failure_reason :: string
  fr_failure_raw :: string
  fr_original_yes_price :: flt
  fr_original_no_price :: flt
  fr_original_net_edge_cents :: flt
  fr_retry_attempts :: int
  fr_retry_arb_ids :: "string list"
  fr_retry_edges_cents :: "flt list"
  fr_final_disposition :: disposition
  fr_final_reason :: message
  fr_retried_arb_id :: "string option"
  fr_timestamp :: flt

definition failed_trade_to_dict :: "failed_trade \<Rightarrow> failed_trade" where
  "failed_trade_to_dict f = f\<lparr>fr_original_yes_price := round_nd 4 (fr_original_yes_price f),
     fr_original_no_price := round_nd 4 (fr_original_no_price f),
     fr_original_net_edge_cents := round_nd 2 (fr_original_net_edge_cents f),
     fr_retry_edges_cents := map (round_nd 2) (fr_retry_edges_cents f)\<rparr>"

type_synonym rejection_key = "string \<times> string \<times> int"

record retry_scheduler =
  rs_config :: retry_config
  rs_failed_trades :: "failed_trade list"
  rs_stats :: retry_stats
  rs_cooldowns :: "(rejection_key, flt) dict"

definition new_retry_scheduler :: "retry_config \<Rightarrow> retry_scheduler" where
  "new_retry_scheduler cfg =
     \<lparr> rs_config = cfg, rs_failed_trades = [],
       rs_stats = \<lparr> rt_considered = 0, rt_skipped_not_failed = 0, rt_skipped_cooldown = 0,
                    rt_retries_attempted = 0, rt_retried_success = 0, rt_retry_exhausted = 0,
                    rt_spread_closed = 0, rt_last_record_ts = 0 \<rparr>,
       rs_cooldowns = [] \<rparr>"

text \<open>
  The attempts are numbered from 1.  \<open>rx_sleep\<close> is what happens to the engine while the scheduler
  sleeps before an attempt, \<open>rx_now\<close> the time of its re-quote (0: when the execution is taken from
  the queue), \<open>rx_done\<close> the time at the end, \<open>rx_quote\<close> the price store, when wired, and \<open>rx_live\<close> what
  the engine and the venues answer with.
\<close>

record retry_env =
  rx_now :: "nat \<Rightarrow> flt"
  rx_done :: flt
  rx_sleep :: "nat \<Rightarrow> live \<Rightarrow> live"
  rx_quote :: "(nat \<Rightarrow> string \<Rightarrow> string \<Rightarrow> quote_answer) option"
  rx_live :: "nat \<Rightarrow> live_env"

section \<open>The cool-down of a rejected price\<close>

definition cooldown_key :: "order \<Rightarrow> rejection_key option" where
  "cooldown_key leg =
     (let side = py_lower (ord_side leg)
      in if ord_market_id leg = [] \<or> side = [] then None
         else Some (ord_market_id leg, side, py_round (ord_price leg * 100)))"

definition in_rejection_cooldown ::
  "flt \<Rightarrow> rejection_key \<Rightarrow> retry_scheduler \<Rightarrow> retry_scheduler \<times> bool" where
  "in_rejection_cooldown now k s =
     (case map_of (rs_cooldowns s) k of
        None \<Rightarrow> (s, False)
      | Some ts \<Rightarrow>
          if rg_rejected_cooldown_s (rs_config s) \<le> now - ts
          then (s\<lparr>rs_cooldowns := AList.delete k (rs_cooldowns s)\<rparr>, False) else (s, True))"

definition note_rejection :: "flt \<Rightarrow> rejection_key \<Rightarrow> retry_scheduler \<Rightarrow> retry_scheduler" where
  "note_rejection now k s =
     (let d = AList.update k now (rs_cooldowns s)
      in s\<lparr>rs_cooldowns := (if 512 < length d
                             then filter (\<lambda>(k, ts). now - ts < rg_rejected_cooldown_s (rs_config s)) d
                             else d)\<rparr>)"

section \<open>Fresh quotes\<close>

definition retry_requoted :: "flt \<Rightarrow> opportunity \<Rightarrow> price_point \<Rightarrow> price_point \<Rightarrow> opportunity" where
  "retry_requoted now p cy cn =
     (let yes_price = pp_yes_price cy; no_price = pp_no_price cn; gross = 1 - yes_price - no_price;
          qty = max (if opp_suggested_qty p = 0 then 1 else opp_suggested_qty p) 1;
          total_fees = (compute_fee (opp_yes_platform p) yes_price qty (pp_fee_rate cy)
                        + compute_fee (opp_no_platform p) no_price qty (pp_fee_rate cn)) / of_int qty;
          net = gross - total_fees
      in p\<lparr> opp_yes_price := yes_price, opp_no_price := no_price,
            opp_yes_market_id := or_str (pp_yes_market_id cy) (opp_yes_market_id p),
            opp_no_market_id := or_str (pp_no_market_id cn) (opp_no_market_id p),
            opp_gross_edge := gross, opp_total_fees := total_fees, opp_net_edge := net,
            opp_net_edge_cents := net * 100,
            opp_quote_age_seconds := max (age_seconds now cy) (age_seconds now cn),
            opp_timestamp := now, opp_yes_fee_rate := pp_fee_rate cy,
            opp_no_fee_rate := pp_fee_rate cn \<rparr>)"

definition retry_requote ::
  "flt \<Rightarrow> (string \<Rightarrow> string \<Rightarrow> quote_answer) option \<Rightarrow> retry_config \<Rightarrow> opportunity
   \<Rightarrow> message + opportunity" where
  "retry_requote now quotes c p =
     (case quotes of
        None \<Rightarrow> Inl (''price store unavailable'', [])
      | Some quote \<Rightarrow>
          (let cid = opp_canonical_id p; missing = (''no fresh quotes available for either leg'', []);
               broken = (''price store error: {}'', [])
           in case quote (opp_yes_platform p) cid of
                QuoteError \<Rightarrow> Inl broken
              | yes \<Rightarrow>
                  (case (yes, quote (opp_no_platform p) cid) of
                     (_, QuoteError) \<Rightarrow> Inl broken
                   | (Quote cy, Quote cn) \<Rightarrow>
                       (let age = max (age_seconds now cy) (age_seconds now cn)
                        in if rg_max_quote_age_seconds c < age then Inl (''quotes too stale ({}s)'', [age])
                           else Inr (retry_requoted now p cy cn))
                   | _ \<Rightarrow> Inl missing)))"

section \<open>The retries\<close>

text \<open>
  The local variables of the loop: the record, the statistics, the engine, and the calls made to it,
  each with the state it met.
\<close>

record retry_progress =
  ru_record :: failed_trade
  ru_stats :: retry_stats
  ru_live :: live
  ru_calls :: "(opportunity \<times> live) list"

definition end_retries ::
  "disposition \<Rightarrow> message \<Rightarrow> (retry_stats \<Rightarrow> retry_stats) \<Rightarrow> retry_progress \<Rightarrow> retry_progress" where
  "end_retries d why count_it u =
     u\<lparr>ru_record := (ru_record u)\<lparr>fr_final_disposition := d, fr_final_reason := why\<rparr>,
       ru_stats := count_it (ru_stats u)\<rparr>"

definition count_exhausted :: "retry_stats \<Rightarrow> retry_stats" where
  "count_exhausted t = t\<lparr>rt_retry_exhausted := rt_retry_exhausted t + 1\<rparr>"

definition count_closed :: "retry_stats \<Rightarrow> retry_stats" where
  "count_closed t = t\<lparr>rt_spread_closed := rt_spread_closed t + 1\<rparr>"

definition count_success :: "retry_stats \<Rightarrow> retry_stats" where
  "count_success t = t\<lparr>rt_retried_success := rt_retried_success t + 1\<rparr>"

definition retry_succeeded :: "string \<Rightarrow> bool" where
  "retry_succeeded status = (status = ''filled'' \<or> status = ''submitted'' \<or> status = ''simulated'')"

text \<open>What an attempt makes of the engine's answer; \<open>True\<close> ends the loop.\<close>

definition after_retry :: "nat \<Rightarrow> flt \<Rightarrow> engine_answer \<Rightarrow> retry_progress \<Rightarrow> retry_progress \<times> bool" where
  "after_retry attempt edge answer u =
     (let u1 = u\<lparr>ru_record := (ru_record u)\<lparr>fr_retry_attempts := int attempt\<rparr>\<rparr>
      in case answer of
           EngineReturned ex \<Rightarrow>
             (let a = ex_arb_id ex; r = ru_record u1;
                  u2 = (if a = [] then u1
                        else u1\<lparr>ru_record := r\<lparr>fr_retry_arb_ids := fr_retry_arb_ids r @ [a]\<rparr>\<rparr>)
              in if retry_succeeded (ex_status ex)
                 then let u3 = end_retries DSuccess (''Retry {} succeeded with {} edge'', [of_nat attempt, edge])
                                 count_success u2
                      in (u3\<lparr>ru_record := (ru_record u3)\<lparr>fr_retried_arb_id := Some a\<rparr>\<rparr>, True)
                 else (u2, False))
         | _ \<Rightarrow> (u1, False))"

definition submit_retry :: "retry_env \<Rightarrow> nat \<Rightarrow> opportunity \<Rightarrow> retry_progress \<Rightarrow> retry_progress \<times> bool" where
  "submit_retry env attempt q u =
     (let t = ru_stats u; (lv, r) = execute_whole (rx_live env attempt) q (ru_live u)
      in after_retry attempt (opp_net_edge_cents q) (engine_answer_of r)
           (u\<lparr>ru_stats := t\<lparr>rt_retries_attempted := rt_retries_attempted t + 1\<rparr>,
              ru_live := lv, ru_calls := ru_calls u @ [(q, ru_live u)]\<rparr>))"

definition armed_reason :: message where
  "armed_reason = (''kill switch armed - retries aborted'', [])"

definition retry_attempt ::
  "retry_env \<Rightarrow> retry_config \<Rightarrow> opportunity \<Rightarrow> nat \<Rightarrow> retry_progress \<Rightarrow> retry_progress \<times> bool" where
  "retry_attempt env c p attempt u =
     (if is_armed (en_safety (lv_engine (ru_live u)))
      then (end_retries DExhausted armed_reason count_exhausted u, True)
      else let u1 = u\<lparr>ru_live := rx_sleep env attempt (ru_live u)\<rparr>
           in if is_armed (en_safety (lv_engine (ru_live u1)))
              then (end_retries DExhausted armed_reason count_exhausted u1, True)
              else case retry_requote (rx_now env attempt) (map_option (\<lambda>f. f attempt) (rx_quote env)) c p of
                     Inl why \<Rightarrow> (end_retries DSpreadClosed why count_closed u1, True)
                   | Inr q \<Rightarrow>
                       let edge = opp_net_edge_cents q; r = ru_record u1;
                           u2 = u1\<lparr>ru_record := r\<lparr>fr_retry_edges_cents := fr_retry_edges_cents r @ [edge]\<rparr>\<rparr>
                       in if edge < rg_min_edge_cents_retry c
                          then (end_retries DSpreadClosed
                                  (''Edge collapsed to {} (retry floor {})'', [edge, rg_min_edge_cents_retry c])
                                  count_closed u2, True)
                          else submit_retry env attempt q u2)"

text \<open>The \<open>for\<close> loop with its \<open>else\<close>: \<open>left\<close> attempts remain, the next one is \<open>attempt\<close>.\<close>

primrec retry_rounds ::
  "nat \<Rightarrow> retry_env \<Rightarrow> retry_config \<Rightarrow> opportunity \<Rightarrow> nat \<Rightarrow> retry_progress \<Rightarrow> retry_progress" where
  "retry_rounds 0 env c p attempt u =
     end_retries DExhausted (''All {} retries failed'', [of_int (rg_max_retries c)]) count_exhausted u"
| "retry_rounds (Suc left) env c p attempt u =
     (let (u', stop) = retry_attempt env c p attempt u
      in if stop then u' else retry_rounds left env c p (attempt + 1) u')"

text \<open>The failed leg, looked up by its side.\<close>

definition failed_leg :: "arb_execution \<Rightarrow> order" where
  "failed_leg e = (if fst (classify_failure e) = ''yes'' then ex_leg_yes e else ex_leg_no e)"

definition record_of_failure :: "arb_execution \<Rightarrow> flt \<Rightarrow> failed_trade" where
  "record_of_failure e now =
     (let p = ex_opportunity e; (side, platform, reason) = classify_failure e
      in \<lparr> fr_arb_id = ex_arb_id e, fr_canonical_id = opp_canonical_id p,
           fr_description = opp_description p, fr_yes_platform = opp_yes_platform p,
           fr_no_platform = opp_no_platform p, fr_failed_leg_side = side,
           fr_failed_leg_platform = platform, fr_failure_reason = reason,
           fr_failure_raw = ord_error (failed_leg e), fr_original_yes_price = opp_yes_price p,
           fr_original_no_price = opp_no_price p, fr_original_net_edge_cents = opp_net_edge_cents p,
           fr_retry_attempts = 0, fr_retry_arb_ids = [], fr_retry_edges_cents = [],
           fr_final_disposition = DPending, fr_final_reason = ([], []), fr_retried_arb_id = None,
           fr_timestamp = now \<rparr>)"

definition run_retries ::
  "retry_env \<Rightarrow> arb_execution \<Rightarrow> retry_scheduler \<Rightarrow> live
   \<Rightarrow> retry_scheduler \<times> live \<times> (opportunity \<times> live) list \<times> failed_trade option" where
  "run_retries env e s lv =
     (let c = rs_config s;
          u = retry_rounds (nat (rg_max_retries c)) env c (ex_opportunity e) 1
                \<lparr> ru_record = record_of_failure e (rx_now env 0), ru_stats = rs_stats s, ru_live = lv,
                  ru_calls = [] \<rparr>;
          r = (ru_record u)\<lparr>fr_timestamp := rx_done env\<rparr>
      in (s\<lparr>rs_stats := (ru_stats u)\<lparr>rt_last_record_ts := rx_done env\<rparr>,
            rs_failed_trades := deque_appendleft 200 (rs_failed_trades s) r\<rparr>,
          ru_live u, ru_calls u, Some r))"

definition handle_execution ::
  "retry_env \<Rightarrow> arb_execution \<Rightarrow> retry_scheduler \<Rightarrow> live
   \<Rightarrow> retry_scheduler \<times> live \<times> (opportunity \<times> live) list \<times> failed_trade option" where
  "handle_execution env e s0 lv =
     (let t = rs_stats s0; s = s0\<lparr>rs_stats := t\<lparr>rt_considered := rt_considered t + 1\<rparr>\<rparr>;
          t1 = rs_stats s; now = rx_now env 0
      in if ex_status e \<noteq> ''failed''
         then (s\<lparr>rs_stats := t1\<lparr>rt_skipped_not_failed := rt_skipped_not_failed t1 + 1\<rparr>\<rparr>, lv, [], None)
         else case cooldown_key (failed_leg e) of
                None \<Rightarrow> run_retries env e s lv
              | Some k \<Rightarrow>
                  (let (s1, cool) = in_rejection_cooldown now k s
                   in if cool
                      then (note_rejection now k
                              (s1\<lparr>rs_stats := t1\<lparr>rt_skipped_cooldown := rt_skipped_cooldown t1 + 1\<rparr>\<rparr>),
                            lv, [], None)
                      else run_retries env e (note_rejection now k s1) lv))"


section \<open>What is retried\<close>

text \<open>What holds of a call the scheduler makes to the engine.\<close>

text \<open>
  The quotes an attempt prices \<open>q\<close> with: those the price store has for the two venues at that attempt, none older
  than allowed; the edge of \<open>q\<close> is what they leave after the fees of both legs for the quantity.
\<close>

definition retry_priced :: "retry_env \<Rightarrow> retry_config \<Rightarrow> opportunity \<Rightarrow> opportunity \<Rightarrow> nat \<Rightarrow> price_point \<Rightarrow> price_point \<Rightarrow> bool" where
  "retry_priced env c p q a cy cn =
     (let qty = max (opp_suggested_qty p) 1
      in (case rx_quote env of None \<Rightarrow> False
          | Some f \<Rightarrow> f a (opp_yes_platform p) (opp_canonical_id p) = Quote cy
                    \<and> f a (opp_no_platform p) (opp_canonical_id p) = Quote cn)
         \<and> age_seconds (rx_now env a) cy \<le> rg_max_quote_age_seconds c
         \<and> age_seconds (rx_now env a) cn \<le> rg_max_quote_age_seconds c
         \<and> opp_yes_price q = pp_yes_price cy \<and> opp_no_price q = pp_no_price cn
         \<and> opp_net_edge_cents q
             = (1 - pp_yes_price cy - pp_no_price cn
                - (compute_fee (opp_yes_platform p) (pp_yes_price cy) qty (pp_fee_rate cy)
                   + compute_fee (opp_no_platform p) (pp_no_price cn) qty (pp_fee_rate cn)) / of_int qty) * 100)"

definition sound_retry :: "retry_env \<Rightarrow> retry_config \<Rightarrow> opportunity \<Rightarrow> opportunity \<times> live \<Rightarrow> bool" where
  "sound_retry env c p = (\<lambda>(q, lv). \<not> is_armed (en_safety (lv_engine lv)) \<and> same_pair p q
     \<and> (\<exists>a cy cn. retry_priced env c p q a cy cn) \<and> rg_min_edge_cents_retry c \<le> opp_net_edge_cents q)"

lemma requote_sound:
  assumes "retry_requote (rx_now env a) (map_option (\<lambda>f. f a) (rx_quote env)) c p = Inr q"
  shows "same_pair p q \<and> (\<exists>cy cn. retry_priced env c p q a cy cn)"
proof -
  obtain f cy cn where f: "rx_quote env = Some f" "f a (opp_yes_platform p) (opp_canonical_id p) = Quote cy"
    "f a (opp_no_platform p) (opp_canonical_id p) = Quote cn"
    using assms by (auto simp: retry_requote_def Let_def split: option.splits quote_answer.splits)
  then have q: "max (age_seconds (rx_now env a) cy) (age_seconds (rx_now env a) cn) \<le> rg_max_quote_age_seconds c"
    "q = retry_requoted (rx_now env a) p cy cn"
    using assms by (auto simp: retry_requote_def Let_def not_less split: if_splits)
  have qty: "max (if opp_suggested_qty p = 0 then 1 else opp_suggested_qty p) 1 = max (opp_suggested_qty p) 1" by simp
  have "retry_priced env c p q a cy cn"
    using f q(1) unfolding q(2) by (simp add: retry_priced_def retry_requoted_def Let_def qty)
  moreover have "same_pair p q" unfolding q(2) by (simp add: same_pair_def retry_requoted_def Let_def)
  ultimately show ?thesis by blast
qed

lemma end_retries_fields [simp]:
  "ru_calls (end_retries d why f u) = ru_calls u" "ru_stats (end_retries d why f u) = f (ru_stats u)"
  "fr_final_disposition (ru_record (end_retries d why f u)) = d" "ru_live (end_retries d why f u) = ru_live u"
  by (simp_all add: end_retries_def)

lemma after_retry_calls [simp]: "ru_calls (fst (after_retry a edge answer u)) = ru_calls u"
  by (simp add: after_retry_def Let_def split: engine_answer.split)

lemma attempt_calls:
  "ru_calls (fst (retry_attempt env c p a u)) = ru_calls u
   \<or> (\<exists>x. ru_calls (fst (retry_attempt env c p a u)) = ru_calls u @ [x] \<and> sound_retry env c p x)"
proof (cases "is_armed (en_safety (lv_engine (ru_live u))) \<or> is_armed (en_safety (lv_engine (rx_sleep env a (ru_live u))))")
  case True
  then show ?thesis by (auto simp: retry_attempt_def Let_def)
next
  case False
  show ?thesis
  proof (cases "retry_requote (rx_now env a) (map_option (\<lambda>f. f a) (rx_quote env)) c p")
    case (Inl why)
    with False show ?thesis by (auto simp: retry_attempt_def Let_def)
  next
    case (Inr q)
    with False requote_sound[OF Inr] show ?thesis
      by (auto simp: retry_attempt_def submit_retry_def Let_def case_prod_unfold sound_retry_def)
  qed
qed

lemma rounds_calls:
  "\<exists>cs. ru_calls (retry_rounds n env c p a u) = ru_calls u @ cs \<and> length cs \<le> n
     \<and> (\<forall>x \<in> set cs. sound_retry env c p x)"
proof (induction n arbitrary: a u)
  case (Suc n)
  obtain u' stop where at: "retry_attempt env c p a u = (u', stop)" by (metis surj_pair)
  with attempt_calls[of env c p a u] obtain cs where
    cs: "ru_calls u' = ru_calls u @ cs" "length cs \<le> 1" "\<forall>x \<in> set cs. sound_retry env c p x"
    by fastforce
  obtain ds where ds: "ru_calls (retry_rounds n env c p (a + 1) u') = ru_calls u' @ ds" "length ds \<le> n"
    "\<forall>x \<in> set ds. sound_retry env c p x"
    using Suc.IH by blast
  with cs show ?case
  proof (cases stop)
    case True
    with cs at show ?thesis by (intro exI[of _ cs]) (auto simp: Let_def)
  next
    case False
    with cs at ds show ?thesis by (intro exI[of _ "cs @ ds"]) (auto simp: Let_def)
  qed
qed simp

lemma handle_cases [consumes 1, case_names ignored cooled retried]:
  assumes "handle_execution env e s lv = (s', lv', calls, r)"
  obtains "ex_status e \<noteq> ''failed''" "calls = []" "lv' = lv" "r = None"
      "s' = s\<lparr>rs_stats := (rs_stats s)\<lparr>rt_considered := rt_considered (rs_stats s) + 1,
                rt_skipped_not_failed := rt_skipped_not_failed (rs_stats s) + 1\<rparr>\<rparr>"
    | k ts where "ex_status e = ''failed''" "calls = []" "lv' = lv" "r = None"
      "map_of (rs_cooldowns s) k = Some ts" "rx_now env 0 - ts < rg_rejected_cooldown_s (rs_config s)"
      "s' = note_rejection (rx_now env 0) k
              (s\<lparr>rs_stats := (rs_stats s)\<lparr>rt_considered := rt_considered (rs_stats s) + 1,
                rt_skipped_cooldown := rt_skipped_cooldown (rs_stats s) + 1\<rparr>\<rparr>)"
    | s1 where "ex_status e = ''failed''" "run_retries env e s1 lv = (s', lv', calls, r)"
      "rs_config s1 = rs_config s"
      "rs_stats s1 = (rs_stats s)\<lparr>rt_considered := rt_considered (rs_stats s) + 1\<rparr>"
      "rs_failed_trades s1 = rs_failed_trades s"
proof (cases "ex_status e = ''failed''")
  case False
  with assms that(1) show ?thesis by (simp add: handle_execution_def Let_def)
next
  case True
  let ?s = "s\<lparr>rs_stats := (rs_stats s)\<lparr>rt_considered := rt_considered (rs_stats s) + 1\<rparr>\<rparr>"
  show ?thesis
  proof (cases "cooldown_key (failed_leg e)")
    case None
    with True assms have "run_retries env e ?s lv = (s', lv', calls, r)"
      by (simp add: handle_execution_def Let_def)
    with True that(3)[of ?s] show ?thesis by simp
  next
    case (Some k)
    obtain s1 cool where ic: "in_rejection_cooldown (rx_now env 0) k ?s = (s1, cool)" by (metis surj_pair)
    show ?thesis
    proof (cases cool)
      case True
      with ic obtain ts where "map_of (rs_cooldowns s) k = Some ts"
        "rx_now env 0 - ts < rg_rejected_cooldown_s (rs_config s)" "s1 = ?s"
        by (auto simp: in_rejection_cooldown_def split: option.splits if_splits)
      with True \<open>ex_status e = ''failed''\<close> Some ic assms show ?thesis
        by (intro that(2)[of k ts]) (auto simp: handle_execution_def Let_def)
    next
      case False
      with \<open>ex_status e = ''failed''\<close> Some ic assms
      have "run_retries env e (note_rejection (rx_now env 0) k s1) lv = (s', lv', calls, r)"
        by (simp add: handle_execution_def Let_def)
      moreover have "rs_config s1 = rs_config s" "rs_stats s1 = rs_stats ?s"
        "rs_failed_trades s1 = rs_failed_trades s"
        using ic by (auto simp: in_rejection_cooldown_def split: option.splits if_splits)
      ultimately show ?thesis
        using \<open>ex_status e = ''failed''\<close>
        by (intro that(3)[of "note_rejection (rx_now env 0) k s1"]) (simp_all add: note_rejection_def Let_def)
    qed
  qed
qed


section \<open>Every execution is counted once\<close>

definition outcomes :: "retry_stats \<Rightarrow> int" where
  "outcomes t = rt_skipped_not_failed t + rt_skipped_cooldown t + rt_retried_success t
     + rt_retry_exhausted t + rt_spread_closed t"

definition retry_ok :: "retry_scheduler \<times> live \<Rightarrow> bool" where
  "retry_ok = (\<lambda>(s, lv). rt_considered (rs_stats s) = outcomes (rs_stats s)
     \<and> length (rs_failed_trades s) \<le> 200
     \<and> (\<forall>f \<in> set (rs_failed_trades s). fr_final_disposition f \<noteq> DPending))"

definition retry_step :: "retry_env \<times> arb_execution \<Rightarrow> retry_scheduler \<times> live \<Rightarrow> retry_scheduler \<times> live" where
  "retry_step = (\<lambda>(env, e) (s, lv). let (s', lv', calls, r) = handle_execution env e s lv in (s', lv'))"

lemma counts [simp]:
  "outcomes (count_exhausted t) = outcomes t + 1" "outcomes (count_closed t) = outcomes t + 1"
  "outcomes (count_success t) = outcomes t + 1" "rt_considered (count_exhausted t) = rt_considered t"
  "rt_considered (count_closed t) = rt_considered t" "rt_considered (count_success t) = rt_considered t"
  by (simp_all add: outcomes_def count_exhausted_def count_closed_def count_success_def)

text \<open>An attempt either goes on with the counters of the outcomes as they were, or ends with one more.\<close>

definition ended_once :: "retry_stats \<Rightarrow> retry_progress \<Rightarrow> bool" where
  "ended_once t u = (rt_considered (ru_stats u) = rt_considered t \<and> outcomes (ru_stats u) = outcomes t + 1
     \<and> fr_final_disposition (ru_record u) \<noteq> DPending)"

definition counted :: "retry_stats \<Rightarrow> retry_progress \<times> bool \<Rightarrow> bool" where
  "counted t w = (if snd w then ended_once t (fst w)
     else rt_considered (ru_stats (fst w)) = rt_considered t \<and> outcomes (ru_stats (fst w)) = outcomes t)"

lemma counted_end:
  "rt_considered (ru_stats u) = rt_considered t \<Longrightarrow> outcomes (ru_stats u) = outcomes t
   \<Longrightarrow> f \<in> {count_exhausted, count_closed, count_success} \<Longrightarrow> d \<noteq> DPending
   \<Longrightarrow> counted t (end_retries d why f u, True)"
  by (auto simp: counted_def ended_once_def)

lemma counted_after:
  "rt_considered (ru_stats u) = rt_considered t \<Longrightarrow> outcomes (ru_stats u) = outcomes t
   \<Longrightarrow> counted t (after_retry a edge answer u)"
  by (auto simp: after_retry_def Let_def counted_def ended_once_def split: engine_answer.split)

lemma counted_attempt: "counted (ru_stats u) (retry_attempt env c p a u)"
proof (cases "is_armed (en_safety (lv_engine (ru_live u))) \<or> is_armed (en_safety (lv_engine (rx_sleep env a (ru_live u))))")
  case True
  then show ?thesis by (auto simp: retry_attempt_def Let_def intro: counted_end)
next
  case False
  show ?thesis
  proof (cases "retry_requote (rx_now env a) (map_option (\<lambda>f. f a) (rx_quote env)) c p")
    case (Inl why)
    with False show ?thesis by (auto simp: retry_attempt_def Let_def intro: counted_end)
  next
    case (Inr q)
    with False show ?thesis
      by (auto simp: retry_attempt_def submit_retry_def Let_def case_prod_unfold outcomes_def
          intro!: counted_end counted_after)
  qed
qed

lemma rounds_count: "ended_once (ru_stats u) (retry_rounds n env c p a u)"
proof (induction n arbitrary: a u)
  case (Suc n)
  obtain u' stop where at: "retry_attempt env c p a u = (u', stop)" by (metis surj_pair)
  from counted_attempt[of u env c p a] Suc.IH[of u' "a + 1"] show ?case
    by (cases stop) (simp_all add: at counted_def ended_once_def)
qed (simp add: ended_once_def)

interpretation retrying: invariant_machine retry_step retry_ok
proof
  fix st and ev :: "retry_env \<times> arb_execution"
  assume ok: "retry_ok st"
  obtain s lv env e where [simp]: "st = (s, lv)" "ev = (env, e)" by (metis surj_pair)
  obtain s' lv' calls r where h: "handle_execution env e s lv = (s', lv', calls, r)" by (metis prod_cases4)
  from h have "retry_ok (s', lv')"
  proof (cases rule: handle_cases)
    case (retried s1)
    define u where "u = retry_rounds (nat (rg_max_retries (rs_config s))) env (rs_config s) (ex_opportunity e) 1
        \<lparr> ru_record = record_of_failure e (rx_now env 0), ru_stats = rs_stats s1, ru_live = lv, ru_calls = [] \<rparr>"
    have once: "ended_once (rs_stats s1) u" unfolding u_def by (metis rounds_count retry_progress.select_convs(2))
    have s': "s' = s1\<lparr>rs_stats := (ru_stats u)\<lparr>rt_last_record_ts := rx_done env\<rparr>,
        rs_failed_trades := deque_appendleft 200 (rs_failed_trades s1)
          ((ru_record u)\<lparr>fr_timestamp := rx_done env\<rparr>)\<rparr>"
      using retried(2,3) by (auto simp: run_retries_def Let_def u_def)
    have "\<forall>f \<in> set (rs_failed_trades s'). fr_final_disposition f \<noteq> DPending"
      using ok once retried(5)
      by (auto simp: s' retry_ok_def ended_once_def deque_appendleft_def dest: in_set_takeD)
    moreover have "length (rs_failed_trades s') \<le> 200" by (simp add: s' length_deque_appendleft)
    ultimately show ?thesis
      using ok once retried(4) by (auto simp: s' retry_ok_def ended_once_def outcomes_def)
  qed (use ok in \<open>auto simp: retry_ok_def outcomes_def note_rejection_def Let_def\<close>)
  then show "retry_ok (retry_step ev st)" by (simp add: retry_step_def h)
qed

text \<open>
  Nothing gets lost in the scheduler: after any number of handled executions, the executions
  considered are exactly those skipped, suppressed, retried with success, given up or closed, every
  record kept has a final disposition, and at most 200 records are kept.
\<close>

theorem retry_accounting:
  "retry_ok (fold retry_step evs (new_retry_scheduler c, lv))"
  by (rule retrying.run_inv) (simp add: retry_ok_def new_retry_scheduler_def outcomes_def)

section \<open>A rejected price rests\<close>

text \<open>A rejection of the key is on record that is no older than \<open>t\<close>.\<close>

definition noted :: "flt \<Rightarrow> rejection_key \<Rightarrow> retry_scheduler \<Rightarrow> bool" where
  "noted t k s = (dict_ok (rs_cooldowns s) \<and> (\<exists>ts \<ge> t. map_of (rs_cooldowns s) k = Some ts))"

lemma in_cooldown_config [simp]: "rs_config (fst (in_rejection_cooldown now k s)) = rs_config s"
  by (simp add: in_rejection_cooldown_def split: option.split)

lemma note_config [simp]: "rs_config (note_rejection now k s) = rs_config s"
  by (simp add: note_rejection_def Let_def)

lemma note_dict_ok: "dict_ok (rs_cooldowns s) \<Longrightarrow> dict_ok (rs_cooldowns (note_rejection now k s))"
  by (simp add: note_rejection_def Let_def)

lemma cool_dict_ok: "dict_ok (rs_cooldowns s) \<Longrightarrow> dict_ok (rs_cooldowns (fst (in_rejection_cooldown now k s)))"
  by (simp add: in_rejection_cooldown_def split: option.split)

lemma noted_cool:
  assumes "noted t k s" "now - t < rg_rejected_cooldown_s (rs_config s)"
  shows "noted t k (fst (in_rejection_cooldown now k' s))"
    "snd (in_rejection_cooldown now k s)"
  using assms
  by (auto simp: noted_def in_rejection_cooldown_def delete_conv' split: option.split)

lemma noted_note:
  assumes "noted t k s" "now - t < rg_rejected_cooldown_s (rs_config s)" "t \<le> now"
  shows "noted t k (note_rejection now k' s)"
proof -
  have "noted t k (s\<lparr>rs_cooldowns := AList.update k' now (rs_cooldowns s)\<rparr>)"
    using assms(1,3) by (auto simp: noted_def update_conv')
  moreover have "\<exists>ts \<ge> t. map_of (filter (\<lambda>(k, ts). now - ts < rg_rejected_cooldown_s (rs_config s)) d) k = Some ts"
    if "dict_ok d" "map_of d k = Some ts" "t \<le> ts" for d ts
    using that assms(2) map_of_filter[of d "\<lambda>ts. now - ts < rg_rejected_cooldown_s (rs_config s)" k]
    by auto
  ultimately show ?thesis by (auto simp: noted_def note_rejection_def Let_def)
qed

lemma note_notes:
  "dict_ok (rs_cooldowns s) \<Longrightarrow> 0 < rg_rejected_cooldown_s (rs_config s)
   \<Longrightarrow> noted now k (note_rejection now k s)"
  using map_of_filter[of "AList.update k now (rs_cooldowns s)"
      "\<lambda>ts. now - ts < rg_rejected_cooldown_s (rs_config s)" k]
  by (auto simp: noted_def note_rejection_def Let_def update_conv')

lemma run_retries_frame [simp]:
  "rs_cooldowns (fst (run_retries env e s lv)) = rs_cooldowns s"
  "rs_config (fst (run_retries env e s lv)) = rs_config s"
  by (simp_all add: run_retries_def Let_def)

lemma noted_frame [simp]:
  "noted t k (s\<lparr>rs_stats := x\<rparr>) = noted t k s"
  "noted t k (fst (run_retries env e s lv)) = noted t k s"
  by (simp_all add: noted_def)

lemma stats_frame [simp]:
  "fst (in_rejection_cooldown now k (s\<lparr>rs_stats := x\<rparr>)) = (fst (in_rejection_cooldown now k s))\<lparr>rs_stats := x\<rparr>"
  "snd (in_rejection_cooldown now k (s\<lparr>rs_stats := x\<rparr>)) = snd (in_rejection_cooldown now k s)"
  "note_rejection now k (s\<lparr>rs_stats := x\<rparr>) = (note_rejection now k s)\<lparr>rs_stats := x\<rparr>"
  by (simp_all add: in_rejection_cooldown_def note_rejection_def Let_def split: option.split)

text \<open>What a handled execution leaves of the cool-downs.\<close>

lemma handle_cooldowns:
  obtains x where "fst (handle_execution env e s lv) = s\<lparr>rs_stats := x\<rparr>" "ex_status e \<noteq> ''failed''"
    | ft x where "cooldown_key (failed_leg e) = None"
      "fst (handle_execution env e s lv) = s\<lparr>rs_stats := x, rs_failed_trades := ft\<rparr>"
    | k ft x where "cooldown_key (failed_leg e) = Some k"
      "fst (handle_execution env e s lv)
         = (note_rejection (rx_now env 0) k (fst (in_rejection_cooldown (rx_now env 0) k s)))
             \<lparr>rs_stats := x, rs_failed_trades := ft\<rparr>"
proof (cases "ex_status e = ''failed''")
  case False
  then show ?thesis using that(1) by (simp add: handle_execution_def Let_def)
next
  case True
  show ?thesis
  proof (cases "cooldown_key (failed_leg e)")
    case None
    with True that(2) show ?thesis by (simp add: handle_execution_def run_retries_def Let_def)
  next
    case (Some k)
    define n where "n = note_rejection (rx_now env 0) k (fst (in_rejection_cooldown (rx_now env 0) k s))"
    have keep: "n\<lparr>rs_stats := x\<rparr> = n\<lparr>rs_stats := x, rs_failed_trades := rs_failed_trades n\<rparr>" for x by simp
    have "\<exists>x ft. fst (handle_execution env e s lv) = n\<lparr>rs_stats := x, rs_failed_trades := ft\<rparr>"
    proof (cases "snd (in_rejection_cooldown (rx_now env 0) k s)")
      case True
      have "\<exists>x. fst (handle_execution env e s lv) = n\<lparr>rs_stats := x\<rparr>"
        using True \<open>ex_status e = ''failed''\<close> Some
        by (simp add: handle_execution_def Let_def case_prod_unfold n_def) blast
      then show ?thesis using keep by metis
    next
      case False
      with \<open>ex_status e = ''failed''\<close> Some show ?thesis
        by (simp add: handle_execution_def run_retries_def Let_def case_prod_unfold n_def) blast
    qed
    with that(3)[OF Some] show ?thesis unfolding n_def by blast
  qed
qed

lemma handle_dict_ok:
  "dict_ok (rs_cooldowns s) \<Longrightarrow> dict_ok (rs_cooldowns (fst (handle_execution env e s lv)))"
  by (cases rule: handle_cooldowns[of env e s lv]) (simp_all add: note_dict_ok cool_dict_ok)

lemma handle_config [simp]: "rs_config (fst (handle_execution env e s lv)) = rs_config s"
  by (cases rule: handle_cooldowns[of env e s lv]) simp_all

lemma handle_noted:
  assumes "noted t k s" "t \<le> rx_now env 0" "rx_now env 0 - t < rg_rejected_cooldown_s (rs_config s)"
  shows "noted t k (fst (handle_execution env e s lv))"
proof -
  have "noted t k (s\<lparr>rs_stats := x, rs_failed_trades := ft\<rparr>) = noted t k s" for s x ft
    by (simp add: noted_def)
  with assms noted_cool(1)[OF assms(1,3)] show ?thesis
    by (cases rule: handle_cooldowns[of env e s lv]) (auto intro!: noted_note)
qed

lemma handle_notes:
  assumes "dict_ok (rs_cooldowns s)" "0 < rg_rejected_cooldown_s (rs_config s)"
    and "ex_status e = ''failed''" "cooldown_key (failed_leg e) = Some k"
  shows "noted (rx_now env 0) k (fst (handle_execution env e s lv))"
proof -
  have "noted t k (s\<lparr>rs_stats := x, rs_failed_trades := ft\<rparr>) = noted t k s" for t s x ft
    by (simp add: noted_def)
  with assms show ?thesis
    by (cases rule: handle_cooldowns[of env e s lv]) (auto intro!: note_notes cool_dict_ok)
qed

lemma retry_step_fst: "fst (retry_step (env, e) (s, lv)) = fst (handle_execution env e s lv)"
  by (simp add: retry_step_def case_prod_unfold Let_def)

lemma run_kept:
  assumes "noted t k s" "\<forall>(env, e) \<in> set evs. t \<le> rx_now env 0 \<and> rx_now env 0 \<le> t'"
    and "t' - t < rg_rejected_cooldown_s (rs_config s)"
  shows "noted t k (fst (fold retry_step evs (s, lv)))
    \<and> rs_config (fst (fold retry_step evs (s, lv))) = rs_config s"
  using assms
proof (induction evs arbitrary: s lv)
  case (Cons ev evs)
  obtain env e where ev: "ev = (env, e)" by (cases ev)
  obtain s1 lv1 where s1: "retry_step ev (s, lv) = (s1, lv1)" by (metis surj_pair)
  have fst: "s1 = fst (handle_execution env e s lv)" using retry_step_fst[of env e s lv] by (simp add: s1 ev[symmetric])
  have "noted t k s1" unfolding fst using Cons.prems by (intro handle_noted) (auto simp: ev)
  moreover have "rs_config s1 = rs_config s" by (simp add: fst)
  ultimately show ?case using Cons.IH[of s1 lv1] Cons.prems by (simp add: s1)
qed simp

lemma run_dict_ok: "dict_ok (rs_cooldowns s) \<Longrightarrow> dict_ok (rs_cooldowns (fst (fold retry_step evs (s, lv))))
    \<and> rs_config (fst (fold retry_step evs (s, lv))) = rs_config s"
proof (induction evs arbitrary: s lv)
  case (Cons ev evs)
  obtain env e where ev: "ev = (env, e)" by (cases ev)
  obtain s1 lv1 where s1: "retry_step ev (s, lv) = (s1, lv1)" by (metis surj_pair)
  have "s1 = fst (handle_execution env e s lv)" using retry_step_fst[of env e s lv] by (simp add: s1 ev[symmetric])
  with Cons handle_dict_ok[OF Cons.prems] show ?case by (simp add: s1)
qed simp

text \<open>
  A price that was just rejected rests: whatever is handled in between, a further failure on the
  same market and side at the same cent within the cool-down leads to no retry, and the engine is
  left as it is.
\<close>

theorem rejected_price_rests:
  assumes "ex_status e1 = ''failed''" "cooldown_key (failed_leg e1) = Some k"
    and "ex_status e2 = ''failed''" "cooldown_key (failed_leg e2) = Some k"
    and "fold retry_step (before @ (env1, e1) # evs) (new_retry_scheduler c, lv0) = (s, lv)"
    and "\<forall>(env, e) \<in> set evs. rx_now env1 0 \<le> rx_now env 0 \<and> rx_now env 0 \<le> rx_now env2 0"
    and "rx_now env1 0 \<le> rx_now env2 0"
    and "rx_now env2 0 - rx_now env1 0 < rg_rejected_cooldown_s c"
    and "handle_execution env2 e2 s lv = (s', lv', calls, r)"
  shows "calls = [] \<and> lv' = lv \<and> r = None"
proof -
  have new: "dict_ok (rs_cooldowns (new_retry_scheduler c))" "rs_config (new_retry_scheduler c) = c"
    by (simp_all add: new_retry_scheduler_def)
  obtain s0 l0 where s0: "fold retry_step before (new_retry_scheduler c, lv0) = (s0, l0)" by (metis surj_pair)
  have ok: "dict_ok (rs_cooldowns s0)" "rs_config s0 = c"
    using run_dict_ok[of "new_retry_scheduler c" before lv0] new by (simp_all add: s0)
  obtain s1 l1 where s1: "retry_step (env1, e1) (s0, l0) = (s1, l1)" by (metis surj_pair)
  then have fst1: "s1 = fst (handle_execution env1 e1 s0 l0)" using retry_step_fst[of env1 e1 s0 l0] by simp
  have "noted (rx_now env1 0) k s1"
    unfolding fst1 using assms(1,2,7,8) ok by (intro handle_notes) auto
  moreover have "rs_config s1 = c" by (simp add: fst1 ok(2))
  ultimately have n: "noted (rx_now env1 0) k s" "rs_config s = c"
    using run_kept[of "rx_now env1 0" k s1 evs "rx_now env2 0" l1] assms(5,6,8) by (auto simp: s0 s1)
  then have "snd (in_rejection_cooldown (rx_now env2 0) k s)" using assms(8) by (intro noted_cool(2)) auto
  with assms(3,4,9) show ?thesis by (simp add: handle_execution_def Let_def case_prod_unfold)
qed

section \<open>Consequences\<close>

text \<open>
  The edge of a retry is the one the engine's own re-quote computes from the same quotes; only the
  maximal profit of the opportunity keeps the value of the scan.
\<close>

lemma retry_mirrors_engine:
  "1 \<le> opp_suggested_qty p
   \<Longrightarrow> retry_requoted (xe_now env) p cy cn
       = (requoted env p cy cn)\<lparr>opp_max_profit_usd := opp_max_profit_usd p\<rparr>"
  by (simp add: retry_requoted_def requoted_def Let_def max_def)

text \<open>
  The cool-down is as long as the two sleeps of a chain: when the retries of a rejected price all
  fail, the executions they leave in the queue find the price cooled down, and each starts a chain
  of retries again.
\<close>

lemma chain_outlasts_cooldown:
  assumes "rs_config s = default_retry_config" "dict_ok (rs_cooldowns s)"
  shows "\<not> snd (in_rejection_cooldown
    (t + of_int (rg_max_retries (rs_config s)) * rg_retry_delay_s (rs_config s)) k (note_rejection t k s))"
proof -
  have "map_of (rs_cooldowns (note_rejection t k s)) k = Some t"
    using assms map_of_filter[of "AList.update k t (rs_cooldowns s)"
        "\<lambda>ts. t - ts < rg_rejected_cooldown_s (rs_config s)" k]
    by (simp add: note_rejection_def Let_def default_retry_config_def update_conv')
  with assms(1) show ?thesis by (simp add: in_rejection_cooldown_def default_retry_config_def)
qed

text \<open>A leg that was skipped because the other failed is not taken for the cause.\<close>

lemma skipped_leg_not_blamed:
  "terminal_failed_leg (ex_leg_yes e) \<Longrightarrow> says_skipped (ex_leg_no e) \<Longrightarrow> primary_failed_leg e = ex_leg_yes e"
  "terminal_failed_leg (ex_leg_no e) \<Longrightarrow> says_skipped (ex_leg_yes e) \<Longrightarrow> \<not> says_skipped (ex_leg_no e)
   \<Longrightarrow> primary_failed_leg e = ex_leg_no e"
  by (simp_all add: primary_failed_leg_def Let_def)

section \<open>A demonstration\<close>

definition demo_rejected_leg :: "string \<Rightarrow> order" where
  "demo_rejected_leg side = \<lparr> ord_id = [], ord_platform = ''forecastex'', ord_market_id = ''m'',
     ord_canonical_id = ''A'', ord_side = side, ord_price = 40/100, ord_quantity = 10,
     ord_status = FAILED, ord_fill_price = 0, ord_fill_qty = 0, ord_timestamp = 0, ord_error = ''fok rejected'',
     ord_external_client_order_id = None, ord_idempotency_ambiguous = False \<rparr>"

definition demo_rejected :: arb_execution where
  "demo_rejected = \<lparr> ex_arb_id = ''ARB-000001'', ex_opportunity = demo_opp,
     ex_leg_yes = demo_rejected_leg ''yes'', ex_leg_no = demo_rejected_leg ''no'', ex_status = ''failed'',
     ex_realized_pnl = 0, ex_unwind_pnl = 0, ex_timestamp = 0, ex_notes = [] \<rparr>"

definition demo_fresh_quote :: price_point where
  "demo_fresh_quote = \<lparr> pp_platform = ''forecastex'', pp_canonical_id = ''A'', pp_yes_price = 40/100,
     pp_no_price = 50/100, pp_yes_volume = 50, pp_no_volume = 50, pp_timestamp = 25,
     pp_raw_market_id = [], pp_yes_market_id = ''y'', pp_no_market_id = ''n'', pp_yes_bid = 39/100,
     pp_yes_ask = 40/100, pp_no_bid = 49/100, pp_no_ask = 50/100, pp_fee_rate = 0,
     pp_mapping_status = ''confirmed'', pp_mapping_score = 1, pp_metadata = [] \<rparr>"

definition demo_retry_env :: "flt \<Rightarrow> retry_env" where
  "demo_retry_env t = \<lparr> rx_now = (\<lambda>n. t + 30 * of_nat n), rx_done = t + 60, rx_sleep = (\<lambda>n lv. lv),
     rx_quote = Some (\<lambda>n platform cid. Quote demo_fresh_quote),
     rx_live = (\<lambda>n. demo_live_env (demo_adapter False)) \<rparr>"

definition demo_retry_live :: live where
  "demo_retry_live = \<lparr> lv_engine = demo_engine, lv_calls = [] \<rparr>"

definition one_retry :: retry_config where
  "one_retry = default_retry_config\<lparr>rg_max_retries := 1\<rparr>"

lemma demo_rejected_keys: "failed_leg demo_rejected = demo_rejected_leg ''yes''"
  "cooldown_key (demo_rejected_leg ''yes'') = Some (''m'', ''yes'', 40)"
  by (simp_all add: failed_leg_def classify_failure_def primary_failed_leg_def demo_rejected_def
      demo_rejected_leg_def Let_def terminal_failed_leg_def says_skipped_def cooldown_key_def
      py_lower_def lower_char_def py_round_def)

lemma demo_requote:
  "\<exists>q. retry_requote 30 (Some (\<lambda>platform cid. Quote demo_fresh_quote)) one_retry demo_opp = Inr q
     \<and> opp_net_edge_cents q = 9"
  by (simp add: retry_requote_def retry_requoted_def demo_fresh_quote_def age_seconds_def Let_def
      one_retry_def default_retry_config_def compute_fee_def forecastex_order_fee_def demo_opp_fields or_flt_def)

lemma demo_retries_once:
  "\<exists>x. fst (snd (snd (handle_execution (demo_retry_env 0) demo_rejected (new_retry_scheduler one_retry)
      demo_retry_live))) = [x]"
proof -
  obtain q where q: "retry_requote 30 (Some (\<lambda>platform cid. Quote demo_fresh_quote)) one_retry demo_opp = Inr q"
    "opp_net_edge_cents q = 9"
    using demo_requote by blast
  have safe: "\<not> is_armed (en_safety (lv_engine demo_retry_live))"
    by (simp add: demo_retry_live_def demo_engine_fields new_supervisor_def is_armed_def initial_safety_state_def)
  let ?u = "\<lambda>x. \<lparr> ru_record = record_of_failure demo_rejected 0, ru_stats = x, ru_live = demo_retry_live,
     ru_calls = [] \<rparr>"
  have "ru_calls (fst (retry_attempt (demo_retry_env 0) one_retry demo_opp 1 (?u x))) = [(q, demo_retry_live)]" for x
    using q safe
    by (simp add: retry_attempt_def submit_retry_def demo_retry_env_def Let_def case_prod_unfold)
      (simp add: one_retry_def default_retry_config_def)
  then have rounds: "ru_calls (retry_rounds 1 (demo_retry_env 0) one_retry demo_opp 1 (?u x)) = [(q, demo_retry_live)]" for x
    by (simp add: Let_def case_prod_unfold)
  have fields: "ex_status demo_rejected = ''failed''" "ex_opportunity demo_rejected = demo_opp"
    "rx_now (demo_retry_env 0) 0 = 0" "nat (rg_max_retries one_retry) = 1"
    by (simp_all add: demo_rejected_def demo_retry_env_def one_retry_def default_retry_config_def)
  have run: "fst (snd (snd (run_retries (demo_retry_env 0) demo_rejected s demo_retry_live))) = [(q, demo_retry_live)]"
    if "rs_config s = one_retry" for s
    unfolding run_retries_def Let_def that fields by (simp only: rounds fst_conv snd_conv)
  show ?thesis
    by (simp add: handle_execution_def Let_def demo_rejected_keys in_rejection_cooldown_def new_retry_scheduler_def
        run fields)
qed


theorem rejected_price_rests_witness:
  "\<exists>s lv. fold retry_step [(demo_retry_env 0, demo_rejected)] (new_retry_scheduler one_retry, demo_retry_live) = (s, lv)
     \<and> fst (snd (snd (handle_execution (demo_retry_env 10) demo_rejected s lv))) = []"
proof -
  obtain s lv where s: "fold retry_step ([] @ (demo_retry_env 0, demo_rejected) # [])
      (new_retry_scheduler one_retry, demo_retry_live) = (s, lv)" by (metis surj_pair)
  obtain s' lv' calls r where h: "handle_execution (demo_retry_env 10) demo_rejected s lv = (s', lv', calls, r)"
    by (metis prod_cases4)
  have f: "ex_status demo_rejected = ''failed''" "cooldown_key (failed_leg demo_rejected) = Some (''m'', ''yes'', 40)"
    by (simp_all add: demo_rejected_keys) (simp add: demo_rejected_def)
  have "calls = []"
    using rejected_price_rests[OF f f s _ _ _ h]
    by (simp add: demo_retry_env_def one_retry_def default_retry_config_def)
  with s h show ?thesis by simp
qed

end
