(* ===== verification/Portfolio.thy ===== *)
theory Portfolio
  imports Readiness
begin

text \<open>
  \<open>PortfolioMonitor\<close> of \<open>arbiter/portfolio/monitor.py\<close>: the open positions as the engine's history
  shows them, the exposure per market and per venue, the rules on them, and the question whether it is
  safe to trade.  The ledger is not consulted (its reader is a coroutine, which the code skips), and
  the callbacks, which get each snapshot, are left out.  The venues are walked in the order of their
  first appearance; Python leaves the order of that set open.
\<close>

section \<open>Data\<close>

datatype risk_level = RiskSafe | RiskWarning | RiskViolation | RiskCritical

record risk_violation =
  rv_id :: string
  rv_level :: risk_level
  rv_category :: string
  rv_message :: message
  rv_canonical_id :: "string option"
  rv_platform :: "string option"
  rv_current_value :: flt
  rv_limit_value :: flt
  rv_timestamp :: flt

record position =
  po_arb_id :: string
  po_canonical_id :: string
  po_description :: string
  po_quantity :: flt
  po_yes_price :: flt
  po_no_price :: flt
  po_yes_cost :: flt
  po_no_cost :: flt
  po_yes_platform :: string
  po_no_platform :: string
  po_status :: string
  po_hedge_status :: string
  po_created_at :: flt
  po_updated_at :: flt
  po_realized_pnl :: flt

record exposure_slice =
  es_canonical_id :: string
  es_description :: string
  es_quantity :: flt
  es_yes_cost :: flt
  es_no_cost :: flt
  es_total_cost :: flt
  es_yes_platform :: string
  es_no_platform :: string
  es_status :: string
  es_hedge_status :: string
  es_age_seconds :: flt
  es_last_price_update :: flt

record venue_exposure =
  ve_platform :: string
  ve_total_exposure :: flt
  ve_position_count :: nat
  ve_balance :: "flt option"
  ve_is_low_balance :: bool
  ve_last_update :: flt

record portfolio_snapshot =
  sp_timestamp :: flt
  sp_total_exposure :: flt
  sp_total_open_positions :: nat
  sp_total_hedged :: nat
  sp_total_unhedged :: nat
  sp_by_venue :: "(string, venue_exposure) dict"
  sp_by_canonical :: "(string, exposure_slice) dict"
  sp_violations :: "risk_violation list"
  sp_unsettled_positions :: nat
  sp_realized_pnl_today :: flt
  sp_unrealized_pnl :: flt
  sp_dry_run :: bool

record portfolio_config =
  pg_max_per_market_usd :: flt
  pg_max_total_exposure_usd :: flt
  pg_max_per_venue_usd :: flt
  pg_kalshi_min_balance :: flt
  pg_polymarket_min_balance :: flt
  pg_max_positions_per_event :: int
  pg_max_quote_age_seconds :: flt
  pg_max_hedge_age_seconds :: flt

definition default_portfolio_config :: portfolio_config where
  "default_portfolio_config = \<lparr> pg_max_per_market_usd = 100, pg_max_total_exposure_usd = 500,
     pg_max_per_venue_usd = 300, pg_kalshi_min_balance = 50, pg_polymarket_min_balance = 25,
     pg_max_positions_per_event = 3, pg_max_quote_age_seconds = 30, pg_max_hedge_age_seconds = 7200 \<rparr>"

text \<open>\<open>pm_balances\<close> is what the balance monitor shows, \<open>pm_engine\<close> the engine, if wired.\<close>

record portfolio_monitor =
  pm_config :: portfolio_config
  pm_dry_run :: bool
  pm_last_snapshot :: "portfolio_snapshot option"
  pm_last_violation_ids :: "string list"

section \<open>Positions\<close>

definition filled_leg_cost :: "order \<Rightarrow> flt \<times> flt" where
  "filled_leg_cost r =
     (let qty = (of_int (ord_fill_qty r) :: flt)
      in if ord_status r \<noteq> FILLED \<and> ord_status r \<noteq> SIMULATED then (0, 0)
         else if qty \<le> 0 then (0, 0)
         else (qty, qty * or_flt (ord_fill_price r) (ord_price r)))"

definition position_from_execution :: "arb_execution \<Rightarrow> position option" where
  "position_from_execution e =
     (let p = ex_opportunity e; st = py_lower (ex_status e);
          (yq0, yc0) = filled_leg_cost (ex_leg_yes e); (nq0, nc0) = filled_leg_cost (ex_leg_no e);
          unfilled = (yq0 \<le> 0 \<and> nq0 \<le> 0); q0 = (of_int (opp_suggested_qty p) :: flt);
          (qty, yq, nq, yc, nc) =
            (if unfilled then (q0, q0, q0, q0 * opp_yes_price p, q0 * opp_no_price p)
             else (max yq0 nq0, yq0, nq0, yc0, nc0));
          hedged = (0 < yq \<and> 0 < nq \<and> \<bar>yq - nq\<bar> \<le> 1 / 10 ^ 9)
      in if unfilled \<and> st \<noteq> ''filled'' \<and> st \<noteq> ''simulated'' \<and> st \<noteq> ''manual_entered'' then None
         else if qty \<le> 0 then None
         else Some \<lparr> po_arb_id = ex_arb_id e, po_canonical_id = opp_canonical_id p,
                po_description = opp_description p, po_quantity = qty, po_yes_price = yc / qty,
                po_no_price = nc / qty, po_yes_cost = yc, po_no_cost = nc,
                po_yes_platform = opp_yes_platform p, po_no_platform = opp_no_platform p,
                po_status = (if hedged then ''hedged'' else ''open''),
                po_hedge_status = (if hedged then ''complete'' else ''none''),
                po_created_at = ex_timestamp e, po_updated_at = ex_timestamp e,
                po_realized_pnl = ex_realized_pnl e \<rparr>)"

definition active_statuses :: "string list" where
  "active_statuses = [''pending'', ''submitted'', ''simulated'', ''filled'', ''recovering'',
     ''manual_pending'', ''manual_entered'']"

definition open_positions :: "engine option \<Rightarrow> position list" where
  "open_positions en =
     (case en of None \<Rightarrow> []
      | Some e \<Rightarrow> List.map_filter position_from_execution
                    (filter (\<lambda>x. ex_status x \<in> set active_statuses) (en_executions e)))"

definition position_cost :: "position \<Rightarrow> flt" where
  "position_cost q = po_quantity q * po_yes_price q + po_quantity q * po_no_price q"

definition unhedged_position :: "position \<Rightarrow> bool" where
  "unhedged_position q = (po_status q = ''open'' \<and> po_hedge_status q = ''none'')"

definition slice_of :: "flt \<Rightarrow> position \<Rightarrow> exposure_slice" where
  "slice_of now q = \<lparr> es_canonical_id = po_canonical_id q, es_description = po_description q,
     es_quantity = po_quantity q, es_yes_cost = po_quantity q * po_yes_price q,
     es_no_cost = po_quantity q * po_no_price q, es_total_cost = position_cost q,
     es_yes_platform = po_yes_platform q, es_no_platform = po_no_platform q, es_status = po_status q,
     es_hedge_status = po_hedge_status q, es_age_seconds = now - po_created_at q,
     es_last_price_update = po_updated_at q \<rparr>"

definition slices :: "flt \<Rightarrow> position list \<Rightarrow> (string, exposure_slice) dict" where
  "slices now ps = fold (\<lambda>q d. AList.update (po_canonical_id q) (slice_of now q) d) ps []"

section \<open>Venues\<close>

definition exposed_platforms :: "position list \<Rightarrow> string list" where
  "exposed_platforms ps =
     first_unique (concat (map (\<lambda>q. (if 0 < po_yes_cost q then [po_yes_platform q] else [])
                                    @ (if 0 < po_no_cost q then [po_no_platform q] else [])) ps))"

definition cost_at :: "string \<Rightarrow> position \<Rightarrow> flt" where
  "cost_at platform q = (if po_yes_platform q = platform then po_yes_cost q else 0)
     + (if po_no_platform q = platform then po_no_cost q else 0)"

definition venue_of :: "portfolio_config \<Rightarrow> (string, balance_snapshot) dict \<Rightarrow> flt \<Rightarrow> position list
    \<Rightarrow> string \<Rightarrow> venue_exposure" where
  "venue_of c balances now ps platform =
     (let here = filter (\<lambda>q. po_yes_platform q = platform \<or> po_no_platform q = platform) ps;
          balance = map_option bs_balance (map_of balances platform)
      in \<lparr> ve_platform = platform, ve_total_exposure = sum_list (map (cost_at platform) here),
           ve_position_count = length here, ve_balance = balance,
           ve_is_low_balance =
             (case balance of None \<Rightarrow> False
              | Some b \<Rightarrow> platform = ''kalshi'' \<and> b < pg_kalshi_min_balance c
                          \<or> platform = ''polymarket'' \<and> b < pg_polymarket_min_balance c),
           ve_last_update = now \<rparr>)"

definition by_venue_of :: "portfolio_config \<Rightarrow> (string, balance_snapshot) dict \<Rightarrow> flt \<Rightarrow> position list
    \<Rightarrow> (string, venue_exposure) dict" where
  "by_venue_of c balances now ps =
     map (\<lambda>k. (k, venue_of c balances now ps k)) (exposed_platforms ps)"

section \<open>Rules\<close>

definition rule :: "bool \<Rightarrow> risk_violation \<Rightarrow> risk_violation list" where
  "rule broken v = (if broken then [v] else [])"

definition market_violation :: "portfolio_config \<Rightarrow> flt \<Rightarrow> position \<Rightarrow> risk_violation list" where
  "market_violation c now q =
     (let cost = po_quantity q * (po_yes_price q + po_no_price q); limit = pg_max_per_market_usd c
      in rule (limit < cost)
           \<lparr> rv_id = ''market_exposure:'' @ po_canonical_id q,
             rv_level = (if limit * (3/2) < cost then RiskViolation else RiskWarning),
             rv_category = ''exposure'',
             rv_message = (''Per-market exposure ${} exceeds ${} limit'', [cost, limit]),
             rv_canonical_id = Some (po_canonical_id q), rv_platform = None, rv_current_value = cost,
             rv_limit_value = limit, rv_timestamp = now \<rparr>)"

definition total_violation :: "portfolio_config \<Rightarrow> flt \<Rightarrow> flt \<Rightarrow> risk_violation list" where
  "total_violation c now total_exposure =
     (let limit = pg_max_total_exposure_usd c
      in rule (limit < total_exposure)
           \<lparr> rv_id = ''total_exposure'',
             rv_level = (if limit * (3/2) < total_exposure then RiskCritical else RiskViolation),
             rv_category = ''exposure'',
             rv_message = (''Total exposure ${} exceeds ${} limit'', [total_exposure, limit]),
             rv_canonical_id = None, rv_platform = None, rv_current_value = total_exposure,
             rv_limit_value = limit, rv_timestamp = now \<rparr>)"

definition venue_violation :: "portfolio_config \<Rightarrow> flt \<Rightarrow> string \<times> venue_exposure \<Rightarrow> risk_violation list" where
  "venue_violation c now = (\<lambda>(k, v).
     let limit = pg_max_per_venue_usd c; x = ve_total_exposure v
     in rule (limit < x)
          \<lparr> rv_id = ''venue_exposure:'' @ k, rv_level = RiskViolation, rv_category = ''exposure'',
            rv_message = (k @ '' exposure ${} exceeds ${} limit'', [x, limit]), rv_canonical_id = None,
            rv_platform = Some k, rv_current_value = x, rv_limit_value = limit, rv_timestamp = now \<rparr>)"

definition balance_violation :: "portfolio_config \<Rightarrow> flt \<Rightarrow> string \<times> venue_exposure \<Rightarrow> risk_violation list" where
  "balance_violation c now = (\<lambda>(k, v).
     let b = (case ve_balance v of None \<Rightarrow> 0 | Some x \<Rightarrow> x)
     in rule (ve_is_low_balance v)
          \<lparr> rv_id = ''low_balance:'' @ k, rv_level = RiskWarning, rv_category = ''balance'',
            rv_message = (k @ '' balance ${} is critically low'', [b]), rv_canonical_id = None,
            rv_platform = Some k, rv_current_value = b, rv_limit_value = pg_kalshi_min_balance c,
            rv_timestamp = now \<rparr>)"

definition stale_violation :: "portfolio_config \<Rightarrow> flt \<Rightarrow> position \<Rightarrow> risk_violation list" where
  "stale_violation c now q =
     (let age = now - po_updated_at q; i = or_str (po_arb_id q) (po_canonical_id q)
      in rule (unhedged_position q \<and> pg_max_hedge_age_seconds c < age)
           \<lparr> rv_id = ''stale_hedge:'' @ i, rv_level = RiskWarning, rv_category = ''stale'',
             rv_message = (''Position '' @ i @ '' ('' @ po_canonical_id q @ '') unhedged for {}h'', [age / 3600]),
             rv_canonical_id = Some (po_canonical_id q), rv_platform = Some (po_yes_platform q),
             rv_current_value = age, rv_limit_value = pg_max_hedge_age_seconds c, rv_timestamp = now \<rparr>)"

definition check_violations :: "portfolio_config \<Rightarrow> position list \<Rightarrow> (string, venue_exposure) dict
    \<Rightarrow> flt \<Rightarrow> flt \<Rightarrow> risk_violation list" where
  "check_violations c ps vs total_exposure now =
     concat (map (market_violation c now) ps) @ total_violation c now total_exposure
     @ concat (map (venue_violation c now) vs) @ concat (map (balance_violation c now) vs)
     @ concat (map (stale_violation c now) ps)"

section \<open>The snapshot\<close>

text \<open>\<open>day_start\<close> is local midnight of a timestamp.\<close>

definition realized_today :: "(flt \<Rightarrow> flt) \<Rightarrow> flt \<Rightarrow> engine option \<Rightarrow> flt" where
  "realized_today day_start now en =
     (case en of None \<Rightarrow> 0
      | Some e \<Rightarrow> sum_list (map ex_realized_pnl (filter (\<lambda>x. day_start now \<le> ex_timestamp x) (en_executions e))))"

definition estimate_unrealized :: "position list \<Rightarrow> flt" where
  "estimate_unrealized ps = 0"

definition portfolio_snapshot_of :: "(flt \<Rightarrow> flt) \<Rightarrow> flt \<Rightarrow> engine option
    \<Rightarrow> (string, balance_snapshot) dict \<Rightarrow> portfolio_monitor \<Rightarrow> portfolio_snapshot" where
  "portfolio_snapshot_of day_start now en balances m =
     (let c = pm_config m; ps = open_positions en; total_exposure = sum_list (map position_cost ps);
          vs = by_venue_of c balances now ps
      in \<lparr> sp_timestamp = now, sp_total_exposure = total_exposure, sp_total_open_positions = length ps,
           sp_total_hedged = length (filter (\<lambda>q. po_status q = ''hedged'') ps),
           sp_total_unhedged = length (filter (\<lambda>q. po_status q \<noteq> ''hedged'' \<and> unhedged_position q) ps),
           sp_by_venue = vs, sp_by_canonical = slices now ps,
           sp_violations = check_violations c ps vs total_exposure now,
           sp_unsettled_positions = length (filter (\<lambda>q. po_status q \<in> {''open'', ''hedged''}) ps),
           sp_realized_pnl_today = realized_today day_start now en,
           sp_unrealized_pnl = estimate_unrealized ps, sp_dry_run = pm_dry_run m \<rparr>)"

definition compute_snapshot :: "(flt \<Rightarrow> flt) \<Rightarrow> flt \<Rightarrow> engine option \<Rightarrow> (string, balance_snapshot) dict
    \<Rightarrow> portfolio_monitor \<Rightarrow> portfolio_monitor \<times> portfolio_snapshot" where
  "compute_snapshot day_start now en balances m =
     (let s = portfolio_snapshot_of day_start now en balances m
      in (m\<lparr>pm_last_snapshot := Some s\<rparr>, s))"

text \<open>One turn of the monitor's loop, without the callbacks.\<close>

definition portfolio_turn :: "(flt \<Rightarrow> flt) \<Rightarrow> flt \<Rightarrow> engine option \<Rightarrow> (string, balance_snapshot) dict
    \<Rightarrow> portfolio_monitor \<Rightarrow> portfolio_monitor" where
  "portfolio_turn day_start now en balances m =
     (let (m1, s) = compute_snapshot day_start now en balances m; vs = sp_violations s;
          has_new = (\<exists>v \<in> set vs. rv_id v \<notin> set (pm_last_violation_ids m1))
      in if has_new \<or> vs \<noteq> [] then m1\<lparr>pm_last_violation_ids := remdups (map rv_id vs)\<rparr> else m1)"

definition get_active_violations :: "portfolio_monitor \<Rightarrow> risk_violation list" where
  "get_active_violations m = (case pm_last_snapshot m of None \<Rightarrow> [] | Some s \<Rightarrow> sp_violations s)"

definition is_safe_to_trade :: "portfolio_monitor \<Rightarrow> bool \<times> message" where
  "is_safe_to_trade m =
     (case pm_last_snapshot m of
        None \<Rightarrow> (True, ([], []))
      | Some s \<Rightarrow>
          if \<not> sp_dry_run s then (False, (''LIVE TRADING - must be in DRY_RUN mode'', []))
          else (case filter (\<lambda>v. rv_level v = RiskCritical) (sp_violations s) of
                  v # vs \<Rightarrow> (False, (''Critical violation: '' @ fst (rv_message v), snd (rv_message v)))
                | [] \<Rightarrow>
                    (case filter (\<lambda>v. rv_level v = RiskViolation \<or> rv_level v = RiskWarning) (sp_violations s) of
                       v # vs \<Rightarrow> (True, (''Warning only: '' @ fst (rv_message v), snd (rv_message v)))
                     | [] \<Rightarrow> (True, ([], [])))))"

section \<open>Is it safe to trade\<close>

lemma rule_mem [simp]: "v \<in> set (rule b x) \<longleftrightarrow> b \<and> v = x"
  unfolding rule_def by (cases b) auto

lemma total_critical:
  "(\<exists>v \<in> set (total_violation c now x). rv_level v = RiskCritical)
     \<longleftrightarrow> pg_max_total_exposure_usd c < x \<and> pg_max_total_exposure_usd c * (3/2) < x"
  by (simp add: total_violation_def Let_def rule_def)

lemma rule_levels:
  "v \<in> set (market_violation c now q) \<Longrightarrow> rv_level v \<noteq> RiskCritical"
  "v \<in> set (venue_violation c now kv) \<Longrightarrow> rv_level v \<noteq> RiskCritical"
  "v \<in> set (balance_violation c now kv) \<Longrightarrow> rv_level v \<noteq> RiskCritical"
  "v \<in> set (stale_violation c now q) \<Longrightarrow> rv_level v \<noteq> RiskCritical"
  by (simp_all add: market_violation_def venue_violation_def balance_violation_def stale_violation_def Let_def
      case_prod_unfold)

lemma critical_iff:
  "(\<exists>v \<in> set (check_violations c ps vs x now). rv_level v = RiskCritical)
     \<longleftrightarrow> pg_max_total_exposure_usd c < x \<and> pg_max_total_exposure_usd c * (3/2) < x"
  unfolding total_critical[of c now x, symmetric] check_violations_def
  by (auto dest: rule_levels)

text \<open>
  The monitor lets a trade pass exactly when it runs dry and the total exposure is not above one
  and a half times its limit: no market, venue, balance or stale-hedge rule ever stops one.
\<close>

theorem portfolio_safe_iff:
  "fst (is_safe_to_trade (fst (compute_snapshot day_start now en balances m)))
     \<longleftrightarrow> pm_dry_run m
       \<and> \<not> (pg_max_total_exposure_usd (pm_config m) < sum_list (map position_cost (open_positions en))
            \<and> pg_max_total_exposure_usd (pm_config m) * (3/2) < sum_list (map position_cost (open_positions en)))"
proof -
  define s where "s = portfolio_snapshot_of day_start now en balances m"
  have "fst (is_safe_to_trade (m\<lparr>pm_last_snapshot := Some s\<rparr>))
      \<longleftrightarrow> sp_dry_run s \<and> filter (\<lambda>v. rv_level v = RiskCritical) (sp_violations s) = []"
    by (simp add: is_safe_to_trade_def split: list.split)
  moreover have "filter (\<lambda>v. rv_level v = RiskCritical) (sp_violations s) = []
      \<longleftrightarrow> \<not> (\<exists>v \<in> set (sp_violations s). rv_level v = RiskCritical)"
    by (auto simp: filter_empty_conv)
  moreover have "sp_dry_run s = pm_dry_run m"
    "sp_violations s = check_violations (pm_config m) (open_positions en)
       (by_venue_of (pm_config m) balances now (open_positions en))
       (sum_list (map position_cost (open_positions en))) now"
    by (simp_all add: s_def portfolio_snapshot_of_def Let_def)
  ultimately show ?thesis
    by (simp only: compute_snapshot_def Let_def fst_conv s_def[symmetric] critical_iff)
qed

section \<open>The exposure adds up\<close>

text \<open>An execution at prices that are not negative.\<close>

definition priced_execution :: "arb_execution \<Rightarrow> bool" where
  "priced_execution e =
     (0 \<le> opp_yes_price (ex_opportunity e) \<and> 0 \<le> opp_no_price (ex_opportunity e)
      \<and> (\<forall>r \<in> {ex_leg_yes e, ex_leg_no e}. 0 \<le> ord_price r \<and> 0 \<le> ord_fill_price r))"

lemma leg_cost_nonneg:
  "0 \<le> ord_price r \<Longrightarrow> 0 \<le> ord_fill_price r \<Longrightarrow> 0 \<le> snd (filled_leg_cost r)"
  by (simp add: filled_leg_cost_def or_flt_def Let_def)

lemma position_facts:
  assumes "position_from_execution e = Some q"
  shows "0 < po_quantity q" "position_cost q = po_yes_cost q + po_no_cost q"
    "priced_execution e \<Longrightarrow> 0 \<le> po_yes_cost q" "priced_execution e \<Longrightarrow> 0 \<le> po_no_cost q"
  using assms leg_cost_nonneg[of "ex_leg_yes e"] leg_cost_nonneg[of "ex_leg_no e"]
  by (auto simp: position_from_execution_def position_cost_def priced_execution_def Let_def case_prod_unfold
      split: if_splits)

lemma sum_list_swap:
  "sum_list (map (\<lambda>k. sum_list (map (f k) ps)) ks) = sum_list (map (\<lambda>q. sum_list (map (\<lambda>k. f k q) ks)) ps)"
  for f :: "'k \<Rightarrow> 'p \<Rightarrow> 'm::comm_monoid_add"
proof (induction ks)
  case (Cons k ks)
  then show ?case by (simp add: sum_list_addf)
qed (simp add: sum_list_triv)

lemma sum_at:
  "distinct ks \<Longrightarrow> sum_list (map (\<lambda>k. if x = k then y else 0) ks) = (if x \<in> set ks then y else (0 :: flt))"
  by (induction ks) auto

lemma cost_at_elsewhere:
  "sum_list (map (cost_at k) (filter (\<lambda>q. po_yes_platform q = k \<or> po_no_platform q = k) ps))
     = sum_list (map (cost_at k) ps)"
  by (induction ps) (auto simp: cost_at_def)

lemma exposed_distinct: "distinct (exposed_platforms ps)"
  by (simp add: exposed_platforms_def first_unique_def)

lemma exposed_mem:
  "k \<in> set (exposed_platforms ps) \<longleftrightarrow> (\<exists>q \<in> set ps. 0 < po_yes_cost q \<and> k = po_yes_platform q
     \<or> 0 < po_no_cost q \<and> k = po_no_platform q)"
  by (auto simp: exposed_platforms_def first_unique_def split: if_splits)

lemma venues_add_up:
  assumes "\<forall>q \<in> set ps. 0 \<le> po_yes_cost q \<and> 0 \<le> po_no_cost q \<and> position_cost q = po_yes_cost q + po_no_cost q"
  shows "sum_list (map (\<lambda>(k, v). ve_total_exposure v) (by_venue_of c balances now ps))
     = sum_list (map position_cost ps)"
proof -
  let ?ks = "exposed_platforms ps"
  have "sum_list (map (\<lambda>(k, v). ve_total_exposure v) (by_venue_of c balances now ps))
      = sum_list (map (\<lambda>k. sum_list (map (cost_at k) ps)) ?ks)"
    by (simp add: by_venue_of_def venue_of_def Let_def cost_at_elsewhere comp_def)
  also have "\<dots> = sum_list (map (\<lambda>q. sum_list (map (\<lambda>k. cost_at k q) ?ks)) ps)"
    by (rule sum_list_swap)
  also have "\<dots> = sum_list (map position_cost ps)"
  proof (rule arg_cong[of _ _ sum_list], rule map_cong[OF refl])
    fix q assume q: "q \<in> set ps"
    have "sum_list (map (\<lambda>k. cost_at k q) ?ks)
        = (if po_yes_platform q \<in> set ?ks then po_yes_cost q else 0)
          + (if po_no_platform q \<in> set ?ks then po_no_cost q else 0)"
      by (simp add: cost_at_def sum_list_addf sum_at exposed_distinct)
    also have "\<dots> = po_yes_cost q + po_no_cost q"
      using q assms exposed_mem[of _ ps] by (force simp: not_less intro: antisym)
    finally show "sum_list (map (\<lambda>k. cost_at k q) ?ks) = position_cost q" using q assms by simp
  qed
  finally show ?thesis .
qed

text \<open>
  The exposure adds up: the exposures shown for the venues sum up to the total exposure, and so
  do the costs of the open positions, whatever legs filled.
\<close>

theorem exposure_adds_up:
  assumes "\<forall>e \<in> set (en_executions en). priced_execution e"
  shows "sum_list (map (\<lambda>(k, v). ve_total_exposure v) (sp_by_venue (portfolio_snapshot_of ds now (Some en) bs m)))
       = sp_total_exposure (portfolio_snapshot_of ds now (Some en) bs m)"
proof -
  have "\<forall>q \<in> set (open_positions (Some en)).
      0 \<le> po_yes_cost q \<and> 0 \<le> po_no_cost q \<and> position_cost q = po_yes_cost q + po_no_cost q"
    using assms position_facts by (auto simp: open_positions_def List.map_filter_def)
  then show ?thesis by (simp add: portfolio_snapshot_of_def Let_def venues_add_up)
qed

section \<open>Naked legs\<close>

text \<open>Exactly one leg of an execution has a fill.\<close>

definition one_legged :: "arb_execution \<Rightarrow> bool" where
  "one_legged e = ((0 < fst (filled_leg_cost (ex_leg_yes e))) \<noteq> (0 < fst (filled_leg_cost (ex_leg_no e))))"

lemma fill_nonneg: "0 \<le> fst (filled_leg_cost r)"
  by (simp add: filled_leg_cost_def Let_def)

lemma one_legged_position:
  assumes "one_legged e"
  shows "\<exists>q. position_from_execution e = Some q \<and> unhedged_position q \<and> po_status q \<noteq> ''hedged''
    \<and> po_canonical_id q = opp_canonical_id (ex_opportunity e) \<and> po_updated_at q = ex_timestamp e"
  using assms fill_nonneg[of "ex_leg_yes e"] fill_nonneg[of "ex_leg_no e"]
  by (auto simp: one_legged_def position_from_execution_def unhedged_position_def Let_def case_prod_unfold)

text \<open>
  A naked leg is reported: an execution of which exactly one leg has a fill shows up as an
  unhedged position as long as its status is active, and once it is older than the hedge limit, as a
  stale hedge with its market and its age.
\<close>

theorem naked_leg_reported:
  assumes "e \<in> set (en_executions en)" "ex_status e \<in> set active_statuses" "one_legged e"
    and "s = portfolio_snapshot_of ds now (Some en) bs m"
  shows "0 < sp_total_unhedged s
    \<and> (pg_max_hedge_age_seconds (pm_config m) < now - ex_timestamp e
       \<longrightarrow> (\<exists>v \<in> set (sp_violations s). rv_category v = ''stale''
              \<and> rv_canonical_id v = Some (opp_canonical_id (ex_opportunity e))
              \<and> rv_current_value v = now - ex_timestamp e))"
proof -
  obtain q where q: "position_from_execution e = Some q" "unhedged_position q" "po_status q \<noteq> ''hedged''"
    "po_canonical_id q = opp_canonical_id (ex_opportunity e)" "po_updated_at q = ex_timestamp e"
    using one_legged_position[OF assms(3)] by blast
  with assms(1,2) have mem: "q \<in> set (open_positions (Some en))"
    by (auto simp: open_positions_def List.map_filter_def intro!: image_eqI[of q the "Some q"] image_eqI[of _ _ e])
  then have "filter (\<lambda>q. po_status q \<noteq> ''hedged'' \<and> unhedged_position q) (open_positions (Some en)) \<noteq> []"
    using q by (auto simp: filter_empty_conv)
  moreover have "\<exists>v \<in> set (stale_violation (pm_config m) now q). rv_category v = ''stale''
      \<and> rv_canonical_id v = Some (opp_canonical_id (ex_opportunity e)) \<and> rv_current_value v = now - ex_timestamp e"
    if "pg_max_hedge_age_seconds (pm_config m) < now - ex_timestamp e"
    using that q by (simp add: stale_violation_def Let_def rule_def)
  ultimately show ?thesis
    using mem by (auto simp: assms(4) portfolio_snapshot_of_def Let_def check_violations_def)
qed

section \<open>Limits of the view\<close>

text \<open>Two positions on one market are shown as the last of them only.\<close>

lemma canonical_shows_last:
  "map_of (slices now (ps @ [q])) (po_canonical_id q) = Some (slice_of now q)"
  by (simp add: slices_def update_conv')

text \<open>The rule on a market looks at each position alone: two of 90 dollars pass a limit of 100.\<close>

lemma market_rule_per_position:
  assumes "position_cost q = 90"
  shows "concat (map (market_violation default_portfolio_config now) [q, q]) = []
    \<and> pg_max_per_market_usd default_portfolio_config < sum_list (map position_cost [q, q])"
  using assms
  by (simp add: market_violation_def rule_def position_cost_def default_portfolio_config_def Let_def
      distrib_left)

text \<open>A ForecastEx balance is never low, and the limit shown for a low Polymarket balance is Kalshi's.\<close>

lemma forecastex_never_low:
  "\<not> ve_is_low_balance (venue_of c balances now ps ''forecastex'')"
  by (simp add: venue_of_def Let_def split: option.split)

lemma low_balance_limit:
  "v \<in> set (balance_violation c now kv) \<Longrightarrow> rv_limit_value v = pg_kalshi_min_balance c"
  by (auto simp: balance_violation_def rule_def Let_def case_prod_unfold split: if_splits)

section \<open>A demonstration\<close>

definition demo_naked :: arb_execution where
  "demo_naked = demo_paid\<lparr>ex_leg_no := (demo_paid_leg ''no'')\<lparr>ord_status := FAILED\<rparr>, ex_status := ''recovering''\<rparr>"

definition demo_naked_engine :: engine where
  "demo_naked_engine = demo_paid_engine\<lparr>en_executions := [demo_naked]\<rparr>"

definition demo_monitor :: portfolio_monitor where
  "demo_monitor = \<lparr> pm_config = default_portfolio_config, pm_dry_run = True, pm_last_snapshot = None,
     pm_last_violation_ids = [] \<rparr>"

lemma demo_naked_fields:
  "en_executions demo_naked_engine = [demo_naked]" "ex_status demo_naked = ''recovering''"
  "one_legged demo_naked" "ex_timestamp demo_naked = 0" "priced_execution demo_naked"
  by (simp_all add: demo_naked_engine_def demo_naked_def demo_paid_def demo_paid_leg_def one_legged_def
      filled_leg_cost_def priced_execution_def demo_opp_fields)

theorem exposure_adds_up_witness:
  "sum_list (map (\<lambda>(k, v). ve_total_exposure v)
       (sp_by_venue (portfolio_snapshot_of (\<lambda>t. 0) 9000 (Some demo_naked_engine) [] demo_monitor)))
     = sp_total_exposure (portfolio_snapshot_of (\<lambda>t. 0) 9000 (Some demo_naked_engine) [] demo_monitor)"
  using exposure_adds_up[of demo_naked_engine] by (simp add: demo_naked_fields)

theorem naked_leg_reported_witness:
  "\<exists>v \<in> set (sp_violations (portfolio_snapshot_of (\<lambda>t. 0) 9000 (Some demo_naked_engine) [] demo_monitor)).
     rv_category v = ''stale'' \<and> rv_current_value v = 9000"
  using naked_leg_reported[of demo_naked demo_naked_engine _ "\<lambda>t. 0" 9000 "[]" demo_monitor, OF _ _ _ refl]
  by (auto simp: demo_naked_fields active_statuses_def demo_monitor_def default_portfolio_config_def)

end
