(* ===== verification/Kalshi_Adapter.thy ===== *)
theory Kalshi_Adapter
  imports Parsing Retry Recovery
begin

text \<open>
  \<open>KalshiAdapter\<close> of \<open>arbiter/execution/adapters/kalshi.py\<close>: the orders it sends, what it makes of the
  venue's answers, cancelling, reading back and the order book, and what this means for the recovery of
  a naked leg, which relies on it.  The venue is a parameter that answers the n-th request; the retry
  decorators are those of the tenacity library and a parameter too.
\<close>

section \<open>Requests and answers\<close>

text \<open>
  \<open>hr_json\<close> is what \<open>json.loads\<close> makes of the body (\<open>None\<close>: it raises), \<open>hr_retry_after\<close> what
  \<open>_parse_retry_after\<close> makes of the header, \<open>"1"\<close> without one.
\<close>

record http_response =
  hr_status :: int
  hr_body :: string
  hr_json :: "json option"
  hr_retry_after :: "flt option"

datatype http_try = Answered http_response | NetworkDown | InfraDown | OtherFailure

record order_body =
  ob_ticker :: string
  ob_client_order_id :: string
  ob_side :: string
  ob_count :: flt
  ob_price :: flt
  ob_time_in_force :: string

datatype http_call = HPost order_body | HDelete string | HDeleteMany "string list" | HGetOrder string
  | HListOrders string | HGetBook string

text \<open>The order the adapter returns: \<open>fill_qty\<close> is the venue's float, the engine works with whole numbers.\<close>

record venue_order = order + vo_fill_qty :: flt

definition engine_view :: "venue_order \<Rightarrow> order" where
  "engine_view v = order.truncate v"

record kalshi =
  ka_circuit :: circuit_breaker
  ka_limiter :: rate_limiter
  ka_calls :: "http_call list"

text \<open>
  \<open>hx_answer\<close> is the venue's answer to the n-th request, \<open>hx_retry infra f\<close> the last attempt a retry
  decorator makes when its attempts come out as \<open>f\<close>, \<open>hx_acquire\<close> the limiter after a token was waited
  for, \<open>hx_phase4\<close> and \<open>hx_phase5\<close> the environment variables of the hard locks.
\<close>

record kalshi_env =
  hx_now :: flt
  hx_auth :: bool
  hx_uuid :: string
  hx_phase4 :: "string option"
  hx_phase5 :: "string option"
  hx_acquire :: "rate_limiter \<Rightarrow> rate_limiter"
  hx_answer :: "nat \<Rightarrow> http_call \<Rightarrow> http_try"
  hx_retry :: "bool \<Rightarrow> (nat \<Rightarrow> http_try) \<Rightarrow> nat"

definition is_kalshi_infra_response :: "int \<Rightarrow> string \<Rightarrow> bool" where
  "is_kalshi_infra_response status body =
     (if status \<in> {500, 502, 503, 504} then True
      else if status = 401
      then let b = py_lower body
           in if contains ''incorrect_api_key_signature'' b \<or> contains ''forbidden'' b then False
              else contains ''service unavailable'' b \<or> contains ''internal_server_error'' b
                   \<or> contains ''upstream connect error'' b \<or> contains ''reset reason'' b
                   \<or> contains ''disconnect'' b
      else False)"

definition retryable :: "bool \<Rightarrow> http_try \<Rightarrow> bool" where
  "retryable infra t = (t = NetworkDown \<or> infra \<and> t = InfraDown)"

text \<open>One attempt; with \<open>infra\<close>, an answer that is an infrastructure error is raised as one.\<close>

definition attempt_of :: "kalshi_env \<Rightarrow> kalshi \<Rightarrow> bool \<Rightarrow> http_call \<Rightarrow> nat \<Rightarrow> http_try" where
  "attempt_of env s infra c k =
     (case hx_answer env (length (ka_calls s) + k) c of
        Answered h \<Rightarrow> if infra \<and> is_kalshi_infra_response (hr_status h) (hr_body h) then InfraDown else Answered h
      | t \<Rightarrow> t)"

definition request :: "kalshi_env \<Rightarrow> bool \<Rightarrow> http_call \<Rightarrow> kalshi \<Rightarrow> kalshi \<times> http_try" where
  "request env infra c s =
     (let f = attempt_of env s infra c; last_try = hx_retry env infra f
      in (s\<lparr>ka_calls := ka_calls s @ replicate (last_try + 1) c\<rparr>, f last_try))"

text \<open>A request that waits for a token in every attempt, and one that waits once before them.\<close>

definition post_order :: "kalshi_env \<Rightarrow> order_body \<Rightarrow> kalshi \<Rightarrow> kalshi \<times> http_try" where
  "post_order env body s =
     (let (s1, t) = request env True (HPost body) s; tries = length (ka_calls s1) - length (ka_calls s)
      in (s1\<lparr>ka_limiter := (hx_acquire env ^^ tries) (ka_limiter s)\<rparr>, t))"

definition acquired :: "kalshi_env \<Rightarrow> kalshi \<Rightarrow> kalshi" where
  "acquired env s = s\<lparr>ka_limiter := hx_acquire env (ka_limiter s)\<rparr>"

definition circuit_failure :: "kalshi_env \<Rightarrow> kalshi \<Rightarrow> kalshi" where
  "circuit_failure env s = s\<lparr>ka_circuit := record_failure (hx_now env) (ka_circuit s)\<rparr>"

definition circuit_success :: "kalshi \<Rightarrow> kalshi" where
  "circuit_success s = s\<lparr>ka_circuit := record_success (ka_circuit s)\<rparr>"

definition circuit_check :: "kalshi_env \<Rightarrow> kalshi \<Rightarrow> kalshi \<times> bool" where
  "circuit_check env s = (let (c, ok) = can_execute (hx_now env) (ka_circuit s) in (s\<lparr>ka_circuit := c\<rparr>, ok))"

text \<open>A 429: the limiter is penalized as the header says, and the breaker notes a failure.\<close>

definition rate_limited :: "kalshi_env \<Rightarrow> http_response \<Rightarrow> kalshi \<Rightarrow> kalshi" where
  "rate_limited env h s =
     circuit_failure env
       (s\<lparr>ka_limiter := fst (apply_retry_after (hr_retry_after h) 2 ''kalshi_429'' (hx_now env) (ka_limiter s))\<rparr>)"

text \<open>What iterating a value gives; \<open>None\<close>: an exception.\<close>

definition json_items :: "json \<Rightarrow> json list option" where
  "json_items j = (case j of JArr xs \<Rightarrow> Some xs | JObj d \<Rightarrow> Some (map (JStr \<circ> fst) d)
     | JStr s \<Rightarrow> Some (map (\<lambda>c. JStr [c]) s) | _ \<Rightarrow> None)"

section \<open>Status, fill and price of an answer\<close>

definition fok_status :: "json \<Rightarrow> order_status" where
  "fok_status j =
     (case j of
        JStr s \<Rightarrow> if s = ''executed'' then FILLED
                  else if s = ''canceled'' \<or> s = ''cancelled'' then CANCELLED
                  else if s = ''pending'' then PENDING else SUBMITTED
      | _ \<Rightarrow> SUBMITTED)"

fun float_from_order :: "(string \<times> json) list \<Rightarrow> string list \<Rightarrow> flt \<Rightarrow> flt" where
  "float_from_order od [] default_value = default_value"
| "float_from_order od (k # ks) default_value =
     (if jget od k = JNull then float_from_order od ks default_value
      else case json_float (jget od k) of
             Some x \<Rightarrow> x | None \<Rightarrow> float_from_order od ks default_value)"

definition fill_count :: "(string \<times> json) list \<Rightarrow> flt" where
  "fill_count od = float_from_order od [''fill_count'', ''fill_count_fp'', ''count_filled''] 0"

definition map_order_status_from_counts :: "(string \<times> json) list \<Rightarrow> int \<Rightarrow> order_status" where
  "map_order_status_from_counts od target_qty =
     (if truthy (jget od ''status'') then fok_status (jget od ''status'')
      else let filled = fill_count od;
               remaining = float_from_order od [''remaining_count'', ''remaining_count_fp'', ''count_remaining''] 0
           in if max (of_int target_qty - 1 / 10 ^ 9) 0 \<le> filled then FILLED
              else if 0 < filled then PARTIAL
              else if 0 < remaining then SUBMITTED
              else CANCELLED)"

definition is_no :: "string \<Rightarrow> bool" where
  "is_no side = (py_lower side = ''no'')"

definition price_or :: "(string \<times> json) list \<Rightarrow> string \<Rightarrow> flt \<Rightarrow> flt" where
  "price_or od k otherwise = (case json_float (jget od k) of Some x \<Rightarrow> x | None \<Rightarrow> otherwise)"

definition side_price_key :: "string \<Rightarrow> string" where
  "side_price_key side = (if is_no side then ''no_price_dollars'' else ''yes_price_dollars'')"

definition extract_fill_price :: "(string \<times> json) list \<Rightarrow> string \<Rightarrow> flt \<Rightarrow> flt \<Rightarrow> flt" where
  "extract_fill_price od side filled fallback =
     (let cost = (if 0 < filled then price_or od ''taker_fill_cost_dollars'' 0 else 0)
      in if 0 < cost then cost / filled
         else case json_float (jget od ''average_fill_price'') of
                Some avg_fill \<Rightarrow> if is_no side then 1 - avg_fill else avg_fill
              | None \<Rightarrow> price_or od (side_price_key side) (price_or od ''avg_price'' fallback))"

text \<open>\<open>data.get("order", data)\<close> of a dict, the empty dict otherwise; \<open>None\<close> when \<open>get\<close> of it would raise.\<close>

definition order_data :: "json \<Rightarrow> (string \<times> json) list option" where
  "order_data data =
     (case data of
        JObj d \<Rightarrow> (case map_of d ''order'' of None \<Rightarrow> Some d | Some (JObj e) \<Rightarrow> Some e | Some j \<Rightarrow> None)
      | _ \<Rightarrow> Some [])"

section \<open>Orders as they are sent\<close>

definition book_side_for :: "string \<Rightarrow> string \<Rightarrow> string option" where
  "book_side_for action outcome_side =
     (let side = py_lower outcome_side; act = py_lower action
      in if side \<noteq> ''yes'' \<and> side \<noteq> ''no'' then None
         else if act = ''buy'' then Some (if side = ''yes'' then ''bid'' else ''ask'')
         else if act = ''sell'' then Some (if side = ''yes'' then ''ask'' else ''bid'')
         else None)"

definition book_price_for :: "string \<Rightarrow> flt \<Rightarrow> flt option" where
  "book_price_for outcome_side price =
     (let side = py_lower outcome_side
      in if side = ''yes'' then Some price else if side = ''no'' then Some (1 - price) else None)"

text \<open>The body of an order; the count and the price are sent with two and four decimals.\<close>

definition event_order_body ::
  "string \<Rightarrow> string \<Rightarrow> string \<Rightarrow> string \<Rightarrow> flt \<Rightarrow> int \<Rightarrow> string \<Rightarrow> order_body option" where
  "event_order_body ticker client_order_id action side price qty tif =
     (case (book_side_for action side, book_price_for side price) of
        (Some bs, Some bp) \<Rightarrow> Some \<lparr> ob_ticker = ticker, ob_client_order_id = client_order_id, ob_side = bs,
           ob_count = round_nd 2 (of_int qty), ob_price = round_nd 4 bp, ob_time_in_force = tif \<rparr>
      | _ \<Rightarrow> None)"

text \<open>What every order method is called with.\<close>

record order_args =
  oa_arb :: string
  oa_market :: string
  oa_canonical :: string
  oa_side :: string
  oa_price :: flt
  oa_qty :: int

definition failed_order :: "kalshi_env \<Rightarrow> order_args \<Rightarrow> string \<Rightarrow> venue_order" where
  "failed_order env a err =
     \<lparr> ord_id = oa_arb a @ ''-'' @ py_upper (oa_side a) @ ''-KALSHI'', ord_platform = ''kalshi'',
       ord_market_id = oa_market a, ord_canonical_id = oa_canonical a, ord_side = oa_side a,
       ord_price = oa_price a, ord_quantity = oa_qty a, ord_status = FAILED, ord_fill_price = 0,
       ord_fill_qty = 0, ord_timestamp = hx_now env, ord_error = err,
       ord_external_client_order_id = None, ord_idempotency_ambiguous = False, vo_fill_qty = 0 \<rparr>"

definition placed_order :: "kalshi_env \<Rightarrow> order_args \<Rightarrow> string \<Rightarrow> (string \<times> json) list \<Rightarrow> venue_order" where
  "placed_order env a client_order_id od =
     (let filled = fill_count od
      in \<lparr> ord_id = json_text (dget od ''order_id'' (JStr client_order_id)), ord_platform = ''kalshi'',
           ord_market_id = oa_market a, ord_canonical_id = oa_canonical a, ord_side = oa_side a,
           ord_price = oa_price a, ord_quantity = oa_qty a,
           ord_status = map_order_status_from_counts od (oa_qty a),
           ord_fill_price = extract_fill_price od (oa_side a) filled (oa_price a),
           ord_fill_qty = py_int filled, ord_timestamp = hx_now env, ord_error = [],
           ord_external_client_order_id = Some client_order_id, ord_idempotency_ambiguous = False,
           vo_fill_qty = filled \<rparr>)"

definition hard_lock :: "string option \<Rightarrow> string \<Rightarrow> flt \<Rightarrow> int \<Rightarrow> string option" where
  "hard_lock raw name price qty =
     (case raw of
        None \<Rightarrow> None
      | Some s \<Rightarrow>
          let cap = (case float_of_text s of None \<Rightarrow> 0 | Some x \<Rightarrow> x)
          in if s \<noteq> [] \<and> cap < of_int qty * price
             then Some (name @ '' hard-lock: notional ${} > ${}'') else None)"

definition hard_locks :: "kalshi_env \<Rightarrow> order_args \<Rightarrow> string option" where
  "hard_locks env a =
     (case hard_lock (hx_phase4 env) ''PHASE4_MAX_ORDER_USD'' (oa_price a) (oa_qty a) of
        Some err \<Rightarrow> Some err
      | None \<Rightarrow> hard_lock (hx_phase5 env) ''PHASE5_MAX_ORDER_USD'' (oa_price a) (oa_qty a))"

definition client_order_id_of :: "kalshi_env \<Rightarrow> order_args \<Rightarrow> string \<Rightarrow> string" where
  "client_order_id_of env a tag = oa_arb a @ ''-'' @ py_upper (oa_side a) @ tag @ ''-'' @ hx_uuid env"

text \<open>A result of \<open>None\<close> is an exception that leaves the adapter.\<close>

definition read_answer ::
  "kalshi_env \<Rightarrow> order_args \<Rightarrow> string \<Rightarrow> string \<Rightarrow> http_response \<Rightarrow> venue_order option" where
  "read_answer env a client_order_id parse_error h =
     (case hr_json h of
        None \<Rightarrow> Some (failed_order env a parse_error)
      | Some data \<Rightarrow> map_option (placed_order env a client_order_id) (order_data data))"

text \<open>Sending a buy and reading the answer, as \<open>place_fok\<close> and \<open>place_resting_limit\<close> do.\<close>

definition send_buy :: "kalshi_env \<Rightarrow> order_args \<Rightarrow> string \<Rightarrow> kalshi \<Rightarrow> kalshi \<times> venue_order option" where
  "send_buy env a tif s =
     (let cid = client_order_id_of env a []
      in case event_order_body (oa_market a) cid ''buy'' (oa_side a) (oa_price a) (oa_qty a) tif of
           None \<Rightarrow> (s, None)
         | Some body \<Rightarrow>
             (case post_order env body s of
                (s1, Answered h) \<Rightarrow>
                  if hr_status h = 429 then (rate_limited env h s1, Some (failed_order env a ''rate_limited ({}s)''))
                  else if hr_status h \<noteq> 200 \<and> hr_status h \<noteq> 201
                  then (circuit_failure env s1,
                        Some (failed_order env a (''Kalshi API {}: '' @ take 200 (hr_body h))))
                  else (circuit_success s1, read_answer env a cid ''Kalshi response parse: {}'' h)
              | (s1, OtherFailure) \<Rightarrow>
                  (circuit_failure env s1, Some (failed_order env a ''Kalshi request exception: {}''))
              | (s1, _) \<Rightarrow>
                  (circuit_failure env s1,
                   Some (failed_order env a ''Kalshi transient (retries exhausted): {}''))))"

definition place_fok :: "kalshi_env \<Rightarrow> order_args \<Rightarrow> string \<Rightarrow> kalshi \<Rightarrow> kalshi \<times> venue_order option" where
  "place_fok env a tif s =
     (if \<not> hx_auth env then (s, Some (failed_order env a ''Kalshi auth not configured''))
      else if \<not> (0 < oa_price a \<and> oa_price a < 1)
      then (s, Some (failed_order env a ''Invalid price {}: must be between 0 and 1 exclusive''))
      else let (s1, ok) = circuit_check env s
           in if \<not> ok then (s1, Some (failed_order env a ''kalshi circuit open''))
              else case hard_locks env a of
                     Some err \<Rightarrow> (s1, Some (failed_order env a err))
                   | None \<Rightarrow> send_buy env a tif s1)"

definition place_ioc :: "kalshi_env \<Rightarrow> order_args \<Rightarrow> kalshi \<Rightarrow> kalshi \<times> venue_order option" where
  "place_ioc env a s = place_fok env a ''immediate_or_cancel'' s"

definition place_resting_limit :: "kalshi_env \<Rightarrow> order_args \<Rightarrow> kalshi \<Rightarrow> kalshi \<times> venue_order option" where
  "place_resting_limit env a s =
     (if \<not> hx_auth env then (s, Some (failed_order env a ''Kalshi auth not configured''))
      else if \<not> (0 < oa_price a \<and> oa_price a < 1)
      then (s, Some (failed_order env a ''Invalid price {}: must be between 0 and 1 exclusive''))
      else case hard_locks env a of
             Some err \<Rightarrow> (s, Some (failed_order env a err))
           | None \<Rightarrow>
               let (s1, ok) = circuit_check env s
               in if \<not> ok then (s1, Some (failed_order env a ''kalshi circuit open''))
                  else send_buy env a ''good_till_canceled'' s1)"

text \<open>The two sells of an unwind: a panic IOC and a resting order at the price paid.\<close>

definition place_unwind_sell :: "kalshi_env \<Rightarrow> order_args \<Rightarrow> kalshi \<Rightarrow> kalshi \<times> venue_order option" where
  "place_unwind_sell env a s =
     (if \<not> hx_auth env then (s, Some (failed_order env a ''Kalshi auth not configured for unwind''))
      else let (s1, ok) = circuit_check env s; cid = client_order_id_of env a ''-UNWIND''
           in if \<not> ok then (s1, Some (failed_order env a ''kalshi circuit open''))
              else case event_order_body (oa_market a) cid ''sell'' (oa_side a) (oa_price a) (oa_qty a)
                          ''immediate_or_cancel'' of
                     None \<Rightarrow> (s1, None)
                   | Some body \<Rightarrow>
                       (case post_order env body s1 of
                          (s2, Answered h) \<Rightarrow>
                            if hr_status h \<noteq> 200 \<and> hr_status h \<noteq> 201
                            then (circuit_failure env s2,
                                  Some (failed_order env a (''Kalshi unwind {}: '' @ take 200 (hr_body h))))
                            else (circuit_success s2, read_answer env a cid ''Kalshi unwind response parse: {}'' h)
                        | (s2, OtherFailure) \<Rightarrow>
                            (circuit_failure env s2, Some (failed_order env a ''Kalshi unwind exception: {}''))
                        | (s2, _) \<Rightarrow>
                            (circuit_failure env s2, Some (failed_order env a ''Kalshi unwind transient: {}''))))"

definition place_resting_sell :: "kalshi_env \<Rightarrow> order_args \<Rightarrow> kalshi \<Rightarrow> kalshi \<times> venue_order option" where
  "place_resting_sell env a s =
     (if \<not> hx_auth env then (s, Some (failed_order env a ''Kalshi auth not configured for resting sell''))
      else let (s1, ok) = circuit_check env s; cid = client_order_id_of env a ''-RESTSELL''
           in if \<not> ok then (s1, Some (failed_order env a ''kalshi circuit open''))
              else case event_order_body (oa_market a) cid ''sell'' (oa_side a) (oa_price a) (oa_qty a)
                          ''good_till_canceled'' of
                     None \<Rightarrow> (s1, None)
                   | Some body \<Rightarrow>
                       (case post_order env body s1 of
                          (s2, Answered h) \<Rightarrow>
                            if hr_status h \<noteq> 200 \<and> hr_status h \<noteq> 201
                            then (s2, Some (failed_order env a
                                              (''Kalshi resting sell {}: '' @ take 200 (hr_body h))))
                            else (s2, read_answer env a cid ''Kalshi resting sell parse: {}'' h)
                        | (s2, _) \<Rightarrow>
                            (circuit_failure env s2,
                             Some (failed_order env a ''Kalshi resting sell exception: {}''))))"

section \<open>What an order puts on the wire\<close>

lemma request_calls [simp]:
  "ka_calls (fst (request env infra c s))
     = ka_calls s @ replicate (hx_retry env infra (attempt_of env s infra c) + 1) c"
  by (simp add: request_def Let_def)

lemma request_answer [simp]:
  "snd (request env infra c s) = attempt_of env s infra c (hx_retry env infra (attempt_of env s infra c))"
  by (simp add: request_def Let_def)

lemma bookkeeping_calls [simp]:
  "ka_calls (acquired env s) = ka_calls s" "ka_calls (circuit_failure env s) = ka_calls s"
  "ka_calls (circuit_success s) = ka_calls s" "ka_calls (rate_limited env h s) = ka_calls s"
  "ka_calls (fst (circuit_check env s)) = ka_calls s"
  by (simp_all add: acquired_def circuit_failure_def circuit_success_def rate_limited_def
      circuit_check_def split: prod.splits)

definition post_tries :: "kalshi_env \<Rightarrow> order_body \<Rightarrow> kalshi \<Rightarrow> nat" where
  "post_tries env body s = hx_retry env True (attempt_of env s True (HPost body)) + 1"

lemma post_calls:
  "ka_calls (fst (post_order env body s)) = ka_calls s @ replicate (post_tries env body s) (HPost body)"
  by (simp add: post_order_def post_tries_def Let_def split_beta)

lemma post_answer:
  "snd (post_order env body s) = attempt_of env s True (HPost body) (post_tries env body s - 1)"
  by (simp add: post_order_def post_tries_def Let_def split_beta)

lemma attempt_same_calls: "ka_calls s' = ka_calls s \<Longrightarrow> attempt_of env s' = attempt_of env s"
  by (intro ext) (simp add: attempt_of_def)

lemma post_tries_same: "ka_calls s' = ka_calls s \<Longrightarrow> post_tries env body s' = post_tries env body s"
  by (simp add: post_tries_def attempt_same_calls [of s' s])

text \<open>The body of an order of these arguments, and what a placing method did with it.\<close>

definition body_of :: "order_args \<Rightarrow> order_body \<Rightarrow> bool" where
  "body_of a b = (ob_ticker b = oa_market a \<and> ob_count b = round_nd 2 (of_int (oa_qty a))
     \<and> (ob_price b = round_nd 4 (oa_price a) \<or> ob_price b = round_nd 4 (1 - oa_price a)))"

definition posted ::
  "kalshi_env \<Rightarrow> order_args \<Rightarrow> kalshi \<Rightarrow> kalshi \<times> venue_order option \<Rightarrow> bool" where
  "posted env a s r =
     (\<exists>b. body_of a b
        \<and> ka_calls (fst r) = ka_calls s @ replicate (post_tries env b s) (HPost b)
        \<and> (case snd r of
             None \<Rightarrow> True
           | Some v \<Rightarrow> (ord_status v = FAILED \<and> ord_external_client_order_id v = None)
               \<or> ord_external_client_order_id v = Some (ob_client_order_id b)))"

definition unsent :: "kalshi_env \<Rightarrow> order_args \<Rightarrow> kalshi \<Rightarrow> kalshi \<times> venue_order option \<Rightarrow> bool" where
  "unsent env a s r =
     (ka_calls (fst r) = ka_calls s
      \<and> (case snd r of None \<Rightarrow> py_lower (oa_side a) \<notin> {''yes'', ''no''}
         | Some v \<Rightarrow> ord_status v = FAILED \<and> ord_fill_qty v = 0 \<and> ord_external_client_order_id v = None))"

lemma event_body:
  "event_order_body t c act sd p n tif = Some b \<Longrightarrow>
   ob_ticker b = t \<and> ob_client_order_id b = c \<and> ob_count b = round_nd 2 (of_int n)
   \<and> (ob_price b = round_nd 4 p \<or> ob_price b = round_nd 4 (1 - p))"
  by (auto simp: event_order_body_def book_price_for_def Let_def split: option.splits if_splits)

lemma body_none:
  "event_order_body t c act sd p n tif = None \<Longrightarrow> act \<in> {''buy'', ''sell''} \<Longrightarrow>
   py_lower sd \<notin> {''yes'', ''no''}"
proof -
  have low: "py_lower ''buy'' = ''buy''" "py_lower ''sell'' = ''sell''" by code_simp+
  show "event_order_body t c act sd p n tif = None \<Longrightarrow> act \<in> {''buy'', ''sell''} \<Longrightarrow>
   py_lower sd \<notin> {''yes'', ''no''}"
    by (auto simp: event_order_body_def book_price_for_def book_side_for_def Let_def low
        split: option.splits if_splits)
qed

lemma failed_order_fields [simp]:
  "ord_status (failed_order env a e) = FAILED" "ord_fill_qty (failed_order env a e) = 0"
  "ord_external_client_order_id (failed_order env a e) = None"
  "ord_idempotency_ambiguous (failed_order env a e) = False" "ord_error (failed_order env a e) = e"
  by (simp_all add: failed_order_def)

lemma placed_order_fields [simp]:
  "ord_external_client_order_id (placed_order env a c od) = Some c"
  "ord_idempotency_ambiguous (placed_order env a c od) = False" "ord_error (placed_order env a c od) = []"
  by (simp_all add: placed_order_def Let_def)

lemma read_answer_id:
  "read_answer env a c e h = Some v \<Longrightarrow>
   (ord_status v = FAILED \<and> ord_external_client_order_id v = None) \<or> ord_external_client_order_id v = Some c"
  by (auto simp: read_answer_def split: option.splits)

lemma postedI:
  assumes "event_order_body (oa_market a) c act (oa_side a) (oa_price a) (oa_qty a) tif = Some b"
    and "ka_calls s1 = ka_calls s"
    and "ka_calls (fst r) = ka_calls (fst (post_order env b s1))"
    and "\<And>v. snd r = Some v \<Longrightarrow> (ord_status v = FAILED \<and> ord_external_client_order_id v = None)
           \<or> ord_external_client_order_id v = Some c"
  shows "posted env a s r"
proof -
  have b: "body_of a b" "ob_client_order_id b = c" using event_body [OF assms(1)] by (auto simp: body_of_def)
  have "ka_calls (fst r) = ka_calls s @ replicate (post_tries env b s) (HPost b)"
    using assms(2,3) by (simp add: post_calls post_tries_same [OF assms(2)])
  then show ?thesis unfolding posted_def using b assms(4) by (intro exI [of _ b]) (auto split: option.split)
qed

lemma send_buy_outcome:
  assumes "ka_calls s1 = ka_calls s"
  shows "unsent env a s (send_buy env a tif s1) \<or> posted env a s (send_buy env a tif s1)"
proof (cases "event_order_body (oa_market a) (client_order_id_of env a []) ''buy'' (oa_side a)
                (oa_price a) (oa_qty a) tif")
  case None
  then show ?thesis using assms body_none [OF None] by (simp add: send_buy_def unsent_def)
next
  case (Some b)
  obtain s2 t where t: "post_order env b s1 = (s2, t)" by (cases "post_order env b s1")
  have "posted env a s (send_buy env a tif s1)"
    by (rule postedI [OF Some assms])
       (cases t; auto simp: send_buy_def Let_def Some t split: if_splits dest: read_answer_id)+
  then show ?thesis ..
qed

lemma check_split: "circuit_check env s = (s1, ok) \<Longrightarrow> ka_calls s1 = ka_calls s"
  by (metis bookkeeping_calls(5) fst_conv)

lemma sell_unsent:
  "event_order_body (oa_market a) c ''sell'' (oa_side a) (oa_price a) (oa_qty a) tif = None \<Longrightarrow>
   ka_calls s1 = ka_calls s \<Longrightarrow> unsent env a s (s1, None)"
  using body_none by (simp add: unsent_def)

lemma failed_unsent: "ka_calls s1 = ka_calls s \<Longrightarrow> unsent env a s (s1, Some (failed_order env a e))"
  by (simp add: unsent_def)

text \<open>Every order method either sends nothing and fails, or posts one body, as often as it is retried.\<close>

lemma buy_outcomes:
  "unsent env a s (place_fok env a tif s) \<or> posted env a s (place_fok env a tif s)"
  "unsent env a s (place_resting_limit env a s) \<or> posted env a s (place_resting_limit env a s)"
proof -
  obtain s1 ok where c: "circuit_check env s = (s1, ok)" by (cases "circuit_check env s")
  show "unsent env a s (place_fok env a tif s) \<or> posted env a s (place_fok env a tif s)"
    "unsent env a s (place_resting_limit env a s) \<or> posted env a s (place_resting_limit env a s)"
    unfolding place_fok_def place_resting_limit_def
    using send_buy_outcome [OF check_split [OF c]] check_split [OF c]
    by (auto simp: c Let_def failed_unsent split: option.split)
qed

lemma unwind_outcome:
  "unsent env a s (place_unwind_sell env a s) \<or> posted env a s (place_unwind_sell env a s)"
proof -
  obtain s1 ok where c: "circuit_check env s = (s1, ok)" by (cases "circuit_check env s")
  note same = check_split [OF c]
  let ?body = "event_order_body (oa_market a) (client_order_id_of env a ''-UNWIND'') ''sell'' (oa_side a)
                 (oa_price a) (oa_qty a) ''immediate_or_cancel''"
  consider "\<not> (hx_auth env \<and> ok)" | "hx_auth env \<and> ok" "?body = None"
    | b where "hx_auth env \<and> ok" "?body = Some b" by (cases ?body) auto
  then show ?thesis
  proof cases
    case 1
    then show ?thesis using same by (auto simp: place_unwind_sell_def c Let_def failed_unsent)
  next
    case 2
    then show ?thesis using sell_unsent [OF 2(2) same] by (simp add: place_unwind_sell_def c Let_def)
  next
    case 3
    obtain s2 t where t: "post_order env b s1 = (s2, t)" by (cases "post_order env b s1")
    have "posted env a s (place_unwind_sell env a s)"
      by (rule postedI [OF 3(2) same])
         (cases t; use 3 in \<open>auto simp: place_unwind_sell_def c Let_def t split: if_splits
            dest: read_answer_id\<close>)+
    then show ?thesis ..
  qed
qed

lemma resting_outcome:
  "unsent env a s (place_resting_sell env a s) \<or> posted env a s (place_resting_sell env a s)"
proof -
  obtain s1 ok where c: "circuit_check env s = (s1, ok)" by (cases "circuit_check env s")
  note same = check_split [OF c]
  let ?body = "event_order_body (oa_market a) (client_order_id_of env a ''-RESTSELL'') ''sell'' (oa_side a)
                 (oa_price a) (oa_qty a) ''good_till_canceled''"
  consider "\<not> (hx_auth env \<and> ok)" | "hx_auth env \<and> ok" "?body = None"
    | b where "hx_auth env \<and> ok" "?body = Some b" by (cases ?body) auto
  then show ?thesis
  proof cases
    case 1
    then show ?thesis using same by (auto simp: place_resting_sell_def c Let_def failed_unsent)
  next
    case 2
    then show ?thesis using sell_unsent [OF 2(2) same] by (simp add: place_resting_sell_def c Let_def)
  next
    case 3
    obtain s2 t where t: "post_order env b s1 = (s2, t)" by (cases "post_order env b s1")
    have "posted env a s (place_resting_sell env a s)"
      by (rule postedI [OF 3(2) same])
         (cases t; use 3 in \<open>auto simp: place_resting_sell_def c Let_def t split: if_splits
            dest: read_answer_id\<close>)+
    then show ?thesis ..
  qed
qed

lemmas place_outcomes = buy_outcomes unwind_outcome resting_outcome

text \<open>
  What \<open>retry_policy.py\<close> asks of tenacity: at most three attempts, and another one only after an error it
  lists.  \<open>one_identity\<close>: what left the adapter is one body, sent again only after such an error, and an
  order that names a client id names the one that was sent.
\<close>

definition documented_retry :: "kalshi_env \<Rightarrow> bool" where
  "documented_retry env =
     (\<forall>infra f. hx_retry env infra f < 3 \<and> (\<forall>k < hx_retry env infra f. retryable infra (f k)))"

definition one_identity ::
  "kalshi_env \<Rightarrow> order_args \<Rightarrow> kalshi \<Rightarrow> kalshi \<times> venue_order option \<Rightarrow> bool" where
  "one_identity env a s r =
     (\<exists>b n. n \<le> 3 \<and> body_of a b \<and> ka_calls (fst r) = ka_calls s @ replicate n (HPost b)
        \<and> (\<forall>k. Suc k < n \<longrightarrow> retryable True (attempt_of env s True (HPost b) k))
        \<and> (\<forall>v c. snd r = Some v \<and> ord_external_client_order_id v = Some c \<longrightarrow> c = ob_client_order_id b))"

lemma outcome_identity:
  assumes "documented_retry env" and "unsent env a s r \<or> posted env a s r"
  shows "one_identity env a s r"
  using assms(2)
proof
  assume u: "unsent env a s r"
  let ?b = "\<lparr> ob_ticker = oa_market a, ob_client_order_id = [], ob_side = [],
     ob_count = round_nd 2 (of_int (oa_qty a)), ob_price = round_nd 4 (oa_price a), ob_time_in_force = [] \<rparr>"
  show ?thesis unfolding one_identity_def
    by (rule exI [of _ ?b], rule exI [of _ 0]) (use u in \<open>auto simp: unsent_def body_of_def\<close>)
next
  assume "posted env a s r"
  then obtain b where b: "body_of a b"
    "ka_calls (fst r) = ka_calls s @ replicate (post_tries env b s) (HPost b)"
    "\<And>v. snd r = Some v \<Longrightarrow> ord_external_client_order_id v = None
        \<or> ord_external_client_order_id v = Some (ob_client_order_id b)"
    by (auto simp: posted_def split: option.splits)
  have "post_tries env b s \<le> 3"
    and "\<And>k. Suc k < post_tries env b s \<Longrightarrow> retryable True (attempt_of env s True (HPost b) k)"
    using assms(1) unfolding documented_retry_def post_tries_def
    by (auto simp: Suc_le_eq)
  then show ?thesis unfolding one_identity_def
    using b by (intro exI [of _ b] exI [of _ "post_tries env b s"]) fastforce
qed

text \<open>
  C9. Whatever the venue answers, an order of the Kalshi adapter goes out as at most three requests that
  all carry one body with one client order id, one for the market, the quantity and the price (or its
  mirror) it was called with; it is sent again only after a network or infrastructure error, and the
  order that comes back names no other client id.
\<close>

theorem one_identity_per_order:
  assumes "documented_retry env"
  shows "one_identity env a s (place_fok env a tif s) \<and> one_identity env a s (place_ioc env a s)
     \<and> one_identity env a s (place_resting_limit env a s) \<and> one_identity env a s (place_unwind_sell env a s)
     \<and> one_identity env a s (place_resting_sell env a s)"
  using place_outcomes by (simp add: outcome_identity [OF assms] place_ioc_def)

section \<open>The hard locks\<close>

definition within_lock :: "string option \<Rightarrow> flt \<Rightarrow> int \<Rightarrow> bool" where
  "within_lock raw price qty =
     (case raw of None \<Rightarrow> True
      | Some s \<Rightarrow> s = [] \<or> of_int qty * price \<le> (case float_of_text s of None \<Rightarrow> 0 | Some x \<Rightarrow> x))"

lemma hard_lock_none: "hard_lock raw name price qty = None \<longleftrightarrow> within_lock raw price qty"
  by (auto simp: hard_lock_def within_lock_def Let_def split: option.splits)

text \<open>The conditions under which a buy may leave the adapter.\<close>

definition buy_allowed :: "kalshi_env \<Rightarrow> order_args \<Rightarrow> kalshi \<Rightarrow> bool" where
  "buy_allowed env a s =
     (hx_auth env \<and> 0 < oa_price a \<and> oa_price a < 1 \<and> snd (can_execute (hx_now env) (ka_circuit s))
      \<and> within_lock (hx_phase4 env) (oa_price a) (oa_qty a)
      \<and> within_lock (hx_phase5 env) (oa_price a) (oa_qty a)
      \<and> (py_lower (oa_side a) = ''yes'' \<or> py_lower (oa_side a) = ''no''))"

lemma hard_locks_none:
  "hard_locks env a = None \<longleftrightarrow> within_lock (hx_phase4 env) (oa_price a) (oa_qty a)
      \<and> within_lock (hx_phase5 env) (oa_price a) (oa_qty a)"
  unfolding hard_locks_def
  by (simp add: hard_lock_none [of "hx_phase4 env" "''PHASE4_MAX_ORDER_USD''", symmetric]
      hard_lock_none [of "hx_phase5 env" "''PHASE5_MAX_ORDER_USD''", symmetric] split: option.split)

lemma send_buy_side:
  "py_lower (oa_side a) \<notin> {''yes'', ''no''} \<Longrightarrow> send_buy env a tif s = (s, None)"
  by (simp add: send_buy_def event_order_body_def book_side_for_def Let_def)

lemma send_buy_posts:
  assumes "py_lower (oa_side a) = ''yes'' \<or> py_lower (oa_side a) = ''no''"
  shows "ka_calls (fst (send_buy env a tif s)) \<noteq> ka_calls s"
proof -
  have low: "py_lower ''buy'' = ''buy''" by code_simp
  let ?cid = "client_order_id_of env a []"
  obtain b where b: "event_order_body (oa_market a) ?cid ''buy'' (oa_side a) (oa_price a) (oa_qty a) tif = Some b"
    using assms by (auto simp: event_order_body_def book_side_for_def book_price_for_def low Let_def)
  obtain s2 t where t: "post_order env b s = (s2, t)" by (cases "post_order env b s")
  have "ka_calls s2 \<noteq> ka_calls s" using post_calls [of env b s] by (simp add: t post_tries_def)
  then show ?thesis by (cases t) (auto simp: send_buy_def Let_def b t)
qed

text \<open>
  A buy leaves the adapter exactly when it is authenticated, the price is a proper probability, the
  breaker admits the call, the notional is within every cap of the environment that is set, an unreadable
  cap counting as zero, and the side is yes or no; in every other case no request is made and nothing is
  bought.
\<close>

theorem buys_within_hard_locks:
  "(ka_calls (fst (place_fok env a tif s)) \<noteq> ka_calls s \<longleftrightarrow> buy_allowed env a s)
   \<and> (ka_calls (fst (place_resting_limit env a s)) \<noteq> ka_calls s \<longleftrightarrow> buy_allowed env a s)"
proof -
  obtain s1 ok where c: "circuit_check env s = (s1, ok)" by (cases "circuit_check env s")
  note same = check_split [OF c]
  have ok: "ok = snd (can_execute (hx_now env) (ka_circuit s))"
    using c by (auto simp: circuit_check_def split: prod.splits)
  have sends: "ka_calls (fst (send_buy env a u s1)) \<noteq> ka_calls s
      \<longleftrightarrow> py_lower (oa_side a) = ''yes'' \<or> py_lower (oa_side a) = ''no''" for u
    using send_buy_posts [of a env u s1] send_buy_side [of a env u s1] same by fastforce
  show ?thesis
    unfolding place_fok_def place_resting_limit_def buy_allowed_def
    using sends same hard_locks_none [of env a] by (auto simp: c ok Let_def split: option.split)
qed

section \<open>The price across the two books\<close>

text \<open>What the venue promises of a limit order: a bid is filled at its price or below, an ask at it or above.\<close>

definition fills_at_limit :: "order_body \<Rightarrow> flt \<Rightarrow> bool" where
  "fills_at_limit b avg_fill =
     (if ob_side b = ''bid'' then avg_fill \<le> ob_price b else ob_price b \<le> avg_fill)"

lemma sides_differ: "py_lower ''buy'' = ''buy''" "py_lower ''sell'' = ''sell''"
  by code_simp+

text \<open>
  An order that the venue fills within its limit on the YES book is reported at a price within the limit
  the caller gave for its own side, a buy at most, a sell at least, up to the rounding to four decimals:
  the mirror of the price on the way out and of the average fill on the way back agree.
\<close>

theorem limit_holds_on_either_side:
  assumes "event_order_body t c act side price n tif = Some b"
    and "jget od ''taker_fill_cost_dollars'' = JNull" and "json_float (jget od ''average_fill_price'') = Some x"
    and "fills_at_limit b x"
  shows "(py_lower act = ''buy'' \<and> extract_fill_price od side q fallback \<le> price + 1 / 20000)
     \<or> (py_lower act = ''sell'' \<and> price - 1 / 20000 \<le> extract_fill_price od side q fallback)"
proof -
  have cost: "price_or od ''taker_fill_cost_dollars'' 0 = 0" using assms(2) by (simp add: price_or_def json_float_def)
  have near: "round_nd 4 p \<le> p + 1 / 20000" "p - 1 / 20000 \<le> round_nd 4 p" for p
    using round_nd_error [of 4 p] unfolding abs_le_iff by simp_all
  have fill: "extract_fill_price od side q fallback = (if is_no side then 1 - x else x)"
    using assms(3) by (simp add: extract_fill_price_def cost)
  show ?thesis
    using assms(1,4) near [of price] near [of "1 - price"]
    by (auto simp: event_order_body_def book_side_for_def book_price_for_def fills_at_limit_def fill is_no_def
        Let_def split: option.splits if_splits)
qed

section \<open>Concrete runs\<close>

definition tenacity :: "bool \<Rightarrow> (nat \<Rightarrow> http_try) \<Rightarrow> nat" where
  "tenacity infra f = (if \<not> retryable infra (f 0) then 0 else if \<not> retryable infra (f 1) then 1 else 2)"

definition demo_kalshi_env :: "http_try \<Rightarrow> kalshi_env" where
  "demo_kalshi_env answer =
     \<lparr> hx_now = 0, hx_auth = True, hx_uuid = ''ab12'', hx_phase4 = Some ''10'', hx_phase5 = None,
       hx_acquire = \<lambda>r. r, hx_answer = \<lambda>n c. answer, hx_retry = tenacity \<rparr>"

definition demo_kalshi :: kalshi where
  "demo_kalshi = \<lparr> ka_circuit = new_breaker ''kalshi'' 5 30 2,
     ka_limiter = new_rate_limiter ''kalshi'' 10 1 0, ka_calls = [] \<rparr>"

definition demo_args :: order_args where
  "demo_args = \<lparr> oa_arb = ''ARB-1'', oa_market = ''KXM'', oa_canonical = ''C'', oa_side = ''no'',
     oa_price = 2 / 5, oa_qty = 10 \<rparr>"

definition demo_http :: "int \<Rightarrow> json option \<Rightarrow> http_try" where
  "demo_http status data = Answered \<lparr> hr_status = status, hr_body = ''{}'', hr_json = data, hr_retry_after = Some 1 \<rparr>"

lemma tenacity_documented: "documented_retry (demo_kalshi_env answer)"
proof -
  have "tenacity infra f < 3 \<and> (\<forall>k < tenacity infra f. retryable infra (f k))" for infra f
    by (auto simp: tenacity_def less_2_cases_iff numeral_2_eq_2 less_Suc_eq)
  then show ?thesis by (simp add: documented_retry_def demo_kalshi_env_def)
qed

lemma one_identity_per_order_witness:
  "ka_calls (fst (place_fok (demo_kalshi_env NetworkDown) demo_args ''fill_or_kill'' demo_kalshi))
     = replicate 3 (HPost \<lparr> ob_ticker = ''KXM'', ob_client_order_id = ''ARB-1-NO-ab12'', ob_side = ''ask'',
         ob_count = 10, ob_price = 3 / 5, ob_time_in_force = ''fill_or_kill'' \<rparr>)
   \<and> one_identity (demo_kalshi_env NetworkDown) demo_args demo_kalshi
       (place_fok (demo_kalshi_env NetworkDown) demo_args ''fill_or_kill'' demo_kalshi)"
proof
  show "one_identity (demo_kalshi_env NetworkDown) demo_args demo_kalshi
       (place_fok (demo_kalshi_env NetworkDown) demo_args ''fill_or_kill'' demo_kalshi)"
    using one_identity_per_order [OF tenacity_documented] by blast
qed code_simp

lemma limit_holds_on_either_side_witness:
  "extract_fill_price [(''average_fill_price'', JStr ''0.6100'')] ''no'' 10 (2/5) \<le> 2/5 + 1/20000"
proof -
  let ?b = "\<lparr> ob_ticker = ''KXM'', ob_client_order_id = ''ID'', ob_side = ''ask'', ob_count = 10,
     ob_price = 3 / 5, ob_time_in_force = ''fill_or_kill'' \<rparr> :: order_body"
  let ?od = "[(''average_fill_price'', JStr ''0.6100'')]"
  have "event_order_body ''KXM'' ''ID'' ''buy'' ''no'' (2/5) 10 ''fill_or_kill'' = Some ?b"
    "jget ?od ''taker_fill_cost_dollars'' = JNull" "json_float (jget ?od ''average_fill_price'') = Some (61/100)"
    "fills_at_limit ?b (61/100)" by code_simp+
  note limit_holds_on_either_side [OF this, of 10 "2/5"]
  moreover have "py_lower ''buy'' \<noteq> ''sell''" by code_simp
  ultimately show ?thesis by blast
qed

end
