(* ===== verification/Kalshi_Book.thy ===== *)
theory Kalshi_Book
  imports Kalshi_Adapter
begin

text \<open>
  The order book of \<open>KalshiAdapter\<close> (\<open>arbiter/execution/adapters/kalshi.py\<close>): reading the two shapes of a
  book answer, the depth check and the price a limit order has to be sent at.
\<close>

section \<open>The order book\<close>

text \<open>
  A level is a price to buy at and a number of contracts.  \<open>read_part\<close> is \<open>float(raw[i])\<close>: an exception
  that the loop skips is \<open>Skipped\<close>, one that leaves it (a dict has no key 0) is \<open>Raised\<close>.
\<close>

type_synonym level = "flt \<times> flt"

datatype level_part = Part flt | Skipped | Raised

definition read_part :: "json \<Rightarrow> nat \<Rightarrow> level_part" where
  "read_part raw i =
     (case raw of
        JArr xs \<Rightarrow> if i < length xs then (case json_float (xs ! i) of Some x \<Rightarrow> Part x | None \<Rightarrow> Skipped) else Skipped
      | JStr s \<Rightarrow> if i < length s then (case float_of_text [s ! i] of Some x \<Rightarrow> Part x | None \<Rightarrow> Skipped) else Skipped
      | JObj d \<Rightarrow> Raised
      | _ \<Rightarrow> Skipped)"

definition buyable :: "flt \<Rightarrow> flt \<Rightarrow> level list" where
  "buyable price qty = (if price \<le> 0 \<or> 1 \<le> price then [] else [(price, qty)])"

text \<open>The two shapes of a level: a bid of the opposite side in dollars, an ask of this side in cents.\<close>

definition fp_level :: "flt \<Rightarrow> flt \<Rightarrow> level list" where
  "fp_level opp_bid qty =
     (if opp_bid \<le> 0 \<or> qty \<le> 0 then []
      else buyable (round_nd 4 (1 - (if 1 < opp_bid then opp_bid / 100 else opp_bid))) qty)"

definition legacy_level :: "flt \<Rightarrow> flt \<Rightarrow> level list" where
  "legacy_level price_raw qty =
     (if price_raw \<le> 0 \<or> qty \<le> 0 then []
      else buyable (if 1 < price_raw then price_raw / 100 else price_raw) qty)"

fun read_levels :: "(flt \<Rightarrow> flt \<Rightarrow> level list) \<Rightarrow> json list \<Rightarrow> level list option" where
  "read_levels f [] = Some []"
| "read_levels f (raw # rest) =
     (case read_part raw 0 of
        Raised \<Rightarrow> None
      | Skipped \<Rightarrow> read_levels f rest
      | Part x \<Rightarrow>
          (case read_part raw 1 of
             Raised \<Rightarrow> None
           | Skipped \<Rightarrow> read_levels f rest
           | Part q \<Rightarrow> map_option ((@) (f x q)) (read_levels f rest)))"

definition sorted_levels :: "(flt \<Rightarrow> flt \<Rightarrow> level list) \<Rightarrow> json \<Rightarrow> level list option" where
  "sorted_levels f j =
     (case json_items j of None \<Rightarrow> None | Some xs \<Rightarrow> map_option (sort_key fst) (read_levels f xs))"

definition legacy_levels :: "(string \<times> json) list \<Rightarrow> string \<Rightarrow> level list option" where
  "legacy_levels payload side =
     (case jget payload ''orderbook'' of
        JObj d \<Rightarrow> (let levels = dget d side (JArr [])
                   in if truthy levels then sorted_levels legacy_level levels else Some [])
      | _ \<Rightarrow> Some [])"

definition extract_buy_levels :: "json \<Rightarrow> string \<Rightarrow> level list option" where
  "extract_buy_levels data side =
     (case data of
        JObj payload \<Rightarrow>
          let opposite = (if side = ''yes'' then ''no'' else ''yes'')
          in (case jget payload ''orderbook_fp'' of
                JObj fp \<Rightarrow>
                  let opp_levels = or_json (jget fp (opposite @ ''_dollars'')) (jget fp opposite)
                  in if truthy opp_levels then sorted_levels fp_level opp_levels
                     else legacy_levels payload side
              | _ \<Rightarrow> legacy_levels payload side)
      | _ \<Rightarrow> None)"

text \<open>The loops over the levels, from the contracts already counted.\<close>

fun depth_reached :: "flt \<Rightarrow> int \<Rightarrow> level list \<Rightarrow> bool" where
  "depth_reached cumulative required [] = False"
| "depth_reached cumulative required ((p, q) # rest) =
     (of_int required \<le> cumulative + q \<or> depth_reached (cumulative + q) required rest)"

fun walk_levels :: "flt \<Rightarrow> int \<Rightarrow> level list \<Rightarrow> bool \<times> flt" where
  "walk_levels cumulative required [] = (False, 0)"
| "walk_levels cumulative required ((p, q) # rest) =
     (if of_int required \<le> cumulative + q then (True, p)
      else if rest = [] then (False, p)
      else walk_levels (cumulative + q) required rest)"

definition book_levels :: "kalshi_env \<Rightarrow> string \<Rightarrow> string \<Rightarrow> kalshi \<Rightarrow> kalshi \<times> level list" where
  "book_levels env market_id side s =
     (case request env False (HGetBook market_id) s of
        (s1, Answered h) \<Rightarrow>
          (s1, if hr_status h \<noteq> 200 then []
               else case hr_json h of
                      None \<Rightarrow> []
                    | Some data \<Rightarrow> (case extract_buy_levels data side of None \<Rightarrow> [] | Some levels \<Rightarrow> levels))
      | (s1, _) \<Rightarrow> (s1, []))"

definition kalshi_check_depth :: "kalshi_env \<Rightarrow> string \<Rightarrow> string \<Rightarrow> int \<Rightarrow> kalshi \<Rightarrow> kalshi \<times> bool \<times> flt" where
  "kalshi_check_depth env market_id side required_qty s =
     (let (s1, levels) = book_levels env market_id side s
      in (s1, if levels = [] then (False, 0) else (depth_reached 0 required_qty levels, fst (hd levels))))"

definition kalshi_executable_price ::
  "kalshi_env \<Rightarrow> string \<Rightarrow> string \<Rightarrow> int \<Rightarrow> kalshi \<Rightarrow> kalshi \<times> bool \<times> flt" where
  "kalshi_executable_price env market_id side required_qty s =
     (let (s1, levels) = book_levels env market_id side s in (s1, walk_levels 0 required_qty levels))"

section \<open>Walking the book\<close>

text \<open>The contracts a book offers at or below a price.\<close>

definition offered :: "flt \<Rightarrow> level list \<Rightarrow> flt" where
  "offered p levels = sum_list (map snd (filter (\<lambda>l. fst l \<le> p) levels))"

definition good_level :: "level \<Rightarrow> bool" where
  "good_level l = (0 < fst l \<and> fst l < 1 \<and> 0 < snd l)"

lemma level_good: "l \<in> set (fp_level x q) \<Longrightarrow> good_level l" "l \<in> set (legacy_level x q) \<Longrightarrow> good_level l"
  by (auto simp: fp_level_def legacy_level_def buyable_def good_level_def split: if_splits)

lemma read_levels_good:
  "read_levels f xs = Some ls \<Longrightarrow> (\<And>x q l. l \<in> set (f x q) \<Longrightarrow> good_level l) \<Longrightarrow> list_all good_level ls"
  by (induction xs arbitrary: ls) (auto simp: list_all_iff split: level_part.splits)

lemma sorted_levels_good:
  "sorted_levels f j = Some ls \<Longrightarrow> (\<And>x q l. l \<in> set (f x q) \<Longrightarrow> good_level l) \<Longrightarrow>
   sorted (map fst ls) \<and> list_all good_level ls"
  using read_levels_good [of f] by (fastforce simp: sorted_levels_def list_all_iff split: option.splits)

lemma legacy_levels_good:
  "legacy_levels d side = Some ls \<Longrightarrow> sorted (map fst ls) \<and> list_all good_level ls"
  by (auto simp: legacy_levels_def Let_def split: json.splits if_splits
      dest!: sorted_levels_good [OF _ level_good(2)])

lemma extract_levels_good:
  "extract_buy_levels d side = Some ls \<Longrightarrow> sorted (map fst ls) \<and> list_all good_level ls"
  by (auto simp: extract_buy_levels_def Let_def split: json.splits if_splits
      dest!: sorted_levels_good [OF _ level_good(1)] legacy_levels_good)

lemma book_levels_good:
  "sorted (map fst (snd (book_levels env m side s))) \<and> list_all good_level (snd (book_levels env m side s))"
  by (auto simp: book_levels_def split: prod.split http_try.split option.split dest: extract_levels_good)

lemma offered_nil [simp]: "offered p [] = 0"
  by (simp add: offered_def)

lemma offered_cons [simp]: "offered p (l # ls) = (if fst l \<le> p then snd l + offered p ls else offered p ls)"
  by (simp add: offered_def)

lemma offered_nonneg: "list_all good_level ls \<Longrightarrow> 0 \<le> offered p ls"
  by (induction ls) (auto simp: good_level_def)

lemma offered_mono: "list_all good_level ls \<Longrightarrow> x \<le> y \<Longrightarrow> offered x ls \<le> offered y ls"
  by (induction ls) (auto simp: good_level_def intro: add_mono offered_nonneg [THEN order_trans])

lemma offered_below: "\<forall>l \<in> set ls. p < fst l \<Longrightarrow> offered p ls = 0"
  by (induction ls) auto

lemma walk_sound:
  assumes "sorted (map fst ls)" "list_all good_level ls" "c < of_int n" "walk_levels c n ls = (True, p)"
  shows "p \<in> fst ` set ls \<and> of_int n \<le> c + offered p ls \<and> (\<forall>x < p. c + offered x ls < of_int n)"
  using assms
proof (induction ls arbitrary: c)
  case (Cons l ls)
  obtain p1 q1 where l: "l = (p1, q1)" by (cases l)
  have good: "list_all good_level ls" "good_level l" and later: "\<forall>l' \<in> set ls. p1 \<le> fst l'"
    using Cons.prems by (simp_all add: l)
  then have pos: "0 < q1" by (simp add: l good_level_def)
  have cheap: "offered x (l # ls) = 0" if "x < p1" for x
    using that later by (intro offered_below) (auto simp: l)
  show ?case
  proof (cases "of_int n \<le> c + q1")
    case True
    then show ?thesis using Cons.prems offered_nonneg [OF good(1), of p] cheap by (auto simp: l)
  next
    case False
    then have "walk_levels (c + q1) n ls = (True, p)" using Cons.prems by (auto simp: l split: if_splits)
    then have IH: "p \<in> fst ` set ls" "of_int n \<le> c + q1 + offered p ls"
        "\<And>x. x < p \<Longrightarrow> c + q1 + offered x ls < of_int n"
      using Cons.IH [of "c + q1"] Cons.prems False good by (auto simp: algebra_simps)
    moreover have "c + offered x (l # ls) < of_int n" if "x < p" for x
      using IH(3) [OF that] cheap [of x] Cons.prems(3) by (cases "x < p1") (auto simp: l)
    ultimately show ?thesis using later by (auto simp: l)
  qed
qed simp

lemma depth_walk: "ls \<noteq> [] \<Longrightarrow> depth_reached c n ls = fst (walk_levels c n ls)"
  by (induction c n ls rule: depth_reached.induct) auto

lemma walk_complete:
  assumes "list_all good_level ls" "of_int n \<le> c + offered 1 ls" "ls \<noteq> []"
  shows "fst (walk_levels c n ls)"
  using assms
proof (induction c n ls rule: walk_levels.induct)
  case (2 c n p q ls)
  then show ?case by (cases "ls = []") (auto simp: good_level_def algebra_simps)
qed simp

text \<open>
  The executable price the engine sends its limit at is the least price at which the book of the venue
  offers the contracts asked for: at it there are enough, at any lower one too few.  It exists exactly when
  the whole book is deep enough, which is what the depth check answers, and lies strictly between zero and
  one and not below the best price that check names.
\<close>

theorem executable_price_is_least:
  assumes "0 < n" and "book_levels env m side s = (s1, levels)"
  shows "(\<forall>p. kalshi_executable_price env m side n s = (s1, True, p) \<longrightarrow>
        0 < p \<and> p < 1 \<and> of_int n \<le> offered p levels \<and> (\<forall>x < p. offered x levels < of_int n)
        \<and> (\<exists>best \<le> p. kalshi_check_depth env m side n s = (s1, True, best)))
      \<and> (fst (snd (kalshi_executable_price env m side n s)) \<longleftrightarrow> of_int n \<le> offered 1 levels)
      \<and> (fst (snd (kalshi_check_depth env m side n s)) \<longleftrightarrow> of_int n \<le> offered 1 levels)"
proof -
  have good: "sorted (map fst levels)" "list_all good_level levels"
    using book_levels_good [of env m side s] assms(2) by simp_all
  have n: "(0 :: flt) < of_int n" using assms(1) by simp
  have walk: "walk_levels 0 n levels = (True, x) \<Longrightarrow>
      x \<in> fst ` set levels \<and> of_int n \<le> offered x levels \<and> (\<forall>y < x. offered y levels < of_int n)" for x
    using walk_sound [OF good n] by simp
  have depth: "levels \<noteq> [] \<Longrightarrow> depth_reached 0 n levels = fst (walk_levels 0 n levels)"
    by (rule depth_walk)
  have found: "0 < p \<and> p < 1 \<and> of_int n \<le> offered p levels \<and> (\<forall>x < p. offered x levels < of_int n)
      \<and> (\<exists>best \<le> p. kalshi_check_depth env m side n s = (s1, True, best))"
    if "kalshi_executable_price env m side n s = (s1, True, p)" for p
  proof -
    from that have w: "walk_levels 0 n levels = (True, p)" by (simp add: kalshi_executable_price_def assms(2))
    from w have "levels \<noteq> []" by auto
    moreover have "0 < p \<and> p < 1 \<and> fst (hd levels) \<le> p"
      using walk [OF w] good \<open>levels \<noteq> []\<close> by (cases levels) (auto simp: list_all_iff good_level_def)
    ultimately show ?thesis using walk [OF w] depth w by (simp add: kalshi_check_depth_def assms(2))
  qed
  have "fst (walk_levels 0 n levels) \<longleftrightarrow> of_int n \<le> offered 1 levels"
  proof
    assume "fst (walk_levels 0 n levels)"
    then obtain x where x: "walk_levels 0 n levels = (True, x)" by (cases "walk_levels 0 n levels") auto
    then have "x \<le> 1" using walk [OF x] good by (force simp: list_all_iff good_level_def)
    then have "offered x levels \<le> offered 1 levels" using good(2) offered_mono by blast
    then show "of_int n \<le> offered 1 levels" using walk [OF x] by simp
  next
    assume "of_int n \<le> offered 1 levels"
    then show "fst (walk_levels 0 n levels)"
      using walk_complete [OF good(2), of n 0] n by (cases levels) auto
  qed
  then show ?thesis
    using found depth n by (auto simp: kalshi_executable_price_def kalshi_check_depth_def assms(2))
qed

definition demo_book :: json where
  "demo_book = JObj [(''orderbook_fp'', JObj [(''yes_dollars'',
     JArr [JArr [JStr ''0.58'', JStr ''6''], JArr [JStr ''0.60'', JStr ''5'']])])]"

lemma executable_price_is_least_witness:
  "snd (kalshi_executable_price (demo_kalshi_env (demo_http 200 (Some demo_book))) ''KXM'' ''no'' 10 demo_kalshi)
     = (True, 21 / 50)
   \<and> (10 :: flt) \<le> offered (21 / 50) [(2/5, 5), (21/50, 6)]
   \<and> offered (2 / 5) [(2/5, 5), (21/50, 6)] < (10 :: flt)"
proof -
  let ?env = "demo_kalshi_env (demo_http 200 (Some demo_book))"
  let ?s = "demo_kalshi\<lparr>ka_calls := [HGetBook ''KXM'']\<rparr>"
  have b: "book_levels ?env ''KXM'' ''no'' demo_kalshi = (?s, [(2/5, 5), (21/50, 6)])" by code_simp
  have p: "kalshi_executable_price ?env ''KXM'' ''no'' 10 demo_kalshi = (?s, True, 21/50)" by code_simp
  show ?thesis using executable_price_is_least [OF _ b, of 10] p by simp
qed

end
