(* ===== verification/Kalshi_Recovery.thy ===== *)
theory Kalshi_Recovery
  imports Kalshi_Adapter
begin

text \<open>
  Cancelling and reading back orders with \<open>KalshiAdapter\<close> (\<open>arbiter/execution/adapters/kalshi.py\<close>), and what
  its answers to failed requests mean for the recovery of a naked leg in the engine, which relies on them.
\<close>

section \<open>Cancelling\<close>

definition kalshi_cancel_order :: "kalshi_env \<Rightarrow> string \<Rightarrow> kalshi \<Rightarrow> kalshi \<times> bool" where
  "kalshi_cancel_order env order_id s =
     (if \<not> hx_auth env then (s, False)
      else case request env False (HDelete order_id) (acquired env s) of
             (s1, Answered h) \<Rightarrow>
               if hr_status h = 429 then (rate_limited env h s1, False)
               else (s1, hr_status h = 200 \<or> hr_status h = 204)
           | (s1, _) \<Rightarrow> (s1, False))"

text \<open>An order of a listing; \<open>None\<close> when its status cannot be looked up.\<close>

definition order_data_to_order :: "kalshi_env \<Rightarrow> (string \<times> json) list \<Rightarrow> venue_order option" where
  "order_data_to_order env od =
     (let st = dget od ''status'' (JStr ''resting''); side = json_text (dget od ''side'' (JStr []));
          price_raw = or_json (dget od (side_price_key side)
              (dget od ''yes_price_dollars'' (dget od ''no_price_dollars'' (JStr ''0'')))) (JStr ''0'');
          price = (case json_float price_raw of Some x \<Rightarrow> x | None \<Rightarrow> 0);
          filled = (case json_float (or_json (dget od ''fill_count_fp'' (JStr ''0'')) (JStr ''0'')) of
                      Some x \<Rightarrow> x | None \<Rightarrow> 0);
          cid = jget od ''client_order_id''
      in if unhashable st then None
         else Some \<lparr> ord_id = json_text (dget od ''order_id'' (JStr [])), ord_platform = ''kalshi'',
                ord_market_id = json_text (dget od ''ticker'' (JStr [])), ord_canonical_id = [],
                ord_side = side, ord_price = price,
                ord_quantity = (case json_float (dget od ''count_fp'' (JStr ''0'')) of
                                  Some x \<Rightarrow> py_int x | None \<Rightarrow> 0),
                ord_status = fok_status st, ord_fill_price = extract_fill_price od side filled price,
                ord_fill_qty = py_int filled, ord_timestamp = hx_now env, ord_error = [],
                ord_external_client_order_id = (if truthy cid then Some (json_text cid) else None),
                ord_idempotency_ambiguous = False, vo_fill_qty = filled \<rparr>)"

text \<open>The dicts of a listing.\<close>

fun dicts_of :: "json list \<Rightarrow> (string \<times> json) list list" where
  "dicts_of [] = []"
| "dicts_of (j # js) = (case j of JObj d \<Rightarrow> d # dicts_of js | _ \<Rightarrow> dicts_of js)"

fun all_some :: "'a option list \<Rightarrow> 'a list option" where
  "all_some [] = Some []"
| "all_some (x # xs) = (case (x, all_some xs) of (Some a, Some as) \<Rightarrow> Some (a # as) | _ \<Rightarrow> None)"

definition listed_orders :: "kalshi_env \<Rightarrow> json option \<Rightarrow> venue_order list option" where
  "listed_orders env data =
     (case data of
        None \<Rightarrow> None
      | Some (JObj d) \<Rightarrow>
          (case json_items (dget d ''orders'' (JArr [])) of
             None \<Rightarrow> None
           | Some xs \<Rightarrow> all_some (map (order_data_to_order env) (dicts_of xs)))
      | Some j \<Rightarrow> Some [])"

definition list_all_open_orders :: "kalshi_env \<Rightarrow> kalshi \<Rightarrow> kalshi \<times> venue_order list option" where
  "list_all_open_orders env s =
     (if \<not> hx_auth env then (s, Some [])
      else case request env True (HListOrders ''resting'') s of
             (s1, Answered h) \<Rightarrow>
               if hr_status h = 429 then (rate_limited env h s1, None)
               else if hr_status h \<noteq> 200 \<and> hr_status h \<noteq> 201 then (s1, None)
               else (s1, listed_orders env (hr_json h))
           | (s1, _) \<Rightarrow> (s1, None))"

text \<open>The ids an answer to a batched cancel names as cancelled; \<open>None\<close>: an exception.\<close>

definition result_rows :: "json \<Rightarrow> json list option" where
  "result_rows j =
     (case j of
        JObj d \<Rightarrow> json_items (or_json (jget d ''results'') (or_json (jget d ''orders'')
                     (or_json (jget d ''cancelled'') (JArr []))))
      | JArr xs \<Rightarrow> Some xs
      | _ \<Rightarrow> Some [])"

fun row_ids :: "(string \<times> json) list list \<Rightarrow> string list" where
  "row_ids [] = []"
| "row_ids (d # ds) =
     (let rid = or_json (jget d ''order_id'') (jget d ''id'')
      in if truthy (jget d ''error'') \<or> \<not> truthy rid then row_ids ds else json_text rid # row_ids ds)"

definition cancelled_of :: "http_response \<Rightarrow> string list \<Rightarrow> string list" where
  "cancelled_of h asked =
     (if hr_body h = [] then asked
      else case hr_json h of
             None \<Rightarrow> asked
           | Some j \<Rightarrow>
               (case result_rows j of
                  None \<Rightarrow> []
                | Some rows \<Rightarrow> (let ids = row_ids (dicts_of rows) in if ids = [] then asked else ids)))"

text \<open>One chunk: the request is not retried, and whatever happens the next chunk follows.\<close>

definition cancel_chunk :: "kalshi_env \<Rightarrow> string list \<Rightarrow> kalshi \<Rightarrow> kalshi \<times> string list" where
  "cancel_chunk env ids s =
     (if ids = [] then (s, [])
      else let s1 = acquired env s; c = HDeleteMany ids; s2 = s1\<lparr>ka_calls := ka_calls s1 @ [c]\<rparr>
           in case hx_answer env (length (ka_calls s1)) c of
                Answered h \<Rightarrow>
                  if hr_status h = 429 then (rate_limited env h s2, [])
                  else if hr_status h \<noteq> 200 \<and> hr_status h \<noteq> 204 then (s2, [])
                  else (s2, cancelled_of h ids)
              | _ \<Rightarrow> (s2, []))"

fun cancel_chunks :: "kalshi_env \<Rightarrow> string list list \<Rightarrow> kalshi \<Rightarrow> kalshi \<times> string list" where
  "cancel_chunks env [] s = (s, [])"
| "cancel_chunks env (ids # rest) s =
     (let (s1, got) = cancel_chunk env ids s; (s2, more) = cancel_chunks env rest s1 in (s2, got @ more))"

function chunks_of :: "nat \<Rightarrow> 'a list \<Rightarrow> 'a list list" where
  "chunks_of n xs = (if n = 0 \<or> xs = [] then [] else take n xs # chunks_of n (drop n xs))"
  by auto
termination
  by (relation "measure (\<lambda>(n, xs). length xs)") auto

declare chunks_of.simps [simp del]

definition cancel_all_chunk_size :: nat where
  "cancel_all_chunk_size = 20"

definition kalshi_cancel_all :: "kalshi_env \<Rightarrow> kalshi \<Rightarrow> kalshi \<times> string list" where
  "kalshi_cancel_all env s =
     (if \<not> hx_auth env then (s, [])
      else case list_all_open_orders env s of
             (s1, None) \<Rightarrow> (s1, [])
           | (s1, Some orders) \<Rightarrow>
               cancel_chunks env
                 (map (filter (\<lambda>i. i \<noteq> []) \<circ> map ord_id) (chunks_of cancel_all_chunk_size orders)) s1)"

section \<open>Reading orders back\<close>

text \<open>Orders whose client id starts with the prefix; a row that is no dict makes the listing empty.\<close>

fun prefixed_orders :: "kalshi_env \<Rightarrow> string \<Rightarrow> json list \<Rightarrow> venue_order list option" where
  "prefixed_orders env prefix [] = Some []"
| "prefixed_orders env prefix (JObj od # js) =
     (let cid = json_text (or_json (dget od ''client_order_id'' (JStr [])) (JStr []))
      in if \<not> starts_with prefix cid then prefixed_orders env prefix js
         else case (order_data_to_order env od, prefixed_orders env prefix js) of
                (Some r, Some rs) \<Rightarrow> Some (r # rs) | _ \<Rightarrow> None)"
| "prefixed_orders env prefix (j # js) = None"

definition list_open_orders_by_client_id :: "kalshi_env \<Rightarrow> string \<Rightarrow> kalshi \<Rightarrow> kalshi \<times> venue_order list" where
  "list_open_orders_by_client_id env prefix s =
     (if \<not> hx_auth env then (s, [])
      else case request env True (HListOrders ''resting'') (acquired env s) of
             (s1, Answered h) \<Rightarrow>
               if hr_status h = 429 then (rate_limited env h s1, [])
               else if hr_status h \<noteq> 200 \<and> hr_status h \<noteq> 201 then (s1, [])
               else (s1,
                 (case hr_json h of
                    Some (JObj d) \<Rightarrow>
                      (case json_items (or_json (dget d ''orders'' (JArr [])) (JArr [])) of
                         None \<Rightarrow> []
                       | Some xs \<Rightarrow> (case prefixed_orders env prefix xs of None \<Rightarrow> [] | Some rs \<Rightarrow> rs))
                  | _ \<Rightarrow> []))
           | (s1, _) \<Rightarrow> (s1, []))"

definition set_fill :: "flt \<Rightarrow> venue_order \<Rightarrow> venue_order" where
  "set_fill q v = v\<lparr>ord_fill_qty := py_int q, vo_fill_qty := q\<rparr>"

definition mark_failed :: "string \<Rightarrow> venue_order \<Rightarrow> venue_order" where
  "mark_failed err v = v\<lparr>ord_status := FAILED, ord_error := err\<rparr>"

text \<open>The status is set before the fill is read: an exception in between keeps the old fill.\<close>

definition read_back :: "json option \<Rightarrow> venue_order \<Rightarrow> venue_order" where
  "read_back data v =
     (case data of
        None \<Rightarrow> v\<lparr>ord_error := ''Kalshi get_order parse: {}''\<rparr>
      | Some j \<Rightarrow>
          (case order_data j of
             None \<Rightarrow> v\<lparr>ord_error := ''Kalshi get_order parse: {}''\<rparr>
           | Some od \<Rightarrow>
               let st = dget od ''status'' (JStr ''resting'')
               in if unhashable st then v\<lparr>ord_error := ''Kalshi get_order parse: {}''\<rparr>
                  else let v1 = v\<lparr>ord_status := fok_status st\<rparr>
                       in case json_float (or_json (dget od ''fill_count_fp''
                                 (dget od ''count_filled'' (JNum (vo_fill_qty v)))) (JNum (vo_fill_qty v))) of
                            Some q \<Rightarrow> set_fill q v1
                          | None \<Rightarrow> v1\<lparr>ord_error := ''Kalshi get_order parse: {}''\<rparr>))"

definition kalshi_get_order :: "kalshi_env \<Rightarrow> venue_order \<Rightarrow> kalshi \<Rightarrow> kalshi \<times> venue_order" where
  "kalshi_get_order env v s =
     (if \<not> hx_auth env then (s, mark_failed ''Kalshi auth not configured for get_order'' v)
      else case request env False (HGetOrder (ord_id v)) (acquired env s) of
             (s1, Answered h) \<Rightarrow>
               if hr_status h = 429 then (rate_limited env h s1, mark_failed ''rate_limited ({}s)'' v)
               else if hr_status h = 404 then (s1, mark_failed ''not found on platform'' v)
               else if hr_status h \<noteq> 200 \<and> hr_status h \<noteq> 201
               then (s1, mark_failed (''Kalshi get_order {}: '' @ take 200 (hr_body h)) v)
               else (s1, read_back (hr_json h) v)
           | (s1, _) \<Rightarrow> (s1, mark_failed ''Kalshi get_order exception: {}'' v))"

section \<open>Cancelling everything\<close>

lemma chunk_calls:
  "ka_calls (fst (cancel_chunk env ids s)) = ka_calls s @ (if ids = [] then [] else [HDeleteMany ids])"
  by (simp add: cancel_chunk_def acquired_def rate_limited_def circuit_failure_def Let_def
      split: http_try.split)

lemma chunks_calls:
  "ka_calls (fst (cancel_chunks env cs s)) = ka_calls s @ map HDeleteMany (filter (\<lambda>ids. ids \<noteq> []) cs)"
  by (induction cs arbitrary: s) (auto simp: Let_def split_beta chunk_calls)

lemma concat_chunks: "0 < n \<Longrightarrow> concat (chunks_of n xs) = xs"
  by (induction n xs rule: chunks_of.induct) (subst chunks_of.simps, auto)

lemma chunk_size: "c \<in> set (chunks_of n xs) \<Longrightarrow> length c \<le> n"
  by (induction n xs rule: chunks_of.induct) (subst (asm) (2) chunks_of.simps, auto split: if_splits)

lemma concat_nonempty: "concat (filter (\<lambda>c. c \<noteq> []) cs) = concat cs"
  by (induction cs) auto

lemma concat_map_filter: "concat (map (filter P \<circ> map f) cs) = filter P (map f (concat cs))"
  by (induction cs) auto

text \<open>
  When the open orders could be listed, the cancel of everything asks the venue to cancel each of them
  exactly once and in the order of the listing, in batches of at most twenty, however the batches are
  answered; when the listing fails, nothing is asked and nothing is reported.
\<close>

theorem cancel_all_covers:
  assumes "hx_auth env" and "list_all_open_orders env s = (s1, found)"
  shows "\<exists>batches. ka_calls (fst (kalshi_cancel_all env s)) = ka_calls s1 @ map HDeleteMany batches
      \<and> concat batches = (case found of None \<Rightarrow> [] | Some orders \<Rightarrow> filter (\<lambda>i. i \<noteq> []) (map ord_id orders))
      \<and> list_all (\<lambda>b. b \<noteq> [] \<and> length b \<le> 20) batches \<and> (found = None \<longrightarrow> snd (kalshi_cancel_all env s) = [])"
proof (cases found)
  case None
  then show ?thesis using assms by (simp add: kalshi_cancel_all_def)
next
  case (Some orders)
  let ?named = "filter (\<lambda>i. i \<noteq> []) :: string list \<Rightarrow> string list"
  let ?cs = "map (?named \<circ> map ord_id) (chunks_of cancel_all_chunk_size orders)"
  have "length b \<le> 20" if "b \<in> set ?cs" for b
  proof -
    from that obtain c where "c \<in> set (chunks_of 20 orders)" "b = ?named (map ord_id c)"
      by (auto simp: cancel_all_chunk_size_def)
    then show ?thesis by (metis chunk_size length_filter_le length_map order_trans)
  qed
  moreover have "concat (filter (\<lambda>c. c \<noteq> []) ?cs) = ?named (map ord_id orders)"
    by (simp add: concat_nonempty concat_map_filter concat_chunks cancel_all_chunk_size_def)
  ultimately show ?thesis using assms Some
    by (intro exI [of _ "filter (\<lambda>c. c \<noteq> []) ?cs"])
       (auto simp: kalshi_cancel_all_def chunks_calls list_all_iff)
qed

section \<open>What the engine makes of failed requests\<close>

text \<open>An error answer is taken for the end of the order.\<close>

lemma failed_view [simp]:
  "ord_status (engine_view (failed_order env a e)) = FAILED"
  "ord_fill_qty (engine_view (failed_order env a e)) = 0"
  "ord_error (engine_view (failed_order env a e)) = e"
  "ord_idempotency_ambiguous (engine_view (failed_order env a e)) = False"
  by (simp_all add: engine_view_def failed_order_def order.defs)

lemma lost_post_not_suspect:
  "\<not> counterpart_suspect (engine_view (failed_order env a ''Kalshi transient (retries exhausted): {}''))"
proof -
  have "\<not> contains ''cancel failed'' (py_lower ''Kalshi transient (retries exhausted): {}'')"
    "\<not> contains ''may be live'' (py_lower ''Kalshi transient (retries exhausted): {}'')"
    "\<not> contains ''may still be live'' (py_lower ''Kalshi transient (retries exhausted): {}'')"
    by code_simp+
  then show ?thesis by (simp add: counterpart_suspect_def leg_possibly_live_def)
qed

lemma lost_send:
  assumes "py_lower (oa_side a) = ''yes'' \<or> py_lower (oa_side a) = ''no''"
    and "\<And>n c. hx_answer env n c = NetworkDown"
  shows "snd (send_buy env a tif s) = Some (failed_order env a ''Kalshi transient (retries exhausted): {}'')
     \<and> (\<exists>b k. ka_calls (fst (send_buy env a tif s)) = ka_calls s @ replicate (Suc k) (HPost b))"
proof -
  have low: "py_lower ''buy'' = ''buy''" by code_simp
  let ?cid = "client_order_id_of env a []"
  obtain b where b: "event_order_body (oa_market a) ?cid ''buy'' (oa_side a) (oa_price a) (oa_qty a) tif = Some b"
    using assms(1) by (auto simp: event_order_body_def book_side_for_def book_price_for_def low Let_def)
  obtain s2 t where t: "post_order env b s = (s2, t)" by (cases "post_order env b s")
  have "t = NetworkDown" "\<exists>k. ka_calls s2 = ka_calls s @ replicate (Suc k) (HPost b)"
    using t assms(2) by (auto simp: post_order_def request_def attempt_of_def Let_def)
  then show ?thesis by (auto simp: send_buy_def Let_def b t circuit_failure_def)
qed

text \<open>
  C10. When the connection breaks on every attempt to place the second leg, so that nobody knows whether
  the venue has the order, the adapter reports it as failed with nothing filled and with no sign that it
  may be live: the recovery unwinds the first leg in full at once and never reads the order back.
\<close>

theorem lost_order_unwound_unverified:
  assumes "hx_auth env" and "0 < oa_price a" and "oa_price a < 1" and "hard_locks env a = None"
    and "snd (can_execute (hx_now env) (ka_circuit s))"
    and "py_lower (oa_side a) = ''yes'' \<or> py_lower (oa_side a) = ''no''"
    and "\<And>n c. hx_answer env n c = NetworkDown"
  shows "\<exists>v b k. place_fok env a tif s = (fst (place_fok env a tif s), Some v)
     \<and> ka_calls (fst (place_fok env a tif s)) = ka_calls s @ replicate (Suc k) (HPost b)
     \<and> ord_status v = FAILED \<and> ord_fill_qty v = 0
     \<and> verified_unwind lenv arb_id p leg (engine_view v) qty ls
        = (case unwind_leg lenv arb_id p leg qty ls of (ls', msgs, pnl) \<Rightarrow> (ls', engine_view v, msgs, pnl))"
proof -
  let ?v = "failed_order env a ''Kalshi transient (retries exhausted): {}''"
  obtain s1 where c: "circuit_check env s = (s1, True)"
    using assms(5) by (cases "can_execute (hx_now env) (ka_circuit s)") (auto simp: circuit_check_def)
  have same: "ka_calls s1 = ka_calls s" using c by (auto simp: circuit_check_def split: prod.splits)
  have place: "place_fok env a tif s = send_buy env a tif s1" using assms by (simp add: place_fok_def c)
  have "verified_unwind lenv arb_id p leg (engine_view ?v) qty ls
        = (case unwind_leg lenv arb_id p leg qty ls of (ls', msgs, pnl) \<Rightarrow> (ls', engine_view ?v, msgs, pnl))"
    using lost_post_not_suspect [of env a] by (simp add: verified_unwind_def Let_def split: prod.split)
  moreover have "ord_status ?v = FAILED" "ord_fill_qty ?v = 0" by (simp_all add: failed_order_def)
  ultimately show ?thesis
    using lost_send [OF assms(6,7), of tif s1] place same
    by (intro exI [of _ ?v]) (auto simp: prod_eq_iff)
qed

text \<open>
  While a Kalshi order rests, one read that the venue answers with 429 ends the polling: the order is
  reported failed with nothing filled, it is not cancelled and carries no sign that it may be live.
\<close>

theorem rate_limited_read_drops_order:
  assumes "hx_auth kenv" and "snd (request kenv False (HGetOrder (ord_id v)) (acquired kenv ks)) = Answered h"
    and "hr_status h = 429" and "ad_get_order ad = Some get"
    and "get (tick s) (engine_view v) = Some (engine_view (snd (kalshi_get_order kenv v ks)))"
    and "0 < poll_timeout_for_platform env (ord_platform v)" and "le_polls env (tick s) = Suc n"
    and "ord_fill_qty v = 0" and "\<not> ord_idempotency_ambiguous v"
  shows "\<exists>u. poll_submitted_to_terminal env ad (engine_view v) s
        = (log_call (CGetOrder (ord_platform v) (ord_id v)) s, u)
     \<and> ord_status u = FAILED \<and> ord_fill_qty u = 0 \<and> \<not> counterpart_suspect u"
proof -
  let ?u = "engine_view (mark_failed ''rate_limited ({}s)'' v)"
  have view: "ord_platform (engine_view w) = ord_platform w" "ord_id (engine_view w) = ord_id w"
    "ord_fill_qty (engine_view w) = ord_fill_qty w" "ord_error (engine_view w) = ord_error w"
    "ord_status (engine_view w) = ord_status w"
    "ord_idempotency_ambiguous (engine_view w) = ord_idempotency_ambiguous w" for w
    by (simp_all add: engine_view_def order.defs)
  have "snd (kalshi_get_order kenv v ks) = mark_failed ''rate_limited ({}s)'' v"
    using assms(1-3)
    by (cases "request kenv False (HGetOrder (ord_id v)) (acquired kenv ks)") (simp add: kalshi_get_order_def)
  then have "poll_submitted_to_terminal env ad (engine_view v) s
        = (log_call (CGetOrder (ord_platform v) (ord_id v)) s, ?u)"
    using assms(4-7) by (simp add: poll_submitted_to_terminal_def view mark_failed_def terminal_def Let_def)
  moreover have "\<not> contains ''cancel failed'' (py_lower ''rate_limited ({}s)'')"
    "\<not> contains ''may be live'' (py_lower ''rate_limited ({}s)'')"
    "\<not> contains ''may still be live'' (py_lower ''rate_limited ({}s)'')" by code_simp+
  ultimately show ?thesis using assms(8,9)
    by (intro exI [of _ ?u]) (simp add: view mark_failed_def counterpart_suspect_def leg_possibly_live_def)
qed

text \<open>An answer that shows the order executed but not how much of it: a filled order without contracts.\<close>

lemma executed_without_counts:
  "placed_order env a c [(''status'', JStr ''executed'')] =
     (placed_order env a c [])\<lparr>ord_status := FILLED\<rparr> \<and> ord_fill_qty (placed_order env a c []) = 0"
proof -
  have "py_int 0 = 0" by (simp add: py_int_def)
  then show ?thesis
    by (simp add: placed_order_def map_order_status_from_counts_def fill_count_def extract_fill_price_def
        price_or_def side_price_key_def jget_def dget_def truthy_def fok_status_def json_float_def Let_def)
qed

text \<open>A 200 answer that cannot be read is an order that failed, and one whose order is null raises.\<close>

lemma unreadable_answers:
  "hr_json h = None \<Longrightarrow> read_answer env a c e h = Some (failed_order env a e)"
  "hr_json h = Some (JObj [(''order'', JNull)]) \<Longrightarrow> read_answer env a c e h = None"
  by (simp_all add: read_answer_def order_data_def)

text \<open>A batch of which the venue cancelled nothing is reported as cancelled in full.\<close>

lemma refused_batch_reported:
  "hr_body h \<noteq> [] \<Longrightarrow>
   hr_json h = Some (JObj [(''results'', JArr [JObj [(''order_id'', JStr ''K1''), (''error'', JStr ''no'')]])]) \<Longrightarrow>
   cancelled_of h [''K1''] = [''K1'']"
  by (simp add: cancelled_of_def result_rows_def json_items_def or_json_def jget_def dget_def truthy_def Let_def)

text \<open>A resting sell whose connection breaks may rest at the venue; the unwind sells everything again.\<close>

lemma lost_resting_sell_sold_again:
  assumes "le_adapters env (ord_platform leg) = Some ad" and "ad_resting_sell ad = Some rest"
    and "rest (tick s) (arb_id @ ''-UNWIND-REST'') (ord_market_id leg) (ord_canonical_id leg) (ord_side leg)
           (ord_fill_price leg) qty = Some (engine_view (failed_order kenv a e))"
  shows "smart_unwind env arb_id leg qty s = market_sell ad arb_id leg qty
     (log_call (CRestingSell (ord_platform leg) (ord_side leg) (ord_fill_price leg) qty) s)"
  using assms by (simp add: smart_unwind_def Let_def)

lemma cancel_all_covers_witness:
  "\<exists>batches. concat batches = [''K1'', ''K2'']
     \<and> ka_calls (fst (kalshi_cancel_all (demo_kalshi_env (demo_http 200
          (Some (JObj [(''orders'', JArr [JObj [(''order_id'', JStr ''K1'')], JObj [(''order_id'', JStr ''K2'')]])]))))
          demo_kalshi)) = HListOrders ''resting'' # map HDeleteMany batches"
proof -
  let ?env = "demo_kalshi_env (demo_http 200
    (Some (JObj [(''orders'', JArr [JObj [(''order_id'', JStr ''K1'')], JObj [(''order_id'', JStr ''K2'')]])])))"
  obtain s1 found where l: "list_all_open_orders ?env demo_kalshi = (s1, found)"
    by (cases "list_all_open_orders ?env demo_kalshi")
  have "ka_calls (fst (list_all_open_orders ?env demo_kalshi)) = [HListOrders ''resting'']"
    "map_option (map ord_id) (snd (list_all_open_orders ?env demo_kalshi)) = Some [''K1'', ''K2'']"
    by code_simp+
  then have s1: "ka_calls s1 = [HListOrders ''resting'']" "map_option (map ord_id) found = Some [''K1'', ''K2'']"
    by (simp_all add: l)
  have auth: "hx_auth ?env" by (simp add: demo_kalshi_env_def)
  show ?thesis using cancel_all_covers [OF auth l] s1 by (cases found) auto
qed

lemma lost_order_unwound_unverified_witness:
  "\<exists>v b k. place_fok (demo_kalshi_env NetworkDown) demo_args ''fill_or_kill'' demo_kalshi
        = (fst (place_fok (demo_kalshi_env NetworkDown) demo_args ''fill_or_kill'' demo_kalshi), Some v)
     \<and> ka_calls (fst (place_fok (demo_kalshi_env NetworkDown) demo_args ''fill_or_kill'' demo_kalshi))
        = replicate (Suc k) (HPost b) \<and> ord_status v = FAILED
     \<and> fst (verified_unwind (demo_live_env demo_unwind_adapter) ''ARB-000001'' demo_opp demo_filled_leg
          (engine_view v) 10 demo_live)
        = fst (unwind_leg (demo_live_env demo_unwind_adapter) ''ARB-000001'' demo_opp demo_filled_leg 10 demo_live)"
proof -
  let ?env = "demo_kalshi_env NetworkDown"
  have "hx_auth ?env" "0 < oa_price demo_args" "oa_price demo_args < 1" "hard_locks ?env demo_args = None"
    "snd (can_execute (hx_now ?env) (ka_circuit demo_kalshi))"
    "py_lower (oa_side demo_args) = ''yes'' \<or> py_lower (oa_side demo_args) = ''no''" by code_simp+
  moreover have "hx_answer ?env n c = NetworkDown" for n c by (simp add: demo_kalshi_env_def)
  moreover have "ka_calls demo_kalshi = []" by (simp add: demo_kalshi_def)
  ultimately show ?thesis
    using lost_order_unwound_unverified [of ?env demo_args demo_kalshi "''fill_or_kill''"
        "demo_live_env demo_unwind_adapter" "''ARB-000001''" demo_opp demo_filled_leg 10 demo_live]
    by (fastforce split: prod.split)
qed

definition demo_resting :: venue_order where
  "demo_resting = placed_order (demo_kalshi_env NetworkDown) demo_args ''ID'' [(''status'', JStr ''resting'')]"

lemma rate_limited_read_drops_order_witness:
  "\<exists>u. snd (poll_submitted_to_terminal (demo_live_env (demo_unwind_adapter
          \<lparr>ad_get_order := Some (\<lambda>t r. Some (engine_view (snd (kalshi_get_order
             (demo_kalshi_env (demo_http 429 None)) demo_resting demo_kalshi))))\<rparr>))
        (demo_unwind_adapter\<lparr>ad_get_order := Some (\<lambda>t r. Some (engine_view (snd (kalshi_get_order
             (demo_kalshi_env (demo_http 429 None)) demo_resting demo_kalshi))))\<rparr>)
        (engine_view demo_resting) demo_live) = u
     \<and> ord_status (engine_view demo_resting) = SUBMITTED \<and> ord_status u = FAILED \<and> \<not> counterpart_suspect u"
proof -
  let ?kenv = "demo_kalshi_env (demo_http 429 None)"
  let ?get = "\<lambda>t r. Some (engine_view (snd (kalshi_get_order ?kenv demo_resting demo_kalshi)))"
  let ?ad = "demo_unwind_adapter\<lparr>ad_get_order := Some ?get\<rparr>"
  obtain h where h: "demo_http 429 None = Answered h" "hr_status h = 429" by (simp add: demo_http_def)
  have a: "hx_auth ?kenv" by (simp add: demo_kalshi_env_def)
  have r: "snd (request ?kenv False (HGetOrder (ord_id demo_resting)) (acquired ?kenv demo_kalshi)) = Answered h"
    by (simp add: attempt_of_def demo_kalshi_env_def h)
  have polls: "le_polls (demo_live_env ?ad) (tick demo_live) = Suc 2" by (simp add: demo_live_env_def)
  have time: "0 < poll_timeout_for_platform (demo_live_env ?ad) (ord_platform demo_resting)"
    by (simp add: poll_timeout_for_platform_def demo_live_env_def)
  have q: "ord_fill_qty demo_resting = 0" "\<not> ord_idempotency_ambiguous demo_resting"
    "ord_status (engine_view demo_resting) = SUBMITTED" by code_simp+
  have "ad_get_order ?ad = Some ?get" by simp
  from rate_limited_read_drops_order [OF a r h(2) this refl time polls q(1,2)]
  show ?thesis using q(3) by auto
qed

end
