(* ===== verification/Execution_Store.thy ===== *)
theory Execution_Store
  imports Orders
begin

text \<open>
  \<open>ExecutionStore\<close> of \<open>arbiter/execution/store.py\<close>: the tables of the execution state with their
  constraints and every statement the code runs on them.  A table is the list of its rows in the order of
  insertion, which also decides between equal times where SQL leaves the order open.  The clock of the
  database is an argument; \<open>None\<close> is a statement that raises, after which the tables are as before.  The
  widths of the columns and the connection pool are not modelled.
\<close>

section \<open>Order ids\<close>

text \<open>\<open>order_identity.py\<close>, and \<open>_derive_arb_id\<close>: \<open>ARB-NNNNNN-YES-...\<close> gives \<open>ARB-NNNNNN\<close>.\<close>

definition synthetic_suffixes :: "string list" where
  "synthetic_suffixes = [''-SKIPPED'', ''-EDGE-LOST'', ''-UNPROFITABLE'', ''-EXCEPTION'', ''-NOADAPTER'', ''-DBFAIL'']"

definition is_synthetic_placeholder :: "string \<Rightarrow> bool" where
  "is_synthetic_placeholder oid = list_ex (ends_with (py_upper (py_strip oid))) synthetic_suffixes"

definition derive_arb_id :: "string \<Rightarrow> string option" where
  "derive_arb_id oid =
     (if starts_with ''ARB-'' oid then Some (''ARB-'' @ takeWhile (\<lambda>c. c \<noteq> CHR ''-'') (drop 4 oid)) else None)"

section \<open>Tables\<close>

text \<open>A \<open>DECIMAL(_, n)\<close> column keeps n decimals, rounding half away from zero.\<close>

definition pg_round :: "nat \<Rightarrow> flt \<Rightarrow> flt" where
  "pg_round n x =
     (let y = of_int \<lfloor>\<bar>x\<bar> * 10 ^ n + 1/2\<rfloor> / 10 ^ n in if x < 0 then - y else y)"

text \<open>The \<open>order\<close> of a row holds its columns; the timestamp of it is \<open>submitted_at\<close>.\<close>

record order_row =
  ow_order :: order
  ow_arb_id :: string
  ow_client_order_id :: "string option"
  ow_updated_at :: flt
  ow_terminal_at :: "flt option"

record arb_row =
  aw_arb_id :: string
  aw_canonical_id :: string
  aw_status :: string
  aw_net_edge :: "flt option"
  aw_realized_pnl :: flt
  aw_unwind_pnl :: flt
  aw_opportunity :: "opportunity option"
  aw_is_simulation :: bool
  aw_created_at :: flt
  aw_updated_at :: flt
  aw_closed_at :: "flt option"
  aw_last_checked_at :: "flt option"
  aw_recovery_notes :: string
  aw_analysis_md :: string
  aw_analysis_version :: int

record fill_row =
  fw_fill_id :: int
  fw_order_id :: string
  fw_price :: flt
  fw_quantity :: flt
  fw_fees_paid :: flt
  fw_filled_at :: flt

text \<open>The timestamp of the incident of a row is \<open>created_at\<close>; a missing \<open>resolved_at\<close> is zero.\<close>

record exec_db =
  db_arbs :: "arb_row list"
  db_orders :: "order_row list"
  db_fills :: "fill_row list"
  db_incidents :: "incident list"
  db_next_fill :: int

definition empty_db :: exec_db where
  "empty_db = \<lparr>db_arbs = [], db_orders = [], db_fills = [], db_incidents = [], db_next_fill = 1\<rparr>"

definition arb_exists :: "string \<Rightarrow> exec_db \<Rightarrow> bool" where
  "arb_exists a db = (a \<in> aw_arb_id ` set (db_arbs db))"

definition order_exists :: "string \<Rightarrow> exec_db \<Rightarrow> bool" where
  "order_exists oid db = (oid \<in> (ord_id \<circ> ow_order) ` set (db_orders db))"

definition client_id_taken :: "string option \<Rightarrow> exec_db \<Rightarrow> bool" where
  "client_id_taken c db = (c \<noteq> None \<and> c \<in> ow_client_order_id ` set (db_orders db))"

section \<open>Orders\<close>

definition terminal_in_store :: "order_status \<Rightarrow> bool" where
  "terminal_in_store st = (st \<in> {FILLED, CANCELLED, FAILED, ABORTED, SIMULATED})"

text \<open>What an existing row takes from the order, and a new row.\<close>

definition update_row :: "flt \<Rightarrow> order \<Rightarrow> order_row \<Rightarrow> order_row" where
  "update_row now r w =
     w\<lparr> ow_order := (ow_order w)\<lparr> ord_status := ord_status r, ord_fill_price := pg_round 4 (ord_fill_price r),
                                  ord_fill_qty := ord_fill_qty r, ord_error := ord_error r \<rparr>,
        ow_updated_at := now,
        ow_terminal_at := (if terminal_in_store (ord_status r) then Some now else ow_terminal_at w) \<rparr>"

definition new_row :: "flt \<Rightarrow> order \<Rightarrow> string \<Rightarrow> string option \<Rightarrow> order_row" where
  "new_row now r arb_id client_order_id =
     \<lparr> ow_order = r\<lparr> ord_price := pg_round 4 (ord_price r), ord_fill_price := pg_round 4 (ord_fill_price r),
                     ord_timestamp := now, ord_external_client_order_id := None,
                     ord_idempotency_ambiguous := False \<rparr>,
       ow_arb_id = arb_id, ow_client_order_id = client_order_id, ow_updated_at = now, ow_terminal_at = None \<rparr>"

definition upsert_row ::
  "flt \<Rightarrow> order \<Rightarrow> string \<Rightarrow> string option \<Rightarrow> exec_db \<Rightarrow> exec_db option" where
  "upsert_row now r arb_id client_order_id db =
     (if order_exists (ord_id r) db
      then Some (db\<lparr>db_orders := map (\<lambda>w. if ord_id (ow_order w) = ord_id r then update_row now r w else w)
                                   (db_orders db)\<rparr>)
      else if client_id_taken client_order_id db \<or> \<not> arb_exists arb_id db then None
      else Some (db\<lparr>db_orders := db_orders db @ [new_row now r arb_id client_order_id]\<rparr>))"

text \<open>\<open>upsert_order\<close>; an empty arb id is derived from the order id.\<close>

definition upsert_order ::
  "flt \<Rightarrow> order \<Rightarrow> string option \<Rightarrow> string option \<Rightarrow> exec_db \<Rightarrow> exec_db option" where
  "upsert_order now r arb_id client_order_id db =
     (let given = (case arb_id of Some a \<Rightarrow> if a = [] then derive_arb_id (ord_id r) else Some a
                   | None \<Rightarrow> derive_arb_id (ord_id r))
      in case given of None \<Rightarrow> None | Some a \<Rightarrow> upsert_row now r a client_order_id db)"

definition store_get_order :: "string \<Rightarrow> exec_db \<Rightarrow> order option" where
  "store_get_order oid db = map_option ow_order (find (\<lambda>w. ord_id (ow_order w) = oid) (db_orders db))"

definition by_submission :: "order_row list \<Rightarrow> order_row list" where
  "by_submission ws = sort_key (ord_timestamp \<circ> ow_order) ws"

definition still_open :: "order_status \<Rightarrow> bool" where
  "still_open st = (st = PENDING \<or> st = SUBMITTED \<or> st = PARTIAL)"

definition list_non_terminal_orders :: "exec_db \<Rightarrow> order list" where
  "list_non_terminal_orders db =
     map ow_order (by_submission (filter (\<lambda>w. still_open (ord_status (ow_order w))
        \<and> \<not> list_ex (ends_with (ord_id (ow_order w))) synthetic_suffixes) (db_orders db)))"

definition orders_of :: "string \<Rightarrow> exec_db \<Rightarrow> order_row list" where
  "orders_of a db = filter (\<lambda>w. ow_arb_id w = a) (db_orders db)"

text \<open>The filled quantities of completed arbs, by venue, market and side as stored; the dict of the
  result has the side in lower case, and a later group replaces an earlier one.\<close>

definition paired_rows :: "exec_db \<Rightarrow> order list" where
  "paired_rows db =
     map ow_order (filter (\<lambda>w. list_ex (\<lambda>a. aw_arb_id a = ow_arb_id w \<and> aw_status a = ''filled'') (db_arbs db)
        \<and> ord_status (ow_order w) = FILLED \<and> 0 < ord_fill_qty (ow_order w)) (db_orders db))"

definition lot_key :: "order \<Rightarrow> string \<times> string \<times> string" where
  "lot_key r = (ord_platform r, ord_market_id r, ord_side r)"

definition paired_inventory_by_market :: "exec_db \<Rightarrow> (string \<times> string \<times> string, flt) dict" where
  "paired_inventory_by_market db =
     (let rows = paired_rows db
      in fold (\<lambda>(p, m, sd). AList.update (p, m, py_lower sd)
                  (sum_list (map (of_int \<circ> ord_fill_qty) (filter (\<lambda>r. lot_key r = (p, m, sd)) rows))))
              (remdups (map lot_key rows)) [])"

section \<open>Half-recorded arbs\<close>

definition naked_leg_sentinel :: string where
  "naked_leg_sentinel = ''[naked-leg-reconciled]''"

definition zero_qty_filled :: "order \<Rightarrow> bool" where
  "zero_qty_filled r =
     (ord_platform r = ''forecastex'' \<and> ord_status r = FILLED \<and> ord_fill_qty r = 0 \<and> 0 < ord_quantity r)"

definition effective_fill_qty :: "order \<Rightarrow> int" where
  "effective_fill_qty r =
     (if (ord_status r = FILLED \<or> ord_status r = SIMULATED) \<and> 0 < ord_fill_qty r then ord_fill_qty r
      else if zero_qty_filled r then ord_quantity r else 0)"

definition exposed_leg :: "order \<Rightarrow> bool" where
  "exposed_leg r = (0 < effective_fill_qty r)"

definition exposed_notional :: "order \<Rightarrow> flt" where
  "exposed_notional r =
     (if exposed_leg r
      then of_int (effective_fill_qty r) * (if 0 < ord_fill_price r then ord_fill_price r else ord_price r)
      else 0)"

record half_recorded =
  hf_arb_id :: string
  hf_canonical_id :: string
  hf_status :: string
  hf_created_at :: flt
  hf_leg_count :: int
  hf_filled_leg_count :: int
  hf_unfilled_leg_count :: int
  hf_zero_qty_filled_leg_count :: int
  hf_filled_notional :: flt
  hf_leg_order_ids :: "string list"

definition settled_statuses :: "string list" where
  "settled_statuses = [''filled'', ''failed'', ''simulated'', ''recovering'', ''closed'']"

definition stub_orphan :: "arb_row \<Rightarrow> order list \<Rightarrow> bool" where
  "stub_orphan a legs = (length legs < 2 \<and> aw_status a \<notin> set settled_statuses)"

definition asymmetric_fill :: "arb_row \<Rightarrow> order list \<Rightarrow> bool" where
  "asymmetric_fill a legs =
     (list_ex exposed_leg legs \<and> \<not> list_all exposed_leg legs
      \<and> \<not> contains naked_leg_sentinel (aw_recovery_notes a))"

text \<open>An arb without orders joins one empty row, which counts as an unfilled leg.\<close>

definition half_recorded_of :: "arb_row \<Rightarrow> order list \<Rightarrow> half_recorded" where
  "half_recorded_of a legs =
     \<lparr> hf_arb_id = aw_arb_id a, hf_canonical_id = aw_canonical_id a, hf_status = aw_status a,
       hf_created_at = aw_created_at a, hf_leg_count = int (length legs),
       hf_filled_leg_count = int (length (filter exposed_leg legs)),
       hf_unfilled_leg_count = (if legs = [] then 1 else int (length (filter (\<lambda>r. \<not> exposed_leg r) legs))),
       hf_zero_qty_filled_leg_count = int (length (filter zero_qty_filled legs)),
       hf_filled_notional = sum_list (map exposed_notional legs),
       hf_leg_order_ids = map ord_id legs \<rparr>"

definition list_half_recorded_arbs :: "exec_db \<Rightarrow> half_recorded list" where
  "list_half_recorded_arbs db =
     map (\<lambda>a. half_recorded_of a (map ow_order (by_submission (orders_of (aw_arb_id a) db))))
       (filter (\<lambda>a. let legs = map ow_order (by_submission (orders_of (aw_arb_id a) db))
                    in stub_orphan a legs \<or> asymmetric_fill a legs)
         (sort_key aw_created_at (db_arbs db)))"

definition update_arbs :: "(arb_row \<Rightarrow> bool) \<Rightarrow> (arb_row \<Rightarrow> arb_row) \<Rightarrow> exec_db \<Rightarrow> exec_db" where
  "update_arbs P f db = db\<lparr>db_arbs := map (\<lambda>a. if P a then f a else a) (db_arbs db)\<rparr>"

text \<open>\<open>COALESCE(t, NOW())\<close>.\<close>

definition coalesce :: "flt option \<Rightarrow> flt \<Rightarrow> flt option" where
  "coalesce t now = (case t of None \<Rightarrow> Some now | Some x \<Rightarrow> Some x)"

definition newline :: string where
  "newline = [CHR 0x0A]"

definition mark_naked_leg_reconciled :: "flt \<Rightarrow> string \<Rightarrow> flt \<Rightarrow> string \<Rightarrow> exec_db \<Rightarrow> exec_db" where
  "mark_naked_leg_reconciled now arb_id unwind_pnl remark db =
     (let quiet = \<not> list_ex (\<lambda>w. still_open (ord_status (ow_order w))) (orders_of arb_id db)
      in update_arbs (\<lambda>a. aw_arb_id a = arb_id)
           (\<lambda>a. a\<lparr> aw_unwind_pnl := pg_round 4 unwind_pnl,
                   aw_status := (if quiet then ''closed'' else aw_status a),
                   aw_closed_at := (if quiet then coalesce (aw_closed_at a) now else aw_closed_at a),
                   aw_updated_at := now,
                   aw_recovery_notes :=
                     (let old = aw_recovery_notes a
                      in if old = [] then naked_leg_sentinel @ '' '' @ remark
                         else if contains naked_leg_sentinel old then old
                         else old @ newline @ naked_leg_sentinel @ '' '' @ remark) \<rparr>) db)"

definition auto_closed_note :: string where
  "auto_closed_note =
     ''Auto-closed on startup: half-recorded arb had zero persisted orders and zero filled notional.''"

text \<open>The number of rows an \<open>UPDATE\<close> touched comes back with the tables.\<close>

definition mark_no_exposure_failed :: "flt \<Rightarrow> string list \<Rightarrow> exec_db \<Rightarrow> exec_db \<times> int" where
  "mark_no_exposure_failed now ids db =
     (let P = (\<lambda>a. aw_arb_id a \<in> set ids \<and> aw_status a \<notin> set settled_statuses \<and> orders_of (aw_arb_id a) db = [])
      in (update_arbs P
            (\<lambda>a. a\<lparr> aw_status := ''failed'', aw_updated_at := now, aw_closed_at := coalesce (aw_closed_at a) now,
                    aw_recovery_notes := (if aw_recovery_notes a = [] then auto_closed_note
                                          else aw_recovery_notes a @ newline @ auto_closed_note) \<rparr>) db,
          int (length (filter P (db_arbs db)))))"

section \<open>Fills and incidents\<close>

definition insert_fill :: "flt \<Rightarrow> string \<Rightarrow> flt \<Rightarrow> flt \<Rightarrow> flt \<Rightarrow> exec_db \<Rightarrow> (exec_db \<times> int) option" where
  "insert_fill now oid price quantity fees db =
     (if \<not> order_exists oid db then None
      else let k = db_next_fill db
           in Some (db\<lparr> db_fills := db_fills db @ [\<lparr> fw_fill_id = k, fw_order_id = oid, fw_price = pg_round 4 price,
                          fw_quantity = pg_round 2 quantity, fw_fees_paid = pg_round 4 fees, fw_filled_at = now \<rparr>],
                        db_next_fill := k + 1 \<rparr>, k))"

definition insert_incident :: "flt \<Rightarrow> incident \<Rightarrow> exec_db \<Rightarrow> exec_db" where
  "insert_incident now i db =
     (if inc_id i \<in> inc_id ` set (db_incidents db)
      then db\<lparr>db_incidents := map (\<lambda>j. if inc_id j = inc_id i
                 then j\<lparr> inc_severity := inc_severity i, inc_message := inc_message i,
                         inc_metadata := inc_metadata i, inc_status := inc_status i,
                         inc_resolved_at := inc_resolved_at i, inc_resolution_note := inc_resolution_note i \<rparr>
                 else j) (db_incidents db)\<rparr>
      else db\<lparr>db_incidents := db_incidents db @ [i\<lparr>inc_timestamp := now\<rparr>]\<rparr>)"

definition half_recorded_alert :: "incident \<Rightarrow> bool" where
  "half_recorded_alert i =
     (inc_status i = ''open'' \<and> map_of (inc_metadata i) ''event_type'' = Some (MText ''half_recorded_arb''))"

definition resolve_row :: "flt \<Rightarrow> string \<Rightarrow> incident \<Rightarrow> incident" where
  "resolve_row now remark i =
     i\<lparr> inc_status := ''resolved'', inc_resolved_at := or_flt (inc_resolved_at i) now,
        inc_resolution_note := or_str (inc_resolution_note i) remark \<rparr>"

definition resolve_where :: "flt \<Rightarrow> string \<Rightarrow> (incident \<Rightarrow> bool) \<Rightarrow> exec_db \<Rightarrow> exec_db \<times> int" where
  "resolve_where now remark P db =
     (db\<lparr>db_incidents := map (\<lambda>i. if half_recorded_alert i \<and> P i then resolve_row now remark i else i)
                            (db_incidents db)\<rparr>,
      int (length (filter (\<lambda>i. half_recorded_alert i \<and> P i) (db_incidents db))))"

definition half_recorded_incident_id :: "string \<Rightarrow> string" where
  "half_recorded_incident_id arb_id = ''INC-HALF-'' @ arb_id"

definition resolve_superseded_incidents :: "flt \<Rightarrow> string list \<Rightarrow> exec_db \<Rightarrow> exec_db \<times> int" where
  "resolve_superseded_incidents now ids db =
     (if ids = [] then (db, 0)
      else resolve_where now ''Superseded by deterministic half-recorded incident''
             (\<lambda>i. inc_arb_id i \<in> set ids \<and> inc_id i \<noteq> half_recorded_incident_id (inc_arb_id i)) db)"

definition resolve_half_recorded_incidents :: "flt \<Rightarrow> string list \<Rightarrow> string \<Rightarrow> exec_db \<Rightarrow> exec_db \<times> int" where
  "resolve_half_recorded_incidents now ids remark db =
     (if ids = [] then (db, 0) else resolve_where now remark (\<lambda>i. inc_arb_id i \<in> set ids) db)"

definition resolve_stale_incidents :: "flt \<Rightarrow> string list \<Rightarrow> exec_db \<Rightarrow> exec_db \<times> int" where
  "resolve_stale_incidents now active db =
     resolve_where now
       ''Auto-resolved: half-recorded arb is no longer an active startup recovery blocker.''
       (\<lambda>i. inc_arb_id i \<notin> set active) db"

definition list_incidents :: "string option \<Rightarrow> nat \<Rightarrow> exec_db \<Rightarrow> incident list" where
  "list_incidents status limit db =
     map (\<lambda>i. i\<lparr> inc_severity := or_str (inc_severity i) ''warning'', inc_status := or_str (inc_status i) ''open'' \<rparr>)
       (take limit (rev (sort_key inc_timestamp
         (filter (\<lambda>i. status = None \<or> status = Some (inc_status i)) (db_incidents db)))))"

section \<open>Arbs\<close>

text \<open>A dollar that both columns carry counts once: the unwind is in the realized profit, or stands alone.\<close>

definition booked_pnl :: "arb_row \<Rightarrow> flt" where
  "booked_pnl a = (if aw_realized_pnl a \<noteq> 0 then aw_realized_pnl a else aw_unwind_pnl a)"

definition cash_status :: "string \<Rightarrow> bool" where
  "cash_status st = (st \<in> {''closed'', ''failed'', ''simulated'', ''cancelled''})"

definition realized_pnl_split :: "exec_db \<Rightarrow> flt \<times> flt" where
  "realized_pnl_split db =
     (round_nd 2 (sum_list (map booked_pnl (filter (\<lambda>a. cash_status (aw_status a)) (db_arbs db)))),
      round_nd 2 (sum_list (map booked_pnl (filter (\<lambda>a. \<not> cash_status (aw_status a)) (db_arbs db)))))"

definition stub_row :: "flt \<Rightarrow> string \<Rightarrow> string \<Rightarrow> opportunity option \<Rightarrow> flt option \<Rightarrow> arb_row" where
  "stub_row now arb_id cid p net_edge =
     \<lparr> aw_arb_id = arb_id, aw_canonical_id = cid, aw_status = ''pending'',
       aw_net_edge = map_option (pg_round 4) net_edge, aw_realized_pnl = 0, aw_unwind_pnl = 0,
       aw_opportunity = map_option opp_to_dict p, aw_is_simulation = False, aw_created_at = now,
       aw_updated_at = now, aw_closed_at = None, aw_last_checked_at = None, aw_recovery_notes = [],
       aw_analysis_md = [], aw_analysis_version = 0 \<rparr>"

definition record_arb_stub ::
  "flt \<Rightarrow> string \<Rightarrow> string \<Rightarrow> opportunity option \<Rightarrow> flt option \<Rightarrow> exec_db \<Rightarrow> exec_db" where
  "record_arb_stub now arb_id cid p net_edge db =
     (if arb_exists arb_id db then db
      else db\<lparr>db_arbs := db_arbs db @ [stub_row now arb_id cid p net_edge]\<rparr>)"

definition record_arb_stub_with_leg ::
  "flt \<Rightarrow> string \<Rightarrow> string \<Rightarrow> order \<Rightarrow> opportunity option \<Rightarrow> flt option \<Rightarrow> string option
   \<Rightarrow> exec_db \<Rightarrow> exec_db option" where
  "record_arb_stub_with_leg now arb_id cid leg p net_edge client_order_id db =
     upsert_order now leg (Some arb_id) client_order_id (record_arb_stub now arb_id cid p net_edge db)"

definition closing_status :: "string \<Rightarrow> bool" where
  "closing_status st = (st \<in> {''filled'', ''failed'', ''simulated'', ''recovering''})"

definition upsert_arb :: "flt \<Rightarrow> arb_execution \<Rightarrow> exec_db \<Rightarrow> exec_db" where
  "upsert_arb now e db =
     (if arb_exists (ex_arb_id e) db
      then update_arbs (\<lambda>a. aw_arb_id a = ex_arb_id e)
             (\<lambda>a. a\<lparr> aw_status := ex_status e, aw_realized_pnl := pg_round 4 (ex_realized_pnl e),
                     aw_unwind_pnl := pg_round 4 (ex_unwind_pnl e), aw_updated_at := now,
                     aw_closed_at := (if closing_status (ex_status e) then Some now else aw_closed_at a) \<rparr>) db
      else db\<lparr>db_arbs := db_arbs db @
             [(stub_row now (ex_arb_id e) (opp_canonical_id (ex_opportunity e)) (Some (ex_opportunity e))
                 (Some (opp_net_edge (ex_opportunity e))))
              \<lparr> aw_status := ex_status e, aw_realized_pnl := pg_round 4 (ex_realized_pnl e),
                aw_unwind_pnl := pg_round 4 (ex_unwind_pnl e),
                aw_is_simulation := (ex_status e = ''simulated'') \<rparr>]\<rparr>)"

definition update_arb_analysis :: "string \<Rightarrow> string \<Rightarrow> int \<Rightarrow> exec_db \<Rightarrow> exec_db" where
  "update_arb_analysis arb_id md version db =
     update_arbs (\<lambda>a. aw_arb_id a = arb_id) (\<lambda>a. a\<lparr>aw_analysis_md := md, aw_analysis_version := version\<rparr>) db"

text \<open>The row and both legs in one transaction, then the analysis, when there is one.\<close>

definition store_record_arb :: "flt \<Rightarrow> arb_execution \<Rightarrow> string \<Rightarrow> exec_db \<Rightarrow> exec_db option" where
  "store_record_arb now e analysis db =
     (case upsert_order now (ex_leg_yes e) (Some (ex_arb_id e)) None (upsert_arb now e db) of
        None \<Rightarrow> None
      | Some db1 \<Rightarrow>
          map_option (if analysis = [] then id else update_arb_analysis (ex_arb_id e) analysis 1)
            (upsert_order now (ex_leg_no e) (Some (ex_arb_id e)) None db1))"

section \<open>Rehydration\<close>

text \<open>The fields of a stored opportunity that are read back; the others have their defaults.\<close>

definition history_opportunity :: "opportunity \<Rightarrow> opportunity" where
  "history_opportunity p = p
     \<lparr> opp_confidence := 0, opp_arb_type := ''cross_platform'', opp_persistence_count := 1,
       opp_quote_age_seconds := 0, opp_min_available_liquidity := 0, opp_mapping_score := 0,
       opp_requires_manual := False, opp_fee_breakdown := [], opp_yes_fee_rate := 0, opp_no_fee_rate := 0,
       opp_yes_outcome_name := [], opp_no_outcome_name := [], opp_yes_question := [], opp_no_question := [],
       opp_yes_bid := 0, opp_yes_ask := 0, opp_no_bid := 0, opp_no_ask := 0,
       opp_yes_quote_age_seconds := 0, opp_no_quote_age_seconds := 0 \<rparr>"

datatype leg_side = YesLeg | NoLeg | NeitherLeg

definition side_of_row :: "order \<Rightarrow> leg_side" where
  "side_of_row r =
     (let side = py_upper (ord_side r); oid = py_upper (ord_id r)
      in if side = ''YES'' \<or> contains ''YES'' oid then YesLeg
         else if side = ''NO'' \<or> contains ''NO'' oid then NoLeg else NeitherLeg)"

text \<open>The last row of a side is its leg.\<close>

definition last_leg :: "leg_side \<Rightarrow> order list \<Rightarrow> order option" where
  "last_leg sd legs = (let xs = filter (\<lambda>r. side_of_row r = sd) legs in if xs = [] then None else Some (last xs))"

definition placeholder_leg ::
  "arb_row \<Rightarrow> string \<Rightarrow> string \<Rightarrow> string \<Rightarrow> flt \<Rightarrow> opportunity \<Rightarrow> order" where
  "placeholder_leg a side platform market price p =
     (let traded = aw_status a = ''filled'' \<or> aw_status a = ''simulated''
      in \<lparr> ord_id = aw_arb_id a @ ''-'' @ side, ord_platform = platform, ord_market_id = market,
           ord_canonical_id = opp_canonical_id p, ord_side = side, ord_price = price,
           ord_quantity = opp_suggested_qty p, ord_status = (if traded then FILLED else PENDING),
           ord_fill_price = price, ord_fill_qty = (if traded then opp_suggested_qty p else 0),
           ord_timestamp = 0, ord_error = [], ord_external_client_order_id = None,
           ord_idempotency_ambiguous = False \<rparr>)"

definition rehydrate_arb :: "order list \<Rightarrow> arb_row \<Rightarrow> arb_execution option" where
  "rehydrate_arb legs a =
     map_option (\<lambda>stored.
       let p = history_opportunity stored
       in \<lparr> ex_arb_id = aw_arb_id a, ex_opportunity = p,
            ex_leg_yes = (case last_leg YesLeg legs of Some r \<Rightarrow> r
              | None \<Rightarrow> placeholder_leg a ''YES'' (opp_yes_platform p) (opp_yes_market_id p) (opp_yes_price p) p),
            ex_leg_no = (case last_leg NoLeg legs of Some r \<Rightarrow> r
              | None \<Rightarrow> placeholder_leg a ''NO'' (opp_no_platform p) (opp_no_market_id p) (opp_no_price p) p),
            ex_status = or_str (aw_status a) ''unknown'', ex_realized_pnl = aw_realized_pnl a,
            ex_unwind_pnl = aw_unwind_pnl a, ex_timestamp = aw_created_at a, ex_notes = [] \<rparr>)
       (aw_opportunity a)"

definition load_history :: "nat option \<Rightarrow> exec_db \<Rightarrow> arb_execution list" where
  "load_history limit db =
     (let newest_first = rev (sort_key aw_created_at (db_arbs db));
          arbs = (case limit of None \<Rightarrow> newest_first | Some k \<Rightarrow> take k newest_first)
      in List.map_filter (\<lambda>a. rehydrate_arb (map ow_order (by_submission (orders_of (aw_arb_id a) db))) a)
           (rev arbs))"

section \<open>The constraints of the tables\<close>

definition db_ok :: "exec_db \<Rightarrow> bool" where
  "db_ok db =
     (distinct (map aw_arb_id (db_arbs db)) \<and> distinct (map (ord_id \<circ> ow_order) (db_orders db))
      \<and> distinct (List.map_filter ow_client_order_id (db_orders db))
      \<and> (\<forall>w \<in> set (db_orders db). arb_exists (ow_arb_id w) db)
      \<and> (\<forall>f \<in> set (db_fills db). order_exists (fw_order_id f) db)
      \<and> distinct (map fw_fill_id (db_fills db)) \<and> (\<forall>f \<in> set (db_fills db). fw_fill_id f < db_next_fill db)
      \<and> distinct (map inc_id (db_incidents db)))"

lemma map_same: "(\<And>x. x \<in> set xs \<Longrightarrow> g (f x) = g x) \<Longrightarrow> map g (map f xs) = map g xs"
  by simp

lemma update_arbs_ids:
  assumes "\<And>a. aw_arb_id (f a) = aw_arb_id a"
  shows "map aw_arb_id (db_arbs (update_arbs P f db)) = map aw_arb_id (db_arbs db)"
  using assms by (auto simp: update_arbs_def)

lemma update_arbs_rest [simp]:
  "db_orders (update_arbs P f db) = db_orders db" "db_fills (update_arbs P f db) = db_fills db"
  "db_incidents (update_arbs P f db) = db_incidents db" "db_next_fill (update_arbs P f db) = db_next_fill db"
  by (simp_all add: update_arbs_def)

lemma update_arbs_exists:
  assumes "\<And>a. aw_arb_id (f a) = aw_arb_id a"
  shows "arb_exists x (update_arbs P f db) = arb_exists x db"
  unfolding arb_exists_def by (metis assms list.set_map update_arbs_ids)

lemma update_arbs_ok:
  assumes "\<And>a. aw_arb_id (f a) = aw_arb_id a" "db_ok db"
  shows "db_ok (update_arbs P f db)"
  using assms(2) by (simp add: db_ok_def update_arbs_ids assms(1) update_arbs_exists order_exists_def)

lemma add_arb_ok:
  assumes "db_ok db" "\<not> arb_exists (aw_arb_id a) db"
  shows "db_ok (db\<lparr>db_arbs := db_arbs db @ [a]\<rparr>)"
  using assms by (auto simp: db_ok_def arb_exists_def order_exists_def)

lemma update_row_keys [simp]:
  "ord_id (ow_order (update_row now r w)) = ord_id (ow_order w)"
  "ow_client_order_id (update_row now r w) = ow_client_order_id w" "ow_arb_id (update_row now r w) = ow_arb_id w"
  by (simp_all add: update_row_def)

lemma new_row_keys [simp]:
  "ord_id (ow_order (new_row now r a c)) = ord_id r" "ow_client_order_id (new_row now r a c) = c"
  "ow_arb_id (new_row now r a c) = a"
  by (simp_all add: new_row_def)

lemma map_filter_map: "List.map_filter f (map g xs) = List.map_filter (f \<circ> g) xs"
  by (simp add: List.map_filter_def filter_map comp_def)

lemma set_map_filter_some: "x \<in> set (List.map_filter f xs) \<longleftrightarrow> Some x \<in> f ` set xs"
  by (induction xs) (auto simp: List.map_filter_simps split: option.split)

lemma upsert_row_ok:
  assumes "db_ok db" "upsert_row now r a c db = Some db'"
  shows "db_ok db'"
proof (cases "order_exists (ord_id r) db")
  case True
  let ?f = "\<lambda>w. if ord_id (ow_order w) = ord_id r then update_row now r w else w"
  have d: "db' = db\<lparr>db_orders := map ?f (db_orders db)\<rparr>" using assms(2) True by (simp add: upsert_row_def)
  have ids: "map (ord_id \<circ> ow_order) (map ?f (db_orders db)) = map (ord_id \<circ> ow_order) (db_orders db)"
    by (rule map_same) simp
  have clients: "List.map_filter ow_client_order_id (map ?f (db_orders db))
      = List.map_filter ow_client_order_id (db_orders db)"
    unfolding map_filter_map by (rule arg_cong [where f = "\<lambda>g. List.map_filter g (db_orders db)"]) auto
  have ex: "order_exists x db' = order_exists x db" "arb_exists x db' = arb_exists x db" for x
    using arg_cong [OF ids, of set] unfolding order_exists_def arb_exists_def d list.set_map by simp_all
  have "arb_exists (ow_arb_id w) db" if "w \<in> set (map ?f (db_orders db))" for w
    using that assms(1) by (auto simp: db_ok_def)
  moreover have "db_orders db' = map ?f (db_orders db)" by (simp add: d)
  ultimately have "\<forall>w \<in> set (db_orders db'). arb_exists (ow_arb_id w) db"
    and "map (ord_id \<circ> ow_order) (db_orders db') = map (ord_id \<circ> ow_order) (db_orders db)"
    and "List.map_filter ow_client_order_id (db_orders db') = List.map_filter ow_client_order_id (db_orders db)"
    by (metis, metis ids, metis clients)
  moreover have "db_arbs db' = db_arbs db" "db_fills db' = db_fills db" "db_incidents db' = db_incidents db"
    "db_next_fill db' = db_next_fill db" by (simp_all add: d)
  ultimately show ?thesis using assms(1) by (simp only: db_ok_def ex) blast
next
  case False
  then have d: "db' = db\<lparr>db_orders := db_orders db @ [new_row now r a c]\<rparr>"
    and free: "\<not> client_id_taken c db" "arb_exists a db"
    using assms(2) by (auto simp: upsert_row_def split: if_splits)
  have "c \<noteq> None \<Longrightarrow> c \<notin> ow_client_order_id ` set (db_orders db)" using free by (auto simp: client_id_taken_def)
  moreover have "List.map_filter ow_client_order_id (db_orders db @ [new_row now r a c])
      = List.map_filter ow_client_order_id (db_orders db) @ (case c of None \<Rightarrow> [] | Some i \<Rightarrow> [i])"
    by (auto simp: List.map_filter_def split: option.split)
  ultimately show ?thesis using assms(1) False free unfolding d
    by (cases c) (auto simp: db_ok_def arb_exists_def order_exists_def set_map_filter_some)
qed

lemma upsert_order_ok: "db_ok db \<Longrightarrow> upsert_order now r a c db = Some db' \<Longrightarrow> db_ok db'"
  using upsert_row_ok by (auto simp: upsert_order_def Let_def split: option.splits if_splits)

lemma stub_ok: "db_ok db \<Longrightarrow> db_ok (record_arb_stub now a cid p e db)"
  using add_arb_ok [of db "stub_row now a cid p e"] by (simp add: record_arb_stub_def stub_row_def)

lemma upsert_arb_ok: "db_ok db \<Longrightarrow> db_ok (upsert_arb now e db)"
  unfolding upsert_arb_def by (auto intro!: update_arbs_ok add_arb_ok simp: stub_row_def)

lemma store_record_ok: "db_ok db \<Longrightarrow> store_record_arb now e md db = Some db' \<Longrightarrow> db_ok db'"
proof -
  assume ok: "db_ok db" and r: "store_record_arb now e md db = Some db'"
  from r obtain d1 d2 where "upsert_order now (ex_leg_yes e) (Some (ex_arb_id e)) None (upsert_arb now e db) = Some d1"
    "upsert_order now (ex_leg_no e) (Some (ex_arb_id e)) None d1 = Some d2"
    "db' = (if md = [] then id else update_arb_analysis (ex_arb_id e) md 1) d2"
    by (auto simp: store_record_arb_def split: option.splits)
  moreover have "db_ok d2" by (rule upsert_order_ok [OF upsert_order_ok [OF upsert_arb_ok [OF ok]]]) fact+
  ultimately show ?thesis by (auto simp: update_arb_analysis_def intro!: update_arbs_ok)
qed

lemma incidents_ok:
  "db_ok db \<Longrightarrow> map inc_id xs = map inc_id (db_incidents db) \<Longrightarrow> db_ok (db\<lparr>db_incidents := xs\<rparr>)"
  by (simp add: db_ok_def arb_exists_def order_exists_def)

lemma insert_incident_ok: "db_ok db \<Longrightarrow> db_ok (insert_incident now i db)"
proof -
  assume ok: "db_ok db"
  show ?thesis
  proof (cases "inc_id i \<in> inc_id ` set (db_incidents db)")
    case True
    then show ?thesis using ok unfolding insert_incident_def by (auto intro!: incidents_ok simp del: map_map intro: map_same)
  next
    case False
    then show ?thesis using ok by (simp add: insert_incident_def db_ok_def arb_exists_def order_exists_def)
  qed
qed

lemma resolve_where_ok: "db_ok db \<Longrightarrow> db_ok (fst (resolve_where now x P db))"
  by (auto simp: resolve_where_def resolve_row_def intro!: incidents_ok)

lemma insert_fill_ok: "db_ok db \<Longrightarrow> insert_fill now oid p q f db = Some (db', k) \<Longrightarrow> db_ok db'"
proof -
  assume ok: "db_ok db" and "insert_fill now oid p q f db = Some (db', k)"
  then have "order_exists oid db"
    "db' = db\<lparr> db_fills := db_fills db @ [\<lparr> fw_fill_id = db_next_fill db, fw_order_id = oid, fw_price = pg_round 4 p,
        fw_quantity = pg_round 2 q, fw_fees_paid = pg_round 4 f, fw_filled_at = now \<rparr>],
        db_next_fill := db_next_fill db + 1 \<rparr>"
    by (auto simp: insert_fill_def Let_def split: if_splits)
  with ok show ?thesis
    by (fastforce simp: db_ok_def arb_exists_def order_exists_def)
qed

section \<open>Runs of the store\<close>

text \<open>
  The methods of \<open>ExecutionStore\<close> that write; one that raises leaves the tables as they are.  Two statements on
  \<open>execution_arbs\<close> are written elsewhere and are not among them: the status the poller of stuck trades persists
  (theory \<open>Startup_Recovery\<close>) and the close of a phantom record by the stranded-position reconciler.
\<close>

datatype db_op =
    DbOrder flt order "string option" "string option"
  | DbStub flt string string "opportunity option" "flt option"
  | DbStubWithLeg flt string string order "opportunity option" "flt option" "string option"
  | DbArb flt arb_execution string
  | DbAnalysis string string int
  | DbReconciled flt string flt string
  | DbNoExposure flt "string list"
  | DbFill flt string flt flt flt
  | DbIncident flt incident
  | DbResolveSuperseded flt "string list"
  | DbResolve flt "string list" string
  | DbResolveStale flt "string list"

definition or_same :: "exec_db \<Rightarrow> exec_db option \<Rightarrow> exec_db" where
  "or_same db r = (case r of None \<Rightarrow> db | Some db' \<Rightarrow> db')"

fun db_step :: "db_op \<Rightarrow> exec_db \<Rightarrow> exec_db" where
  "db_step (DbOrder now r a c) db = or_same db (upsert_order now r a c db)"
| "db_step (DbStub now a cid p e) db = record_arb_stub now a cid p e db"
| "db_step (DbStubWithLeg now a cid r p e c) db = or_same db (record_arb_stub_with_leg now a cid r p e c db)"
| "db_step (DbArb now e md) db = or_same db (store_record_arb now e md db)"
| "db_step (DbAnalysis a md v) db = update_arb_analysis a md v db"
| "db_step (DbReconciled now a x remark) db = mark_naked_leg_reconciled now a x remark db"
| "db_step (DbNoExposure now ids) db = fst (mark_no_exposure_failed now ids db)"
| "db_step (DbFill now oid p q f) db = or_same db (map_option fst (insert_fill now oid p q f db))"
| "db_step (DbIncident now i) db = insert_incident now i db"
| "db_step (DbResolveSuperseded now ids) db = fst (resolve_superseded_incidents now ids db)"
| "db_step (DbResolve now ids remark) db = fst (resolve_half_recorded_incidents now ids remark db)"
| "db_step (DbResolveStale now ids) db = fst (resolve_stale_incidents now ids db)"

lemma or_same_ok: "db_ok db \<Longrightarrow> (\<And>db'. r = Some db' \<Longrightarrow> db_ok db') \<Longrightarrow> db_ok (or_same db r)"
  by (cases r) (auto simp: or_same_def)

interpretation store_rows: invariant_machine db_step db_ok
proof
  fix db and op :: db_op
  assume ok: "db_ok db"
  show "db_ok (db_step op db)"
    using ok
    by (cases op)
       (auto intro!: or_same_ok update_arbs_ok resolve_where_ok
         simp: update_arb_analysis_def mark_naked_leg_reconciled_def mark_no_exposure_failed_def Let_def
           resolve_superseded_incidents_def resolve_half_recorded_incidents_def resolve_stale_incidents_def
           record_arb_stub_with_leg_def
         dest: upsert_order_ok stub_ok store_record_ok insert_fill_ok insert_incident_ok
         intro: stub_ok insert_incident_ok)
qed

section \<open>Nothing is lost\<close>

text \<open>What identifies an order row; no statement changes it.\<close>

definition row_identity :: "order_row \<Rightarrow> string \<times> string \<times> string option \<times> string \<times> string \<times> string \<times> flt \<times> int \<times> flt" where
  "row_identity w =
     (let r = ow_order w
      in (ord_id r, ow_arb_id w, ow_client_order_id w, ord_platform r, ord_market_id r, ord_side r, ord_price r,
          ord_quantity r, ord_timestamp r))"

definition rows_extend :: "exec_db \<Rightarrow> exec_db \<Rightarrow> bool" where
  "rows_extend db db' =
     (take (length (db_orders db)) (map row_identity (db_orders db')) = map row_identity (db_orders db)
      \<and> take (length (db_arbs db)) (map aw_arb_id (db_arbs db')) = map aw_arb_id (db_arbs db))"

lemma rows_extend_refl [simp]: "rows_extend db db"
  by (simp add: rows_extend_def)

lemma take_prefix_trans:
  assumes "take (length xs) ys = xs" "take (length ys) zs = ys"
  shows "take (length xs) zs = xs"
proof -
  have "length xs \<le> length ys" using arg_cong [OF assms(1), of length] by simp
  then have "take (length xs) zs = take (length xs) (take (length ys) zs)" by (simp add: min_def)
  then show ?thesis using assms by simp
qed

lemma rows_extend_trans: "rows_extend a b \<Longrightarrow> rows_extend b c \<Longrightarrow> rows_extend a c"
  unfolding rows_extend_def by (metis length_map take_prefix_trans)

lemma update_arbs_extends: "(\<And>a. aw_arb_id (f a) = aw_arb_id a) \<Longrightarrow> rows_extend db (update_arbs P f db)"
  by (simp add: rows_extend_def update_arbs_ids)

lemma update_row_identity [simp]: "row_identity (update_row now r w) = row_identity w"
  by (simp add: row_identity_def update_row_def Let_def)

lemma upsert_row_extends: "upsert_row now r a c db = Some db' \<Longrightarrow> rows_extend db db'"
  by (auto simp: upsert_row_def rows_extend_def comp_def split: if_splits)

lemma upsert_order_extends: "upsert_order now r a c db = Some db' \<Longrightarrow> rows_extend db db'"
  using upsert_row_extends by (auto simp: upsert_order_def Let_def split: option.splits if_splits)

lemma stub_extends: "rows_extend db (record_arb_stub now a cid p e db)"
  by (simp add: record_arb_stub_def rows_extend_def)

lemma upsert_arb_extends: "rows_extend db (upsert_arb now e db)"
  by (cases "arb_exists (ex_arb_id e) db")
     (simp add: upsert_arb_def update_arbs_extends, simp add: upsert_arb_def rows_extend_def)

lemma record_arb_extends: "store_record_arb now e md db = Some db' \<Longrightarrow> rows_extend db db'"
proof -
  assume r: "store_record_arb now e md db = Some db'"
  then obtain d1 d2 where d: "upsert_order now (ex_leg_yes e) (Some (ex_arb_id e)) None (upsert_arb now e db) = Some d1"
    "upsert_order now (ex_leg_no e) (Some (ex_arb_id e)) None d1 = Some d2"
    "db' = (if md = [] then id else update_arb_analysis (ex_arb_id e) md 1) d2"
    by (auto simp: store_record_arb_def split: option.splits)
  have "rows_extend db d2"
    using upsert_arb_extends upsert_order_extends [OF d(1)] upsert_order_extends [OF d(2)] rows_extend_trans by metis
  moreover have "rows_extend d2 db'" unfolding d(3) by (auto simp: update_arb_analysis_def intro!: update_arbs_extends)
  ultimately show ?thesis by (rule rows_extend_trans)
qed

lemma or_same_extends: "(\<And>db'. r = Some db' \<Longrightarrow> rows_extend db db') \<Longrightarrow> rows_extend db (or_same db r)"
  by (cases r) (auto simp: or_same_def)

lemma rows_kept: "db_orders db' = db_orders db \<Longrightarrow> db_arbs db' = db_arbs db \<Longrightarrow> rows_extend db db'"
  by (simp add: rows_extend_def)

lemma step_extends: "rows_extend db (db_step op db)"
  by (cases op)
     (auto intro!: or_same_extends update_arbs_extends
       simp: update_arb_analysis_def mark_naked_leg_reconciled_def mark_no_exposure_failed_def Let_def
         resolve_superseded_incidents_def resolve_half_recorded_incidents_def resolve_stale_incidents_def
         resolve_where_def record_arb_stub_with_leg_def insert_fill_def insert_incident_def
       split: if_splits intro: rows_kept stub_extends upsert_order_extends record_arb_extends
         rows_extend_trans [OF stub_extends upsert_order_extends])

lemma run_extends: "rows_extend db (fold db_step ops db)"
  by (induction ops arbitrary: db) (auto intro: rows_extend_trans step_extends)

text \<open>
  C34. Whatever statements the program runs on the store and whichever of them raise, the keys stay unique,
  every order names a stored arb and every fill a stored order; and the trail is append-only: a later
  state has all earlier orders and arbs first, each order with the arb, the client id, the venue, the
  market, the side, the price, the quantity and the time of submission it was stored with.
\<close>

theorem store_is_append_only:
  "db_ok (fold db_step (ops @ later) empty_db)
     \<and> rows_extend (fold db_step ops empty_db) (fold db_step (ops @ later) empty_db)"
  using store_rows.run_inv [of empty_db "ops @ later"] run_extends [of "fold db_step ops empty_db" later]
  by (simp add: db_ok_def empty_db_def List.map_filter_simps)

section \<open>A naked leg is listed\<close>

definition writes_order :: "string \<Rightarrow> db_op \<Rightarrow> bool" where
  "writes_order oid op =
     (case op of DbOrder now r a c \<Rightarrow> ord_id r = oid | DbStubWithLeg now a cid r p e c \<Rightarrow> ord_id r = oid
      | DbArb now e md \<Rightarrow> ord_id (ex_leg_yes e) = oid \<or> ord_id (ex_leg_no e) = oid | _ \<Rightarrow> False)"

definition reconciles :: "string \<Rightarrow> db_op \<Rightarrow> bool" where
  "reconciles a op = (case op of DbReconciled now b x remark \<Rightarrow> b = a | _ \<Rightarrow> False)"

text \<open>The arb has an unbooked row, a filled leg \<open>w\<close> and an unfilled leg \<open>v\<close>.\<close>

definition naked :: "string \<Rightarrow> order_row \<Rightarrow> order_row \<Rightarrow> exec_db \<Rightarrow> bool" where
  "naked a w v db =
     (w \<in> set (db_orders db) \<and> v \<in> set (db_orders db) \<and> ow_arb_id w = a \<and> ow_arb_id v = a
      \<and> exposed_leg (ow_order w) \<and> \<not> exposed_leg (ow_order v)
      \<and> (\<exists>x \<in> set (db_arbs db). aw_arb_id x = a \<and> \<not> contains naked_leg_sentinel (aw_recovery_notes x)))"

lemma set_submission [simp]: "set (by_submission ws) = set ws"
  by (simp add: by_submission_def)

lemma naked_listed:
  assumes "naked a w v db"
  shows "\<exists>h \<in> set (list_half_recorded_arbs db). hf_arb_id h = a \<and> 0 < hf_filled_leg_count h"
proof -
  obtain x where x: "x \<in> set (db_arbs db)" "aw_arb_id x = a" "\<not> contains naked_leg_sentinel (aw_recovery_notes x)"
    using assms by (auto simp: naked_def)
  let ?legs = "map ow_order (by_submission (orders_of a db))"
  have in_legs: "ow_order w \<in> set ?legs" "ow_order v \<in> set ?legs" "exposed_leg (ow_order w)" "\<not> exposed_leg (ow_order v)"
    using assms by (auto simp: naked_def orders_of_def)
  then have "asymmetric_fill x ?legs" using x(3) by (auto simp: asymmetric_fill_def list_ex_iff list_all_iff)
  moreover have "filter (exposed_leg \<circ> ow_order) (by_submission (orders_of a db)) \<noteq> []"
    using in_legs by (auto simp: filter_empty_conv)
  ultimately show ?thesis using x(1,2)
    by (intro bexI [of _ "half_recorded_of x ?legs"])
       (auto simp: list_half_recorded_arbs_def half_recorded_of_def filter_map Let_def)
qed

text \<open>A crash between the legs: one row, filled, of an arb that nothing has settled since.\<close>

definition lone_stub :: "string \<Rightarrow> order_row \<Rightarrow> exec_db \<Rightarrow> bool" where
  "lone_stub a w db =
     (w \<in> set (db_orders db) \<and> ow_arb_id w = a \<and> exposed_leg (ow_order w) \<and> length (orders_of a db) < 2
      \<and> (\<exists>x \<in> set (db_arbs db). aw_arb_id x = a \<and> aw_status x \<notin> set settled_statuses))"

lemma lone_listed:
  assumes "lone_stub a w db"
  shows "\<exists>h \<in> set (list_half_recorded_arbs db). hf_arb_id h = a \<and> 0 < hf_filled_leg_count h"
proof -
  obtain x where x: "x \<in> set (db_arbs db)" "aw_arb_id x = a" "aw_status x \<notin> set settled_statuses"
    using assms by (auto simp: lone_stub_def)
  let ?legs = "map ow_order (by_submission (orders_of a db))"
  have "length ?legs < 2" using assms by (simp add: lone_stub_def by_submission_def)
  then have "stub_orphan x ?legs" using x(3) by (simp add: stub_orphan_def)
  moreover have "filter (exposed_leg \<circ> ow_order) (by_submission (orders_of a db)) \<noteq> []"
    using assms by (auto simp: filter_empty_conv lone_stub_def orders_of_def)
  ultimately show ?thesis using x(1,2)
    by (intro bexI [of _ "half_recorded_of x ?legs"])
       (auto simp: list_half_recorded_arbs_def half_recorded_of_def filter_map Let_def)
qed

text \<open>The query does not count a leg that was cancelled after a partial fill: contracts held, nothing listed.\<close>

lemma partial_cancel_not_exposed:
  "ord_status r \<in> {CANCELLED, PARTIAL} \<Longrightarrow> \<not> exposed_leg r"
  by (auto simp: exposed_leg_def effective_fill_qty_def zero_qty_filled_def)

definition unbooked :: "string \<Rightarrow> exec_db \<Rightarrow> bool" where
  "unbooked a db =
     (\<exists>x \<in> set (db_arbs db). aw_arb_id x = a \<and> \<not> contains naked_leg_sentinel (aw_recovery_notes x))"

lemma naked_alt: "naked a w v db \<longleftrightarrow> w \<in> set (db_orders db) \<and> v \<in> set (db_orders db) \<and> ow_arb_id w = a
   \<and> ow_arb_id v = a \<and> exposed_leg (ow_order w) \<and> \<not> exposed_leg (ow_order v) \<and> unbooked a db"
  by (simp add: naked_def unbooked_def)

lemma upsert_order_keeps:
  assumes "upsert_order now r a c db = Some db'" "ord_id r \<noteq> ord_id (ow_order w)" "w \<in> set (db_orders db)"
  shows "w \<in> set (db_orders db')" "db_arbs db' = db_arbs db"
  using assms
  by (auto simp: upsert_order_def upsert_row_def Let_def split: option.splits if_splits intro!: image_eqI [of _ _ w])

lemma update_arbs_unbooked:
  assumes "unbooked a db" "\<And>x. aw_arb_id (f x) = aw_arb_id x"
    and "\<And>x. P x \<Longrightarrow> aw_arb_id x = a \<Longrightarrow> x \<in> set (db_arbs db) \<Longrightarrow> aw_recovery_notes (f x) = aw_recovery_notes x"
  shows "unbooked a (update_arbs P f db)"
proof -
  obtain x where x: "x \<in> set (db_arbs db)" "aw_arb_id x = a" "\<not> contains naked_leg_sentinel (aw_recovery_notes x)"
    using assms(1) by (auto simp: unbooked_def)
  let ?y = "if P x then f x else x"
  have "?y \<in> set (db_arbs (update_arbs P f db))" using x(1) by (simp add: update_arbs_def)
  moreover have "aw_arb_id ?y = a" "\<not> contains naked_leg_sentinel (aw_recovery_notes ?y)"
    using x assms(2,3) by simp_all
  ultimately show ?thesis unfolding unbooked_def by blast
qed

lemma stub_unbooked: "unbooked a db \<Longrightarrow> unbooked a (record_arb_stub now b cid p e db)"
  by (auto simp: unbooked_def record_arb_stub_def)

lemma upsert_arb_unbooked: "unbooked a db \<Longrightarrow> unbooked a (upsert_arb now e db)"
  by (cases "arb_exists (ex_arb_id e) db")
     (simp add: upsert_arb_def update_arbs_unbooked, auto simp: upsert_arb_def unbooked_def)

lemma upsert_arb_orders [simp]: "db_orders (upsert_arb now e db) = db_orders db"
  by (simp add: upsert_arb_def)

lemma record_arb_keeps:
  assumes "store_record_arb now e md db = Some db'" "w \<in> set (db_orders db)"
    and "ord_id (ex_leg_yes e) \<noteq> ord_id (ow_order w)" "ord_id (ex_leg_no e) \<noteq> ord_id (ow_order w)"
  shows "w \<in> set (db_orders db')" "unbooked a db \<Longrightarrow> unbooked a db'"
proof -
  obtain d1 d2 where d: "upsert_order now (ex_leg_yes e) (Some (ex_arb_id e)) None (upsert_arb now e db) = Some d1"
    "upsert_order now (ex_leg_no e) (Some (ex_arb_id e)) None d1 = Some d2"
    "db' = (if md = [] then id else update_arb_analysis (ex_arb_id e) md 1) d2"
    using assms(1) by (auto simp: store_record_arb_def split: option.splits)
  have 1: "w \<in> set (db_orders d1)" "db_arbs d1 = db_arbs (upsert_arb now e db)"
    using upsert_order_keeps [OF d(1) assms(3)] assms(2) by simp_all
  have 2: "w \<in> set (db_orders d2)" "db_arbs d2 = db_arbs (upsert_arb now e db)"
    using upsert_order_keeps [OF d(2) assms(4) 1(1)] 1(2) by simp_all
  show "w \<in> set (db_orders db')" using 2(1) by (simp add: d(3) update_arb_analysis_def)
  assume "unbooked a db"
  then have "unbooked a d2" using upsert_arb_unbooked [of a db now e] 2(2) by (simp add: unbooked_def)
  then show "unbooked a db'" by (auto simp: d(3) update_arb_analysis_def intro!: update_arbs_unbooked)
qed

lemma stub_orders [simp]: "db_orders (record_arb_stub now a cid p e db) = db_orders db"
  by (simp add: record_arb_stub_def)

lemma no_exposure_unbooked:
  assumes "unbooked a db" "w \<in> set (db_orders db)" "ow_arb_id w = a"
  shows "unbooked a (fst (mark_no_exposure_failed now ids db))"
proof -
  have "orders_of a db \<noteq> []" using assms(2,3) by (auto simp: orders_of_def filter_empty_conv)
  then show ?thesis unfolding mark_no_exposure_failed_def Let_def fst_conv
    by (intro update_arbs_unbooked assms(1)) auto
qed

lemma incident_rows [simp]:
  "db_orders (insert_incident now i db) = db_orders db" "db_arbs (insert_incident now i db) = db_arbs db"
  "db_orders (fst (resolve_where now x P db)) = db_orders db" "db_arbs (fst (resolve_where now x P db)) = db_arbs db"
  by (simp_all add: insert_incident_def resolve_where_def)

lemma step_keeps:
  assumes "w \<in> set (db_orders db)" "\<not> writes_order (ord_id (ow_order w)) op"
  shows "w \<in> set (db_orders (db_step op db))"
  using assms
  by (cases op)
     (auto simp: or_same_def writes_order_def update_arb_analysis_def mark_naked_leg_reconciled_def
       mark_no_exposure_failed_def resolve_superseded_incidents_def resolve_half_recorded_incidents_def
       resolve_stale_incidents_def record_arb_stub_with_leg_def insert_fill_def Let_def
       split: option.split dest: upsert_order_keeps(1) record_arb_keeps(1))

lemma step_unbooked:
  assumes "unbooked (ow_arb_id w) db" "w \<in> set (db_orders db)" "\<not> writes_order (ord_id (ow_order w)) op"
    and "\<not> reconciles (ow_arb_id w) op"
  shows "unbooked (ow_arb_id w) (db_step op db)"
proof (cases op)
  case (DbOrder now r a c)
  show ?thesis
  proof (cases "upsert_order now r a c db")
    case None
    then show ?thesis using assms(1) by (simp add: DbOrder or_same_def)
  next
    case (Some db')
    have "db_arbs db' = db_arbs db"
      by (rule upsert_order_keeps(2) [OF Some _ assms(2)]) (use assms(3) DbOrder in \<open>simp add: writes_order_def\<close>)
    then show ?thesis using assms(1) Some by (simp add: DbOrder or_same_def unbooked_def)
  qed
next
  case (DbStubWithLeg now a cid r p e c)
  let ?db = "record_arb_stub now a cid p e db"
  have u: "unbooked (ow_arb_id w) ?db" by (rule stub_unbooked [OF assms(1)])
  have neq: "ord_id r \<noteq> ord_id (ow_order w)" using assms(3) DbStubWithLeg by (simp add: writes_order_def)
  show ?thesis
  proof (cases "upsert_order now r (Some a) c ?db")
    case None
    then show ?thesis using assms(1) by (simp add: DbStubWithLeg or_same_def record_arb_stub_with_leg_def)
  next
    case (Some db')
    have "db_arbs db' = db_arbs ?db" by (rule upsert_order_keeps(2) [OF Some neq]) (simp add: assms(2))
    then show ?thesis using u Some by (simp add: DbStubWithLeg or_same_def record_arb_stub_with_leg_def unbooked_def)
  qed
next
  case (DbArb now e md)
  with assms show ?thesis
    by (auto simp: or_same_def writes_order_def split: option.split dest: record_arb_keeps(2))
next
  case (DbReconciled now a x remark)
  with assms show ?thesis
    by (auto simp: reconciles_def mark_naked_leg_reconciled_def Let_def intro!: update_arbs_unbooked)
next
  case (DbNoExposure now ids)
  with assms show ?thesis using no_exposure_unbooked by simp
next
  case (DbAnalysis a md v)
  with assms show ?thesis by (auto simp: update_arb_analysis_def intro!: update_arbs_unbooked)
next
  case (DbStub now a cid p e)
  with assms show ?thesis by (simp add: stub_unbooked)
qed (use assms in \<open>auto simp: or_same_def insert_fill_def Let_def unbooked_def
       resolve_superseded_incidents_def resolve_half_recorded_incidents_def resolve_stale_incidents_def\<close>)

text \<open>
  C17. A naked leg stays on the list of half-recorded arbs: once an arb that is not marked as reconciled has a leg
  row the query counts as filled and one it does not, it is listed with a filled leg after every run of the writing
  methods of the store class that neither writes those two rows nor marks the arb as reconciled.  The query counts a
  row as filled when its status is FILLED or SIMULATED with a positive fill (or a ForecastEx row FILLED without
  one); a cancelled or partial row with a fill is not counted.
\<close>

theorem naked_arb_stays_listed:
  assumes "naked a w v db"
    and "\<forall>op \<in> set ops. \<not> writes_order (ord_id (ow_order w)) op \<and> \<not> writes_order (ord_id (ow_order v)) op
           \<and> \<not> reconciles a op"
  shows "\<exists>h \<in> set (list_half_recorded_arbs (fold db_step ops db)). hf_arb_id h = a \<and> 0 < hf_filled_leg_count h"
proof -
  have "naked a w v (fold db_step ops db)"
    using assms
  proof (induction ops arbitrary: db)
    case (Cons op ops)
    then have "naked a w v (db_step op db)" using step_keeps step_unbooked by (auto simp: naked_alt)
    with Cons show ?case by simp
  qed simp
  then show ?thesis by (rule naked_listed)
qed

section \<open>What is recorded comes back\<close>

definition stored_leg :: "flt \<Rightarrow> order \<Rightarrow> order" where
  "stored_leg now r = ow_order (new_row now r [] None)"

lemma stored_leg_row: "ow_order (new_row now r a c) = stored_leg now r"
  by (simp add: stored_leg_def new_row_def)

lemma stored_leg_side [simp]: "side_of_row (stored_leg now r) = side_of_row r"
  by (simp add: side_of_row_def stored_leg_def new_row_def Let_def)

text \<open>The columns are exact for prices of four decimals, and close to the others.\<close>

lemma pg_round_error: "\<bar>pg_round n x - x\<bar> \<le> 1 / (2 * 10 ^ n)"
proof -
  define t where "t = \<bar>x\<bar> * 10 ^ n"
  have "\<bar>of_int \<lfloor>t + 1/2\<rfloor> - t\<bar> \<le> 1/2" by linarith
  then have "\<bar>(of_int \<lfloor>t + 1/2\<rfloor> - t) / 10 ^ n\<bar> \<le> (1/2) / \<bar>10 ^ n\<bar>"
    by (simp only: abs_divide) (rule divide_right_mono [OF _ abs_ge_zero])
  moreover have "(of_int \<lfloor>t + 1/2\<rfloor> - t) / 10 ^ n = of_int \<lfloor>t + 1/2\<rfloor> / 10 ^ n - \<bar>x\<bar>"
    by (simp add: t_def diff_divide_distrib)
  ultimately have "\<bar>of_int \<lfloor>t + 1/2\<rfloor> / 10 ^ n - \<bar>x\<bar>\<bar> \<le> 1 / (2 * 10 ^ n)" by simp
  then show ?thesis by (auto simp: pg_round_def Let_def t_def abs_if split: if_splits)
qed

definition fresh_arb :: "arb_execution \<Rightarrow> exec_db \<Rightarrow> bool" where
  "fresh_arb e db =
     (ex_arb_id e \<noteq> [] \<and> ex_status e \<noteq> [] \<and> \<not> arb_exists (ex_arb_id e) db
      \<and> \<not> order_exists (ord_id (ex_leg_yes e)) db \<and> \<not> order_exists (ord_id (ex_leg_no e)) db
      \<and> ord_id (ex_leg_yes e) \<noteq> ord_id (ex_leg_no e)
      \<and> side_of_row (ex_leg_yes e) = YesLeg \<and> side_of_row (ex_leg_no e) = NoLeg)"

definition recorded_row :: "flt \<Rightarrow> arb_execution \<Rightarrow> arb_row" where
  "recorded_row now e =
     (stub_row now (ex_arb_id e) (opp_canonical_id (ex_opportunity e)) (Some (ex_opportunity e))
        (Some (opp_net_edge (ex_opportunity e))))
     \<lparr> aw_status := ex_status e, aw_realized_pnl := pg_round 4 (ex_realized_pnl e),
       aw_unwind_pnl := pg_round 4 (ex_unwind_pnl e), aw_is_simulation := (ex_status e = ''simulated'') \<rparr>"

lemma upsert_fresh:
  assumes "\<not> order_exists (ord_id r) db" "arb_exists a db" "a \<noteq> []"
  shows "upsert_order now r (Some a) None db = Some (db\<lparr>db_orders := db_orders db @ [new_row now r a None]\<rparr>)"
  using assms by (simp add: upsert_order_def upsert_row_def client_id_taken_def)

lemma record_fresh:
  fixes now e db
  assumes "fresh_arb e db"
  defines "d \<equiv> db\<lparr>db_arbs := db_arbs db @ [recorded_row now e],
      db_orders := db_orders db @ [new_row now (ex_leg_yes e) (ex_arb_id e) None, new_row now (ex_leg_no e) (ex_arb_id e) None]\<rparr>"
  shows "store_record_arb now e md db = Some (if md = [] then d else update_arb_analysis (ex_arb_id e) md 1 d)"
proof -
  let ?a = "ex_arb_id e" and ?y = "ex_leg_yes e" and ?n = "ex_leg_no e"
  have up: "upsert_arb now e db = db\<lparr>db_arbs := db_arbs db @ [recorded_row now e]\<rparr>" (is "_ = ?d0")
    using assms(1) by (simp add: upsert_arb_def fresh_arb_def recorded_row_def)
  have ex: "arb_exists ?a ?d0" by (simp add: arb_exists_def recorded_row_def stub_row_def)
  have y: "upsert_order now ?y (Some ?a) None ?d0 = Some (?d0\<lparr>db_orders := db_orders ?d0 @ [new_row now ?y ?a None]\<rparr>)"
    (is "_ = Some ?d1")
    using assms(1) ex by (intro upsert_fresh) (auto simp: fresh_arb_def order_exists_def)
  have n: "upsert_order now ?n (Some ?a) None ?d1 = Some (?d1\<lparr>db_orders := db_orders ?d1 @ [new_row now ?n ?a None]\<rparr>)"
    using assms(1) ex by (intro upsert_fresh) (auto simp: fresh_arb_def order_exists_def arb_exists_def)
  show ?thesis unfolding store_record_arb_def up y option.case n by (simp add: d_def)
qed

lemma submission_same: "\<forall>w \<in> set ws. ord_timestamp (ow_order w) = t \<Longrightarrow> by_submission ws = ws"
  unfolding by_submission_def by (rule sort_key_id_if_sorted) (induction ws; simp)

text \<open>
  C16. An execution that is recorded under fresh ids is stored whole, and the history loaded from the tables
  has it again: its status, its profits and the fills of both legs, up to the four decimals of the columns.
\<close>

theorem recorded_arb_comes_back:
  assumes "db_ok db" and "fresh_arb e db"
  shows "\<exists>db' x. store_record_arb now e md db = Some db' \<and> x \<in> set (load_history None db')
     \<and> ex_arb_id x = ex_arb_id e \<and> ex_status x = ex_status e
     \<and> ex_realized_pnl x = pg_round 4 (ex_realized_pnl e) \<and> ex_unwind_pnl x = pg_round 4 (ex_unwind_pnl e)
     \<and> ex_opportunity x = history_opportunity (opp_to_dict (ex_opportunity e))
     \<and> ex_leg_yes x = stored_leg now (ex_leg_yes e) \<and> ex_leg_no x = stored_leg now (ex_leg_no e)"
proof -
  let ?a = "ex_arb_id e" and ?rows = "[new_row now (ex_leg_yes e) (ex_arb_id e) None, new_row now (ex_leg_no e) (ex_arb_id e) None]"
  define d where "d = db\<lparr>db_arbs := db_arbs db @ [recorded_row now e], db_orders := db_orders db @ ?rows\<rparr>"
  define d' where "d' = (if md = [] then d else update_arb_analysis ?a md 1 d)"
  have rec: "store_record_arb now e md db = Some d'" unfolding d'_def d_def by (rule record_fresh [OF assms(2)])
  have "orders_of ?a db = []" using assms by (auto simp: db_ok_def fresh_arb_def orders_of_def filter_empty_conv)
  then have rows: "orders_of ?a d' = ?rows"
    by (simp add: orders_of_def d'_def d_def update_arb_analysis_def)
  have order: "by_submission ?rows = ?rows" by (rule submission_same [of _ now]) (simp add: new_row_def)
  define row where "row = (if md = [] then recorded_row now e
      else (recorded_row now e)\<lparr>aw_analysis_md := md, aw_analysis_version := 1\<rparr>)"
  have row_in: "row \<in> set (db_arbs d')"
    by (auto simp: row_def d'_def d_def update_arb_analysis_def update_arbs_def recorded_row_def stub_row_def)
  have f: "aw_arb_id row = ?a" "aw_status row = ex_status e" "aw_realized_pnl row = pg_round 4 (ex_realized_pnl e)"
    "aw_unwind_pnl row = pg_round 4 (ex_unwind_pnl e)" "aw_opportunity row = Some (opp_to_dict (ex_opportunity e))"
    by (simp_all add: row_def recorded_row_def stub_row_def)
  have legs: "last_leg YesLeg (map ow_order ?rows) = Some (stored_leg now (ex_leg_yes e))"
    "last_leg NoLeg (map ow_order ?rows) = Some (stored_leg now (ex_leg_no e))"
    using assms(2) by (simp_all add: last_leg_def fresh_arb_def stored_leg_row)
  obtain x where x: "rehydrate_arb (map ow_order (by_submission (orders_of (aw_arb_id row) d'))) row = Some x"
    by (simp add: rehydrate_arb_def f)
  have "x \<in> set (load_history None d')"
    using row_in x by (auto simp: load_history_def set_map_filter_some Let_def intro!: image_eqI [of _ _ row])
  moreover have "ex_arb_id x = ?a" "ex_status x = ex_status e" "ex_realized_pnl x = pg_round 4 (ex_realized_pnl e)"
    "ex_unwind_pnl x = pg_round 4 (ex_unwind_pnl e)"
    "ex_opportunity x = history_opportunity (opp_to_dict (ex_opportunity e))"
    "ex_leg_yes x = stored_leg now (ex_leg_yes e)" "ex_leg_no x = stored_leg now (ex_leg_no e)"
    using x assms(2) by (auto simp: rehydrate_arb_def f rows order legs or_str_def fresh_arb_def simp del: list.map)
  ultimately show ?thesis using rec by blast
qed

section \<open>A recorded demo\<close>

definition demo_row_leg :: "string \<Rightarrow> order_status \<Rightarrow> int \<Rightarrow> order" where
  "demo_row_leg side st fills =
     \<lparr> ord_id = ''ARB-000001-'' @ side @ ''-1'', ord_platform = ''kalshi'', ord_market_id = ''K1'',
       ord_canonical_id = ''M1'', ord_side = side, ord_price = 2/5, ord_quantity = 10, ord_status = st,
       ord_fill_price = 2/5, ord_fill_qty = fills, ord_timestamp = 5, ord_error = [],
       ord_external_client_order_id = None, ord_idempotency_ambiguous = False \<rparr>"

definition demo_stored :: arb_execution where
  "demo_stored =
     \<lparr> ex_arb_id = ''ARB-000001'', ex_opportunity = demo_opp, ex_leg_yes = demo_row_leg ''yes'' FILLED 10,
       ex_leg_no = demo_row_leg ''no'' FAILED 0, ex_status = ''recovering'', ex_realized_pnl = 0,
       ex_unwind_pnl = 0, ex_timestamp = 5, ex_notes = [] \<rparr>"

definition demo_stored_row :: "string \<Rightarrow> order_status \<Rightarrow> int \<Rightarrow> order_row" where
  "demo_stored_row side st fills = new_row 5 (demo_row_leg side st fills) ''ARB-000001'' None"

definition demo_db :: exec_db where
  "demo_db = empty_db\<lparr> db_arbs := [recorded_row 5 demo_stored],
     db_orders := [demo_stored_row ''yes'' FILLED 10, demo_stored_row ''no'' FAILED 0] \<rparr>"

lemma demo_fresh: "fresh_arb demo_stored empty_db"
  by code_simp

lemma demo_empty_ok: "db_ok empty_db"
  by (simp add: db_ok_def empty_db_def List.map_filter_simps)

theorem recorded_arb_comes_back_witness:
  "\<exists>db' x. store_record_arb 5 demo_stored ''fine'' empty_db = Some db' \<and> x \<in> set (load_history None db')
     \<and> ex_arb_id x = ''ARB-000001'' \<and> ex_status x = ''recovering'' \<and> ord_fill_qty (ex_leg_yes x) = 10"
proof -
  have "ord_fill_qty (stored_leg 5 (ex_leg_yes demo_stored)) = 10"
    "ex_arb_id demo_stored = ''ARB-000001''" "ex_status demo_stored = ''recovering''"
    by (simp_all add: stored_leg_def new_row_def demo_stored_def demo_row_leg_def)
  then show ?thesis
    using recorded_arb_comes_back [OF demo_empty_ok demo_fresh, of 5 "''fine''"] by metis
qed

text \<open>The half-filled arb of the demo stays on the list while a stub, an alert and another order come.\<close>

lemma demo_db_naked: "naked ''ARB-000001'' (demo_stored_row ''yes'' FILLED 10) (demo_stored_row ''no'' FAILED 0) demo_db"
  by (simp add: naked_def demo_db_def demo_stored_row_def new_row_def demo_row_leg_def exposed_leg_def
        effective_fill_qty_def zero_qty_filled_def recorded_row_def stub_row_def demo_stored_def)
     (simp add: naked_leg_sentinel_def contains_def)

definition demo_db_ops :: "db_op list" where
  "demo_db_ops =
     [DbStub 6 ''ARB-000002'' ''M2'' None None, DbNoExposure 7 [''ARB-000001'', ''ARB-000002''],
      DbOrder 8 ((demo_row_leg ''yes'' CANCELLED 0)\<lparr>ord_id := ''ARB-000001-YES-UNWIND''\<rparr>) None None,
      DbResolveStale 9 []]"

theorem naked_arb_stays_listed_witness:
  "\<exists>h \<in> set (list_half_recorded_arbs (fold db_step demo_db_ops demo_db)).
     hf_arb_id h = ''ARB-000001'' \<and> 0 < hf_filled_leg_count h"
  by (rule naked_arb_stays_listed [OF demo_db_naked])
     (simp add: demo_db_ops_def writes_order_def reconciles_def demo_stored_row_def new_row_def demo_row_leg_def)

text \<open>A row without a stored opportunity never comes back, whatever it earned.\<close>

lemma bare_stub_not_loaded:
  "aw_opportunity a = None \<Longrightarrow> rehydrate_arb legs a = None"
  by (simp add: rehydrate_arb_def)

lemma stub_opportunity_stays:
  assumes "\<not> arb_exists (ex_arb_id e) db" "ex_arb_id e = b"
  shows "\<exists>a \<in> set (db_arbs (upsert_arb now e (record_arb_stub now b cid None None db))).
     aw_arb_id a = b \<and> aw_opportunity a = None \<and> aw_status a = ex_status e"
  using assms by (auto simp: record_arb_stub_def upsert_arb_def update_arbs_def arb_exists_def stub_row_def)

text \<open>A cancelled arb without orders is listed, with one unfilled leg that does not exist.\<close>

lemma bare_stub_listed:
  "map (\<lambda>h. (hf_leg_count h, hf_unfilled_leg_count h))
     (list_half_recorded_arbs (empty_db\<lparr>db_arbs := [(stub_row 0 ''A'' ''M'' None None)\<lparr>aw_status := ''cancelled''\<rparr>]\<rparr>))
   = [(0, 1)]"
  by code_simp

text \<open>Two spellings of one side: only one of the two lots is reported.\<close>

lemma mixed_case_lots_lost:
  "map snd (paired_inventory_by_market
     (demo_db\<lparr>db_arbs := [(recorded_row 5 demo_stored)\<lparr>aw_status := ''filled''\<rparr>],
        db_orders := [demo_stored_row ''yes'' FILLED 10,
          new_row 5 ((demo_row_leg ''YES'' FILLED 4)\<lparr>ord_id := ''ARB-000001-YES-2''\<rparr>) ''ARB-000001'' None]\<rparr>)) = [4]"
  by code_simp

text \<open>The two profits of the dashboard sum up to what is booked, to the cent.\<close>

lemma sum_split:
  "sum_list (map f (filter P xs)) + sum_list (map f (filter (\<lambda>x. \<not> P x) xs)) = (sum_list (map f xs) :: flt)"
  by (induction xs) auto

lemma split_conserves_pnl:
  "\<bar>fst (realized_pnl_split db) + snd (realized_pnl_split db) - sum_list (map booked_pnl (db_arbs db))\<bar> \<le> 1/100"
proof -
  let ?p = "\<lambda>P. sum_list (map booked_pnl (filter P (db_arbs db)))" and ?c = "\<lambda>a. cash_status (aw_status a)"
  have close: "\<bar>x' + y' - s\<bar> \<le> 1/100" if "\<bar>x' - x\<bar> \<le> 1/200" "\<bar>y' - y\<bar> \<le> 1/200" "x + y = s" for x x' y y' s :: flt
    using that by linarith
  show ?thesis unfolding realized_pnl_split_def fst_conv snd_conv
    by (rule close [OF _ _ sum_split]) (use round_nd_error [of 2] in simp_all)
qed

end
