(* ===== verification/Startup_Recovery.thy ===== *)
theory Startup_Recovery
  imports Manual_Flow Execution_Store
begin

text \<open>
  What a start and the poller do about trades a crash left behind: \<open>reconcile_non_terminal_orders\<close> and
  \<open>reconcile_half_recorded_arbs\<close> of \<open>execution/recovery.py\<close>, the poller of
  \<open>execution/stuck_trade_recovery.py\<close>, and the part of \<open>main.py\<close> that runs them and loads history and
  incidents into the engine.  Which statements of the store go through is an argument.
\<close>

section \<open>Asking a venue\<close>

text \<open>
  An adapter may change the order it is given and answer with that same object, answer with another one,
  or raise, with the order as it left it.  The adapters of the program all answer with the object they
  were given.
\<close>

datatype venue_answer = SameOrder order | OtherOrder order | AskFailed order string

record recovery_env =
  rv_now :: flt
  rv_get :: "string \<Rightarrow> (order \<Rightarrow> venue_answer) option"
  rv_lists :: bool
  rv_writes :: "order \<Rightarrow> bool"
  rv_marks :: bool
  rv_clears :: bool
  rv_stales :: bool
  rv_supersedes :: bool
  rv_alerts :: "string \<Rightarrow> bool"
  rv_persists :: "string \<Rightarrow> bool"

text \<open>\<open>None\<close> is an \<open>upsert_order\<close> that raises.\<close>

definition store_order :: "recovery_env \<Rightarrow> order \<Rightarrow> string \<Rightarrow> exec_db \<Rightarrow> exec_db option" where
  "store_order env r a db = (if rv_writes env r then upsert_order (rv_now env) r (Some a) None db else None)"

definition recovery_arb_id :: "string \<Rightarrow> string" where
  "recovery_arb_id oid = (case derive_arb_id oid of None \<Rightarrow> oid | Some a \<Rightarrow> a)"

definition abort_placeholder :: "order \<Rightarrow> order" where
  "abort_placeholder r =
     r\<lparr> ord_status := ABORTED,
        ord_error := (if ord_error r = [] then [] else ord_error r @ ''; '')
                     @ ''local synthetic placeholder; never submitted to venue'' \<rparr>"

definition venue_not_found :: "order \<Rightarrow> bool" where
  "venue_not_found r = (ord_status r = FAILED \<and> contains ''not found'' (py_lower (ord_error r)))"

section \<open>Open orders at a start\<close>

text \<open>One order: the orphan it is, if it is one, and the store afterwards.\<close>

definition reconcile_order :: "recovery_env \<Rightarrow> order \<Rightarrow> exec_db \<Rightarrow> order option \<times> exec_db" where
  "reconcile_order env r db =
     (let save = (\<lambda>held x. or_same db (store_order env x (recovery_arb_id (ord_id held)) db))
      in if is_synthetic_placeholder (ord_id r) then (None, save r (abort_placeholder r))
         else case rv_get env (ord_platform r) of
           None \<Rightarrow> (None, db)
         | Some get \<Rightarrow>
             (case get r of
                AskFailed held err \<Rightarrow>
                  let x = held\<lparr>ord_status := FAILED, ord_error := ''orphaned on restart: '' @ err\<rparr>
                  in (Some x, save held x)
              | SameOrder x \<Rightarrow> if venue_not_found x then (Some x, save x x) else (None, db)
              | OtherOrder x \<Rightarrow>
                  if venue_not_found x then (Some x, save r x)
                  else (None, if ord_status x \<noteq> ord_status r then save r x else db)))"

fun reconcile_orders :: "recovery_env \<Rightarrow> order list \<Rightarrow> exec_db \<Rightarrow> order list \<times> exec_db" where
  "reconcile_orders env [] db = ([], db)"
| "reconcile_orders env (r # rs) db =
     (let (found, db1) = reconcile_order env r db; (more, db2) = reconcile_orders env rs db1
      in ((case found of None \<Rightarrow> more | Some x \<Rightarrow> x # more), db2))"

text \<open>\<open>None\<close> is the \<open>RecoveryInitError\<close>.\<close>

definition reconcile_non_terminal_orders :: "recovery_env \<Rightarrow> exec_db \<Rightarrow> (order list \<times> exec_db) option" where
  "reconcile_non_terminal_orders env db =
     (if rv_lists env then Some (reconcile_orders env (list_non_terminal_orders db) db) else None)"

section \<open>Half-recorded arbs at a start\<close>

definition no_exposure_stub :: "half_recorded \<Rightarrow> bool" where
  "no_exposure_stub h =
     (hf_leg_count h = 0 \<and> hf_filled_leg_count h = 0 \<and> \<bar>hf_filled_notional h\<bar> < 1 / 10000)"

definition half_recorded_incident :: "flt \<Rightarrow> half_recorded \<Rightarrow> incident" where
  "half_recorded_incident now h =
     \<lparr> inc_id = half_recorded_incident_id (hf_arb_id h), inc_arb_id = hf_arb_id h,
       inc_canonical_id = hf_canonical_id h, inc_severity = ''critical'',
       inc_message = (''Half-recorded arb '' @ hf_arb_id h @ '': only {} leg(s) persisted. Engine crashed or an ''
         @ ''exception escaped between primary fill and secondary order construction. Check the venue for an ''
         @ ''unmatched fill and reconcile manually.'', [of_int (hf_leg_count h)]),
       inc_timestamp = now,
       inc_metadata = [(''event_type'', MText ''half_recorded_arb''), (''arb_id'', MText (hf_arb_id h)),
         (''leg_count'', MInt (hf_leg_count h)), (''filled_leg_count'', MInt (hf_filled_leg_count h)),
         (''zero_qty_filled_leg_count'', MInt (hf_zero_qty_filled_leg_count h)),
         (''filled_notional'', MNum (hf_filled_notional h)), (''leg_order_ids'', MNested),
         (''stuck_status'', MText (hf_status h))],
       inc_status = ''open'', inc_resolved_at = 0, inc_resolution_note = [] \<rparr>"

definition given_ids :: "half_recorded list \<Rightarrow> string list" where
  "given_ids hs = filter (\<lambda>a. a \<noteq> []) (map hf_arb_id hs)"

definition close_stubs :: "recovery_env \<Rightarrow> half_recorded list \<Rightarrow> exec_db \<Rightarrow> half_recorded list \<times> exec_db" where
  "close_stubs env orphans db =
     (let ids = given_ids (filter no_exposure_stub orphans)
      in if filter no_exposure_stub orphans = [] \<or> \<not> rv_marks env then (orphans, db)
         else let db1 = fst (mark_no_exposure_failed (rv_now env) ids db)
              in if \<not> rv_clears env then (orphans, db1)
                 else (filter (\<lambda>h. hf_arb_id h \<notin> set ids) orphans,
                       fst (resolve_half_recorded_incidents (rv_now env) ids
                         ''Auto-resolved: half-recorded arb had zero persisted orders and zero filled notional.'' db1)))"

definition raise_alert :: "recovery_env \<Rightarrow> half_recorded \<Rightarrow> exec_db \<Rightarrow> exec_db" where
  "raise_alert env h db =
     (if rv_alerts env (hf_arb_id h)
      then insert_incident (rv_now env) (half_recorded_incident (rv_now env) h) db else db)"

definition reconcile_half_recorded_arbs :: "recovery_env \<Rightarrow> exec_db \<Rightarrow> (half_recorded list \<times> exec_db) option" where
  "reconcile_half_recorded_arbs env db =
     (if \<not> rv_lists env then None
      else if list_half_recorded_arbs db = [] then Some ([], db)
      else let (blockers, db1) = close_stubs env (list_half_recorded_arbs db) db;
               ids = given_ids blockers;
               db2 = (if rv_stales env then fst (resolve_stale_incidents (rv_now env) ids db1) else db1)
           in if blockers = [] then Some ([], db2)
              else let db3 = (if rv_supersedes env
                              then fst (resolve_superseded_incidents (rv_now env) ids db2) else db2)
                   in Some (blockers, fold (raise_alert env) blockers db3))"

section \<open>Stuck trades\<close>

definition open_arb_status :: "string \<Rightarrow> bool" where
  "open_arb_status st = (st \<notin> {''filled'', ''failed'', ''simulated'', ''cancelled'', ''closed''})"

definition terminal_leg :: "order_status \<Rightarrow> bool" where
  "terminal_leg st = (st \<in> {FILLED, CANCELLED, FAILED, ABORTED, SIMULATED})"

definition stuck :: "flt \<Rightarrow> flt \<Rightarrow> arb_row \<Rightarrow> bool" where
  "stuck now max_age a = (open_arb_status (aw_status a) \<and> max max_age 0 \<le> now - aw_created_at a)"

definition list_stuck_arbs :: "flt \<Rightarrow> flt \<Rightarrow> exec_db \<Rightarrow> (arb_row \<times> order list) list" where
  "list_stuck_arbs now max_age db =
     map (\<lambda>a. (a, map ow_order (orders_of (aw_arb_id a) db)))
       (filter (stuck now max_age) (sort_key aw_created_at (db_arbs db)))"

text \<open>A leg that was filled with no contracts counts as failed.\<close>

definition effective_status :: "order \<Rightarrow> order_status" where
  "effective_status r = (if ord_status r = FILLED \<and> ord_fill_qty r \<le> 0 then FAILED else ord_status r)"

definition derive_arb_status :: "order list \<Rightarrow> string" where
  "derive_arb_status legs =
     (let states = map effective_status legs; filled = length (filter (\<lambda>s. s = FILLED) states)
      in if length states < 2
         then if filled \<noteq> 0 then [] else if states \<noteq> [] \<and> list_all terminal_leg states then ''failed'' else []
         else if list_ex (\<lambda>s. \<not> terminal_leg s) states then []
         else if filled = length states \<and> 0 < filled then ''filled''
         else if filled = 0 then ''failed''
         else if FILLED \<in> set states then ''recovering'' else ''failed'')"

text \<open>The order the venue reports, the caller's order afterwards, and the note on it.\<close>

definition query_leg_state :: "recovery_env \<Rightarrow> order \<Rightarrow> order \<times> order \<times> string" where
  "query_leg_state env r =
     (if is_synthetic_placeholder (ord_id r)
      then if terminal_leg (ord_status r) then (r, r, ''local synthetic placeholder; no venue lookup'')
           else (abort_placeholder r, abort_placeholder r,
                 ''local synthetic placeholder terminalized without venue lookup'')
      else case rv_get env (ord_platform r) of
        None \<Rightarrow> (r, r, ''no adapter for platform='' @ ord_platform r)
      | Some get \<Rightarrow>
          (case get r of
             AskFailed held err \<Rightarrow>
               (let x = held\<lparr>ord_status := FAILED, ord_error := ''orphaned during recovery: '' @ err\<rparr>
                in (x, x, ''get_order raised: '' @ err))
           | SameOrder x \<Rightarrow> (x, x, if venue_not_found x then ''venue reports order not found'' else ''no change'')
           | OtherOrder x \<Rightarrow>
               (x, r, if venue_not_found x then ''venue reports order not found''
                      else if ord_status x = ord_status r then ''no change''
                      else status_text (ord_status r) @ '' -> '' @ status_text (ord_status x))))"

record leg_update =
  lu_order_id :: string
  lu_platform :: string
  lu_side :: string
  lu_old_status :: string
  lu_new_status :: string
  lu_note :: string

record stuck_outcome =
  so_arb_id :: string
  so_canonical_id :: string
  so_original_status :: string
  so_new_status :: string
  so_age_seconds :: flt
  so_leg_updates :: "leg_update list"
  so_error :: string

record stuck_stats =
  ss_runs :: int
  ss_last_run_ts :: flt
  ss_last_duration_s :: flt
  ss_inspected_last_run :: int
  ss_updated_last_run :: int
  ss_errors_last_run :: int
  ss_total_updated :: int
  ss_total_errors :: int

definition right_part :: "nat \<Rightarrow> string \<Rightarrow> string" where
  "right_part n xs = drop (length xs - n) xs"

definition notes_cap :: nat where
  "notes_cap = 65536"

text \<open>\<open>_persist_outcome\<close>; the line of a note is the time and its body.\<close>

definition persist_outcome :: "flt \<Rightarrow> string \<Rightarrow> string \<Rightarrow> string \<Rightarrow> exec_db \<Rightarrow> exec_db" where
  "persist_outcome now arb_id new_status body db =
     (let line = ''[{}] '' @ body;
          added = (\<lambda>old. right_part notes_cap (old @ newline @ line))
      in update_arbs (\<lambda>a. aw_arb_id a = arb_id)
           (\<lambda>a. if new_status \<noteq> []
                then a\<lparr> aw_status := new_status, aw_last_checked_at := Some now, aw_updated_at := now,
                        aw_closed_at := (if \<not> open_arb_status new_status then coalesce (aw_closed_at a) now
                                         else aw_closed_at a),
                        aw_recovery_notes := (if aw_recovery_notes a = [] then line
                                              else added (aw_recovery_notes a)) \<rparr>
                else a\<lparr> aw_last_checked_at := Some now,
                        aw_recovery_notes :=
                          (if aw_recovery_notes a = [] then line
                           else if right_part (length body) (aw_recovery_notes a) = body then aw_recovery_notes a
                           else added (aw_recovery_notes a)) \<rparr>) db)"

text \<open>The legs of one arb: the orders as reported, the updates, the failed writes.\<close>

definition check_leg ::
  "recovery_env \<Rightarrow> string \<Rightarrow> order \<Rightarrow> (order \<times> leg_update) list \<times> int \<times> exec_db
   \<Rightarrow> (order \<times> leg_update) list \<times> int \<times> exec_db" where
  "check_leg env arb_id r st =
     (let (seen, failures, db) = st;
          (x, held, body) = query_leg_state env r;
          u = \<lparr> lu_order_id = ord_id held, lu_platform = ord_platform held, lu_side = ord_side held,
                lu_old_status = status_text (ord_status r), lu_new_status = status_text (ord_status x),
                lu_note = body \<rparr>
      in if ord_status x = ord_status r then (seen @ [(x, u)], failures, db)
         else case store_order env x arb_id db of
             None \<Rightarrow> (seen @ [(x, u)], failures + 1, db)
           | Some db' \<Rightarrow> (seen @ [(x, u)], failures, db'))"

definition join_comma :: "string list \<Rightarrow> string" where
  "join_comma xs = foldr (\<lambda>x acc. if acc = [] then x else x @ '','' @ acc) xs []"

definition changed_status :: "string \<Rightarrow> string \<Rightarrow> string" where
  "changed_status original derived = (if derived \<noteq> original then derived else [])"

definition recovery_note :: "string \<Rightarrow> string \<Rightarrow> order list \<Rightarrow> string" where
  "recovery_note original derived legs =
     ''recovery_check: original='' @ original @ '' derived='' @ or_str derived ''unchanged''
     @ '' legs='' @ or_str (join_comma (map (status_text \<circ> ord_status) legs)) ''none''"

text \<open>One arb: its outcome, how many it updated and how many writes failed, and the store.\<close>

definition recover_arb ::
  "recovery_env \<Rightarrow> arb_row \<times> order list \<Rightarrow> exec_db \<Rightarrow> stuck_outcome \<times> int \<times> int \<times> exec_db" where
  "recover_arb env stuck_arb db =
     (let (a, legs) = stuck_arb;
          (seen, failures, db1) = fold (check_leg env (aw_arb_id a)) legs ([], 0, db);
          derived = derive_arb_status (map fst seen);
          changed = changed_status (aw_status a) derived;
          outcome = \<lparr> so_arb_id = aw_arb_id a, so_canonical_id = aw_canonical_id a,
                      so_original_status = aw_status a, so_new_status = or_str derived (aw_status a),
                      so_age_seconds = rv_now env - aw_created_at a, so_leg_updates = map snd seen,
                      so_error = (if failures = 0 then [] else ''upsert_order failed: {}'') \<rparr>
      in if rv_persists env (aw_arb_id a)
         then (outcome, (if changed \<noteq> [] then 1 else 0), failures,
               persist_outcome (rv_now env) (aw_arb_id a) changed
                 (recovery_note (aw_status a) derived (map fst seen)) db1)
         else (outcome\<lparr>so_error := ''recovery raised: {}''\<rparr>, 0, failures + 1, db1))"

fun recover_arbs ::
  "recovery_env \<Rightarrow> (arb_row \<times> order list) list \<Rightarrow> exec_db \<Rightarrow> stuck_outcome list \<times> int \<times> int \<times> exec_db" where
  "recover_arbs env [] db = ([], 0, 0, db)"
| "recover_arbs env (x # xs) db =
     (let (o1, u, e, db1) = recover_arb env x db; (os, us, es, db2) = recover_arbs env xs db1
      in (o1 # os, u + us, e + es, db2))"

text \<open>\<open>finish\<close> is the clock at the end of the run.\<close>

definition recover_stuck_trades ::
  "recovery_env \<Rightarrow> flt \<Rightarrow> flt \<Rightarrow> stuck_stats \<Rightarrow> exec_db \<Rightarrow> stuck_outcome list \<times> stuck_stats \<times> exec_db" where
  "recover_stuck_trades env max_age finish ss db =
     (let ss1 = ss\<lparr> ss_runs := ss_runs ss + 1, ss_last_run_ts := rv_now env,
                    ss_last_duration_s := finish - rv_now env \<rparr>
      in if \<not> rv_lists env
         then ([], ss1\<lparr>ss_errors_last_run := 1, ss_total_errors := ss_total_errors ss + 1\<rparr>, db)
         else let (os, us, es, db') = recover_arbs env (list_stuck_arbs (rv_now env) max_age db) db
              in (os, ss1\<lparr> ss_inspected_last_run := int (length os), ss_updated_last_run := us,
                           ss_errors_last_run := es, ss_total_updated := ss_total_updated ss + us,
                           ss_total_errors := ss_total_errors ss + es \<rparr>, db'))"

section \<open>What a start puts into the engine\<close>

definition first_two_parts :: "string \<Rightarrow> string" where
  "first_two_parts oid =
     (let one = takeWhile (\<lambda>c. c \<noteq> CHR ''-'') oid; rest = drop (length one) oid
      in if rest = [] then oid else one @ ''-'' @ takeWhile (\<lambda>c. c \<noteq> CHR ''-'') (tl rest))"

definition report_orphan :: "(string \<Rightarrow> exec_env) \<Rightarrow> order \<Rightarrow> engine \<Rightarrow> engine" where
  "report_orphan xenv r en =
     record_incident (xenv (ord_id r)) (first_two_parts (ord_id r)) (ord_canonical_id r) ''warning''
       (''Orphaned order on restart: '' @ ord_id r, [])
       [(''platform'', MText (ord_platform r)), (''error'', MText (ord_error r))] en"

definition half_recorded_summary :: "flt \<Rightarrow> half_recorded list \<Rightarrow> incident" where
  "half_recorded_summary now hs =
     \<lparr> inc_id = ''INC-HALF-RECORDED-SUMMARY'', inc_arb_id = ''MULTIPLE'', inc_canonical_id = ''HALF_RECORDED_ARBS'',
       inc_severity = ''critical'',
       inc_message = (''{} half-recorded arb(s) remain unresolved after startup recovery. Check /api/errors for ''
         @ ''per-arb details and reconcile venue exposure manually before enabling auto-trade.'',
         [of_nat (length hs)]),
       inc_timestamp = now,
       inc_metadata = [(''event_type'', MText ''half_recorded_arb_summary''), (''count'', MInt (int (length hs))),
         (''sample_arb_ids'', MNested), (''sample_canonical_ids'', MNested)],
       inc_status = ''open'', inc_resolved_at = 0, inc_resolution_note = [] \<rparr>"

definition surface_half_recorded_recovery_summary :: "flt \<Rightarrow> half_recorded list \<Rightarrow> engine \<Rightarrow> engine" where
  "surface_half_recorded_recovery_summary now hs en =
     (if hs = [] \<or> inc_id (half_recorded_summary now hs) \<in> inc_id ` set (en_incidents en) then en
      else en\<lparr>en_incidents := deque_appendleft 200 (en_incidents en) (half_recorded_summary now hs)\<rparr>)"

text \<open>The ids are those of the incidents before the loop.\<close>

definition rehydrate_open_incidents :: "bool \<Rightarrow> exec_db \<Rightarrow> engine \<Rightarrow> engine \<times> nat" where
  "rehydrate_open_incidents readable db en =
     (let fresh = (if readable
                   then filter (\<lambda>i. inc_id i \<notin> inc_id ` set (en_incidents en)) (list_incidents (Some ''open'') 200 db)
                   else [])
      in (en\<lparr>en_incidents := fold (\<lambda>i acc. deque_appendleft 200 acc i) fresh (en_incidents en)\<rparr>, length fresh))"

definition arm_after_recovery_error :: "recovery_env \<Rightarrow> safety_env \<Rightarrow> string \<Rightarrow> engine \<Rightarrow> engine" where
  "arm_after_recovery_error env senv reason en =
     en\<lparr>en_safety := trip_kill ''system:recovery'' reason True (rv_now env) senv (en_safety en)\<rparr>"

text \<open>
  The part of \<open>run_system\<close> between the wiring and the first task; each stage has its own environment,
  and \<open>loads\<close> tells whether the history could be read.
\<close>

definition startup_recovery ::
  "recovery_env \<Rightarrow> recovery_env \<Rightarrow> safety_env \<Rightarrow> (string \<Rightarrow> exec_env) \<Rightarrow> bool \<Rightarrow> bool \<Rightarrow> exec_db \<Rightarrow> engine
   \<Rightarrow> exec_db \<times> engine" where
  "startup_recovery env1 env2 senv xenv loads readable db en =
     (let (db1, en1) = (case reconcile_non_terminal_orders env1 db of
              None \<Rightarrow> (db, arm_after_recovery_error env1 senv ''recovery_init_failed: {}'' en)
            | Some (orphans, d) \<Rightarrow> (d, fold (report_orphan xenv) orphans en));
          (db2, hs, en2) = (case reconcile_half_recorded_arbs env2 db1 of
              None \<Rightarrow> (db1, [], arm_after_recovery_error env2 senv ''half_recorded_arb_recovery_failed: {}'' en1)
            | Some (blockers, d) \<Rightarrow> (d, blockers, en1));
          en3 = surface_half_recorded_recovery_summary (rv_now env2) hs en2;
          en4 = (if loads then en3\<lparr>en_executions := en_executions en3 @ load_history None db2\<rparr> else en3)
      in (db2, fst (rehydrate_open_incidents readable db2 en4)))"

section \<open>The loops of main\<close>

text \<open>The poller shows a new status on the last execution with that id.\<close>

definition reflect_outcome :: "stuck_outcome \<Rightarrow> arb_execution list \<Rightarrow> arb_execution list" where
  "reflect_outcome x es =
     (if so_new_status x = [] then es
      else rev (update_first (\<lambda>e. ex_arb_id e = so_arb_id x) (\<lambda>e. e\<lparr>ex_status := so_new_status x\<rparr>) (rev es)))"

definition stuck_trade_turn ::
  "recovery_env \<Rightarrow> flt \<Rightarrow> flt \<Rightarrow> stuck_stats \<times> exec_db \<times> engine \<Rightarrow> stuck_stats \<times> exec_db \<times> engine" where
  "stuck_trade_turn env max_age finish st =
     (let (ss, db, en) = st; (os, ss', db') = recover_stuck_trades env max_age finish ss db
      in (ss', db', en\<lparr>en_executions := fold reflect_outcome os (en_executions en)\<rparr>))"

definition manual_critical_event_types :: "string list" where
  "manual_critical_event_types =
     [''half_recorded_arb'', ''half_recorded_arb_summary'', ''one_leg_exposure'', ''soft_naked_leg'', ''db_write_failure'']"

definition event_type_of :: "incident \<Rightarrow> string" where
  "event_type_of i = (case map_of (inc_metadata i) ''event_type'' of Some (MText t) \<Rightarrow> py_lower t | _ \<Rightarrow> [])"

definition is_stale_auto_resolvable_incident :: "flt \<Rightarrow> flt \<Rightarrow> incident \<Rightarrow> bool" where
  "is_stale_auto_resolvable_incident now max_age i =
     (inc_status i \<noteq> ''resolved'' \<and> py_lower (inc_severity i) = ''critical''
      \<and> event_type_of i \<notin> set manual_critical_event_types
      \<and> max_age < now - or_flt (inc_timestamp i) now)"

definition incident_auto_resolve_turn :: "exec_env \<Rightarrow> flt \<Rightarrow> engine \<Rightarrow> engine" where
  "incident_auto_resolve_turn env max_age en =
     fold (\<lambda>i en'. if is_stale_auto_resolvable_incident (xe_now env) max_age i
                   then fst (resolve_incident env (inc_id i)
                          ''Auto-resolved: stale critical incident (age={}s > {}s)'' en')
                   else en') (en_incidents en) en"

section \<open>The status of a stuck arb\<close>

definition holds_contracts :: "order \<Rightarrow> bool" where
  "holds_contracts r = (ord_status r = FILLED \<and> 0 < ord_fill_qty r)"

lemma effective_filled [simp]: "effective_status r = FILLED \<longleftrightarrow> holds_contracts r"
  by (auto simp: effective_status_def holds_contracts_def)

lemma effective_terminal [simp]: "terminal_leg (effective_status r) \<longleftrightarrow> terminal_leg (ord_status r)"
  by (auto simp: effective_status_def terminal_leg_def)

lemma derived_cases:
  "derive_arb_status legs =
     (if length legs < 2 \<and> list_ex holds_contracts legs \<or> legs = []
          \<or> \<not> list_all (\<lambda>r. terminal_leg (ord_status r)) legs then []
      else if list_all holds_contracts legs then ''filled''
      else if list_ex holds_contracts legs then ''recovering'' else ''failed'')"
proof -
  have filled: "length (filter (\<lambda>s. s = FILLED) (map effective_status legs)) = length (filter holds_contracts legs)"
    by (simp add: filter_map comp_def)
  have none: "length (filter holds_contracts legs) = 0 \<longleftrightarrow> \<not> list_ex holds_contracts legs"
    by (auto simp: filter_empty_conv list_ex_iff)
  have every: "length (filter holds_contracts legs) = length legs \<longleftrightarrow> list_all holds_contracts legs"
    by (induction legs) (auto simp: le_imp_less_Suc less_imp_neq)
  have ends: "list_all holds_contracts legs \<Longrightarrow> list_all (\<lambda>r. terminal_leg (ord_status r)) legs"
    by (auto simp: list_all_iff holds_contracts_def terminal_leg_def)
  have terminal: "list_all terminal_leg (map effective_status legs) \<longleftrightarrow> list_all (\<lambda>r. terminal_leg (ord_status r)) legs"
    "list_ex (\<lambda>s. \<not> terminal_leg s) (map effective_status legs) \<longleftrightarrow> \<not> list_all (\<lambda>r. terminal_leg (ord_status r)) legs"
    by (auto simp: list_all_iff list_ex_iff)
  have some: "FILLED \<in> set (map effective_status legs) \<longleftrightarrow> list_ex holds_contracts legs"
    by (auto simp: list_ex_iff image_iff eq_commute [of FILLED])
  show ?thesis unfolding derive_arb_status_def Let_def filled terminal some
    using none every by (cases "legs = []") auto
qed

text \<open>
  The poller calls an arb filled exactly when it has two legs or more and each was filled with
  contracts, recovering exactly when all legs are settled and some but not all hold contracts, and failed
  exactly when it has a leg, all are settled and none holds contracts.
\<close>

theorem derived_status_table:
  "(derive_arb_status legs = ''filled'' \<longleftrightarrow> 2 \<le> length legs \<and> list_all holds_contracts legs)
   \<and> (derive_arb_status legs = ''recovering'' \<longleftrightarrow> 2 \<le> length legs
        \<and> list_all (\<lambda>r. terminal_leg (ord_status r)) legs \<and> list_ex holds_contracts legs \<and> \<not> list_all holds_contracts legs)
   \<and> (derive_arb_status legs = ''failed'' \<longleftrightarrow> legs \<noteq> []
        \<and> list_all (\<lambda>r. terminal_leg (ord_status r)) legs \<and> \<not> list_ex holds_contracts legs)"
proof -
  have ends: "list_all holds_contracts legs \<Longrightarrow> list_all (\<lambda>r. terminal_leg (ord_status r)) legs"
    by (auto simp: list_all_iff holds_contracts_def terminal_leg_def)
  have one: "list_all holds_contracts legs \<Longrightarrow> legs \<noteq> [] \<Longrightarrow> list_ex holds_contracts legs"
    by (cases legs) auto
  have short: "list_ex holds_contracts legs \<Longrightarrow> \<not> list_all holds_contracts legs \<Longrightarrow> 2 \<le> length legs"
    by (cases legs rule: list.exhaust; cases "tl legs") auto
  show ?thesis unfolding derived_cases using ends one short by (cases "legs = []") auto
qed

text \<open>A cancelled leg that kept a partial fill counts as one without contracts.\<close>

lemma partial_cancel_is_failed:
  "ord_status y = CANCELLED \<Longrightarrow> ord_status n = FAILED \<Longrightarrow> derive_arb_status [y, n] = ''failed''"
  by (simp add: derived_cases holds_contracts_def terminal_leg_def)

section \<open>Only stuck arbs move\<close>

definition reported :: "recovery_env \<Rightarrow> order \<Rightarrow> order" where
  "reported env r = fst (query_leg_state env r)"

lemma check_leg_parts:
  "map fst (fst (check_leg env a r (seen, f, db))) = map fst seen @ [reported env r]"
  "db_arbs (snd (snd (check_leg env a r (seen, f, db)))) = db_arbs db"
  by (auto simp: check_leg_def reported_def store_order_def Let_def upsert_order_def upsert_row_def
      split: prod.split option.split if_splits)

lemma check_legs_parts:
  "map fst (fst (fold (check_leg env a) legs (seen, f, db))) = map fst seen @ map (reported env) legs
   \<and> db_arbs (snd (snd (fold (check_leg env a) legs (seen, f, db)))) = db_arbs db"
proof (induction legs arbitrary: seen f db)
  case (Cons r legs)
  obtain seen' f' db' where s: "check_leg env a r (seen, f, db) = (seen', f', db')" by (metis prod_cases3)
  show ?case using Cons.IH [of seen' f' db'] check_leg_parts [of env a r seen f db] by (simp add: s)
qed simp

lemma persist_rows:
  assumes "x \<in> set (db_arbs (persist_outcome now a st body db))"
  shows "\<exists>y \<in> set (db_arbs db). aw_arb_id y = aw_arb_id x
     \<and> (aw_status x = aw_status y \<or> aw_arb_id y = a \<and> aw_status x = st \<and> st \<noteq> [])"
proof -
  obtain f where f: "\<And>y. aw_arb_id (f y) = aw_arb_id y" "\<And>y. aw_status (f y) = (if st \<noteq> [] then st else aw_status y)"
    and d: "persist_outcome now a st body db = update_arbs (\<lambda>y. aw_arb_id y = a) f db"
    by (rule that [OF _ _ persist_outcome_def [unfolded Let_def]]) auto
  obtain y where "y \<in> set (db_arbs db)" "x = (if aw_arb_id y = a then f y else y)"
    using assms by (auto simp: d update_arbs_def)
  then show ?thesis by (intro bexI [of _ y]) (auto simp: f)
qed

lemma recover_arb_rows:
  assumes "recover_arb env (a, legs) db = (res, u, e, db')" "x \<in> set (db_arbs db')"
  shows "\<exists>y \<in> set (db_arbs db). aw_arb_id y = aw_arb_id x \<and> (aw_status x = aw_status y
     \<or> aw_arb_id y = aw_arb_id a \<and> aw_status x = derive_arb_status (map (reported env) legs) \<and> aw_status x \<noteq> [])"
proof -
  let ?st = "derive_arb_status (map (reported env) legs)"
  obtain seen f db1 where s: "fold (check_leg env (aw_arb_id a)) legs ([], 0, db) = (seen, f, db1)"
    by (metis prod_cases3)
  have p: "map fst seen = map (reported env) legs" "db_arbs db1 = db_arbs db"
    using check_legs_parts [of env "aw_arb_id a" legs "[]" 0 db] by (simp_all add: s)
  have d: "db' = (if rv_persists env (aw_arb_id a)
      then persist_outcome (rv_now env) (aw_arb_id a) (changed_status (aw_status a) ?st)
             (recovery_note (aw_status a) ?st (map (reported env) legs)) db1 else db1)"
    using assms(1) by (simp add: recover_arb_def s p(1) Let_def split: if_splits)
  show ?thesis
  proof (cases "rv_persists env (aw_arb_id a)")
    case True
    then have x: "x \<in> set (db_arbs (persist_outcome (rv_now env) (aw_arb_id a) (changed_status (aw_status a) ?st)
             (recovery_note (aw_status a) ?st (map (reported env) legs)) db1))" using d assms(2) by simp
    show ?thesis using persist_rows [OF x] by (auto simp: p(2) changed_status_def split: if_splits)
  next
    case False
    then show ?thesis using d p(2) assms(2) by auto
  qed
qed

text \<open>And what they report is written.\<close>

lemma recover_arb_writes:
  assumes "recover_arb env (a, legs) db = (res, u, e, db')" "rv_persists env (aw_arb_id a)"
    and "derive_arb_status (map (reported env) legs) \<notin> {[], aw_status a}"
    and "y \<in> set (db_arbs db)" "aw_arb_id y = aw_arb_id a"
  shows "\<exists>x \<in> set (db_arbs db'). aw_arb_id x = aw_arb_id a \<and> aw_status x = derive_arb_status (map (reported env) legs)"
proof -
  let ?st = "derive_arb_status (map (reported env) legs)"
  obtain seen f db1 where s: "fold (check_leg env (aw_arb_id a)) legs ([], 0, db) = (seen, f, db1)"
    by (metis prod_cases3)
  have p: "map fst seen = map (reported env) legs" "db_arbs db1 = db_arbs db"
    using check_legs_parts [of env "aw_arb_id a" legs "[]" 0 db] by (simp_all add: s)
  have d: "db' = persist_outcome (rv_now env) (aw_arb_id a) ?st
             (recovery_note (aw_status a) ?st (map (reported env) legs)) db1"
    using assms(1,2,3) by (simp add: recover_arb_def s p(1) changed_status_def Let_def)
  have st: "?st \<noteq> []" using assms(3) by simp
  obtain g where g: "\<And>y. aw_arb_id (g y) = aw_arb_id y" "\<And>y. aw_status (g y) = ?st"
    and u: "db' = update_arbs (\<lambda>y. aw_arb_id y = aw_arb_id a) g db1"
    by (rule that [OF _ _ d [unfolded persist_outcome_def Let_def]]) (use st in auto)
  have "g y \<in> set (db_arbs db')" using assms(4,5) p(2) by (auto simp: u update_arbs_def)
  then show ?thesis using g assms(5) by (intro bexI [of _ "g y"]) auto
qed

lemma recover_arbs_rows:
  assumes "recover_arbs env es db = (os, u, e, db')" "x \<in> set (db_arbs db')"
  shows "\<exists>y \<in> set (db_arbs db). aw_arb_id y = aw_arb_id x \<and> (aw_status x = aw_status y
     \<or> (\<exists>(a, legs) \<in> set es. aw_arb_id a = aw_arb_id y
           \<and> aw_status x = derive_arb_status (map (reported env) legs) \<and> aw_status x \<noteq> []))"
  using assms(1)
proof (induction es arbitrary: db os u e)
  case (Cons z es)
  obtain a legs where z: "z = (a, legs)" by fastforce
  obtain o1 u1 e1 d1 where 1: "recover_arb env (a, legs) db = (o1, u1, e1, d1)" by (metis prod_cases4)
  obtain o2 u2 e2 d2 where 2: "recover_arbs env es d1 = (o2, u2, e2, d2)" by (metis prod_cases4)
  have d2: "d2 = db'" using Cons.prems by (simp add: z 1 2)
  obtain y where y: "y \<in> set (db_arbs d1)" "aw_arb_id y = aw_arb_id x"
    "aw_status x = aw_status y \<or> (\<exists>(a, legs) \<in> set es. aw_arb_id a = aw_arb_id y
           \<and> aw_status x = derive_arb_status (map (reported env) legs) \<and> aw_status x \<noteq> [])"
    using Cons.IH [OF 2 [unfolded d2]] by blast
  obtain y0 where y0: "y0 \<in> set (db_arbs db)" "aw_arb_id y0 = aw_arb_id y"
    "aw_status y = aw_status y0 \<or> aw_arb_id y0 = aw_arb_id a
       \<and> aw_status y = derive_arb_status (map (reported env) legs) \<and> aw_status y \<noteq> []"
    using recover_arb_rows [OF 1 y(1)] by blast
  show ?case using y y0 by (intro bexI [of _ y0]) (auto simp: z)
qed (use assms(2) in auto)

text \<open>
  C36. A run of the poller changes the status of an arb only when that arb is stuck, and then to what the
  venues report of its legs.
\<close>

theorem poller_moves_only_stuck:
  assumes "db_ok db" and "recover_stuck_trades env max_age finish ss db = (os, ss', db')"
    and "x \<in> set (db_arbs db')"
  shows "\<exists>y \<in> set (db_arbs db). aw_arb_id y = aw_arb_id x \<and> (aw_status x = aw_status y
     \<or> stuck (rv_now env) max_age y \<and> aw_status x \<noteq> []
       \<and> aw_status x = derive_arb_status (map (reported env \<circ> ow_order) (orders_of (aw_arb_id y) db)))"
proof (cases "rv_lists env")
  case False
  then show ?thesis using assms(2,3) by (auto simp: recover_stuck_trades_def Let_def)
next
  case True
  let ?es = "list_stuck_arbs (rv_now env) max_age db"
  obtain o1 u e d where r: "recover_arbs env ?es db = (o1, u, e, d)" by (metis prod_cases4)
  have d: "d = db'" using assms(2) True by (simp add: recover_stuck_trades_def Let_def r)
  obtain y where y: "y \<in> set (db_arbs db)" "aw_arb_id y = aw_arb_id x"
    "aw_status x = aw_status y \<or> (\<exists>(a, legs) \<in> set ?es. aw_arb_id a = aw_arb_id y
           \<and> aw_status x = derive_arb_status (map (reported env) legs) \<and> aw_status x \<noteq> [])"
    using recover_arbs_rows [OF r [unfolded d] assms(3)] by blast
  have one: "a = y" if "a \<in> set (db_arbs db)" "aw_arb_id a = aw_arb_id y" for a
    using that y(1) assms(1) by (auto simp: db_ok_def distinct_map dest: inj_onD)
  show ?thesis
  proof (cases "aw_status x = aw_status y")
    case False
    then obtain a legs where a: "(a, legs) \<in> set ?es" "aw_arb_id a = aw_arb_id y"
      "aw_status x = derive_arb_status (map (reported env) legs)" "aw_status x \<noteq> []" using y(3) by blast
    then have "a \<in> set (db_arbs db)" "stuck (rv_now env) max_age a" "legs = map ow_order (orders_of (aw_arb_id a) db)"
      by (auto simp: list_stuck_arbs_def)
    with a one [of a] y(1,2) show ?thesis by (intro bexI [of _ y]) (auto simp: comp_def)
  qed (use y in blast)
qed

section \<open>An answer in the caller's own order\<close>

definition answered_in_place :: "recovery_env \<Rightarrow> order \<Rightarrow> bool" where
  "answered_in_place env r =
     (\<not> is_synthetic_placeholder (ord_id r)
      \<and> (case rv_get env (ord_platform r) of None \<Rightarrow> True
         | Some get \<Rightarrow> (case get r of SameOrder x \<Rightarrow> \<not> venue_not_found x | _ \<Rightarrow> False)))"

text \<open>
  C35. When the adapters answer in the order they were given, as all adapters of the program do, a start
  writes nothing that the venues report: an order that was filled or cancelled meanwhile stays open in
  the store.
\<close>

theorem in_place_answers_unwritten:
  assumes "rv_lists env" and "list_all (answered_in_place env) (list_non_terminal_orders db)"
  shows "reconcile_non_terminal_orders env db = Some ([], db)"
proof -
  have "reconcile_orders env rs db = ([], db)" if "list_all (answered_in_place env) rs" for rs
    using that
    by (induction rs)
       (auto simp: reconcile_order_def answered_in_place_def Let_def split: option.splits venue_answer.splits)
  then show ?thesis using assms by (simp add: reconcile_non_terminal_orders_def)
qed

text \<open>The note of the poller says that nothing changed, although it writes the change.\<close>

lemma in_place_note:
  "rv_get env (ord_platform r) = Some get \<Longrightarrow> get r = SameOrder x \<Longrightarrow> \<not> venue_not_found x
   \<Longrightarrow> \<not> is_synthetic_placeholder (ord_id r) \<Longrightarrow> query_leg_state env r = (x, x, ''no change'')"
  by (simp add: query_leg_state_def)

text \<open>An answer in another order is written.\<close>

lemma other_answer_written:
  assumes "rv_get env (ord_platform r) = Some get" "get r = OtherOrder x" "\<not> venue_not_found x"
    and "\<not> is_synthetic_placeholder (ord_id r)" "ord_status x \<noteq> ord_status r"
    and "store_order env x (recovery_arb_id (ord_id r)) db = Some db'"
  shows "reconcile_order env r db = (None, db')"
  using assms by (simp add: reconcile_order_def or_same_def)

text \<open>The placeholders of the engine never reach the branch that closes them: the list leaves them out.\<close>

lemma listed_not_suffixed:
  "r \<in> set (list_non_terminal_orders db) \<Longrightarrow> sfx \<in> set synthetic_suffixes \<Longrightarrow> \<not> ends_with (ord_id r) sfx"
  by (auto simp: list_non_terminal_orders_def list_ex_iff)

section \<open>Alerts for half-recorded arbs\<close>

definition alert_for :: "string \<Rightarrow> incident \<Rightarrow> bool" where
  "alert_for a i = (inc_id i = half_recorded_incident_id a \<and> inc_severity i = ''critical'' \<and> half_recorded_alert i)"

lemma own_alert [simp]: "alert_for (hf_arb_id h) (half_recorded_incident now h)" "half_recorded_alert (half_recorded_incident now h)"
  by (simp_all add: alert_for_def half_recorded_alert_def half_recorded_incident_def)

lemma incident_of_half [simp]:
  "inc_id (half_recorded_incident now h) = half_recorded_incident_id (hf_arb_id h)"
  "inc_arb_id (half_recorded_incident now h) = hf_arb_id h"
  by (simp_all add: half_recorded_incident_def)

definition overwrite :: "incident \<Rightarrow> incident \<Rightarrow> incident" where
  "overwrite i j = j\<lparr> inc_severity := inc_severity i, inc_message := inc_message i,
                     inc_metadata := inc_metadata i, inc_status := inc_status i,
                     inc_resolved_at := inc_resolved_at i, inc_resolution_note := inc_resolution_note i \<rparr>"

lemma overwrite_fields [simp]:
  "inc_id (overwrite i j) = inc_id j" "inc_arb_id (overwrite i j) = inc_arb_id j"
  "half_recorded_alert (overwrite i j) = half_recorded_alert i"
  by (simp_all add: overwrite_def half_recorded_alert_def)

lemma overwrite_alert: "alert_for a i \<Longrightarrow> inc_id j = inc_id i \<Longrightarrow> alert_for a (overwrite i j)"
  by (simp add: alert_for_def) (simp add: overwrite_def)

lemma inserted:
  "db_incidents (insert_incident now i db) =
     (if inc_id i \<in> inc_id ` set (db_incidents db)
      then map (\<lambda>j. if inc_id j = inc_id i then overwrite i j else j) (db_incidents db)
      else db_incidents db @ [i\<lparr>inc_timestamp := now\<rparr>])"
  by (simp add: insert_incident_def overwrite_def)

lemma stamped_alert [simp]: "alert_for a (i\<lparr>inc_timestamp := t\<rparr>) = alert_for a i"
  "half_recorded_alert (i\<lparr>inc_timestamp := t\<rparr>) = half_recorded_alert i"
  by (simp_all add: alert_for_def half_recorded_alert_def)

definition alerted :: "string \<Rightarrow> exec_db \<Rightarrow> bool" where
  "alerted a db = list_ex (alert_for a) (db_incidents db)"

lemma insert_alerts: "alert_for a i \<Longrightarrow> alerted a (insert_incident now i db)"
proof -
  assume i: "alert_for a i"
  show ?thesis
  proof (cases "inc_id i \<in> inc_id ` set (db_incidents db)")
    case True
    then obtain j where j: "j \<in> set (db_incidents db)" "inc_id j = inc_id i" by auto
    have "overwrite i j \<in> set (db_incidents (insert_incident now i db))"
      using True j by (auto simp: inserted intro!: image_eqI [of _ _ j])
    then show ?thesis using overwrite_alert [OF i j(2)] by (auto simp: alerted_def list_ex_iff)
  qed (simp add: i alerted_def inserted)
qed

lemma insert_keeps_alerts:
  assumes "j \<in> set (db_incidents db)" "alert_for a j" "half_recorded_alert i" "inc_severity i = ''critical''"
  shows "alerted a (insert_incident now i db)"
proof -
  have "alert_for a (overwrite i j)" using assms(2,3,4) by (simp add: alert_for_def) (simp add: overwrite_def)
  moreover have "(if inc_id j = inc_id i then overwrite i j else j) \<in> set (db_incidents (insert_incident now i db))"
    using assms(1) by (auto simp: inserted intro: rev_image_eqI)
  ultimately show ?thesis using assms(2) unfolding alerted_def list_ex_iff by (meson if_split)
qed

lemma raise_alert_keeps: "alerted a db \<Longrightarrow> alerted a (raise_alert env h db)"
  using insert_keeps_alerts [of _ db a "half_recorded_incident (rv_now env) h"]
  by (auto simp: raise_alert_def alerted_def list_ex_iff half_recorded_incident_def half_recorded_alert_def)

lemma raised_all:
  assumes "h \<in> set hs" "rv_alerts env (hf_arb_id h)"
  shows "alerted (hf_arb_id h) (fold (raise_alert env) hs db)"
proof -
  have keep: "alerted a d \<Longrightarrow> alerted a (fold (raise_alert env) xs d)" for a d xs
    by (induction xs arbitrary: d) (auto intro: raise_alert_keeps)
  show ?thesis using assms(1)
  proof (induction hs arbitrary: db)
    case (Cons x hs)
    show ?case
    proof (cases "h = x")
      case True
      have "alerted (hf_arb_id h) (raise_alert env h db)" using assms(2) by (simp add: raise_alert_def insert_alerts)
      then show ?thesis using True keep by simp
    qed (use Cons in auto)
  qed simp
qed

lemma half_recorded_distinct: "db_ok db \<Longrightarrow> distinct (map hf_arb_id (list_half_recorded_arbs db))"
proof -
  assume ok: "db_ok db"
  then have "distinct (map aw_arb_id (sort_key aw_created_at (db_arbs db)))"
    by (simp add: db_ok_def distinct_map)
  then show ?thesis by (auto simp: list_half_recorded_arbs_def half_recorded_of_def comp_def distinct_map_filter)
qed

lemma blockers_keep:
  assumes "h \<in> set orphans" "0 < hf_filled_leg_count h" "distinct (map hf_arb_id orphans)"
  shows "h \<in> set (fst (close_stubs env orphans db))"
proof -
  have "hf_arb_id h \<notin> set (given_ids (filter no_exposure_stub orphans))"
  proof
    assume "hf_arb_id h \<in> set (given_ids (filter no_exposure_stub orphans))"
    then obtain h' where h': "h' \<in> set orphans" "no_exposure_stub h'" "hf_arb_id h' = hf_arb_id h"
      by (auto simp: given_ids_def)
    then have "h' = h" using assms(1,3) by (auto simp: distinct_map dest: inj_onD)
    then show False using h'(2) assms(2) by (simp add: no_exposure_stub_def)
  qed
  then have kept: "h \<in> set (filter (\<lambda>h. hf_arb_id h \<notin> set (given_ids (filter no_exposure_stub orphans))) orphans)"
    using assms(1) by (simp only: set_filter mem_Collect_eq simp_thms)
  show ?thesis
  proof (cases "filter no_exposure_stub orphans = [] \<or> \<not> rv_marks env \<or> \<not> rv_clears env")
    case True
    then have "fst (close_stubs env orphans db) = orphans"
      unfolding close_stubs_def Let_def by (elim disjE) (simp_all only: if_True if_False fst_conv split: if_split, simp_all)
    then show ?thesis using assms(1) by simp
  next
    case False
    then have "fst (close_stubs env orphans db)
        = filter (\<lambda>h. hf_arb_id h \<notin> set (given_ids (filter no_exposure_stub orphans))) orphans"
      unfolding close_stubs_def Let_def by (simp only: if_False fst_conv de_Morgan_disj not_not simp_thms)
    then show ?thesis using kept by (simp only:)
  qed
qed

lemma naked_blocks:
  assumes "db_ok db" and "naked a w v db \<or> lone_stub a w db"
    and "reconcile_half_recorded_arbs env db = Some (blockers, db')"
  shows "a \<in> hf_arb_id ` set blockers" "rv_alerts env a \<Longrightarrow> list_ex (alert_for a) (db_incidents db')"
proof -
  obtain h where h: "h \<in> set (list_half_recorded_arbs db)" "hf_arb_id h = a" "0 < hf_filled_leg_count h"
    using naked_listed lone_listed assms(2) by blast
  have lists: "rv_lists env" using assms(3) by (simp add: reconcile_half_recorded_arbs_def split: if_splits)
  obtain bs d where c: "close_stubs env (list_half_recorded_arbs db) db = (bs, d)" by fastforce
  have b: "h \<in> set bs"
    using blockers_keep [OF h(1,3) half_recorded_distinct [OF assms(1)], of env db] by (simp add: c)
  have ne: "list_half_recorded_arbs db \<noteq> []" "bs \<noteq> []" using h(1) b by auto
  have "\<exists>d3. blockers = bs \<and> db' = fold (raise_alert env) bs d3"
    using assms(3) by (auto simp: reconcile_half_recorded_arbs_def lists ne c Let_def)
  then obtain d3 where "blockers = bs" "db' = fold (raise_alert env) bs d3" by blast
  then show "a \<in> hf_arb_id ` set blockers" "rv_alerts env a \<Longrightarrow> list_ex (alert_for a) (db_incidents db')"
    using b h(2) raised_all [OF b, of env d3] by (auto simp: alerted_def)
qed

text \<open>
  C15. Every arb the query sees as naked raises an alert at a start: an arb with a leg row counted as filled (FILLED
  or SIMULATED with a positive fill) whose other row is not counted so and that is not marked as reconciled, or whose other
  row is missing while its status is not settled, is returned as a blocker; and it has an open critical incident
  in the store when the insert of that incident goes through, whichever of the other statements fail.
\<close>

theorem naked_leg_alerted:
  assumes "db_ok db" and "naked a w v db \<or> lone_stub a w db"
    and "reconcile_half_recorded_arbs env db = Some (blockers, db')"
  shows "a \<in> hf_arb_id ` set blockers \<and> (rv_alerts env a \<longrightarrow> list_ex (alert_for a) (db_incidents db'))"
  using naked_blocks [OF assms] by blast

text \<open>With nothing half-recorded any more, the alerts of a former start stay open.\<close>

lemma stale_alerts_stay:
  "rv_lists env \<Longrightarrow> list_half_recorded_arbs db = [] \<Longrightarrow> reconcile_half_recorded_arbs env db = Some ([], db)"
  by (simp add: reconcile_half_recorded_arbs_def)

section \<open>The open alerts are the blockers\<close>

definition open_alerts :: "exec_db \<Rightarrow> incident list" where
  "open_alerts db = filter half_recorded_alert (db_incidents db)"

definition alert_arbs :: "exec_db \<Rightarrow> string set" where
  "alert_arbs db = inc_arb_id ` set (open_alerts db)"

text \<open>An incident with the id of the alert of an arb on record is about that arb.\<close>

definition alert_ids_ok :: "string list \<Rightarrow> exec_db \<Rightarrow> bool" where
  "alert_ids_ok as db =
     list_all (\<lambda>i. list_all (\<lambda>a. inc_id i = half_recorded_incident_id a \<longrightarrow> inc_arb_id i = a) as) (db_incidents db)"

definition own_ids :: "exec_db \<Rightarrow> bool" where
  "own_ids db = list_all (\<lambda>i. inc_id i = half_recorded_incident_id (inc_arb_id i)) (open_alerts db)"

lemma resolved_fields [simp]:
  "inc_id (resolve_row now x i) = inc_id i" "inc_arb_id (resolve_row now x i) = inc_arb_id i"
  "\<not> half_recorded_alert (resolve_row now x i)"
  by (simp_all add: resolve_row_def half_recorded_alert_def)

lemma resolve_alerts:
  "set (open_alerts (fst (resolve_where now x P db))) = {i \<in> set (open_alerts db). \<not> P i}"
  by (auto simp: open_alerts_def resolve_where_def image_iff split: if_splits)

lemma ids_ok_pairs:
  "alert_ids_ok as db = list_all (\<lambda>(k, b). list_all (\<lambda>a. k = half_recorded_incident_id a \<longrightarrow> b = a) as)
     (map (\<lambda>i. (inc_id i, inc_arb_id i)) (db_incidents db))"
  by (simp add: alert_ids_ok_def list.pred_map comp_def)

lemma resolve_ids: "alert_ids_ok as (fst (resolve_where now x P db)) = alert_ids_ok as db"
proof -
  have "map (\<lambda>i. (inc_id i, inc_arb_id i)) (db_incidents (fst (resolve_where now x P db)))
      = map (\<lambda>i. (inc_id i, inc_arb_id i)) (db_incidents db)"
    by (simp add: resolve_where_def)
  then show ?thesis unfolding ids_ok_pairs by (simp only:)
qed

lemma mark_ids: "alert_ids_ok as (fst (mark_no_exposure_failed now ids db)) = alert_ids_ok as db"
  unfolding alert_ids_ok_def mark_no_exposure_failed_def Let_def fst_conv update_arbs_rest ..

lemma insert_member:
  "j \<in> set (db_incidents db) \<Longrightarrow> inc_id i \<in> inc_id ` set (db_incidents db) \<Longrightarrow>
   (if inc_id j = inc_id i then overwrite i j else j) \<in> set (db_incidents (insert_incident now i db))"
  unfolding inserted by (simp only: if_True set_map) (rule image_eqI [OF refl])

lemma resolve_own: "own_ids db \<Longrightarrow> own_ids (fst (resolve_where now x P db))"
  by (simp add: own_ids_def list_all_iff resolve_alerts)

lemma insert_open_alerts:
  assumes "half_recorded_alert i" "inc_id i = half_recorded_incident_id (inc_arb_id i)"
    and "alert_ids_ok [inc_arb_id i] db"
  shows "alert_arbs (insert_incident now i db) = insert (inc_arb_id i) (alert_arbs db)"
    and "own_ids db \<Longrightarrow> own_ids (insert_incident now i db)"
proof -
  have same: "inc_arb_id j = inc_arb_id i" if "j \<in> set (db_incidents db)" "inc_id j = inc_id i" for j
    using that assms by (auto simp: alert_ids_ok_def list_all_iff)
  show "alert_arbs (insert_incident now i db) = insert (inc_arb_id i) (alert_arbs db)"
  proof (cases "inc_id i \<in> inc_id ` set (db_incidents db)")
    case True
    then obtain j where j: "j \<in> set (db_incidents db)" "inc_id j = inc_id i" by auto
    have "x \<in> alert_arbs (insert_incident now i db) \<longleftrightarrow> x = inc_arb_id i \<or> x \<in> alert_arbs db" for x
    proof
      assume "x \<in> alert_arbs (insert_incident now i db)"
      then show "x = inc_arb_id i \<or> x \<in> alert_arbs db"
        using same True by (auto simp: alert_arbs_def open_alerts_def inserted split: if_splits)
    next
      assume "x = inc_arb_id i \<or> x \<in> alert_arbs db"
      then show "x \<in> alert_arbs (insert_incident now i db)"
      proof
        assume "x = inc_arb_id i"
        then show ?thesis using insert_member [OF j(1) True] j(2) same [OF j] assms(1)
          unfolding alert_arbs_def open_alerts_def by (intro image_eqI [of _ _ "overwrite i j"]) auto
      next
        assume "x \<in> alert_arbs db"
        then obtain k where k: "k \<in> set (db_incidents db)" "half_recorded_alert k" "inc_arb_id k = x"
          by (auto simp: alert_arbs_def open_alerts_def)
        then show ?thesis using insert_member [OF k(1) True] assms(1)
          unfolding alert_arbs_def open_alerts_def
          by (intro image_eqI [of _ _ "if inc_id k = inc_id i then overwrite i k else k"]) (auto split: if_splits)
      qed
    qed
    then show ?thesis by auto
  next
    case False
    then show ?thesis using assms(1) by (simp add: alert_arbs_def open_alerts_def inserted)
  qed
  show "own_ids (insert_incident now i db)" if "own_ids db"
    using that same assms(1,2)
    by (auto simp: own_ids_def open_alerts_def list_all_iff inserted split: if_splits)
qed

lemma insert_ids_ok:
  assumes "alert_ids_ok as db" "inc_id i = half_recorded_incident_id (inc_arb_id i)"
  shows "alert_ids_ok as (insert_incident now i db)"
  using assms by (auto simp: alert_ids_ok_def list_all_iff inserted half_recorded_incident_id_def)

lemma raise_all_alerts:
  assumes "\<And>a. rv_alerts env a" "alert_ids_ok (map hf_arb_id hs) db" "own_ids db"
  shows "alert_arbs (fold (raise_alert env) hs db) = hf_arb_id ` set hs \<union> alert_arbs db
     \<and> own_ids (fold (raise_alert env) hs db)"
  using assms(2,3)
proof (induction hs arbitrary: db)
  case (Cons h hs)
  let ?i = "half_recorded_incident (rv_now env) h" and ?d = "raise_alert env h db"
  have d: "?d = insert_incident (rv_now env) ?i db" by (simp add: raise_alert_def assms(1))
  have one: "alert_ids_ok [inc_arb_id ?i] db" using Cons.prems(1) by (simp add: alert_ids_ok_def list_all_iff)
  have "alert_ids_ok (map hf_arb_id hs) db" using Cons.prems(1) by (simp add: alert_ids_ok_def list_all_iff)
  then have "alert_ids_ok (map hf_arb_id hs) ?d" unfolding d by (rule insert_ids_ok) simp
  moreover have "own_ids ?d" "alert_arbs ?d = insert (hf_arb_id h) (alert_arbs db)"
    using insert_open_alerts [of ?i db, OF _ _ one] Cons.prems(2) unfolding d by simp_all
  ultimately show ?case using Cons.IH [of ?d] by auto
qed simp

definition store_answers :: "recovery_env \<Rightarrow> bool" where
  "store_answers env = (rv_lists env \<and> rv_marks env \<and> rv_clears env \<and> rv_stales env \<and> rv_supersedes env
     \<and> rv_alerts env = (\<lambda>a. True))"

text \<open>
  C37. While the store takes every statement and something is half-recorded, the arbs with an open alert are
  after a start exactly the blockers, and each has only the one alert with its own id.
\<close>

theorem open_alerts_are_blockers:
  assumes "store_answers env" and "list_half_recorded_arbs db \<noteq> []"
    and "alert_ids_ok (map hf_arb_id (list_half_recorded_arbs db)) db"
    and "reconcile_half_recorded_arbs env db = Some (blockers, db')"
  shows "alert_arbs db' = hf_arb_id ` set blockers \<and> own_ids db'"
proof -
  obtain bs d where c: "close_stubs env (list_half_recorded_arbs db) db = (bs, d)" by fastforce
  have sub: "set bs \<subseteq> set (list_half_recorded_arbs db)"
    using c by (auto simp: close_stubs_def Let_def split: if_splits)
  have rows: "alert_ids_ok as d = alert_ids_ok as db" for as
    using c unfolding close_stubs_def Let_def resolve_half_recorded_incidents_def
    by (cases "filter no_exposure_stub (list_half_recorded_arbs db) = [] \<or> \<not> rv_marks env"; cases "rv_clears env")
       (auto simp: resolve_ids mark_ids split: if_split_asm)
  let ?d2 = "fst (resolve_stale_incidents (rv_now env) (given_ids bs) d)"
  let ?d3 = "fst (resolve_superseded_incidents (rv_now env) (given_ids bs) ?d2)"
  have a2: "set (open_alerts ?d2) = {i \<in> set (open_alerts d). inc_arb_id i \<in> set (given_ids bs)}"
    by (simp add: resolve_stale_incidents_def resolve_alerts)
  have a3: "set (open_alerts ?d3) = {i \<in> set (open_alerts d). inc_arb_id i \<in> set (given_ids bs)
      \<and> inc_id i = half_recorded_incident_id (inc_arb_id i)}"
  proof (cases "given_ids bs = []")
    case True
    then show ?thesis using a2 by (simp add: resolve_superseded_incidents_def)
  next
    case False
    then show ?thesis using a2 by (auto simp: resolve_superseded_incidents_def resolve_alerts)
  qed
  have own: "own_ids ?d3" by (simp add: own_ids_def list_all_iff a3)
  have given: "set (given_ids bs) \<subseteq> hf_arb_id ` set bs" by (auto simp: given_ids_def)
  have ok: "alert_ids_ok (map hf_arb_id bs) ?d3"
  proof -
    have "alert_ids_ok (map hf_arb_id bs) db" using assms(3) sub by (auto simp: alert_ids_ok_def list_all_iff)
    then show ?thesis
      by (simp add: resolve_superseded_incidents_def resolve_stale_incidents_def resolve_ids rows)
  qed
  show ?thesis
  proof (cases "bs = []")
    case True
    then have "blockers = []" "db' = ?d2"
      using assms(1,2,4) by (simp_all add: reconcile_half_recorded_arbs_def store_answers_def c Let_def)
    then show ?thesis using a2 True
      by (simp add: alert_arbs_def own_ids_def list_all_iff given_ids_def)
  next
    case False
    then have r: "blockers = bs" "db' = fold (raise_alert env) bs ?d3"
      using assms(1,2,4) by (auto simp: reconcile_half_recorded_arbs_def store_answers_def c Let_def)
    have "alert_arbs ?d3 \<subseteq> hf_arb_id ` set bs" using a3 given by (auto simp: alert_arbs_def)
    then show ?thesis unfolding r
      using raise_all_alerts [of env bs ?d3] ok own assms(1) by (auto simp: store_answers_def)
  qed
qed

section \<open>A start with a naked leg\<close>

text \<open>No venue answers with the id of another order.\<close>

definition keeps_ids :: "recovery_env \<Rightarrow> bool" where
  "keeps_ids env =
     (\<forall>p get r. rv_get env p = Some get \<longrightarrow>
        (case get r of SameOrder x \<Rightarrow> ord_id x = ord_id r | OtherOrder x \<Rightarrow> ord_id x = ord_id r
         | AskFailed x err \<Rightarrow> ord_id x = ord_id r))"

lemma reconcile_order_store:
  assumes "keeps_ids env"
  shows "snd (reconcile_order env r db) = db
     \<or> (\<exists>x b. ord_id x = ord_id r \<and> snd (reconcile_order env r db) = or_same db (store_order env x b db))"
proof (cases "is_synthetic_placeholder (ord_id r)")
  case True
  have "snd (reconcile_order env r db)
      = or_same db (store_order env (abort_placeholder r) (recovery_arb_id (ord_id r)) db)"
    using True by (simp add: reconcile_order_def)
  moreover have "ord_id (abort_placeholder r) = ord_id r" by (simp add: abort_placeholder_def)
  ultimately show ?thesis by blast
next
  case False
  show ?thesis
  proof (cases "rv_get env (ord_platform r)")
    case None
    then show ?thesis using False by (simp add: reconcile_order_def)
  next
    case (Some get)
    have ids: "case get r of SameOrder x \<Rightarrow> ord_id x = ord_id r | OtherOrder x \<Rightarrow> ord_id x = ord_id r
         | AskFailed x err \<Rightarrow> ord_id x = ord_id r"
      using assms Some unfolding keeps_ids_def by blast
    show ?thesis
    proof (cases "get r")
      case (SameOrder x)
      then show ?thesis using ids False Some by (auto simp: reconcile_order_def)
    next
      case (OtherOrder x)
      then show ?thesis using ids False Some by (auto simp: reconcile_order_def)
    next
      case (AskFailed x err)
      let ?x = "x\<lparr>ord_status := FAILED, ord_error := ''orphaned on restart: '' @ err\<rparr>"
      have "snd (reconcile_order env r db) = or_same db (store_order env ?x (recovery_arb_id (ord_id x)) db)"
        using False Some AskFailed by (simp add: reconcile_order_def Let_def)
      moreover have "ord_id ?x = ord_id r" using ids AskFailed by simp
      ultimately show ?thesis by blast
    qed
  qed
qed

lemma stored_order_keeps:
  assumes "db_ok db" "naked a w v db" "ord_id x \<noteq> ord_id (ow_order w)" "ord_id x \<noteq> ord_id (ow_order v)"
  shows "db_ok (or_same db (store_order env x b db)) \<and> naked a w v (or_same db (store_order env x b db))"
proof (cases "store_order env x b db")
  case (Some d)
  then have u: "upsert_order (rv_now env) x (Some b) None db = Some d" by (simp add: store_order_def split: if_splits)
  have w: "w \<in> set (db_orders db)" and v: "v \<in> set (db_orders db)" using assms(2) by (auto simp: naked_def)
  have "db_arbs d = db_arbs db" by (rule upsert_order_keeps(2) [OF u assms(3) w])
  then show ?thesis
    using upsert_order_ok [OF assms(1) u] upsert_order_keeps(1) [OF u assms(3) w] upsert_order_keeps(1) [OF u assms(4) v]
      assms(2) by (simp add: Some or_same_def naked_def)
qed (use assms in \<open>simp add: or_same_def\<close>)

lemma reconcile_orders_keeps:
  assumes "keeps_ids env" "db_ok db" "naked a w v db"
    and "\<And>r. r \<in> set rs \<Longrightarrow> ord_id r \<noteq> ord_id (ow_order w) \<and> ord_id r \<noteq> ord_id (ow_order v)"
    and "reconcile_orders env rs db = (os, db')"
  shows "db_ok db' \<and> naked a w v db'"
  using assms(2-5)
proof (induction rs arbitrary: db os)
  case (Cons r rs)
  obtain found d where d: "reconcile_order env r db = (found, d)" by fastforce
  obtain more d' where r: "reconcile_orders env rs d = (more, d')" by fastforce
  have "db_ok d \<and> naked a w v d"
    using reconcile_order_store [OF assms(1), of r db] Cons.prems(1,2,3)
      stored_order_keeps [OF Cons.prems(1,2)] by (auto simp: d)
  moreover have "d' = db'" using Cons.prems(4) by (simp add: d r)
  ultimately show ?case using Cons.IH [of d more] Cons.prems(3) r by simp
qed simp

text \<open>The same for a lone row: the ids that come back are on record, so no row is added.\<close>

lemma upsert_known:
  assumes "upsert_order now x b c db = Some d" "order_exists (ord_id x) db"
  shows "map (\<lambda>u. (ord_id (ow_order u), ow_arb_id u)) (db_orders d) = map (\<lambda>u. (ord_id (ow_order u), ow_arb_id u)) (db_orders db)"
  using assms by (auto simp: upsert_order_def upsert_row_def Let_def update_row_def split: option.splits)

lemma order_exists_ids: "order_exists i db = (i \<in> fst ` set (map (\<lambda>u. (ord_id (ow_order u), ow_arb_id u)) (db_orders db)))"
  by (auto simp: order_exists_def image_iff)

lemma orders_of_ids:
  "length (orders_of a db) = length (filter (\<lambda>k. snd k = a) (map (\<lambda>u. (ord_id (ow_order u), ow_arb_id u)) (db_orders db)))"
  by (simp add: orders_of_def filter_map comp_def)

lemma stored_lone_keeps:
  assumes "db_ok db" "lone_stub a w db" "ord_id x \<noteq> ord_id (ow_order w)" "order_exists (ord_id x) db"
  shows "db_ok (or_same db (store_order env x b db)) \<and> lone_stub a w (or_same db (store_order env x b db))
     \<and> (\<forall>i. order_exists i (or_same db (store_order env x b db)) = order_exists i db)"
proof (cases "store_order env x b db")
    case (Some e)
    then have u: "upsert_order (rv_now env) x (Some b) None db = Some e" by (simp add: store_order_def split: if_splits)
    have w: "w \<in> set (db_orders db)" using assms(2) by (simp add: lone_stub_def)
    note ids = upsert_known [OF u assms(4)]
    have "db_arbs e = db_arbs db" by (rule upsert_order_keeps(2) [OF u assms(3) w])
    moreover have "length (orders_of a e) = length (orders_of a db)" unfolding orders_of_ids ids ..
    moreover have "order_exists i e = order_exists i db" for i unfolding order_exists_ids ids ..
    ultimately show ?thesis
      using upsert_order_ok [OF assms(1) u] upsert_order_keeps(1) [OF u assms(3) w] assms(2)
      by (simp add: Some or_same_def lone_stub_def)
qed (use assms in \<open>simp add: or_same_def\<close>)

lemma reconcile_lone_keeps:
  assumes "keeps_ids env" "db_ok db" "lone_stub a w db"
    and "\<And>r. r \<in> set rs \<Longrightarrow> ord_id r \<noteq> ord_id (ow_order w) \<and> order_exists (ord_id r) db"
    and "reconcile_orders env rs db = (os, db')"
  shows "db_ok db' \<and> lone_stub a w db'"
  using assms(2-5)
proof (induction rs arbitrary: db os)
  case (Cons r rs)
  obtain found d where d: "reconcile_order env r db = (found, d)" by fastforce
  obtain more d' where r: "reconcile_orders env rs d = (more, d')" by fastforce
  have "db_ok d \<and> lone_stub a w d \<and> (\<forall>i. order_exists i d = order_exists i db)"
    using reconcile_order_store [OF assms(1), of r db] Cons.prems(1,2,3)
      stored_lone_keeps [OF Cons.prems(1,2)] by (auto simp: d)
  moreover have "d' = db'" using Cons.prems(4) by (simp add: d r)
  ultimately show ?case using Cons.IH [of d more] Cons.prems(3) r by simp
qed simp

lemma listed_is_other:
  assumes "db_ok db" "r \<in> set (list_non_terminal_orders db)" "w \<in> set (db_orders db)" "\<not> still_open (ord_status (ow_order w))"
  shows "ord_id r \<noteq> ord_id (ow_order w)"
proof
  assume same: "ord_id r = ord_id (ow_order w)"
  obtain u where u: "u \<in> set (db_orders db)" "r = ow_order u" "still_open (ord_status (ow_order u))"
    using assms(2) by (auto simp: list_non_terminal_orders_def)
  have "inj_on (ord_id \<circ> ow_order) (set (db_orders db))" using assms(1) by (simp add: db_ok_def distinct_map)
  then have "u = w" using u assms(3) same by (simp add: inj_on_def)
  then show False using u(3) assms(4) by simp
qed

lemma exposed_not_open: "exposed_leg r \<Longrightarrow> \<not> still_open (ord_status r)"
  by (auto simp: exposed_leg_def effective_fill_qty_def zero_qty_filled_def still_open_def split: if_splits)

section \<open>What the engine shows after a start\<close>

abbreviation summary_id :: string where
  "summary_id \<equiv> ''INC-HALF-RECORDED-SUMMARY''"

lemma db_failure_ids:
  "set (en_incidents (handle_db_failure env op a cid en)) \<subseteq> set (en_incidents en) \<union> {i. inc_id i \<noteq> summary_id}"
  by (auto simp: handle_db_failure_def push_incident_def deque_appendleft_def Let_def dest!: in_set_takeD)

lemma record_ids:
  assumes "length (xe_uuid env) < 20" "summary_id \<notin> inc_id ` set (en_incidents en)"
  shows "summary_id \<notin> inc_id ` set (en_incidents (record_incident env a cid sev msg meta en))"
proof -
  have "''INC-'' @ xe_uuid env \<noteq> summary_id"
  proof
    assume "''INC-'' @ xe_uuid env = summary_id"
    from arg_cong [OF this, of length] assms(1) show False by simp
  qed
  then have p: "summary_id \<notin> inc_id ` set (en_incidents (push_incident (new_incident env a cid sev msg meta) en))"
    using assms(2) by (auto simp: push_incident_def deque_appendleft_def new_incident_def dest!: in_set_takeD)
  then have "summary_id \<notin> inc_id ` set (en_incidents (handle_db_failure env ''insert_incident'' a cid
      (push_incident (new_incident env a cid sev msg meta) en)))"
    using db_failure_ids [of env "''insert_incident''" a cid "push_incident (new_incident env a cid sev msg meta) en"]
    by fastforce
  with p show ?thesis unfolding record_incident_def Let_def by (cases "xe_db env = Some False") (simp_all only: if_True if_False refl simp_thms)
qed

lemma orphans_ids:
  assumes "\<And>x. length (xe_uuid (xenv x)) < 20" "summary_id \<notin> inc_id ` set (en_incidents en)"
  shows "summary_id \<notin> inc_id ` set (en_incidents (fold (report_orphan xenv) rs en))"
  using assms(2)
proof (induction rs arbitrary: en)
  case (Cons r rs)
  have "summary_id \<notin> inc_id ` set (en_incidents (report_orphan xenv r en))"
    unfolding report_orphan_def by (rule record_ids [OF assms(1) Cons.prems])
  from Cons.IH [OF this] show ?case by simp
qed simp

lemma pushed_survives:
  "k + length xs < n \<Longrightarrow> k < length ys \<Longrightarrow> fold (\<lambda>i acc. deque_appendleft n acc i) xs ys ! (k + length xs) = ys ! k
     \<and> k + length xs < length (fold (\<lambda>i acc. deque_appendleft n acc i) xs ys)"
proof (induction xs arbitrary: ys k)
  case (Cons x xs)
  have "Suc k < length (deque_appendleft n ys x)" "deque_appendleft n ys x ! Suc k = ys ! k"
    using Cons.prems by (auto simp: deque_appendleft_def)
  then show ?case using Cons.IH [of "Suc k" "deque_appendleft n ys x"] Cons.prems(1) by simp
qed simp

lemma summary_kept:
  assumes "en_incidents en = i # rest" "length (filter (\<lambda>j. inc_status j = ''open'') (db_incidents db)) < 200"
  shows "i \<in> set (en_incidents (fst (rehydrate_open_incidents readable db en)))"
proof -
  let ?fresh = "if readable then filter (\<lambda>j. inc_id j \<notin> inc_id ` set (en_incidents en))
      (list_incidents (Some ''open'') 200 db) else []"
  have "length (list_incidents (Some ''open'') 200 db) \<le> length (filter (\<lambda>j. inc_status j = ''open'') (db_incidents db))"
    by (simp add: list_incidents_def eq_commute)
  then have n: "length ?fresh < 200"
    using assms(2) by (auto intro: le_less_trans [OF length_filter_le])
  let ?all = "fold (\<lambda>i acc. deque_appendleft 200 acc i) ?fresh (en_incidents en)"
  have "?all ! length ?fresh = i" "length ?fresh < length ?all"
    using pushed_survives [of 0 ?fresh 200 "en_incidents en"] n assms(1) by simp_all
  then have "i \<in> set ?all" by (metis nth_mem)
  moreover have "en_incidents (fst (rehydrate_open_incidents readable db en)) = ?all"
    unfolding rehydrate_open_incidents_def Let_def fst_conv by simp
  ultimately show ?thesis by simp
qed

lemma rehydrate_safety [simp]: "en_safety (fst (rehydrate_open_incidents readable db en)) = en_safety en"
  by (simp add: rehydrate_open_incidents_def Let_def)

lemma surface_safety [simp]: "en_safety (surface_half_recorded_recovery_summary now hs en) = en_safety en"
  by (simp add: surface_half_recorded_recovery_summary_def)

lemma arming [simp]: "is_armed (en_safety (arm_after_recovery_error env senv reason en))"
  by (simp add: arm_after_recovery_error_def)

text \<open>
  C14. A start with a naked leg in the store never comes up clean.  When an arb has a leg row the query counts as
  filled and either, not being marked as reconciled, another row that is not counted so and no longer open, or no other row
  and a status that is not settled, then after a start from an empty list of incidents either a listing failed and
  the kill switch is armed, or the engine shows an open critical incident; whatever the venues report, as long as their answers keep
  the order ids, and whichever writes fail, as long as fewer than 200 incidents are open.
\<close>

theorem start_blocks_on_naked_leg:
  assumes "db_ok db" and "naked a w v db \<and> \<not> still_open (ord_status (ow_order v)) \<or> lone_stub a w db"
    and "keeps_ids env1" and "\<And>x. length (xe_uuid (xenv x)) \<le> 8" and "en_incidents en = []"
    and "startup_recovery env1 env2 senv xenv loads readable db en = (db', en')"
    and "length (filter (\<lambda>i. inc_status i = ''open'') (db_incidents db')) < 200"
  shows "is_armed (en_safety en')
     \<or> list_ex (\<lambda>i. inc_severity i = ''critical'' \<and> inc_status i = ''open'') (en_incidents en')"
proof (cases "rv_lists env1 \<and> rv_lists env2")
  case False
  then have "is_armed (en_safety en')"
    using assms(6) by (auto simp: startup_recovery_def reconcile_non_terminal_orders_def
        reconcile_half_recorded_arbs_def Let_def split: prod.splits option.splits if_splits)
  then show ?thesis ..
next
  case True
  obtain orphans d1 where o: "reconcile_orders env1 (list_non_terminal_orders db) db = (orphans, d1)" by fastforce
  have exposed: "w \<in> set (db_orders db)" "exposed_leg (ow_order w)"
    using assms(2) by (auto simp: naked_def lone_stub_def)
  have other: "ord_id r \<noteq> ord_id (ow_order w) \<and> order_exists (ord_id r) db" if "r \<in> set (list_non_terminal_orders db)" for r
    using listed_is_other [OF assms(1) that exposed(1) exposed_not_open [OF exposed(2)]] that
    by (auto simp: list_non_terminal_orders_def order_exists_def)
  have keep: "db_ok d1 \<and> (naked a w v d1 \<or> lone_stub a w d1)"
    using assms(2)
  proof
    assume n: "naked a w v db \<and> \<not> still_open (ord_status (ow_order v))"
    then have v: "v \<in> set (db_orders db)" by (simp add: naked_def)
    have "db_ok d1 \<and> naked a w v d1"
      by (rule reconcile_orders_keeps [OF assms(3,1) conjunct1 [OF n] _ o])
         (use listed_is_other [OF assms(1) _ v] n other in blast)
    then show ?thesis by blast
  next
    assume n: "lone_stub a w db"
    have "db_ok d1 \<and> lone_stub a w d1" by (rule reconcile_lone_keeps [OF assms(3,1) n _ o]) (rule other)
    then show ?thesis by blast
  qed
  have "reconcile_half_recorded_arbs env2 d1 \<noteq> None"
    using True by (simp add: reconcile_half_recorded_arbs_def Let_def split: prod.split)
  then obtain blockers d2 where b: "reconcile_half_recorded_arbs env2 d1 = Some (blockers, d2)" by auto
  have ne: "blockers \<noteq> []" using naked_blocks(1) [OF _ _ b] keep by fastforce
  let ?en1 = "fold (report_orphan xenv) orphans en" and ?s = "half_recorded_summary (rv_now env2) blockers"
  have "summary_id \<notin> inc_id ` set (en_incidents ?en1)"
    by (rule orphans_ids) (use le_less_trans [OF assms(4), of 20] assms(5) in simp_all)
  then have s: "en_incidents (surface_half_recorded_recovery_summary (rv_now env2) blockers ?en1)
      = ?s # take 199 (en_incidents ?en1)"
    using ne by (simp add: surface_half_recorded_recovery_summary_def deque_appendleft_def half_recorded_summary_def)
  let ?en3 = "surface_half_recorded_recovery_summary (rv_now env2) blockers ?en1"
  let ?en4 = "if loads then ?en3\<lparr>en_executions := en_executions ?en3 @ load_history None d2\<rparr> else ?en3"
  have e: "db' = d2" "en' = fst (rehydrate_open_incidents readable d2 ?en4)"
    using assms(6) True by (auto simp: startup_recovery_def reconcile_non_terminal_orders_def o b Let_def)
  have "?s \<in> set (en_incidents en')" unfolding e(2)
    by (rule summary_kept [where rest = "take 199 (en_incidents ?en1)"]) (use s assms(7) e(1) in simp_all)
  then show ?thesis unfolding list_ex_iff by (intro disjI2 bexI [of _ ?s]) (simp_all add: half_recorded_summary_def)
qed

section \<open>Demo runs\<close>

definition demo_recovery_env :: recovery_env where
  "demo_recovery_env =
     \<lparr> rv_now = 9, rv_get = (\<lambda>p. Some (\<lambda>r. SameOrder (r\<lparr>ord_status := FILLED, ord_fill_qty := 10\<rparr>))),
       rv_lists = True, rv_writes = (\<lambda>r. True), rv_marks = True, rv_clears = True, rv_stales = True,
       rv_supersedes = True, rv_alerts = (\<lambda>a. True), rv_persists = (\<lambda>a. True) \<rparr>"

definition new_stuck_stats :: stuck_stats where
  "new_stuck_stats =
     \<lparr> ss_runs = 0, ss_last_run_ts = 0, ss_last_duration_s = 0, ss_inspected_last_run = 0,
       ss_updated_last_run = 0, ss_errors_last_run = 0, ss_total_updated = 0, ss_total_errors = 0 \<rparr>"

definition demo_open_db :: exec_db where
  "demo_open_db = demo_db\<lparr>db_orders := [demo_stored_row ''yes'' SUBMITTED 0, demo_stored_row ''no'' FAILED 0]\<rparr>"

lemma demo_db_ok: "db_ok demo_db"
  by code_simp

theorem in_place_answers_unwritten_witness:
  "reconcile_non_terminal_orders demo_recovery_env demo_open_db = Some ([], demo_open_db)"
proof (rule in_place_answers_unwritten)
  show "rv_lists demo_recovery_env" by (simp add: demo_recovery_env_def)
  show "list_all (answered_in_place demo_recovery_env) (list_non_terminal_orders demo_open_db)"
    by code_simp
qed

lemma demo_stuck:
  "list_stuck_arbs 9 3 demo_db = [(recorded_row 5 demo_stored, map ow_order (orders_of ''ARB-000001'' demo_db))]"
  by (simp add: list_stuck_arbs_def demo_db_def stuck_def recorded_row_def stub_row_def demo_stored_def
      open_arb_status_def orders_of_def)

lemma demo_reports:
  "derive_arb_status (map (reported demo_recovery_env) (map ow_order (orders_of ''ARB-000001'' demo_db))) = ''filled''"
  by code_simp

theorem poller_moves_only_stuck_witness:
  "\<exists>x y. x \<in> set (db_arbs (snd (snd (recover_stuck_trades demo_recovery_env 3 10 new_stuck_stats demo_db))))
     \<and> aw_status x = ''filled'' \<and> y \<in> set (db_arbs demo_db) \<and> stuck 9 3 y"
proof -
  obtain os ss' db' where r: "recover_stuck_trades demo_recovery_env 3 10 new_stuck_stats demo_db = (os, ss', db')"
    by (metis prod_cases3)
  have env: "rv_now demo_recovery_env = 9" "rv_lists demo_recovery_env" "rv_persists demo_recovery_env a" for a
    by (simp_all add: demo_recovery_env_def)
  have row: "recorded_row 5 demo_stored \<in> set (db_arbs demo_db)" by (simp add: demo_db_def)
  have st: "aw_status y = ''recovering''" if "y \<in> set (db_arbs demo_db)" for y
    using that by (simp add: demo_db_def recorded_row_def demo_stored_def)
  obtain o1 u e d where one: "recover_arb demo_recovery_env
      (recorded_row 5 demo_stored, map ow_order (orders_of ''ARB-000001'' demo_db)) demo_db = (o1, u, e, d)"
    by (metis prod_cases4)
  have d: "d = db'" using r by (simp add: recover_stuck_trades_def env demo_stuck one Let_def)
  obtain x where x: "x \<in> set (db_arbs db')" "aw_status x = ''filled''"
    using recover_arb_writes [OF one env(3) _ row refl] st [OF row] demo_reports by (auto simp: d)
  show ?thesis using poller_moves_only_stuck [OF demo_db_ok r x(1)] x st by (auto simp: r env)
qed

theorem naked_leg_alerted_witness:
  "\<exists>blockers db'. reconcile_half_recorded_arbs demo_recovery_env demo_db = Some (blockers, db')
     \<and> ''ARB-000001'' \<in> hf_arb_id ` set blockers \<and> list_ex (alert_for ''ARB-000001'') (db_incidents db')"
proof -
  have "reconcile_half_recorded_arbs demo_recovery_env demo_db \<noteq> None"
    by (simp add: reconcile_half_recorded_arbs_def demo_recovery_env_def Let_def split: prod.split)
  then obtain blockers db' where r: "reconcile_half_recorded_arbs demo_recovery_env demo_db = Some (blockers, db')"
    by auto
  have "rv_alerts demo_recovery_env ''ARB-000001''" by (simp add: demo_recovery_env_def)
  with naked_leg_alerted [OF demo_db_ok disjI1 [OF demo_db_naked] r] r show ?thesis by blast
qed

theorem open_alerts_are_blockers_witness:
  "\<exists>blockers db'. reconcile_half_recorded_arbs demo_recovery_env demo_db = Some (blockers, db')
     \<and> alert_arbs db' = hf_arb_id ` set blockers \<and> own_ids db'"
proof -
  have "reconcile_half_recorded_arbs demo_recovery_env demo_db \<noteq> None"
    by (simp add: reconcile_half_recorded_arbs_def demo_recovery_env_def Let_def split: prod.split)
  then obtain blockers db' where r: "reconcile_half_recorded_arbs demo_recovery_env demo_db = Some (blockers, db')"
    by auto
  have ne: "list_half_recorded_arbs demo_db \<noteq> []"
    using naked_listed [OF demo_db_naked] by auto
  have ids: "alert_ids_ok (map hf_arb_id (list_half_recorded_arbs demo_db)) demo_db"
    by (simp add: alert_ids_ok_def demo_db_def empty_db_def)
  have "store_answers demo_recovery_env" by (simp add: store_answers_def demo_recovery_env_def)
  from open_alerts_are_blockers [OF this ne ids r] r show ?thesis by blast
qed

definition demo_start_engine :: engine where
  "demo_start_engine = new_engine no_risk_env default_scanner_config None 0 0 (new_supervisor 30 [] None None) 0"

definition demo_start :: "exec_db \<times> engine" where
  "demo_start = startup_recovery demo_recovery_env demo_recovery_env demo_env (\<lambda>x. demo_exec_env) True True
     demo_db demo_start_engine"

theorem start_blocks_on_naked_leg_witness:
  "is_armed (en_safety (snd demo_start))
     \<or> list_ex (\<lambda>i. inc_severity i = ''critical'' \<and> inc_status i = ''open'') (en_incidents (snd demo_start))"
proof (rule start_blocks_on_naked_leg [OF demo_db_ok])
  show "startup_recovery demo_recovery_env demo_recovery_env demo_env (\<lambda>x. demo_exec_env) True True demo_db
      demo_start_engine = (fst demo_start, snd demo_start)" by (simp add: demo_start_def)
  show "naked ''ARB-000001'' (demo_stored_row ''yes'' FILLED 10) (demo_stored_row ''no'' FAILED 0) demo_db
      \<and> \<not> still_open (ord_status (ow_order (demo_stored_row ''no'' FAILED 0)))
    \<or> lone_stub ''ARB-000001'' (demo_stored_row ''yes'' FILLED 10) demo_db"
    using demo_db_naked by (simp add: demo_stored_row_def new_row_def demo_row_leg_def still_open_def)
  show "keeps_ids demo_recovery_env" by (auto simp: keeps_ids_def demo_recovery_env_def)
  show "\<And>x. length (xe_uuid demo_exec_env) \<le> 8" by (simp add: demo_exec_env_def)
  show "en_incidents demo_start_engine = []" by (simp add: demo_start_engine_def new_engine_def)
  show "length (filter (\<lambda>i. inc_status i = ''open'') (db_incidents (fst demo_start))) < 200"
    by code_simp
qed

end
