(* ===== verification/Mapping_Store.thy ===== *)
theory Mapping_Store
  imports Parsing Market_Map Execution_Store
begin

text \<open>
  \<open>MarketMappingStore\<close> of \<open>arbiter/mapping/market_map.py\<close>: the table of market mappings, the statements on
  it, the safety rule for auto-trading, the discovery candidates, and what the store hands to the
  in-process cache; and the sweep of \<open>mapping/expire_settled.py\<close>.  The clock of the database and the hash
  of generated ids are arguments.  The stored resolution criteria are their JSON value.  The metrics of the
  dashboard, the pool and the widths of the columns are not modelled.
\<close>

section \<open>Mappings\<close>

datatype mapping_status = CANDIDATE | REVIEW | CONFIRMED | REJECTED | EXPIRED

definition mapping_status_text :: "mapping_status \<Rightarrow> string" where
  "mapping_status_text st = (case st of CANDIDATE \<Rightarrow> ''candidate'' | REVIEW \<Rightarrow> ''review''
     | CONFIRMED \<Rightarrow> ''confirmed'' | REJECTED \<Rightarrow> ''rejected'' | EXPIRED \<Rightarrow> ''expired'')"

definition coerce_status :: "string \<Rightarrow> mapping_status" where
  "coerce_status t = (if t = ''review'' then REVIEW else if t = ''confirmed'' then CONFIRMED
     else if t = ''rejected'' then REJECTED else if t = ''expired'' then EXPIRED else CANDIDATE)"

record market_mapping =
  mm_canonical_id :: string
  mm_description :: string
  mm_status :: mapping_status
  mm_allow_auto_trade :: bool
  mm_aliases :: "string list"
  mm_tags :: "string list"
  mm_kalshi_market_id :: string
  mm_polymarket_slug :: string
  mm_polymarket_question :: string
  mm_forecastex_contract_id :: string
  mm_forecastex_no_contract_id :: string
  mm_forecastex_not_available :: bool
  mm_notes :: string
  mm_review_note :: string
  mm_mapping_score :: flt
  mm_confidence :: flt
  mm_expires_at :: "flt option"
  mm_last_validated_at :: "flt option"
  mm_created_at :: flt
  mm_updated_at :: flt
  mm_resolution_criteria :: "json option"
  mm_resolution_match_status :: string

definition pending_review :: string where
  "pending_review = ''pending_operator_review''"

definition new_mapping :: "flt \<Rightarrow> string \<Rightarrow> string \<Rightarrow> mapping_status \<Rightarrow> market_mapping" where
  "new_mapping now cid description st =
     \<lparr> mm_canonical_id = cid, mm_description = description, mm_status = st, mm_allow_auto_trade = False,
       mm_aliases = [], mm_tags = [], mm_kalshi_market_id = [], mm_polymarket_slug = [],
       mm_polymarket_question = [], mm_forecastex_contract_id = [], mm_forecastex_no_contract_id = [],
       mm_forecastex_not_available = False, mm_notes = [], mm_review_note = [], mm_mapping_score = 0,
       mm_confidence = 0, mm_expires_at = None, mm_last_validated_at = None, mm_created_at = now,
       mm_updated_at = now, mm_resolution_criteria = None, mm_resolution_match_status = pending_review \<rparr>"

text \<open>\<open>from_record\<close>; the second argument is the JSON of the criteria of the record.\<close>

definition mapping_from_record :: "flt \<Rightarrow> market_mapping_record \<Rightarrow> json option \<Rightarrow> market_mapping" where
  "mapping_from_record now r crit =
     (let score = (if mr_status r = ''confirmed'' \<and> mr_allow_auto_trade r
                      \<and> mr_resolution_match_status r = ''identical'' then 1
                   else if mr_aliases r \<noteq> [] then similarity_score [mr_description r, join_blank (mr_aliases r)]
                   else 0)
      in (new_mapping now (mr_canonical_id r) (mr_description r) (coerce_status (mr_status r)))
         \<lparr> mm_allow_auto_trade := mr_allow_auto_trade r, mm_aliases := mr_aliases r, mm_tags := mr_tags r,
           mm_kalshi_market_id := mr_kalshi r, mm_polymarket_slug := mr_polymarket r,
           mm_polymarket_question := mr_polymarket_question r, mm_forecastex_contract_id := mr_forecastex r,
           mm_forecastex_no_contract_id := mr_forecastex_no r, mm_notes := mr_notes r,
           mm_mapping_score := score, mm_confidence := score, mm_resolution_criteria := crit,
           mm_resolution_match_status := or_str (mr_resolution_match_status r) pending_review \<rparr>)"

text \<open>\<open>str(x or "")\<close>; a settlement date that is no text is compared as a value.\<close>

definition text_or_empty :: "json \<Rightarrow> string" where
  "text_or_empty j = (if truthy j then json_text j else [])"

definition object_of :: "json option \<Rightarrow> (string \<times> json) list" where
  "object_of j = (case j of Some (JObj d) \<Rightarrow> d | _ \<Rightarrow> [])"

definition criteria_polarity :: "market_mapping \<Rightarrow> string" where
  "criteria_polarity m = py_lower (text_or_empty (jget (object_of (mm_resolution_criteria m)) ''polarity''))"

definition settlement_date :: "market_mapping \<Rightarrow> string \<Rightarrow> json" where
  "settlement_date m venue =
     jget (object_of (Some (jget (object_of (mm_resolution_criteria m)) venue))) ''settlement_date''"

definition same_settlement :: "market_mapping \<Rightarrow> bool" where
  "same_settlement m =
     (truthy (settlement_date m ''kalshi'') \<and> settlement_date m ''kalshi'' = settlement_date m ''polymarket'')"

definition enforce_auto_trade_safety :: "market_mapping \<Rightarrow> market_mapping" where
  "enforce_auto_trade_safety m =
     (if \<not> mm_allow_auto_trade m then m
      else if py_lower (mm_resolution_match_status m) \<noteq> ''identical'' then m\<lparr>mm_allow_auto_trade := False\<rparr>
      else if ''sports'' \<notin> set (map py_lower (mm_tags m)) then m
      else if criteria_polarity m \<noteq> ''same'' then m\<lparr>mm_allow_auto_trade := False\<rparr>
      else if \<not> same_settlement m then m\<lparr>mm_allow_auto_trade := False\<rparr>
      else m)"

section \<open>What the cache is handed\<close>

definition platform_criteria_of :: "json \<Rightarrow> platform_criteria option" where
  "platform_criteria_of j =
     (case j of JObj d \<Rightarrow> Some \<lparr> pc_source = text_or_empty (jget d ''source''),
          pc_rule = text_or_empty (jget d ''rule''), pc_settlement_date = text_or_empty (jget d ''settlement_date'') \<rparr>
      | _ \<Rightarrow> None)"

definition text_of :: "json \<Rightarrow> string option" where
  "text_of j = (case j of JStr s \<Rightarrow> Some s | _ \<Rightarrow> None)"

definition criteria_of_json :: "json \<Rightarrow> criteria" where
  "criteria_of_json j =
     (let d = object_of (Some j)
      in \<lparr> crit_kalshi = platform_criteria_of (jget d ''kalshi''),
           crit_polymarket = platform_criteria_of (jget d ''polymarket''),
           criteria_match = text_of (jget d ''criteria_match''), operator_note = text_of (jget d ''operator_note'') \<rparr>)"

text \<open>\<open>to_dict\<close>, as far as the cache has its keys.\<close>

definition mapping_to_dict :: "market_mapping \<Rightarrow> mapping_dict" where
  "mapping_to_dict m = empty_mapping
     \<lparr> m_canonical_id := Some (mm_canonical_id m), m_description := Some (mm_description m),
       m_status := Some (mapping_status_text (mm_status m)), m_allow_auto_trade := Some (mm_allow_auto_trade m),
       m_aliases := Some (mm_aliases m), m_tags := Some (mm_tags m), m_kalshi := Some (mm_kalshi_market_id m),
       m_polymarket := Some (mm_polymarket_slug m), m_polymarket_question := Some (mm_polymarket_question m),
       m_forecastex := Some (mm_forecastex_contract_id m),
       m_forecastex_no := Some (mm_forecastex_no_contract_id m), m_notes := Some (mm_notes m),
       m_review_note := Some (mm_review_note m), m_mapping_score := Some (mm_mapping_score m),
       m_confidence := Some (mm_confidence m), m_updated_at := Some (mm_updated_at m),
       m_resolution_criteria := Some (map_option criteria_of_json (mm_resolution_criteria m)),
       m_resolution_match_status := Some (mm_resolution_match_status m) \<rparr>"

record venue_candidate =
  vc_id :: int
  vc_canonical_id :: string
  vc_platform :: string
  vc_platform_market_id :: string
  vc_description :: string
  vc_match_score :: flt
  vc_status :: string
  vc_reviewed_at :: "flt option"
  vc_reviewer_note :: string
  vc_created_at :: flt

record mapping_db =
  md_rows :: "market_mapping list"
  md_candidates :: "venue_candidate list"
  md_next_candidate :: int
  md_cache :: market_map

definition empty_mapping_db :: mapping_db where
  "empty_mapping_db = \<lparr>md_rows = [], md_candidates = [], md_next_candidate = 1, md_cache = []\<rparr>"

definition pop_cached :: "string list \<Rightarrow> mapping_db \<Rightarrow> mapping_db" where
  "pop_cached ids db = db\<lparr>md_cache := fold AList.delete ids (md_cache db)\<rparr>"

definition cache_mapping :: "market_mapping \<Rightarrow> mapping_db \<Rightarrow> mapping_db" where
  "cache_mapping m db =
     db\<lparr>md_cache := fst (upsert_runtime_market_mapping (mm_canonical_id m) (mapping_to_dict m) (md_cache db))\<rparr>"

section \<open>Rows\<close>

definition row_exists :: "string \<Rightarrow> mapping_db \<Rightarrow> bool" where
  "row_exists cid db = (cid \<in> mm_canonical_id ` set (md_rows db))"

definition get_mapping :: "string \<Rightarrow> mapping_db \<Rightarrow> market_mapping option" where
  "get_mapping cid db = find (\<lambda>r. mm_canonical_id r = cid) (md_rows db)"

definition update_rows ::
  "(market_mapping \<Rightarrow> bool) \<Rightarrow> (market_mapping \<Rightarrow> market_mapping) \<Rightarrow> mapping_db \<Rightarrow> mapping_db" where
  "update_rows P f db = db\<lparr>md_rows := map (\<lambda>r. if P r then f r else r) (md_rows db)\<rparr>"

text \<open>\<open>RETURNING\<close> tells whether a row was touched.\<close>

definition touches :: "(market_mapping \<Rightarrow> bool) \<Rightarrow> mapping_db \<Rightarrow> bool" where
  "touches P db = list_ex P (md_rows db)"

definition disable_auto_trade :: "flt \<Rightarrow> string \<Rightarrow> string \<Rightarrow> mapping_db \<Rightarrow> mapping_db \<times> bool" where
  "disable_auto_trade now cid reason db =
     (let P = (\<lambda>r. mm_canonical_id r = cid \<and> mm_allow_auto_trade r)
      in (update_rows P (\<lambda>r. r\<lparr> mm_allow_auto_trade := False, mm_updated_at := now,
            mm_notes := mm_notes r @ newline @ ''[auto-disabled {}: '' @ reason @ '']'' \<rparr>) db, touches P db))"

definition mark_forecastex_unavailable :: "flt \<Rightarrow> string \<Rightarrow> bool \<Rightarrow> mapping_db \<Rightarrow> mapping_db \<times> bool" where
  "mark_forecastex_unavailable now cid unavailable db =
     (let P = (\<lambda>r. mm_canonical_id r = cid)
      in (update_rows P (\<lambda>r. r\<lparr>mm_forecastex_not_available := unavailable, mm_updated_at := now\<rparr>) db, touches P db))"

definition set_forecastex_conid :: "flt \<Rightarrow> string \<Rightarrow> string \<Rightarrow> string \<Rightarrow> mapping_db \<Rightarrow> mapping_db \<times> bool" where
  "set_forecastex_conid now cid conid side db =
     (let P = (\<lambda>r. mm_canonical_id r = cid)
      in (update_rows P (\<lambda>r. (if side = ''no'' then r\<lparr>mm_forecastex_no_contract_id := conid\<rparr>
                               else r\<lparr>mm_forecastex_contract_id := conid\<rparr>)\<lparr>mm_updated_at := now\<rparr>) db,
          touches P db))"

definition active :: "mapping_status \<Rightarrow> bool" where
  "active st = (st = CONFIRMED \<or> st = CANDIDATE \<or> st = REVIEW)"

definition expire_row :: "flt \<Rightarrow> market_mapping \<Rightarrow> market_mapping" where
  "expire_row now r =
     r\<lparr> mm_status := EXPIRED, mm_allow_auto_trade := False,
        mm_review_note := or_str (mm_review_note r) ''Expired duplicate exact venue pair by latest discovery sync.'',
        mm_updated_at := now \<rparr>"

text \<open>\<open>_expire_duplicate_exact_pair_mappings\<close>: the other active rows with the venue pair of the mapping.\<close>

definition duplicate_of :: "market_mapping \<Rightarrow> market_mapping \<Rightarrow> bool" where
  "duplicate_of m r =
     (mm_status m = CONFIRMED \<and> py_strip (mm_kalshi_market_id m) \<noteq> [] \<and> py_strip (mm_polymarket_slug m) \<noteq> []
      \<and> mm_canonical_id r \<noteq> mm_canonical_id m \<and> mm_kalshi_market_id r = py_strip (mm_kalshi_market_id m)
      \<and> mm_polymarket_slug r = py_strip (mm_polymarket_slug m) \<and> active (mm_status r))"

definition stored_row :: "flt \<Rightarrow> market_mapping \<Rightarrow> market_mapping" where
  "stored_row now m =
     m\<lparr> mm_mapping_score := pg_round 4 (mm_mapping_score m), mm_confidence := pg_round 4 (mm_confidence m),
        mm_updated_at := now, mm_forecastex_not_available := False,
        mm_resolution_match_status := or_str (mm_resolution_match_status m) pending_review \<rparr>"

text \<open>The columns the statement does not set stay on an existing row.\<close>

definition write_row :: "flt \<Rightarrow> market_mapping \<Rightarrow> mapping_db \<Rightarrow> mapping_db" where
  "write_row now m db =
     (if row_exists (mm_canonical_id m) db
      then update_rows (\<lambda>r. mm_canonical_id r = mm_canonical_id m)
             (\<lambda>r. (stored_row now m)\<lparr> mm_created_at := mm_created_at r,
                                      mm_forecastex_not_available := mm_forecastex_not_available r \<rparr>) db
      else db\<lparr>md_rows := md_rows db @ [stored_row now m]\<rparr>)"

definition upsert_mapping :: "flt \<Rightarrow> market_mapping \<Rightarrow> mapping_db \<Rightarrow> mapping_db \<times> market_mapping" where
  "upsert_mapping now m0 db =
     (let m = (enforce_auto_trade_safety m0)\<lparr>mm_updated_at := now\<rparr>;
          db1 = write_row now m db;
          gone = map mm_canonical_id (filter (duplicate_of m) (md_rows db1));
          db2 = update_rows (duplicate_of m) (expire_row now) db1
      in (cache_mapping m (pop_cached gone db2), m))"

definition update_mapping_status ::
  "flt \<Rightarrow> string \<Rightarrow> mapping_status \<Rightarrow> string \<Rightarrow> bool option \<Rightarrow> mapping_db \<Rightarrow> mapping_db \<times> market_mapping option" where
  "update_mapping_status now cid st remark auto db =
     (case get_mapping cid db of
        None \<Rightarrow> (db, None)
      | Some m \<Rightarrow>
          let (db', m') = upsert_mapping now
                (m\<lparr> mm_status := st, mm_review_note := remark,
                    mm_allow_auto_trade := (case auto of None \<Rightarrow> mm_allow_auto_trade m | Some b \<Rightarrow> b),
                    mm_updated_at := now \<rparr>) db
          in (db', Some m'))"

definition delete_mapping :: "string \<Rightarrow> mapping_db \<Rightarrow> mapping_db \<times> bool" where
  "delete_mapping cid db =
     (if row_exists cid db
      then (pop_cached [cid] (db\<lparr>md_rows := filter (\<lambda>r. mm_canonical_id r \<noteq> cid) (md_rows db)\<rparr>), True)
      else (db, False))"

section \<open>Queries\<close>

definition iter_confirmed :: "bool \<Rightarrow> mapping_db \<Rightarrow> market_mapping list" where
  "iter_confirmed require_auto_trade db =
     sort_key mm_description (filter (\<lambda>r. mm_status r = CONFIRMED \<and> (require_auto_trade \<longrightarrow> mm_allow_auto_trade r))
       (md_rows db))"

definition lookup_rank :: "mapping_status \<Rightarrow> nat" where
  "lookup_rank st = (case st of CONFIRMED \<Rightarrow> 0 | REVIEW \<Rightarrow> 1 | CANDIDATE \<Rightarrow> 2 | _ \<Rightarrow> 3)"

text \<open>\<open>LIKE 'AUTO_%'\<close>: the underscore stands for any character.\<close>

definition auto_named :: "string \<Rightarrow> bool" where
  "auto_named cid = (starts_with ''AUTO'' cid \<and> 5 \<le> length cid)"

definition by_rank :: "market_mapping list \<Rightarrow> market_mapping list" where
  "by_rank rs =
     sort_key (\<lambda>r. lookup_rank (mm_status r))
       (sort_key (\<lambda>r. if auto_named (mm_canonical_id r) then 1 else 0 :: nat)
          (sort_key (\<lambda>r. - mm_updated_at r) rs))"

definition first_of :: "'a list \<Rightarrow> 'a option" where
  "first_of xs = (case xs of [] \<Rightarrow> None | x # _ \<Rightarrow> Some x)"

definition venue_column :: "string \<Rightarrow> (market_mapping \<Rightarrow> string) option" where
  "venue_column platform =
     (let p = py_lower platform
      in if p = ''kalshi'' then Some mm_kalshi_market_id else if p = ''polymarket'' then Some mm_polymarket_slug
         else if p = ''forecastex'' then Some mm_forecastex_contract_id else None)"

definition get_by_platform :: "string \<Rightarrow> string \<Rightarrow> mapping_db \<Rightarrow> market_mapping option" where
  "get_by_platform platform mid db =
     (case venue_column platform of
        None \<Rightarrow> None
      | Some col \<Rightarrow> first_of (by_rank (filter (\<lambda>r. col r = mid \<and> col r \<noteq> []) (md_rows db))))"

definition get_by_exact_pair :: "string \<Rightarrow> string \<Rightarrow> mapping_db \<Rightarrow> market_mapping option" where
  "get_by_exact_pair k p db =
     first_of (by_rank (filter (\<lambda>r. mm_kalshi_market_id r = k \<and> mm_polymarket_slug r = p) (md_rows db)))"

fun sql_like :: "string \<Rightarrow> string \<Rightarrow> bool" where
  "sql_like [] s = (s = [])"
| "sql_like (p # ps) [] = (p = CHR ''%'' \<and> sql_like ps [])"
| "sql_like (p # ps) (c # s) =
     (if p = CHR ''%'' then sql_like ps (c # s) \<or> sql_like (p # ps) s
      else if p = CHR ''_'' then sql_like ps s
      else if p = CHR 0x5C then (case ps of [] \<Rightarrow> False | q # qs \<Rightarrow> q = c \<and> sql_like qs s)
      else p = c \<and> sql_like ps s)"

definition search_candidates :: "string \<Rightarrow> string option \<Rightarrow> flt \<Rightarrow> nat \<Rightarrow> mapping_db \<Rightarrow> market_mapping list" where
  "search_candidates query platform min_score limit db =
     (let q = ''%'' @ py_lower query @ ''%'';
          on_venue = (\<lambda>r. case platform of None \<Rightarrow> True | Some p \<Rightarrow>
                            (case (if p = [] then None else venue_column p) of
                               None \<Rightarrow> True | Some col \<Rightarrow> col r \<noteq> []))
      in take limit (sort_key (\<lambda>r. - mm_confidence r)
           (filter (\<lambda>r. (sql_like q (py_lower (mm_description r)) \<or> q \<in> set (map py_lower (mm_aliases r)))
              \<and> on_venue r \<and> min_score \<le> mm_confidence r) (md_rows db))))"

definition list_rank :: "mapping_status \<Rightarrow> nat" where
  "list_rank st = (case st of CONFIRMED \<Rightarrow> 0 | CANDIDATE \<Rightarrow> 1 | REVIEW \<Rightarrow> 2 | REJECTED \<Rightarrow> 3 | EXPIRED \<Rightarrow> 4)"

definition all_mappings :: "mapping_status option \<Rightarrow> nat \<Rightarrow> mapping_db \<Rightarrow> market_mapping list" where
  "all_mappings status limit db =
     take limit (case status of
         Some st \<Rightarrow> sort_key mm_description (filter (\<lambda>r. mm_status r = st) (md_rows db))
       | None \<Rightarrow> sort_key (\<lambda>r. list_rank (mm_status r)) (sort_key mm_description (md_rows db)))"

definition count_candidates :: "mapping_db \<Rightarrow> nat" where
  "count_candidates db = length (filter (\<lambda>r. mm_status r = CANDIDATE \<or> mm_status r = REVIEW) (md_rows db))"

definition count_key :: "string \<Rightarrow> (string, nat) dict \<Rightarrow> (string, nat) dict" where
  "count_key k d = AList.update k (dget d k 0 + 1) d"

definition count_by_status :: "mapping_db \<Rightarrow> (string, nat) dict" where
  "count_by_status db = fold (\<lambda>r. count_key (mapping_status_text (mm_status r))) (md_rows db) []"

definition confirmed_rows :: "mapping_db \<Rightarrow> market_mapping list" where
  "confirmed_rows db = filter (\<lambda>r. mm_status r = CONFIRMED) (md_rows db)"

definition conids_of :: "market_mapping \<Rightarrow> string list" where
  "conids_of r =
     filter (\<lambda>c. c \<noteq> [] \<and> c \<noteq> ''0'')
       [py_strip (mm_forecastex_contract_id r), py_strip (mm_forecastex_no_contract_id r)]"

definition fx_conid_owner_counts :: "mapping_db \<Rightarrow> (string, nat) dict" where
  "fx_conid_owner_counts db = fold count_key (concat (map conids_of (confirmed_rows db))) []"

definition kalshi_key :: "string \<Rightarrow> string" where
  "kalshi_key k = ''kalshi:'' @ py_strip k"

definition polymarket_key :: "string \<Rightarrow> string" where
  "polymarket_key p = ''polymarket:'' @ py_strip p"

definition market_keys :: "market_mapping \<Rightarrow> string list" where
  "market_keys r =
     (if py_strip (mm_kalshi_market_id r) = [] then [] else [kalshi_key (mm_kalshi_market_id r)])
     @ (if py_strip (mm_polymarket_slug r) = [] then [] else [polymarket_key (mm_polymarket_slug r)])"

definition market_owner_counts :: "mapping_db \<Rightarrow> (string, nat) dict" where
  "market_owner_counts db = fold count_key (concat (map market_keys (confirmed_rows db))) []"

section \<open>The cache of the process\<close>

definition same_markets :: "market_mapping \<Rightarrow> market_mapping \<Rightarrow> bool" where
  "same_markets r s =
     (mm_kalshi_market_id r = mm_kalshi_market_id s \<and> mm_polymarket_slug r = mm_polymarket_slug s)"

definition paired :: "market_mapping \<Rightarrow> bool" where
  "paired r = (active (mm_status r) \<and> mm_kalshi_market_id r \<noteq> [] \<and> mm_polymarket_slug r \<noteq> [])"

text \<open>A row whose row number in its pair is above one.\<close>

definition outranked :: "mapping_db \<Rightarrow> market_mapping \<Rightarrow> bool" where
  "outranked db r =
     (paired r \<and> map_option mm_canonical_id (first_of (by_rank (filter (\<lambda>s. paired s \<and> same_markets s r) (md_rows db))))
        \<noteq> Some (mm_canonical_id r))"

definition expire_duplicate_active_pairs :: "flt \<Rightarrow> mapping_db \<Rightarrow> mapping_db \<times> nat" where
  "expire_duplicate_active_pairs now db =
     (let gone = map mm_canonical_id (filter (outranked db) (md_rows db))
      in (pop_cached gone (update_rows (outranked db) (expire_row now) db), length gone))"

definition cache_rank :: "mapping_status \<Rightarrow> nat" where
  "cache_rank st = (case st of CONFIRMED \<Rightarrow> 0 | CANDIDATE \<Rightarrow> 1 | _ \<Rightarrow> 2)"

definition refresh_runtime_cache :: "flt \<Rightarrow> mapping_db \<Rightarrow> mapping_db \<times> nat" where
  "refresh_runtime_cache now db =
     (let db1 = fst (expire_duplicate_active_pairs now db);
          merged = take 5000 (sort_key (\<lambda>r. cache_rank (mm_status r)) (sort_key (\<lambda>r. - mm_updated_at r)
                     (filter (\<lambda>r. active (mm_status r)) (md_rows db1))))
      in (db1\<lparr>md_cache := replace_runtime_market_map (map (\<lambda>r. (mm_canonical_id r, mapping_to_dict r)) merged)\<rparr>,
          length merged))"

text \<open>The seeds; columns an \<open>INSERT\<close> of them leaves out have their defaults or stay.\<close>

definition seed_row :: "flt \<Rightarrow> market_mapping \<Rightarrow> mapping_db \<Rightarrow> mapping_db" where
  "seed_row now m db =
     (if row_exists (mm_canonical_id m) db
      then update_rows (\<lambda>r. mm_canonical_id r = mm_canonical_id m)
             (\<lambda>r. (stored_row now m)\<lparr> mm_created_at := mm_created_at r, mm_review_note := mm_review_note r,
                    mm_expires_at := mm_expires_at r, mm_last_validated_at := mm_last_validated_at r,
                    mm_forecastex_not_available := mm_forecastex_not_available r \<rparr>) db
      else db\<lparr>md_rows := md_rows db @ [stored_row now m]\<rparr>)"

fun seed_records ::
  "flt \<Rightarrow> bool \<Rightarrow> (market_mapping_record \<times> json option) list \<Rightarrow> mapping_db \<Rightarrow> mapping_db \<times> nat" where
  "seed_records now overwrite [] db = (db, 0)"
| "seed_records now overwrite ((r, crit) # rs) db =
     (if row_exists (mr_canonical_id r) db \<and> \<not> overwrite then seed_records now overwrite rs db
      else let (db', n) = seed_records now overwrite rs
                 (seed_row now (enforce_auto_trade_safety (mapping_from_record now r crit)) db)
           in (db', n + 1))"

definition seed_from_records ::
  "flt \<Rightarrow> bool \<Rightarrow> (market_mapping_record \<times> json option) list \<Rightarrow> mapping_db \<Rightarrow> mapping_db \<times> nat" where
  "seed_from_records now overwrite rs db =
     (let (db1, n) = seed_records now overwrite rs db in (fst (refresh_runtime_cache now db1), n))"

section \<open>Discovery\<close>

text \<open>
  A discovery candidate; \<open>None\<close> is a key that is absent.  The texts that the code reads as
  \<open>str(candidate.get(k, "") or "")\<close> are empty when absent.
\<close>

record discovered =
  cd_kalshi_ticker :: string
  cd_poly_slug :: string
  cd_canonical_id :: string
  cd_poly_question :: string
  cd_kalshi_title :: string
  cd_description :: string
  cd_notes :: string
  cd_score :: flt
  cd_status :: "string option"
  cd_allow_auto_trade :: bool
  cd_resolution_criteria :: "json option"
  cd_review_note :: "string option"
  cd_resolution_match_status :: "string option"

definition candidate_description :: "'a discovered_scheme \<Rightarrow> string \<Rightarrow> string" where
  "candidate_description c fallback =
     (case filter (\<lambda>t. t \<noteq> []) [py_strip (cd_poly_question c), py_strip (cd_kalshi_title c), py_strip (cd_description c)]
      of t # _ \<Rightarrow> t | [] \<Rightarrow> or_str fallback ''Auto-discovered market candidate'')"

definition generated_candidate_id :: "(string \<Rightarrow> string) \<Rightarrow> string \<Rightarrow> string \<Rightarrow> string" where
  "generated_candidate_id sha1 k p =
     (let base = or_str (take 24 (py_upper (map (\<lambda>c. if c = CHR '' '' then CHR ''_'' else c)
                   (join_blank (words_of [] (py_lower k)))))) ''MARKET''
      in ''AUTO_'' @ base @ ''_'' @ take 12 (sha1 (k @ ''|'' @ p)))"

definition protected_status :: "mapping_status \<Rightarrow> bool" where
  "protected_status st = (st = REVIEW \<or> st = REJECTED \<or> st = EXPIRED)"

text \<open>The row a candidate belongs to: \<open>None\<close> when a confirmed mapping of another id has one of its markets.\<close>

definition owned_elsewhere :: "market_mapping option \<Rightarrow> market_mapping option \<Rightarrow> bool" where
  "owned_elsewhere a b =
     (case a of None \<Rightarrow> False
      | Some x \<Rightarrow> mm_status x = CONFIRMED \<and> map_option mm_canonical_id b \<noteq> Some (mm_canonical_id x))"

definition fresh_candidate ::
  "(string \<Rightarrow> string) \<Rightarrow> flt \<Rightarrow> 'a discovered_scheme \<Rightarrow> string \<Rightarrow> string \<Rightarrow> market_mapping" where
  "fresh_candidate sha1 now c k p =
     (new_mapping now (or_str (py_strip (cd_canonical_id c)) (generated_candidate_id sha1 k p))
        (candidate_description c []) CANDIDATE)\<lparr>mm_kalshi_market_id := k, mm_polymarket_slug := p\<rparr>"

definition free_half :: "market_mapping option \<Rightarrow> (market_mapping \<Rightarrow> string) \<Rightarrow> market_mapping option" where
  "free_half a other =
     (case a of None \<Rightarrow> None | Some x \<Rightarrow> if other x = [] \<and> mm_status x \<noteq> CONFIRMED then Some x else None)"

definition row_for_candidate ::
  "(string \<Rightarrow> string) \<Rightarrow> flt \<Rightarrow> 'a discovered_scheme \<Rightarrow> string \<Rightarrow> string \<Rightarrow> mapping_db \<Rightarrow> market_mapping option" where
  "row_for_candidate sha1 now c k p db =
     (let pair = get_by_exact_pair k p db;
          km = get_by_platform ''kalshi'' k db; pm = get_by_platform ''polymarket'' p db;
          same = (case (km, pm) of (Some x, Some y) \<Rightarrow> if mm_canonical_id x = mm_canonical_id y then Some x else None
                  | _ \<Rightarrow> None)
      in case pair of Some x \<Rightarrow> Some x
         | None \<Rightarrow>
             if owned_elsewhere km pm \<or> owned_elsewhere pm km then None
             else Some (case same of Some x \<Rightarrow> x
                    | None \<Rightarrow> (case free_half km mm_polymarket_slug of Some x \<Rightarrow> x
                        | None \<Rightarrow> (case free_half pm mm_kalshi_market_id of Some y \<Rightarrow> y
                            | None \<Rightarrow> fresh_candidate sha1 now c k p))))"

text \<open>A confirmation without criteria is a review.\<close>

definition candidate_status :: "'a discovered_scheme \<Rightarrow> mapping_status" where
  "candidate_status c =
     (let st = coerce_status (case cd_status c of None \<Rightarrow> ''candidate'' | Some t \<Rightarrow> t)
      in if st = CONFIRMED \<and> cd_resolution_criteria c = None then REVIEW else st)"

definition candidate_review_note :: "'a discovered_scheme \<Rightarrow> market_mapping \<Rightarrow> string" where
  "candidate_review_note c m =
     (let old = mm_review_note m
      in if protected_status (mm_status m) \<and> old \<noteq> [] then old
         else case cd_review_note c of
           Some t \<Rightarrow> t
         | None \<Rightarrow> if candidate_status c = CONFIRMED \<and> starts_with ''Expired'' old then [] else old)"

definition candidate_match_status :: "'a discovered_scheme \<Rightarrow> market_mapping \<Rightarrow> string" where
  "candidate_match_status c m =
     (if candidate_status c = REVIEW \<and> cd_resolution_criteria c = None \<and> mm_resolution_criteria m = None
      then pending_review
      else or_str (case cd_resolution_match_status c of
             None \<Rightarrow> or_str (mm_resolution_match_status m) pending_review | Some t \<Rightarrow> t) pending_review)"

definition settle_status :: "'a discovered_scheme \<Rightarrow> mapping_status \<Rightarrow> bool \<Rightarrow> mapping_status \<times> bool" where
  "settle_status c st auto =
     (if protected_status st then (st, False)
      else if st = CONFIRMED then (CONFIRMED, auto)
      else if candidate_status c = CONFIRMED then (CONFIRMED, cd_allow_auto_trade c)
      else if candidate_status c = REVIEW then (REVIEW, False)
      else (CANDIDATE, False))"

definition apply_candidate :: "'a discovered_scheme \<Rightarrow> string \<Rightarrow> string \<Rightarrow> market_mapping \<Rightarrow> market_mapping" where
  "apply_candidate c k p m =
     m\<lparr> mm_description := candidate_description c (mm_description m), mm_kalshi_market_id := k,
        mm_polymarket_slug := p, mm_polymarket_question := or_str (cd_poly_question c) (mm_polymarket_question m),
        mm_mapping_score := cd_score c, mm_confidence := cd_score c,
        mm_notes := or_str (cd_notes c) (or_str (mm_notes m) ''Auto-discovered candidate mapping.''),
        mm_review_note := candidate_review_note c m,
        mm_resolution_criteria := or_else (cd_resolution_criteria c) (mm_resolution_criteria m),
        mm_resolution_match_status := candidate_match_status c m,
        mm_status := fst (settle_status c (mm_status m) (mm_allow_auto_trade m)),
        mm_allow_auto_trade := snd (settle_status c (mm_status m) (mm_allow_auto_trade m)) \<rparr>"

definition mapping_from_candidate ::
  "(string \<Rightarrow> string) \<Rightarrow> flt \<Rightarrow> 'a discovered_scheme \<Rightarrow> mapping_db \<Rightarrow> market_mapping option" where
  "mapping_from_candidate sha1 now c db =
     (let k = py_strip (cd_kalshi_ticker c); p = py_strip (cd_poly_slug c)
      in if k = [] \<or> p = [] then None
         else map_option (apply_candidate c k p) (row_for_candidate sha1 now c k p db))"

fun write_candidates ::
  "(string \<Rightarrow> string) \<Rightarrow> flt \<Rightarrow> 'a discovered_scheme list \<Rightarrow> mapping_db \<Rightarrow> mapping_db \<times> nat" where
  "write_candidates sha1 now [] db = (db, 0)"
| "write_candidates sha1 now (c # cs) db =
     (case mapping_from_candidate sha1 now c db of
        None \<Rightarrow> write_candidates sha1 now cs db
      | Some m \<Rightarrow> let (db', n) = write_candidates sha1 now cs (fst (upsert_mapping now m db)) in (db', n + 1))"

definition is_expirable_auto_candidate :: "market_mapping \<Rightarrow> bool" where
  "is_expirable_auto_candidate m =
     (mm_status m = CANDIDATE \<and> \<not> mm_allow_auto_trade m
      \<and> (starts_with ''AUTO_'' (mm_canonical_id m) \<or> contains ''Auto-discovered candidate mapping'' (mm_notes m)))"

definition pair_of :: "string \<Rightarrow> string \<Rightarrow> string \<times> string" where
  "pair_of k p = (py_strip k, py_strip p)"

definition full_pair :: "string \<times> string \<Rightarrow> bool" where
  "full_pair kp = (fst kp \<noteq> [] \<and> snd kp \<noteq> [])"

definition fallen_out :: "'a discovered_scheme list \<Rightarrow> market_mapping \<Rightarrow> bool" where
  "fallen_out cs m =
     (let pair = pair_of (mm_kalshi_market_id m) (mm_polymarket_slug m)
      in is_expirable_auto_candidate m \<and> full_pair pair
         \<and> pair \<notin> set (filter full_pair (map (\<lambda>c. pair_of (cd_kalshi_ticker c) (cd_poly_slug c)) cs)))"

definition sync_candidates ::
  "(string \<Rightarrow> string) \<Rightarrow> flt \<Rightarrow> 'a discovered_scheme list \<Rightarrow> mapping_db \<Rightarrow> mapping_db \<times> nat" where
  "sync_candidates sha1 now cs db =
     (let (db1, n) = write_candidates sha1 now cs db;
          stale = filter (fallen_out cs) (all_mappings (Some CANDIDATE) 5000 db1)
      in (fold (\<lambda>m d. fst (upsert_mapping now (m\<lparr> mm_status := EXPIRED, mm_allow_auto_trade := False,
                 mm_review_note := ''Expired by latest discovery sync.'' \<rparr>) d)) stale db1, n))"

section \<open>Candidates of one venue\<close>

definition get_candidates :: "string \<Rightarrow> nat \<Rightarrow> mapping_db \<Rightarrow> venue_candidate list" where
  "get_candidates status limit db =
     take limit (sort_key (\<lambda>v. - vc_match_score v) (sort_key (\<lambda>v. - vc_created_at v)
       (filter (\<lambda>v. vc_status v = status) (md_candidates db))))"

definition add_candidate :: "flt \<Rightarrow> string \<Rightarrow> string \<Rightarrow> string \<Rightarrow> string \<Rightarrow> flt \<Rightarrow> mapping_db \<Rightarrow> mapping_db" where
  "add_candidate now cid platform mid description score db =
     (let same = (\<lambda>v. vc_platform v = platform \<and> vc_platform_market_id v = mid)
      in if list_ex same (md_candidates db)
         then db\<lparr>md_candidates := map (\<lambda>v. if same v
                   then v\<lparr> vc_match_score := pg_round 4 score, vc_canonical_id := cid, vc_description := description \<rparr>
                   else v) (md_candidates db)\<rparr>
         else db\<lparr> md_candidates := md_candidates db @
                   [\<lparr> vc_id = md_next_candidate db, vc_canonical_id = cid, vc_platform = platform,
                      vc_platform_market_id = mid, vc_description = description,
                      vc_match_score = pg_round 4 score, vc_status = ''pending'', vc_reviewed_at = None,
                      vc_reviewer_note = [], vc_created_at = now \<rparr>],
                  md_next_candidate := md_next_candidate db + 1 \<rparr>)"

definition approved_mapping :: "flt \<Rightarrow> venue_candidate \<Rightarrow> market_mapping" where
  "approved_mapping now v =
     (let m = new_mapping now (vc_canonical_id v) (vc_description v) CANDIDATE
      in if vc_platform v = ''kalshi'' then m\<lparr>mm_kalshi_market_id := vc_platform_market_id v\<rparr>
         else if vc_platform v = ''polymarket'' then m\<lparr>mm_polymarket_slug := vc_platform_market_id v\<rparr> else m)"

definition review_candidate ::
  "flt \<Rightarrow> int \<Rightarrow> string \<Rightarrow> string \<Rightarrow> mapping_db \<Rightarrow> mapping_db \<times> venue_candidate option" where
  "review_candidate now vid decision remark db =
     (case find (\<lambda>v. vc_id v = vid) (md_candidates db) of
        None \<Rightarrow> (db, None)
      | Some v \<Rightarrow>
          let db1 = (if decision = ''approve'' then fst (upsert_mapping now (approved_mapping now v) db) else db)
          in (db1\<lparr>md_candidates := map (\<lambda>w. if vc_id w = vid
                    then w\<lparr> vc_status := (if decision = ''approve'' then ''approved'' else ''rejected''),
                            vc_reviewed_at := Some now, vc_reviewer_note := remark \<rparr> else w) (md_candidates db1)\<rparr>,
              Some v))"

section \<open>Settled events\<close>

text \<open>The ordinal of a date in the Gregorian calendar, and the dates that exist.\<close>

definition leap_year :: "int \<Rightarrow> bool" where
  "leap_year y = (y mod 4 = 0 \<and> y mod 100 \<noteq> 0 \<or> y mod 400 = 0)"

definition days_in_month :: "int \<Rightarrow> int \<Rightarrow> int" where
  "days_in_month y m = (if m = 2 then if leap_year y then 29 else 28 else if m \<in> {4, 6, 9, 11} then 30 else 31)"

definition valid_date :: "int \<Rightarrow> int \<Rightarrow> int \<Rightarrow> bool" where
  "valid_date y m d = (1 \<le> y \<and> 1 \<le> m \<and> m \<le> 12 \<and> 1 \<le> d \<and> d \<le> days_in_month y m)"

definition ordinal :: "int \<Rightarrow> int \<Rightarrow> int \<Rightarrow> int" where
  "ordinal y m d =
     (let n = y - 1
      in n * 365 + n div 4 - n div 100 + n div 400 + sum_list (map (days_in_month y) [1..m - 1]) + d)"

fun digits_value :: "int \<Rightarrow> string \<Rightarrow> int option" where
  "digits_value acc [] = Some acc"
| "digits_value acc (c # cs) =
     (case digit_value c of None \<Rightarrow> None | Some d \<Rightarrow> digits_value (acc * 10 + d) cs)"

definition date_of_digits :: "string \<Rightarrow> int option" where
  "date_of_digits t =
     (case (digits_value 0 (take 4 t), digits_value 0 (take 2 (drop 4 t)), digits_value 0 (drop 6 t)) of
        (Some y, Some m, Some d) \<Rightarrow> if length t = 8 \<and> valid_date y m d then Some (ordinal y m d) else None
      | _ \<Rightarrow> None)"

definition upper_letter :: "char \<Rightarrow> bool" where
  "upper_letter c = (let n = (of_char c :: nat) in 65 \<le> n \<and> n \<le> 90)"

text \<open>
  \<open>parse_settled_date\<close>: after at least two segments of capital letters one of eight digits, and then one
  that begins with a capital letter.  The first argument counts the segments before.
\<close>

function dated_segment :: "nat \<Rightarrow> string \<Rightarrow> string option" where
  "dated_segment n s =
     (let seg = takeWhile (\<lambda>c. c \<noteq> CHR ''_'') s; rest = drop (length seg) s
      in if rest = [] then None
         else if seg \<noteq> [] \<and> list_all upper_letter seg then dated_segment (n + 1) (tl rest)
         else if 2 \<le> n \<and> length seg = 8 \<and> list_all (\<lambda>c. digit_value c \<noteq> None) seg
                 \<and> tl rest \<noteq> [] \<and> upper_letter (hd (tl rest)) then Some seg
         else None)"
  by pat_completeness auto
termination
proof (relation "measure (\<lambda>(n, s). length s)", simp)
  fix n and s seg rest :: string
  assume "seg = takeWhile (\<lambda>c. c \<noteq> CHR ''_'') s" "rest = drop (length seg) s" "rest \<noteq> []"
  then show "((n + 1, tl rest), n, s) \<in> measure (\<lambda>(n, s). length s)" by auto
qed

definition parse_settled_date :: "string \<Rightarrow> int option" where
  "parse_settled_date cid = (case dated_segment 0 cid of None \<Rightarrow> None | Some t \<Rightarrow> date_of_digits t)"

definition settled_grace_hours :: flt where
  "settled_grace_hours = 9"

text \<open>The ordinal of a moment in seconds since the epoch.\<close>

definition settled_cutoff_date :: "flt \<Rightarrow> int" where
  "settled_cutoff_date now = ordinal 1970 1 1 + \<lfloor>(now - settled_grace_hours * 3600) / 86400\<rfloor>"

definition settled :: "int \<Rightarrow> market_mapping \<Rightarrow> bool" where
  "settled cutoff m = (case parse_settled_date (mm_canonical_id m) of None \<Rightarrow> False | Some d \<Rightarrow> d < cutoff)"

text \<open>\<open>fails\<close> tells for which mapping the update raises.\<close>

fun expire_each ::
  "flt \<Rightarrow> (string \<Rightarrow> bool) \<Rightarrow> string list \<Rightarrow> mapping_db \<Rightarrow> mapping_db \<times> string list" where
  "expire_each now fails [] db = (db, [])"
| "expire_each now fails (cid # ids) db =
     (if fails cid then expire_each now fails ids db
      else let (db', done_ids) = expire_each now fails ids
                 (fst (update_mapping_status now cid EXPIRED ''Auto-expired {}: event date {} is in the past.''
                         (Some False) db))
           in (db', cid # done_ids))"

definition expire_settled_confirmed_mappings ::
  "flt \<Rightarrow> (string \<Rightarrow> bool) \<Rightarrow> int option \<Rightarrow> mapping_db \<Rightarrow> mapping_db \<times> string list" where
  "expire_settled_confirmed_mappings now fails today db =
     (let cutoff = (case today of None \<Rightarrow> settled_cutoff_date now | Some d \<Rightarrow> d)
      in expire_each now fails (map mm_canonical_id (filter (settled cutoff) (iter_confirmed False db))) db)"


section \<open>Auto-trading needs proof\<close>

definition tradable_ok :: "market_mapping \<Rightarrow> bool" where
  "tradable_ok m =
     (mm_allow_auto_trade m \<longrightarrow> py_lower (mm_resolution_match_status m) = ''identical''
        \<and> (''sports'' \<in> set (map py_lower (mm_tags m)) \<longrightarrow> criteria_polarity m = ''same'' \<and> same_settlement m))"

lemma enforced_ok: "tradable_ok (enforce_auto_trade_safety m)"
  by (auto simp: enforce_auto_trade_safety_def tradable_ok_def criteria_polarity_def same_settlement_def
      settlement_date_def)

lemma enforced_keeps [simp]:
  "mm_canonical_id (enforce_auto_trade_safety m) = mm_canonical_id m" "mm_status (enforce_auto_trade_safety m) = mm_status m"
  "mm_kalshi_market_id (enforce_auto_trade_safety m) = mm_kalshi_market_id m"
  "mm_polymarket_slug (enforce_auto_trade_safety m) = mm_polymarket_slug m"
  by (simp_all add: enforce_auto_trade_safety_def)

lemma enforced_auto: "mm_allow_auto_trade (enforce_auto_trade_safety m) \<Longrightarrow> mm_allow_auto_trade m"
  by (auto simp: enforce_auto_trade_safety_def split: if_splits)

lemma off_ok: "\<not> mm_allow_auto_trade m \<Longrightarrow> tradable_ok m"
  by (simp add: tradable_ok_def)

lemma same_evidence:
  assumes "tradable_ok m" "mm_allow_auto_trade n \<longrightarrow> mm_allow_auto_trade m"
    and "mm_resolution_criteria n = mm_resolution_criteria m" "mm_tags n = mm_tags m"
    and "mm_resolution_match_status n = mm_resolution_match_status m"
  shows "tradable_ok n"
  using assms by (auto simp: tradable_ok_def criteria_polarity_def same_settlement_def settlement_date_def)

lemma stored_tradable: "tradable_ok m \<Longrightarrow> tradable_ok (stored_row now m)"
  by (cases "mm_allow_auto_trade m")
     (auto simp: tradable_ok_def stored_row_def criteria_polarity_def same_settlement_def settlement_date_def or_str_def
        py_lower_def)

lemma stored_keeps [simp]:
  "mm_canonical_id (stored_row now m) = mm_canonical_id m" "mm_status (stored_row now m) = mm_status m"
  "mm_kalshi_market_id (stored_row now m) = mm_kalshi_market_id m" "mm_polymarket_slug (stored_row now m) = mm_polymarket_slug m"
  "mm_allow_auto_trade (stored_row now m) = mm_allow_auto_trade m"
  by (simp_all add: stored_row_def)

lemma expired_keeps [simp]:
  "mm_canonical_id (expire_row now r) = mm_canonical_id r" "mm_status (expire_row now r) = EXPIRED"
  "\<not> mm_allow_auto_trade (expire_row now r)" "tradable_ok (expire_row now r)"
  by (simp_all add: expire_row_def off_ok)

section \<open>One confirmed row per venue pair\<close>

definition neat :: "market_mapping \<Rightarrow> bool" where
  "neat r = (py_strip (mm_kalshi_market_id r) = mm_kalshi_market_id r \<and> py_strip (mm_polymarket_slug r) = mm_polymarket_slug r
     \<and> mm_kalshi_market_id r \<noteq> [] \<and> mm_polymarket_slug r \<noteq> [])"

definition clash :: "market_mapping \<Rightarrow> market_mapping \<Rightarrow> bool" where
  "clash r s =
     (mm_status r = CONFIRMED \<and> mm_status s = CONFIRMED \<and> same_markets r s \<and> neat r
      \<and> mm_canonical_id r \<noteq> mm_canonical_id s)"

definition pairs_unique :: "market_mapping list \<Rightarrow> bool" where
  "pairs_unique rs = (\<not> list_ex (\<lambda>r. list_ex (clash r) rs) rs)"

lemma clash_sym: "clash r s = clash s r"
  by (auto simp: clash_def same_markets_def neat_def)

lemma pairs_uniqueI: "(\<And>r s. r \<in> set rs \<Longrightarrow> s \<in> set rs \<Longrightarrow> \<not> clash r s) \<Longrightarrow> pairs_unique rs"
  by (auto simp: pairs_unique_def list_ex_iff)

lemma pairs_uniqueD: "pairs_unique rs \<Longrightarrow> r \<in> set rs \<Longrightarrow> s \<in> set rs \<Longrightarrow> \<not> clash r s"
  by (auto simp: pairs_unique_def list_ex_iff)

text \<open>A row that is a later form of another one: what it shares with its former self cannot clash anew.\<close>

definition no_stronger :: "market_mapping \<Rightarrow> market_mapping \<Rightarrow> bool" where
  "no_stronger x r =
     (mm_canonical_id x = mm_canonical_id r \<and> mm_kalshi_market_id x = mm_kalshi_market_id r
      \<and> mm_polymarket_slug x = mm_polymarket_slug r \<and> (mm_status x = mm_status r \<or> mm_status x \<noteq> CONFIRMED))"

lemma no_stronger_refl [simp]: "no_stronger r r"
  by (simp add: no_stronger_def)

lemma expired_weaker [simp]: "no_stronger (expire_row now r) r"
  by (simp add: no_stronger_def expire_row_def)

lemma weaker_unique:
  assumes "pairs_unique rs" "\<And>x. x \<in> set xs \<Longrightarrow> \<exists>r \<in> set rs. no_stronger x r"
  shows "pairs_unique xs"
proof (rule pairs_uniqueI)
  fix x y assume "x \<in> set xs" "y \<in> set xs"
  then obtain r s where r: "r \<in> set rs" "no_stronger x r" and s: "s \<in> set rs" "no_stronger y s" using assms(2) by blast
  show "\<not> clash x y"
  proof
    assume "clash x y"
    then have "clash r s" using r(2) s(2) by (auto simp: clash_def no_stronger_def same_markets_def neat_def)
    then show False using pairs_uniqueD [OF assms(1) r(1) s(1)] by simp
  qed
qed

lemma subset_unique: "pairs_unique rs \<Longrightarrow> set xs \<subseteq> set rs \<Longrightarrow> pairs_unique xs"
  by (rule pairs_uniqueI) (blast dest: pairs_uniqueD)

section \<open>The invariant of the table\<close>

definition book_ok :: "mapping_db \<Rightarrow> bool" where
  "book_ok db = (distinct (map mm_canonical_id (md_rows db)) \<and> list_all tradable_ok (md_rows db) \<and> pairs_unique (md_rows db))"

lemma pop_rows [simp]: "md_rows (pop_cached ids db) = md_rows db" "md_candidates (pop_cached ids db) = md_candidates db"
  by (simp_all add: pop_cached_def)

lemma cache_rows [simp]: "md_rows (cache_mapping m db) = md_rows db" "md_candidates (cache_mapping m db) = md_candidates db"
  by (simp_all add: cache_mapping_def)

lemma update_rows_rows: "md_rows (update_rows P f db) = map (\<lambda>r. if P r then f r else r) (md_rows db)"
  by (simp add: update_rows_def)

lemma mapped_ids:
  assumes "\<And>r. mm_canonical_id (g r) = mm_canonical_id r"
  shows "map mm_canonical_id (map g rs) = map mm_canonical_id rs"
  using assms by simp

lemma weaken_ok:
  assumes "book_ok db" "\<And>r. P r \<Longrightarrow> no_stronger (f r) r" "\<And>r. P r \<Longrightarrow> tradable_ok r \<Longrightarrow> tradable_ok (f r)"
  shows "book_ok (update_rows P f db)"
proof -
  let ?g = "\<lambda>r. if P r then f r else r"
  have "map mm_canonical_id (map ?g (md_rows db)) = map mm_canonical_id (md_rows db)"
    by (rule mapped_ids) (use assms(2) in \<open>auto simp: no_stronger_def\<close>)
  moreover have "pairs_unique (map ?g (md_rows db))"
  proof (rule weaker_unique [of "md_rows db"])
    fix x assume "x \<in> set (map ?g (md_rows db))"
    then obtain r where "r \<in> set (md_rows db)" "x = ?g r" unfolding set_map by blast
    then show "\<exists>r \<in> set (md_rows db). no_stronger x r" using assms(2) [of r] by (cases "P r") (auto intro!: bexI [of _ r])
  qed (use assms(1) in \<open>simp add: book_ok_def\<close>)
  moreover have "list_all tradable_ok (map ?g (md_rows db))"
    using assms(1,3) by (auto simp: book_ok_def list_all_iff)
  ultimately show ?thesis using assms(1) by (simp only: book_ok_def update_rows_rows)
qed

lemma book_ok_rows: "md_rows db' = md_rows db \<Longrightarrow> book_ok db' = book_ok db"
  by (simp add: book_ok_def)

lemma write_rows:
  "md_rows (write_row now m db) =
     (if row_exists (mm_canonical_id m) db
      then map (\<lambda>r. if mm_canonical_id r = mm_canonical_id m
                    then (stored_row now m)\<lparr> mm_created_at := mm_created_at r,
                            mm_forecastex_not_available := mm_forecastex_not_available r \<rparr> else r) (md_rows db)
      else md_rows db @ [stored_row now m])"
  by (simp add: write_row_def update_rows_def)

lemma written:
  assumes "x \<in> set (md_rows (write_row now m db))"
  shows "x \<in> set (md_rows db) \<and> mm_canonical_id x \<noteq> mm_canonical_id m
     \<or> mm_canonical_id x = mm_canonical_id m \<and> mm_status x = mm_status m
       \<and> mm_kalshi_market_id x = mm_kalshi_market_id m \<and> mm_polymarket_slug x = mm_polymarket_slug m
       \<and> mm_allow_auto_trade x = mm_allow_auto_trade m \<and> (tradable_ok m \<longrightarrow> tradable_ok x)"
proof -
  have keep: "tradable_ok ((stored_row now m)\<lparr>mm_created_at := a, mm_forecastex_not_available := b\<rparr>)"
    if "tradable_ok m" for a b
    by (rule same_evidence [OF stored_tradable [OF that, of now]]) simp_all
  show ?thesis
  proof (cases "row_exists (mm_canonical_id m) db")
    case True
    then show ?thesis using assms keep by (auto simp: write_rows)
  next
    case False
    then have "x = stored_row now m \<or> x \<in> set (md_rows db) \<and> mm_canonical_id x \<noteq> mm_canonical_id m"
      using assms by (auto simp: write_rows row_exists_def image_iff)
    then show ?thesis using stored_tradable [of m now] by auto
  qed
qed

lemma write_distinct:
  assumes "distinct (map mm_canonical_id (md_rows db))"
  shows "distinct (map mm_canonical_id (md_rows (write_row now m db)))"
proof (cases "row_exists (mm_canonical_id m) db")
  case True
  have "map mm_canonical_id (md_rows (write_row now m db)) = map mm_canonical_id (md_rows db)"
    using True by (simp add: write_rows)
  then show ?thesis using assms by simp
next
  case False
  then show ?thesis using assms by (auto simp: write_rows row_exists_def)
qed

lemma upsert_rows:
  "md_rows (fst (upsert_mapping now m0 db)) =
     map (\<lambda>r. if duplicate_of m r then expire_row now r else r) (md_rows (write_row now m db))"
  if "m = (enforce_auto_trade_safety m0)\<lparr>mm_updated_at := now\<rparr>"
  using that by (simp add: upsert_mapping_def Let_def update_rows_rows)

lemma upsert_mapping_ok:
  assumes "book_ok db"
  shows "book_ok (fst (upsert_mapping now m0 db))"
proof -
  define m where "m = (enforce_auto_trade_safety m0)\<lparr>mm_updated_at := now\<rparr>"
  have ok: "tradable_ok m" unfolding m_def by (rule same_evidence [OF enforced_ok]) simp_all
  let ?w = "md_rows (write_row now m db)" and ?g = "\<lambda>r. if duplicate_of m r then expire_row now r else r"
  have rows: "md_rows (fst (upsert_mapping now m0 db)) = map ?g ?w" by (rule upsert_rows [OF m_def])
  have "map mm_canonical_id (map ?g ?w) = map mm_canonical_id ?w" by (rule mapped_ids) simp
  then have d: "distinct (map mm_canonical_id (map ?g ?w))"
    using assms write_distinct [of db now m] by (simp only: book_ok_def)
  have t: "list_all tradable_ok (map ?g ?w)"
    using written [of _ now m db] ok assms by (fastforce simp: list_all_iff book_ok_def)
  have "pairs_unique (map ?g ?w)"
  proof (rule pairs_uniqueI)
    fix x y assume "x \<in> set (map ?g ?w)" "y \<in> set (map ?g ?w)"
    then obtain r s where r: "r \<in> set ?w" "x = ?g r" and s: "s \<in> set ?w" "y = ?g s" by auto
    have own: "duplicate_of m b" if "clash a b" "mm_canonical_id a = mm_canonical_id m" "a \<in> set ?w" "b \<in> set ?w" for a b
    proof -
      have "mm_canonical_id a = mm_canonical_id m \<and> mm_status a = mm_status m \<and> mm_kalshi_market_id a = mm_kalshi_market_id m
          \<and> mm_polymarket_slug a = mm_polymarket_slug m" using written [OF that(3)] that(2) by auto
      then show ?thesis using that(1) by (auto simp: duplicate_of_def clash_def same_markets_def neat_def active_def)
    qed
    show "\<not> clash x y"
    proof
      assume c: "clash x y"
      then have kept: "\<not> duplicate_of m r" "\<not> duplicate_of m s" "x = r" "y = s"
        using r(2) s(2) by (auto simp: clash_def split: if_splits)
      show False
      proof (cases "mm_canonical_id r = mm_canonical_id m \<or> mm_canonical_id s = mm_canonical_id m")
        case True
        then show False using own [OF c [unfolded kept(3,4)] _ r(1) s(1)] own [of s r] c kept r(1) s(1)
          by (auto simp: clash_sym)
      next
        case False
        then have "r \<in> set (md_rows db)" "s \<in> set (md_rows db)" using written [OF r(1)] written [OF s(1)] by auto
        then show False using pairs_uniqueD [of "md_rows db" r s] c kept assms by (simp add: book_ok_def)
      qed
    qed
  qed
  then show ?thesis using d t by (simp only: book_ok_def rows)
qed

lemma update_status_ok: "book_ok db \<Longrightarrow> book_ok (fst (update_mapping_status now cid st remark auto db))"
  by (cases "get_mapping cid db") (simp_all add: update_mapping_status_def Let_def upsert_mapping_ok case_prod_unfold)

lemma delete_ok: "book_ok db \<Longrightarrow> book_ok (fst (delete_mapping cid db))"
proof -
  assume ok: "book_ok db"
  let ?rs = "filter (\<lambda>r. mm_canonical_id r \<noteq> cid) (md_rows db)"
  have "pairs_unique ?rs"
    by (rule subset_unique [of "md_rows db"]) (use ok in \<open>auto simp: book_ok_def\<close>)
  moreover have "distinct (map mm_canonical_id ?rs)" using ok by (simp add: book_ok_def distinct_map_filter)
  moreover have "list_all tradable_ok ?rs" using ok by (simp add: book_ok_def list_all_iff)
  ultimately show ?thesis using ok by (simp add: delete_mapping_def book_ok_def)
qed

text \<open>After the sweep over duplicate pairs, whatever was in the table before.\<close>

lemma first_by_rank: "xs \<noteq> [] \<Longrightarrow> \<exists>x \<in> set xs. first_of (by_rank xs) = Some x"
proof -
  assume "xs \<noteq> []"
  have "set (by_rank xs) = set xs" by (simp add: by_rank_def)
  moreover obtain y ys where "by_rank xs = y # ys"
    using \<open>xs \<noteq> []\<close> \<open>set (by_rank xs) = set xs\<close> by (cases "by_rank xs") auto
  ultimately show ?thesis by (auto simp: first_of_def)
qed

lemma deduplicated_ok:
  assumes "distinct (map mm_canonical_id (md_rows db))" "list_all tradable_ok (md_rows db)"
  shows "book_ok (fst (expire_duplicate_active_pairs now db))"
proof -
  let ?g = "\<lambda>r. if outranked db r then expire_row now r else r"
  have rows: "md_rows (fst (expire_duplicate_active_pairs now db)) = map ?g (md_rows db)"
    by (simp add: expire_duplicate_active_pairs_def Let_def update_rows_rows)
  have "map mm_canonical_id (map ?g (md_rows db)) = map mm_canonical_id (md_rows db)" by (rule mapped_ids) simp
  then have "distinct (map mm_canonical_id (map ?g (md_rows db)))" using assms(1) by (simp only:)
  moreover have "list_all tradable_ok (map ?g (md_rows db))" using assms(2) by (auto simp: list_all_iff)
  moreover have "pairs_unique (map ?g (md_rows db))"
  proof (rule pairs_uniqueI)
    fix x y assume "x \<in> set (map ?g (md_rows db))" "y \<in> set (map ?g (md_rows db))"
    then obtain r s where r: "x = ?g r" and s: "y = ?g s" unfolding set_map by blast
    show "\<not> clash x y"
    proof
      assume c: "clash x y"
      then have k: "\<not> outranked db r" "\<not> outranked db s" "x = r" "y = s"
        using r s by (auto simp: clash_def split: if_splits)
      have p: "paired r" "paired s" "same_markets r s"
        using c k by (auto simp: clash_def paired_def active_def neat_def same_markets_def)
      have same: "filter (\<lambda>t. paired t \<and> same_markets t r) (md_rows db) = filter (\<lambda>t. paired t \<and> same_markets t s) (md_rows db)"
        by (rule filter_cong) (use p(3) in \<open>auto simp: same_markets_def\<close>)
      have "Some (mm_canonical_id r) = Some (mm_canonical_id s)"
        using k(1,2) p(1,2) unfolding outranked_def same by metis
      then show False using c k by (simp add: clash_def)
    qed
  qed
  ultimately show ?thesis by (simp only: book_ok_def rows)
qed

lemma refresh_ok:
  assumes "distinct (map mm_canonical_id (md_rows db))" "list_all tradable_ok (md_rows db)"
  shows "book_ok (fst (refresh_runtime_cache now db))"
  using deduplicated_ok [OF assms, of now] by (simp add: refresh_runtime_cache_def Let_def book_ok_def)

lemma seed_rows_ok:
  assumes "distinct (map mm_canonical_id (md_rows db))" "list_all tradable_ok (md_rows db)"
  shows "distinct (map mm_canonical_id (md_rows (fst (seed_records now ov rs db))))
     \<and> list_all tradable_ok (md_rows (fst (seed_records now ov rs db)))"
  using assms
proof (induction now ov rs db rule: seed_records.induct)
  case (2 now ov r crit rs db)
  define m where "m = enforce_auto_trade_safety (mapping_from_record now r crit)"
  have ok: "tradable_ok (stored_row now m)" unfolding m_def by (rule stored_tradable [OF enforced_ok])
  have row: "tradable_ok ((stored_row now m)\<lparr> mm_created_at := mm_created_at x, mm_review_note := mm_review_note x,
      mm_expires_at := mm_expires_at x, mm_last_validated_at := mm_last_validated_at x,
      mm_forecastex_not_available := mm_forecastex_not_available x \<rparr>)" for x
    by (rule same_evidence [OF ok]) simp_all
  have "distinct (map mm_canonical_id (md_rows (seed_row now m db)))"
  proof (cases "row_exists (mm_canonical_id m) db")
    case True
    have "map mm_canonical_id (md_rows (seed_row now m db)) = map mm_canonical_id (md_rows db)"
      using True by (simp add: seed_row_def update_rows_def)
    then show ?thesis using "2.prems"(1) by simp
  next
    case False
    then show ?thesis using "2.prems"(1) by (auto simp: seed_row_def row_exists_def)
  qed
  moreover have "list_all tradable_ok (md_rows (seed_row now m db))"
    using "2.prems"(2) ok row by (auto simp: seed_row_def update_rows_def list_all_iff)
  ultimately show ?case using "2.IH" "2.prems" by (simp add: m_def split: prod.split) (metis fst_conv)
qed simp


lemma disable_ok: "book_ok db \<Longrightarrow> book_ok (fst (disable_auto_trade now cid why db))"
  unfolding disable_auto_trade_def Let_def fst_conv by (rule weaken_ok) (simp_all add: no_stronger_def off_ok)

lemma mark_fx_ok: "book_ok db \<Longrightarrow> book_ok (fst (mark_forecastex_unavailable now cid b db))"
  unfolding mark_forecastex_unavailable_def Let_def fst_conv
  by (rule weaken_ok) (auto simp: no_stronger_def intro: same_evidence)

lemma set_conid_ok: "book_ok db \<Longrightarrow> book_ok (fst (set_forecastex_conid now cid conid side db))"
  unfolding set_forecastex_conid_def Let_def fst_conv
  by (rule weaken_ok) (auto simp: no_stronger_def intro: same_evidence)

lemma write_candidates_ok: "book_ok db \<Longrightarrow> book_ok (fst (write_candidates sha1 now cs db))"
  by (induction sha1 now cs db rule: write_candidates.induct)
     (auto simp: case_prod_unfold Let_def upsert_mapping_ok split: option.splits)

lemma fold_upsert_ok: "book_ok db \<Longrightarrow> book_ok (fold (\<lambda>m d. fst (upsert_mapping now (g m) d)) ms db)"
  by (induction ms arbitrary: db) (simp_all add: upsert_mapping_ok)

lemma sync_ok: "book_ok db \<Longrightarrow> book_ok (fst (sync_candidates sha1 now cs db))"
  by (simp add: sync_candidates_def case_prod_unfold Let_def fold_upsert_ok write_candidates_ok)

lemma add_candidate_ok: "book_ok db \<Longrightarrow> book_ok (add_candidate now cid pl mid de sc db)"
  by (subst book_ok_rows [of _ db]) (simp_all add: add_candidate_def Let_def)

lemma reviewed_rows:
  "md_rows (fst (review_candidate now vid dec why db)) =
     md_rows (case find (\<lambda>v. vc_id v = vid) (md_candidates db) of
        Some v \<Rightarrow> if dec = ''approve'' then fst (upsert_mapping now (approved_mapping now v) db) else db | None \<Rightarrow> db)"
  by (simp add: review_candidate_def Let_def split: option.split)

lemma review_ok: "book_ok db \<Longrightarrow> book_ok (fst (review_candidate now vid dec why db))"
  unfolding book_ok_rows [OF reviewed_rows] by (simp add: upsert_mapping_ok split: option.split)

lemma expire_each_ok: "book_ok db \<Longrightarrow> book_ok (fst (expire_each now fails ids db))"
  by (induction now fails ids db rule: expire_each.induct) (simp_all add: case_prod_unfold Let_def update_status_ok)

lemma settled_sweep_ok: "book_ok db \<Longrightarrow> book_ok (fst (expire_settled_confirmed_mappings now fails today db))"
  by (simp add: expire_settled_confirmed_mappings_def expire_each_ok)

lemma refreshed_ok: "book_ok db \<Longrightarrow> book_ok (fst (refresh_runtime_cache now db))"
  by (rule refresh_ok) (simp_all add: book_ok_def)

lemma seed_ok:
  assumes "book_ok db"
  shows "book_ok (fst (seed_from_records now ov rs db))"
proof -
  have "book_ok (fst (refresh_runtime_cache now (fst (seed_records now ov rs db))))"
    by (rule refresh_ok) (use seed_rows_ok [of db now ov rs] assms in \<open>auto simp: book_ok_def\<close>)
  then show ?thesis by (simp add: seed_from_records_def case_prod_unfold Let_def)
qed

section \<open>Every operation of the store\<close>

datatype mapping_op =
    MapUpsert market_mapping
  | MapStatus string mapping_status string "bool option"
  | MapDelete string
  | MapDisable string string
  | MapForecastex string bool
  | MapConid string string string
  | MapSeed bool "(market_mapping_record \<times> json option) list"
  | MapRefresh
  | MapWrite "discovered list"
  | MapSync "discovered list"
  | MapAdd string string string string flt
  | MapReview int string string
  | MapExpireSettled "string \<Rightarrow> bool" "int option"

fun mapping_step :: "(string \<Rightarrow> string) \<Rightarrow> flt \<times> mapping_op \<Rightarrow> mapping_db \<Rightarrow> mapping_db" where
  "mapping_step sha1 (now, MapUpsert m) db = fst (upsert_mapping now m db)"
| "mapping_step sha1 (now, MapStatus cid st remark auto) db = fst (update_mapping_status now cid st remark auto db)"
| "mapping_step sha1 (now, MapDelete cid) db = fst (delete_mapping cid db)"
| "mapping_step sha1 (now, MapDisable cid reason) db = fst (disable_auto_trade now cid reason db)"
| "mapping_step sha1 (now, MapForecastex cid unavailable) db = fst (mark_forecastex_unavailable now cid unavailable db)"
| "mapping_step sha1 (now, MapConid cid conid side) db = fst (set_forecastex_conid now cid conid side db)"
| "mapping_step sha1 (now, MapSeed overwrite rs) db = fst (seed_from_records now overwrite rs db)"
| "mapping_step sha1 (now, MapRefresh) db = fst (refresh_runtime_cache now db)"
| "mapping_step sha1 (now, MapWrite cs) db = fst (write_candidates sha1 now cs db)"
| "mapping_step sha1 (now, MapSync cs) db = fst (sync_candidates sha1 now cs db)"
| "mapping_step sha1 (now, MapAdd cid platform mid description score) db =
     add_candidate now cid platform mid description score db"
| "mapping_step sha1 (now, MapReview vid decision remark) db = fst (review_candidate now vid decision remark db)"
| "mapping_step sha1 (now, MapExpireSettled fails today) db =
     fst (expire_settled_confirmed_mappings now fails today db)"

lemma mapping_step_ok: "book_ok db \<Longrightarrow> book_ok (mapping_step sha1 (now, oper) db)"
  by (cases oper)
     (simp_all add: upsert_mapping_ok update_status_ok delete_ok disable_ok mark_fx_ok set_conid_ok seed_ok refreshed_ok
        write_candidates_ok sync_ok add_candidate_ok review_ok settled_sweep_ok)

interpretation mapping_rows: invariant_machine "mapping_step sha1" book_ok for sha1
proof
  fix e s assume "book_ok s"
  then show "book_ok (mapping_step sha1 e s)" by (cases e) (simp add: mapping_step_ok)
qed

lemma empty_ok: "book_ok empty_mapping_db"
  by (simp add: book_ok_def empty_mapping_db_def pairs_unique_def)

text \<open>
  C18.  Whatever is done to the store, from the seeds over discovery, reviews, operator updates and the sweeps,
  a row that allows auto-trading has resolution criteria judged identical, and one that is tagged as sports
  has the same polarity and one settlement date on both venues.
\<close>

theorem auto_trade_needs_evidence:
  "list_all tradable_ok (md_rows (fold (mapping_step sha1) ops empty_mapping_db))"
  using mapping_rows.run_inv [OF empty_ok, of sha1 ops] by (simp add: book_ok_def)

text \<open>
  C19.  Whatever is done to the store, no two confirmed rows have the same market of Kalshi and the same
  market of Polymarket, as long as the ids of those markets carry no blanks around them.
\<close>

theorem one_confirmed_mapping_per_pair:
  "pairs_unique (md_rows (fold (mapping_step sha1) ops empty_mapping_db))"
  using mapping_rows.run_inv [OF empty_ok, of sha1 ops] by (simp add: book_ok_def)


section \<open>The row an update leaves\<close>

lemma get_mapping_row: "get_mapping cid db = Some x \<Longrightarrow> x \<in> set (md_rows db) \<and> mm_canonical_id x = cid"
  by (auto simp: get_mapping_def find_Some_iff in_set_conv_nth)

lemma get_mapping_ex:
  assumes "x \<in> set (md_rows db)" "mm_canonical_id x = cid"
  shows "\<exists>y. get_mapping cid db = Some y"
  using assms by (cases "get_mapping cid db") (auto simp: get_mapping_def find_None_iff)

lemma written_exists: "\<exists>x \<in> set (md_rows (write_row now m db)). mm_canonical_id x = mm_canonical_id m"
proof (cases "row_exists (mm_canonical_id m) db")
  case True
  have "map mm_canonical_id (md_rows (write_row now m db)) = map mm_canonical_id (md_rows db)"
    using True by (simp add: write_rows)
  then have "mm_canonical_id m \<in> set (map mm_canonical_id (md_rows (write_row now m db)))"
    using True by (simp only: row_exists_def set_map)
  then show ?thesis by auto
qed (simp add: write_rows)

lemma written_note:
  assumes "x \<in> set (md_rows (write_row now m db))" "mm_canonical_id x = mm_canonical_id m"
  shows "mm_review_note x = mm_review_note m"
  using assms by (cases "row_exists (mm_canonical_id m) db") (auto simp: write_rows row_exists_def stored_row_def image_iff)

lemma enforced_note [simp]: "mm_review_note (enforce_auto_trade_safety m) = mm_review_note m"
  by (simp add: enforce_auto_trade_safety_def)

lemma upserted_row:
  assumes "x \<in> set (md_rows (fst (upsert_mapping now m0 db)))" "mm_canonical_id x = mm_canonical_id m0"
  shows "mm_status x = mm_status m0 \<and> mm_kalshi_market_id x = mm_kalshi_market_id m0
     \<and> mm_polymarket_slug x = mm_polymarket_slug m0 \<and> (mm_allow_auto_trade x \<longrightarrow> mm_allow_auto_trade m0)
     \<and> mm_review_note x = mm_review_note m0"
proof -
  define m where "m = (enforce_auto_trade_safety m0)\<lparr>mm_updated_at := now\<rparr>"
  have m: "mm_canonical_id m = mm_canonical_id m0" "mm_status m = mm_status m0"
    "mm_kalshi_market_id m = mm_kalshi_market_id m0" "mm_polymarket_slug m = mm_polymarket_slug m0"
    "mm_review_note m = mm_review_note m0" "mm_allow_auto_trade m \<Longrightarrow> mm_allow_auto_trade m0"
    using enforced_auto [of m0] by (simp_all add: m_def)
  obtain r where r: "r \<in> set (md_rows (write_row now m db))" "x = (if duplicate_of m r then expire_row now r else r)"
    using assms(1) unfolding upsert_rows [OF m_def] set_map by blast
  have "mm_canonical_id r = mm_canonical_id m" using r(2) assms(2) m(1) by (simp split: if_splits)
  moreover from this have "x = r" using r(2) by (simp add: duplicate_of_def)
  ultimately show ?thesis using written [OF r(1)] written_note [OF r(1)] m by auto
qed

lemma upserted:
  "\<exists>x. get_mapping (mm_canonical_id m0) (fst (upsert_mapping now m0 db)) = Some x \<and> mm_status x = mm_status m0
     \<and> mm_kalshi_market_id x = mm_kalshi_market_id m0 \<and> mm_polymarket_slug x = mm_polymarket_slug m0
     \<and> (mm_allow_auto_trade x \<longrightarrow> mm_allow_auto_trade m0) \<and> mm_review_note x = mm_review_note m0"
proof -
  define m where "m = (enforce_auto_trade_safety m0)\<lparr>mm_updated_at := now\<rparr>"
  obtain r where r: "r \<in> set (md_rows (write_row now m db))" "mm_canonical_id r = mm_canonical_id m"
    using written_exists by blast
  have "\<not> duplicate_of m r" using r(2) by (simp add: duplicate_of_def)
  then have "r \<in> set (md_rows (fst (upsert_mapping now m0 db)))"
    using r(1) unfolding upsert_rows [OF m_def] by (force simp: image_iff)
  moreover have "mm_canonical_id r = mm_canonical_id m0" using r(2) by (simp add: m_def)
  ultimately obtain x where "get_mapping (mm_canonical_id m0) (fst (upsert_mapping now m0 db)) = Some x"
    using get_mapping_ex by blast
  then show ?thesis using upserted_row get_mapping_row by blast
qed

lemma upsert_others:
  assumes "x \<in> set (md_rows (fst (upsert_mapping now m0 db)))" "mm_status x = CONFIRMED"
  shows "x \<in> set (md_rows db) \<and> mm_canonical_id x \<noteq> mm_canonical_id m0
     \<or> mm_canonical_id x = mm_canonical_id m0 \<and> mm_status m0 = CONFIRMED"
proof -
  define m where "m = (enforce_auto_trade_safety m0)\<lparr>mm_updated_at := now\<rparr>"
  obtain r where r: "r \<in> set (md_rows (write_row now m db))" "x = (if duplicate_of m r then expire_row now r else r)"
    using assms(1) unfolding upsert_rows [OF m_def] set_map by blast
  have "x = r" using r(2) assms(2) by (simp split: if_splits)
  then show ?thesis using written [OF r(1)] upserted_row [OF assms(1)] assms(2) by (auto simp: m_def)
qed

lemma expired_others:
  assumes "x \<in> set (md_rows (fst (update_mapping_status now cid EXPIRED remark auto db)))" "mm_status x = CONFIRMED"
  shows "x \<in> set (md_rows db) \<and> mm_canonical_id x \<noteq> cid"
proof (cases "get_mapping cid db")
  case None
  then have "x \<in> set (md_rows db)" using assms(1) by (simp add: update_mapping_status_def)
  then show ?thesis using None get_mapping_ex [of x db cid] by auto
next
  case (Some m)
  have "x \<in> set (md_rows (fst (upsert_mapping now (m\<lparr> mm_status := EXPIRED, mm_review_note := remark,
      mm_allow_auto_trade := (case auto of None \<Rightarrow> mm_allow_auto_trade m | Some b \<Rightarrow> b), mm_updated_at := now \<rparr>) db)))"
    using assms(1) Some by (simp add: update_mapping_status_def case_prod_unfold Let_def)
  from upsert_others [OF this assms(2)] show ?thesis using get_mapping_row [OF Some] by simp
qed

lemma expire_each_others:
  assumes "x \<in> set (md_rows (fst (expire_each now fails ids db)))" "mm_status x = CONFIRMED"
  shows "x \<in> set (md_rows db) \<and> (mm_canonical_id x \<in> set ids \<longrightarrow> fails (mm_canonical_id x))"
  using assms
proof (induction now fails ids db rule: expire_each.induct)
  case (2 now fails cid ids db)
  show ?case
  proof (cases "fails cid")
    case True
    then show ?thesis using 2 by auto
  next
    case False
    let ?db = "fst (update_mapping_status now cid EXPIRED ''Auto-expired {}: event date {} is in the past.'' (Some False) db)"
    have "x \<in> set (md_rows ?db) \<and> (mm_canonical_id x \<in> set ids \<longrightarrow> fails (mm_canonical_id x))"
      using 2 False by (simp add: case_prod_unfold Let_def)
    then show ?thesis using expired_others [of x now cid] "2.prems"(2) by auto
  qed
qed simp

lemma best_row:
  assumes "get_by_exact_pair k p db = Some r"
  shows "r \<in> set (md_rows db)" "mm_kalshi_market_id r = k" "mm_polymarket_slug r = p"
proof -
  have "r \<in> set (by_rank (filter (\<lambda>r. mm_kalshi_market_id r = k \<and> mm_polymarket_slug r = p) (md_rows db)))"
    using assms by (auto simp: get_by_exact_pair_def first_of_def split: list.splits)
  then show "r \<in> set (md_rows db)" "mm_kalshi_market_id r = k" "mm_polymarket_slug r = p"
    by (auto simp: by_rank_def)
qed

lemma verdict_kept:
  assumes "mm_status r \<noteq> CANDIDATE"
  shows "mm_canonical_id (apply_candidate c k p r) = mm_canonical_id r"
    "mm_status (apply_candidate c k p r) = mm_status r"
    "mm_allow_auto_trade (apply_candidate c k p r) \<Longrightarrow> mm_allow_auto_trade r"
    "mm_status r \<noteq> CONFIRMED \<Longrightarrow> \<not> mm_allow_auto_trade (apply_candidate c k p r)"
    "mm_status r \<noteq> CONFIRMED \<Longrightarrow> mm_review_note r \<noteq> [] \<Longrightarrow> mm_review_note (apply_candidate c k p r) = mm_review_note r"
  using assms by (cases "mm_status r";
    simp add: apply_candidate_def settle_status_def protected_status_def candidate_review_note_def)+

text \<open>
  C38.  A discovery candidate for a venue pair that is on record leaves the verdict there: a confirmed row stays
  confirmed and is never made auto-tradable by it, and a row in review, rejected or expired stays that way,
  does not trade, and keeps the note of the reviewer.
\<close>

theorem discovery_keeps_verdicts:
  assumes "py_strip (cd_kalshi_ticker c) \<noteq> []" "py_strip (cd_poly_slug c) \<noteq> []"
    and "get_by_exact_pair (py_strip (cd_kalshi_ticker c)) (py_strip (cd_poly_slug c)) db = Some r"
    and "mm_status r \<noteq> CANDIDATE"
  shows "\<exists>x. get_mapping (mm_canonical_id r) (fst (write_candidates sha1 now [c] db)) = Some x
     \<and> mm_status x = mm_status r
     \<and> (mm_allow_auto_trade x \<longrightarrow> mm_status r = CONFIRMED \<and> mm_allow_auto_trade r)
     \<and> (mm_status r = CONFIRMED \<or> mm_review_note r = [] \<or> mm_review_note x = mm_review_note r)"
proof -
  let ?m = "apply_candidate c (py_strip (cd_kalshi_ticker c)) (py_strip (cd_poly_slug c)) r"
  have "mapping_from_candidate sha1 now c db = Some ?m"
    using assms by (simp add: mapping_from_candidate_def row_for_candidate_def Let_def)
  then have w: "fst (write_candidates sha1 now [c] db) = fst (upsert_mapping now ?m db)" by simp
  show ?thesis unfolding w using upserted [of ?m now db] verdict_kept [OF assms(4), of c] by metis
qed

lemma discovery_keeps_verdicts_witness:
  "let r = (new_mapping 0 ''GAME_1'' ''a game'' REJECTED)\<lparr>mm_kalshi_market_id := ''K'', mm_polymarket_slug := ''p'',
             mm_review_note := ''wrong team''\<rparr>;
       c = \<lparr> cd_kalshi_ticker = ''K '', cd_poly_slug = ''p'', cd_canonical_id = [], cd_poly_question = ''who wins'',
             cd_kalshi_title = [], cd_description = [], cd_notes = [], cd_score = 1, cd_status = Some ''confirmed'',
             cd_allow_auto_trade = True, cd_resolution_criteria = Some (JObj []), cd_review_note = Some ''ok'',
             cd_resolution_match_status = Some ''identical'' \<rparr>
   in \<exists>x. get_mapping ''GAME_1'' (fst (write_candidates (\<lambda>s. s) 5 [c] (empty_mapping_db\<lparr>md_rows := [r]\<rparr>))) = Some x
       \<and> mm_status x = REJECTED \<and> \<not> mm_allow_auto_trade x \<and> mm_review_note x = ''wrong team''"
proof -
  define r where "r = (new_mapping 0 ''GAME_1'' ''a game'' REJECTED)\<lparr>mm_kalshi_market_id := ''K'', mm_polymarket_slug := ''p'',
             mm_review_note := ''wrong team''\<rparr>"
  define c where "c = \<lparr> cd_kalshi_ticker = ''K '', cd_poly_slug = ''p'', cd_canonical_id = [], cd_poly_question = ''who wins'',
             cd_kalshi_title = [], cd_description = [], cd_notes = [], cd_score = 1, cd_status = Some ''confirmed'',
             cd_allow_auto_trade = True, cd_resolution_criteria = Some (JObj []), cd_review_note = Some ''ok'',
             cd_resolution_match_status = Some ''identical'' \<rparr>"
  have k: "py_strip (cd_kalshi_ticker c) = ''K''" "py_strip (cd_poly_slug c) = ''p''" unfolding c_def by code_simp+
  have "get_by_exact_pair ''K'' ''p'' (empty_mapping_db\<lparr>md_rows := [r]\<rparr>) = Some r"
    by (simp add: get_by_exact_pair_def by_rank_def first_of_def r_def)
  then have "\<exists>x. get_mapping (mm_canonical_id r) (fst (write_candidates (\<lambda>s. s) 5 [c] (empty_mapping_db\<lparr>md_rows := [r]\<rparr>))) = Some x
     \<and> mm_status x = mm_status r
     \<and> (mm_allow_auto_trade x \<longrightarrow> mm_status r = CONFIRMED \<and> mm_allow_auto_trade r)
     \<and> (mm_status r = CONFIRMED \<or> mm_review_note r = [] \<or> mm_review_note x = mm_review_note r)"
    by (intro discovery_keeps_verdicts) (simp_all add: k, simp add: r_def new_mapping_def)
  then show ?thesis unfolding Let_def r_def [symmetric] c_def [symmetric]
    by (auto simp: r_def new_mapping_def simp del: write_candidates.simps)
qed

text \<open>
  After the sweep over settled events every confirmed mapping whose id names a day before the cutoff is
  one whose update failed.
\<close>

theorem settled_sweep_complete:
  "list_all (\<lambda>m. fails (mm_canonical_id m))
     (filter (settled cutoff) (iter_confirmed False (fst (expire_settled_confirmed_mappings now fails (Some cutoff) db))))"
proof -
  have "fails (mm_canonical_id x)" if x: "x \<in> set (md_rows (fst (expire_settled_confirmed_mappings now fails (Some cutoff) db)))"
      "mm_status x = CONFIRMED" "settled cutoff x" for x
    using expire_each_others [OF x(1) [unfolded expire_settled_confirmed_mappings_def Let_def option.case] x(2)] x(2,3)
    by (auto simp: iter_confirmed_def)
  then show ?thesis by (auto simp: list_all_iff iter_confirmed_def)
qed

text \<open>
  Approving a candidate of one venue does not confirm anything: it writes a fresh row in the status of a
  candidate over the mapping of that id, so a confirmed, trading mapping loses its status and its other market.
\<close>

lemma approval_overwrites_mapping:
  assumes "find (\<lambda>v. vc_id v = vid) (md_candidates db) = Some v" "vc_platform v = ''kalshi''"
  shows "\<exists>x. get_mapping (vc_canonical_id v) (fst (review_candidate now vid ''approve'' remark db)) = Some x
     \<and> mm_status x = CANDIDATE \<and> \<not> mm_allow_auto_trade x \<and> mm_kalshi_market_id x = vc_platform_market_id v
     \<and> mm_polymarket_slug x = []"
proof -
  have rows: "md_rows (fst (review_candidate now vid ''approve'' remark db)) =
      md_rows (fst (upsert_mapping now (approved_mapping now v) db))"
    using assms(1) by (simp add: reviewed_rows)
  have "mm_canonical_id (approved_mapping now v) = vc_canonical_id v" "mm_status (approved_mapping now v) = CANDIDATE"
    "mm_kalshi_market_id (approved_mapping now v) = vc_platform_market_id v" "mm_polymarket_slug (approved_mapping now v) = []"
    "\<not> mm_allow_auto_trade (approved_mapping now v)"
    using assms(2) by (simp_all add: approved_mapping_def new_mapping_def Let_def)
  then show ?thesis using upserted [of "approved_mapping now v" now db] by (auto simp: get_mapping_def rows)
qed

lemma approval_overwrites_mapping_witness:
  "let v = \<lparr> vc_id = 7, vc_canonical_id = ''GAME_1'', vc_platform = ''kalshi'', vc_platform_market_id = ''K2'',
             vc_description = ''a game'', vc_match_score = 1, vc_status = ''pending'', vc_reviewed_at = None,
             vc_reviewer_note = [], vc_created_at = 0 \<rparr>;
       r = (new_mapping 0 ''GAME_1'' ''a game'' CONFIRMED)\<lparr>mm_kalshi_market_id := ''K'', mm_polymarket_slug := ''p'',
             mm_allow_auto_trade := True, mm_resolution_match_status := ''identical''\<rparr>
   in \<exists>x. get_mapping ''GAME_1'' (fst (review_candidate 5 7 ''approve'' [] (empty_mapping_db\<lparr>md_rows := [r], md_candidates := [v]\<rparr>))) = Some x
     \<and> mm_status x = CANDIDATE \<and> \<not> mm_allow_auto_trade x \<and> mm_kalshi_market_id x = ''K2'' \<and> mm_polymarket_slug x = []"
  unfolding Let_def
  using approval_overwrites_mapping [of 7 "empty_mapping_db\<lparr>md_rows := [(new_mapping 0 ''GAME_1'' ''a game'' CONFIRMED)\<lparr>mm_kalshi_market_id := ''K'', mm_polymarket_slug := ''p'',
             mm_allow_auto_trade := True, mm_resolution_match_status := ''identical''\<rparr>], md_candidates := [\<lparr> vc_id = 7, vc_canonical_id = ''GAME_1'', vc_platform = ''kalshi'', vc_platform_market_id = ''K2'',
             vc_description = ''a game'', vc_match_score = 1, vc_status = ''pending'', vc_reviewed_at = None,
             vc_reviewer_note = [], vc_created_at = 0 \<rparr>]\<rparr>" "\<lparr> vc_id = 7, vc_canonical_id = ''GAME_1'', vc_platform = ''kalshi'', vc_platform_market_id = ''K2'',
             vc_description = ''a game'', vc_match_score = 1, vc_status = ''pending'', vc_reviewed_at = None,
             vc_reviewer_note = [], vc_created_at = 0 \<rparr>" 5 "[]"] by simp

end
