(* ===== verification/Promotion.thy ===== *)
theory Promotion
  imports Mapping_Store Readiness
begin


text \<open>
  How a candidate becomes tradable: \<open>mapping/resolution_check.py\<close>, \<open>mapping/coherence.py\<close> and
  \<open>mapping/auto_promote.py\<close>, with the pass of the start over the mapping store.  The verdict of the language
  model, the settings, the environment variables and the order books are arguments.  ISO dates in week form,
  times without colons and dates before the year 1 are not read.
\<close>

section \<open>Dates\<close>

definition fixed_digits :: "nat \<Rightarrow> string \<Rightarrow> int option" where
  "fixed_digits n t = (if length t = n then digits_value 0 t else None)"

definition day_of :: "int option \<Rightarrow> int option \<Rightarrow> int option \<Rightarrow> int option" where
  "day_of y m d =
     (case (y, m, d) of (Some y, Some m, Some d) \<Rightarrow> if valid_date y m d then Some (ordinal y m d) else None | _ \<Rightarrow> None)"

text \<open>\<open>date.fromisoformat\<close>.\<close>

definition iso_date :: "string \<Rightarrow> int option" where
  "iso_date t =
     (if length t = 10 \<and> t ! 4 = CHR ''-'' \<and> t ! 7 = CHR ''-''
      then day_of (fixed_digits 4 (take 4 t)) (fixed_digits 2 (take 2 (drop 5 t))) (fixed_digits 2 (drop 8 t))
      else if length t = 8 then day_of (fixed_digits 4 (take 4 t)) (fixed_digits 2 (take 2 (drop 4 t))) (fixed_digits 2 (drop 6 t))
      else None)"

text \<open>The seconds of a time of day, the fraction cut to microseconds.\<close>

definition below :: "int \<Rightarrow> int option \<Rightarrow> int option" where
  "below n v = (case v of None \<Rightarrow> None | Some k \<Rightarrow> if k < n then Some k else None)"

definition iso_seconds :: "string \<Rightarrow> flt option" where
  "iso_seconds t =
     (let sec = takeWhile (\<lambda>c. c \<noteq> CHR ''.'' \<and> c \<noteq> CHR '','') t; frac = take 6 (tl (drop (length sec) t))
      in case (below 60 (fixed_digits 2 sec), digits_value 0 frac) of
           (Some s, Some f) \<Rightarrow> if drop (length sec) t \<noteq> [] \<and> frac = [] \<or> digits_value 0 (tl (drop (length sec) t)) = None
                              then None else Some (of_int s + of_int f / 10 ^ length frac)
         | _ \<Rightarrow> None)"

definition iso_clock :: "string \<Rightarrow> flt option" where
  "iso_clock t =
     (case split_on CHR '':'' t of
        [h] \<Rightarrow> map_option (\<lambda>h. of_int h * 3600) (below 24 (fixed_digits 2 h))
      | [h, m] \<Rightarrow> (case (below 24 (fixed_digits 2 h), below 60 (fixed_digits 2 m)) of
          (Some h, Some m) \<Rightarrow> Some (of_int h * 3600 + of_int m * 60) | _ \<Rightarrow> None)
      | [h, m, s] \<Rightarrow> (case (below 24 (fixed_digits 2 h), below 60 (fixed_digits 2 m), iso_seconds s) of
          (Some h, Some m, Some s) \<Rightarrow> Some (of_int h * 3600 + of_int m * 60 + s) | _ \<Rightarrow> None)
      | _ \<Rightarrow> None)"

text \<open>A time with an optional offset, which must be one but is dropped.\<close>

definition iso_time :: "string \<Rightarrow> flt option" where
  "iso_time t =
     (let c = takeWhile (\<lambda>c. c \<notin> {CHR ''+'', CHR ''-'', CHR ''Z''}) t; off = drop (length c) t
      in if off = [] \<or> off = ''Z'' \<or> hd off \<noteq> CHR ''Z'' \<and> iso_clock (tl off) \<noteq> None then iso_clock c else None)"

text \<open>\<open>datetime.fromisoformat\<close>, as seconds; any character parts date and time.\<close>

definition iso_datetime :: "string \<Rightarrow> flt option" where
  "iso_datetime t =
     (let n = (if 5 \<le> length t \<and> t ! 4 = CHR ''-'' then 10 else 8); rest = tl (drop n t)
      in case iso_date (take n t) of
           None \<Rightarrow> None
         | Some d \<Rightarrow> map_option (\<lambda>s. of_int d * 86400 + s) (if rest = [] then Some 0 else iso_time rest))"

text \<open>\<open>strptime(s, "%Y-%m-%d")\<close>, where month and day may have one digit.\<close>

definition short_digits :: "string \<Rightarrow> int option" where
  "short_digits t = (if length t = 1 \<or> length t = 2 then digits_value 0 t else None)"

definition loose_date :: "string \<Rightarrow> int option" where
  "loose_date t =
     (case split_on CHR ''-'' t of [y, m, d] \<Rightarrow> day_of (fixed_digits 4 y) (short_digits m) (short_digits d) | _ \<Rightarrow> None)"

definition parse_date :: "string \<Rightarrow> flt option" where
  "parse_date t =
     (case iso_datetime t of Some s \<Rightarrow> Some s | None \<Rightarrow> map_option (\<lambda>d. of_int d * 86400) (loose_date t))"

definition dates_within_tolerance :: "string \<Rightarrow> string \<Rightarrow> bool" where
  "dates_within_tolerance a b =
     (case (parse_date a, parse_date b) of (Some x, Some y) \<Rightarrow> \<bar>x - y\<bar> \<le> 24 * 3600 | _ \<Rightarrow> False)"

section \<open>Do the two markets resolve alike?\<close>

definition source_groups :: "string list list" where
  "source_groups = [[''ap'', ''associated press''], [''federal reserve'', ''fed''],
     [''bureau of labor statistics'', ''bls''], [''bureau of economic analysis'', ''bea''],
     [''european central bank'', ''ecb'']]"

definition sources_equivalent :: "string \<Rightarrow> string \<Rightarrow> bool" where
  "sources_equivalent a b =
     (py_lower a = py_lower b \<or> list_ex (\<lambda>g. py_lower a \<in> set g \<and> py_lower b \<in> set g) source_groups)"

record market_facts =
  mf_question :: string
  mf_resolution_date :: "string option"
  mf_resolution_source :: "string option"
  mf_tie_break_rule :: "string option"
  mf_category :: "string option"
  mf_outcome_set :: "string list"

datatype resolution_match = MATCH_IDENTICAL | MATCH_DIVERGENT | MATCH_PENDING

definition both_differ :: "string option \<Rightarrow> string option \<Rightarrow> bool" where
  "both_differ a b =
     (case (a, b) of (Some x, Some y) \<Rightarrow> py_lower (py_strip x) \<noteq> py_lower (py_strip y) | _ \<Rightarrow> False)"

definition check_resolution_equivalence :: "market_facts \<Rightarrow> market_facts \<Rightarrow> resolution_match" where
  "check_resolution_equivalence a b =
     (case (mf_resolution_date a, mf_resolution_date b, mf_resolution_source a, mf_resolution_source b) of
        (Some da, Some db, Some sa, Some sb) \<Rightarrow>
          if \<not> dates_within_tolerance da db then MATCH_DIVERGENT
          else if \<not> sources_equivalent sa sb then MATCH_DIVERGENT
          else if both_differ (mf_tie_break_rule a) (mf_tie_break_rule b) then MATCH_DIVERGENT
          else if both_differ (mf_category a) (mf_category b) then MATCH_DIVERGENT
          else if set (map py_lower (mf_outcome_set a)) \<noteq> set (map py_lower (mf_outcome_set b)) then MATCH_DIVERGENT
          else MATCH_IDENTICAL
      | _ \<Rightarrow> MATCH_PENDING)"

section \<open>Coherence across venues\<close>

text \<open>A conflict is a truth value here; in the code it is its description.\<close>

text \<open>The pairs of live prices in the order the loops visit them.\<close>

fun price_pairs :: "(string \<times> flt) list \<Rightarrow> (string \<times> string \<times> flt) list" where
  "price_pairs [] = []"
| "price_pairs ((p, x) # rest) = map (\<lambda>(q, y). (p, q, \<bar>x - y\<bar>)) rest @ price_pairs rest"

definition worse :: "string \<times> string \<times> flt \<Rightarrow> flt \<times> (string \<times> string) option \<Rightarrow> flt \<times> (string \<times> string) option" where
  "worse pair acc = (case pair of (p, q, gap) \<Rightarrow> if fst acc < gap then (gap, Some (p, q)) else acc)"

definition max_yes_divergence :: "(string \<times> flt) list \<Rightarrow> flt \<times> (string \<times> string) option" where
  "max_yes_divergence platform_yes = fold worse (price_pairs (filter (\<lambda>py. 0 < snd py) platform_yes)) (0, None)"

definition party_tokens :: "(string \<times> string list) list" where
  "party_tokens = [(''democratic'', [''dem'', ''dems'', ''democrat'', ''democrats'', ''democratic'']),
     (''republican'', [''gop'', ''rep'', ''republican'', ''republicans''])]"

definition blank_marks :: "char \<Rightarrow> char" where
  "blank_marks c = (if c = CHR ''_'' \<or> c = CHR ''-'' \<or> py_space c then CHR '' '' else c)"

definition canonical_party :: "string \<Rightarrow> string option" where
  "canonical_party t =
     (let words = set (split_on CHR '' '' (map blank_marks (py_lower t)));
          hits = map fst (filter (\<lambda>(p, ks). list_ex (\<lambda>k. k \<in> words) ks) party_tokens)
      in case hits of [p] \<Rightarrow> Some p | _ \<Rightarrow> None)"

definition party_conflict :: "string \<Rightarrow> string \<Rightarrow> bool" where
  "party_conflict canonical_text fx_local_symbol =
     (case (canonical_party canonical_text, canonical_party fx_local_symbol) of
        (Some want, Some got) \<Rightarrow> fx_local_symbol \<noteq> [] \<and> got \<noteq> want
      | _ \<Rightarrow> False)"

definition shared_fx_conid_conflict :: "string \<Rightarrow> string \<Rightarrow> (string, nat) dict \<Rightarrow> bool" where
  "shared_fx_conid_conflict yes_conid no_conid owners =
     list_ex (\<lambda>c. 1 < dget owners c 0) (filter (\<lambda>c. c \<noteq> [] \<and> c \<noteq> ''0'') [py_strip yes_conid, py_strip no_conid])"

definition shared_market_owner_conflict :: "string \<Rightarrow> string \<Rightarrow> (string, nat) dict \<Rightarrow> bool" where
  "shared_market_owner_conflict k p owners =
     (py_strip k \<noteq> [] \<and> 1 \<le> dget owners (kalshi_key k) 0 \<or> py_strip p \<noteq> [] \<and> 1 \<le> dget owners (polymarket_key p) 0)"

section \<open>The candidate\<close>

record promotable = discovered +
  cp_category :: "string option"
  cp_kalshi_category :: "string option"
  cp_polymarket_category :: "string option"
  cp_structural_match :: bool
  cp_polarity :: string
  cp_kalshi_text :: string
  cp_polymarket_text :: string
  cp_poly_text :: string
  cp_resolution_date :: "string option"
  cp_kalshi_resolution_date :: "string option"
  cp_polymarket_resolution_date :: "string option"
  cp_resolution_source :: "string option"
  cp_kalshi_resolution_source :: "string option"
  cp_polymarket_resolution_source :: "string option"
  cp_tie_break_rule :: "string option"
  cp_kalshi_tie_break_rule :: "string option"
  cp_polymarket_tie_break_rule :: "string option"
  cp_outcome_set :: "string list option"
  cp_kalshi_outcome_set :: "string list option"
  cp_polymarket_outcome_set :: "string list option"
  cp_promotion_match_type :: string

text \<open>\<open>a or b\<close> on values that may be missing.\<close>

definition or_opt :: "'a list option \<Rightarrow> 'a list option \<Rightarrow> 'a list option" where
  "or_opt a b = (case a of Some (x # xs) \<Rightarrow> a | _ \<Rightarrow> b)"

definition text_of_opt :: "string option \<Rightarrow> string" where
  "text_of_opt a = (case a of None \<Rightarrow> [] | Some t \<Rightarrow> t)"

definition yes_no :: "string list" where
  "yes_no = [''Yes'', ''No'']"

definition outcome_set_of :: "string list option \<Rightarrow> string list option \<Rightarrow> string list" where
  "outcome_set_of own shared =
     (case or_opt own shared of Some xs \<Rightarrow> xs | None \<Rightarrow> yes_no)"

definition kalshi_facts :: "'a promotable_scheme \<Rightarrow> market_facts" where
  "kalshi_facts c =
     \<lparr> mf_question = cd_kalshi_title c,
       mf_resolution_date = or_opt (cp_kalshi_resolution_date c) (cp_resolution_date c),
       mf_resolution_source = or_opt (cp_kalshi_resolution_source c) (cp_resolution_source c),
       mf_tie_break_rule = or_opt (cp_kalshi_tie_break_rule c) (cp_tie_break_rule c),
       mf_category = or_opt (cp_kalshi_category c) (cp_category c),
       mf_outcome_set = outcome_set_of (cp_kalshi_outcome_set c) (cp_outcome_set c) \<rparr>"

definition polymarket_facts :: "'a promotable_scheme \<Rightarrow> market_facts" where
  "polymarket_facts c =
     \<lparr> mf_question = cd_poly_question c,
       mf_resolution_date = or_opt (cp_polymarket_resolution_date c) (cp_resolution_date c),
       mf_resolution_source = or_opt (cp_polymarket_resolution_source c) (cp_resolution_source c),
       mf_tie_break_rule = or_opt (cp_polymarket_tie_break_rule c) (cp_tie_break_rule c),
       mf_category = or_opt (cp_polymarket_category c) (cp_category c),
       mf_outcome_set = outcome_set_of (cp_polymarket_outcome_set c) (cp_outcome_set c) \<rparr>"

section \<open>Settings and depth\<close>

text \<open>What the gate is given besides the candidate.\<close>

record promote_env =
  pe_settings :: "(string \<times> json) list"
  pe_env :: "string \<Rightarrow> string option"
  pe_books :: "(string, (string \<times> json) list) dict"
  pe_verdict :: "string \<Rightarrow> string \<Rightarrow> string option"
  pe_promoted_today :: int
  pe_cooling :: "(string, int) dict"
  pe_now :: flt

definition setting :: "promote_env \<Rightarrow> string \<Rightarrow> string \<Rightarrow> json option" where
  "setting e upper lower =
     (case map_of (pe_settings e) upper of Some j \<Rightarrow> Some j | None \<Rightarrow> map_of (pe_settings e) lower)"

definition env_float :: "promote_env \<Rightarrow> string \<Rightarrow> flt \<Rightarrow> flt" where
  "env_float e name std =
     (case pe_env e name of
        None \<Rightarrow> std
      | Some raw \<Rightarrow> (case float_of_text raw of None \<Rightarrow> std | Some x \<Rightarrow> x))"

text \<open>\<open>float(\<dots>)\<close> and \<open>int(\<dots>)\<close> of a setting; \<open>None\<close> is an exception.\<close>

definition float_setting :: "promote_env \<Rightarrow> string \<Rightarrow> string \<Rightarrow> flt \<Rightarrow> flt option" where
  "float_setting e upper lower std =
     (case setting e upper lower of None \<Rightarrow> Some (env_float e upper std) | Some j \<Rightarrow> json_float j)"

definition json_int :: "json \<Rightarrow> int option" where
  "json_int j = (case j of JNum x \<Rightarrow> Some (py_int x) | JBool b \<Rightarrow> Some (if b then 1 else 0)
     | JStr s \<Rightarrow> int_of_text s | _ \<Rightarrow> None)"

definition int_setting :: "promote_env \<Rightarrow> string \<Rightarrow> string \<Rightarrow> flt \<Rightarrow> int option" where
  "int_setting e upper lower std =
     (case setting e upper lower of None \<Rightarrow> Some (py_int (env_float e upper std)) | Some j \<Rightarrow> json_int j)"

definition default_category_min_score :: "(string \<times> flt) list" where
  "default_category_min_score = [(''sports'', 85/100), (''politics'', 65/100), (''crypto'', 65/100),
     (''economics'', 65/100), (''entertainment'', 65/100), (''finance'', 65/100)]"

definition candidate_category :: "'a promotable_scheme \<Rightarrow> string" where
  "candidate_category c = text_of_opt (or_opt (cp_category c) (cp_kalshi_category c))"

definition category_min_score :: "promote_env \<Rightarrow> 'a promotable_scheme \<Rightarrow> flt \<Rightarrow> flt" where
  "category_min_score e c base =
     (let category = py_lower (py_strip (candidate_category c));
          by_cat = object_of (setting e ''AUTO_PROMOTE_MIN_SCORE_BY_CATEGORY'' ''auto_promote_min_score_by_category'');
          standard = (case map_of default_category_min_score category of Some x \<Rightarrow> x | None \<Rightarrow> base)
      in if category = [] then base
         else case map_of by_cat category of
             Some j \<Rightarrow> (case json_float j of Some x \<Rightarrow> x | None \<Rightarrow> standard)
           | None \<Rightarrow> standard)"

text \<open>A level that is no object or has no numbers is passed over; \<open>None\<close>: the levels cannot be iterated.\<close>

definition level_usd :: "json \<Rightarrow> flt" where
  "level_usd j =
     (case j of JObj d \<Rightarrow>
        (case (json_float (or_json (dget d ''px'' (JNum 0)) (JNum 0)), json_float (or_json (dget d ''qty'' (JNum 0)) (JNum 0))) of
           (Some px, Some qty) \<Rightarrow> px * qty | _ \<Rightarrow> 0)
      | _ \<Rightarrow> 0)"

definition side_usd :: "json \<Rightarrow> flt option" where
  "side_usd j =
     (case j of JArr xs \<Rightarrow> Some (sum_list (map level_usd xs)) | JStr s \<Rightarrow> Some 0 | JObj d \<Rightarrow> Some 0
      | _ \<Rightarrow> if truthy j then None else Some 0)"

definition orderbook_depth_usd :: "(string \<times> json) list \<Rightarrow> flt option" where
  "orderbook_depth_usd book =
     (case (side_usd (jget book ''bids''), side_usd (jget book ''asks''), side_usd (jget book ''offers'')) of
        (Some b, Some a, Some f) \<Rightarrow> Some (b + a + f) | _ \<Rightarrow> None)"

section \<open>The gates\<close>

text \<open>A gate lets the candidate pass, names the reason why not, or raises.\<close>

datatype gate = Passed | Stopped string | Raised

definition test_gate :: "bool \<Rightarrow> string \<Rightarrow> gate" where
  "test_gate ok reason = (if ok then Passed else Stopped reason)"

definition gate_enabled :: "promote_env \<Rightarrow> gate" where
  "gate_enabled e =
     test_gate (case setting e ''AUTO_PROMOTE_ENABLED'' ''auto_promote_enabled'' of None \<Rightarrow> False | Some j \<Rightarrow> truthy j)
       ''auto_promote_disabled''"

definition gate_score :: "promote_env \<Rightarrow> 'a promotable_scheme \<Rightarrow> gate" where
  "gate_score e c =
     (case float_setting e ''AUTO_PROMOTE_MIN_SCORE'' ''auto_promote_min_score'' (85/100) of
        None \<Rightarrow> Raised
      | Some base \<Rightarrow> test_gate (category_min_score e c base \<le> cd_score c) ''score_low'')"

definition gate_structure :: "promote_env \<Rightarrow> 'a promotable_scheme \<Rightarrow> gate" where
  "gate_structure e c =
     (case float_setting e ''SEMANTIC_PROMOTE_MIN_SCORE'' ''semantic_promote_min_score'' (92/100) of
        None \<Rightarrow> Raised
      | Some semantic_min \<Rightarrow> test_gate (cp_structural_match c \<or> semantic_min \<le> cd_score c) ''structural_unverified'')"

definition gate_resolution :: "(market_facts \<Rightarrow> market_facts \<Rightarrow> resolution_match) \<Rightarrow> 'a promotable_scheme \<Rightarrow> gate" where
  "gate_resolution checker c =
     (case checker (kalshi_facts c) (polymarket_facts c) of
        MATCH_DIVERGENT \<Rightarrow> Stopped ''resolution_divergent'' | MATCH_PENDING \<Rightarrow> Stopped ''resolution_pending'' | MATCH_IDENTICAL \<Rightarrow> Passed)"

definition gate_polarity :: "'a promotable_scheme \<Rightarrow> gate" where
  "gate_polarity c =
     (if py_lower (candidate_category c) \<noteq> ''sports'' then Passed
      else if py_lower (cp_polarity c) = ''flipped'' then Stopped ''polarity_flipped''
      else test_gate (py_lower (cp_polarity c) = ''same'') ''polarity_unconfirmed'')"

definition gate_verifier :: "promote_env \<Rightarrow> 'a promotable_scheme \<Rightarrow> gate" where
  "gate_verifier e c =
     (case pe_verdict e (or_str (cp_kalshi_text c) (cd_kalshi_title c))
             (or_str (cp_polymarket_text c) (or_str (cp_poly_text c) (cd_poly_question c))) of
        None \<Rightarrow> Raised
      | Some v \<Rightarrow> if v = ''NO'' then Stopped ''llm_no'' else test_gate (v = ''YES'') ''llm_maybe'')"

definition gate_liquidity :: "promote_env \<Rightarrow> gate" where
  "gate_liquidity e =
     (case (float_setting e ''PHASE5_MAX_ORDER_USD'' ''phase5_max_order_usd'' 50,
            orderbook_depth_usd (dget (pe_books e) ''kalshi'' []), orderbook_depth_usd (dget (pe_books e) ''polymarket'' [])) of
        (Some required, Some k, Some p) \<Rightarrow> test_gate (required \<le> k \<and> required \<le> p) ''liquidity_low''
      | _ \<Rightarrow> Raised)"

definition gate_date :: "promote_env \<Rightarrow> 'a promotable_scheme \<Rightarrow> gate" where
  "gate_date e c =
     (case int_setting e ''AUTO_PROMOTE_MAX_DAYS'' ''auto_promote_max_days'' 90 of
        None \<Rightarrow> Raised
      | Some max_days \<Rightarrow>
          (case or_opt (cp_resolution_date c) (or_opt (cp_kalshi_resolution_date c) (cp_polymarket_resolution_date c)) of
             Some (x # xs) \<Rightarrow>
               (case iso_date (x # xs) of
                  None \<Rightarrow> Stopped ''date_out_of_window''
                | Some d \<Rightarrow> let days = d - settled_cutoff_date (pe_now e)
                            in test_gate (0 \<le> days \<and> days \<le> max_days) ''date_out_of_window'')
           | _ \<Rightarrow> Passed))"

definition gate_cap :: "promote_env \<Rightarrow> gate" where
  "gate_cap e =
     (case int_setting e ''AUTO_PROMOTE_DAILY_CAP'' ''auto_promote_daily_cap'' 20 of
        None \<Rightarrow> Raised | Some cap \<Rightarrow> test_gate (pe_promoted_today e < cap) ''daily_cap'')"

definition gate_cooling :: "promote_env \<Rightarrow> 'a promotable_scheme \<Rightarrow> gate" where
  "gate_cooling e c =
     (case int_setting e ''AUTO_PROMOTE_ADVISORY_SCANS'' ''auto_promote_advisory_scans'' 30 of
        None \<Rightarrow> Raised
      | Some advisory \<Rightarrow>
          test_gate (case (if cd_kalshi_ticker c = [] then None else map_of (pe_cooling e) (cd_kalshi_ticker c)) of
               None \<Rightarrow> True | Some scans \<Rightarrow> advisory \<le> scans) ''cooling_off'')"

definition promotion_gates ::
  "(market_facts \<Rightarrow> market_facts \<Rightarrow> resolution_match) \<Rightarrow> promote_env \<Rightarrow> 'a promotable_scheme \<Rightarrow> gate list" where
  "promotion_gates checker e c =
     [gate_enabled e, gate_score e c, gate_structure e c, gate_resolution checker c, gate_polarity c,
      gate_verifier e c, gate_liquidity e, gate_date e c, gate_cap e, gate_cooling e c]"

fun first_stop :: "gate list \<Rightarrow> gate" where
  "first_stop [] = Passed"
| "first_stop (g # gs) = (if g = Passed then first_stop gs else g)"

record promotion_result =
  pr_promoted :: bool
  pr_reason :: string
  pr_match_type :: string

definition maybe_promote ::
  "(market_facts \<Rightarrow> market_facts \<Rightarrow> resolution_match) \<Rightarrow> promote_env \<Rightarrow> 'a promotable_scheme \<Rightarrow> promotion_result option" where
  "maybe_promote checker e c =
     (case first_stop (promotion_gates checker e c) of
        Raised \<Rightarrow> None
      | Stopped reason \<Rightarrow> Some \<lparr>pr_promoted = False, pr_reason = reason, pr_match_type = []\<rparr>
      | Passed \<Rightarrow> Some \<lparr> pr_promoted = True, pr_reason = ''promoted'',
                        pr_match_type = (if cp_structural_match c then ''structural'' else ''semantic'') \<rparr>)"

definition is_structural :: "promotion_result \<Rightarrow> bool" where
  "is_structural r = (pr_promoted r \<and> pr_match_type r = ''structural'')"

definition is_semantic :: "promotion_result \<Rightarrow> bool" where
  "is_semantic r = (pr_promoted r \<and> pr_match_type r = ''semantic'')"

definition no_auto_promote :: string where
  "no_auto_promote = ''[no-auto-promote]''"

definition semantic_note :: string where
  "semantic_note = ''Semantic-only auto-promote (score >= SEMANTIC_PROMOTE_MIN_SCORE) cleared resolution + LLM gates but lacks structural parser proof. Operator must verify event identity before flipping allow_auto_trade.''"

definition apply_promotion :: "promotion_result \<Rightarrow> 'a promotable_scheme \<Rightarrow> 'a promotable_scheme" where
  "apply_promotion r c =
     (if contains no_auto_promote (text_of_opt (cd_review_note c) @ '' '' @ cd_notes c) then c\<lparr>cd_allow_auto_trade := False\<rparr>
      else if \<not> pr_promoted r
      then c\<lparr>cd_allow_auto_trade := False, cd_review_note := Some (''Auto-promote gate: '' @ pr_reason r)\<rparr>
      else if is_structural r
      then c\<lparr> cd_status := Some ''confirmed'', cd_allow_auto_trade := True, cp_promotion_match_type := ''structural'',
              cd_resolution_match_status := Some ''identical'', cd_review_note := Some [] \<rparr>
      else c\<lparr> cd_status := Some ''review'', cd_allow_auto_trade := False, cp_promotion_match_type := ''semantic'',
              cd_review_note := Some semantic_note \<rparr>)"

section \<open>The fast path at the start\<close>

definition evaluate_structural_promotion :: "flt \<Rightarrow> market_mapping \<Rightarrow> string" where
  "evaluate_structural_promotion min_score m =
     (if mm_status m \<noteq> CANDIDATE \<and> mm_status m \<noteq> REVIEW then ''skip_status_terminal''
      else if mm_status m = CONFIRMED \<and> mm_allow_auto_trade m then ''skip_already_tradable''
      else if py_strip (mm_kalshi_market_id m) = [] \<or> py_strip (mm_polymarket_slug m) = [] then ''skip_missing_leg''
      else if mm_mapping_score m < min_score then ''skip_score_below_threshold''
      else if py_lower (mm_resolution_match_status m) \<noteq> ''identical'' then ''skip_resolution_not_identical''
      else if ''sports'' \<in> set (map py_lower (mm_tags m)) then ''skip_resolution_not_identical''
      else ''promoted'')"

text \<open>Which of the store's answers fail during the pass.\<close>

record fast_env =
  fe_conids_fail :: bool
  fe_owners_fail :: bool
  fe_list_fails :: "mapping_status \<Rightarrow> bool"
  fe_update_fails :: "string \<Rightarrow> bool"

definition fast_verdict ::
  "flt \<Rightarrow> (string, nat) dict \<Rightarrow> (string, nat) dict \<Rightarrow> market_mapping \<Rightarrow> string" where
  "fast_verdict min_score conids owners m =
     (if contains no_auto_promote (mm_review_note m @ '' '' @ mm_notes m) then ''quarantined_marker''
      else if shared_fx_conid_conflict (mm_forecastex_contract_id m) (mm_forecastex_no_contract_id m) conids
      then ''shared_fx_conid''
      else if shared_market_owner_conflict (mm_kalshi_market_id m) (mm_polymarket_slug m) owners
      then ''duplicate_canonical''
      else evaluate_structural_promotion min_score m)"

definition fast_note :: string where
  "fast_note = ''structural_fast_promote: score={}, resolution=identical, both venues present''"

fun promote_rows ::
  "flt \<Rightarrow> (string \<Rightarrow> bool) \<Rightarrow> flt \<Rightarrow> (string, nat) dict \<Rightarrow> (string, nat) dict \<Rightarrow> market_mapping list
   \<Rightarrow> mapping_db \<times> nat \<Rightarrow> mapping_db \<times> nat" where
  "promote_rows now fails min_score conids owners [] s = s"
| "promote_rows now fails min_score conids owners (m # ms) (db, n) =
     promote_rows now fails min_score conids owners ms
       (if fast_verdict min_score conids owners m \<noteq> ''promoted'' \<or> fails (mm_canonical_id m) then (db, n)
        else (fst (update_mapping_status now (mm_canonical_id m) CONFIRMED fast_note (Some True) db), n + 1))"

definition fast_pass ::
  "flt \<Rightarrow> fast_env \<Rightarrow> flt \<Rightarrow> nat \<Rightarrow> (string, nat) dict \<Rightarrow> (string, nat) dict \<Rightarrow> mapping_status
   \<Rightarrow> mapping_db \<times> nat \<Rightarrow> mapping_db \<times> nat" where
  "fast_pass now e min_score limit conids owners st s =
     (if fe_list_fails e st then s
      else promote_rows now (fe_update_fails e) min_score conids owners (all_mappings (Some st) limit (fst s)) s)"

definition structural_fast_promote :: "flt \<Rightarrow> fast_env \<Rightarrow> flt \<Rightarrow> nat \<Rightarrow> mapping_db \<Rightarrow> mapping_db \<times> nat" where
  "structural_fast_promote now e min_score limit db =
     (let conids = (if fe_conids_fail e then [] else fx_conid_owner_counts db);
          owners = (if fe_owners_fail e then [] else market_owner_counts db);
          pass = fast_pass now e min_score limit conids owners
      in pass REVIEW (pass CANDIDATE (db, 0)))"


section \<open>The resolution check\<close>

lemma dates_commute: "dates_within_tolerance a b = dates_within_tolerance b a"
  by (auto simp: dates_within_tolerance_def abs_minus_commute split: option.splits)

lemma sources_commute: "sources_equivalent a b = sources_equivalent b a"
  by (auto simp: sources_equivalent_def list_ex_iff)

lemma differ_commute: "both_differ a b = both_differ b a"
  by (auto simp: both_differ_def split: option.splits)

lemma check_commutes: "check_resolution_equivalence a b = check_resolution_equivalence b a"
  unfolding check_resolution_equivalence_def
  by (cases "mf_resolution_date a"; cases "mf_resolution_date b"; cases "mf_resolution_source a"; cases "mf_resolution_source b")
     (auto simp: dates_commute sources_commute differ_commute)

lemma check_self:
  "check_resolution_equivalence a a =
     (case (mf_resolution_date a, mf_resolution_source a) of
        (Some d, Some s) \<Rightarrow> if parse_date d = None then MATCH_DIVERGENT else MATCH_IDENTICAL | _ \<Rightarrow> MATCH_PENDING)"
  by (auto simp: check_resolution_equivalence_def both_differ_def sources_equivalent_def dates_within_tolerance_def
      split: option.splits)

section \<open>Divergence\<close>

lemma worse_grows: "fst acc \<le> fst (fold worse ps acc)"
proof (induction ps arbitrary: acc)
  case (Cons a ps)
  have "fst acc \<le> fst (worse a acc)" by (auto simp: worse_def split: prod.split)
  then show ?case using Cons.IH [of "worse a acc"] by simp
qed simp

lemma worse_bounds: "(p, q, d) \<in> set ps \<Longrightarrow> d \<le> fst (fold worse ps acc)"
proof (induction ps arbitrary: acc)
  case (Cons a ps)
  show ?case
  proof (cases "(p, q, d) = a")
    case True
    have "d \<le> fst (worse a acc)" unfolding True [symmetric] by (simp add: worse_def)
    then show ?thesis using worse_grows [of "worse a acc" ps] by simp
  next
    case False
    then show ?thesis using Cons by simp
  qed
qed simp

lemma price_pairs_cover:
  assumes "i < j" "j < length ps"
  shows "(fst (ps ! i), fst (ps ! j), \<bar>snd (ps ! i) - snd (ps ! j)\<bar>) \<in> set (price_pairs ps)"
  using assms
proof (induction ps arbitrary: i j rule: price_pairs.induct)
  case (2 p x rest)
  show ?case
  proof (cases i)
    case 0
    then obtain j' where j: "j = Suc j'" "j' < length rest" using "2.prems" by (cases j) auto
    then have "rest ! j' \<in> set rest" by simp
    then have "(\<lambda>(q, y). (p, q, \<bar>x - y\<bar>)) (rest ! j') \<in> set (map (\<lambda>(q, y). (p, q, \<bar>x - y\<bar>)) rest)"
      unfolding set_map by (rule imageI)
    then show ?thesis using 0 j by (simp add: case_prod_unfold)
  next
    case (Suc i')
    then show ?thesis using 2 by (cases j) auto
  qed
qed simp

lemma divergence_bounds:
  fixes platform_yes :: "(string \<times> flt) list"
  defines "live \<equiv> filter (\<lambda>py. 0 < snd py) platform_yes"
  assumes "i < j" "j < length live"
  shows "\<bar>snd (live ! i) - snd (live ! j)\<bar> \<le> fst (max_yes_divergence platform_yes)"
  unfolding max_yes_divergence_def using worse_bounds [OF price_pairs_cover [OF assms(2,3)]] by (simp add: live_def)

section \<open>The cage\<close>

lemma first_stop_passed: "first_stop gs = Passed \<longleftrightarrow> list_all (\<lambda>g. g = Passed) gs"
  by (induction gs) auto

lemma tradable_candidate:
  assumes "maybe_promote checker e c = Some r" "cd_allow_auto_trade (apply_promotion r c)"
  shows "list_all (\<lambda>g. g = Passed) (promotion_gates checker e c)" "cp_structural_match c"
    "\<not> contains no_auto_promote (text_of_opt (cd_review_note c) @ '' '' @ cd_notes c)"
proof -
  have m: "\<not> contains no_auto_promote (text_of_opt (cd_review_note c) @ '' '' @ cd_notes c)" "pr_promoted r" "is_structural r"
    using assms(2) by (auto simp: apply_promotion_def split: if_splits)
  have p: "first_stop (promotion_gates checker e c) = Passed"
    using assms(1) m(2) by (auto simp: maybe_promote_def split: gate.splits)
  show "list_all (\<lambda>g. g = Passed) (promotion_gates checker e c)" using p first_stop_passed by blast
  show "cp_structural_match c" using assms(1) m(3) p by (auto simp: maybe_promote_def is_structural_def split: if_splits)
  show "\<not> contains no_auto_promote (text_of_opt (cd_review_note c) @ '' '' @ cd_notes c)" by (rule m(1))
qed

lemma passed_gates:
  assumes "list_all (\<lambda>g. g = Passed) (promotion_gates checker e c)"
  shows "checker (kalshi_facts c) (polymarket_facts c) = MATCH_IDENTICAL"
    "py_lower (candidate_category c) = ''sports'' \<Longrightarrow> py_lower (cp_polarity c) = ''same''"
    "pe_verdict e (or_str (cp_kalshi_text c) (cd_kalshi_title c))
       (or_str (cp_polymarket_text c) (or_str (cp_poly_text c) (cd_poly_question c))) = Some ''YES''"
proof -
  have g: "gate_resolution checker c = Passed" "gate_polarity c = Passed" "gate_verifier e c = Passed"
    using assms by (simp_all add: promotion_gates_def)
  show "checker (kalshi_facts c) (polymarket_facts c) = MATCH_IDENTICAL"
    using g(1) by (auto simp: gate_resolution_def split: resolution_match.splits)
  show "py_lower (cp_polarity c) = ''same''" if "py_lower (candidate_category c) = ''sports''"
    using g(2) that by (simp add: gate_polarity_def test_gate_def split: if_splits)
  show "pe_verdict e (or_str (cp_kalshi_text c) (cd_kalshi_title c))
       (or_str (cp_polymarket_text c) (or_str (cp_poly_text c) (cd_poly_question c))) = Some ''YES''"
    using g(3) by (auto simp: gate_verifier_def test_gate_def split: option.splits if_splits)
qed

lemma first_in: "first_of xs = Some x \<Longrightarrow> x \<in> set xs"
  by (auto simp: first_of_def split: list.splits)

lemma platform_row: "get_by_platform pl mid db = Some r \<Longrightarrow> r \<in> set (md_rows db)"
  by (auto simp: get_by_platform_def by_rank_def dest!: first_in split: option.splits)

lemma candidate_row:
  assumes "row_for_candidate sha1 now c k p db = Some row"
  shows "row \<in> set (md_rows db) \<or> mm_status row = CANDIDATE"
proof -
  have fresh: "mm_status (fresh_candidate sha1 now c k p) = CANDIDATE" by (simp add: fresh_candidate_def new_mapping_def)
  show ?thesis
    using assms fresh best_row(1) [of k p db] platform_row [of "''kalshi''" k db] platform_row [of "''polymarket''" p db]
    unfolding row_for_candidate_def Let_def free_half_def
    by (auto split: option.splits if_splits)
qed

lemma upsert_unchanged:
  assumes "x \<in> set (md_rows (fst (upsert_mapping now m0 db)))" "mm_allow_auto_trade x"
  shows "x \<in> set (md_rows db) \<or> mm_canonical_id x = mm_canonical_id m0"
proof -
  define m where "m = (enforce_auto_trade_safety m0)\<lparr>mm_updated_at := now\<rparr>"
  obtain r where r: "r \<in> set (md_rows (write_row now m db))" "x = (if duplicate_of m r then expire_row now r else r)"
    using assms(1) unfolding upsert_rows [OF m_def] set_map by blast
  have "x = r" using r(2) assms(2) by (auto simp: expire_row_def split: if_splits)
  then show ?thesis using written [OF r(1)] by (auto simp: m_def)
qed

lemma upsert_live:
  assumes "x \<in> set (md_rows (fst (upsert_mapping now m0 db)))" "mm_status x \<noteq> EXPIRED"
  shows "x \<in> set (md_rows db) \<and> mm_canonical_id x \<noteq> mm_canonical_id m0
     \<or> mm_canonical_id x = mm_canonical_id m0 \<and> mm_status x = mm_status m0
       \<and> (mm_allow_auto_trade x \<longrightarrow> mm_allow_auto_trade m0)"
proof -
  define m where "m = (enforce_auto_trade_safety m0)\<lparr>mm_updated_at := now\<rparr>"
  obtain r where r: "r \<in> set (md_rows (write_row now m db))" "x = (if duplicate_of m r then expire_row now r else r)"
    using assms(1) unfolding upsert_rows [OF m_def] set_map by blast
  have "x = r" using r(2) assms(2) by (simp split: if_splits)
  then show ?thesis using written [OF r(1)] upserted_row [OF assms(1)] assms(2) by (auto simp: m_def)
qed


text \<open>
  C20.  Discovery turns on the trading of a mapping only for a candidate that went through every gate: it was
  parsed structurally, carries no quarantine marker, both venues resolve alike, a sports pair has one
  polarity, the verifier said yes, and it brings its resolution criteria.
\<close>

theorem tradable_only_through_gates:
  assumes "maybe_promote check_resolution_equivalence e c = Some r"
    and "get_mapping cid (fst (write_candidates sha1 now [apply_promotion r c] db)) = Some x" "mm_allow_auto_trade x"
    and "\<not> list_ex (\<lambda>s. mm_canonical_id s = cid \<and> mm_allow_auto_trade s) (md_rows db)"
  shows "cp_structural_match c \<and> \<not> contains no_auto_promote (text_of_opt (cd_review_note c) @ '' '' @ cd_notes c)
     \<and> check_resolution_equivalence (kalshi_facts c) (polymarket_facts c) = MATCH_IDENTICAL
     \<and> (py_lower (candidate_category c) = ''sports'' \<longrightarrow> py_lower (cp_polarity c) = ''same'')
     \<and> pe_verdict e (or_str (cp_kalshi_text c) (cd_kalshi_title c))
         (or_str (cp_polymarket_text c) (or_str (cp_poly_text c) (cd_poly_question c))) = Some ''YES''
     \<and> list_all (\<lambda>g. g = Passed) (promotion_gates check_resolution_equivalence e c)
     \<and> cd_resolution_criteria c \<noteq> None"
proof -
  let ?c = "apply_promotion r c"
  have x: "x \<in> set (md_rows (fst (write_candidates sha1 now [?c] db)))" "mm_canonical_id x = cid"
    using get_mapping_row [OF assms(2)] by auto
  have old: "\<not> mm_allow_auto_trade s" if "s \<in> set (md_rows db)" "mm_canonical_id s = cid" for s
    using assms(4) that by (auto simp: list_ex_iff)
  obtain m where m: "mapping_from_candidate sha1 now ?c db = Some m"
    using x old assms(3) by (cases "mapping_from_candidate sha1 now ?c db") auto
  then have "x \<in> set (md_rows (fst (upsert_mapping now m db)))" using x(1) by simp
  then have xm: "x \<in> set (md_rows db) \<or> mm_canonical_id x = mm_canonical_id m \<and> mm_allow_auto_trade m"
    using upserted_row [of x now m db] upsert_unchanged [of x now m db] assms(3) by blast
  then have auto: "mm_canonical_id m = cid" "mm_allow_auto_trade m" using old x(2) assms(3) by auto
  obtain row k p where row: "row_for_candidate sha1 now ?c k p db = Some row" "m = apply_candidate ?c k p row"
    using m by (auto simp: mapping_from_candidate_def Let_def split: if_splits)
  have "mm_status row \<noteq> CONFIRMED \<or> \<not> mm_allow_auto_trade row"
    using candidate_row [OF row(1)] old [of row] auto(1) row(2) by (auto simp: apply_candidate_def)
  then have st: "candidate_status ?c = CONFIRMED" "cd_allow_auto_trade ?c"
    using auto(2) row(2) by (auto simp: apply_candidate_def settle_status_def split: if_splits)
  have "cd_resolution_criteria ?c \<noteq> None" using st(1) by (auto simp: candidate_status_def Let_def split: if_splits)
  then have crit: "cd_resolution_criteria c \<noteq> None" by (auto simp: apply_promotion_def split: if_splits)
  note ok = tradable_candidate [OF assms(1) st(2)]
  show ?thesis using ok crit passed_gates [OF ok(1)] by blast
qed


section \<open>The fast path\<close>

lemma dget_count_key: "dget (count_key k d) k' 0 = dget d k' 0 + (if k' = k then 1 else 0)"
  by (simp add: count_key_def dget_update)

lemma counted_key: "k \<in> set ks \<or> 0 < dget d k 0 \<Longrightarrow> 0 < dget (fold count_key ks d) k 0"
  by (induction ks arbitrary: d) (auto simp: dget_count_key)

lemma owners_known:
  assumes "s \<in> set (md_rows db)" "mm_status s = CONFIRMED"
    and "\<not> shared_market_owner_conflict k p (market_owner_counts db)"
  shows "py_strip k \<noteq> [] \<Longrightarrow> py_strip (mm_kalshi_market_id s) \<noteq> py_strip k"
    "py_strip p \<noteq> [] \<Longrightarrow> py_strip (mm_polymarket_slug s) \<noteq> py_strip p"
proof -
  have keys: "0 < dget (market_owner_counts db) key 0" if "key \<in> set (market_keys s)" for key
    unfolding market_owner_counts_def by (rule counted_key) (use assms(1,2) that in \<open>auto simp: confirmed_rows_def\<close>)
  show "py_strip (mm_kalshi_market_id s) \<noteq> py_strip k" if "py_strip k \<noteq> []"
  proof
    assume same: "py_strip (mm_kalshi_market_id s) = py_strip k"
    then have "0 < dget (market_owner_counts db) (kalshi_key k) 0"
      using that by (intro keys) (simp add: market_keys_def kalshi_key_def)
    then show False using assms(3) that by (simp add: shared_market_owner_conflict_def)
  qed
  show "py_strip (mm_polymarket_slug s) \<noteq> py_strip p" if "py_strip p \<noteq> []"
  proof
    assume same: "py_strip (mm_polymarket_slug s) = py_strip p"
    then have "0 < dget (market_owner_counts db) (polymarket_key p) 0"
      using that by (intro keys) (simp add: market_keys_def polymarket_key_def)
    then show False using assms(3) that by (simp add: shared_market_owner_conflict_def)
  qed
qed

lemma confirming_others:
  assumes "x \<in> set (md_rows (fst (update_mapping_status now cid CONFIRMED remark auto db)))" "mm_status x \<noteq> EXPIRED"
  shows "x \<in> set (md_rows db) \<or> mm_canonical_id x = cid \<and> mm_status x = CONFIRMED"
proof (cases "get_mapping cid db")
  case None
  then show ?thesis using assms(1) by (simp add: update_mapping_status_def)
next
  case (Some m)
  have "x \<in> set (md_rows (fst (upsert_mapping now (m\<lparr> mm_status := CONFIRMED, mm_review_note := remark,
      mm_allow_auto_trade := (case auto of None \<Rightarrow> mm_allow_auto_trade m | Some b \<Rightarrow> b), mm_updated_at := now \<rparr>) db)))"
    using assms(1) Some by (simp add: update_mapping_status_def case_prod_unfold Let_def)
  from upsert_live [OF this assms(2)] show ?thesis using get_mapping_row [OF Some] by auto
qed

lemma promoted_rows:
  assumes "x \<in> set (md_rows (fst (promote_rows now fails min_score conids owners ms s)))" "mm_status x \<noteq> EXPIRED"
  shows "x \<in> set (md_rows (fst s)) \<or> mm_status x = CONFIRMED
    \<and> (\<exists>m \<in> set ms. mm_canonical_id m = mm_canonical_id x \<and> fast_verdict min_score conids owners m = ''promoted'')"
  using assms
proof (induction now fails min_score conids owners ms s rule: promote_rows.induct)
  case (2 now fails min_score conids owners m ms db n)
  show ?case
  proof (cases "fast_verdict min_score conids owners m \<noteq> ''promoted'' \<or> fails (mm_canonical_id m)")
    case True
    then show ?thesis using "2.IH" "2.prems" by auto
  next
    case False
    let ?db = "fst (update_mapping_status now (mm_canonical_id m) CONFIRMED fast_note (Some True) db)"
    have "x \<in> set (md_rows ?db) \<or> mm_status x = CONFIRMED
        \<and> (\<exists>m \<in> set ms. mm_canonical_id m = mm_canonical_id x \<and> fast_verdict min_score conids owners m = ''promoted'')"
      using "2.IH" "2.prems" False by auto
    then show ?thesis using confirming_others [of x now "mm_canonical_id m"] "2.prems"(2) False by auto
  qed
qed simp

lemma listed_rows: "m \<in> set (all_mappings (Some st) limit db) \<Longrightarrow> m \<in> set (md_rows db) \<and> mm_status m = st"
  by (auto simp: all_mappings_def dest!: in_set_takeD)

lemma pass_rows:
  assumes "y \<in> set (md_rows (fst (fast_pass now e min_score limit conids owners st s)))" "mm_status y \<noteq> EXPIRED"
  shows "y \<in> set (md_rows (fst s)) \<or> mm_status y = CONFIRMED
    \<and> (\<exists>m \<in> set (md_rows (fst s)). mm_status m = st \<and> mm_canonical_id m = mm_canonical_id y
          \<and> fast_verdict min_score conids owners m = ''promoted'')"
proof (cases "fe_list_fails e st")
  case False
  then have "y \<in> set (md_rows (fst (promote_rows now (fe_update_fails e) min_score conids owners
      (all_mappings (Some st) limit (fst s)) s)))" using assms(1) by (simp add: fast_pass_def)
  from promoted_rows [OF this assms(2)] show ?thesis using listed_rows by blast
qed (use assms in \<open>simp add: fast_pass_def\<close>)

lemma promoted_verdict:
  assumes "fast_verdict min_score conids owners m = ''promoted''"
  shows "\<not> contains no_auto_promote (mm_review_note m @ '' '' @ mm_notes m)"
    "\<not> shared_market_owner_conflict (mm_kalshi_market_id m) (mm_polymarket_slug m) owners"
    "py_strip (mm_kalshi_market_id m) \<noteq> []" "py_strip (mm_polymarket_slug m) \<noteq> []"
    "min_score \<le> mm_mapping_score m" "py_lower (mm_resolution_match_status m) = ''identical''"
    "''sports'' \<notin> set (map py_lower (mm_tags m))"
  using assms by (auto simp: fast_verdict_def evaluate_structural_promotion_def split: if_splits)

text \<open>
  C21.  As long as the store can count the owners of markets, whatever the pass at the start newly confirms was a
  candidate or in review, has the score and identical resolution criteria, is no sports event, carries no
  quarantine marker, and had no market that a mapping confirmed before the pass has too.  When the count fails
  the code goes on without it, and the last condition is not checked.
\<close>

theorem fast_promotion_sound:
  assumes "x \<in> set (md_rows (fst (structural_fast_promote now e min_score limit db)))" "mm_status x = CONFIRMED"
    and "\<not> list_ex (\<lambda>s. mm_canonical_id s = mm_canonical_id x \<and> mm_status s = CONFIRMED) (md_rows db)"
    and "\<not> fe_owners_fail e"
  shows "\<exists>r \<in> set (md_rows db). mm_canonical_id r = mm_canonical_id x \<and> (mm_status r = CANDIDATE \<or> mm_status r = REVIEW)
     \<and> min_score \<le> mm_mapping_score r \<and> py_lower (mm_resolution_match_status r) = ''identical''
     \<and> ''sports'' \<notin> set (map py_lower (mm_tags r))
     \<and> \<not> contains no_auto_promote (mm_review_note r @ '' '' @ mm_notes r)
     \<and> \<not> list_ex (\<lambda>s. mm_status s = CONFIRMED
           \<and> (py_strip (mm_kalshi_market_id s) = py_strip (mm_kalshi_market_id r)
              \<or> py_strip (mm_polymarket_slug s) = py_strip (mm_polymarket_slug r))) (md_rows db)"
proof -
  let ?conids = "if fe_conids_fail e then [] else fx_conid_owner_counts db" and ?owners = "market_owner_counts db"
  let ?pass = "fast_pass now e min_score limit ?conids ?owners"
  let ?ok = "\<lambda>m. mm_canonical_id m = mm_canonical_id x \<and> fast_verdict min_score ?conids ?owners m = ''promoted''"
  have x2: "x \<in> set (md_rows (fst (?pass REVIEW (?pass CANDIDATE (db, 0)))))"
    using assms(1,4) by (simp add: structural_fast_promote_def Let_def)
  have fresh: "x \<notin> set (md_rows db)" using assms(2,3) by (auto simp: list_ex_iff)
  have "\<exists>m \<in> set (md_rows db). ?ok m \<and> (mm_status m = CANDIDATE \<or> mm_status m = REVIEW)"
  proof (cases "x \<in> set (md_rows (fst (?pass CANDIDATE (db, 0))))")
    case True
    then show ?thesis using pass_rows [OF True] assms(2) fresh by auto
  next
    case False
    then obtain m where m: "m \<in> set (md_rows (fst (?pass CANDIDATE (db, 0))))" "mm_status m = REVIEW" "?ok m"
      using pass_rows [OF x2] assms(2) by auto
    then have "m \<in> set (md_rows db)" using pass_rows [OF m(1)] by auto
    then show ?thesis using m by blast
  qed
  then obtain r where r: "r \<in> set (md_rows db)" "?ok r" "mm_status r = CANDIDATE \<or> mm_status r = REVIEW" by blast
  note v = promoted_verdict [OF conjunct2 [OF r(2)]]
  have "\<not> list_ex (\<lambda>s. mm_status s = CONFIRMED
           \<and> (py_strip (mm_kalshi_market_id s) = py_strip (mm_kalshi_market_id r)
              \<or> py_strip (mm_polymarket_slug s) = py_strip (mm_polymarket_slug r))) (md_rows db)"
    unfolding list_ex_iff using owners_known [OF _ _ v(2)] v(3,4) by blast
  then show ?thesis using r v(1,5,6,7) by blast
qed


section \<open>Examples\<close>

definition demo_promotable :: promotable where
  "demo_promotable =
     \<lparr> cd_kalshi_ticker = ''K-26'', cd_poly_slug = ''p-26'', cd_canonical_id = ''POL_K26'', cd_poly_question = ''Will A win?'',
       cd_kalshi_title = ''A wins'', cd_description = [], cd_notes = [], cd_score = 9/10, cd_status = None,
       cd_allow_auto_trade = False, cd_resolution_criteria = Some (JObj []), cd_review_note = None,
       cd_resolution_match_status = None, cp_category = Some ''politics'', cp_kalshi_category = None,
       cp_polymarket_category = None, cp_structural_match = True, cp_polarity = [], cp_kalshi_text = [],
       cp_polymarket_text = [], cp_poly_text = [], cp_resolution_date = Some ''2026-01-20'',
       cp_kalshi_resolution_date = None, cp_polymarket_resolution_date = Some ''2026-01-21T00:00:00Z'',
       cp_resolution_source = Some ''AP'', cp_kalshi_resolution_source = Some ''Associated Press'',
       cp_polymarket_resolution_source = None, cp_tie_break_rule = None, cp_kalshi_tie_break_rule = None,
       cp_polymarket_tie_break_rule = None, cp_outcome_set = None, cp_kalshi_outcome_set = None,
       cp_polymarket_outcome_set = None, cp_promotion_match_type = [] \<rparr>"

definition demo_level :: json where
  "demo_level = JObj [(''px'', JNum (1/2)), (''qty'', JNum 100)]"

text \<open>The clock shows the first of January 2026, noon.\<close>

definition demo_promote_env :: promote_env where
  "demo_promote_env =
     \<lparr> pe_settings = [(''AUTO_PROMOTE_ENABLED'', JBool True)], pe_env = (\<lambda>n. None),
       pe_books = [(''kalshi'', [(''bids'', JArr [demo_level])]), (''polymarket'', [(''asks'', JArr [demo_level])])],
       pe_verdict = (\<lambda>k p. Some ''YES''), pe_promoted_today = 0, pe_cooling = [], pe_now = 1767268800 \<rparr>"

lemma demo_dates: "iso_date ''2026-01-20'' = Some 739636" "settled_cutoff_date 1767268800 = 739617"
  "parse_date ''2026-01-20'' = Some (739636 * 86400)" "parse_date ''2026-01-21T00:00:00Z'' = Some (739637 * 86400)"
  by code_simp+

lemma date_examples: "parse_date ''2026-1-5'' = parse_date ''2026-01-05T00:00:00+09:00''"
  "iso_date ''2026-01-20T00:00:00'' = None" "parse_date ''2026-02-30'' = None"
  by code_simp+

lemma demo_verdict: "maybe_promote check_resolution_equivalence demo_promote_env demo_promotable =
    Some \<lparr>pr_promoted = True, pr_reason = ''promoted'', pr_match_type = ''structural''\<rparr>"
  by code_simp

lemma demo_written:
  "map_option mm_allow_auto_trade (get_mapping ''POL_K26'' (fst (write_candidates (\<lambda>s. s) 5
     [apply_promotion \<lparr>pr_promoted = True, pr_reason = ''promoted'', pr_match_type = ''structural''\<rparr> demo_promotable]
     empty_mapping_db))) = Some True"
  by code_simp

definition demo_candidate_row :: "string \<Rightarrow> string \<Rightarrow> market_mapping" where
  "demo_candidate_row cid p =
     (new_mapping 0 cid ''an event'' CANDIDATE)\<lparr> mm_kalshi_market_id := ''K'', mm_polymarket_slug := p,
        mm_mapping_score := 1, mm_resolution_match_status := ''identical'' \<rparr>"

definition calm_store :: fast_env where
  "calm_store = \<lparr>fe_conids_fail = False, fe_owners_fail = False, fe_list_fails = (\<lambda>s. False), fe_update_fails = (\<lambda>c. False)\<rparr>"

text \<open>The owners are counted_key once, before the pass: two candidates with one market are both confirmed.\<close>

lemma one_pass_two_owners:
  "map (\<lambda>m. (mm_canonical_id m, mm_kalshi_market_id m, mm_status m, mm_allow_auto_trade m))
     (md_rows (fst (structural_fast_promote 5 calm_store (95/100) 1000
        (empty_mapping_db\<lparr>md_rows := [demo_candidate_row ''A'' ''p'', demo_candidate_row ''B'' ''q'']\<rparr>))))
   = [(''A'', ''K'', CONFIRMED, True), (''B'', ''K'', CONFIRMED, True)]"
  by code_simp

lemma tradable_only_through_gates_witness:
  "\<exists>x. get_mapping ''POL_K26'' (fst (write_candidates (\<lambda>s. s) 5
       [apply_promotion \<lparr>pr_promoted = True, pr_reason = ''promoted'', pr_match_type = ''structural''\<rparr> demo_promotable]
       empty_mapping_db)) = Some x
     \<and> mm_allow_auto_trade x \<and> cp_structural_match demo_promotable
     \<and> check_resolution_equivalence (kalshi_facts demo_promotable) (polymarket_facts demo_promotable) = MATCH_IDENTICAL"
proof -
  obtain x where x: "get_mapping ''POL_K26'' (fst (write_candidates (\<lambda>s. s) 5
       [apply_promotion \<lparr>pr_promoted = True, pr_reason = ''promoted'', pr_match_type = ''structural''\<rparr> demo_promotable]
       empty_mapping_db)) = Some x" "mm_allow_auto_trade x"
    using demo_written by blast
  have "\<not> list_ex (\<lambda>s. mm_canonical_id s = ''POL_K26'' \<and> mm_allow_auto_trade s) (md_rows empty_mapping_db)"
    by (simp add: empty_mapping_db_def)
  from tradable_only_through_gates [OF demo_verdict x this] x show ?thesis by blast
qed

lemma demo_fast:
  "map_option (\<lambda>m. (mm_canonical_id m, mm_status m)) (first_of (md_rows (fst (structural_fast_promote 5 calm_store (95/100) 1000
     (empty_mapping_db\<lparr>md_rows := [demo_candidate_row ''A'' ''p'']\<rparr>))))) = Some (''A'', CONFIRMED)"
  by code_simp

lemma fast_promotion_sound_witness:
  "\<exists>x r. x \<in> set (md_rows (fst (structural_fast_promote 5 calm_store (95/100) 1000
       (empty_mapping_db\<lparr>md_rows := [demo_candidate_row ''A'' ''p'']\<rparr>))))
     \<and> mm_status x = CONFIRMED \<and> r = demo_candidate_row ''A'' ''p''
     \<and> mm_canonical_id r = mm_canonical_id x \<and> 95/100 \<le> mm_mapping_score r"
proof -
  let ?db = "empty_mapping_db\<lparr>md_rows := [demo_candidate_row ''A'' ''p'']\<rparr>"
  obtain x where x: "first_of (md_rows (fst (structural_fast_promote 5 calm_store (95/100) 1000 ?db))) = Some x"
      "mm_canonical_id x = ''A''" "mm_status x = CONFIRMED"
    using demo_fast by blast
  have "\<not> list_ex (\<lambda>s. mm_canonical_id s = mm_canonical_id x \<and> mm_status s = CONFIRMED) (md_rows ?db)"
    by (simp add: demo_candidate_row_def new_mapping_def)
  moreover have "\<not> fe_owners_fail calm_store" by (simp add: calm_store_def)
  ultimately obtain r where "r \<in> set (md_rows ?db)" "mm_canonical_id r = mm_canonical_id x" "95/100 \<le> mm_mapping_score r"
    using fast_promotion_sound [OF first_in [OF x(1)] x(3)] by blast
  then show ?thesis using first_in [OF x(1)] x(3) by auto
qed

text \<open>Fields the two sides share are compared with themselves.\<close>

lemma shared_facts_agree:
  assumes "cp_kalshi_resolution_date c = None" "cp_polymarket_resolution_date c = None"
    and "cp_kalshi_resolution_source c = None" "cp_polymarket_resolution_source c = None"
    and "cp_kalshi_tie_break_rule c = None" "cp_polymarket_tie_break_rule c = None"
    and "cp_kalshi_category c = None" "cp_polymarket_category c = None"
    and "cp_kalshi_outcome_set c = None" "cp_polymarket_outcome_set c = None"
    and "cp_resolution_source c = Some src" "cp_resolution_date c = Some d" "parse_date d \<noteq> None"
  shows "check_resolution_equivalence (kalshi_facts c) (polymarket_facts c) = MATCH_IDENTICAL"
proof -
  have "check_resolution_equivalence (kalshi_facts c) (polymarket_facts c)
      = check_resolution_equivalence (kalshi_facts c) (kalshi_facts c)"
    using assms by (simp add: kalshi_facts_def polymarket_facts_def check_resolution_equivalence_def)
  also have "\<dots> = MATCH_IDENTICAL"
    using assms by (simp add: check_self kalshi_facts_def or_opt_def)
  finally show ?thesis .
qed

text \<open>The score floor strips the category, the gate on polarity does not.\<close>

lemma blank_category_escapes:
  "gate_polarity (demo_promotable\<lparr>cp_category := Some '' sports''\<rparr>) = Passed"
  "category_min_score demo_promote_env (demo_promotable\<lparr>cp_category := Some '' sports''\<rparr>) 0 = 85/100"
  by code_simp+

end
