(* ===== verification/Mitigation.thy ===== *)
theory Mitigation
  imports Price_Store Market_Map Fees
begin

text \<open>
  \<open>MitigationEngine\<close> of \<open>arbiter/recovery/mitigation_engine.py\<close>: what to do with a position one venue holds
  and no filled arb explains, from its cost, its book, its age and the quotes of the other venues.  The clock is
  an argument, read once per decision.  Of a rationale its leading words are kept.
\<close>

section \<open>Positions and decisions\<close>

record profitability_snapshot =
  pf_qty :: flt
  pf_side :: string
  pf_cost_basis_usd :: flt
  pf_cost_per_share :: flt
  pf_best_bid :: flt
  pf_best_ask :: flt
  pf_spread_cents :: flt
  pf_mtm_usd :: flt
  pf_fees_to_close_usd :: flt
  pf_close_proceeds_usd :: flt
  pf_implied_settle_probability :: flt
  pf_expected_value_at_settle_usd :: flt
  pf_hold_vs_close_usd :: flt
  pf_is_underwater :: bool
  pf_seconds_to_expiry :: "flt option"

datatype mitigation_action = COMPLETE_ARB | HOLD_TO_SETTLE | CLOSE_NOW | HEDGE | MANUAL_REVIEW

definition action_label :: "mitigation_action \<Rightarrow> string" where
  "action_label a = (case a of COMPLETE_ARB \<Rightarrow> ''complete_arb'' | HOLD_TO_SETTLE \<Rightarrow> ''hold_to_settle''
     | CLOSE_NOW \<Rightarrow> ''close_now'' | HEDGE \<Rightarrow> ''hedge'' | MANUAL_REVIEW \<Rightarrow> ''manual_review'')"

record mitigation_decision =
  dn_action :: mitigation_action
  dn_rationale :: string
  dn_profitability :: profitability_snapshot
  dn_confidence :: string
  dn_arb_venue :: "string option"
  dn_arb_canonical_id :: "string option"
  dn_arb_market_id :: "string option"
  dn_arb_side :: "string option"
  dn_arb_price :: "flt option"
  dn_arb_qty :: int
  dn_arb_net_edge_cents :: flt
  dn_close_price :: "flt option"
  dn_close_qty :: int
  dn_hedge_venue :: "string option"
  dn_hedge_market_id :: "string option"
  dn_hedge_side :: "string option"
  dn_hedge_price :: "flt option"
  dn_hedge_qty :: int
  dn_autonomous_ok :: bool

definition new_decision ::
  "mitigation_action \<Rightarrow> string \<Rightarrow> profitability_snapshot \<Rightarrow> string \<Rightarrow> bool \<Rightarrow> mitigation_decision" where
  "new_decision act rationale prof confidence autonomous =
     \<lparr> dn_action = act, dn_rationale = rationale, dn_profitability = prof, dn_confidence = confidence,
       dn_arb_venue = None, dn_arb_canonical_id = None, dn_arb_market_id = None, dn_arb_side = None,
       dn_arb_price = None, dn_arb_qty = 0, dn_arb_net_edge_cents = 0, dn_close_price = None, dn_close_qty = 0,
       dn_hedge_venue = None, dn_hedge_market_id = None, dn_hedge_side = None, dn_hedge_price = None,
       dn_hedge_qty = 0, dn_autonomous_ok = autonomous \<rparr>"

text \<open>What the reconciler writes on a position: a decision of the engine, or that it is paired.\<close>

datatype decision_info = EngineDecision mitigation_decision | PairedHold flt

record stranded_position =
  sp_platform :: string
  sp_market_id :: string
  sp_side :: string
  sp_qty :: flt
  sp_cost_basis_usd :: flt
  sp_mtm_usd :: flt
  sp_unrealized_usd :: flt
  sp_best_bid :: flt
  sp_best_ask :: flt
  sp_title :: string
  sp_first_seen_ts :: flt
  sp_last_seen_ts :: flt
  sp_expiry_ts :: "flt option"
  sp_auto_close_attempted :: bool
  sp_auto_close_result :: "string option"
  sp_mitigation_action :: string
  sp_mitigation_decision :: "decision_info option"
  sp_paired_qty :: flt

definition residual_qty :: "stranded_position \<Rightarrow> flt" where
  "residual_qty pos = max (\<bar>sp_qty pos\<bar> - sp_paired_qty pos) 0"

definition fully_paired :: "stranded_position \<Rightarrow> bool" where
  "fully_paired pos = (0 < \<bar>sp_qty pos\<bar> \<and> residual_qty pos \<le> 1 / 10 ^ 9)"

definition position_cost_per_share :: "stranded_position \<Rightarrow> flt" where
  "position_cost_per_share pos = (if \<bar>sp_qty pos\<bar> \<le> 0 then 0 else \<bar>sp_cost_basis_usd pos\<bar> / \<bar>sp_qty pos\<bar>)"

section \<open>The engine\<close>

record mitigation_config =
  mc_complete_arb_min_edge_cents :: flt
  mc_penny_cost_threshold_usd :: flt
  mc_losing_implied_prob_threshold :: flt
  mc_underwater_close_ratio :: flt
  mc_max_autonomous_spread_bps :: flt
  mc_max_autonomous_notional_usd :: flt
  mc_unactionable_max_notional_usd :: flt
  mc_young_age_seconds :: flt
  mc_mature_age_seconds :: flt
  mc_young_max_loss_pct :: flt
  mc_mature_max_loss_pct :: flt
  mc_aged_max_loss_pct :: flt
  mc_settlement_proximity_hold_seconds :: flt
  mc_max_quote_age_seconds :: flt
  mc_hopeless_cost_gap :: flt

definition default_mitigation_config :: mitigation_config where
  "default_mitigation_config =
     \<lparr> mc_complete_arb_min_edge_cents = 3, mc_penny_cost_threshold_usd = 5/100,
       mc_losing_implied_prob_threshold = 1/4, mc_underwater_close_ratio = 4/10,
       mc_max_autonomous_spread_bps = 800, mc_max_autonomous_notional_usd = 30,
       mc_unactionable_max_notional_usd = 10, mc_young_age_seconds = 6 * 3600, mc_mature_age_seconds = 24 * 3600,
       mc_young_max_loss_pct = 0, mc_mature_max_loss_pct = 1/4, mc_aged_max_loss_pct = 1/2,
       mc_settlement_proximity_hold_seconds = 24 * 3600, mc_max_quote_age_seconds = 60,
       mc_hopeless_cost_gap = 15/100 \<rparr>"

text \<open>The thresholds the reconciler builds its engine with: four come from the environment.\<close>

definition program_mitigation_config :: "flt \<Rightarrow> flt \<Rightarrow> flt \<Rightarrow> flt \<Rightarrow> mitigation_config" where
  "program_mitigation_config penny max_usd max_bps small =
     default_mitigation_config
       \<lparr> mc_penny_cost_threshold_usd := penny, mc_max_autonomous_notional_usd := max_usd,
         mc_max_autonomous_spread_bps := max_bps, mc_unactionable_max_notional_usd := small \<rparr>"

text \<open>What the engine asks of an adapter: whether it has \<open>place_unwind_sell\<close> and \<open>place_fok\<close>.\<close>

record adapter_hooks =
  ah_unwind_sell :: bool
  ah_fok :: bool

text \<open>\<open>me_store_fails\<close>: reading the price store raises.\<close>

record mitigation_engine =
  me_price_store :: "price_store option"
  me_store_fails :: bool
  me_market_map :: market_map
  me_adapters :: "(string, adapter_hooks) dict"
  me_config :: mitigation_config

definition mapping_market_ids :: "mapping_dict \<Rightarrow> string option list" where
  "mapping_market_ids m = [m_kalshi m, m_kalshi_market_id m, m_polymarket m, m_polymarket_slug m, m_forecastex m]"

definition normal_id :: "string \<Rightarrow> string" where
  "normal_id t = py_lower (py_strip t)"

definition canonical_id_for_position :: "stranded_position \<Rightarrow> market_map \<Rightarrow> string option" where
  "canonical_id_for_position pos mm =
     (let mid = normal_id (sp_market_id pos)
      in if mid = [] then None
         else map_option fst (find (\<lambda>(cid, m). list_ex (\<lambda>v. v \<noteq> None \<and> normal_id (the v) = mid) (mapping_market_ids m)) mm))"

definition estimate_close_fees :: "string \<Rightarrow> flt \<Rightarrow> int \<Rightarrow> flt" where
  "estimate_close_fees platform price qty =
     (if qty \<le> 0 \<or> price \<le> 0 then 0
      else if platform = ''kalshi'' then kalshi_order_fee price (of_int qty) kalshi_taker_fee_rate
      else if platform = ''polymarket'' then polymarket_order_fee price (of_int qty) None ''politics''
      else if platform = ''forecastex'' then forecastex_order_fee price (of_int qty) forecastex_taker_fee_per_contract
      else 0)"

definition build_profitability_snapshot :: "flt \<Rightarrow> stranded_position \<Rightarrow> profitability_snapshot" where
  "build_profitability_snapshot now pos =
     (let qty = \<bar>sp_qty pos\<bar>; cost = \<bar>sp_cost_basis_usd pos\<bar>; bid = sp_best_bid pos; ask = sp_best_ask pos;
          close_price = (if 0 < bid then bid else 0); mtm = qty * close_price;
          fees = estimate_close_fees (sp_platform pos) close_price (py_int qty);
          proceeds = max 0 (mtm - fees);
          implied = max 0 (min 1 (if 0 < ask then ask else bid)); ev = qty * implied
      in \<lparr> pf_qty = qty, pf_side = py_upper (or_str (sp_side pos) ''YES''), pf_cost_basis_usd = cost,
           pf_cost_per_share = (if 0 < qty then cost / qty else 0), pf_best_bid = bid, pf_best_ask = ask,
           pf_spread_cents = (if 0 < bid \<and> 0 < ask then max 0 ((ask - bid) * 100) else 0),
           pf_mtm_usd = mtm, pf_fees_to_close_usd = fees, pf_close_proceeds_usd = proceeds,
           pf_implied_settle_probability = implied, pf_expected_value_at_settle_usd = ev,
           pf_hold_vs_close_usd = ev - proceeds, pf_is_underwater = (mtm < cost),
           pf_seconds_to_expiry = map_option (\<lambda>t. t - now) (sp_expiry_ts pos) \<rparr>)"

section \<open>Completing the arb\<close>

definition missing_side :: "stranded_position \<Rightarrow> string" where
  "missing_side pos = (if py_upper (or_str (sp_side pos) ''YES'') = ''YES'' then ''NO'' else ''YES'')"

definition entry_price :: "string \<Rightarrow> price_point \<Rightarrow> flt" where
  "entry_price need pp = (if need = ''NO'' then or_flt (pp_no_ask pp) (pp_no_price pp) else or_flt (pp_yes_ask pp) (pp_yes_price pp))"

definition entry_market :: "string \<Rightarrow> price_point \<Rightarrow> string" where
  "entry_market need pp =
     (if need = ''NO'' then or_str (pp_no_market_id pp) (pp_raw_market_id pp)
      else or_str (pp_yes_market_id pp) (pp_raw_market_id pp))"

definition entry_fees_per_share :: "string \<Rightarrow> flt \<Rightarrow> int \<Rightarrow> flt" where
  "entry_fees_per_share venue price qty = estimate_close_fees venue price qty / of_int (max qty 1)"

definition completion_edge :: "profitability_snapshot \<Rightarrow> string \<Rightarrow> flt \<Rightarrow> int \<Rightarrow> flt" where
  "completion_edge prof venue price qty = 1 - pf_cost_per_share prof - price - entry_fees_per_share venue price qty"

text \<open>What one venue offers, if anything.\<close>

definition completion_offer ::
  "flt \<Rightarrow> mitigation_engine \<Rightarrow> stranded_position \<Rightarrow> profitability_snapshot \<Rightarrow> string \<Rightarrow> string \<times> price_point
   \<Rightarrow> mitigation_decision option" where
  "completion_offer now e pos prof cid quote =
     (let venue = fst quote; pp = snd quote; cfg = me_config e; need = missing_side pos; qty = py_int (pf_qty prof);
          price = entry_price need pp; market = entry_market need pp; edge = completion_edge prof venue price qty
      in if venue = sp_platform pos then None
         else if (case map_of (me_adapters e) venue of None \<Rightarrow> True | Some a \<Rightarrow> \<not> ah_fok a) then None
         else if mc_max_quote_age_seconds cfg < age_seconds now pp then None
         else if price \<le> 0 \<or> market = [] then None
         else if mc_hopeless_cost_gap cfg \<le> pf_cost_per_share prof + price - 1 then None
         else if edge * 100 < mc_complete_arb_min_edge_cents cfg then None
         else Some ((new_decision COMPLETE_ARB ''complete arb'' prof ''high''
                      (\<bar>pf_cost_basis_usd prof\<bar> \<le> mc_max_autonomous_notional_usd cfg))
                \<lparr> dn_arb_venue := Some venue, dn_arb_canonical_id := Some cid, dn_arb_market_id := Some market,
                  dn_arb_side := Some need, dn_arb_price := Some price, dn_arb_qty := qty,
                  dn_arb_net_edge_cents := edge * 100 \<rparr>))"

definition better_offer :: "mitigation_decision option \<Rightarrow> mitigation_decision option \<Rightarrow> mitigation_decision option" where
  "better_offer best cand =
     (case cand of None \<Rightarrow> best
      | Some c \<Rightarrow> (case best of None \<Rightarrow> Some c
          | Some b \<Rightarrow> if dn_arb_net_edge_cents b < dn_arb_net_edge_cents c then Some c else Some b))"

definition try_complete_arb ::
  "flt \<Rightarrow> mitigation_engine \<Rightarrow> stranded_position \<Rightarrow> string \<Rightarrow> profitability_snapshot \<Rightarrow> mitigation_decision option" where
  "try_complete_arb now e pos cid prof =
     (case me_price_store e of
        None \<Rightarrow> None
      | Some s \<Rightarrow>
          if me_store_fails e \<or> py_int (pf_qty prof) \<le> 0 \<or> pf_cost_per_share prof \<le> 0 then None
          else fold (\<lambda>q best. better_offer best (completion_offer now e pos prof cid q)) (get_all_for_market cid now s) None)"

section \<open>The decision\<close>

definition no_live_bbo :: "profitability_snapshot \<Rightarrow> bool" where
  "no_live_bbo prof = (pf_best_bid prof \<le> 0 \<or> pf_best_ask prof \<le> 0)"

definition spread_bps :: "profitability_snapshot \<Rightarrow> flt" where
  "spread_bps prof = max 0 (pf_spread_cents prof) * 100"

definition market_says_losing :: "mitigation_config \<Rightarrow> profitability_snapshot \<Rightarrow> bool" where
  "market_says_losing cfg prof =
     (pf_implied_settle_probability prof < mc_losing_implied_prob_threshold cfg \<and> pf_is_underwater prof)"

definition deep_underwater :: "mitigation_config \<Rightarrow> profitability_snapshot \<Rightarrow> bool" where
  "deep_underwater cfg prof =
     (0 < pf_cost_basis_usd prof
      \<and> pf_close_proceeds_usd prof / max (pf_cost_basis_usd prof) (1 / 10 ^ 9) \<le> mc_underwater_close_ratio cfg)"

definition position_age :: "flt \<Rightarrow> stranded_position \<Rightarrow> flt" where
  "position_age now pos = max 0 (now - sp_first_seen_ts pos)"

definition max_loss_pct :: "mitigation_config \<Rightarrow> flt \<Rightarrow> flt" where
  "max_loss_pct cfg age =
     (if age < mc_young_age_seconds cfg then mc_young_max_loss_pct cfg
      else if age < mc_mature_age_seconds cfg then mc_mature_max_loss_pct cfg
      else mc_aged_max_loss_pct cfg)"

definition realised_loss_pct :: "profitability_snapshot \<Rightarrow> flt" where
  "realised_loss_pct prof =
     (if 0 < pf_cost_basis_usd prof
      then max 0 ((pf_cost_basis_usd prof - pf_close_proceeds_usd prof) / pf_cost_basis_usd prof) else 0)"

definition near_settlement :: "mitigation_config \<Rightarrow> profitability_snapshot \<Rightarrow> bool" where
  "near_settlement cfg prof =
     (case pf_seconds_to_expiry prof of None \<Rightarrow> False
      | Some s \<Rightarrow> 0 < s \<and> s \<le> mc_settlement_proximity_hold_seconds cfg)"

definition has_close_hook :: "mitigation_engine \<Rightarrow> stranded_position \<Rightarrow> bool" where
  "has_close_hook e pos = (case map_of (me_adapters e) (sp_platform pos) of None \<Rightarrow> False | Some a \<Rightarrow> ah_unwind_sell a)"

definition hold_or_close :: "flt \<Rightarrow> mitigation_config \<Rightarrow> stranded_position \<Rightarrow> profitability_snapshot \<Rightarrow> mitigation_decision" where
  "hold_or_close now cfg pos prof =
     (if near_settlement cfg prof then new_decision HOLD_TO_SETTLE ''settlement-proximity hold'' prof ''high'' True
      else if market_says_losing cfg prof \<or> deep_underwater cfg prof
      then if max_loss_pct cfg (position_age now pos) < realised_loss_pct prof
           then new_decision HOLD_TO_SETTLE ''age-bracket loss cap'' prof ''medium'' True
           else (new_decision CLOSE_NOW ''market-implied'' prof (if deep_underwater cfg prof then ''high'' else ''medium'')
                  (\<bar>pf_cost_basis_usd prof\<bar> \<le> mc_max_autonomous_notional_usd cfg
                   \<and> spread_bps prof \<le> mc_max_autonomous_spread_bps cfg))
                \<lparr> dn_close_price := Some (pf_best_bid prof), dn_close_qty := py_int (pf_qty prof) \<rparr>
      else new_decision HOLD_TO_SETTLE ''hold'' prof (if 1 < pf_hold_vs_close_usd prof then ''high'' else ''medium'') True)"

definition completion :: "flt \<Rightarrow> mitigation_engine \<Rightarrow> stranded_position \<Rightarrow> profitability_snapshot \<Rightarrow> mitigation_decision option" where
  "completion now e pos prof =
     (case canonical_id_for_position pos (me_market_map e) of
        None \<Rightarrow> None | Some cid \<Rightarrow> if cid = [] then None else try_complete_arb now e pos cid prof)"

definition decide_alone :: "flt \<Rightarrow> mitigation_engine \<Rightarrow> stranded_position \<Rightarrow> profitability_snapshot \<Rightarrow> mitigation_decision" where
  "decide_alone now e pos prof =
     (let cfg = me_config e
      in if 0 < pf_cost_per_share prof \<and> pf_cost_per_share prof \<le> mc_penny_cost_threshold_usd cfg
         then new_decision HOLD_TO_SETTLE ''penny position'' prof ''high'' True
         else if (\<not> has_close_hook e pos \<or> no_live_bbo prof)
                 \<and> \<bar>pf_cost_basis_usd prof\<bar> \<le> mc_unactionable_max_notional_usd cfg
         then new_decision HOLD_TO_SETTLE ''unactionable small lot'' prof ''high'' True
         else if \<not> has_close_hook e pos then new_decision MANUAL_REVIEW ''no adapter'' prof ''low'' False
         else if no_live_bbo prof then new_decision MANUAL_REVIEW ''no live BBO'' prof ''low'' False
         else hold_or_close now cfg pos prof)"

definition decide :: "flt \<Rightarrow> mitigation_engine \<Rightarrow> stranded_position \<Rightarrow> mitigation_decision" where
  "decide now e pos =
     (let prof = build_profitability_snapshot now pos
      in case completion now e pos prof of Some d \<Rightarrow> d | None \<Rightarrow> decide_alone now e pos prof)"

section \<open>Completing is worth it\<close>

lemma offer_cases:
  assumes "completion_offer now e pos prof cid (venue, pp) = Some d"
  defines "price \<equiv> entry_price (missing_side pos) pp" and "qty \<equiv> py_int (pf_qty prof)"
  shows "dn_action d = COMPLETE_ARB" "dn_arb_venue d = Some venue" "dn_arb_price d = Some price"
    "dn_arb_side d = Some (missing_side pos)" "dn_arb_qty d = qty" "venue \<noteq> sp_platform pos" "0 < price"
    "age_seconds now pp \<le> mc_max_quote_age_seconds (me_config e)"
    "mc_complete_arb_min_edge_cents (me_config e) \<le> completion_edge prof venue price qty * 100"
    "dn_autonomous_ok d = (\<bar>pf_cost_basis_usd prof\<bar> \<le> mc_max_autonomous_notional_usd (me_config e))"
    "dn_arb_net_edge_cents d = completion_edge prof venue price qty * 100"
    "\<exists>a. map_of (me_adapters e) venue = Some a \<and> ah_fok a"
    "dn_arb_market_id d = Some (entry_market (missing_side pos) pp)" "entry_market (missing_side pos) pp \<noteq> []"
  using assms unfolding completion_offer_def Let_def
  by (auto simp: new_decision_def not_le not_less split: if_splits option.splits)

lemma best_offer:
  assumes "fold (\<lambda>q best. better_offer best (f q)) qs b = Some d"
  shows "b = Some d \<or> (\<exists>q \<in> set qs. f q = Some d)"
  using assms
proof (induction qs arbitrary: b)
  case (Cons q qs)
  then have "better_offer b (f q) = Some d \<or> (\<exists>q \<in> set qs. f q = Some d)" by simp
  then show ?case by (auto simp: better_offer_def split: option.splits if_splits)
qed simp

lemma better_grows:
  "\<exists>d1. better_offer (Some d0) c = Some d1 \<and> dn_arb_net_edge_cents d0 \<le> dn_arb_net_edge_cents d1"
  by (cases c) (auto simp: better_offer_def)

lemma better_takes:
  "\<exists>d1. better_offer b (Some c) = Some d1 \<and> dn_arb_net_edge_cents c \<le> dn_arb_net_edge_cents d1"
  by (cases b) (auto simp: better_offer_def)

lemma offers_grow:
  assumes "b = Some d0" "fold (\<lambda>q best. better_offer best (f q)) qs b = Some d"
  shows "dn_arb_net_edge_cents d0 \<le> dn_arb_net_edge_cents d"
  using assms
proof (induction qs arbitrary: b d0)
  case (Cons q qs)
  obtain d1 where d1: "better_offer b (f q) = Some d1" "dn_arb_net_edge_cents d0 \<le> dn_arb_net_edge_cents d1"
    using better_grows Cons.prems(1) by blast
  then show ?case using Cons.IH [OF d1(1)] Cons.prems(2) by simp
qed simp

lemma offers_best:
  assumes "fold (\<lambda>q best. better_offer best (f q)) qs b = Some d" "q \<in> set qs" "f q = Some d'"
  shows "dn_arb_net_edge_cents d' \<le> dn_arb_net_edge_cents d"
  using assms
proof (induction qs arbitrary: b)
  case (Cons a qs)
  show ?case
  proof (cases "q = a")
    case True
    obtain d1 where d1: "better_offer b (f a) = Some d1" "dn_arb_net_edge_cents d' \<le> dn_arb_net_edge_cents d1"
      using better_takes [of b d'] Cons.prems(3) True by auto
    then show ?thesis using offers_grow [OF d1(1)] Cons.prems(1) by (auto intro: order_trans)
  next
    case False
    then show ?thesis using Cons by auto
  qed
qed simp

lemma hold_or_close_action: "dn_action (hold_or_close now cfg pos prof) \<in> {HOLD_TO_SETTLE, CLOSE_NOW}"
  by (simp add: hold_or_close_def new_decision_def)

lemma alone_action: "dn_action (decide_alone now e pos prof) \<in> {HOLD_TO_SETTLE, CLOSE_NOW, MANUAL_REVIEW}"
  using hold_or_close_action [of now "me_config e" pos prof] by (auto simp: decide_alone_def Let_def new_decision_def)

lemma completion_offered:
  assumes "completion now e pos prof = Some d"
  obtains cid s where "me_price_store e = Some s" "0 < py_int (pf_qty prof)"
    "canonical_id_for_position pos (me_market_map e) = Some cid"
    "fold (\<lambda>q best. better_offer best (completion_offer now e pos prof cid q)) (get_all_for_market cid now s) None = Some d"
  using assms by (auto simp: completion_def try_complete_arb_def split: option.splits if_splits)

lemma completion_action: "completion now e pos prof = Some d \<Longrightarrow> dn_action d = COMPLETE_ARB"
  by (erule completion_offered) (use best_offer offer_cases(1) in fastforce)

lemma decide_split:
  assumes "prof = build_profitability_snapshot now pos"
  shows "completion now e pos prof = Some (decide now e pos) \<and> dn_action (decide now e pos) = COMPLETE_ARB
     \<or> decide now e pos = decide_alone now e pos prof \<and> dn_action (decide now e pos) \<noteq> COMPLETE_ARB"
proof (cases "completion now e pos prof")
  case None
  then have "decide now e pos = decide_alone now e pos prof" by (simp add: decide_def Let_def assms)
  then show ?thesis using alone_action [of now e pos prof] by auto
next
  case (Some d)
  then have "decide now e pos = d" by (simp add: decide_def Let_def assms)
  then show ?thesis using Some completion_action by auto
qed

lemma snapshot_costs:
  "pf_cost_per_share (build_profitability_snapshot now pos) = position_cost_per_share pos"
  "pf_qty (build_profitability_snapshot now pos) = \<bar>sp_qty pos\<bar>"
  "pf_cost_basis_usd (build_profitability_snapshot now pos) = \<bar>sp_cost_basis_usd pos\<bar>"
  "pf_best_bid (build_profitability_snapshot now pos) = sp_best_bid pos"
  "pf_best_ask (build_profitability_snapshot now pos) = sp_best_ask pos"
  by (auto simp: build_profitability_snapshot_def position_cost_per_share_def Let_def)

text \<open>
  C39.  Completing a stranded lot is worth its price: whenever the engine decides COMPLETE_ARB, the missing side is
  bought on another venue that has an order hook, in the market of a quote that the store returns for the mapping of
  the lot and that is no older than the configured age, the quantity is positive and at most the lot, and over it the dollar per pair less what the lot
  cost, less the price and less the fee the program estimates for the whole order is at least the configured edge.
\<close>

theorem completed_arb_pays:
  assumes "dn_action (decide now e pos) = COMPLETE_ARB"
  shows "\<exists>venue pp s cid. me_price_store e = Some s \<and> (venue, pp) \<in> set (get_all_for_market cid now s)
     \<and> canonical_id_for_position pos (me_market_map e) = Some cid
     \<and> dn_arb_venue (decide now e pos) = Some venue \<and> venue \<noteq> sp_platform pos
     \<and> (\<exists>a. map_of (me_adapters e) venue = Some a \<and> ah_fok a)
     \<and> dn_arb_market_id (decide now e pos) = Some (entry_market (missing_side pos) pp)
     \<and> dn_arb_side (decide now e pos) = Some (missing_side pos)
     \<and> dn_arb_price (decide now e pos) = Some (entry_price (missing_side pos) pp)
     \<and> age_seconds now pp \<le> mc_max_quote_age_seconds (me_config e)
     \<and> 0 < dn_arb_qty (decide now e pos) \<and> of_int (dn_arb_qty (decide now e pos)) \<le> \<bar>sp_qty pos\<bar>
     \<and> of_int (dn_arb_qty (decide now e pos)) * (mc_complete_arb_min_edge_cents (me_config e) / 100)
        \<le> of_int (dn_arb_qty (decide now e pos)) * (1 - position_cost_per_share pos - entry_price (missing_side pos) pp)
          - estimate_close_fees venue (entry_price (missing_side pos) pp) (dn_arb_qty (decide now e pos))"
proof -
  let ?d = "decide now e pos" and ?prof = "build_profitability_snapshot now pos"
  obtain cid s where s: "me_price_store e = Some s" "0 < py_int (pf_qty ?prof)"
    "canonical_id_for_position pos (me_market_map e) = Some cid"
    "fold (\<lambda>q best. better_offer best (completion_offer now e pos ?prof cid q)) (get_all_for_market cid now s) None = Some ?d"
    using completion_offered [of now e pos ?prof ?d] decide_split [of ?prof now pos e] assms by metis
  obtain venue pp where q: "(venue, pp) \<in> set (get_all_for_market cid now s)"
      "completion_offer now e pos ?prof cid (venue, pp) = Some ?d"
    using best_offer [OF s(4)] by fastforce
  note o = offer_cases [OF q(2)]
  let ?q = "dn_arb_qty ?d" and ?p = "entry_price (missing_side pos) pp"
  have qty: "0 < ?q" "of_int ?q \<le> \<bar>sp_qty pos\<bar>"
    using s(2) o(5) py_int_ge [of ?q "pf_qty ?prof"] by (simp_all add: snapshot_costs)
  have less_eq: "1 \<le> ?q" using qty(1) by simp
  have "mc_complete_arb_min_edge_cents (me_config e) / 100
      \<le> 1 - position_cost_per_share pos - ?p - estimate_close_fees venue ?p ?q / of_int ?q"
    proof -
    have q: "py_int \<bar>sp_qty pos\<bar> = ?q" using o(5) by (simp add: snapshot_costs)
    have "mc_complete_arb_min_edge_cents (me_config e)
        \<le> (1 - position_cost_per_share pos - ?p - estimate_close_fees venue ?p ?q / of_int ?q) * 100"
      using o(9) unfolding completion_edge_def entry_fees_per_share_def snapshot_costs q max_absorb1 [OF less_eq] .
    then show ?thesis by (simp add: divide_le_eq)
  qed
  then have "of_int ?q * (mc_complete_arb_min_edge_cents (me_config e) / 100)
      \<le> of_int ?q * (1 - position_cost_per_share pos - ?p - estimate_close_fees venue ?p ?q / of_int ?q)"
    using qty(1) by (intro mult_left_mono) simp_all
  also have "\<dots> = of_int ?q * (1 - position_cost_per_share pos - ?p) - estimate_close_fees venue ?p ?q"
    using qty(1) by (simp add: right_diff_distrib)
  finally show ?thesis using s(1,3) q(1) o(2,3,4,6,8,12,13) qty by blast
qed

section \<open>Closing is bounded\<close>

lemma decide_close:
  assumes "dn_action (decide now e pos) = CLOSE_NOW"
  defines "prof \<equiv> build_profitability_snapshot now pos"
  shows "decide now e pos = hold_or_close now (me_config e) pos prof" "has_close_hook e pos" "\<not> no_live_bbo prof"
    "\<not> (0 < pf_cost_per_share prof \<and> pf_cost_per_share prof \<le> mc_penny_cost_threshold_usd (me_config e))"
proof -
  have d: "decide now e pos = decide_alone now e pos prof"
    using decide_split [of prof now pos e] assms(1) by (auto simp: prof_def)
  then show "decide now e pos = hold_or_close now (me_config e) pos prof" "has_close_hook e pos" "\<not> no_live_bbo prof"
    "\<not> (0 < pf_cost_per_share prof \<and> pf_cost_per_share prof \<le> mc_penny_cost_threshold_usd (me_config e))"
    using assms(1) unfolding d decide_alone_def Let_def new_decision_def by (auto split: if_splits)
qed

text \<open>
  Closing is bounded: whenever the engine decides CLOSE_NOW, the venue has a sell hook and a live bid and ask,
  the close is priced at the bid for at most the lot, the settlement is not near, the loss it realises is within the
  cap of the lot's age, and it may run unattended only within the configured notional and spread.
\<close>

lemma closing_is_bounded:
  assumes "dn_action (decide now e pos) = CLOSE_NOW"
  shows "has_close_hook e pos \<and> 0 < sp_best_bid pos \<and> 0 < sp_best_ask pos
     \<and> dn_close_price (decide now e pos) = Some (sp_best_bid pos) \<and> of_int (dn_close_qty (decide now e pos)) \<le> \<bar>sp_qty pos\<bar>
     \<and> \<not> near_settlement (me_config e) (build_profitability_snapshot now pos)
     \<and> realised_loss_pct (build_profitability_snapshot now pos) \<le> max_loss_pct (me_config e) (position_age now pos)
     \<and> (dn_autonomous_ok (decide now e pos) \<longrightarrow>
          \<bar>sp_cost_basis_usd pos\<bar> \<le> mc_max_autonomous_notional_usd (me_config e)
          \<and> (sp_best_ask pos - sp_best_bid pos) * 10000 \<le> mc_max_autonomous_spread_bps (me_config e))"
proof -
  let ?prof = "build_profitability_snapshot now pos" and ?cfg = "me_config e"
  note c = decide_close [OF assms]
  have live: "0 < sp_best_bid pos" "0 < sp_best_ask pos" using c(3) by (simp_all add: no_live_bbo_def snapshot_costs)
  have h: "hold_or_close now ?cfg pos ?prof =
      (new_decision CLOSE_NOW ''market-implied'' ?prof (if deep_underwater ?cfg ?prof then ''high'' else ''medium'')
         (\<bar>pf_cost_basis_usd ?prof\<bar> \<le> mc_max_autonomous_notional_usd ?cfg
          \<and> spread_bps ?prof \<le> mc_max_autonomous_spread_bps ?cfg))
       \<lparr> dn_close_price := Some (pf_best_bid ?prof), dn_close_qty := py_int (pf_qty ?prof) \<rparr>
      \<and> \<not> near_settlement ?cfg ?prof \<and> realised_loss_pct ?prof \<le> max_loss_pct ?cfg (position_age now pos)"
    using assms c(1) by (auto simp: hold_or_close_def new_decision_def split: if_splits)
  have spread: "spread_bps ?prof = max 0 ((sp_best_ask pos - sp_best_bid pos) * 100) * 100"
    using live by (simp add: spread_bps_def build_profitability_snapshot_def Let_def)
  have qty: "of_int (py_int (pf_qty ?prof)) \<le> \<bar>sp_qty pos\<bar>"
  proof (cases "0 < py_int (pf_qty ?prof)")
    case True
    then show ?thesis using py_int_ge [of "py_int (pf_qty ?prof)" "pf_qty ?prof"] by (simp add: snapshot_costs)
  next
    case False
    then have "of_int (py_int (pf_qty ?prof)) \<le> (0::flt)" by simp
    then show ?thesis by (rule order_trans) simp
  qed
  have le: "(sp_best_ask pos - sp_best_bid pos) * 10000 \<le> spread_bps ?prof" unfolding spread by (auto simp: max_def)
  show ?thesis using h live c(1,2) qty le by (auto simp: new_decision_def snapshot_costs intro: order_trans [OF le])
qed

text \<open>The engine has a hedge among its actions, and no branch that takes it.\<close>

lemma never_hedges: "dn_action (decide now e pos) \<noteq> HEDGE"
  using decide_split [OF refl, where now = now and pos = pos and e = e] alone_action [of now e pos "build_profitability_snapshot now pos"] by auto

text \<open>Under the thresholds of the program a lot that is deep under water is never closed.\<close>

lemma default_thresholds:
  "max_loss_pct (program_mitigation_config penny usd bps small) age \<le> 1/2"
  "mc_underwater_close_ratio (program_mitigation_config penny usd bps small) = 4/10"
  "mc_losing_implied_prob_threshold (program_mitigation_config penny usd bps small) = 1/4"
  by (simp_all add: max_loss_pct_def program_mitigation_config_def default_mitigation_config_def)

lemma realised_loss_of:
  assumes "realised_loss_pct prof \<le> l" "0 < pf_cost_basis_usd prof"
  shows "(1 - l) * pf_cost_basis_usd prof \<le> pf_close_proceeds_usd prof"
proof -
  have "(pf_cost_basis_usd prof - pf_close_proceeds_usd prof) / pf_cost_basis_usd prof \<le> l"
    using assms by (simp add: realised_loss_pct_def)
  then show ?thesis using assms(2) by (simp add: divide_le_eq algebra_simps)
qed

lemma not_deep:
  assumes "realised_loss_pct prof \<le> 1/2" "1 / 10 ^ 9 \<le> pf_cost_basis_usd prof"
  shows "\<not> deep_underwater (program_mitigation_config penny usd bps small) prof"
proof -
  have pos: "0 < pf_cost_basis_usd prof" using assms(2) by (rule less_le_trans [rotated]) simp
  have "(1 - 1/2) * pf_cost_basis_usd prof \<le> pf_close_proceeds_usd prof" by (rule realised_loss_of [OF assms(1) pos])
  then have "\<not> pf_close_proceeds_usd prof / pf_cost_basis_usd prof \<le> 4/10" using pos by (simp add: divide_le_eq)
  then show ?thesis unfolding deep_underwater_def default_thresholds max_absorb1 [OF assms(2)] by simp
qed

text \<open>
  With the thresholds the program ships, a lot that is deep under water is never closed: every CLOSE_NOW
  recovers at least half of what the lot cost and rests on an implied probability under a quarter, so the branch
  the ratio of 0.40 is there for is taken by no lot.
\<close>

lemma default_close_is_a_mild_loss:
  assumes "me_config e = program_mitigation_config penny usd bps small" "dn_action (decide now e pos) = CLOSE_NOW"
    "1 / 10 ^ 9 \<le> \<bar>sp_cost_basis_usd pos\<bar>"
  defines "prof \<equiv> build_profitability_snapshot now pos"
  shows "\<not> deep_underwater (program_mitigation_config penny usd bps small) prof \<and> pf_implied_settle_probability prof < 1/4
     \<and> \<bar>sp_cost_basis_usd pos\<bar> \<le> 2 * pf_close_proceeds_usd prof"
proof -
  note c = decide_close [OF assms(2), folded prof_def]
  have cost: "pf_cost_basis_usd prof = \<bar>sp_cost_basis_usd pos\<bar>" by (simp add: prof_def snapshot_costs)
  have h: "realised_loss_pct prof \<le> max_loss_pct (program_mitigation_config penny usd bps small) (position_age now pos)"
    "market_says_losing (program_mitigation_config penny usd bps small) prof
      \<or> deep_underwater (program_mitigation_config penny usd bps small) prof"
    using assms(2) c(1) by (auto simp: assms(1) hold_or_close_def new_decision_def split: if_splits)
  have loss: "realised_loss_pct prof \<le> 1/2" using h(1) default_thresholds(1) by (rule order_trans)
  have big: "1 / 10 ^ 9 \<le> pf_cost_basis_usd prof" using assms(3) by (simp only: cost)
  note deep = not_deep [OF loss big]
  have "pf_implied_settle_probability prof < 1/4"
    using h(2) deep unfolding market_says_losing_def default_thresholds by blast
  moreover have "(1 - 1/2) * pf_cost_basis_usd prof \<le> pf_close_proceeds_usd prof"
    by (rule realised_loss_of [OF loss less_le_trans [OF _ big]]) simp
  ultimately show ?thesis using deep unfolding cost by simp
qed

section \<open>Witnesses\<close>

text \<open>A lot at Kalshi, a quote at Polymarket.\<close>

definition sample_lot :: "flt \<Rightarrow> flt \<Rightarrow> flt \<Rightarrow> stranded_position" where
  "sample_lot cost bid ask =
     \<lparr> sp_platform = ''kalshi'', sp_market_id = ''KX-1'', sp_side = ''YES'', sp_qty = 10, sp_cost_basis_usd = cost,
       sp_mtm_usd = 0, sp_unrealized_usd = 0, sp_best_bid = bid, sp_best_ask = ask, sp_title = [],
       sp_first_seen_ts = 0, sp_last_seen_ts = 0, sp_expiry_ts = None, sp_auto_close_attempted = False,
       sp_auto_close_result = None, sp_mitigation_action = ''unknown'', sp_mitigation_decision = None,
       sp_paired_qty = 0 \<rparr>"

definition sample_quote :: "string \<Rightarrow> flt \<Rightarrow> price_point" where
  "sample_quote venue no_ask =
     \<lparr> pp_platform = venue, pp_canonical_id = ''C1'', pp_yes_price = 1/2, pp_no_price = no_ask, pp_yes_volume = 1,
       pp_no_volume = 1, pp_timestamp = 100000, pp_raw_market_id = ''p-1'', pp_yes_market_id = ''p-1'',
       pp_no_market_id = ''p-1'', pp_yes_bid = 0, pp_yes_ask = 1/2, pp_no_bid = 0, pp_no_ask = no_ask, pp_fee_rate = 0,
       pp_mapping_status = ''confirmed'', pp_mapping_score = 1, pp_metadata = [] \<rparr>"

definition sample_engine :: mitigation_engine where
  "sample_engine =
     \<lparr> me_price_store = Some ((new_price_store False 60 10)\<lparr>ps_mem := [(''price:polymarket:C1'', sample_quote ''polymarket'' (2/5))]\<rparr>),
       me_store_fails = False,
       me_market_map = [(''C1'', empty_mapping\<lparr>m_kalshi := Some ''KX-1'', m_polymarket := Some ''p-1''\<rparr>)],
       me_adapters = [(''kalshi'', \<lparr>ah_unwind_sell = True, ah_fok = True\<rparr>), (''polymarket'', \<lparr>ah_unwind_sell = True, ah_fok = True\<rparr>)],
       me_config = program_mitigation_config (5/100) 30 1000 10 \<rparr>"

lemma sample_completes: "dn_action (decide 100010 sample_engine (sample_lot 4 (3/10) (32/100))) = COMPLETE_ARB"
  by code_simp

lemma sample_closes: "dn_action (decide 100010 (sample_engine\<lparr>me_price_store := None\<rparr>) (sample_lot 3 (2/10) (21/100))) = CLOSE_NOW"
  by code_simp

lemma sample_close_is_mild:
  "3 \<le> 2 * pf_close_proceeds_usd (build_profitability_snapshot 100010 (sample_lot 3 (2/10) (21/100)))"
  using default_close_is_a_mild_loss [OF _ sample_closes] by (simp add: sample_engine_def sample_lot_def)

theorem completed_arb_pays_witness:
  "\<exists>venue pp s cid. me_price_store sample_engine = Some s \<and> (venue, pp) \<in> set (get_all_for_market cid 100010 s)
     \<and> venue \<noteq> ''kalshi'' \<and> dn_arb_side (decide 100010 sample_engine (sample_lot 4 (3/10) (32/100))) = Some ''NO''"
  proof -
  have lot: "missing_side (sample_lot 4 (3/10) (32/100)) = ''NO''" "sp_platform (sample_lot 4 (3/10) (32/100)) = ''kalshi''"
    by code_simp+
  show ?thesis using completed_arb_pays [OF sample_completes] unfolding lot by blast
qed

end
