(* ===== verification/Stranded.thy ===== *)
theory Stranded
  imports Mitigation Startup_Recovery
begin

text \<open>
  \<open>StrandedPositionReconciler\<close> of \<open>arbiter/recovery/stranded_reconciler.py\<close>: one cycle over what the venues
  hold, against the arbs on record, the decision of the mitigation engine for each lot, its execution within the
  volume cap, and the sweep over records that no venue position backs.  What the fetchers of the venues return,
  what the adapters answer and which statements fail are arguments of a cycle, whose clock is read once.  The
  calls of a cycle to adapters and to the engine's incidents are logged.  The Telegram messages are left out.
\<close>

section \<open>State\<close>

type_synonym lot_id = "string \<times> string"

datatype strand_call =
    SellLot lot_id string int bool
  | BuyLeg lot_id string string string flt int bool
  | StrandIncident string string

record strand_snapshot =
  snap_timestamp :: flt
  snap_cycle_count :: nat
  snap_stranded_count :: nat
  snap_errors :: "string list"
  snap_auto_close_enabled :: bool
  snap_paired_count :: nat

record strand_config =
  sr_auto_close :: bool
  sr_max_notional_usd :: flt
  sr_max_spread_bps :: flt
  sr_penny_cost_usd :: flt
  sr_retry_window_s :: flt
  sr_max_cum_mult :: flt
  sr_adapters :: "(string, adapter_hooks) dict"
  sr_records_incidents :: bool
  sr_has_store :: bool

definition new_strand_config ::
  "bool \<Rightarrow> flt \<Rightarrow> flt \<Rightarrow> flt \<Rightarrow> flt \<Rightarrow> flt \<Rightarrow> (string, adapter_hooks) dict \<Rightarrow> bool \<Rightarrow> bool \<Rightarrow> strand_config" where
  "new_strand_config auto_close max_usd max_bps penny retry mult adapters records stores =
     \<lparr> sr_auto_close = auto_close, sr_max_notional_usd = max_usd, sr_max_spread_bps = max_bps,
       sr_penny_cost_usd = max 0 penny, sr_retry_window_s = max 60 retry, sr_max_cum_mult = max 1 mult,
       sr_adapters = adapters, sr_records_incidents = records, sr_has_store = stores \<rparr>"

record strand_state =
  ss_tracked :: "(lot_id, stranded_position) dict"
  ss_last_close :: "(lot_id, flt) dict"
  ss_cum :: "(lot_id, flt) dict"
  ss_max_observed :: "(lot_id, flt) dict"
  ss_cap_emitted :: "lot_id list"
  ss_absent :: "(lot_id, nat) dict"
  ss_phantom_absent :: "(string, nat) dict"
  ss_raw_keys :: "lot_id list"
  ss_covered :: "string list"
  ss_truth_ts :: flt
  ss_cycles :: nat
  ss_history :: "strand_snapshot list"
  ss_db :: exec_db
  ss_log :: "strand_call list"

definition new_strand_state :: "exec_db \<Rightarrow> strand_state" where
  "new_strand_state db =
     \<lparr> ss_tracked = [], ss_last_close = [], ss_cum = [], ss_max_observed = [], ss_cap_emitted = [], ss_absent = [],
       ss_phantom_absent = [], ss_raw_keys = [], ss_covered = [], ss_truth_ts = 0, ss_cycles = 0, ss_history = [],
       ss_db = db, ss_log = [] \<rparr>"

text \<open>
  The lots of a venue are \<open>None\<close> when the fetch raises, the answer to an order when the adapter does.
  \<open>ce_others\<close> is what the rest of the program wrote into the store since the last cycle.
\<close>

record cycle_env =
  ce_now :: flt
  ce_kalshi :: "stranded_position list option"
  ce_polymarket :: "stranded_position list option"
  ce_forecastex :: "stranded_position list option"
  ce_kalshi_keys :: bool
  ce_polymarket_keys :: bool
  ce_forecastex_account :: bool
  ce_inventory_fails :: bool
  ce_mitigation :: "mitigation_engine option"
  ce_prices :: "price_store option"
  ce_prices_fail :: bool
  ce_executions :: "arb_execution list option"
  ce_answer :: "lot_id \<Rightarrow> order option"
  ce_persist_fails :: bool
  ce_open_incidents :: "string list option"
  ce_arbs_fail :: bool
  ce_close_fails :: "string \<Rightarrow> bool"
  ce_others :: "exec_db \<Rightarrow> exec_db"

definition strand_log :: "strand_call \<Rightarrow> strand_state \<Rightarrow> strand_state" where
  "strand_log c s = s\<lparr>ss_log := ss_log s @ [c]\<rparr>"

definition change_lot :: "lot_id \<Rightarrow> (stranded_position \<Rightarrow> stranded_position) \<Rightarrow> strand_state \<Rightarrow> strand_state" where
  "change_lot key f s = s\<lparr>ss_tracked := map (\<lambda>(k, p). (k, if k = key then f p else p)) (ss_tracked s)\<rparr>"

text \<open>\<open>auto_close_attempted\<close> with a result, of which the leading words are kept.\<close>

definition attempted :: "string \<Rightarrow> stranded_position \<Rightarrow> stranded_position" where
  "attempted result pos = pos\<lparr>sp_auto_close_attempted := True, sp_auto_close_result := Some result\<rparr>"

definition strand_arb_id :: "(string \<Rightarrow> string) \<Rightarrow> lot_id \<Rightarrow> string" where
  "strand_arb_id sha1 key =
     ''STRAND-'' @ take 8 (py_upper (or_str (fst key) ''UNK'')) @ ''-'' @ take 12 (sha1 (snd key))"

section \<open>What the venues hold\<close>

definition lot_of :: "stranded_position \<Rightarrow> lot_id" where
  "lot_of pos = (sp_platform pos, sp_market_id pos)"

definition failed_platforms :: "cycle_env \<Rightarrow> string list" where
  "failed_platforms env =
     (if ce_kalshi env = None then [''kalshi''] else []) @ (if ce_polymarket env = None then [''polymarket''] else [])
     @ (if ce_forecastex env = None then [''forecastex''] else [])"

definition fetched :: "stranded_position list option \<Rightarrow> stranded_position list" where
  "fetched ps = (case ps of None \<Rightarrow> [] | Some xs \<Rightarrow> xs)"

definition observed :: "cycle_env \<Rightarrow> (lot_id, stranded_position) dict" where
  "observed env =
     fold (\<lambda>p. AList.update (lot_of p) p)
       (fetched (ce_kalshi env) @ fetched (ce_polymarket env) @ fetched (ce_forecastex env)) []"

definition covered_platforms :: "cycle_env \<Rightarrow> string list" where
  "covered_platforms env =
     filter (\<lambda>p. p \<notin> set (failed_platforms env))
       ((if ce_kalshi_keys env then [''kalshi''] else []) @ (if ce_polymarket_keys env then [''polymarket''] else [])
        @ (if ce_forecastex_account env then [''forecastex''] else []))"

text \<open>A lot that is known keeps when it was first seen, what was tried and what was decided.\<close>

definition merged_lot :: "flt \<Rightarrow> stranded_position option \<Rightarrow> stranded_position \<Rightarrow> stranded_position" where
  "merged_lot now known pos =
     (case known of
        None \<Rightarrow> pos\<lparr>sp_last_seen_ts := now\<rparr>
      | Some old \<Rightarrow>
          pos\<lparr> sp_first_seen_ts := sp_first_seen_ts old, sp_auto_close_attempted := sp_auto_close_attempted old,
               sp_auto_close_result := sp_auto_close_result old, sp_mitigation_action := sp_mitigation_action old,
               sp_mitigation_decision := sp_mitigation_decision old, sp_paired_qty := sp_paired_qty old,
               sp_last_seen_ts := now \<rparr>)"

definition merge_lot :: "flt \<Rightarrow> lot_id \<times> stranded_position \<Rightarrow> strand_state \<Rightarrow> strand_state" where
  "merge_lot now kp s =
     s\<lparr> ss_tracked := AList.update (fst kp) (merged_lot now (map_of (ss_tracked s) (fst kp)) (snd kp)) (ss_tracked s),
        ss_absent := AList.delete (fst kp) (ss_absent s) \<rparr>"

definition drop_lot :: "lot_id \<Rightarrow> strand_state \<Rightarrow> strand_state" where
  "drop_lot key s =
     (let absents = dget (ss_absent s) key 0 + 1; s1 = s\<lparr>ss_tracked := AList.delete key (ss_tracked s)\<rparr>
      in if 3 \<le> absents
         then s1\<lparr> ss_cum := AList.delete key (ss_cum s), ss_max_observed := AList.delete key (ss_max_observed s),
                  ss_cap_emitted := removeAll key (ss_cap_emitted s), ss_absent := AList.delete key (ss_absent s) \<rparr>
         else s1\<lparr>ss_absent := AList.update key absents (ss_absent s)\<rparr>)"

definition vanished :: "cycle_env \<Rightarrow> strand_state \<Rightarrow> lot_id list" where
  "vanished env s =
     filter (\<lambda>k. fst k \<notin> set (failed_platforms env) \<and> k \<notin> fst ` set (observed env)) (map fst (ss_tracked s))"

definition new_lots :: "cycle_env \<Rightarrow> strand_state \<Rightarrow> lot_id list" where
  "new_lots env s = filter (\<lambda>k. map_of (ss_tracked s) k = None) (map fst (observed env))"

definition take_in :: "cycle_env \<Rightarrow> strand_state \<Rightarrow> strand_state" where
  "take_in env s =
     (let s1 = fold (merge_lot (ce_now env)) (observed env)
            (s\<lparr> ss_cycles := ss_cycles s + 1, ss_raw_keys := map fst (observed env),
                ss_covered := covered_platforms env, ss_truth_ts := ce_now env \<rparr>)
      in fold drop_lot (vanished env s1) s1)"

section \<open>Hedged inventory\<close>

definition covered_qty :: "stranded_position \<Rightarrow> (string \<times> string \<times> string, flt) dict \<Rightarrow> flt" where
  "covered_qty pos inventory =
     (let platform = py_lower (sp_platform pos); qty = sp_qty pos;
          yes_q = dget inventory (platform, sp_market_id pos, ''yes'') 0;
          no_q = dget inventory (platform, sp_market_id pos, ''no'') 0
      in if inventory = [] \<or> qty = 0 then 0
         else if platform = ''forecastex'' then if 0 < qty then min \<bar>qty\<bar> (yes_q + no_q) else 0
         else if yes_q - no_q = 0 \<or> (0 < yes_q - no_q) \<noteq> (0 < qty) then 0
         else min \<bar>qty\<bar> \<bar>yes_q - no_q\<bar>)"

definition residual_view :: "stranded_position \<Rightarrow> stranded_position" where
  "residual_view pos =
     (let total_qty = \<bar>sp_qty pos\<bar>; residual = residual_qty pos; frac = residual / total_qty
      in if residual \<le> 0 \<or> total_qty \<le> 0 \<or> total_qty \<le> residual then pos
         else pos\<lparr> sp_qty := (if 0 < sp_qty pos then residual else - residual),
                   sp_cost_basis_usd := sp_cost_basis_usd pos * frac, sp_mtm_usd := sp_mtm_usd pos * frac,
                   sp_unrealized_usd := sp_unrealized_usd pos * frac, sp_paired_qty := 0 \<rparr>)"

definition inventory :: "strand_config \<Rightarrow> cycle_env \<Rightarrow> strand_state \<Rightarrow> (string \<times> string \<times> string, flt) dict" where
  "inventory cfg env s =
     (if sr_has_store cfg \<and> \<not> ce_inventory_fails env then paired_inventory_by_market (ss_db s) else [])"

definition net_lots :: "(string \<times> string \<times> string, flt) dict \<Rightarrow> strand_state \<Rightarrow> strand_state" where
  "net_lots lots_held s = s\<lparr>ss_tracked := map (\<lambda>(k, p). (k, p\<lparr>sp_paired_qty := covered_qty p lots_held\<rparr>)) (ss_tracked s)\<rparr>"

section \<open>Judging\<close>

definition hook_of :: "strand_config \<Rightarrow> string \<Rightarrow> adapter_hooks" where
  "hook_of cfg venue = dget (sr_adapters cfg) venue \<lparr>ah_unwind_sell = False, ah_fok = False\<rparr>"

definition classify_action :: "strand_config \<Rightarrow> stranded_position \<Rightarrow> string" where
  "classify_action cfg pos =
     (let cps = position_cost_per_share pos
      in if \<not> ah_unwind_sell (hook_of cfg (sp_platform pos)) then ''no_adapter''
         else if 0 < cps \<and> cps \<le> sr_penny_cost_usd cfg then ''let_settle''
         else if sr_max_notional_usd cfg < \<bar>sp_cost_basis_usd pos\<bar> then ''large_notional''
         else if sp_best_bid pos \<le> 0 \<or> sp_best_ask pos \<le> 0 then ''illiquid_no_bbo''
         else if sr_max_spread_bps cfg < \<bar>sp_best_ask pos - sp_best_bid pos\<bar> * 10000 then ''spread_too_wide''
         else ''close_market'')"

definition judged :: "strand_config \<Rightarrow> cycle_env \<Rightarrow> stranded_position \<Rightarrow> stranded_position" where
  "judged cfg env pos =
     (if fully_paired pos
      then pos\<lparr> sp_mitigation_action := ''paired_hold'', sp_mitigation_decision := Some (PairedHold (sp_paired_qty pos)) \<rparr>
      else case ce_mitigation env of
          None \<Rightarrow> pos\<lparr>sp_mitigation_action := classify_action cfg (residual_view pos)\<rparr>
        | Some e \<Rightarrow> let d = decide (ce_now env) e (residual_view pos)
                   in pos\<lparr> sp_mitigation_action := action_label (dn_action d),
                          sp_mitigation_decision := Some (EngineDecision d) \<rparr>)"

definition judge_lots :: "strand_config \<Rightarrow> cycle_env \<Rightarrow> strand_state \<Rightarrow> strand_state" where
  "judge_lots cfg env s =
     (if failed_platforms env \<noteq> [] then s
      else s\<lparr>ss_tracked := map (\<lambda>(k, p). (k, judged cfg env p)) (ss_tracked s)\<rparr>)"

definition silent_actions :: "mitigation_action list" where
  "silent_actions = [HOLD_TO_SETTLE, CLOSE_NOW, COMPLETE_ARB]"

definition needs_eyes :: "stranded_position \<Rightarrow> bool" where
  "needs_eyes pos =
     (\<not> fully_paired pos
      \<and> (case sp_mitigation_decision pos of
           Some (EngineDecision d) \<Rightarrow> \<not> (dn_autonomous_ok d \<and> dn_action d \<in> set silent_actions)
         | _ \<Rightarrow> True))"

definition emit_stranded :: "(string \<Rightarrow> string) \<Rightarrow> strand_config \<Rightarrow> cycle_env \<Rightarrow> lot_id \<Rightarrow> strand_state \<Rightarrow> strand_state" where
  "emit_stranded sha1 cfg env key s =
     (if sr_records_incidents cfg
         \<and> \<not> (sr_has_store cfg \<and> (case ce_open_incidents env of None \<Rightarrow> False | Some ids \<Rightarrow> strand_arb_id sha1 key \<in> set ids))
      then strand_log (StrandIncident (strand_arb_id sha1 key) ''stranded_position'') s else s)"

definition announce ::
  "(string \<Rightarrow> string) \<Rightarrow> strand_config \<Rightarrow> cycle_env \<Rightarrow> lot_id \<Rightarrow> strand_state \<Rightarrow> strand_state" where
  "announce sha1 cfg env key s =
     (case map_of (ss_tracked s) key of
        None \<Rightarrow> s
      | Some pos \<Rightarrow> if needs_eyes pos then emit_stranded sha1 cfg env key s else s)"

section \<open>Acting\<close>

definition active_arb :: "cycle_env \<Rightarrow> stranded_position \<Rightarrow> bool" where
  "active_arb env pos =
     (case ce_executions env of
        None \<Rightarrow> False
      | Some exs \<Rightarrow>
          list_ex (\<lambda>ex. py_lower (ex_status ex) \<notin> {''closed'', ''cancelled'', ''simulated'', ''rejected'', ''failed''}
             \<and> list_ex (\<lambda>leg. py_lower (ord_platform leg) = py_lower (sp_platform pos) \<and> ord_market_id leg = sp_market_id pos)
                 [ex_leg_yes ex, ex_leg_no ex]) exs)"

definition close_attempt_allowed :: "strand_config \<Rightarrow> flt \<Rightarrow> lot_id \<Rightarrow> strand_state \<Rightarrow> bool" where
  "close_attempt_allowed cfg now key s =
     (case map_of (ss_last_close s) key of None \<Rightarrow> True | Some t \<Rightarrow> sr_retry_window_s cfg \<le> now - t)"

definition mark_close_attempt :: "flt \<Rightarrow> lot_id \<Rightarrow> strand_state \<Rightarrow> strand_state" where
  "mark_close_attempt now key s = s\<lparr>ss_last_close := AList.update key now (ss_last_close s)\<rparr>"

definition cum_cap_allows ::
  "(string \<Rightarrow> string) \<Rightarrow> strand_config \<Rightarrow> cycle_env \<Rightarrow> stranded_position \<Rightarrow> lot_id \<Rightarrow> int \<Rightarrow> strand_state
   \<Rightarrow> strand_state \<times> bool" where
  "cum_cap_allows sha1 cfg env pos key qty s =
     (let cap_base = max (dget (ss_max_observed s) key 0) \<bar>sp_qty pos\<bar>;
          s1 = s\<lparr>ss_max_observed := AList.update key cap_base (ss_max_observed s)\<rparr>
      in if dget (ss_cum s) key 0 + of_int qty \<le> sr_max_cum_mult cfg * cap_base + 1 / 10 ^ 9 then (s1, True)
         else let s2 = change_lot key (\<lambda>p. (attempted ''cumulative close cap reached'' p)\<lparr>sp_mitigation_action := ''manual_review''\<rparr>)
                         (mark_close_attempt (ce_now env) key s1)
              in (if key \<notin> set (ss_cap_emitted s) \<and> sr_records_incidents cfg
                  then strand_log (StrandIncident (strand_arb_id sha1 key) ''stranded_close_cap'')
                         (s2\<lparr>ss_cap_emitted := key # ss_cap_emitted s2\<rparr>)
                  else s2, False))"

definition note_submitted :: "lot_id \<Rightarrow> int \<Rightarrow> strand_state \<Rightarrow> strand_state" where
  "note_submitted key qty s = s\<lparr>ss_cum := AList.update key (dget (ss_cum s) key 0 + of_int qty) (ss_cum s)\<rparr>"

definition persist_close_attempt ::
  "(string \<Rightarrow> string) \<Rightarrow> strand_config \<Rightarrow> cycle_env \<Rightarrow> lot_id \<Rightarrow> order \<Rightarrow> strand_state \<Rightarrow> strand_state" where
  "persist_close_attempt sha1 cfg env key ord s =
     (if \<not> sr_has_store cfg \<or> ce_persist_fails env then s
      else let a = strand_arb_id sha1 key; db1 = record_arb_stub (ce_now env) a (snd key) None None (ss_db s)
           in s\<lparr>ss_db := (case upsert_order (ce_now env) ord (Some a) None db1 of None \<Rightarrow> db1 | Some db2 \<Rightarrow> db2)\<rparr>)"

text \<open>What follows on an answer, and on an exception of the adapter.\<close>

definition after_order ::
  "(string \<Rightarrow> string) \<Rightarrow> strand_config \<Rightarrow> cycle_env \<Rightarrow> lot_id \<Rightarrow> int \<Rightarrow> (order \<Rightarrow> stranded_position \<Rightarrow> stranded_position)
   \<Rightarrow> string \<Rightarrow> strand_state \<Rightarrow> strand_state" where
  "after_order sha1 cfg env key qty answered raised s =
     (let s1 = mark_close_attempt (ce_now env) key s
      in case ce_answer env key of
           None \<Rightarrow> change_lot key (attempted raised) s1
         | Some ord \<Rightarrow> change_lot key (answered ord)
                        (persist_close_attempt sha1 cfg env key ord (note_submitted key qty s1)))"

definition sell_lot ::
  "(string \<Rightarrow> string) \<Rightarrow> strand_config \<Rightarrow> cycle_env \<Rightarrow> string \<Rightarrow> stranded_position \<Rightarrow> lot_id \<Rightarrow> strand_state \<Rightarrow> strand_state" where
  "sell_lot sha1 cfg env label pos key s =
     (let qty = py_int \<bar>sp_qty pos\<bar>; (s1, ok) = cum_cap_allows sha1 cfg env pos key qty s
      in if \<not> ok then s1
         else after_order sha1 cfg env key qty
                (\<lambda>ord p. (attempted label p)\<lparr>sp_mitigation_action := (if 0 < ord_fill_qty ord then ''closed'' else label)\<rparr>)
                ''exception''
                (strand_log (SellLot key (py_lower (sp_side pos)) qty (ce_answer env key \<noteq> None)) s1))"

definition execute_close_now ::
  "(string \<Rightarrow> string) \<Rightarrow> strand_config \<Rightarrow> cycle_env \<Rightarrow> stranded_position \<Rightarrow> lot_id \<Rightarrow> strand_state \<Rightarrow> strand_state" where
  "execute_close_now sha1 cfg env pos key s =
     (if \<not> ah_unwind_sell (hook_of cfg (sp_platform pos))
      then mark_close_attempt (ce_now env) key (change_lot key (attempted ''CLOSE_NOW blocked'') s)
      else sell_lot sha1 cfg env ''close_now'' pos key s)"

definition reprice_tolerance :: flt where
  "reprice_tolerance = 2/100"

definition live_ask :: "string \<Rightarrow> price_point \<Rightarrow> flt" where
  "live_ask side pp =
     (if py_lower side = ''no'' then or_flt (pp_no_ask pp) (pp_no_price pp) else or_flt (pp_yes_ask pp) (pp_yes_price pp))"

definition suppressed :: "flt \<Rightarrow> lot_id \<Rightarrow> string \<Rightarrow> strand_state \<Rightarrow> strand_state \<times> bool" where
  "suppressed now key result s =
     (mark_close_attempt now key (change_lot key (\<lambda>p. p\<lparr>sp_auto_close_result := Some result\<rparr>) s), False)"

definition missing_leg_price_still_valid ::
  "cycle_env \<Rightarrow> string \<Rightarrow> string \<Rightarrow> string \<Rightarrow> flt \<Rightarrow> stranded_position \<Rightarrow> lot_id \<Rightarrow> strand_state \<Rightarrow> strand_state \<times> bool" where
  "missing_leg_price_still_valid env cid venue side decision_price pos key s =
     (let now = ce_now env
      in case ce_prices env of
           None \<Rightarrow> (s, True)
         | Some ps \<Rightarrow>
             if ce_prices_fail env then suppressed now key ''reprice fetch failed'' s
             else case map_of (get_all_for_market cid now ps) venue of
                 None \<Rightarrow> suppressed now key ''reprice: no live quote'' s
               | Some pp \<Rightarrow>
                   let ask = live_ask side pp; cps = \<bar>sp_cost_basis_usd pos\<bar> / max \<bar>sp_qty pos\<bar> (1 / 10 ^ 9)
                   in if 60 < age_seconds now pp then suppressed now key ''stale price data'' s
                      else if ask \<le> 0 then suppressed now key ''reprice: live ask=0'' s
                      else if reprice_tolerance < \<bar>ask - decision_price\<bar>
                      then let (s1, r) = suppressed now key ''close unprofitable'' s
                           in (if 15/100 \<le> (cps + ask) - 1
                               then change_lot key (\<lambda>p. p\<lparr> sp_mitigation_action := ''hold_to_settle'',
                                                          sp_auto_close_attempted := True \<rparr>) s1
                               else s1, r)
                      else (s, True))"

definition execute_complete_arb ::
  "(string \<Rightarrow> string) \<Rightarrow> strand_config \<Rightarrow> cycle_env \<Rightarrow> stranded_position \<Rightarrow> mitigation_decision \<Rightarrow> lot_id
   \<Rightarrow> strand_state \<Rightarrow> strand_state" where
  "execute_complete_arb sha1 cfg env pos d key s =
     (let side = py_lower (case dn_arb_side d of None \<Rightarrow> [] | Some x \<Rightarrow> x);
          price = (case dn_arb_price d of None \<Rightarrow> 0 | Some x \<Rightarrow> x); qty = dn_arb_qty d;
          cid = (case dn_arb_canonical_id d of None \<Rightarrow> sp_market_id pos | Some x \<Rightarrow> or_str x (sp_market_id pos));
          market = (case dn_arb_market_id d of None \<Rightarrow> [] | Some x \<Rightarrow> x)
      in case dn_arb_venue d of
           None \<Rightarrow> mark_close_attempt (ce_now env) key (change_lot key (attempted ''COMPLETE_ARB blocked'') s)
         | Some venue \<Rightarrow>
             if \<not> ah_fok (hook_of cfg venue) \<or> qty \<le> 0
             then mark_close_attempt (ce_now env) key (change_lot key (attempted ''COMPLETE_ARB blocked'') s)
             else let (s1, valid) = missing_leg_price_still_valid env cid venue side price pos key s
                  in if \<not> valid then s1
                     else let (s2, ok) = cum_cap_allows sha1 cfg env pos key qty s1
                          in if \<not> ok then s2
                             else after_order sha1 cfg env key qty (\<lambda>ord. attempted ''COMPLETE_ARB'') ''COMPLETE_ARB exception''
                                    (strand_log (BuyLeg key venue market side price qty (ce_answer env key \<noteq> None)) s2))"

definition execute_decision ::
  "(string \<Rightarrow> string) \<Rightarrow> strand_config \<Rightarrow> cycle_env \<Rightarrow> stranded_position \<Rightarrow> decision_info \<Rightarrow> lot_id
   \<Rightarrow> strand_state \<Rightarrow> strand_state" where
  "execute_decision sha1 cfg env pos info key s =
     (case info of
        PairedHold q \<Rightarrow> change_lot key (attempted ''PAIRED_HOLD: needs operator approval'') s
      | EngineDecision d \<Rightarrow>
          (case dn_action d of
             HOLD_TO_SETTLE \<Rightarrow> change_lot key (attempted ''HOLD_TO_SETTLE'') s
           | MANUAL_REVIEW \<Rightarrow> change_lot key (attempted ''MANUAL_REVIEW'') s
           | a \<Rightarrow> if \<not> dn_autonomous_ok d then change_lot key (attempted ''needs operator approval'') s
                  else if a = COMPLETE_ARB then execute_complete_arb sha1 cfg env pos d key s
                  else if a = CLOSE_NOW then execute_close_now sha1 cfg env pos key s
                  else change_lot key (attempted ''HEDGE: deferred to operator'') s))"

definition maybe_auto_close ::
  "(string \<Rightarrow> string) \<Rightarrow> strand_config \<Rightarrow> cycle_env \<Rightarrow> stranded_position \<Rightarrow> lot_id \<Rightarrow> strand_state \<Rightarrow> strand_state" where
  "maybe_auto_close sha1 cfg env pos key s =
     (let act = classify_action cfg pos; s1 = change_lot key (\<lambda>p. p\<lparr>sp_mitigation_action := act\<rparr>) s
      in if act \<noteq> ''close_market'' then change_lot key (attempted act) s1
         else sell_lot sha1 cfg env ''close_market'' pos key s1)"

definition act_on :: "(string \<Rightarrow> string) \<Rightarrow> strand_config \<Rightarrow> cycle_env \<Rightarrow> lot_id \<Rightarrow> strand_state \<Rightarrow> strand_state" where
  "act_on sha1 cfg env key s =
     (case map_of (ss_tracked s) key of
        None \<Rightarrow> s
      | Some pos \<Rightarrow>
          if 0 < sp_paired_qty pos
          then change_lot key (\<lambda>p. p\<lparr>sp_auto_close_result := Some ''skipped: paired inventory''\<rparr>) s
          else if active_arb env pos
          then change_lot key (\<lambda>p. p\<lparr> sp_auto_close_result := Some ''skipped: part of active arb execution'',
                                     sp_mitigation_action := ''skip_active_arb'' \<rparr>) s
          else if \<not> close_attempt_allowed cfg (ce_now env) key s then s
          else case (ce_mitigation env, sp_mitigation_decision pos) of
              (Some e, Some info) \<Rightarrow> execute_decision sha1 cfg env pos info key s
            | _ \<Rightarrow> maybe_auto_close sha1 cfg env pos key s)"

section \<open>Records without a position\<close>

definition phantom_min_age_s :: flt where "phantom_min_age_s = 7200"
definition phantom_max_per_cycle :: nat where "phantom_max_per_cycle = 3"
definition phantom_absent_cycles :: nat where "phantom_absent_cycles = 3"

definition filled_lots :: "order list \<Rightarrow> lot_id list" where
  "filled_lots legs = map (\<lambda>r. (ord_platform r, ord_market_id r)) (filter (\<lambda>r. 0 < ord_fill_qty r) legs)"

definition phantom_note :: string where
  "phantom_note = newline @ ''[{}] phantom_sweep: venue verified flat on every filled leg while the record sat''"

definition close_phantom_record :: "cycle_env \<Rightarrow> string \<Rightarrow> exec_db \<Rightarrow> exec_db" where
  "close_phantom_record env arb_id =
     update_arbs (\<lambda>a. aw_arb_id a = arb_id \<and> open_arb_status (aw_status a))
       (\<lambda>a. a\<lparr> aw_status := ''closed'',
               aw_closed_at := (case aw_closed_at a of None \<Rightarrow> Some (ce_now env) | t \<Rightarrow> t), aw_updated_at := ce_now env,
               aw_recovery_notes := right_part notes_cap (aw_recovery_notes a @ phantom_note) \<rparr>)"

text \<open>
  The loop over the arbs with the ids seen so far; it stops at the cap, and when a write raises, which leaves the
  streaks as they are.
\<close>

fun sweep_arbs ::
  "strand_config \<Rightarrow> cycle_env \<Rightarrow> lot_id list \<Rightarrow> string list \<Rightarrow> (arb_row \<times> order list) list \<Rightarrow> nat \<Rightarrow> string list
   \<Rightarrow> strand_state \<Rightarrow> strand_state \<times> string list option" where
  "sweep_arbs cfg env raw covered [] n seen s = (s, Some seen)"
| "sweep_arbs cfg env raw covered ((a, legs) # rest) n seen s =
     (let i = aw_arb_id a; lots = filled_lots legs; seen1 = i # seen; absents = dget (ss_phantom_absent s) i 0 + 1;
          streak = s\<lparr>ss_phantom_absent := AList.update i absents (ss_phantom_absent s)\<rparr>;
          cleared = s\<lparr>ss_phantom_absent := AList.delete i (ss_phantom_absent s)\<rparr>;
          closed = cleared\<lparr>ss_db := close_phantom_record env i (ss_db s)\<rparr>;
          told = (if sr_records_incidents cfg then strand_log (StrandIncident i ''phantom_record_closed'') closed else closed)
      in if lots = [] \<or> \<not> fst ` set lots \<subseteq> set covered then sweep_arbs cfg env raw covered rest n seen1 s
         else if set lots \<inter> set raw \<noteq> {} then sweep_arbs cfg env raw covered rest n seen1 cleared
         else if absents < phantom_absent_cycles then sweep_arbs cfg env raw covered rest n seen1 streak
         else if ce_close_fails env i then (streak, None)
         else if phantom_max_per_cycle \<le> n + 1 then (told, Some seen1)
         else sweep_arbs cfg env raw covered rest (n + 1) seen1 told)"

definition sweep_phantom_records :: "strand_config \<Rightarrow> cycle_env \<Rightarrow> strand_state \<Rightarrow> strand_state" where
  "sweep_phantom_records cfg env s =
     (if \<not> sr_has_store cfg \<or> ce_arbs_fail env then s
      else let (s1, seen) = sweep_arbs cfg env (ss_raw_keys s) (covered_platforms env)
                 (list_stuck_arbs (ce_now env) phantom_min_age_s (ss_db s)) 0 [] s
           in case seen of None \<Rightarrow> s1
              | Some ids \<Rightarrow> s1\<lparr>ss_phantom_absent := filter (\<lambda>kv. fst kv \<in> set ids) (ss_phantom_absent s1)\<rparr>)"

section \<open>The cycle\<close>

definition prepared :: "strand_config \<Rightarrow> cycle_env \<Rightarrow> strand_state \<Rightarrow> strand_state" where
  "prepared cfg env s =
     (let s1 = take_in env (s\<lparr>ss_db := ce_others env (ss_db s)\<rparr>)
      in judge_lots cfg env (net_lots (inventory cfg env s1) s1))"

definition act_lots :: "(string \<Rightarrow> string) \<Rightarrow> strand_config \<Rightarrow> cycle_env \<Rightarrow> strand_state \<Rightarrow> strand_state" where
  "act_lots sha1 cfg env s =
     (if sr_auto_close cfg \<and> failed_platforms env = [] then fold (act_on sha1 cfg env) (map fst (ss_tracked s)) s else s)"

definition take_snapshot :: "strand_config \<Rightarrow> cycle_env \<Rightarrow> strand_state \<Rightarrow> strand_state" where
  "take_snapshot cfg env s =
     s\<lparr>ss_history := deque_append 20 (ss_history s)
         \<lparr> snap_timestamp = ce_now env, snap_cycle_count = ss_cycles s,
           snap_stranded_count = length (filter (\<lambda>kp. \<not> fully_paired (snd kp)) (ss_tracked s)),
           snap_errors = failed_platforms env, snap_auto_close_enabled = sr_auto_close cfg,
           snap_paired_count = length (filter (\<lambda>kp. fully_paired (snd kp)) (ss_tracked s)) \<rparr>\<rparr>"

definition run_once :: "(string \<Rightarrow> string) \<Rightarrow> strand_config \<Rightarrow> cycle_env \<Rightarrow> strand_state \<Rightarrow> strand_state" where
  "run_once sha1 cfg env s =
     (let fresh = new_lots env s; s1 = prepared cfg env s;
          s2 = fold (announce sha1 cfg env) fresh s1;
          s3 = act_lots sha1 cfg env s2
      in sweep_phantom_records cfg env (take_snapshot cfg env s3))"

section \<open>What an operation leaves alone\<close>

definition quantities :: "strand_state \<Rightarrow> (lot_id, flt) dict" where
  "quantities s = map (\<lambda>(k, p). (k, sp_qty p)) (ss_tracked s)"

fun order_of :: "strand_call \<Rightarrow> (lot_id \<times> int \<times> bool) option" where
  "order_of (SellLot key side qty ok) = Some (key, qty, ok)"
| "order_of (BuyLeg key venue market side price qty ok) = Some (key, qty, ok)"
| "order_of (StrandIncident i kind) = None"

text \<open>The volume of a lot that adapters have answered.\<close>

definition answered_by :: "lot_id \<Rightarrow> strand_call \<Rightarrow> flt" where
  "answered_by key c = (case order_of c of Some (k, qty, ok) \<Rightarrow> if k = key \<and> ok then of_int qty else 0 | None \<Rightarrow> 0)"

definition answered_qty :: "lot_id \<Rightarrow> strand_call list \<Rightarrow> flt" where
  "answered_qty key calls = sum_list (map (answered_by key) calls)"

definition cap_ok :: "flt \<Rightarrow> lot_id \<Rightarrow> flt \<Rightarrow> strand_state \<Rightarrow> bool" where
  "cap_ok mult key bound s =
     (distinct (map fst (quantities s)) \<and> fst ` set (quantities s) \<inter> fst ` set (ss_absent s) = {}
      \<and> (case map_of (quantities s) key of None \<Rightarrow> True | Some q \<Rightarrow> \<bar>q\<bar> \<le> bound)
      \<and> answered_qty key (ss_log s) = dget (ss_cum s) key 0
      \<and> dget (ss_cum s) key 0 \<le> mult * dget (ss_max_observed s) key 0 + 1 / 10 ^ 9
      \<and> dget (ss_max_observed s) key 0 \<le> bound)"

definition same_book :: "strand_state \<Rightarrow> strand_state \<Rightarrow> bool" where
  "same_book s t =
     (quantities t = quantities s \<and> ss_absent t = ss_absent s \<and> ss_cum t = ss_cum s
      \<and> ss_max_observed t = ss_max_observed s
      \<and> (\<forall>key. answered_qty key (ss_log t) = answered_qty key (ss_log s)))"

lemma same_book_refl [simp]: "same_book s s"
  by (simp add: same_book_def)

lemma same_book_trans [trans]: "same_book s t \<Longrightarrow> same_book t u \<Longrightarrow> same_book s u"
  by (simp add: same_book_def)

lemma same_book_fold: "(\<And>x t. x \<in> set xs \<Longrightarrow> same_book t (f x t)) \<Longrightarrow> same_book s (fold f xs s)"
proof (induction xs arbitrary: s)
  case (Cons x xs)
  then have "same_book s (f x s)" by simp
  also have "same_book \<dots> (fold f xs (f x s))" by (rule Cons.IH) (simp add: Cons.prems)
  finally show ?case by simp
qed simp

lemma cap_ok_same:
  assumes "same_book s t"
  shows "cap_ok mult key bound t = cap_ok mult key bound s"
proof -
  have "answered_qty key (ss_log t) = answered_qty key (ss_log s)" using assms by (simp only: same_book_def)
  then show ?thesis using assms by (simp add: same_book_def cap_ok_def del: split_paired_All)
qed

lemma answered_append: "answered_qty key (xs @ ys) = answered_qty key xs + answered_qty key ys"
  by (simp add: answered_qty_def)

lemma change_lot_book: "(\<And>p. sp_qty (f p) = sp_qty p) \<Longrightarrow> same_book s (change_lot key f s)"
  by (auto simp: same_book_def change_lot_def quantities_def)

lemma quiet_book: "order_of c = None \<Longrightarrow> same_book s (strand_log c s)"
  by (simp add: same_book_def strand_log_def quantities_def answered_append answered_qty_def answered_by_def)

lemma mark_book: "same_book s (mark_close_attempt now key s)"
  by (simp add: same_book_def mark_close_attempt_def quantities_def)

lemma db_book: "same_book s (s\<lparr>ss_db := db\<rparr>)" "same_book s (s\<lparr>ss_phantom_absent := pa\<rparr>)"
  "same_book s (s\<lparr>ss_cap_emitted := ce\<rparr>)" "same_book s (s\<lparr>ss_history := h\<rparr>)"
  "same_book s (s\<lparr>ss_cycles := n, ss_raw_keys := r, ss_covered := c, ss_truth_ts := ts\<rparr>)"
  by (simp_all add: same_book_def quantities_def)

lemma attempted_qty: "sp_qty (attempted r p) = sp_qty p"
  by (simp add: attempted_def)

lemma judged_qty: "sp_qty (judged cfg env p) = sp_qty p"
  by (simp add: judged_def Let_def split: option.splits)

lemma net_book: "same_book s (net_lots lots s)"
  by (auto simp: same_book_def net_lots_def quantities_def)

lemma judge_book: "same_book s (judge_lots cfg env s)"
  by (auto simp: same_book_def judge_lots_def quantities_def judged_qty)

lemma announce_book: "same_book s (announce sha1 cfg env key s)"
  by (auto simp: announce_def emit_stranded_def quiet_book split: option.splits)

lemma sweep_arbs_book: "same_book s (fst (sweep_arbs cfg env raw covered arbs n seen s))"
proof (induction arbs arbitrary: n seen s)
  case (Cons al rest)
  obtain a legs where al: "al = (a, legs)" by fastforce
  have step: "same_book s (fst (sweep_arbs cfg env raw covered rest m ids t))" if "same_book s t" for m ids t
    using that Cons by (rule same_book_trans)
  have told: "same_book s (strand_log (StrandIncident i kind) ((s\<lparr>ss_phantom_absent := pa\<rparr>)\<lparr>ss_db := db\<rparr>))"
    "same_book s ((s\<lparr>ss_phantom_absent := pa\<rparr>)\<lparr>ss_db := db\<rparr>)" for pa db i kind
    by (simp_all add: same_book_def strand_log_def quantities_def answered_append answered_qty_def answered_by_def)
  show ?case
    unfolding al sweep_arbs.simps Let_def
    by (intro if_split [where P = "\<lambda>x. same_book s (fst x)", THEN iffD2] conjI impI;
        (simp only: fst_conv)?; (intro step)?; (split if_split)?; intro conjI impI same_book_refl db_book told)
qed simp

lemma sweep_book: "same_book s (sweep_phantom_records cfg env s)"
proof -
  let ?r = "sweep_arbs cfg env (ss_raw_keys s) (covered_platforms env) (list_stuck_arbs (ce_now env) phantom_min_age_s (ss_db s)) 0 [] s"
  have "same_book s (fst ?r)" by (rule sweep_arbs_book)
  then show ?thesis
    by (auto simp: sweep_phantom_records_def case_prod_unfold Let_def intro: same_book_trans db_book split: option.splits)
qed

section \<open>The volume cap\<close>

lemma quantities_update:
  "quantities (s\<lparr>ss_tracked := AList.update k p (ss_tracked s), ss_absent := ab\<rparr>) = AList.update k (sp_qty p) (quantities s)"
proof -
  have "map (\<lambda>(k, p). (k, sp_qty p)) (AList.update k p xs) = AList.update k (sp_qty p) (map (\<lambda>(k, p). (k, sp_qty p)) xs)" for xs
    by (induction xs) auto
  then show ?thesis by (simp add: quantities_def)
qed

lemma quantities_delete: "map (\<lambda>(k, p). (k, sp_qty p)) (AList.delete k xs) = AList.delete k (map (\<lambda>(k, p). (k, sp_qty p)) xs)"
  by (induction xs) auto

lemma quantities_keys: "map fst (quantities s) = map fst (ss_tracked s)"
  by (simp add: quantities_def comp_def case_prod_unfold)

lemma merged_qty: "sp_qty (merged_lot now known p) = sp_qty p"
  by (simp add: merged_lot_def split: option.splits)

lemma key_sets:
  "fst ` set (AList.delete k xs) = fst ` set xs - {k}" "fst ` set (AList.update k v xs) = insert k (fst ` set xs)"
  "distinct (map fst xs) \<Longrightarrow> distinct (map fst (AList.delete k xs))"
  by (simp_all add: dom_map_of_conv_image_fst [symmetric] delete_conv' update_conv' delete_keys distinct_removeAll)

lemma merge_cap_ok:
  assumes "cap_ok mult key bound s" "fst kp = key \<Longrightarrow> \<bar>sp_qty (snd kp)\<bar> \<le> bound"
  shows "cap_ok mult key bound (merge_lot now kp s)"
proof -
  let ?t = "merge_lot now kp s"
  have t: "quantities ?t = AList.update (fst kp) (sp_qty (snd kp)) (quantities s)"
    "ss_absent ?t = AList.delete (fst kp) (ss_absent s)" "ss_cum ?t = ss_cum s" "ss_max_observed ?t = ss_max_observed s"
    "ss_log ?t = ss_log s"
    by (simp_all add: merge_lot_def quantities_update merged_qty)
  have "(case map_of (quantities ?t) key of None \<Rightarrow> True | Some q \<Rightarrow> \<bar>q\<bar> \<le> bound)"
    using assms by (cases "fst kp = key") (simp_all add: cap_ok_def t(1) update_conv')
  then show ?thesis
    using assms(1) unfolding cap_ok_def t(2-5) unfolding t(1) key_sets by (auto simp: distinct_update)
qed

lemma merges_cap_ok:
  assumes "cap_ok mult key bound s" "\<forall>kp \<in> set xs. fst kp = key \<longrightarrow> \<bar>sp_qty (snd kp)\<bar> \<le> bound"
  shows "cap_ok mult key bound (fold (merge_lot now) xs s)"
  using assms by (induction xs arbitrary: s) (simp_all add: merge_cap_ok)

lemma drop_cap_ok:
  assumes "cap_ok mult key bound s" "k \<in> fst ` set (quantities s)"
  shows "cap_ok mult key bound (drop_lot k s)" "quantities (drop_lot k s) = AList.delete k (quantities s)"
proof -
  have fresh: "dget (ss_absent s) k 0 = 0" using assms by (auto simp: cap_ok_def intro!: dget_notin)
  then have d: "drop_lot k s = s\<lparr>ss_tracked := AList.delete k (ss_tracked s), ss_absent := AList.update k 1 (ss_absent s)\<rparr>"
    by (simp add: drop_lot_def Let_def)
  show q: "quantities (drop_lot k s) = AList.delete k (quantities s)" unfolding d by (simp add: quantities_def quantities_delete)
  have more: "ss_absent (drop_lot k s) = AList.update k 1 (ss_absent s)" "ss_cum (drop_lot k s) = ss_cum s"
    "ss_max_observed (drop_lot k s) = ss_max_observed s" "ss_log (drop_lot k s) = ss_log s"
    by (simp_all add: d)
  have "(case map_of (AList.delete k (quantities s)) key of None \<Rightarrow> True | Some q \<Rightarrow> \<bar>q\<bar> \<le> bound)"
    using assms(1) by (cases "key = k") (simp_all add: cap_ok_def delete_conv')
  then show "cap_ok mult key bound (drop_lot k s)"
    using assms(1) unfolding cap_ok_def q more key_sets by (auto simp: key_sets(3))
qed

lemma drops_cap_ok:
  assumes "cap_ok mult key bound s" "set ks \<subseteq> fst ` set (quantities s)" "distinct ks"
  shows "cap_ok mult key bound (fold drop_lot ks s)"
  using assms
proof (induction ks arbitrary: s)
  case (Cons k ks)
  have k: "k \<in> fst ` set (quantities s)" using Cons.prems(2) by simp
  have "fst ` set (quantities (drop_lot k s)) = fst ` set (quantities s) - {k}"
    unfolding drop_cap_ok(2) [OF Cons.prems(1) k] by (rule key_sets(1))
  then have "set ks \<subseteq> fst ` set (quantities (drop_lot k s))" using Cons.prems(2,3) by auto
  then show ?case using Cons.IH [OF drop_cap_ok(1) [OF Cons.prems(1) k]] Cons.prems(3) by simp
qed simp

lemma take_in_cap_ok:
  assumes "cap_ok mult key bound s" "\<forall>kp \<in> set (observed env). fst kp = key \<longrightarrow> \<bar>sp_qty (snd kp)\<bar> \<le> bound"
  shows "cap_ok mult key bound (take_in env s)"
proof -
  let ?s = "fold (merge_lot (ce_now env)) (observed env) (s\<lparr>ss_cycles := ss_cycles s + 1, ss_raw_keys := map fst (observed env),
      ss_covered := covered_platforms env, ss_truth_ts := ce_now env\<rparr>)"
  have ok: "cap_ok mult key bound ?s"
    by (rule merges_cap_ok [OF _ assms(2)]) (use assms(1) cap_ok_same [OF db_book(5)] in blast)
  have "distinct (map fst (ss_tracked ?s))" using ok by (simp add: cap_ok_def quantities_keys)
  then have "cap_ok mult key bound (fold drop_lot (vanished env ?s) ?s)"
  proof (intro drops_cap_ok [OF ok])
    have "fst ` set (quantities ?s) = fst ` set (ss_tracked ?s)" by (metis quantities_keys list.set_map)
    then show "set (vanished env ?s) \<subseteq> fst ` set (quantities ?s)" by (simp add: vanished_def)
  qed (simp add: vanished_def)
  then show ?thesis by (simp add: take_in_def Let_def)
qed

lemma cum_cap_ok:
  assumes "cap_ok (sr_max_cum_mult cfg) key bound s" "0 \<le> sr_max_cum_mult cfg" "k = key \<Longrightarrow> \<bar>sp_qty pos\<bar> \<le> bound"
    "cum_cap_allows sha1 cfg env pos k qty s = (s1, ok)"
  shows "cap_ok (sr_max_cum_mult cfg) key bound s1"
    "ok \<Longrightarrow> k = key \<Longrightarrow> dget (ss_cum s1) key 0 + of_int qty \<le> sr_max_cum_mult cfg * dget (ss_max_observed s1) key 0 + 1 / 10 ^ 9"
proof -
  let ?base = "max (dget (ss_max_observed s) k 0) \<bar>sp_qty pos\<bar>"
  let ?u = "s\<lparr>ss_max_observed := AList.update k ?base (ss_max_observed s)\<rparr>"
  have grow: "sr_max_cum_mult cfg * dget (ss_max_observed s) key 0 \<le> sr_max_cum_mult cfg * dget (ss_max_observed ?u) key 0"
    using assms(2) by (intro mult_left_mono) auto
  have u: "cap_ok (sr_max_cum_mult cfg) key bound ?u"
    using assms(1,3) grow unfolding cap_ok_def by (auto simp: quantities_def)
  have refused: "same_book ?u (change_lot k (\<lambda>p. (attempted ''cumulative close cap reached'' p)\<lparr>sp_mitigation_action := ''manual_review''\<rparr>)
      (mark_close_attempt (ce_now env) k ?u))" (is "same_book _ ?v")
    by (rule same_book_trans [OF mark_book change_lot_book]) (simp add: attempted_qty)
  have told: "same_book ?u (strand_log (StrandIncident i kind) (?v\<lparr>ss_cap_emitted := ids\<rparr>))" for i kind ids
    by (rule same_book_trans [OF same_book_trans [OF refused db_book(3)] quiet_book]) simp
  have "s1 = ?u \<or> s1 = ?v
      \<or> s1 = strand_log (StrandIncident (strand_arb_id sha1 k) ''stranded_close_cap'') (?v\<lparr>ss_cap_emitted := k # ss_cap_emitted ?v\<rparr>)"
    using assms(4) unfolding cum_cap_allows_def Let_def by (auto split: if_splits)
  then show "cap_ok (sr_max_cum_mult cfg) key bound s1"
    using u cap_ok_same [OF refused] cap_ok_same [OF told] by blast
  show "dget (ss_cum s1) key 0 + of_int qty \<le> sr_max_cum_mult cfg * dget (ss_max_observed s1) key 0 + 1 / 10 ^ 9"
    if "ok" "k = key"
    using assms(4) that by (auto simp: cum_cap_allows_def Let_def split: if_splits)
qed

lemma persist_book: "same_book s (persist_close_attempt sha1 cfg env key ord s)"
  by (auto simp: persist_close_attempt_def Let_def intro: db_book)

lemma order_ok:
  assumes "cap_ok mult key bound s" "order_of c = Some (k, qty, ce_answer env k \<noteq> None)"
    "k = key \<Longrightarrow> dget (ss_cum s) key 0 + of_int qty \<le> mult * dget (ss_max_observed s) key 0 + 1 / 10 ^ 9"
    "\<And>ord p. sp_qty (answered ord p) = sp_qty p"
  shows "cap_ok mult key bound (after_order sha1 cfg env k qty answered raised (strand_log c s))"
proof (cases "ce_answer env k")
  case None
  have "same_book s (strand_log c s)"
    using assms(2) None by (simp add: same_book_def strand_log_def quantities_def answered_append answered_qty_def answered_by_def)
  also have "same_book \<dots> (mark_close_attempt (ce_now env) k (strand_log c s))" by (rule mark_book)
  also have "same_book \<dots> (change_lot k (attempted raised) (mark_close_attempt (ce_now env) k (strand_log c s)))"
    by (rule change_lot_book) (rule attempted_qty)
  finally show ?thesis using assms(1) by (simp add: after_order_def None cap_ok_same)
next
  case (Some ord)
  let ?t = "note_submitted k qty (strand_log c s)"
  have "cap_ok mult key bound ?t"
    using assms(1,3) assms(2) Some
    by (auto simp: cap_ok_def note_submitted_def strand_log_def quantities_def answered_append answered_qty_def answered_by_def)
  then have "cap_ok mult key bound (note_submitted k qty (mark_close_attempt (ce_now env) k (strand_log c s)))" (is "cap_ok _ _ _ ?w")
    by (simp add: cap_ok_def note_submitted_def mark_close_attempt_def quantities_def strand_log_def)
  moreover have "same_book ?w (change_lot k (answered ord) (persist_close_attempt sha1 cfg env k ord ?w))"
    by (rule same_book_trans [OF persist_book change_lot_book]) (rule assms(4))
  ultimately show ?thesis by (simp add: after_order_def Some cap_ok_same)
qed

text \<open>An operation on the lot \<open>k\<close>, whose size is known, keeps the cap.\<close>

lemma sell_ok:
  assumes "cap_ok (sr_max_cum_mult cfg) key bound s" "0 \<le> sr_max_cum_mult cfg" "k = key \<Longrightarrow> \<bar>sp_qty pos\<bar> \<le> bound"
  shows "cap_ok (sr_max_cum_mult cfg) key bound (sell_lot sha1 cfg env label pos k s)"
proof -
  obtain s1 ok where c: "cum_cap_allows sha1 cfg env pos k (py_int \<bar>sp_qty pos\<bar>) s = (s1, ok)" by fastforce
  note cum = cum_cap_ok [OF assms c]
  show ?thesis
  proof (cases ok)
    case True
    have room: "k = key \<Longrightarrow> dget (ss_cum s1) key 0 + of_int (py_int \<bar>sp_qty pos\<bar>)
        \<le> sr_max_cum_mult cfg * dget (ss_max_observed s1) key 0 + 1 / 10 ^ 9"
      using cum(2) True by blast
    have "cap_ok (sr_max_cum_mult cfg) key bound (after_order sha1 cfg env k (py_int \<bar>sp_qty pos\<bar>)
        (\<lambda>ord p. (attempted label p)\<lparr>sp_mitigation_action := (if 0 < ord_fill_qty ord then ''closed'' else label)\<rparr>) ''exception''
        (strand_log (SellLot k (py_lower (sp_side pos)) (py_int \<bar>sp_qty pos\<bar>) (ce_answer env k \<noteq> None)) s1))"
      by (rule order_ok [OF cum(1) _ room]) (simp_all add: attempted_qty)
    then show ?thesis by (simp only: sell_lot_def c Let_def prod.case True not_True_eq_False if_False)
  qed (simp add: sell_lot_def c Let_def cum(1))
qed

lemma suppressed_book: "same_book s (fst (suppressed now key r s))"
  unfolding suppressed_def fst_conv by (rule same_book_trans [OF change_lot_book mark_book]) simp

lemma still_valid_book: "same_book s (fst (missing_leg_price_still_valid env cid venue side price pos key s))"
proof -
  have flip: "same_book s (change_lot key (\<lambda>p. p\<lparr>sp_mitigation_action := a, sp_auto_close_attempted := True\<rparr>)
      (fst (suppressed now key r s)))" for a now r
    by (rule same_book_trans [OF suppressed_book change_lot_book]) simp
  show ?thesis
    by (auto simp: missing_leg_price_still_valid_def Let_def case_prod_unfold suppressed_book flip split: option.split)
qed

lemma buy_ok:
  assumes "cap_ok (sr_max_cum_mult cfg) key bound s" "0 \<le> sr_max_cum_mult cfg" "k = key \<Longrightarrow> \<bar>sp_qty pos\<bar> \<le> bound"
  shows "cap_ok (sr_max_cum_mult cfg) key bound (execute_complete_arb sha1 cfg env pos d k s)"
proof -
  have blocked: "cap_ok (sr_max_cum_mult cfg) key bound (mark_close_attempt (ce_now env) k (change_lot k (attempted r) s))" for r
    using assms(1) cap_ok_same [OF same_book_trans [OF change_lot_book mark_book]] attempted_qty by metis
  have valid: "cap_ok (sr_max_cum_mult cfg) key bound s1"
    if "missing_leg_price_still_valid env cid venue side price pos k s = (s1, v)" for s1 v cid venue side price
    using assms(1) cap_ok_same [OF still_valid_book [of s env cid venue side price pos k]] that by simp
  have bought: "cap_ok (sr_max_cum_mult cfg) key bound (let (s2, ok) = cum_cap_allows sha1 cfg env pos k qty s1
        in if \<not> ok then s2
           else after_order sha1 cfg env k qty (\<lambda>ord. attempted a) b (strand_log (BuyLeg k venue market side price qty (ce_answer env k \<noteq> None)) s2))"
    if s1: "cap_ok (sr_max_cum_mult cfg) key bound s1" for s1 qty a b venue market side price
  proof -
    obtain s2 ok where c: "cum_cap_allows sha1 cfg env pos k qty s1 = (s2, ok)" by fastforce
    note cum = cum_cap_ok [OF s1 assms(2,3) c]
    show ?thesis
    proof (cases ok)
      case True
      have room: "k = key \<Longrightarrow> dget (ss_cum s2) key 0 + of_int qty
          \<le> sr_max_cum_mult cfg * dget (ss_max_observed s2) key 0 + 1 / 10 ^ 9"
        using cum(2) True by blast
      have "cap_ok (sr_max_cum_mult cfg) key bound (after_order sha1 cfg env k qty (\<lambda>ord. attempted a) b
          (strand_log (BuyLeg k venue market side price qty (ce_answer env k \<noteq> None)) s2))"
        by (rule order_ok [OF cum(1) _ room]) (simp_all add: attempted_qty)
      then show ?thesis by (simp only: c Let_def prod.case True not_True_eq_False if_False)
    qed (simp add: c cum(1))
  qed
  show ?thesis
    unfolding execute_complete_arb_def Let_def
    by (split option.split) (use blocked valid bought [unfolded Let_def] in \<open>auto split: prod.split\<close>)
qed

lemma act_on_ok:
  assumes "cap_ok (sr_max_cum_mult cfg) key bound s" "0 \<le> sr_max_cum_mult cfg"
  shows "cap_ok (sr_max_cum_mult cfg) key bound (act_on sha1 cfg env k s)"
proof (cases "map_of (ss_tracked s) k")
  case (Some pos)
  have lot: "k = key \<Longrightarrow> \<bar>sp_qty pos\<bar> \<le> bound"
  proof -
    assume "k = key"
    moreover have "map_of (quantities s) k = Some (sp_qty pos)" using Some by (simp add: quantities_def map_of_map)
    ultimately show ?thesis using assms(1) by (simp add: cap_ok_def)
  qed
  have book: "cap_ok (sr_max_cum_mult cfg) key bound (change_lot k f s)" if "\<And>p. sp_qty (f p) = sp_qty p" for f
    using assms(1) cap_ok_same [OF change_lot_book [OF that]] by blast
  have att: "cap_ok (sr_max_cum_mult cfg) key bound (change_lot k (attempted r) s)" for r by (rule book) (rule attempted_qty)
  have blocked: "cap_ok (sr_max_cum_mult cfg) key bound (mark_close_attempt (ce_now env) k (change_lot k (attempted r) s))" for r
    by (rule iffD2 [OF cap_ok_same [OF mark_book] att])
  have close: "cap_ok (sr_max_cum_mult cfg) key bound (execute_close_now sha1 cfg env pos k s)"
    unfolding execute_close_now_def using blocked sell_ok [OF assms lot] by simp
  have decision: "cap_ok (sr_max_cum_mult cfg) key bound (execute_decision sha1 cfg env pos info k s)" for info
  proof (cases info)
    case (EngineDecision d)
    show ?thesis
      unfolding EngineDecision execute_decision_def decision_info.case
      by (cases "dn_action d") (simp_all only: mitigation_action.case att close buy_ok [OF assms lot] if_True if_False split: if_split; simp)+
  qed (simp add: execute_decision_def att)
  have label: "cap_ok (sr_max_cum_mult cfg) key bound (change_lot k (\<lambda>p. p\<lparr>sp_mitigation_action := a\<rparr>) s)" for a
    by (rule book) simp
  have relabel: "cap_ok (sr_max_cum_mult cfg) key bound (change_lot k (attempted r) (change_lot k (\<lambda>p. p\<lparr>sp_mitigation_action := a\<rparr>) s))" for r a
    by (rule iffD2 [OF cap_ok_same [OF change_lot_book [OF attempted_qty]] label])
  have legacy: "cap_ok (sr_max_cum_mult cfg) key bound (maybe_auto_close sha1 cfg env pos k s)"
    unfolding maybe_auto_close_def Let_def using relabel sell_ok [OF label assms(2) lot] by simp
  show ?thesis
    unfolding act_on_def Some option.case by (simp add: assms(1) decision legacy book split: option.split)
qed (simp add: act_on_def assms(1))

lemma act_lots_ok:
  assumes "cap_ok (sr_max_cum_mult cfg) key bound s" "0 \<le> sr_max_cum_mult cfg"
  shows "cap_ok (sr_max_cum_mult cfg) key bound (act_lots sha1 cfg env s)"
proof -
  have "cap_ok (sr_max_cum_mult cfg) key bound (fold (act_on sha1 cfg env) ks s)" for ks
    using assms(1) by (induction ks arbitrary: s) (simp_all add: act_on_ok assms(2))
  then show ?thesis using assms(1) by (simp add: act_lots_def)
qed

definition sizes_within :: "lot_id \<Rightarrow> flt \<Rightarrow> cycle_env \<Rightarrow> bool" where
  "sizes_within key bound env = (\<forall>kp \<in> set (observed env). fst kp = key \<longrightarrow> \<bar>sp_qty (snd kp)\<bar> \<le> bound)"

lemma run_once_ok:
  assumes "cap_ok (sr_max_cum_mult cfg) key bound s" "0 \<le> sr_max_cum_mult cfg" "sizes_within key bound env"
  shows "cap_ok (sr_max_cum_mult cfg) key bound (run_once sha1 cfg env s)"
proof -
  have "cap_ok (sr_max_cum_mult cfg) key bound (take_in env (s\<lparr>ss_db := ce_others env (ss_db s)\<rparr>))"
    by (rule take_in_cap_ok) (use assms(1,3) cap_ok_same [OF db_book(1)] in \<open>simp_all add: sizes_within_def\<close>)
  then have "cap_ok (sr_max_cum_mult cfg) key bound (prepared cfg env s)"
    unfolding prepared_def Let_def cap_ok_same [OF judge_book] cap_ok_same [OF net_book] .
  then have "cap_ok (sr_max_cum_mult cfg) key bound (fold (announce sha1 cfg env) ks (prepared cfg env s))" for ks
    by (rule iffD2 [OF cap_ok_same [OF same_book_fold [OF announce_book]]])
  from act_lots_ok [OF this assms(2)] show ?thesis
    unfolding run_once_def Let_def cap_ok_same [OF sweep_book] take_snapshot_def cap_ok_same [OF db_book(4)] .
qed

interpretation volume: invariant_machine
  "\<lambda>env. if sizes_within key bound env then run_once sha1 (new_strand_config a u b p r m ad rec st) env else id"
  "cap_ok (max 1 m) key bound"
proof
  fix s and env :: cycle_env
  assume "cap_ok (max 1 m) key bound s"
  then show "cap_ok (max 1 m) key bound
      ((if sizes_within key bound env then run_once sha1 (new_strand_config a u b p r m ad rec st) env else id) s)"
    using run_once_ok [of "new_strand_config a u b p r m ad rec st"] by (simp add: new_strand_config_def)
qed

lemma new_state_ok: "0 \<le> bound \<Longrightarrow> cap_ok m key bound (new_strand_state db)"
  by (simp add: cap_ok_def new_strand_state_def quantities_def answered_qty_def)

lemma fold_within:
  "list_all (sizes_within key bound) es
   \<Longrightarrow> fold (\<lambda>env. if sizes_within key bound env then f env else id) es s = fold f es s"
  by (induction es arbitrary: s) simp_all

text \<open>
  C40.  Mitigation cannot run away: over every sequence of cycles of a new process, whatever the venues return, the
  adapters answer, the mitigation engine decides and the rest of the program writes, the orders the reconciler sends
  for one lot, sells of the lot and buys of its missing leg together, and that an adapter answered, add up to at most
  the configured multiple of the largest size in which the lot was ever seen.
\<close>

theorem volume_is_capped:
  assumes "list_all (sizes_within key bound) es" "0 \<le> bound"
  shows "answered_qty key (ss_log (fold (run_once sha1 (new_strand_config a u b p r m ad rec st)) es (new_strand_state db)))
    \<le> max 1 m * bound + 1 / 10 ^ 9"
proof -
  let ?s = "fold (run_once sha1 (new_strand_config a u b p r m ad rec st)) es (new_strand_state db)"
  have "cap_ok (max 1 m) key bound (fold (\<lambda>env. if sizes_within key bound env
      then run_once sha1 (new_strand_config a u b p r m ad rec st) env else id) es (new_strand_state db))"
    by (rule volume.run_inv [OF new_state_ok [OF assms(2)]])
  then have "cap_ok (max 1 m) key bound ?s" unfolding fold_within [OF assms(1)] .
  then have "answered_qty key (ss_log ?s) = dget (ss_cum ?s) key 0"
    "dget (ss_cum ?s) key 0 \<le> max 1 m * dget (ss_max_observed ?s) key 0 + 1 / 10 ^ 9"
    "dget (ss_max_observed ?s) key 0 \<le> bound"
    unfolding cap_ok_def by blast+
  moreover have "max 1 m * dget (ss_max_observed ?s) key 0 \<le> max 1 m * bound"
    by (rule mult_left_mono) (use calculation(3) in simp_all)
  ultimately show ?thesis by linarith
qed

section \<open>Witnesses\<close>

text \<open>
  A lot of 8 contracts at Kalshi, seen in every cycle; the adapter answers each sale and fills nothing that the
  program can see.
\<close>

definition cascade_lot :: stranded_position where
  "cascade_lot = (sample_lot 3 (2/10) (21/100))\<lparr>sp_qty := 8\<rparr>"

definition cascade_id :: lot_id where
  "cascade_id = (''kalshi'', ''KX-1'')"

definition cascade_cycle :: "flt \<Rightarrow> cycle_env" where
  "cascade_cycle now =
     \<lparr> ce_now = now, ce_kalshi = Some [cascade_lot], ce_polymarket = Some [], ce_forecastex = Some [],
       ce_kalshi_keys = True, ce_polymarket_keys = True, ce_forecastex_account = True, ce_inventory_fails = False,
       ce_mitigation = None, ce_prices = None, ce_prices_fail = False, ce_executions = Some [],
       ce_answer = (\<lambda>k. Some (demo_row_leg ''yes'' CANCELLED 0)),
       ce_persist_fails = True, ce_open_incidents = Some [], ce_arbs_fail = True, ce_close_fails = (\<lambda>i. False),
       ce_others = id \<rparr>"

definition cascade_adapters :: "(string, adapter_hooks) dict" where
  "cascade_adapters = [(''kalshi'', \<lparr>ah_unwind_sell = True, ah_fok = True\<rparr>)]"

definition cascade :: "cycle_env list" where
  "cascade = [cascade_cycle 1000, cascade_cycle 2000, cascade_cycle 3000, cascade_cycle 4000]"

lemma cascade_stops:
  "answered_qty cascade_id (ss_log (fold
     (run_once (\<lambda>t. t) (new_strand_config True 30 1000 (5/100) 300 2 cascade_adapters True True)) cascade
     (new_strand_state empty_db))) = 16"
  by code_simp

theorem volume_is_capped_witness:
  "answered_qty cascade_id (ss_log (fold
     (run_once (\<lambda>t. t) (new_strand_config True 30 1000 (5/100) 300 2 cascade_adapters True True)) cascade
     (new_strand_state empty_db))) \<le> 16 + 1 / 10 ^ 9"
proof -
  have sizes: "list_all (sizes_within cascade_id 8) cascade"
    by (simp add: cascade_def cascade_cycle_def cascade_lot_def sizes_within_def observed_def fetched_def)
  have "16 = max 1 2 * (8::flt)" by simp
  then show ?thesis by (simp only:) (rule volume_is_capped [OF sizes], simp)
qed

end
