(* ===== verification/Spec2Isabelle.thy ===== *)
theory Spec2Isabelle
  imports Prelude Fees Config Market_Map Retry Price_Store Opportunity Scanner Math_Auditor
    Orders Risk_Manager Supervisor Engine Manual_Flow Pipeline Live_Orders Recovery Live_Execution
    Failure_Tracker Auto_Executor Profitability Reconciler Readiness Parsing Retry_Scheduler
    Portfolio Kalshi_Adapter Kalshi_Book Kalshi_Recovery Execution_Store
    Startup_Recovery Mapping_Store Promotion Mitigation Stranded
begin
text \<open>
  A verification development of the trading core of \<open>arbiter\<close>, a scanner and executor for
  cross-venue arbitrage in binary prediction markets (Kalshi, Polymarket, ForecastEx).

  How the program works.  Collectors put venue quotes into the price store
  (\<open>arbiter/utils/price_store.py\<close>).  The scanner (\<open>arbiter/scanner/arbitrage.py\<close>) walks the
  confirmed market mappings (\<open>arbiter/config/settings.py\<close>), pairs the YES ask of one venue with the
  NO ask of another, subtracts the fees, sizes the order and publishes what is tradable.  The
  execution engine (\<open>arbiter/execution/engine.py\<close>) takes an opportunity through the risk manager,
  the deduplication, the mapping checks, the trade gate (\<open>arbiter/main.py\<close>, readiness first, then
  the kill switch of \<open>arbiter/safety/supervisor.py\<close>), a re-quote and the shadow auditor
  (\<open>arbiter/audit/math_auditor.py\<close>), and simulates it, queues it for an operator, or places it.

  Theories, in the order of the data flow:
    \<^item> \<open>Prelude\<close>: exact rationals for floats (\<open>flt\<close>), Python's rounding and string methods, dicts as
      association lists, bounded deques and queues, and the locales \<open>invariant_machine\<close> and
      \<open>guarded_machine\<close>, the contract between a component's operations and its invariant.
    \<^item> \<open>Fees\<close>: the fee schedules of the venues (\<open>settings.py\<close>), the dispatchers of the scanner and of
      the auditor; where the two agree and where not; bounds of the rounded fees.
    \<^item> \<open>Config\<close>: \<open>ScannerConfig\<close> and the per-pair floors.
    \<^item> \<open>Market_Map\<close>: the mapping cache, its upserts and the audited operator update.
    \<^item> \<open>Retry\<close>: \<open>CircuitBreaker\<close>, \<open>retry_with_backoff\<close>, \<open>RateLimiter\<close>, \<open>SessionManager\<close> of
      \<open>arbiter/utils/retry.py\<close>.
    \<^item> \<open>Price_Store\<close>: \<open>PriceStore\<close>, with its time window, sweep and history.
    \<^item> \<open>Opportunity\<close>, \<open>Scanner\<close>: \<open>ArbitrageOpportunity\<close> and \<open>ArbitrageScanner\<close>: construction, sizing,
      status, publication, the scan.
    \<^item> \<open>Math_Auditor\<close>: \<open>MathAuditor\<close>, the second calculator.
    \<^item> \<open>Orders\<close>: the engine's data; \<open>Risk_Manager\<close>: \<open>RiskManager\<close>, the exposure book and the gate.
    \<^item> \<open>Supervisor\<close>: the kill switch with its event store (\<open>arbiter/safety/persistence.py\<close>), its Redis
      flag and the chained gate.
    \<^item> \<open>Engine\<close>: \<open>ExecutionEngine\<close> from \<open>execute_opportunity\<close> to the simulation, the manual queue or the
      hand-over to live placement, with incidents and database failures; \<open>Manual_Flow\<close>: the
      operator's actions; \<open>Pipeline\<close>: the engine as one machine and the properties of its runs.
    \<^item> \<open>Live_Orders\<close>: one order of a real trade and the fallback chain of the second leg, on the adapters
      and the store of the environment; \<open>Recovery\<close>: cancelling, proving a leg dead, the two-phase
      unwind and the one-leg recovery; \<open>Live_Execution\<close>: \<open>_live_execution\<close> from the balance gate to the
      booked execution, and \<open>execute_opportunity\<close> with it.
    \<^item> \<open>Failure_Tracker\<close>: the sliding window of failures of \<open>failure_tracker.py\<close>; \<open>Auto_Executor\<close>: the
      policy around the engine of \<open>auto_executor.py\<close>.
    \<^item> \<open>Profitability\<close>: the evidence and the verdicts of \<open>profitability/validator.py\<close>, for the program
      and per venue pair, with the incident counting of \<open>execution/incidents.py\<close>; \<open>Reconciler\<close>: the
      P&L ledger, the deposits and the balance comparison of \<open>audit/pnl_reconciler.py\<close>; \<open>Readiness\<close>:
      the nine checks of \<open>readiness.py\<close>, their views per venue and pair, and \<open>allow_execution\<close>.
    \<^item> \<open>Retry_Scheduler\<close>: the second chance of a failed trade (\<open>retry_scheduler.py\<close>); \<open>Portfolio\<close>: the
      exposures and violations of \<open>portfolio/monitor.py\<close>.
    \<^item> \<open>Parsing\<close>: numbers in text and JSON values; \<open>Kalshi_Adapter\<close>: the orders of
      \<open>execution/adapters/kalshi.py\<close> and what it reads from the answers; \<open>Kalshi_Book\<close>: its order book;
      \<open>Kalshi_Recovery\<close>: its cancels and reads, and what they mean for the recovery of the engine.
    \<^item> \<open>Execution_Store\<close>: the tables of \<open>execution/store.py\<close>, their keys and references, every statement
      on them, the half-recorded arbs and the history a restart loads; \<open>execution/order_identity.py\<close>.
      \<open>Startup_Recovery\<close>: what a start and the poller of stuck trades make of them (\<open>recovery.py\<close>,
      \<open>stuck_trade_recovery.py\<close>, \<open>main.py\<close>).
    \<^item> \<open>Mapping_Store\<close>: the table of mappings of \<open>mapping/market_map.py\<close>, its operations and the invariant
      they keep, what discovery may change in it, and the sweep of \<open>mapping/expire_settled.py\<close>.
      \<open>Promotion\<close>: the gates a candidate passes before it may trade (\<open>mapping/auto_promote.py\<close>), the
      resolution check and the coherence detectors (\<open>resolution_check.py\<close>, \<open>coherence.py\<close>), and the pass
      of the start over the store.
    \<^item> \<open>Mitigation\<close>: what \<open>recovery/mitigation_engine.py\<close> decides for a position that no arb explains;
      \<open>Stranded\<close>: the cycle of \<open>recovery/stranded_reconciler.py\<close> over what the venues hold, its orders
      within the volume cap, and the sweep over records without a position.
    \<^item> This theory: the properties that span the scanner and the auditor.

  Conventions.  A class is a record with the class's fields, prefixed; a method is a function from
  the record (and what it reads from outside: the clock, random numbers, network answers) to the
  new record and the result.  \<open>None\<close>, exceptions and early returns are values of an option, a sum or
  a datatype of verdicts.  Floats are exact rationals: the theorems speak of the formulas, not of
  the rounding error of IEEE arithmetic; explicit calls of \<open>round\<close>, \<open>int\<close> and \<open>ceil\<close> are modelled
  exactly.  The asyncio locks make each operation one step; interleavings are sequences of steps,
  and the environment of a step (what Redis, the database, an adapter or the gate answers) may
  differ from step to step.  A venue adapter is a record of functions that answer the n-th call made
  to it; a live trade logs its calls, so that what is sent is a list; one trade reads the clock
  once.  Logging and message formatting are left out; the text of an f-string is kept with \<open>{}\<close> for
  its numbers.

  What the lemmas show.  Each state machine has an invariant that every operation keeps, proved
  once through an interpretation of a machine locale (\<open>mapping_cache\<close>, \<open>breaker\<close>, \<open>limiter\<close>,
  \<open>store\<close>, \<open>scanning\<close>, \<open>auditing\<close>, \<open>risk\<close>, \<open>trail\<close>, \<open>engine_runs\<close>, \<open>volume\<close>); the properties of runs follow from
  it.  The trade gate is the interface \<open>trade_gate\<close>, met by the kill switch and by the chain; the
  engine relies on it only through that contract.  The fee schedules meet \<open>fee_schedule\<close> and the
  floors \<open>pair_floor\<close>.  The central results are in \<open>Pipeline\<close>: what is traded passed every gate,
  is worth its edge floor at the prices it is passed on with, whichever way the event goes, is not repeated within the dedup window,
  and no execution passes an armed kill switch.  In \<open>Engine\<close> a live result is the hand-over to live
  placement, which adds nothing to the list of executions there; \<open>Live_Execution\<close> carries these gates to the orders
  that are sent: only after every gate, first one leg, then at most a hedge of what it filled.

  Fuel.  Only \<open>RateLimiter.acquire\<close> is a loop without a structural bound; it has fuel, and three
  turns are proved to be enough.  The retry loop recurses on the attempts that are left, the depth
  loops on the quantity they halve, the polling loops on the rounds the code allows.

  Not modelled: the position ledger, the automatic resolvers of incidents and of ForecastEx orders
  (\<open>recovery/auto_resolver.py\<close>, \<open>recovery/forecastex_resolver.py\<close>), the discovery of markets, the
  adapters of Polymarket and ForecastEx, the collectors and the position fetchers (their answers are
  parameters), the HTTP surface and the notifiers.
\<close>

section \<open>The scanner and the shadow auditor\<close>

lemma built_fees_agree:
  assumes "well_priced p"
    and "opp_yes_platform p = ''polymarket'' \<Longrightarrow> opp_yes_fee_rate p \<noteq> 0"
    and "opp_no_platform p = ''polymarket'' \<Longrightarrow> opp_no_fee_rate p \<noteq> 0"
  shows "shadow_fee_a mp p = opp_yes_fee p" "shadow_fee_b mp p = opp_no_fee p"
proof -
  have q: "qty_for_fee mp p = opp_suggested_qty p" "0 < opp_suggested_qty p"
    using assms(1) by (auto simp: qty_for_fee_def well_priced_def Let_def)
  have pr: "0 < opp_yes_price p" "opp_yes_price p < 1" "0 < opp_no_price p" "opp_no_price p < 1"
    using assms(1) by (auto simp: well_priced_def)
  show "shadow_fee_a mp p = opp_yes_fee p"
    using fee_agreement[OF pr(1,2) q(2) assms(2)] assms(1)
    by (simp add: shadow_fee_a_def q(1) well_priced_def)
  show "shadow_fee_b mp p = opp_no_fee p"
    using fee_agreement[OF pr(3,4) q(2) assms(3)] assms(1)
    by (simp add: shadow_fee_b_def q(1) well_priced_def)
qed

lemma sized_within_shadow:
  assumes "compute_position_size cfg bal yes_pp no_pp yp np e skips = (skips', n)" "0 < n"
    and "0 < yp" "0 < np"
  shows "n \<le> shadow_position_size (max_position_usd cfg) yp np
               (min (pp_yes_volume yes_pp) (pp_no_volume no_pp))"
proof -
  let ?c = "max (yp + np) (1/100)"
  obtain l f r where caps: "balance_caps cfg bal yes_pp no_pp yp np e
      (py_int (max_position_usd cfg / ?c)) = (l, f, r)"
    by (metis prod_cases3)
  note bounds = natural_size_caps[OF assms(2) size_cases(1)[OF assms(1,2)] refl caps]
  have "0 < max_position_usd cfg / ?c"
    using py_int_ge[OF assms(2) bounds(1)] assms(2) by linarith
  moreover have "0 < ?c" by simp
  ultimately have "0 < max_position_usd cfg" by (simp add: zero_less_divide_iff)
  then have "max_position_usd cfg / ?c \<le> max_position_usd cfg / (yp + np)"
    using assms(3,4) by (intro divide_left_mono) simp_all
  from py_int_mono[OF this] bounds(1) have "n \<le> py_int (max_position_usd cfg / (yp + np))"
    by simp
  then show ?thesis
    using bounds(2) assms(3,4) unfolding shadow_position_size_def Let_def by auto
qed

lemma shadow_size_pos: "0 < yp + np \<Longrightarrow> 1 \<le> shadow_position_size mp yp np l"
  by (simp add: shadow_position_size_def Let_def)

text \<open>
  C27.  The two independent calculators agree: every opportunity the scanner builds passes the
  shadow audit under the same position limit, as long as a Polymarket quote carries a fee rate
  that is not zero.
\<close>

theorem built_opportunity_passes_audit:
  assumes "build_opportunity cfg fx bal now cid d ms sc yes_pp no_pp skips = (skips', Some p)"
    and "pp_platform yes_pp = ''polymarket'' \<Longrightarrow> pp_fee_rate yes_pp \<noteq> 0"
    and "pp_platform no_pp = ''polymarket'' \<Longrightarrow> pp_fee_rate no_pp \<noteq> 0"
    and "ma_max_position_usd a = max_position_usd cfg"
  shows "ar_passed (snd (audit_opportunity now' p a))"
proof -
  have wp: "well_priced p" using assms(1) by (rule built_well_priced)
  from assms(1) show ?thesis
  proof (rule build_Some)
    fix qty
    assume p: "p = make_opportunity cfg now cid d ms sc yes_pp no_pp qty" and q: "0 < qty"
      and asks: "0 < pp_yes_ask yes_pp" "0 < pp_no_ask no_pp"
      and sized: "min (pp_yes_volume yes_pp) (pp_no_volume no_pp)
           < min_liquidity_for_pair cfg (pp_platform yes_pp) (pp_platform no_pp) \<and> qty = 1
         \<or> compute_position_size cfg bal yes_pp no_pp (pp_yes_ask yes_pp) (pp_no_ask no_pp)
             ((1 - pp_yes_ask yes_pp - pp_no_ask no_pp) * 100) skips = (skips', qty)"
    have fees: "shadow_fee_a (max_position_usd cfg) p = opp_yes_fee p"
      "shadow_fee_b (max_position_usd cfg) p = opp_no_fee p"
      using built_fees_agree[OF wp] assms(2,3) by (simp_all add: p)
    have size: "opp_suggested_qty p \<le> shadow_position_size (max_position_usd cfg) (opp_yes_price p)
        (opp_no_price p) (opp_min_available_liquidity p)"
      using sized sized_within_shadow[OF _ q asks] shadow_size_pos[of "pp_yes_ask yes_pp" "pp_no_ask no_pp"]
        asks by (auto simp: p)
    have profit: "\<bar>opp_max_profit_usd p - opp_net_edge p * of_int (opp_suggested_qty p)\<bar> \<le> 1/1000"
      using round_nd_error[of 4 "opp_net_edge p * of_int (opp_suggested_qty p)"] wp
      by (simp add: well_priced_def)
    have net: "shadow_net (max_position_usd cfg) p = opp_net_edge p"
      using wp fees by (simp add: shadow_net_def shadow_gross_def well_priced_def)
    have "audit_flags (max_position_usd cfg) p = []"
      unfolding audit_flags_Nil net fees using wp size profit
      by (simp add: shadow_gross_def well_priced_def)
    then show ?thesis by (simp add: audit_opportunity_def Let_def assms(4))
  qed
qed

theorem built_opportunity_passes_audit_witness:
  "\<exists>p. build_opportunity default_scanner_config 60 NoProvider 52 ''A'' ''demo'' ''confirmed'' 1
       demo_yes demo_no [] = ([], Some p)
     \<and> ar_passed (snd (audit_opportunity 52 p (new_auditor 100)))"
proof -
  obtain p where p: "build_opportunity default_scanner_config 60 NoProvider 52 ''A'' ''demo''
      ''confirmed'' 1 demo_yes demo_no [] = ([], Some p)"
    using demo_builds by blast
  with built_opportunity_passes_audit[OF p, of "new_auditor 100" 52] show ?thesis
    by (auto simp: demo_yes_def demo_no_def demo_point_def default_scanner_config_def new_auditor_def)
qed

end
